(* ===== verification/Prelude.thy ===== *)
theory Prelude
  imports Main "HOL-Library.Multiset" "HOL-Library.Sublist" "HOL-Library.List_Lexorder" "HOL-Library.Char_ord"
begin

text \<open>
  Shared vocabulary of the development: result values for code that throws, the loop
  shapes of the source (\<open>for ... of\<close> with or without a \<open>try\<close>), facts on finite
  sums and association lists, and the fact collections the component theories extend.
\<close>

section \<open>Collections\<close>

named_theorems js_simps "evaluation of JavaScript number operations"
named_theorems ledger_simps "characteristic equations of the ledger's primitives"
named_theorems inv_intros "one operation keeps the invariant of its component"
named_theorems frame_simps "fields an operation leaves alone"

section \<open>Results\<close>

text \<open>
  A method of the source either returns or throws: \<open>Inl\<close> carries the error, \<open>Inr\<close> the
  value. \<open>rbind\<close> is the sequencing of an \<open>await\<close> followed by the rest of the body.
\<close>

fun rbind :: "'e + 'a \<Rightarrow> ('a \<Rightarrow> 'e + 'b) \<Rightarrow> 'e + 'b" where
  "rbind (Inl e) f = Inl e"
| "rbind (Inr a) f = f a"

lemma rbind_Inr_iff: "rbind r f = Inr b \<longleftrightarrow> (\<exists>a. r = Inr a \<and> f a = Inr b)"
  by (cases r) auto

lemma rbind_Inl_iff: "rbind r f = Inl e \<longleftrightarrow> r = Inl e \<or> (\<exists>a. r = Inr a \<and> f a = Inl e)"
  by (cases r) auto

text \<open>A loop whose body may throw: the first error leaves the loop.\<close>

fun rfold :: "('s \<Rightarrow> 'x \<Rightarrow> 'e + 's) \<Rightarrow> 's \<Rightarrow> 'x list \<Rightarrow> 'e + 's" where
  "rfold f s [] = Inr s"
| "rfold f s (x # xs) = rbind (f s x) (\<lambda>s'. rfold f s' xs)"

lemma rfold_append: "rfold f s (xs @ ys) = rbind (rfold f s xs) (\<lambda>s'. rfold f s' ys)"
proof (induction xs arbitrary: s)
  case Nil
  then show ?case by simp
next
  case (Cons x xs)
  then show ?case by (cases "f s x") auto
qed

text \<open>An invariant of the body is an invariant of the loop.\<close>

lemma rfold_invariant:
  assumes "rfold f s xs = Inr t" and "P s"
    and "\<And>s x s'. x \<in> set xs \<Longrightarrow> P s \<Longrightarrow> f s x = Inr s' \<Longrightarrow> P s'"
  shows "P t"
  using assms
proof (induction xs arbitrary: s)
  case Nil
  then show ?case by simp
next
  case (Cons x xs)
  from Cons.prems(1) obtain s' where s': "f s x = Inr s'" "rfold f s' xs = Inr t"
    by (auto simp: rbind_Inr_iff)
  have "P s'" using Cons.prems(2,3) s'(1) by (meson list.set_intros(1))
  then show ?case
    using Cons.IH[OF s'(2)] Cons.prems(3) by (meson list.set_intros(2))
qed

text \<open>\<open>xs.map(f)\<close> where \<open>f\<close> may throw.\<close>

fun rmap :: "('a \<Rightarrow> 'e + 'b) \<Rightarrow> 'a list \<Rightarrow> 'e + 'b list" where
  "rmap f [] = Inr []"
| "rmap f (x # xs) = rbind (f x) (\<lambda>y. rbind (rmap f xs) (\<lambda>ys. Inr (y # ys)))"

lemma rmap_Inr_iff: "rmap f xs = Inr ys \<longleftrightarrow> list_all2 (\<lambda>x y. f x = Inr y) xs ys"
proof (induction xs arbitrary: ys)
  case Nil
  then show ?case by auto
next
  case (Cons x xs)
  then show ?case by (cases ys) (auto simp: rbind_Inr_iff)
qed

text \<open>A string in a condition: \<open>undefined\<close> and the empty string are false.\<close>

definition truthy :: "string option \<Rightarrow> bool" where
  "truthy x \<longleftrightarrow> (case x of None \<Rightarrow> False | Some s \<Rightarrow> s \<noteq> [])"

section \<open>Effects that survive an error\<close>

text \<open>
  Code outside a transaction keeps what it did before it threw: an action returns the new state
  next to its result or error. A transaction is lifted by \<open>atomically\<close>, which keeps the old
  state on an error.
\<close>

type_synonym ('s, 'e, 'a) act = "'s \<Rightarrow> ('e + 'a) \<times> 's"

definition areturn :: "'a \<Rightarrow> ('s, 'e, 'a) act" where
  "areturn a s = (Inr a, s)"

definition athrow :: "'e \<Rightarrow> ('s, 'e, 'a) act" where
  "athrow e s = (Inl e, s)"

definition abind :: "('s, 'e, 'a) act \<Rightarrow> ('a \<Rightarrow> ('s, 'e, 'b) act) \<Rightarrow> ('s, 'e, 'b) act" where
  "abind m f s = (case m s of (Inl e, s') \<Rightarrow> (Inl e, s') | (Inr a, s') \<Rightarrow> f a s')"

definition acatch :: "('s, 'e, 'a) act \<Rightarrow> ('e \<Rightarrow> ('s, 'f, 'a) act) \<Rightarrow> ('s, 'f, 'a) act" where
  "acatch m h s = (case m s of (Inl e, s') \<Rightarrow> h e s' | (Inr a, s') \<Rightarrow> (Inr a, s'))"

definition atomically :: "('s \<Rightarrow> 'e + 'a \<times> 's) \<Rightarrow> ('s, 'e, 'a) act" where
  "atomically tx s = (case tx s of Inl e \<Rightarrow> (Inl e, s) | Inr (a, s') \<Rightarrow> (Inr a, s'))"

definition aquery :: "('s \<Rightarrow> 'e + 'a) \<Rightarrow> ('s, 'e, 'a) act" where
  "aquery q s = (q s, s)"

definition amodify :: "('s \<Rightarrow> 's) \<Rightarrow> ('s, 'e, unit) act" where
  "amodify f s = (Inr (), f s)"

definition awhen :: "bool \<Rightarrow> ('s, 'e, unit) act \<Rightarrow> ('s, 'e, unit) act" where
  "awhen b m = (if b then m else areturn ())"

text \<open>A \<open>for ... of\<close> loop of actions: the first error leaves it.\<close>

primrec afor :: "('x \<Rightarrow> ('s, 'e, unit) act) \<Rightarrow> 'x list \<Rightarrow> ('s, 'e, unit) act" where
  "afor f [] = areturn ()"
| "afor f (x # xs) = abind (f x) (\<lambda>_. afor f xs)"

lemmas act_defs = areturn_def athrow_def abind_def acatch_def atomically_def aquery_def amodify_def
  awhen_def

text \<open>An action that only moves the state along a reflexive and transitive relation.\<close>

definition moves :: "('s \<Rightarrow> 's \<Rightarrow> bool) \<Rightarrow> ('s, 'e, 'a) act \<Rightarrow> bool" where
  "moves R m \<longleftrightarrow> (\<forall>s. R\<^sup>*\<^sup>* s (snd (m s)))"

named_theorems moves_intros "actions that only move the state along a relation"

lemma moves_return [moves_intros]: "moves R (areturn a)"
  by (simp add: moves_def areturn_def)

lemma moves_throw [moves_intros]: "moves R (athrow e)"
  by (simp add: moves_def athrow_def)

lemma moves_query [moves_intros]: "moves R (aquery q)"
  by (simp add: moves_def aquery_def)

lemma moves_bind [moves_intros]:
  assumes "moves R m" "\<And>a. moves R (f a)"
  shows "moves R (abind m f)"
  unfolding moves_def
proof
  fix s
  show "R\<^sup>*\<^sup>* s (snd (abind m f s))"
  proof (cases "m s")
    case (Pair r t)
    then have "R\<^sup>*\<^sup>* s t" using assms(1) by (metis moves_def snd_conv)
    then show ?thesis
      using Pair assms(2) by (cases r) (auto simp: abind_def moves_def intro: rtranclp_trans)
  qed
qed

lemma moves_catch [moves_intros]:
  assumes "moves R m" "\<And>e. moves R (h e)"
  shows "moves R (acatch m h)"
  unfolding moves_def
proof
  fix s
  show "R\<^sup>*\<^sup>* s (snd (acatch m h s))"
  proof (cases "m s")
    case (Pair r t)
    then have "R\<^sup>*\<^sup>* s t" using assms(1) by (metis moves_def snd_conv)
    then show ?thesis
      using Pair assms(2) by (cases r) (auto simp: acatch_def moves_def intro: rtranclp_trans)
  qed
qed

lemma moves_atomically:
  assumes "\<And>s a s'. tx s = Inr (a, s') \<Longrightarrow> R\<^sup>*\<^sup>* s s'"
  shows "moves R (atomically tx)"
  using assms by (auto simp: moves_def atomically_def split: sum.splits)

lemma moves_modify: "(\<And>s. R\<^sup>*\<^sup>* s (f s)) \<Longrightarrow> moves R (amodify f)"
  by (simp add: moves_def amodify_def)

lemma moves_for: "(\<And>x. moves R (f x)) \<Longrightarrow> moves R (afor f xs)"
  by (induction xs) (auto intro: moves_return moves_bind)

lemma moves_when [moves_intros]: "moves R m \<Longrightarrow> moves R (awhen b m)"
  by (simp add: awhen_def moves_return)

lemma moves_if [moves_intros]: "moves R m \<Longrightarrow> moves R n \<Longrightarrow> moves R (if b then m else n)"
  by simp

section \<open>Loops that catch their errors\<close>

text \<open>
  The crons of the source are loops whose body catches everything it throws, so the loop is
  a fold over a total step. An interface of the kind "every step keeps \<open>inv\<close> and only moves
  the state up the relation \<open>le\<close>" is shared by all of them.
\<close>

locale step_contract =
  fixes step :: "'s \<Rightarrow> 'x \<Rightarrow> 's"
    and inv :: "'s \<Rightarrow> bool"
    and le :: "'s \<Rightarrow> 's \<Rightarrow> bool"
  assumes step_inv: "inv s \<Longrightarrow> inv (step s x)"
    and step_le: "inv s \<Longrightarrow> le s (step s x)"
    and le_refl: "le s s"
    and le_trans: "le s t \<Longrightarrow> le t u \<Longrightarrow> le s u"
begin

lemma loop_inv: "inv s \<Longrightarrow> inv (foldl step s xs)"
  by (induction xs arbitrary: s) (auto intro: step_inv)

lemma loop_le: "inv s \<Longrightarrow> le s (foldl step s xs)"
proof (induction xs arbitrary: s)
  case Nil
  then show ?case by (simp add: le_refl)
next
  case (Cons x xs)
  then show ?case by (auto intro: le_trans step_le step_inv)
qed

end

section \<open>Sums\<close>

lemma sum_list_filter_split:
  "sum_list (map f xs) = sum_list (map f (filter P xs)) + sum_list (map f (filter (\<lambda>x. \<not> P x) xs))"
  for f :: "'a \<Rightarrow> 'b::comm_monoid_add"
  by (induction xs) (auto simp: ac_simps)

lemma sum_list_mono_nonneg:
  fixes f :: "'a \<Rightarrow> int"
  assumes "\<And>x. x \<in> set xs \<Longrightarrow> 0 \<le> f x"
  shows "0 \<le> sum_list (map f xs)"
  using assms by (induction xs) auto

lemma sum_list_sort_key:
  fixes f :: "'a \<Rightarrow> 'b::comm_monoid_add"
  shows "sum_list (map f (sort_key k xs)) = sum_list (map f xs)"
proof -
  have "mset (map f (sort_key k xs)) = mset (map f xs)" by simp
  then show ?thesis by (metis sum_mset_sum_list)
qed

end
