(* ===== verification/JsNumber.thy ===== *)
theory JsNumber
  imports Prelude "HOL-Library.Log_Nat" Complex_Main
begin

text \<open>
  JavaScript numbers. The source computes amounts with the language's \<open>number\<close> type, that is
  IEEE-754 binary64. A finite number is modelled by the rational it denotes, and every
  arithmetic operation of the source is the exact operation followed by \<open>fl\<close>, rounding to
  the nearest binary64 value with ties to even (subnormals included; overflow to infinity is
  not modelled: no amount of the program comes near \<open>2 ^ 1024\<close>). \<open>Math.round\<close> rounds half
  up, \<open>Math.floor\<close> and \<open>Math.ceil\<close> are the mathematical ones.

  The lemmas are the facts the billing code relies on: integers up to \<open>2 ^ 53\<close> are exact, a
  rounded result is within half a unit in the last place, and a quotient never rounds up
  onto an integer it did not reach.
\<close>

section \<open>Rounding to binary64\<close>

definition round_half_even :: "rat \<Rightarrow> int" where
  "round_half_even y =
     (let f = \<lfloor>y\<rfloor>; d = y - of_int f
      in if d < 1 / 2 then f else if 1 / 2 < d then f + 1 else if even f then f else f + 1)"

definition two_pow :: "int \<Rightarrow> rat" where
  "two_pow e = (if 0 \<le> e then 2 ^ nat e else 1 / 2 ^ nat (- e))"

text \<open>The binary exponent: \<open>2 ^ e \<le> \<bar>x\<bar> < 2 ^ (e + 1)\<close> for \<open>x \<noteq> 0\<close>.\<close>

definition expo :: "rat \<Rightarrow> int" where
  "expo x = (let (p, q) = quotient_of \<bar>x\<bar>; e = bitlen p - bitlen q
             in if two_pow e \<le> \<bar>x\<bar> then e else e - 1)"

definition ulp_expo :: "rat \<Rightarrow> int" where
  "ulp_expo x = max (expo x - 52) (- 1074)"

definition fl :: "rat \<Rightarrow> rat" where
  "fl x = (if x = 0 then 0
           else of_int (round_half_even (x / two_pow (ulp_expo x))) * two_pow (ulp_expo x))"

section \<open>The Math functions and the integer tests\<close>

definition js_round :: "rat \<Rightarrow> int" where
  "js_round x = \<lfloor>x + 1 / 2\<rfloor>"

definition js_floor :: "rat \<Rightarrow> int" where
  "js_floor x = \<lfloor>x\<rfloor>"

definition js_ceil :: "rat \<Rightarrow> int" where
  "js_ceil x = \<lceil>x\<rceil>"

definition js_mul :: "rat \<Rightarrow> rat \<Rightarrow> rat" where
  "js_mul a b = fl (a * b)"

definition js_div :: "rat \<Rightarrow> rat \<Rightarrow> rat" where
  "js_div a b = fl (a / b)"

definition js_add :: "rat \<Rightarrow> rat \<Rightarrow> rat" where
  "js_add a b = fl (a + b)"

definition js_sub :: "rat \<Rightarrow> rat \<Rightarrow> rat" where
  "js_sub a b = fl (a - b)"

definition max_safe_integer :: int where
  "max_safe_integer = 2 ^ 53 - 1"

definition is_integer :: "rat \<Rightarrow> bool" where
  "is_integer x \<longleftrightarrow> of_int \<lfloor>x\<rfloor> = x"

definition is_safe_integer :: "int \<Rightarrow> bool" where
  "is_safe_integer n \<longleftrightarrow> \<bar>n\<bar> \<le> max_safe_integer"

text \<open>\<open>Number(b)\<close> of a big integer: the nearest binary64 value.\<close>

definition number_of_bigint :: "int \<Rightarrow> rat" where
  "number_of_bigint n = fl (of_int n)"

section \<open>Exponent and rounding error\<close>

lemma two_pow_pos [simp]: "0 < two_pow e"
  by (simp add: two_pow_def)

lemma two_pow_nonzero [simp]: "two_pow e \<noteq> 0"
  using two_pow_pos[of e] by linarith

lemma two_pow_nat: "two_pow (int n) = 2 ^ n"
  by (simp add: two_pow_def)

lemma two_pow_neg: "two_pow (- int n) = 1 / 2 ^ n"
  by (cases "n = 0") (auto simp: two_pow_def)

lemma two_pow_powi: "two_pow e = 2 powi e"
  by (simp add: two_pow_def power_int_def inverse_eq_divide power_one_over)

lemma two_pow_add: "two_pow (a + b) = two_pow a * two_pow b"
  by (simp add: two_pow_powi power_int_add)

lemma two_pow_mono: "a \<le> b \<Longrightarrow> two_pow a \<le> two_pow b"
  by (simp add: two_pow_powi power_int_increasing)

lemma two_pow_strict_mono: "a < b \<Longrightarrow> two_pow a < two_pow b"
  by (simp add: two_pow_powi power_int_strict_increasing)

lemma two_pow_less_iff: "two_pow a < two_pow b \<longleftrightarrow> a < b"
  by (meson leD not_le_imp_less two_pow_mono two_pow_strict_mono)

lemma bitlen_two_pow:
  assumes "0 < p"
  shows "two_pow (bitlen p - 1) \<le> of_int p" "of_int p < two_pow (bitlen p)"
proof -
  have b: "0 < bitlen p"
    using assms bitlen_eq_zero_iff[of p] bitlen_nonneg[of p] by linarith
  have "2 ^ nat (bitlen p - 1) \<le> p \<and> p < 2 ^ nat (bitlen p)"
    using assms by (rule bitlen_bounds)
  then have "(of_int (2 ^ nat (bitlen p - 1)) :: rat) \<le> of_int p
      \<and> (of_int p :: rat) < of_int (2 ^ nat (bitlen p))"
    by (simp only: of_int_le_iff of_int_less_iff)
  then show "two_pow (bitlen p - 1) \<le> of_int p" "of_int p < two_pow (bitlen p)"
    using b by (auto simp: two_pow_def)
qed

lemma expo_bounds:
  assumes "x \<noteq> 0"
  shows "two_pow (expo x) \<le> \<bar>x\<bar>" "\<bar>x\<bar> < two_pow (expo x + 1)"
proof -
  obtain p q where pq: "quotient_of \<bar>x\<bar> = (p, q)" by fastforce
  have q: "0 < q" using quotient_of_denom_pos[OF pq] .
  have xpq: "\<bar>x\<bar> = of_int p / of_int q" using quotient_of_div[OF pq] .
  have "0 < \<bar>x\<bar>" using assms by simp
  with xpq q have p: "0 < p" by (metis of_int_0_less_iff zero_less_divide_iff less_asym)
  let ?e = "bitlen p - bitlen q"
  note bp = bitlen_two_pow[OF p] and bq = bitlen_two_pow[OF q]
  have hi: "\<bar>x\<bar> < two_pow (?e + 1)"
  proof -
    have "of_int p < two_pow (?e + 1) * two_pow (bitlen q - 1)"
      using bp(2) by (simp add: two_pow_add[symmetric] algebra_simps)
    also have "\<dots> \<le> two_pow (?e + 1) * of_int q"
      using bq(1) by (simp add: mult_left_mono less_imp_le)
    finally show ?thesis using q xpq by (simp add: pos_divide_less_eq)
  qed
  have lo: "two_pow (?e - 1) \<le> \<bar>x\<bar>"
  proof -
    have "two_pow (?e - 1) * of_int q \<le> two_pow (?e - 1) * two_pow (bitlen q)"
      using bq(2) by (simp add: mult_left_mono less_imp_le)
    also have "\<dots> = two_pow (bitlen p - 1)" by (simp add: two_pow_add[symmetric] algebra_simps)
    also have "\<dots> \<le> of_int p" by (rule bp(1))
    finally show ?thesis using q xpq by (simp add: pos_le_divide_eq)
  qed
  show "two_pow (expo x) \<le> \<bar>x\<bar>" "\<bar>x\<bar> < two_pow (expo x + 1)"
    using lo hi by (auto simp: expo_def pq Let_def)
qed

lemma expo_unique: "two_pow e \<le> \<bar>x\<bar> \<Longrightarrow> \<bar>x\<bar> < two_pow (e + 1) \<Longrightarrow> expo x = e"
proof -
  assume a: "two_pow e \<le> \<bar>x\<bar>" "\<bar>x\<bar> < two_pow (e + 1)"
  have "0 < \<bar>x\<bar>" using a(1) two_pow_pos[of e] by linarith
  then have "x \<noteq> 0" by simp
  note b = expo_bounds[OF this]
  have "two_pow e < two_pow (expo x + 1)" "two_pow (expo x) < two_pow (e + 1)"
    using a b by linarith+
  then show ?thesis by (simp add: two_pow_less_iff)
qed

lemma round_half_even_error: "\<bar>of_int (round_half_even y) - y\<bar> \<le> 1 / 2"
  using floor_correct[of y] by (auto simp: round_half_even_def Let_def)

lemma round_half_even_of_int [simp]: "round_half_even (of_int n) = n"
  by (simp add: round_half_even_def)

lemma round_half_even_mono:
  assumes "x \<le> y"
  shows "round_half_even x \<le> round_half_even y"
proof -
  have f: "\<lfloor>x\<rfloor> \<le> \<lfloor>y\<rfloor>" using assms by (rule floor_mono)
  have le: "round_half_even x \<le> \<lfloor>x\<rfloor> + 1" "\<lfloor>y\<rfloor> \<le> round_half_even y"
    by (auto simp: round_half_even_def Let_def)
  show ?thesis
  proof (cases "\<lfloor>x\<rfloor> = \<lfloor>y\<rfloor>")
    case True
    with assms show ?thesis by (auto simp: round_half_even_def Let_def)
  next
    case False
    with f le show ?thesis by linarith
  qed
qed

lemma fl_error: "\<bar>fl x - x\<bar> \<le> two_pow (ulp_expo x) / 2"
proof (cases "x = 0")
  case True
  then show ?thesis by (simp add: fl_def less_imp_le)
next
  case False
  let ?u = "two_pow (ulp_expo x)"
  have "\<bar>of_int (round_half_even (x / ?u)) - x / ?u\<bar> * ?u \<le> 1 / 2 * ?u"
    by (intro mult_right_mono round_half_even_error) (simp add: less_imp_le)
  moreover have "\<bar>of_int (round_half_even (x / ?u)) - x / ?u\<bar> * ?u = \<bar>fl x - x\<bar>"
  proof -
    have "fl x - x = (of_int (round_half_even (x / ?u)) - x / ?u) * ?u"
      using False by (simp add: fl_def algebra_simps)
    then show ?thesis by (simp add: abs_mult less_imp_le)
  qed
  ultimately show ?thesis by simp
qed

lemma fl_0 [simp]: "fl 0 = 0"
  by (simp add: fl_def)

lemma fl_mult_ulp:
  assumes "x / two_pow (ulp_expo x) = of_int n"
  shows "fl x = x"
proof -
  have "x = of_int n * two_pow (ulp_expo x)" using assms by (simp add: divide_eq_eq)
  then show ?thesis by (simp add: fl_def assms)
qed

text \<open>Integers up to \<open>2 ^ 53\<close> are binary64 values.\<close>

lemma two_pow_as_int: "0 \<le> e \<Longrightarrow> two_pow e = of_int (2 ^ nat e)"
  by (simp add: two_pow_def)

lemma expo_int_le:
  assumes "n \<noteq> 0" "\<bar>n\<bar> \<le> 2 ^ 53"
  shows "0 \<le> expo (of_int n)" "expo (of_int n) \<le> 53"
proof -
  have nz: "(of_int n :: rat) \<noteq> 0" using assms by simp
  note b = expo_bounds[OF nz]
  have "two_pow 0 \<le> \<bar>of_int n :: rat\<bar>" using assms by (simp add: two_pow_def)
  then have "two_pow 0 < two_pow (expo (of_int n) + 1)" using b(2) by linarith
  then show "0 \<le> expo (of_int n)" by (simp add: two_pow_less_iff)
  have "\<bar>of_int n :: rat\<bar> \<le> 2 ^ 53"
    using assms(2) by (metis of_int_abs of_int_le_iff of_int_numeral of_int_power)
  also have "(2 ^ 53 :: rat) < two_pow 54" by (simp add: two_pow_def)
  finally have "two_pow (expo (of_int n)) < two_pow 54" using b(1) by linarith
  then show "expo (of_int n) \<le> 53" by (simp add: two_pow_less_iff)
qed

lemma fl_of_int:
  assumes "\<bar>n\<bar> \<le> 2 ^ 53"
  shows "fl (of_int n) = of_int n"
proof (cases "n = 0")
  case True
  then show ?thesis by simp
next
  case False
  note e = expo_int_le[OF False assms]
  let ?x = "of_int n :: rat"
  show ?thesis
  proof (cases "expo ?x \<le> 52")
    case True
    then have u: "ulp_expo ?x = - int (nat (52 - expo ?x))" using e by (auto simp: ulp_expo_def)
    have "?x / two_pow (ulp_expo ?x) = of_int (n * 2 ^ nat (52 - expo ?x))"
      unfolding u two_pow_neg by simp
    then show ?thesis by (rule fl_mult_ulp)
  next
    case f: False
    then have e53: "expo ?x = 53" using e by simp
    have "two_pow 53 \<le> \<bar>?x\<bar>" using expo_bounds(1)[of ?x] False e53 by simp
    then have "(2 ^ 53 :: int) \<le> \<bar>n\<bar>"
      by (simp add: two_pow_def)
    with assms have "\<bar>n\<bar> = 2 ^ 53" by simp
    then have "n = 2 ^ 53 \<or> n = - (2 ^ 53)" by linarith
    then have "?x / two_pow (ulp_expo ?x) = of_int (n div 2)"
      by (auto simp: ulp_expo_def e53 two_pow_def)
    then show ?thesis by (rule fl_mult_ulp)
  qed
qed

lemma fl_safe: "is_safe_integer n \<Longrightarrow> fl (of_int n) = of_int n"
  by (rule fl_of_int) (simp add: is_safe_integer_def max_safe_integer_def)

section \<open>Symmetry and monotonicity\<close>

lemma round_half_even_minus: "round_half_even (- y) = - round_half_even y"
proof (cases "of_int \<lfloor>y\<rfloor> = y")
  case True
  then obtain n where "y = of_int n" by metis
  then show ?thesis
    using round_half_even_of_int[of "- n"] by simp
next
  case False
  have lt: "of_int \<lfloor>y\<rfloor> < y" using False of_int_floor_le[of y] by linarith
  then have "\<lfloor>- y\<rfloor> = - \<lfloor>y\<rfloor> - 1"
    using floor_correct[of y] by (intro floor_unique) auto
  then show ?thesis by (auto simp: round_half_even_def Let_def)
qed

lemma expo_minus [simp]: "expo (- x) = expo x"
  by (simp add: expo_def)

lemma fl_minus: "fl (- x) = - fl x"
  using round_half_even_minus[of "x / two_pow (ulp_expo x)"]
  by (simp add: fl_def ulp_expo_def)

lemma fl_nonneg: "0 \<le> x \<Longrightarrow> 0 \<le> fl x"
proof -
  assume "0 \<le> x"
  then have "round_half_even 0 \<le> round_half_even (x / two_pow (ulp_expo x))"
    by (intro round_half_even_mono) (simp add: less_imp_le)
  then have "0 \<le> round_half_even (x / two_pow (ulp_expo x))"
    using round_half_even_of_int[of 0] by simp
  then show ?thesis by (simp add: fl_def less_imp_le)
qed

lemma two_pow_multiple:
  assumes "u \<le> e"
  shows "two_pow e / two_pow u = of_int (2 ^ nat (e - u))"
proof -
  have "two_pow e = two_pow (e - u) * two_pow u" by (simp add: two_pow_add[symmetric])
  then show ?thesis using assms by (simp add: two_pow_as_int)
qed

lemma fl_le_pow:
  assumes "0 < x" "x \<le> two_pow e" "ulp_expo x \<le> e"
  shows "fl x \<le> two_pow e"
proof -
  let ?u = "two_pow (ulp_expo x)"
  have "x / ?u \<le> two_pow e / ?u" using assms(2) by (simp add: divide_right_mono less_imp_le)
  then have "round_half_even (x / ?u) \<le> round_half_even (two_pow e / ?u)"
    by (rule round_half_even_mono)
  then have "(of_int (round_half_even (x / ?u)) :: rat) \<le> two_pow e / ?u"
    by (simp only: two_pow_multiple[OF assms(3)] round_half_even_of_int of_int_le_iff)
  then have "of_int (round_half_even (x / ?u)) * ?u \<le> two_pow e"
    by (simp add: pos_le_divide_eq)
  then show ?thesis using assms(1) by (simp add: fl_def)
qed

lemma pow_le_fl:
  assumes "two_pow e \<le> x" "ulp_expo x \<le> e"
  shows "two_pow e \<le> fl x"
proof -
  let ?u = "two_pow (ulp_expo x)"
  have x: "x \<noteq> 0" using assms(1) two_pow_pos[of e] by linarith
  have "two_pow e / ?u \<le> x / ?u" using assms(1) by (simp add: divide_right_mono less_imp_le)
  then have "round_half_even (two_pow e / ?u) \<le> round_half_even (x / ?u)"
    by (rule round_half_even_mono)
  then have "two_pow e / ?u \<le> (of_int (round_half_even (x / ?u)) :: rat)"
    by (simp only: two_pow_multiple[OF assms(2)] round_half_even_of_int of_int_le_iff)
  then have "two_pow e \<le> of_int (round_half_even (x / ?u)) * ?u"
    by (simp add: pos_divide_le_eq)
  then show ?thesis using x by (simp add: fl_def)
qed

lemma fl_mono_pos:
  assumes "0 < x" "x \<le> y"
  shows "fl x \<le> fl y"
proof (cases "ulp_expo x = ulp_expo y")
  case True
  let ?u = "two_pow (ulp_expo y)"
  have "round_half_even (x / ?u) \<le> round_half_even (y / ?u)"
    using assms by (intro round_half_even_mono divide_right_mono) (simp_all add: less_imp_le)
  then show ?thesis using assms True by (simp add: fl_def mult_right_mono less_imp_le)
next
  case False
  have nz: "x \<noteq> 0" "y \<noteq> 0" using assms by auto
  note bx = expo_bounds[OF nz(1)] and b\<^sub>y = expo_bounds[OF nz(2)]
  have "two_pow (expo x) < two_pow (expo y + 1)" using bx b\<^sub>y assms by linarith
  then have "expo x \<le> expo y" by (simp add: two_pow_less_iff)
  with False have lt: "expo x < expo y" and uy: "ulp_expo y = expo y - 52"
    by (auto simp: ulp_expo_def)
  show ?thesis
  proof -
    have "ulp_expo x \<le> expo y" using lt uy by (auto simp: ulp_expo_def)
    moreover have "x \<le> two_pow (expo y)"
      using bx(2) assms(1) lt two_pow_mono[of "expo x + 1" "expo y"] by linarith
    ultimately have "fl x \<le> two_pow (expo y)" using assms(1) by (intro fl_le_pow)
    also have "\<dots> \<le> fl y"
      using b\<^sub>y(1) assms uy by (intro pow_le_fl) auto
    finally show ?thesis .
  qed
qed

lemma fl_mono: "x \<le> y \<Longrightarrow> fl x \<le> fl y"
proof -
  assume xy: "x \<le> y"
  consider "0 < x" | "x \<le> 0" "0 \<le> y" | "y < 0" by linarith
  then show ?thesis
  proof cases
    case 1
    then show ?thesis using xy by (rule fl_mono_pos)
  next
    case 2
    then show ?thesis using fl_nonneg[of y] fl_nonneg[of "- x"] by (simp add: fl_minus)
  next
    case 3
    then show ?thesis using fl_mono_pos[of "- y" "- x"] xy by (simp add: fl_minus)
  qed
qed

section \<open>Quotients of safe integers\<close>

lemma fl_half_int: "\<bar>n\<bar> \<le> 2 ^ 53 \<Longrightarrow> fl (of_int n / 2) = of_int n / 2"
proof -
  assume n: "\<bar>n\<bar> \<le> 2 ^ 53"
  show ?thesis
  proof (cases "n = 0")
    case True
    then show ?thesis by simp
  next
    case False
    let ?x = "of_int n :: rat"
    have half: "expo (?x / 2) = expo ?x - 1"
    proof (rule expo_unique)
      have "two_pow (expo ?x) = two_pow (expo ?x - 1) * two_pow 1"
        "two_pow (expo ?x + 1) = two_pow (expo ?x - 1 + 1) * two_pow 1"
        by (simp_all add: two_pow_add[symmetric])
      then show "two_pow (expo ?x - 1) \<le> \<bar>?x / 2\<bar>" "\<bar>?x / 2\<bar> < two_pow (expo ?x - 1 + 1)"
        using expo_bounds[of ?x] False by (auto simp: two_pow_def[of 1])
    qed
    have u: "ulp_expo (?x / 2) = ulp_expo ?x - 1"
      using half expo_int_le[OF False n] by (auto simp: ulp_expo_def)
    have "two_pow (ulp_expo ?x) = two_pow (ulp_expo ?x - 1) * two_pow 1"
      by (simp add: two_pow_add[symmetric])
    then have pw: "two_pow (ulp_expo ?x) = 2 * two_pow (ulp_expo ?x - 1)"
      by (simp add: two_pow_def[of 1])
    have "?x / 2 / two_pow (ulp_expo (?x / 2)) = ?x / two_pow (ulp_expo ?x)"
      by (simp add: u pw)
    then have "fl (?x / 2) = fl ?x / 2"
      using False by (simp add: fl_def u pw)
    then show ?thesis using fl_of_int[OF n] by simp
  qed
qed

lemma quotient_error:
  assumes a: "is_safe_integer a" and d: "0 < d" "d \<le> 2 ^ 53"
  shows "\<bar>fl (of_int a / of_int d) - of_int a / of_int d\<bar> < 1 / of_int d"
proof (cases "a = 0")
  case True
  then show ?thesis using d by simp
next
  case False
  let ?q = "of_int a / of_int d :: rat"
  have nz: "?q \<noteq> 0" using False d by simp
  have dr: "(of_int d :: rat) \<le> 2 ^ 53"
    using d(2) by (metis of_int_le_iff of_int_numeral of_int_power)
  have a53: "\<bar>of_int a :: rat\<bar> < 2 ^ 53"
  proof -
    have "\<bar>a\<bar> < 2 ^ 53" using a by (simp add: is_safe_integer_def max_safe_integer_def)
    then show ?thesis by (metis of_int_abs of_int_less_iff of_int_numeral of_int_power)
  qed
  have "two_pow (ulp_expo ?q) / 2 < 1 / of_int d"
  proof (cases "expo ?q - 52 \<ge> - 1074")
    case True
    then have "two_pow (ulp_expo ?q) = two_pow (expo ?q) * two_pow (- 52)"
      by (simp add: ulp_expo_def two_pow_add[symmetric])
    also have "\<dots> \<le> \<bar>?q\<bar> * two_pow (- 52)"
      by (rule mult_right_mono[OF expo_bounds(1)[OF nz]]) (rule less_imp_le[OF two_pow_pos])
    also have "\<bar>?q\<bar> * two_pow (- 52) < 2 / of_int d"
      using a53 d(1) by (simp add: two_pow_def abs_divide field_simps)
    finally show ?thesis by simp
  next
    case False
    then have "two_pow (ulp_expo ?q) = two_pow (- 1074)" by (simp add: ulp_expo_def)
    also have "\<dots> < two_pow (- 53)" by (simp add: two_pow_less_iff)
    also have "\<dots> \<le> 1 / of_int d" using dr d(1) by (simp add: two_pow_def frac_le)
    finally show ?thesis using two_pow_pos[of "ulp_expo ?q"] by linarith
  qed
  then show ?thesis using fl_error[of ?q] by linarith
qed

lemma floor_quotient:
  assumes a: "is_safe_integer a" and d: "0 < d" "d \<le> 2 ^ 53"
  shows "\<lfloor>fl (of_int a / of_int d)\<rfloor> = a div d"
proof -
  let ?q = "of_int a / of_int d :: rat" and ?k = "a div d"
  have dp: "(0 :: rat) < of_int d" using d by simp
  have le: "?k * d \<le> a" "a + 1 \<le> (?k + 1) * d"
    using d(1)
    by (simp_all add: algebra_simps div_mult_mod_eq minus_mod_eq_mult_div [symmetric] add1_zle_eq)
       (use pos_mod_bound[of d a] in linarith)
  have lo: "of_int ?k \<le> ?q"
    using le(1) dp by (simp add: pos_le_divide_eq) (metis of_int_le_iff of_int_mult)
  have hi: "?q + 1 / of_int d \<le> of_int ?k + 1"
  proof -
    have "(of_int (a + 1) :: rat) \<le> of_int ((?k + 1) * d)" using le(2) by (simp only: of_int_le_iff)
    then have "(of_int a + 1) / of_int d \<le> (of_int ?k + 1 :: rat)"
      using dp by (simp add: pos_divide_le_eq)
    then show ?thesis by (simp add: add_divide_distrib)
  qed
  have ks: "\<bar>?k\<bar> \<le> 2 ^ 53"
  proof -
    have "\<bar>?k\<bar> \<le> \<bar>a\<bar>"
    proof (cases "0 \<le> a")
      case True
      then show ?thesis
        using d(1) zdiv_mono2[of a 1 d] by (simp add: pos_imp_zdiv_nonneg_iff)
    next
      case False
      then have "a \<le> ?k" "?k < 0"
        using d(1) zdiv_mono2_neg[of a 1 d] div_neg_pos_less0[of a d] by auto
      then show ?thesis using False by linarith
    qed
    then show ?thesis using a by (simp add: is_safe_integer_def max_safe_integer_def)
  qed
  have "of_int ?k \<le> fl ?q" using fl_mono[OF lo] fl_of_int[OF ks] by simp
  moreover have "fl ?q < of_int ?k + 1" using quotient_error[OF a d] hi by linarith
  ultimately show ?thesis by (intro floor_unique) auto
qed

lemma quotient_range:
  fixes h p q :: int
  assumes "p \<le> 2 ^ 53 + 2 ^ 50" "- (2 ^ 53) \<le> q"
    "h * 4 \<le> p \<or> h < 0" "q \<le> (h + 1) * 4 \<or> 0 < h + 1"
  shows "\<bar>2 * h - 1\<bar> \<le> 2 ^ 53"
  using assms by auto

lemma round_quotient_even:
  assumes a: "is_safe_integer a" and d: "0 < d" "d \<le> 2 ^ 50" "even d" "4 \<le> d"
  shows "js_round (fl (of_int a / of_int d)) = (2 * a + d) div (2 * d)"
proof -
  let ?q = "of_int a / of_int d :: rat" and ?h = "(2 * a + d) div (2 * d)"
  obtain m where m: "d = 2 * m" using d(3) by blast
  have dp: "(0 :: rat) < of_int d" using d by simp
  have h: "?h = (a + m) div d" using m by (metis div_mult_mult1_if mult.assoc distrib_left zero_neq_numeral)
  have le: "?h * d \<le> a + m" "a + m + 1 \<le> (?h + 1) * d"
    unfolding h using d(1)
    by (simp_all add: algebra_simps minus_mod_eq_mult_div [symmetric] add1_zle_eq)
       (use pos_mod_bound[of d "a + m"] in linarith)
  have md: "of_int m / of_int d = (1 / 2 :: rat)" using m dp by simp
  have lo: "of_int (2 * ?h - 1) / 2 \<le> ?q"
  proof -
    have "(of_int (?h * d) :: rat) \<le> of_int (a + m)" using le(1) by (simp only: of_int_le_iff)
    then have "of_int ?h \<le> (of_int a + of_int m) / (of_int d :: rat)"
      using dp by (simp add: pos_le_divide_eq)
    then have "of_int ?h \<le> ?q + 1 / 2" by (simp only: add_divide_distrib md)
    then show ?thesis by (simp add: diff_divide_distrib)
  qed
  have hi: "?q + 1 / of_int d \<le> of_int ?h + 1 / 2"
  proof -
    have "(of_int (a + m + 1) :: rat) \<le> of_int ((?h + 1) * d)" using le(2) by (simp only: of_int_le_iff)
    then have "(of_int a + of_int m + 1) / of_int d \<le> (of_int ?h + 1 :: rat)"
      using dp by (simp add: pos_divide_le_eq)
    then have "?q + 1 / 2 + 1 / of_int d \<le> of_int ?h + 1"
      by (simp only: add_divide_distrib md)
    then show ?thesis by linarith
  qed
  have hs: "\<bar>2 * ?h - 1\<bar> \<le> 2 ^ 53"
  proof -
    have "\<bar>a\<bar> \<le> 2 ^ 53" "0 \<le> m" "m \<le> 2 ^ 50"
      using m d a by (auto simp: is_safe_integer_def max_safe_integer_def)
    then have "?h * d \<le> 2 ^ 53 + 2 ^ 50" "- (2 ^ 53) \<le> (?h + 1) * d"
      using le by linarith+
    moreover have "?h * 4 \<le> ?h * d \<or> ?h < 0"
      using d(4) mult_left_mono[of 4 d ?h] by linarith
    moreover have "(?h + 1) * d \<le> (?h + 1) * 4 \<or> 0 < ?h + 1"
      using d(4) mult_left_mono_neg[of 4 d "?h + 1"] by linarith
    ultimately show ?thesis by (rule quotient_range)
  qed
  have "of_int (2 * ?h - 1) / 2 \<le> fl ?q" using fl_mono[OF lo] fl_half_int[OF hs] by simp
  moreover have "fl ?q < of_int ?h + 1 / 2"
  proof -
    have "d \<le> 2 ^ 53" using d(2) by simp
    then show ?thesis using quotient_error[OF a d(1)] hi by linarith
  qed
  ultimately show ?thesis unfolding js_round_def by (intro floor_unique) auto
qed

section \<open>Decimal rendering\<close>

text \<open>Template literals render a non-negative integer in decimal.\<close>

definition digit_char :: "nat \<Rightarrow> char" where
  "digit_char d = char_of (48 + d)"

fun decimal :: "nat \<Rightarrow> string" where
  "decimal n = (if n < 10 then [digit_char n] else decimal (n div 10) @ [digit_char (n mod 10)])"

declare decimal.simps [simp del]

definition digit_value :: "char \<Rightarrow> nat" where
  "digit_value c = of_char c - 48"

definition decimal_value :: "string \<Rightarrow> nat" where
  "decimal_value s = foldl (\<lambda>n c. 10 * n + digit_value c) 0 s"

lemma digit_value_char [simp]: "d < 10 \<Longrightarrow> digit_value (digit_char d) = d"
  by (simp add: digit_value_def digit_char_def)

lemma decimal_value_decimal [simp]: "decimal_value (decimal n) = n"
proof (induction n rule: decimal.induct)
  case (1 n)
  then show ?case
    by (subst decimal.simps) (auto simp: decimal_value_def)
qed

lemma decimal_inj: "decimal m = decimal n \<longleftrightarrow> m = n"
  by (metis decimal_value_decimal)

text \<open>
  \<open>x.toFixed(2)\<close>: the integer \<open>n\<close> with \<open>n / 100\<close> nearest to the exact value of \<open>x\<close>, the
  larger one when two are equally near, printed with two decimals and the sign of \<open>x\<close>.
\<close>

definition to_fixed2 :: "rat \<Rightarrow> string" where
  "to_fixed2 x =
     (let n = nat \<lfloor>\<bar>x\<bar> * 100 + 1 / 2\<rfloor>
      in (if x < 0 then ''-'' else []) @ decimal (n div 100) @ ''.''
         @ [digit_char (n div 10 mod 10), digit_char (n mod 10)])"

end
