(* ===== verification/Credit.thy ===== *)
theory Credit
  imports JsNumber
begin

text \<open>
  The \<open>Credit\<close> value object of \<open>src/credits/credit.ts\<close>: an amount of money in nano-dollars.
  The constructor is private, so the raw number is an integer; whether it is within the safe
  range is what the guards of \<open>fromRaw\<close>, \<open>add\<close>, \<open>subtract\<close> and \<open>multiply\<close> decide. Arithmetic
  is that of the language (\<open>js_add\<close>, \<open>js_mul\<close>, ... of theory JsNumber), and the two
  exceptions of the class are values of \<open>js_error\<close>. The log lines of \<open>fromRaw\<close> are not
  modelled.
\<close>

section \<open>The value object\<close>

datatype js_error = TypeError | RangeError

datatype credit = Credit (toRaw: int)

instantiation credit :: linorder
begin

definition less_eq_credit :: "credit \<Rightarrow> credit \<Rightarrow> bool" where
  "less_eq_credit a b \<longleftrightarrow> toRaw a \<le> toRaw b"

definition less_credit :: "credit \<Rightarrow> credit \<Rightarrow> bool" where
  "less_credit a b \<longleftrightarrow> toRaw a < toRaw b"

instance
  by standard (auto simp: less_eq_credit_def less_credit_def intro: credit.expand)

end

definition SCALE :: int where
  "SCALE = 1000000000"

definition ZERO :: credit where
  "ZERO = Credit 0"

definition number_is_safe_integer :: "rat \<Rightarrow> bool" where
  "number_is_safe_integer x \<longleftrightarrow> is_integer x \<and> \<bar>x\<bar> \<le> of_int max_safe_integer"

definition fromDollars :: "rat \<Rightarrow> credit" where
  "fromDollars dollars = Credit (js_round (js_mul dollars (of_int SCALE)))"

definition fromCents :: "rat \<Rightarrow> credit" where
  "fromCents cents = Credit (js_round (js_mul cents (js_div (of_int SCALE) 100)))"

definition fromRaw :: "rat \<Rightarrow> js_error + credit" where
  "fromRaw r =
     (if \<not> is_integer r then Inl TypeError
      else if of_int max_safe_integer < r then Inl RangeError
      else Inr (Credit \<lfloor>r\<rfloor>))"

definition toDollars :: "credit \<Rightarrow> rat" where
  "toDollars c = js_div (of_int (toRaw c)) (of_int SCALE)"

definition toCents :: "credit \<Rightarrow> rat" where
  "toCents c = js_div (of_int (toRaw c)) (js_div (of_int SCALE) 100)"

definition toCentsRounded :: "credit \<Rightarrow> int" where
  "toCentsRounded c = js_round (js_div (of_int (toRaw c)) (js_div (of_int SCALE) 100))"

definition toCentsFloor :: "credit \<Rightarrow> int" where
  "toCentsFloor c = js_floor (js_div (of_int (toRaw c)) (js_div (of_int SCALE) 100))"

definition toDisplayString :: "credit \<Rightarrow> string" where
  "toDisplayString c = CHR ''$'' # to_fixed2 (toDollars c)"

definition add :: "credit \<Rightarrow> credit \<Rightarrow> js_error + credit" where
  "add a b =
     (let result = js_add (of_int (toRaw a)) (of_int (toRaw b))
      in if \<not> number_is_safe_integer result then Inl RangeError else Inr (Credit \<lfloor>result\<rfloor>))"

definition subtract :: "credit \<Rightarrow> credit \<Rightarrow> js_error + credit" where
  "subtract a b =
     (let result = js_sub (of_int (toRaw a)) (of_int (toRaw b))
      in if \<not> number_is_safe_integer result then Inl RangeError else Inr (Credit \<lfloor>result\<rfloor>))"

definition multiply :: "credit \<Rightarrow> rat \<Rightarrow> js_error + credit" where
  "multiply a factor =
     (let result = js_round (js_mul (of_int (toRaw a)) factor)
      in if \<not> is_safe_integer result then Inl RangeError else Inr (Credit result))"

definition isNegative :: "credit \<Rightarrow> bool" where
  "isNegative c \<longleftrightarrow> toRaw c < 0"

definition isZero :: "credit \<Rightarrow> bool" where
  "isZero c \<longleftrightarrow> toRaw c = 0"

definition greaterThan :: "credit \<Rightarrow> credit \<Rightarrow> bool" where
  "greaterThan a b \<longleftrightarrow> toRaw a > toRaw b"

definition lessThan :: "credit \<Rightarrow> credit \<Rightarrow> bool" where
  "lessThan a b \<longleftrightarrow> toRaw a < toRaw b"

definition equals :: "credit \<Rightarrow> credit \<Rightarrow> bool" where
  "equals a b \<longleftrightarrow> toRaw a = toRaw b"

definition greaterThanOrEqual :: "credit \<Rightarrow> credit \<Rightarrow> bool" where
  "greaterThanOrEqual a b \<longleftrightarrow> toRaw a \<ge> toRaw b"

definition lessThanOrEqual :: "credit \<Rightarrow> credit \<Rightarrow> bool" where
  "lessThanOrEqual a b \<longleftrightarrow> toRaw a \<le> toRaw b"

text \<open>A credit whose raw number is a safe integer: what the guards establish.\<close>

definition safe :: "credit \<Rightarrow> bool" where
  "safe c \<longleftrightarrow> is_safe_integer (toRaw c)"

lemmas credit_cmp = isNegative_def isZero_def greaterThan_def lessThan_def equals_def
  greaterThanOrEqual_def lessThanOrEqual_def less_eq_credit_def less_credit_def ZERO_def

section \<open>The guards make integer arithmetic exact\<close>

lemma safe_simps: "safe (Credit n) \<longleftrightarrow> \<bar>n\<bar> \<le> 2 ^ 53 - 1"
  by (simp add: safe_def is_safe_integer_def max_safe_integer_def)

lemma js_add_int: "\<bar>m + n\<bar> \<le> 2 ^ 53 \<Longrightarrow> js_add (of_int m) (of_int n) = of_int (m + n)"
  unfolding js_add_def using fl_of_int[of "m + n"] by simp

lemma js_sub_int: "\<bar>m - n\<bar> \<le> 2 ^ 53 \<Longrightarrow> js_sub (of_int m) (of_int n) = of_int (m - n)"
  unfolding js_sub_def using fl_of_int[of "m - n"] by simp

lemma js_mul_int: "\<bar>m * n\<bar> \<le> 2 ^ 53 \<Longrightarrow> js_mul (of_int m) (of_int n) = of_int (m * n)"
  unfolding js_mul_def using fl_of_int[of "m * n"] by simp

lemma js_round_int [simp]: "js_round (of_int n) = n"
  by (simp add: js_round_def floor_unique)

lemma is_integer_of_int [simp]: "is_integer (of_int n)"
  by (simp add: is_integer_def)

lemma number_is_safe_integer_of_int:
  "number_is_safe_integer (of_int n) \<longleftrightarrow> is_safe_integer n"
  by (simp add: number_is_safe_integer_def is_safe_integer_def flip: of_int_abs)

text \<open>A rounded integer outside the exact range is still outside the safe range.\<close>

lemma fl_unsafe:
  assumes "2 ^ 53 \<le> \<bar>n\<bar>"
  shows "\<not> number_is_safe_integer (fl (of_int n))"
proof -
  have f53: "fl (2 ^ 53) = 2 ^ 53" using fl_of_int[of "2 ^ 53"] by simp
  consider "2 ^ 53 \<le> n" | "2 ^ 53 \<le> - n" using assms by linarith
  then have "2 ^ 53 \<le> \<bar>fl (of_int n)\<bar>"
  proof cases
    case 1
    then have "(2 ^ 53 :: rat) \<le> of_int n" by (metis of_int_le_iff of_int_numeral of_int_power)
    from fl_mono[OF this] show ?thesis by (simp only: f53)
  next
    case 2
    then have "(2 ^ 53 :: rat) \<le> of_int (- n)" by (metis of_int_le_iff of_int_numeral of_int_power)
    from fl_mono[OF this] show ?thesis by (simp only: f53 of_int_minus fl_minus)
  qed
  then show ?thesis by (simp add: number_is_safe_integer_def max_safe_integer_def)
qed

lemma fl_integral: "is_integer (fl (of_int n))"
proof (cases "0 \<le> ulp_expo (of_int n)")
  case True
  then have "fl (of_int n) = of_int (round_half_even (of_int n / two_pow (ulp_expo (of_int n)))
      * 2 ^ nat (ulp_expo (of_int n))) \<or> (of_int n :: rat) = 0"
    by (simp add: fl_def two_pow_as_int)
  then show ?thesis by (metis fl_0 is_integer_of_int of_int_0)
next
  case False
  then have e: "expo (of_int n) + 1 < 53" by (auto simp: ulp_expo_def)
  show ?thesis
  proof (cases "n = 0")
    case True
    then show ?thesis using is_integer_of_int[of 0] by simp
  next
    case nz: False
    have "\<bar>of_int n\<bar> < two_pow 53"
      using expo_bounds(2)[of "of_int n"] two_pow_strict_mono[OF e] nz by linarith
    then have "(of_int \<bar>n\<bar> :: rat) < of_int (2 ^ 53)" by (simp add: two_pow_def)
    then have "\<bar>n\<bar> \<le> 2 ^ 53" by (simp only: of_int_less_iff)
    then show ?thesis by (simp add: fl_of_int)
  qed
qed

lemma guarded_result:
  "(if \<not> number_is_safe_integer (fl (of_int n)) then Inl RangeError
    else Inr (Credit \<lfloor>fl (of_int n)\<rfloor>)) =
   (if is_safe_integer n then Inr (Credit n) else Inl RangeError)"
proof (cases "2 ^ 53 \<le> \<bar>n\<bar>")
  case True
  then show ?thesis
    using fl_unsafe by (simp add: is_safe_integer_def max_safe_integer_def)
next
  case False
  then show ?thesis
    by (simp add: fl_of_int number_is_safe_integer_of_int)
qed

lemma add_exact:
  "add a b = (if is_safe_integer (toRaw a + toRaw b) then Inr (Credit (toRaw a + toRaw b))
              else Inl RangeError)"
  using guarded_result[of "toRaw a + toRaw b"] unfolding add_def js_add_def Let_def of_int_add .

lemma subtract_exact:
  "subtract a b = (if is_safe_integer (toRaw a - toRaw b) then Inr (Credit (toRaw a - toRaw b))
                   else Inl RangeError)"
  using guarded_result[of "toRaw a - toRaw b"] unfolding subtract_def js_sub_def Let_def of_int_diff .

lemma fromRaw_int:
  "fromRaw (of_int n) = (if n \<le> max_safe_integer then Inr (Credit n) else Inl RangeError)"
  by (simp add: fromRaw_def)

text \<open>Reading a stored big integer back into a credit.\<close>

lemma fromRaw_bigint:
  assumes "- (2 ^ 53) \<le> n"
  shows "fromRaw (number_of_bigint n)
    = (if n \<le> max_safe_integer then Inr (Credit n) else Inl RangeError)"
proof (cases "n \<le> 2 ^ 53")
  case True
  with assms have "\<bar>n\<bar> \<le> 2 ^ 53" by linarith
  then show ?thesis by (simp add: number_of_bigint_def fl_of_int fromRaw_int)
next
  case False
  have f53: "fl (2 ^ 53) = 2 ^ 53" using fl_of_int[of "2 ^ 53"] by simp
  have "(2 ^ 53 :: rat) \<le> of_int n"
    using False by (metis of_int_le_iff of_int_numeral of_int_power linear)
  from fl_mono[OF this] have "2 ^ 53 \<le> fl (of_int n)" by (simp only: f53)
  then have big: "of_int max_safe_integer < fl (of_int n)" by (simp add: max_safe_integer_def)
  with fl_integral[of n] False show ?thesis
    by (auto simp: fromRaw_def number_of_bigint_def max_safe_integer_def)
qed

lemma guarded_product:
  "(if \<not> is_safe_integer (js_round (js_mul (of_int m) (of_int n))) then Inl RangeError
    else Inr (Credit (js_round (js_mul (of_int m) (of_int n))))) =
   (if is_safe_integer (m * n) then Inr (Credit (m * n)) else Inl RangeError)"
proof -
  have r: "js_round x = \<lfloor>x\<rfloor>" if "is_integer x" for x
  proof -
    have x: "of_int \<lfloor>x\<rfloor> = x" using that by (simp add: is_integer_def)
    show ?thesis using js_round_int[of "\<lfloor>x\<rfloor>"] unfolding x .
  qed
  have i: "is_integer (js_mul (of_int m) (of_int n))"
    using fl_integral[of "m * n"] by (simp add: js_mul_def)
  then have "number_is_safe_integer (js_mul (of_int m) (of_int n))
      \<longleftrightarrow> is_safe_integer (js_round (js_mul (of_int m) (of_int n)))"
    using number_is_safe_integer_of_int[of "\<lfloor>js_mul (of_int m) (of_int n)\<rfloor>"] r[OF i]
    i[unfolded is_integer_def] by simp
  then show ?thesis
    using guarded_result[of "m * n", unfolded of_int_mult] unfolding r[OF i]
    by (simp only: js_mul_def)
qed

section \<open>Cents\<close>

lemma cent_scale [simp]: "js_div (of_int SCALE) 100 = 10000000"
  using fl_of_int[of 10000000] by (simp add: js_div_def SCALE_def)

lemma toCentsFloor_exact: "safe c \<Longrightarrow> toCentsFloor c = toRaw c div 10000000"
  using floor_quotient[of "toRaw c" 10000000]
  by (simp add: toCentsFloor_def js_floor_def js_div_def[of "of_int (toRaw c)"] safe_def)

lemma toCentsRounded_exact:
  "safe c \<Longrightarrow> toCentsRounded c = (2 * toRaw c + 10000000) div 20000000"
  using round_quotient_even[of "toRaw c" 10000000]
  by (simp add: toCentsRounded_def js_div_def[of "of_int (toRaw c)"] safe_def)

lemma fromCents_int:
  "\<bar>cents\<bar> \<le> 900719925 \<Longrightarrow> fromCents (of_int cents) = Credit (cents * 10000000)"
  using js_mul_int[of cents 10000000] js_round_int[of "cents * 10000000"] by (simp add: fromCents_def)

lemma fromDollars_int:
  "\<bar>dollars\<bar> \<le> 9007199 \<Longrightarrow> fromDollars (of_int dollars) = Credit (dollars * SCALE)"
  using js_mul_int[of dollars SCALE] js_round_int[of "dollars * SCALE"]
  by (simp add: fromDollars_def SCALE_def)

text \<open>C7: The guarded operations are exact: adding, subtracting and multiplying by an integer either
  return the exact result or raise the range error, and they raise it precisely when the exact
  result is not a safe integer; whole cents survive the conversions to credits and back.\<close>

theorem credit_arithmetic_exact:
  "add a b = (if is_safe_integer (toRaw a + toRaw b) then Inr (Credit (toRaw a + toRaw b)) else Inl RangeError)
   \<and> subtract a b = (if is_safe_integer (toRaw a - toRaw b) then Inr (Credit (toRaw a - toRaw b)) else Inl RangeError)
   \<and> multiply a (of_int n) = (if is_safe_integer (toRaw a * n) then Inr (Credit (toRaw a * n)) else Inl RangeError)
   \<and> (\<bar>c\<bar> \<le> 900719925 \<longrightarrow> toCentsFloor (fromCents (of_int c)) = c \<and> toCentsRounded (fromCents (of_int c)) = c)"
proof -
  have safe: "safe (Credit (c * 10000000))" if "\<bar>c\<bar> \<le> 900719925"
    using that by (simp add: safe_simps abs_mult)
  have "(2 * (c * 10000000) + 10000000) div 20000000 = c" by simp
  then have cents: "\<bar>c\<bar> \<le> 900719925 \<longrightarrow> toCentsFloor (fromCents (of_int c)) = c
      \<and> toCentsRounded (fromCents (of_int c)) = c"
    using safe by (auto simp: fromCents_int toCentsFloor_exact toCentsRounded_exact)
  have "multiply a (of_int n) = (if is_safe_integer (toRaw a * n) then Inr (Credit (toRaw a * n)) else Inl RangeError)"
    using guarded_product[of "toRaw a" n] by (simp add: multiply_def Let_def)
  then show ?thesis using add_exact subtract_exact cents by blast
qed

theorem credit_arithmetic_exact_witness:
  "add (Credit 1) (Credit 2) = Inr (Credit 3) \<and> add (Credit (2 ^ 53 - 1)) (Credit 1) = Inl RangeError
   \<and> toCentsFloor (fromCents (of_int 250)) = 250"
  using credit_arithmetic_exact[of "Credit 1" "Credit 2" 1 250]
    credit_arithmetic_exact[of "Credit (2 ^ 53 - 1)" "Credit 1" 1 0]
  by (simp add: is_safe_integer_def max_safe_integer_def)

end
