(* ===== verification/Ledger.thy ===== *)
theory Ledger
  imports Credit "HOL-Library.Monad_Syntax"
begin

text \<open>
  The double-entry credit ledger: the four tables of \<open>src/db/schema/ledger.ts\<close> and the
  operations of class \<open>DrizzleLedger\<close> in \<open>src/credits/ledger.ts\<close>. A table is the list of its
  rows in insertion order, the materialized balances a map keyed by account id. A database
  transaction is a function that returns either an error, and then the caller keeps the state
  it had (rollback), or the new state. The row locks taken in every transaction serialize the
  transactions on the accounts they touch, so an interleaving of operations is a sequence of
  them. \<open>crypto.randomUUID()\<close> is a counter of the state (fresh at every call); the wall clock
  is a field the environment sets.
\<close>

section \<open>Types\<close>

datatype credit_type = Signup_Grant | Admin_Grant | Purchase | Bounty | Referral | Promo
  | Community_Dividend | Affiliate_Bonus | Affiliate_Match | Credit_Correction

datatype debit_type = Bot_Runtime | Adapter_Usage | Addon | Refund | Debit_Correction
  | Resource_Upgrade | Storage_Upgrade | Onboarding_Llm | Credit_Expiry

fun credit_type_name :: "credit_type \<Rightarrow> string" where
  "credit_type_name Signup_Grant = ''signup_grant''"
| "credit_type_name Admin_Grant = ''admin_grant''"
| "credit_type_name Purchase = ''purchase''"
| "credit_type_name Bounty = ''bounty''"
| "credit_type_name Referral = ''referral''"
| "credit_type_name Promo = ''promo''"
| "credit_type_name Community_Dividend = ''community_dividend''"
| "credit_type_name Affiliate_Bonus = ''affiliate_bonus''"
| "credit_type_name Affiliate_Match = ''affiliate_match''"
| "credit_type_name Credit_Correction = ''correction''"

fun debit_type_name :: "debit_type \<Rightarrow> string" where
  "debit_type_name Bot_Runtime = ''bot_runtime''"
| "debit_type_name Adapter_Usage = ''adapter_usage''"
| "debit_type_name Addon = ''addon''"
| "debit_type_name Refund = ''refund''"
| "debit_type_name Debit_Correction = ''correction''"
| "debit_type_name Resource_Upgrade = ''resource_upgrade''"
| "debit_type_name Storage_Upgrade = ''storage_upgrade''"
| "debit_type_name Onboarding_Llm = ''onboarding_llm''"
| "debit_type_name Credit_Expiry = ''credit_expiry''"

datatype account_type = Asset | Liability | Equity | Revenue | Expense

datatype side = Debit_Side | Credit_Side

record journal_line =
  accountCode :: string
  amount :: credit
  side :: side

text \<open>A flat JSON object whose fields are strings or null.\<close>

type_synonym metadata = "(string \<times> string option) list"

record post_input =
  in_entryType :: string
  in_tenantId :: string
  in_description :: "string option"
  in_referenceId :: "string option"
  in_metadata :: "metadata option"
  in_createdBy :: "string option"
  in_postedAt :: "string option"
  in_lines :: "journal_line list"
  in_balanceCheck :: "(string \<times> credit) option"

type_synonym uuid = nat

record journal_entry =
  je_id :: uuid
  je_postedAt :: string
  je_entryType :: string
  je_tenantId :: string
  je_description :: "string option"
  je_referenceId :: "string option"
  je_metadata :: "metadata option"
  je_lines :: "journal_line list"

record credit_opts =
  c_description :: "string option"
  c_referenceId :: "string option"
  c_fundingSource :: "string option"
  c_stripeFingerprint :: "string option"
  c_attributedUserId :: "string option"
  c_expiresAt :: "string option"
  c_createdBy :: "string option"

record debit_opts =
  d_description :: "string option"
  d_referenceId :: "string option"
  d_allowNegative :: bool
  d_attributedUserId :: "string option"
  d_createdBy :: "string option"

datatype ledger_error =
    Too_Few_Lines
  | Non_Positive_Line
  | Unbalanced_Entry int int
  | Non_Positive_Amount
  | Account_Not_Found string
  | Missing_Normal_Side uuid
  | Insufficient_Balance credit credit
  | Unique_Violation string
  | Bigint_Out_Of_Range
  | Sum_Overflow int
  | Credit_Error js_error

section \<open>Tables\<close>

record account =
  a_id :: uuid
  a_code :: string
  a_name :: string
  a_type :: account_type
  a_normalSide :: side
  a_tenantId :: "string option"

record entry_row =
  e_id :: uuid
  e_postedAt :: string
  e_entryType :: string
  e_description :: "string option"
  e_referenceId :: "string option"
  e_tenantId :: string
  e_metadata :: "metadata option"
  e_createdBy :: "string option"

record line_row =
  l_id :: uuid
  l_entryId :: uuid
  l_accountId :: uuid
  l_amount :: int
  l_side :: side

record db =
  accounts :: "account list"
  journalEntries :: "entry_row list"
  journalLines :: "line_row list"
  accountBalances :: "uuid \<rightharpoonup> int"
  next_uuid :: uuid
  clock :: string

definition empty_db :: db where
  "empty_db = \<lparr>accounts = [], journalEntries = [], journalLines = [],
     accountBalances = Map.empty, next_uuid = 0, clock = ''''\<rparr>"

section \<open>Account codes\<close>

fun CREDIT_TYPE_ACCOUNT :: "credit_type \<Rightarrow> string" where
  "CREDIT_TYPE_ACCOUNT Purchase = ''1000''"
| "CREDIT_TYPE_ACCOUNT Signup_Grant = ''5000''"
| "CREDIT_TYPE_ACCOUNT Admin_Grant = ''5010''"
| "CREDIT_TYPE_ACCOUNT Promo = ''5020''"
| "CREDIT_TYPE_ACCOUNT Referral = ''5030''"
| "CREDIT_TYPE_ACCOUNT Affiliate_Bonus = ''5040''"
| "CREDIT_TYPE_ACCOUNT Affiliate_Match = ''5040''"
| "CREDIT_TYPE_ACCOUNT Bounty = ''5050''"
| "CREDIT_TYPE_ACCOUNT Community_Dividend = ''5060''"
| "CREDIT_TYPE_ACCOUNT Credit_Correction = ''5070''"

fun DEBIT_TYPE_ACCOUNT :: "debit_type \<Rightarrow> string" where
  "DEBIT_TYPE_ACCOUNT Bot_Runtime = ''4000''"
| "DEBIT_TYPE_ACCOUNT Adapter_Usage = ''4010''"
| "DEBIT_TYPE_ACCOUNT Addon = ''4020''"
| "DEBIT_TYPE_ACCOUNT Storage_Upgrade = ''4030''"
| "DEBIT_TYPE_ACCOUNT Resource_Upgrade = ''4040''"
| "DEBIT_TYPE_ACCOUNT Onboarding_Llm = ''4050''"
| "DEBIT_TYPE_ACCOUNT Credit_Expiry = ''4060''"
| "DEBIT_TYPE_ACCOUNT Refund = ''1000''"
| "DEBIT_TYPE_ACCOUNT Debit_Correction = ''5070''"

definition EXPIRABLE_CREDIT_TYPES :: "string list" where
  "EXPIRABLE_CREDIT_TYPES = map credit_type_name
     [Signup_Grant, Admin_Grant, Purchase, Bounty, Referral, Promo, Community_Dividend,
      Affiliate_Bonus, Affiliate_Match, Credit_Correction]"

definition SYSTEM_ACCOUNTS :: "(string \<times> string \<times> account_type \<times> side) list" where
  "SYSTEM_ACCOUNTS =
    [(''1000'', ''Cash'', Asset, Debit_Side),
     (''1100'', ''Stripe Receivable'', Asset, Debit_Side),
     (''3000'', ''Retained Earnings'', Equity, Credit_Side),
     (''4000'', ''Revenue: Bot Runtime'', Revenue, Credit_Side),
     (''4010'', ''Revenue: Adapter Usage'', Revenue, Credit_Side),
     (''4020'', ''Revenue: Addon'', Revenue, Credit_Side),
     (''4030'', ''Revenue: Storage Upgrade'', Revenue, Credit_Side),
     (''4040'', ''Revenue: Resource Upgrade'', Revenue, Credit_Side),
     (''4050'', ''Revenue: Onboarding LLM'', Revenue, Credit_Side),
     (''4060'', ''Revenue: Expired Credits'', Revenue, Credit_Side),
     (''5000'', ''Expense: Signup Grant'', Expense, Debit_Side),
     (''5010'', ''Expense: Admin Grant'', Expense, Debit_Side),
     (''5020'', ''Expense: Promo'', Expense, Debit_Side),
     (''5030'', ''Expense: Referral'', Expense, Debit_Side),
     (''5040'', ''Expense: Affiliate'', Expense, Debit_Side),
     (''5050'', ''Expense: Bounty'', Expense, Debit_Side),
     (''5060'', ''Expense: Dividend'', Expense, Debit_Side),
     (''5070'', ''Expense: Correction'', Expense, Debit_Side)]"

definition tenant_code :: "string \<Rightarrow> string" where
  "tenant_code tenantId = ''2000:'' @ tenantId"

definition is_tenant_code :: "string \<Rightarrow> bool" where
  "is_tenant_code code \<longleftrightarrow> take 5 code = ''2000:''"

section \<open>Inserts and locks\<close>

text \<open>\<open>INSERT ... ON CONFLICT DO NOTHING\<close> with a fresh id, target the account code.\<close>

definition insert_account ::
  "string \<Rightarrow> string \<Rightarrow> account_type \<Rightarrow> side \<Rightarrow> string option \<Rightarrow> db \<Rightarrow> db" where
  "insert_account code name type ns tenant s =
     (let s' = s\<lparr>next_uuid := Suc (next_uuid s)\<rparr>
      in if code \<in> set (map a_code (accounts s)) then s'
         else s'\<lparr>accounts := accounts s @ [\<lparr>a_id = next_uuid s, a_code = code, a_name = name,
                a_type = type, a_normalSide = ns, a_tenantId = tenant\<rparr>]\<rparr>)"

definition seedSystemAccounts :: "db \<Rightarrow> db" where
  "seedSystemAccounts s =
     foldl (\<lambda>s (code, name, type, ns). insert_account code name type ns None s) s SYSTEM_ACCOUNTS"

definition find_account :: "string \<Rightarrow> db \<Rightarrow> account option" where
  "find_account code s = find (\<lambda>a. a_code a = code) (accounts s)"

definition find_account_id :: "uuid \<Rightarrow> db \<Rightarrow> account option" where
  "find_account_id i s = find (\<lambda>a. a_id a = i) (accounts s)"

definition insert_balance :: "uuid \<Rightarrow> db \<Rightarrow> db" where
  "insert_balance i s =
     (case accountBalances s i of
        None \<Rightarrow> s\<lparr>accountBalances := (accountBalances s)(i \<mapsto> 0)\<rparr>
      | Some _ \<Rightarrow> s)"

definition resolveAccountLocked :: "string \<Rightarrow> db \<Rightarrow> ledger_error + uuid \<times> db" where
  "resolveAccountLocked code s =
     (case find_account code s of
        None \<Rightarrow> Inl (Account_Not_Found code)
      | Some a \<Rightarrow> Inr (a_id a, insert_balance (a_id a) s))"

definition ensureTenantAccountLocked :: "string \<Rightarrow> db \<Rightarrow> ledger_error + uuid \<times> db" where
  "ensureTenantAccountLocked tenantId s =
     resolveAccountLocked (tenant_code tenantId)
       (insert_account (tenant_code tenantId) (''Unearned Revenue: '' @ tenantId)
          Liability Credit_Side (Some tenantId) s)"

definition lock_account :: "string \<Rightarrow> db \<Rightarrow> ledger_error + uuid \<times> db" where
  "lock_account code s =
     (if is_tenant_code code then ensureTenantAccountLocked (drop 5 code) s
      else resolveAccountLocked code s)"

text \<open>The unique index on \<open>referenceId\<close> where it is not null.\<close>

definition hasReferenceId :: "string \<Rightarrow> db \<Rightarrow> bool" where
  "hasReferenceId ref s \<longleftrightarrow> Some ref \<in> set (map e_referenceId (journalEntries s))"

definition insert_entry :: "entry_row \<Rightarrow> db \<Rightarrow> ledger_error + db" where
  "insert_entry e s =
     (case e_referenceId e of
        None \<Rightarrow> Inr (s\<lparr>journalEntries := journalEntries s @ [e]\<rparr>)
      | Some ref \<Rightarrow>
          if hasReferenceId ref s then Inl (Unique_Violation ref)
          else Inr (s\<lparr>journalEntries := journalEntries s @ [e]\<rparr>))"

definition pg_bigint :: "int \<Rightarrow> bool" where
  "pg_bigint n \<longleftrightarrow> - (2 ^ 63) \<le> n \<and> n < 2 ^ 63"

definition insert_line_row :: "uuid \<Rightarrow> uuid \<Rightarrow> int \<Rightarrow> side \<Rightarrow> db \<Rightarrow> ledger_error + db" where
  "insert_line_row entryId accountId amt sd s =
     (if pg_bigint amt
      then Inr (s\<lparr>journalLines := journalLines s @ [\<lparr>l_id = next_uuid s, l_entryId = entryId,
                   l_accountId = accountId, l_amount = amt, l_side = sd\<rparr>],
                 next_uuid := Suc (next_uuid s)\<rparr>)
      else Inl Bigint_Out_Of_Range)"

text \<open>\<open>UPDATE account_balances SET balance = balance + delta WHERE account_id = i\<close>.\<close>

definition add_to_balance :: "uuid \<Rightarrow> int \<Rightarrow> db \<Rightarrow> ledger_error + db" where
  "add_to_balance i delta s =
     (case accountBalances s i of
        None \<Rightarrow> Inr s
      | Some b \<Rightarrow>
          if pg_bigint (b + delta) then Inr (s\<lparr>accountBalances := (accountBalances s)(i \<mapsto> b + delta)\<rparr>)
          else Inl Bigint_Out_Of_Range)"

text \<open>Reading a stored balance: the row joined by account code, 0 when there is none.\<close>

definition stored_balance :: "string \<Rightarrow> db \<Rightarrow> int" where
  "stored_balance code s =
     (case find_account code s of
        None \<Rightarrow> 0
      | Some a \<Rightarrow> (case accountBalances s (a_id a) of None \<Rightarrow> 0 | Some b \<Rightarrow> b))"

definition read_credit :: "int \<Rightarrow> ledger_error + credit" where
  "read_credit b = (case fromRaw (number_of_bigint b) of Inl e \<Rightarrow> Inl (Credit_Error e) | Inr c \<Rightarrow> Inr c)"

section \<open>The primitive: post\<close>

text \<open>The loop before the transaction: every line positive, debits and credits summed.\<close>

fun sum_sides :: "int \<times> int \<Rightarrow> journal_line list \<Rightarrow> ledger_error + int \<times> int" where
  "sum_sides (d, c) [] = Inr (d, c)"
| "sum_sides (d, c) (l # ls) =
     (if isZero (amount l) \<or> isNegative (amount l) then Inl Non_Positive_Line
      else if side l = Debit_Side then sum_sides (d + toRaw (amount l), c) ls
      else sum_sides (d, c + toRaw (amount l)) ls)"

definition check_lines :: "journal_line list \<Rightarrow> ledger_error + unit" where
  "check_lines ls =
     (if length ls < 2 then Inl Too_Few_Lines
      else rbind (sum_sides (0, 0) ls)
        (\<lambda>(d, c). if d \<noteq> c then Inl (Unbalanced_Entry d c) else Inr ()))"

text \<open>Phase 1: lock the accounts in code order.\<close>

fun resolve_lines ::
  "journal_line list \<Rightarrow> db \<Rightarrow> ledger_error + (journal_line \<times> uuid) list \<times> db" where
  "resolve_lines [] s = Inr ([], s)"
| "resolve_lines (l # ls) s =
     rbind (lock_account (accountCode l) s) (\<lambda>(i, s').
       rbind (resolve_lines ls s') (\<lambda>(rs, s''). Inr ((l, i) # rs, s'')))"

text \<open>Phase 2: the balance check under the locks.\<close>

definition balance_check :: "(string \<times> credit) option \<Rightarrow> db \<Rightarrow> ledger_error + unit" where
  "balance_check chk s =
     (case chk of
        None \<Rightarrow> Inr ()
      | Some (tenantId, amt) \<Rightarrow>
          rbind (read_credit (stored_balance (tenant_code tenantId) s)) (\<lambda>currentBalance.
            if lessThan currentBalance amt then Inl (Insufficient_Balance currentBalance amt)
            else Inr ()))"

text \<open>Phase 3: one line and its materialized balance.\<close>

definition post_line :: "uuid \<Rightarrow> db \<Rightarrow> journal_line \<times> uuid \<Rightarrow> ledger_error + db" where
  "post_line entryId s = (\<lambda>(line, accountId).
     rbind (insert_line_row entryId accountId (toRaw (amount line)) (side line) s) (\<lambda>s'.
       case find_account_id accountId s' of
         None \<Rightarrow> Inl (Missing_Normal_Side accountId)
       | Some a \<Rightarrow>
           add_to_balance accountId
             (if side line = a_normalSide a then toRaw (amount line) else - toRaw (amount line)) s'))"

definition post_transaction :: "post_input \<Rightarrow> db \<Rightarrow> ledger_error + journal_entry \<times> db" where
  "post_transaction inp s =
     (let entryId = next_uuid s;
          postedAt = (case in_postedAt inp of Some t \<Rightarrow> t | None \<Rightarrow> clock s);
          s0 = s\<lparr>next_uuid := Suc (next_uuid s)\<rparr>
      in rbind (insert_entry \<lparr>e_id = entryId, e_postedAt = postedAt,
             e_entryType = in_entryType inp, e_description = in_description inp,
             e_referenceId = in_referenceId inp, e_tenantId = in_tenantId inp,
             e_metadata = in_metadata inp, e_createdBy = in_createdBy inp\<rparr> s0) (\<lambda>s1.
         rbind (resolve_lines (sort_key accountCode (in_lines inp)) s1) (\<lambda>(resolved, s2).
         rbind (balance_check (in_balanceCheck inp) s2) (\<lambda>_.
         rbind (rfold (post_line entryId) s2 resolved) (\<lambda>s3.
         Inr (\<lparr>je_id = entryId, je_postedAt = postedAt, je_entryType = in_entryType inp,
               je_tenantId = in_tenantId inp, je_description = in_description inp,
               je_referenceId = in_referenceId inp, je_metadata = in_metadata inp,
               je_lines = map fst resolved\<rparr>, s3))))))"

definition post :: "post_input \<Rightarrow> db \<Rightarrow> ledger_error + journal_entry \<times> db" where
  "post inp s = rbind (check_lines (in_lines inp)) (\<lambda>_. post_transaction inp s)"

section \<open>credit, debit, debitCapped\<close>

definition credit_input :: "string \<Rightarrow> credit \<Rightarrow> credit_type \<Rightarrow> credit_opts \<Rightarrow> post_input" where
  "credit_input tenantId amt type opts =
     \<lparr>in_entryType = credit_type_name type, in_tenantId = tenantId,
      in_description = c_description opts, in_referenceId = c_referenceId opts,
      in_metadata = Some [(''fundingSource'', c_fundingSource opts),
        (''stripeFingerprint'', c_stripeFingerprint opts),
        (''attributedUserId'', c_attributedUserId opts),
        (''expiresAt'', c_expiresAt opts)],
      in_createdBy = Some (case c_createdBy opts of Some u \<Rightarrow> u | None \<Rightarrow> ''system''),
      in_postedAt = None,
      in_lines = [\<lparr>accountCode = CREDIT_TYPE_ACCOUNT type, amount = amt, side = Debit_Side\<rparr>,
                  \<lparr>accountCode = tenant_code tenantId, amount = amt, side = Credit_Side\<rparr>],
      in_balanceCheck = None\<rparr>"

definition credit ::
  "string \<Rightarrow> credit \<Rightarrow> credit_type \<Rightarrow> credit_opts \<Rightarrow> db \<Rightarrow> ledger_error + journal_entry \<times> db" where
  "credit tenantId amt type opts s =
     (if isZero amt \<or> isNegative amt then Inl Non_Positive_Amount
      else post (credit_input tenantId amt type opts) s)"

definition debit_input :: "string \<Rightarrow> credit \<Rightarrow> debit_type \<Rightarrow> debit_opts \<Rightarrow> post_input" where
  "debit_input tenantId amt type opts =
     \<lparr>in_entryType = debit_type_name type, in_tenantId = tenantId,
      in_description = d_description opts, in_referenceId = d_referenceId opts,
      in_metadata = Some [(''attributedUserId'', d_attributedUserId opts)],
      in_createdBy = Some (case d_createdBy opts of Some u \<Rightarrow> u | None \<Rightarrow> ''system''),
      in_postedAt = None,
      in_lines = [\<lparr>accountCode = tenant_code tenantId, amount = amt, side = Debit_Side\<rparr>,
                  \<lparr>accountCode = DEBIT_TYPE_ACCOUNT type, amount = amt, side = Credit_Side\<rparr>],
      in_balanceCheck = (if d_allowNegative opts then None else Some (tenantId, amt))\<rparr>"

definition debit ::
  "string \<Rightarrow> credit \<Rightarrow> debit_type \<Rightarrow> debit_opts \<Rightarrow> db \<Rightarrow> ledger_error + journal_entry \<times> db" where
  "debit tenantId amt type opts s =
     (if isZero amt \<or> isNegative amt then Inl Non_Positive_Amount
      else post (debit_input tenantId amt type opts) s)"

definition no_credit_opts :: credit_opts where
  "no_credit_opts = \<lparr>c_description = None, c_referenceId = None, c_fundingSource = None,
     c_stripeFingerprint = None, c_attributedUserId = None, c_expiresAt = None, c_createdBy = None\<rparr>"

definition no_debit_opts :: debit_opts where
  "no_debit_opts = \<lparr>d_description = None, d_referenceId = None, d_allowNegative = False,
     d_attributedUserId = None, d_createdBy = None\<rparr>"

text \<open>Step 1 of \<open>debitCapped\<close>: the two codes locked in sorted order.\<close>

fun lock_step ::
  "(string \<rightharpoonup> uuid) \<times> db \<Rightarrow> string \<Rightarrow> ledger_error + (string \<rightharpoonup> uuid) \<times> db" where
  "lock_step (m, s) code = rbind (lock_account code s) (\<lambda>(i, s'). Inr (m(code \<mapsto> i), s'))"

definition lock_codes :: "string list \<Rightarrow> db \<Rightarrow> ledger_error + (string \<rightharpoonup> uuid) \<times> db" where
  "lock_codes codes s = rfold lock_step (Map.empty, s) codes"

text \<open>Steps 4 to 8: the entry, its two lines, the two balances.\<close>

definition capped_entry ::
  "string \<Rightarrow> credit \<Rightarrow> debit_type \<Rightarrow> debit_opts \<Rightarrow> uuid \<Rightarrow> uuid \<Rightarrow> db
   \<Rightarrow> ledger_error + journal_entry \<times> db" where
  "capped_entry tenantId debitAmount type opts tenantAccountId creditAccountId s =
     (let entryId = next_uuid s;
          md = Some [(''attributedUserId'', d_attributedUserId opts)];
          raw = toRaw debitAmount
      in rbind (insert_entry \<lparr>e_id = entryId, e_postedAt = clock s,
             e_entryType = debit_type_name type, e_description = d_description opts,
             e_referenceId = d_referenceId opts, e_tenantId = tenantId, e_metadata = md,
             e_createdBy = Some (case d_createdBy opts of Some u \<Rightarrow> u | None \<Rightarrow> ''system'')\<rparr>
             (s\<lparr>next_uuid := Suc (next_uuid s)\<rparr>)) (\<lambda>s1.
         rbind (insert_line_row entryId tenantAccountId raw Debit_Side s1) (\<lambda>s2.
         rbind (insert_line_row entryId creditAccountId raw Credit_Side s2) (\<lambda>s3.
         rbind (add_to_balance tenantAccountId (- raw) s3) (\<lambda>s4.
         case find_account_id creditAccountId s4 of
           None \<Rightarrow> Inl (Missing_Normal_Side creditAccountId)
         | Some a \<Rightarrow>
             rbind (add_to_balance creditAccountId
                      (if a_normalSide a = Credit_Side then raw else - raw) s4) (\<lambda>s5.
             Inr (\<lparr>je_id = entryId, je_postedAt = clock s, je_entryType = debit_type_name type,
                   je_tenantId = tenantId, je_description = d_description opts,
                   je_referenceId = d_referenceId opts, je_metadata = md,
                   je_lines =
                    [\<lparr>accountCode = tenant_code tenantId, amount = debitAmount, side = Debit_Side\<rparr>,
                     \<lparr>accountCode = DEBIT_TYPE_ACCOUNT type, amount = debitAmount, side = Credit_Side\<rparr>]\<rparr>,
                  s5)))))))"

definition debitCapped ::
  "string \<Rightarrow> credit \<Rightarrow> debit_type \<Rightarrow> debit_opts \<Rightarrow> db
   \<Rightarrow> ledger_error + journal_entry option \<times> db" where
  "debitCapped tenantId maxAmount type opts s =
     rbind (lock_codes (sort [tenant_code tenantId, DEBIT_TYPE_ACCOUNT type]) s) (\<lambda>(ids, s1).
       case (ids (tenant_code tenantId), ids (DEBIT_TYPE_ACCOUNT type)) of
         (Some tenantAccountId, Some creditAccountId) \<Rightarrow>
           rbind (read_credit (stored_balance (tenant_code tenantId) s1)) (\<lambda>currentBalance.
             if isZero currentBalance then Inr (None, s1)
             else
               rbind (capped_entry tenantId
                        (if lessThan currentBalance maxAmount then currentBalance else maxAmount)
                        type opts tenantAccountId creditAccountId s1) (\<lambda>(je, s2).
               Inr (Some je, s2)))
       | _ \<Rightarrow> Inl (Account_Not_Found (tenant_code tenantId)))"

section \<open>Queries\<close>

definition balance :: "string \<Rightarrow> db \<Rightarrow> ledger_error + credit" where
  "balance tenantId s = read_credit (stored_balance (tenant_code tenantId) s)"

definition accountBalance :: "string \<Rightarrow> db \<Rightarrow> ledger_error + credit" where
  "accountBalance code s = read_credit (stored_balance code s)"

text \<open>\<open>metadata->>'key'\<close>: null when the object, the field or its value is null.\<close>

definition json_text :: "metadata option \<Rightarrow> string \<Rightarrow> string option" where
  "json_text md k = (case md of None \<Rightarrow> None | Some m \<Rightarrow>
     (case map_of m k of None \<Rightarrow> None | Some v \<Rightarrow> v))"

record history_opts =
  h_limit :: "int option"
  h_offset :: "int option"
  h_type :: "string option"

definition history_page :: "string \<Rightarrow> history_opts \<Rightarrow> db \<Rightarrow> entry_row list" where
  "history_page tenantId opts s =
     (let lim = min (max 1 (case h_limit opts of Some n \<Rightarrow> n | None \<Rightarrow> 50)) 250;
          offs = max 0 (case h_offset opts of Some n \<Rightarrow> n | None \<Rightarrow> 0);
          rows = filter (\<lambda>e. e_tenantId e = tenantId
                   \<and> (case h_type opts of None \<Rightarrow> True | Some t \<Rightarrow> t = '''' \<or> e_entryType e = t))
                   (journalEntries s)
      in take (nat lim) (drop (nat offs) (rev (sort_key e_postedAt (rev rows)))))"

definition join_line :: "db \<Rightarrow> line_row \<Rightarrow> ledger_error + journal_line list" where
  "join_line s l =
     (case find_account_id (l_accountId l) s of
        None \<Rightarrow> Inr []
      | Some a \<Rightarrow> rbind (read_credit (l_amount l)) (\<lambda>c.
          Inr [\<lparr>accountCode = a_code a, amount = c, side = l_side l\<rparr>]))"

definition history :: "string \<Rightarrow> history_opts \<Rightarrow> db \<Rightarrow> ledger_error + journal_entry list" where
  "history tenantId opts s =
     rmap (\<lambda>e. rbind (rmap (join_line s) (filter (\<lambda>l. l_entryId l = e_id e) (journalLines s))) (\<lambda>lss.
       Inr \<lparr>je_id = e_id e, je_postedAt = e_postedAt e, je_entryType = e_entryType e,
            je_tenantId = e_tenantId e, je_description = e_description e,
            je_referenceId = e_referenceId e, je_metadata = e_metadata e, je_lines = concat lss\<rparr>))
       (history_page tenantId opts s)"

definition tenantsWithBalance :: "db \<Rightarrow> ledger_error + (string \<times> credit) list" where
  "tenantsWithBalance s =
     rmap (\<lambda>(t, b). rbind (read_credit b) (\<lambda>c. Inr (t, c)))
       (concat (map (\<lambda>a. case (a_tenantId a, accountBalances s (a_id a)) of
            (Some t, Some b) \<Rightarrow> if a_type a = Liability \<and> 0 < b then [(t, b)] else []
          | _ \<Rightarrow> []) (accounts s)))"

text \<open>The debit lines of a tenant account, with their entries.\<close>

definition account_lines :: "string \<Rightarrow> side \<Rightarrow> db \<Rightarrow> line_row list" where
  "account_lines code sd s =
     filter (\<lambda>l. l_side l = sd \<and>
       (case find_account_id (l_accountId l) s of None \<Rightarrow> False | Some a \<Rightarrow> a_code a = code))
       (journalLines s)"

definition find_entry :: "uuid \<Rightarrow> db \<Rightarrow> entry_row option" where
  "find_entry i s = find (\<lambda>e. e_id e = i) (journalEntries s)"

definition line_user :: "db \<Rightarrow> line_row \<Rightarrow> string option" where
  "line_user s l = (case find_entry (l_entryId l) s of
     None \<Rightarrow> None | Some e \<Rightarrow> json_text (e_metadata e) ''attributedUserId'')"

record member_usage =
  mu_userId :: string
  mu_totalDebit :: credit
  mu_transactionCount :: nat

definition memberUsage :: "string \<Rightarrow> db \<Rightarrow> ledger_error + member_usage list" where
  "memberUsage tenantId s =
     (let ls = account_lines (tenant_code tenantId) Debit_Side s;
          users = remdups (List.map_filter (line_user s) ls)
      in rmap (\<lambda>u. let mine = filter (\<lambda>l. line_user s l = Some u) ls in
           rbind (read_credit (sum_list (map l_amount mine))) (\<lambda>c.
           Inr \<lparr>mu_userId = u, mu_totalDebit = c, mu_transactionCount = length mine\<rparr>)) users)"

text \<open>A \<open>SUM\<close> read as a big integer, refused above the safe range.\<close>

definition credit_of_sum :: "int \<Rightarrow> ledger_error + credit" where
  "credit_of_sum raw =
     (if raw > max_safe_integer then Inl (Sum_Overflow raw) else read_credit raw)"

definition lifetimeSpend :: "string \<Rightarrow> db \<Rightarrow> ledger_error + credit" where
  "lifetimeSpend tenantId s =
     credit_of_sum (sum_list (map l_amount (account_lines (tenant_code tenantId) Debit_Side s)))"

definition lifetimeSpendBatch :: "string list \<Rightarrow> db \<Rightarrow> ledger_error + (string \<rightharpoonup> credit)" where
  "lifetimeSpendBatch tenantIds s =
     (let codes = map tenant_code tenantIds;
          rows = filter (\<lambda>a. a_code a \<in> set codes \<and> account_lines (a_code a) Debit_Side s \<noteq> [])
                   (accounts s)
      in rbind (rfold (\<lambda>m a.
             rbind (credit_of_sum (sum_list (map l_amount (account_lines (a_code a) Debit_Side s))))
               (\<lambda>c. Inr (m(drop 5 (a_code a) \<mapsto> c)))) Map.empty rows) (\<lambda>result.
         Inr (foldl (\<lambda>m t. if m t = None then m(t \<mapsto> ZERO) else m) result tenantIds)))"

text \<open>The subquery of \<open>expiredCredits\<close>: the first credit line on a liability account.\<close>

definition granted_amount :: "uuid \<Rightarrow> db \<Rightarrow> int option" where
  "granted_amount entryId s =
     map_option l_amount (find (\<lambda>l. l_entryId l = entryId \<and> l_side l = Credit_Side \<and>
       (case find_account_id (l_accountId l) s of None \<Rightarrow> False | Some a \<Rightarrow> a_type a = Liability))
       (journalLines s))"

definition expiry_reference :: "uuid \<Rightarrow> string" where
  "expiry_reference entryId = ''expiry:'' @ decimal entryId"

definition expiry_candidates :: "string \<Rightarrow> db \<Rightarrow> entry_row list" where
  "expiry_candidates now s =
     filter (\<lambda>e. (case json_text (e_metadata e) ''expiresAt'' of None \<Rightarrow> False | Some t \<Rightarrow> t \<le> now)
        \<and> e_entryType e \<in> set EXPIRABLE_CREDIT_TYPES) (journalEntries s)"

definition expiredCredits :: "string \<Rightarrow> db \<Rightarrow> ledger_error + (uuid \<times> string \<times> credit) list" where
  "expiredCredits now s =
     rbind (rmap (\<lambda>e. case granted_amount (e_id e) s of
          None \<Rightarrow> Inr []
        | Some amt \<Rightarrow>
            if amt = 0 then Inr []
            else if hasReferenceId (expiry_reference (e_id e)) s then Inr []
            else rbind (read_credit amt) (\<lambda>c. Inr [(e_id e, e_tenantId e, c)]))
        (expiry_candidates now s)) (\<lambda>xs. Inr (concat xs))"

text \<open>SQL \<open>LIKE\<close> with its two wildcards and backslash escapes.\<close>

fun like :: "string \<Rightarrow> string \<Rightarrow> bool" where
  "like [] s \<longleftrightarrow> s = []"
| "like (p # ps) s \<longleftrightarrow>
     (if p = CHR ''%'' then like ps s \<or> (case s of [] \<Rightarrow> False | c # cs \<Rightarrow> like (p # ps) cs)
      else if p = CHR 0x5C \<and> ps \<noteq> [] then
        (case s of [] \<Rightarrow> False | c # cs \<Rightarrow> c = hd ps \<and> like (tl ps) cs)
      else (case s of [] \<Rightarrow> False | c # cs \<Rightarrow> (p = CHR ''_'' \<or> p = c) \<and> like ps cs))"

definition existsByReferenceIdLike :: "string \<Rightarrow> db \<Rightarrow> bool" where
  "existsByReferenceIdLike pat s \<longleftrightarrow>
     (\<exists>e \<in> set (journalEntries s). case e_referenceId e of None \<Rightarrow> False | Some r \<Rightarrow> like pat r)"

text \<open>
  \<open>text::timestamptz\<close> is a parameter: the database's parser of timestamps, giving the
  microsecond a text denotes.
\<close>

definition in_window :: "(string \<Rightarrow> int) \<Rightarrow> string \<Rightarrow> string \<Rightarrow> entry_row \<Rightarrow> bool" where
  "in_window ts startTs endTs e \<longleftrightarrow>
     e_entryType e = ''purchase'' \<and> ts startTs \<le> ts (e_postedAt e) \<and> ts (e_postedAt e) < ts endTs"

definition sumPurchasesForPeriod ::
  "(string \<Rightarrow> int) \<Rightarrow> string \<Rightarrow> string \<Rightarrow> db \<Rightarrow> ledger_error + credit" where
  "sumPurchasesForPeriod ts startTs endTs s =
     credit_of_sum (sum_list (map l_amount (filter (\<lambda>l.
       l_side l = Credit_Side
       \<and> (case find_entry (l_entryId l) s of None \<Rightarrow> False | Some e \<Rightarrow> in_window ts startTs endTs e)
       \<and> (case find_account_id (l_accountId l) s of None \<Rightarrow> False | Some a \<Rightarrow> a_type a = Liability))
       (journalLines s))))"

definition getActiveTenantIdsInWindow ::
  "(string \<Rightarrow> int) \<Rightarrow> string \<Rightarrow> string \<Rightarrow> db \<Rightarrow> string list" where
  "getActiveTenantIdsInWindow ts startTs endTs s =
     remdups (map e_tenantId (filter (in_window ts startTs endTs) (journalEntries s)))"

record trial_balance =
  tb_totalDebits :: credit
  tb_totalCredits :: credit
  tb_balanced :: bool
  tb_difference :: credit

definition side_total :: "side \<Rightarrow> db \<Rightarrow> int" where
  "side_total sd s = sum_list (map l_amount (filter (\<lambda>l. l_side l = sd) (journalLines s)))"

definition trialBalance :: "db \<Rightarrow> ledger_error + trial_balance" where
  "trialBalance s =
     (let d = side_total Debit_Side s; c = side_total Credit_Side s;
          diff = (if d > c then d - c else c - d)
      in if d > max_safe_integer \<or> c > max_safe_integer then Inl (Sum_Overflow (max d c))
         else rbind (read_credit d) (\<lambda>td. rbind (read_credit c) (\<lambda>tc. rbind (read_credit diff) (\<lambda>df.
           Inr \<lparr>tb_totalDebits = td, tb_totalCredits = tc, tb_balanced = (d = c),
                tb_difference = df\<rparr>))))"

end
