(* ===== verification/LedgerInv.thy ===== *)
theory LedgerInv
  imports Ledger
begin

text \<open>
  The invariant of the ledger's tables and its preservation by the primitives: unique keys,
  lines that refer to existing rows, the chart of accounts, and materialized balances equal to
  the signed sum of the lines. The last part, that every entry balances, holds between
  transactions only and is established from the lines a transaction adds.
\<close>

section \<open>The invariant\<close>

definition signed :: "side \<Rightarrow> side \<Rightarrow> int \<Rightarrow> int" where
  "signed ns sd amt = (if sd = ns then amt else - amt)"

definition line_sum :: "account \<Rightarrow> line_row list \<Rightarrow> int" where
  "line_sum a ls = sum_list (map (\<lambda>l. if l_accountId l = a_id a
       then signed (a_normalSide a) (l_side l) (l_amount l) else 0) ls)"

definition entry_total :: "side \<Rightarrow> uuid \<Rightarrow> line_row list \<Rightarrow> int" where
  "entry_total sd i ls =
     sum_list (map l_amount (filter (\<lambda>l. l_side l = sd \<and> l_entryId l = i) ls))"

definition keys_ok :: "db \<Rightarrow> bool" where
  "keys_ok s \<longleftrightarrow>
     distinct (map a_code (accounts s)) \<and> distinct (map a_id (accounts s))
     \<and> (\<forall>a \<in> set (accounts s). a_id a < next_uuid s)
     \<and> distinct (map e_id (journalEntries s)) \<and> (\<forall>e \<in> set (journalEntries s). e_id e < next_uuid s)
     \<and> distinct (List.map_filter e_referenceId (journalEntries s))
     \<and> distinct (map l_id (journalLines s)) \<and> (\<forall>l \<in> set (journalLines s). l_id l < next_uuid s)"

definition refs_ok :: "db \<Rightarrow> bool" where
  "refs_ok s \<longleftrightarrow>
     (\<forall>l \<in> set (journalLines s). l_accountId l \<in> a_id ` set (accounts s)
        \<and> l_entryId l \<in> e_id ` set (journalEntries s))
     \<and> dom (accountBalances s) \<subseteq> a_id ` set (accounts s)"

definition account_row_ok :: "account \<Rightarrow> bool" where
  "account_row_ok a \<longleftrightarrow>
     (if is_tenant_code (a_code a)
      then a_type a = Liability \<and> a_normalSide a = Credit_Side \<and> a_tenantId a = Some (drop 5 (a_code a))
      else (a_code a, a_name a, a_type a, a_normalSide a) \<in> set SYSTEM_ACCOUNTS \<and> a_tenantId a = None)"

definition chart_ok :: "db \<Rightarrow> bool" where
  "chart_ok s \<longleftrightarrow>
     (\<forall>a \<in> set (accounts s). account_row_ok a)
     \<and> set (map fst SYSTEM_ACCOUNTS) \<subseteq> set (map a_code (accounts s))"

definition balances_ok :: "db \<Rightarrow> bool" where
  "balances_ok s \<longleftrightarrow>
     (\<forall>a \<in> set (accounts s). (case accountBalances s (a_id a) of None \<Rightarrow> 0 | Some b \<Rightarrow> b)
        = line_sum a (journalLines s))"

definition core_inv :: "db \<Rightarrow> bool" where
  "core_inv s \<longleftrightarrow> keys_ok s \<and> refs_ok s \<and> (\<forall>a \<in> set (accounts s). account_row_ok a) \<and> balances_ok s"

definition entries_balanced :: "db \<Rightarrow> bool" where
  "entries_balanced s \<longleftrightarrow>
     (\<forall>i. entry_total Debit_Side i (journalLines s) = entry_total Credit_Side i (journalLines s))"

definition ledger_inv :: "db \<Rightarrow> bool" where
  "ledger_inv s \<longleftrightarrow> core_inv s \<and> chart_ok s \<and> entries_balanced s"

section \<open>Looking accounts up\<close>

lemma find_unique:
  assumes "distinct (map f xs)" "x \<in> set xs"
  shows "find (\<lambda>y. f y = f x) xs = Some x"
  using assms
proof (induction xs)
  case Nil
  then show ?case by simp
next
  case (Cons z zs)
  then show ?case by (cases "z = x") (auto simp: image_iff)
qed

lemma find_Some_set: "find P xs = Some x \<Longrightarrow> x \<in> set xs \<and> P x"
  by (induction xs) (auto split: if_splits)

lemma find_account_mem:
  "keys_ok s \<Longrightarrow> a \<in> set (accounts s) \<Longrightarrow> find_account (a_code a) s = Some a"
  unfolding find_account_def keys_ok_def by (intro find_unique) auto

lemma find_account_id_mem:
  "keys_ok s \<Longrightarrow> a \<in> set (accounts s) \<Longrightarrow> find_account_id (a_id a) s = Some a"
  unfolding find_account_id_def keys_ok_def by (intro find_unique) auto

lemma find_account_SomeD: "find_account c s = Some a \<Longrightarrow> a \<in> set (accounts s) \<and> a_code a = c"
  unfolding find_account_def by (rule find_Some_set)

lemma find_account_id_SomeD: "find_account_id i s = Some a \<Longrightarrow> a \<in> set (accounts s) \<and> a_id a = i"
  unfolding find_account_id_def by (rule find_Some_set)

lemma find_account_None: "find_account c s = None \<longleftrightarrow> c \<notin> set (map a_code (accounts s))"
  by (auto simp: find_account_def find_None_iff)

lemma stored_balance_sum:
  assumes "core_inv s" "a \<in> set (accounts s)"
  shows "stored_balance (a_code a) s = line_sum a (journalLines s)"
  using assms find_account_mem[of s a]
  by (auto simp: core_inv_def balances_ok_def stored_balance_def)

lemma account_same_code:
  "keys_ok s \<Longrightarrow> a \<in> set (accounts s) \<Longrightarrow> b \<in> set (accounts s) \<Longrightarrow> a_code a = a_code b \<Longrightarrow> a = b"
  by (metis find_account_mem option.inject)

lemma account_same_id:
  "keys_ok s \<Longrightarrow> a \<in> set (accounts s) \<Longrightarrow> b \<in> set (accounts s) \<Longrightarrow> a_id a = a_id b \<Longrightarrow> a = b"
  by (metis find_account_id_mem option.inject)

section \<open>Line sums\<close>

lemma line_sum_Nil [simp]: "line_sum a [] = 0"
  by (simp add: line_sum_def)

lemma line_sum_append [simp]: "line_sum a (xs @ ys) = line_sum a xs + line_sum a ys"
  by (simp add: line_sum_def)

lemma line_sum_other: "a_id a \<notin> l_accountId ` set ls \<Longrightarrow> line_sum a ls = 0"
  by (induction ls) (auto simp: line_sum_def)

lemma entry_total_append [simp]:
  "entry_total sd i (xs @ ys) = entry_total sd i xs + entry_total sd i ys"
  by (simp add: entry_total_def)

lemma entry_total_other: "i \<notin> l_entryId ` set ls \<Longrightarrow> entry_total sd i ls = 0"
  by (induction ls) (auto simp: entry_total_def)

section \<open>The primitives keep the core invariant\<close>

text \<open>
  What locking the accounts may do to the state: create tenant accounts and zero balances,
  and nothing that an operation could observe as money.
\<close>

definition only_locks :: "db \<Rightarrow> db \<Rightarrow> bool" where
  "only_locks s s' \<longleftrightarrow>
     journalEntries s' = journalEntries s \<and> journalLines s' = journalLines s \<and> clock s' = clock s
     \<and> next_uuid s \<le> next_uuid s' \<and> set (accounts s) \<subseteq> set (accounts s')
     \<and> (\<forall>i b. accountBalances s i = Some b \<longrightarrow> accountBalances s' i = Some b)
     \<and> (core_inv s \<longrightarrow> core_inv s') \<and> (chart_ok s \<longrightarrow> chart_ok s')
     \<and> (core_inv s \<longrightarrow> (\<forall>c. stored_balance c s' = stored_balance c s))"

lemma only_locks_refl: "only_locks s s"
  by (simp add: only_locks_def)

lemma only_locks_trans: "only_locks s t \<Longrightarrow> only_locks t u \<Longrightarrow> only_locks s u"
  unfolding only_locks_def by auto

lemma line_sum_fresh:
  assumes "keys_ok s" "refs_ok s" "a_id a = next_uuid s"
  shows "line_sum a (journalLines s) = 0"
proof (rule line_sum_other)
  have "next_uuid s \<notin> a_id ` set (accounts s)" using assms(1) by (auto simp: keys_ok_def)
  then show "a_id a \<notin> l_accountId ` set (journalLines s)"
    using assms(2,3) by (auto simp: refs_ok_def)
qed

lemma fresh_balance:
  assumes "core_inv s"
  shows "accountBalances s (next_uuid s) = None"
proof -
  have "next_uuid s \<notin> a_id ` set (accounts s)"
    using assms by (auto simp: core_inv_def keys_ok_def)
  then have "next_uuid s \<notin> dom (accountBalances s)"
    using assms by (auto simp: core_inv_def refs_ok_def)
  then show ?thesis by auto
qed

lemma find_append: "find P (xs @ ys) = (case find P xs of Some x \<Rightarrow> Some x | None \<Rightarrow> find P ys)"
  by (induction xs) auto

lemma insert_account_core:
  assumes "core_inv s" "\<And>i. account_row_ok \<lparr>a_id = i, a_code = c, a_name = n, a_type = ty,
      a_normalSide = ns, a_tenantId = t\<rparr>"
  shows "core_inv (insert_account c n ty ns t s)"
proof (cases "c \<in> set (map a_code (accounts s))")
  case True
  then show ?thesis
    using assms(1)
    by (force simp: insert_account_def core_inv_def keys_ok_def refs_ok_def balances_ok_def Let_def)
next
  case False
  let ?a = "\<lparr>a_id = next_uuid s, a_code = c, a_name = n, a_type = ty, a_normalSide = ns, a_tenantId = t\<rparr>"
  have z: "line_sum ?a (journalLines s) = 0"
    using assms(1) by (intro line_sum_fresh) (auto simp: core_inv_def)
  have b: "accountBalances s (next_uuid s) = None"
    using assms(1) by (rule fresh_balance)
  show ?thesis
    using assms False z b
    by (auto simp: insert_account_def core_inv_def keys_ok_def refs_ok_def balances_ok_def Let_def
          less_Suc_eq)
qed

lemma insert_account_locks:
  assumes "account_row_ok \<lparr>a_id = 0, a_code = c, a_name = n, a_type = ty,
      a_normalSide = ns, a_tenantId = t\<rparr>"
  shows "only_locks s (insert_account c n ty ns t s)"
proof -
  have row: "\<And>i. account_row_ok \<lparr>a_id = i, a_code = c, a_name = n, a_type = ty,
      a_normalSide = ns, a_tenantId = t\<rparr>"
    using assms by (simp add: account_row_ok_def split: if_splits)
  have "stored_balance k (insert_account c n ty ns t s) = stored_balance k s" if "core_inv s" for k
  proof -
    have "accountBalances s (next_uuid s) = None"
      using that by (rule fresh_balance)
    then show ?thesis
      by (auto simp: insert_account_def Let_def stored_balance_def find_account_def find_append
            split: option.splits)
  qed
  moreover have "chart_ok s \<Longrightarrow> chart_ok (insert_account c n ty ns t s)"
    using row by (auto simp: chart_ok_def insert_account_def Let_def)
  ultimately show ?thesis
    using insert_account_core[OF _ row]
    by (auto simp: only_locks_def insert_account_def Let_def)
qed

lemma insert_balance_locks:
  assumes "a \<in> set (accounts s)" "a_id a = i"
  shows "only_locks s (insert_balance i s)"
proof (cases "accountBalances s i")
  case None
  have "core_inv s \<Longrightarrow> core_inv (insert_balance i s)"
    using None assms
    by (auto simp: insert_balance_def core_inv_def keys_ok_def refs_ok_def balances_ok_def)
  moreover have "stored_balance k (insert_balance i s) = stored_balance k s" for k
    using None by (auto simp: insert_balance_def stored_balance_def find_account_def split: option.splits)
  moreover have "chart_ok s \<Longrightarrow> chart_ok (insert_balance i s)"
    using None by (simp add: insert_balance_def chart_ok_def)
  ultimately show ?thesis
    using None by (auto simp: only_locks_def insert_balance_def)
next
  case (Some b)
  then show ?thesis by (simp add: insert_balance_def only_locks_refl)
qed

text \<open>Locking an account: afterwards its row and its balance row exist.\<close>

definition locked :: "string \<Rightarrow> uuid \<Rightarrow> db \<Rightarrow> bool" where
  "locked code i s \<longleftrightarrow> (\<exists>a \<in> set (accounts s). a_code a = code \<and> a_id a = i) \<and> i \<in> dom (accountBalances s)"

lemma locked_mono: "only_locks s s' \<Longrightarrow> locked c i s \<Longrightarrow> locked c i s'"
  unfolding locked_def only_locks_def by blast

lemma resolveAccountLocked_locks:
  assumes "resolveAccountLocked c s = Inr (i, s')"
  shows "only_locks s s' \<and> locked c i s'"
proof -
  from assms obtain a where a: "find_account c s = Some a" "i = a_id a" "s' = insert_balance i s"
    by (auto simp: resolveAccountLocked_def split: option.splits)
  note m = find_account_SomeD[OF a(1)]
  have "locked c i s'"
    using m a by (auto simp: locked_def insert_balance_def split: option.splits)
  then show ?thesis using insert_balance_locks[of a s i] m a by simp
qed

lemma is_tenant_code_tenant [simp]: "is_tenant_code (tenant_code t)"
  by (simp add: is_tenant_code_def tenant_code_def)

lemma drop_tenant_code [simp]: "drop 5 (tenant_code t) = t"
  by (simp add: tenant_code_def)

lemma tenant_code_drop: "is_tenant_code c \<Longrightarrow> tenant_code (drop 5 c) = c"
  by (metis append_take_drop_id is_tenant_code_def tenant_code_def)

lemma tenant_code_inj [simp]: "tenant_code t = tenant_code u \<longleftrightarrow> t = u"
  by (simp add: tenant_code_def)

lemma tenant_row_ok: "account_row_ok \<lparr>a_id = i, a_code = tenant_code t, a_name = n,
    a_type = Liability, a_normalSide = Credit_Side, a_tenantId = Some t\<rparr>"
  by (simp add: account_row_ok_def)

lemma lock_account_locks:
  assumes "lock_account c s = Inr (i, s')"
  shows "only_locks s s' \<and> locked c i s'"
proof (cases "is_tenant_code c")
  case True
  let ?s1 = "insert_account (tenant_code (drop 5 c)) (''Unearned Revenue: '' @ drop 5 c)
    Liability Credit_Side (Some (drop 5 c)) s"
  have "only_locks s ?s1" by (rule insert_account_locks[OF tenant_row_ok])
  moreover have "resolveAccountLocked c ?s1 = Inr (i, s')"
    using assms True by (simp add: lock_account_def ensureTenantAccountLocked_def tenant_code_drop)
  ultimately show ?thesis using resolveAccountLocked_locks only_locks_trans by blast
next
  case False
  then show ?thesis using assms resolveAccountLocked_locks by (simp add: lock_account_def)
qed

lemma resolve_lines_locks:
  assumes "resolve_lines ls s = Inr (rs, s')"
  shows "only_locks s s' \<and> map fst rs = ls \<and> (\<forall>(l, i) \<in> set rs. locked (accountCode l) i s')"
  using assms
proof (induction ls arbitrary: s rs)
  case Nil
  then show ?case by (simp add: only_locks_refl)
next
  case (Cons l ls)
  from Cons.prems obtain i s1 rs' where a: "lock_account (accountCode l) s = Inr (i, s1)"
    "resolve_lines ls s1 = Inr (rs', s')" "rs = (l, i) # rs'"
    by (auto simp: rbind_Inr_iff)
  note l = lock_account_locks[OF a(1)] and ih = Cons.IH[OF a(2)]
  have "only_locks s s'" using l ih only_locks_trans by blast
  moreover have "locked (accountCode l) i s'" using l ih locked_mono by blast
  ultimately show ?case using ih a(3) by simp
qed

text \<open>The entry header.\<close>

lemma map_filter_append: "List.map_filter f (xs @ ys) = List.map_filter f xs @ List.map_filter f ys"
  by (simp add: List.map_filter_def)

lemma set_map_filter_Some: "y \<in> set (List.map_filter f xs) \<longleftrightarrow> Some y \<in> f ` set xs"
  by (induction xs) (auto simp: List.map_filter_simps split: option.splits)

lemma hasReferenceId_map_filter:
  "hasReferenceId r s \<longleftrightarrow> r \<in> set (List.map_filter e_referenceId (journalEntries s))"
  by (simp add: hasReferenceId_def set_map_filter_Some)

lemma insert_entry_Inr:
  assumes "insert_entry e (s\<lparr>next_uuid := Suc (next_uuid s)\<rparr>) = Inr s'" "e_id e = next_uuid s"
  shows "s' = s\<lparr>next_uuid := Suc (next_uuid s), journalEntries := journalEntries s @ [e]\<rparr>"
    and "\<forall>r. e_referenceId e = Some r \<longrightarrow> \<not> hasReferenceId r s"
  using assms by (auto simp: insert_entry_def hasReferenceId_def split: option.splits if_splits)

lemma insert_entry_core:
  assumes "insert_entry e (s\<lparr>next_uuid := Suc (next_uuid s)\<rparr>) = Inr s'" "e_id e = next_uuid s"
    and "core_inv s"
  shows "core_inv s'"
proof -
  have "distinct (List.map_filter e_referenceId (journalEntries s @ [e]))"
    using assms(3) insert_entry_Inr(2)[OF assms(1,2)]
    by (cases "e_referenceId e")
       (auto simp: map_filter_append hasReferenceId_map_filter core_inv_def keys_ok_def
          List.map_filter_def)
  then show ?thesis
    using assms(2,3) insert_entry_Inr(1)[OF assms(1,2)]
    by (auto simp: core_inv_def keys_ok_def refs_ok_def balances_ok_def less_Suc_eq)
qed

text \<open>One line with its balance.\<close>

definition same_frame :: "db \<Rightarrow> db \<Rightarrow> bool" where
  "same_frame s s' \<longleftrightarrow> accounts s' = accounts s \<and> journalEntries s' = journalEntries s
     \<and> clock s' = clock s \<and> dom (accountBalances s') = dom (accountBalances s)
     \<and> next_uuid s \<le> next_uuid s'"

definition line_matches :: "uuid \<Rightarrow> journal_line \<times> uuid \<Rightarrow> line_row \<Rightarrow> bool" where
  "line_matches eid = (\<lambda>(l, i) r. l_entryId r = eid \<and> l_accountId r = i
     \<and> l_amount r = toRaw (amount l) \<and> l_side r = side l)"

lemma post_line_core:
  assumes "post_line eid s (l, i) = Inr s'" "core_inv s" "locked (accountCode l) i s"
    and "eid \<in> e_id ` set (journalEntries s)"
  shows "core_inv s' \<and> same_frame s s' \<and>
    (\<exists>r. journalLines s' = journalLines s @ [r] \<and> line_matches eid (l, i) r)"
proof -
  obtain a b where a: "a \<in> set (accounts s)" "a_code a = accountCode l" "a_id a = i"
    "accountBalances s i = Some b"
    using assms(3) by (auto simp: locked_def)
  let ?r = "\<lparr>l_id = next_uuid s, l_entryId = eid, l_accountId = i, l_amount = toRaw (amount l),
    l_side = side l\<rparr>"
  let ?d = "signed (a_normalSide a) (side l) (toRaw (amount l))"
  have "find_account_id i s = Some a"
    using find_account_id_mem[of s a] a assms(2) by (simp add: core_inv_def)
  then have s': "s' = s\<lparr>journalLines := journalLines s @ [?r], next_uuid := Suc (next_uuid s),
      accountBalances := (accountBalances s)(i \<mapsto> b + ?d)\<rparr>"
    using assms(1) a(4)
    by (auto simp: post_line_def insert_line_row_def add_to_balance_def rbind_Inr_iff
          find_account_id_def signed_def split: if_splits)
  have bal: "b = line_sum a (journalLines s)"
    using assms(2) a by (auto simp: core_inv_def balances_ok_def split: option.splits)
  have "balances_ok s'"
    unfolding balances_ok_def
  proof
    fix a' assume "a' \<in> set (accounts s')"
    then have a': "a' \<in> set (accounts s)" by (simp add: s')
    show "(case accountBalances s' (a_id a') of None \<Rightarrow> 0 | Some b \<Rightarrow> b) = line_sum a' (journalLines s')"
    proof (cases "a_id a' = i")
      case True
      then have "a' = a" using account_same_id[of s a' a] a a' assms(2) by (simp add: core_inv_def)
      then show ?thesis using a bal by (simp add: s' line_sum_def)
    next
      case False
      then show ?thesis
        using a' assms(2) by (simp add: s' core_inv_def balances_ok_def line_sum_def)
    qed
  qed
  moreover have "keys_ok s'" "refs_ok s'"
    using assms(2,4) a by (auto simp: s' core_inv_def keys_ok_def refs_ok_def less_Suc_eq)
  ultimately show ?thesis
    using assms(2) a(4) by (auto simp: s' core_inv_def same_frame_def line_matches_def)
qed

section \<open>The whole transaction\<close>

lemma locked_frame: "same_frame s s' \<Longrightarrow> locked c i s' = locked c i s"
  by (simp add: same_frame_def locked_def)

lemma same_frame_trans: "same_frame s t \<Longrightarrow> same_frame t u \<Longrightarrow> same_frame s u"
  by (simp add: same_frame_def)

lemma post_lines_core:
  assumes "rfold (post_line eid) s rs = Inr s'" "core_inv s"
    and "\<forall>(l, i) \<in> set rs. locked (accountCode l) i s" "eid \<in> e_id ` set (journalEntries s)"
  shows "core_inv s' \<and> same_frame s s' \<and>
    (\<exists>news. journalLines s' = journalLines s @ news \<and> list_all2 (line_matches eid) rs news)"
  using assms
proof (induction rs arbitrary: s)
  case Nil
  then show ?case by (simp add: same_frame_def)
next
  case (Cons r rs)
  obtain l i where r: "r = (l, i)" by fastforce
  from Cons.prems(1) obtain s1 where s1: "post_line eid s (l, i) = Inr s1"
    "rfold (post_line eid) s1 rs = Inr s'" by (auto simp: rbind_Inr_iff r)
  have "locked (accountCode l) i s" using Cons.prems(3) r by auto
  note one = post_line_core[OF s1(1) Cons.prems(2) this Cons.prems(4)]
  have "\<forall>(l, i) \<in> set rs. locked (accountCode l) i s1"
    using Cons.prems(3) locked_frame one by fastforce
  moreover have "eid \<in> e_id ` set (journalEntries s1)"
    using one Cons.prems(4) by (simp add: same_frame_def)
  ultimately have rest: "core_inv s' \<and> same_frame s1 s' \<and>
      (\<exists>news. journalLines s' = journalLines s1 @ news \<and> list_all2 (line_matches eid) rs news)"
    using Cons.IH[OF s1(2)] one by blast
  from one obtain x where x: "journalLines s1 = journalLines s @ [x]" "line_matches eid (l, i) x"
    by blast
  from rest obtain news where n: "journalLines s' = journalLines s1 @ news"
    "list_all2 (line_matches eid) rs news" by blast
  have "journalLines s' = journalLines s @ (x # news)
      \<and> list_all2 (line_matches eid) (r # rs) (x # news)" using x n r by simp
  then show ?case using one rest same_frame_trans by blast
qed

definition lines_total :: "side \<Rightarrow> journal_line list \<Rightarrow> int" where
  "lines_total sd ls = sum_list (map (\<lambda>l. if side l = sd then toRaw (amount l) else 0) ls)"

definition lines_delta :: "side \<Rightarrow> string \<Rightarrow> journal_line list \<Rightarrow> int" where
  "lines_delta ns c ls = sum_list (map (\<lambda>l. if accountCode l = c
      then signed ns (side l) (toRaw (amount l)) else 0) ls)"

lemma side_cases: "sd \<noteq> Debit_Side \<longleftrightarrow> sd = Credit_Side"
  by (cases sd) auto

lemma sum_sides_Inr:
  "sum_sides (d, c) ls = Inr (d', c') \<longleftrightarrow>
     (\<forall>l \<in> set ls. 0 < toRaw (amount l))
     \<and> d' = d + lines_total Debit_Side ls \<and> c' = c + lines_total Credit_Side ls"
  by (induction "(d, c)" ls arbitrary: d c rule: sum_sides.induct)
     (auto simp: lines_total_def credit_cmp side_cases algebra_simps)

lemma check_lines_Inr:
  "check_lines ls = Inr u \<longleftrightarrow> 2 \<le> length ls \<and> (\<forall>l \<in> set ls. 0 < toRaw (amount l))
     \<and> lines_total Debit_Side ls = lines_total Credit_Side ls"
  by (auto simp: check_lines_def rbind_Inr_iff sum_sides_Inr split: if_splits)

lemma entry_total_lines:
  assumes "list_all2 (line_matches eid) rs news"
  shows "entry_total sd eid news = lines_total sd (map fst rs)"
  using assms
  by (induction rs news rule: list_all2_induct)
     (auto simp: entry_total_def lines_total_def line_matches_def)

lemma line_sum_lines:
  assumes "list_all2 (line_matches eid) rs news" "keys_ok s" "a \<in> set (accounts s)"
    and "\<forall>(l, i) \<in> set rs. locked (accountCode l) i s"
  shows "line_sum a news = lines_delta (a_normalSide a) (a_code a) (map fst rs)"
  using assms
proof (induction rs news rule: list_all2_induct)
  case Nil
  then show ?case by (simp add: lines_delta_def)
next
  case (Cons r rs x xs)
  obtain l i where r: "r = (l, i)" by fastforce
  from Cons.prems(3) r obtain b where b: "b \<in> set (accounts s)" "a_code b = accountCode l" "a_id b = i"
    by (auto simp: locked_def)
  have "i = a_id a \<longleftrightarrow> accountCode l = a_code a"
    using b account_same_id[OF Cons.prems(1)] account_same_code[OF Cons.prems(1)] Cons.prems(2)
    by metis
  then show ?case
    using Cons r by (auto simp: line_sum_def lines_delta_def line_matches_def)
qed

text \<open>Neither depends on the order of the lines.\<close>

lemma lines_delta_perm: "mset ls = mset ls' \<Longrightarrow> lines_delta ns c ls = lines_delta ns c ls'"
  by (simp add: lines_delta_def flip: sum_mset_sum_list)

lemma lines_total_perm: "mset ls = mset ls' \<Longrightarrow> lines_total sd ls = lines_total sd ls'"
  by (simp add: lines_total_def flip: sum_mset_sum_list)

text \<open>Everything a successful post does to the tables.\<close>

definition new_entry :: "post_input \<Rightarrow> db \<Rightarrow> entry_row" where
  "new_entry inp s = \<lparr>e_id = next_uuid s,
     e_postedAt = (case in_postedAt inp of Some t \<Rightarrow> t | None \<Rightarrow> clock s),
     e_entryType = in_entryType inp, e_description = in_description inp,
     e_referenceId = in_referenceId inp, e_tenantId = in_tenantId inp,
     e_metadata = in_metadata inp, e_createdBy = in_createdBy inp\<rparr>"

definition with_entry :: "post_input \<Rightarrow> db \<Rightarrow> db" where
  "with_entry inp s = s\<lparr>next_uuid := Suc (next_uuid s),
     journalEntries := journalEntries s @ [new_entry inp s]\<rparr>"

definition post_result :: "post_input \<Rightarrow> db \<Rightarrow> journal_entry" where
  "post_result inp s = \<lparr>je_id = next_uuid s, je_postedAt = e_postedAt (new_entry inp s),
     je_entryType = in_entryType inp, je_tenantId = in_tenantId inp,
     je_description = in_description inp, je_referenceId = in_referenceId inp,
     je_metadata = in_metadata inp, je_lines = sort_key accountCode (in_lines inp)\<rparr>"

lemma insert_new_entry:
  "insert_entry (new_entry inp s) (s\<lparr>next_uuid := Suc (next_uuid s)\<rparr>) =
     (case in_referenceId inp of
        None \<Rightarrow> Inr (with_entry inp s)
      | Some r \<Rightarrow> if hasReferenceId r s then Inl (Unique_Violation r) else Inr (with_entry inp s))"
  by (simp add: insert_entry_def new_entry_def with_entry_def hasReferenceId_def split: option.splits)

lemma post_transaction_alt:
  "post_transaction inp s =
     rbind (insert_entry (new_entry inp s) (s\<lparr>next_uuid := Suc (next_uuid s)\<rparr>)) (\<lambda>s1.
       rbind (resolve_lines (sort_key accountCode (in_lines inp)) s1) (\<lambda>(rs, s2).
       rbind (balance_check (in_balanceCheck inp) s2) (\<lambda>_.
       rbind (rfold (post_line (next_uuid s)) s2 rs) (\<lambda>s3.
       Inr ((post_result inp s)\<lparr>je_lines := map fst rs\<rparr>, s3)))))"
  by (simp add: post_transaction_def Let_def new_entry_def post_result_def)

lemma with_entry_core:
  assumes "core_inv s" "\<forall>r. in_referenceId inp = Some r \<longrightarrow> \<not> hasReferenceId r s"
  shows "core_inv (with_entry inp s)"
proof (rule insert_entry_core[OF _ _ assms(1)])
  show "insert_entry (new_entry inp s) (s\<lparr>next_uuid := Suc (next_uuid s)\<rparr>) = Inr (with_entry inp s)"
    using assms(2) by (auto simp: insert_new_entry split: option.splits)
  show "e_id (new_entry inp s) = next_uuid s" by (simp add: new_entry_def)
qed

lemma stored_balance_with_entry [simp]: "stored_balance c (with_entry inp s) = stored_balance c s"
  by (simp add: stored_balance_def find_account_def with_entry_def split: option.splits)

text \<open>The outcome of a successful post, as one relation between the two states.\<close>

definition posted :: "post_input \<Rightarrow> db \<Rightarrow> (journal_line \<times> uuid) list \<Rightarrow> db \<Rightarrow> line_row list \<Rightarrow> db \<Rightarrow> bool" where
  "posted inp s rs s2 news s' \<longleftrightarrow>
     (\<forall>r. in_referenceId inp = Some r \<longrightarrow> \<not> hasReferenceId r s)
     \<and> only_locks (with_entry inp s) s2 \<and> core_inv s2
     \<and> mset (map fst rs) = mset (in_lines inp)
     \<and> (\<forall>(l, i) \<in> set rs. locked (accountCode l) i s2)
     \<and> balance_check (in_balanceCheck inp) s2 = Inr ()
     \<and> core_inv s' \<and> same_frame s2 s'
     \<and> journalLines s' = journalLines s @ news
     \<and> list_all2 (line_matches (next_uuid s)) rs news"

lemma post_transaction_Inr:
  assumes "post_transaction inp s = Inr (je, s')" "core_inv s"
  shows "je = post_result inp s" "\<exists>rs s2 news. posted inp s rs s2 news s'"
proof -
  from assms(1) obtain s1 rs s2 where a:
    "insert_entry (new_entry inp s) (s\<lparr>next_uuid := Suc (next_uuid s)\<rparr>) = Inr s1"
    "resolve_lines (sort_key accountCode (in_lines inp)) s1 = Inr (rs, s2)"
    "balance_check (in_balanceCheck inp) s2 = Inr ()"
    "rfold (post_line (next_uuid s)) s2 rs = Inr s'"
    "je = (post_result inp s)\<lparr>je_lines := map fst rs\<rparr>"
    by (auto simp: post_transaction_alt rbind_Inr_iff)
  have ref: "\<forall>r. in_referenceId inp = Some r \<longrightarrow> \<not> hasReferenceId r s" and s1: "s1 = with_entry inp s"
    using a(1) by (auto simp: insert_new_entry split: option.splits if_splits)
  note l = resolve_lines_locks[OF a(2)]
  show "je = post_result inp s" using a(5) l by (simp add: post_result_def)
  have c2: "core_inv s2" using with_entry_core[OF assms(2) ref] l s1 by (simp add: only_locks_def)
  have "next_uuid s \<in> e_id ` set (journalEntries s2)"
    using l by (simp add: only_locks_def s1 with_entry_def new_entry_def)
  then obtain news where "core_inv s' \<and> same_frame s2 s'"
    "journalLines s' = journalLines s2 @ news" "list_all2 (line_matches (next_uuid s)) rs news"
    using post_lines_core[OF a(4) c2] l by blast
  moreover have "mset (map fst rs) = mset (in_lines inp)" using l by simp
  moreover have "journalLines s2 = journalLines s"
    using l by (simp add: only_locks_def s1 with_entry_def)
  ultimately have "posted inp s rs s2 news s'"
    using ref l c2 a(3) s1 by (simp add: posted_def)
  then show "\<exists>rs s2 news. posted inp s rs s2 news s'" by blast
qed

lemma post_Inr:
  assumes "post inp s = Inr (je, s')" "core_inv s"
  obtains rs s2 news where "je = post_result inp s" "check_lines (in_lines inp) = Inr ()"
    "posted inp s rs s2 news s'"
  using assms post_transaction_Inr[OF _ assms(2)] by (auto simp: post_def rbind_Inr_iff) blast

section \<open>What a post keeps and what it changes\<close>

lemma posted_entries:
  assumes "posted inp s rs s2 news s'" "core_inv s" "entries_balanced s"
    and "lines_total Debit_Side (in_lines inp) = lines_total Credit_Side (in_lines inp)"
  shows "entries_balanced s'"
  unfolding entries_balanced_def
proof
  fix i
  have n: "list_all2 (line_matches (next_uuid s)) rs news" "journalLines s' = journalLines s @ news"
    "mset (map fst rs) = mset (in_lines inp)"
    using assms(1) by (auto simp: posted_def)
  have "l_entryId ` set news \<subseteq> {next_uuid s}"
    using n(1) by (induction rs news rule: list_all2_induct) (auto simp: line_matches_def)
  then have "i \<noteq> next_uuid s \<Longrightarrow> entry_total sd i news = 0" for sd
    by (intro entry_total_other) auto
  moreover have "entry_total Debit_Side (next_uuid s) news = entry_total Credit_Side (next_uuid s) news"
    using assms(4) by (simp add: entry_total_lines[OF n(1)] lines_total_perm[OF n(3)])
  ultimately show "entry_total Debit_Side i (journalLines s') = entry_total Credit_Side i (journalLines s')"
    using assms(3) by (cases "i = next_uuid s") (auto simp: n(2) entries_balanced_def)
qed

lemma posted_chart: "posted inp s rs s2 news s' \<Longrightarrow> chart_ok s \<Longrightarrow> chart_ok s'"
  by (auto simp: posted_def only_locks_def same_frame_def chart_ok_def with_entry_def)

lemma posted_keeps_inv:
  assumes "posted inp s rs s2 news s'" "ledger_inv s"
    and "lines_total Debit_Side (in_lines inp) = lines_total Credit_Side (in_lines inp)"
  shows "ledger_inv s'"
  using assms posted_entries posted_chart by (auto simp: ledger_inv_def posted_def)

lemma post_keeps_inv [inv_intros]:
  assumes "post inp s = Inr (je, s')" "ledger_inv s"
  shows "ledger_inv s'"
proof -
  have c: "core_inv s" using assms(2) by (simp add: ledger_inv_def)
  from post_Inr[OF assms(1) c] obtain rs s2 news where
    "check_lines (in_lines inp) = Inr ()" "posted inp s rs s2 news s'" by blast
  then show ?thesis using posted_keeps_inv assms(2) by (auto simp: check_lines_Inr)
qed

lemma posted_effect:
  assumes "posted inp s rs s2 news s'" "core_inv s" "a \<in> set (accounts s')"
  shows "stored_balance (a_code a) s' =
    stored_balance (a_code a) s + lines_delta (a_normalSide a) (a_code a) (in_lines inp)"
proof -
  note p = assms(1)[unfolded posted_def]
  have acc: "accounts s2 = accounts s'" using p by (simp add: same_frame_def)
  have "core_inv (with_entry inp s)" using p assms(2) with_entry_core by blast
  then have "stored_balance (a_code a) s = stored_balance (a_code a) s2"
    using p by (simp add: only_locks_def)
  also have "\<dots> = line_sum a (journalLines s)"
    using stored_balance_sum[of s2 a] p assms(3) acc by (simp add: only_locks_def with_entry_def)
  finally have old: "stored_balance (a_code a) s = line_sum a (journalLines s)" .
  have "line_sum a news = lines_delta (a_normalSide a) (a_code a) (map fst rs)"
    using p assms(3) acc by (intro line_sum_lines[of "next_uuid s" rs news s2]) (auto simp: core_inv_def)
  then show ?thesis
    using stored_balance_sum[of s' a] p assms(3) old lines_delta_perm[of "map fst rs" "in_lines inp"]
    by simp
qed

lemma post_effect:
  assumes "post inp s = Inr (je, s')" "core_inv s" "a \<in> set (accounts s')"
  shows "stored_balance (a_code a) s' =
    stored_balance (a_code a) s + lines_delta (a_normalSide a) (a_code a) (in_lines inp)"
  using post_Inr[OF assms(1,2)] posted_effect[OF _ assms(2,3)] by metis

end
