(* ===== verification/LedgerOps.thy ===== *)
theory LedgerOps
  imports LedgerInv
begin

text \<open>
  What the ledger's operations do: \<open>post\<close> succeeds exactly on the inputs it should accept and
  moves every account by the signed sum of its lines; \<open>credit\<close>, \<open>debit\<close> and \<open>debitCapped\<close> are
  stated as effects on the balances. Reachable states are those a sequence of operations
  leads to from the seeded chart of accounts; the books balance in all of them.
\<close>

section \<open>Normal sides\<close>

definition code_side :: "string \<Rightarrow> side" where
  "code_side c = (if is_tenant_code c then Credit_Side
     else case map_of SYSTEM_ACCOUNTS c of Some (n, t, ns) \<Rightarrow> ns | None \<Rightarrow> Debit_Side)"

lemma distinct_system: "distinct (map fst SYSTEM_ACCOUNTS)"
  by (simp add: SYSTEM_ACCOUNTS_def)

lemma account_side:
  assumes "core_inv s" "a \<in> set (accounts s)"
  shows "a_normalSide a = code_side (a_code a)"
proof -
  have row: "account_row_ok a" using assms by (simp add: core_inv_def)
  show ?thesis
  proof (cases "is_tenant_code (a_code a)")
    case True
    then show ?thesis using row by (simp add: account_row_ok_def code_side_def)
  next
    case False
    then have "(a_code a, a_name a, a_type a, a_normalSide a) \<in> set SYSTEM_ACCOUNTS"
      using row by (simp add: account_row_ok_def)
    then have "map_of SYSTEM_ACCOUNTS (a_code a) = Some (a_name a, a_type a, a_normalSide a)"
      using distinct_system by simp
    then show ?thesis using False by (simp add: code_side_def)
  qed
qed

lemma lines_delta_absent: "c \<notin> accountCode ` set ls \<Longrightarrow> lines_delta ns c ls = 0"
  by (induction ls) (auto simp: lines_delta_def)

lemma posted_effect_code:
  assumes "posted inp s rs s2 news s'" "core_inv s"
  shows "stored_balance c s' = stored_balance c s + lines_delta (code_side c) c (in_lines inp)"
proof (cases "find_account c s'")
  case (Some a)
  have "core_inv s'" using assms(1) by (simp add: posted_def)
  then show ?thesis
    using posted_effect[OF assms, of a] find_account_SomeD[OF Some] account_side[of s' a] by simp
next
  case None
  note p = assms(1)[unfolded posted_def]
  have acc: "accounts s' = accounts s2" using p by (simp add: same_frame_def)
  have "c \<notin> accountCode ` set (map fst rs)"
  proof
    assume "c \<in> accountCode ` set (map fst rs)"
    then obtain l i where "(l, i) \<in> set rs" "accountCode l = c" by auto
    then have "locked c i s2" using p by auto
    then show False using None acc by (auto simp: find_account_None locked_def)
  qed
  moreover have "set (map fst rs) = set (in_lines inp)" using p by (metis set_mset_mset)
  ultimately have "lines_delta ns c (in_lines inp) = 0" for ns
    by (intro lines_delta_absent) simp
  moreover have "find_account c s = None"
    using None p acc by (auto simp: find_account_None only_locks_def with_entry_def)
  ultimately show ?thesis using None by (simp add: stored_balance_def)
qed

lemma post_effect_code:
  assumes "post inp s = Inr (je, s')" "core_inv s"
  shows "stored_balance c s' = stored_balance c s + lines_delta (code_side c) c (in_lines inp)"
  using post_Inr[OF assms] posted_effect_code[OF _ assms(2)] by metis

section \<open>When a post succeeds\<close>

lemma lock_account_ok:
  assumes "is_tenant_code c \<or> find_account c s \<noteq> None"
  shows "\<exists>i s'. lock_account c s = Inr (i, s')"
proof (cases "is_tenant_code c")
  case True
  have "find_account (tenant_code t) (insert_account (tenant_code t) n ty ns tn s) \<noteq> None" for t n ty ns tn
    by (auto simp: find_account_None insert_account_def Let_def)
  then show ?thesis using True
    by (force simp: lock_account_def ensureTenantAccountLocked_def resolveAccountLocked_def
        split: option.splits)
next
  case False
  then show ?thesis using assms by (auto simp: lock_account_def resolveAccountLocked_def)
qed

lemma find_account_locks: "only_locks s s' \<Longrightarrow> find_account c s \<noteq> None \<Longrightarrow> find_account c s' \<noteq> None"
  by (auto simp: find_account_None only_locks_def)

lemma resolve_lines_ok:
  assumes "\<forall>l \<in> set ls. is_tenant_code (accountCode l) \<or> find_account (accountCode l) s \<noteq> None"
  shows "\<exists>rs s'. resolve_lines ls s = Inr (rs, s')"
  using assms
proof (induction ls arbitrary: s)
  case Nil
  then show ?case by simp
next
  case (Cons l ls)
  obtain i s1 where l: "lock_account (accountCode l) s = Inr (i, s1)"
    using lock_account_ok[of "accountCode l" s] Cons.prems by auto
  have "only_locks s s1" using lock_account_locks[OF l] by simp
  then have "\<forall>l \<in> set ls. is_tenant_code (accountCode l) \<or> find_account (accountCode l) s1 \<noteq> None"
    using Cons.prems find_account_locks by (meson list.set_intros(2))
  then obtain rs s2 where "resolve_lines ls s1 = Inr (rs, s2)" using Cons.IH by blast
  then show ?case using l by simp
qed

definition new_balance :: "journal_line \<Rightarrow> db \<Rightarrow> int" where
  "new_balance l s = stored_balance (accountCode l) s
     + signed (code_side (accountCode l)) (side l) (toRaw (amount l))"

lemma post_line_ok:
  assumes "core_inv s" "locked (accountCode l) i s"
    and "pg_bigint (toRaw (amount l))" "pg_bigint (new_balance l s)"
  shows "\<exists>s'. post_line eid s (l, i) = Inr s'
    \<and> (\<forall>c. c \<noteq> accountCode l \<longrightarrow> stored_balance c s' = stored_balance c s)"
proof -
  obtain a b where a: "a \<in> set (accounts s)" "a_code a = accountCode l" "a_id a = i"
    "accountBalances s i = Some b"
    using assms(2) by (auto simp: locked_def)
  have k: "keys_ok s" using assms(1) by (simp add: core_inv_def)
  have f: "find_account_id i s = Some a" "find_account (accountCode l) s = Some a"
    using find_account_id_mem[OF k a(1)] find_account_mem[OF k a(1)] a by simp_all
  have nb: "new_balance l s = b + signed (a_normalSide a) (side l) (toRaw (amount l))"
    using a f account_side[OF assms(1) a(1)] by (simp add: new_balance_def stored_balance_def)
  let ?s' = "s\<lparr>journalLines := journalLines s @ [\<lparr>l_id = next_uuid s, l_entryId = eid,
      l_accountId = i, l_amount = toRaw (amount l), l_side = side l\<rparr>],
      next_uuid := Suc (next_uuid s), accountBalances := (accountBalances s)(i \<mapsto> new_balance l s)\<rparr>"
  have "post_line eid s (l, i) = Inr ?s'"
    using a(4) f nb assms(3,4)
    by (simp add: post_line_def insert_line_row_def add_to_balance_def find_account_id_def signed_def)
  moreover have "stored_balance c ?s' = stored_balance c s" if c: "c \<noteq> accountCode l" for c
  proof (cases "find_account c s")
    case None
    then show ?thesis by (simp add: stored_balance_def find_account_def)
  next
    case (Some a')
    then have "a_id a' \<noteq> i"
      using find_account_SomeD[OF Some] c a account_same_id[OF k, of a' a] by auto
    then show ?thesis using Some by (simp add: stored_balance_def find_account_def)
  qed
  ultimately show ?thesis by blast
qed

lemma post_lines_ok:
  assumes "core_inv s" "\<forall>(l, i) \<in> set rs. locked (accountCode l) i s
      \<and> pg_bigint (toRaw (amount l)) \<and> pg_bigint (new_balance l s)"
    and "distinct (map accountCode (map fst rs))" "eid \<in> e_id ` set (journalEntries s)"
  shows "\<exists>s'. rfold (post_line eid) s rs = Inr s'"
  using assms
proof (induction rs arbitrary: s)
  case Nil
  then show ?case by simp
next
  case (Cons r rs)
  obtain l i where r: "r = (l, i)" by fastforce
  from Cons.prems(2) r have l: "locked (accountCode l) i s" "pg_bigint (toRaw (amount l))"
    "pg_bigint (new_balance l s)" by auto
  obtain s1 where s1: "post_line eid s (l, i) = Inr s1"
    "\<forall>c. c \<noteq> accountCode l \<longrightarrow> stored_balance c s1 = stored_balance c s"
    using post_line_ok[OF Cons.prems(1) l] by blast
  note one = post_line_core[OF s1(1) Cons.prems(1) l(1) Cons.prems(4)]
  have "\<forall>(l, i) \<in> set rs. locked (accountCode l) i s1
      \<and> pg_bigint (toRaw (amount l)) \<and> pg_bigint (new_balance l s1)"
  proof clarify
    fix l' i' assume m: "(l', i') \<in> set rs"
    then have "accountCode l' \<noteq> accountCode l" using Cons.prems(3) r by force
    then have "new_balance l' s1 = new_balance l' s" using s1(2) by (simp add: new_balance_def)
    then show "locked (accountCode l') i' s1 \<and> pg_bigint (toRaw (amount l')) \<and> pg_bigint (new_balance l' s1)"
      using Cons.prems(2) m locked_frame one by auto
  qed
  moreover have "eid \<in> e_id ` set (journalEntries s1)"
    using one Cons.prems(4) by (simp add: same_frame_def)
  ultimately obtain s' where "rfold (post_line eid) s1 rs = Inr s'"
    using Cons.IH[of s1] one Cons.prems(3) by auto
  then show ?case using s1(1) r by simp
qed

text \<open>Accepted inputs: positive balanced lines on distinct known accounts, all within range.\<close>

definition acceptable :: "post_input \<Rightarrow> db \<Rightarrow> bool" where
  "acceptable inp s \<longleftrightarrow>
     check_lines (in_lines inp) = Inr ()
     \<and> (\<forall>r. in_referenceId inp = Some r \<longrightarrow> \<not> hasReferenceId r s)
     \<and> (\<forall>l \<in> set (in_lines inp).
           (is_tenant_code (accountCode l) \<or> find_account (accountCode l) s \<noteq> None)
           \<and> pg_bigint (toRaw (amount l)) \<and> pg_bigint (new_balance l s))
     \<and> balance_check (in_balanceCheck inp) s = Inr ()"

lemma balance_check_cong:
  "(\<forall>c. stored_balance c s' = stored_balance c s) \<Longrightarrow> balance_check chk s' = balance_check chk s"
  by (simp add: balance_check_def split: option.splits prod.splits)

lemma stored_balance_locks:
  assumes "only_locks (with_entry inp s) s2" "core_inv (with_entry inp s)"
  shows "stored_balance c s2 = stored_balance c s"
  using assms by (simp add: only_locks_def)

lemma post_succeeds:
  assumes "core_inv s" "acceptable inp s" "distinct (map accountCode (in_lines inp))"
  shows "\<exists>s'. post inp s = Inr (post_result inp s, s')"
proof -
  note acc = assms(2)[unfolded acceptable_def]
  let ?s1 = "with_entry inp s" and ?ls = "sort_key accountCode (in_lines inp)"
  have c1: "core_inv ?s1" using with_entry_core[OF assms(1)] acc by blast
  have ins: "insert_entry (new_entry inp s) (s\<lparr>next_uuid := Suc (next_uuid s)\<rparr>) = Inr ?s1"
    using acc by (auto simp: insert_new_entry split: option.splits)
  have "find_account c ?s1 = find_account c s" for c
    by (simp add: find_account_def with_entry_def)
  then obtain rs s2 where rs: "resolve_lines ?ls ?s1 = Inr (rs, s2)"
    using resolve_lines_ok[of ?ls ?s1] acc by auto
  note l = resolve_lines_locks[OF rs]
  have c2: "core_inv s2" using l c1 by (simp add: only_locks_def)
  have sb: "stored_balance c s2 = stored_balance c s" for c
    using stored_balance_locks[OF _ c1] l by blast
  have chk: "balance_check (in_balanceCheck inp) s2 = Inr ()"
    using acc balance_check_cong[of s2 s] sb by simp
  have "distinct (map accountCode (map fst rs))"
    using l assms(3) by (metis distinct_sort mset_map mset_sort distinct_count_atmost_1 mset_eq_imp_distinct_iff)
  moreover have "\<forall>(x, i) \<in> set rs. locked (accountCode x) i s2
      \<and> pg_bigint (toRaw (amount x)) \<and> pg_bigint (new_balance x s2)"
  proof clarify
    fix x i assume m: "(x, i) \<in> set rs"
    then have "x \<in> set (map fst rs)" by force
    then have "x \<in> set (in_lines inp)" using l by simp
    then show "locked (accountCode x) i s2 \<and> pg_bigint (toRaw (amount x)) \<and> pg_bigint (new_balance x s2)"
      using acc l m sb by (auto simp: new_balance_def)
  qed
  moreover have "next_uuid s \<in> e_id ` set (journalEntries s2)"
    using l by (simp add: only_locks_def with_entry_def new_entry_def)
  ultimately obtain s' where "rfold (post_line (next_uuid s)) s2 rs = Inr s'"
    using post_lines_ok[OF c2] by blast
  then have "post_transaction inp s = Inr ((post_result inp s)\<lparr>je_lines := map fst rs\<rparr>, s')"
    using ins rs chk by (simp add: post_transaction_alt)
  moreover have "(post_result inp s)\<lparr>je_lines := map fst rs\<rparr> = post_result inp s"
    using l by (simp add: post_result_def)
  ultimately show ?thesis using acc by (simp add: post_def)
qed

section \<open>Credit\<close>

lemma credit_account_side [simp]:
  "code_side (CREDIT_TYPE_ACCOUNT ty) = Debit_Side"
  "\<not> is_tenant_code (CREDIT_TYPE_ACCOUNT ty)"
  "CREDIT_TYPE_ACCOUNT ty \<noteq> tenant_code t" "tenant_code t \<noteq> CREDIT_TYPE_ACCOUNT ty"
  by (cases ty; simp add: code_side_def is_tenant_code_def SYSTEM_ACCOUNTS_def tenant_code_def)+

lemma debit_account_code [simp]:
  "\<not> is_tenant_code (DEBIT_TYPE_ACCOUNT ty)"
  "DEBIT_TYPE_ACCOUNT ty \<noteq> tenant_code t" "tenant_code t \<noteq> DEBIT_TYPE_ACCOUNT ty"
  by (cases ty; simp add: is_tenant_code_def tenant_code_def)+

lemma tenant_side [simp]: "code_side (tenant_code t) = Credit_Side"
  by (simp add: code_side_def)

lemma type_accounts_exist:
  assumes "chart_ok s"
  shows "find_account (CREDIT_TYPE_ACCOUNT cty) s \<noteq> None" "find_account (DEBIT_TYPE_ACCOUNT dty) s \<noteq> None"
proof -
  have "CREDIT_TYPE_ACCOUNT cty \<in> set (map fst SYSTEM_ACCOUNTS)"
    by (cases cty) (simp_all add: SYSTEM_ACCOUNTS_def)
  moreover have "DEBIT_TYPE_ACCOUNT dty \<in> set (map fst SYSTEM_ACCOUNTS)"
    by (cases dty) (simp_all add: SYSTEM_ACCOUNTS_def)
  ultimately show "find_account (CREDIT_TYPE_ACCOUNT cty) s \<noteq> None"
    "find_account (DEBIT_TYPE_ACCOUNT dty) s \<noteq> None"
    using assms unfolding chart_ok_def find_account_None by blast+
qed

lemma credit_lines_delta:
  "lines_delta (code_side c) c (in_lines (credit_input t amt ty opts)) =
     (if c = tenant_code t \<or> c = CREDIT_TYPE_ACCOUNT ty then toRaw amt else 0)"
  by (auto simp: lines_delta_def credit_input_def signed_def)

definition debit_effect :: "string \<Rightarrow> debit_type \<Rightarrow> int \<Rightarrow> string \<Rightarrow> int" where
  "debit_effect t ty raw c =
     (if c = tenant_code t then - raw
      else if c = DEBIT_TYPE_ACCOUNT ty then signed (code_side c) Credit_Side raw else 0)"

lemma debit_lines_delta:
  "lines_delta (code_side c) c (in_lines (debit_input t amt ty opts)) = debit_effect t ty (toRaw amt) c"
  by (auto simp: lines_delta_def debit_input_def signed_def debit_effect_def)

lemma credit_effect:
  assumes "credit t amt ty opts s = Inr (je, s')" "core_inv s"
  shows "stored_balance c s' = stored_balance c s
    + (if c = tenant_code t \<or> c = CREDIT_TYPE_ACCOUNT ty then toRaw amt else 0)"
  using assms post_effect_code[of "credit_input t amt ty opts" s je s' c]
  by (auto simp: credit_def credit_lines_delta split: if_splits)

lemma credit_keeps_inv [inv_intros]:
  "credit t amt ty opts s = Inr (je, s') \<Longrightarrow> ledger_inv s \<Longrightarrow> ledger_inv s'"
  using post_keeps_inv by (auto simp: credit_def split: if_splits)

lemma debit_keeps_inv [inv_intros]:
  "debit t amt ty opts s = Inr (je, s') \<Longrightarrow> ledger_inv s \<Longrightarrow> ledger_inv s'"
  using post_keeps_inv by (auto simp: debit_def split: if_splits)

lemma credit_succeeds:
  assumes "ledger_inv s" "0 < toRaw amt" "pg_bigint (toRaw amt)"
    and "\<forall>r. c_referenceId opts = Some r \<longrightarrow> \<not> hasReferenceId r s"
    and "pg_bigint (stored_balance (tenant_code t) s + toRaw amt)"
    and "pg_bigint (stored_balance (CREDIT_TYPE_ACCOUNT ty) s + toRaw amt)"
  shows "\<exists>s'. credit t amt ty opts s = Inr (post_result (credit_input t amt ty opts) s, s')"
proof -
  let ?inp = "credit_input t amt ty opts"
  have c: "core_inv s" "chart_ok s" using assms(1) by (auto simp: ledger_inv_def)
  have "check_lines (in_lines ?inp) = Inr ()"
    using assms(2) by (simp add: check_lines_Inr credit_input_def lines_total_def)
  moreover have "in_referenceId ?inp = c_referenceId opts" "in_balanceCheck ?inp = None"
    by (simp_all add: credit_input_def)
  moreover have "\<forall>l \<in> set (in_lines ?inp).
      (is_tenant_code (accountCode l) \<or> find_account (accountCode l) s \<noteq> None)
      \<and> pg_bigint (toRaw (amount l)) \<and> pg_bigint (new_balance l s)"
    using assms(3,5,6) type_accounts_exist(1)[OF c(2), of ty]
    by (auto simp: credit_input_def new_balance_def signed_def)
  ultimately have "acceptable ?inp s"
    using assms(4) by (simp add: acceptable_def balance_check_def)
  moreover have "distinct (map accountCode (in_lines ?inp))" by (simp add: credit_input_def)
  ultimately show ?thesis
    using post_succeeds[OF c(1)] assms(2) by (simp add: credit_def credit_cmp)
qed

section \<open>Debit\<close>

lemma debit_effect_eq:
  assumes "debit t amt ty opts s = Inr (je, s')" "core_inv s"
  shows "stored_balance c s' = stored_balance c s + debit_effect t ty (toRaw amt) c"
  using assms post_effect_code[of "debit_input t amt ty opts" s je s' c]
  by (simp add: debit_def debit_lines_delta split: if_splits)

lemma read_credit_eq:
  "- (2 ^ 53) \<le> b \<Longrightarrow> read_credit b =
     (if b \<le> max_safe_integer then Inr (Credit b) else Inl (Credit_Error RangeError))"
  by (simp add: read_credit_def fromRaw_bigint)

lemma check_two_lines:
  assumes "0 < toRaw a" "s1 \<noteq> s2"
  shows "check_lines [\<lparr>accountCode = c, amount = a, side = s1\<rparr>, \<lparr>accountCode = d, amount = a, side = s2\<rparr>]
    = Inr ()"
  using assms by (cases s1; cases s2) (auto simp: check_lines_Inr lines_total_def)

text \<open>The balance check is made on the state before the entry: locking changes no balance.\<close>

lemma post_balance_refused:
  assumes "core_inv s" "check_lines (in_lines inp) = Inr ()"
    and "\<forall>r. in_referenceId inp = Some r \<longrightarrow> \<not> hasReferenceId r s"
    and "\<forall>l \<in> set (in_lines inp). is_tenant_code (accountCode l) \<or> find_account (accountCode l) s \<noteq> None"
    and "balance_check (in_balanceCheck inp) s = Inl e"
  shows "post inp s = Inl e"
proof -
  let ?s1 = "with_entry inp s" and ?ls = "sort_key accountCode (in_lines inp)"
  have c1: "core_inv ?s1" using with_entry_core[OF assms(1,3)] .
  have ins: "insert_entry (new_entry inp s) (s\<lparr>next_uuid := Suc (next_uuid s)\<rparr>) = Inr ?s1"
    using assms(3) by (auto simp: insert_new_entry split: option.splits)
  have "find_account c ?s1 = find_account c s" for c by (simp add: find_account_def with_entry_def)
  then obtain rs s2 where rs: "resolve_lines ?ls ?s1 = Inr (rs, s2)"
    using resolve_lines_ok[of ?ls ?s1] assms(4) by auto
  have "stored_balance c s2 = stored_balance c s" for c
    using stored_balance_locks[OF _ c1] resolve_lines_locks[OF rs] by blast
  then have "balance_check (in_balanceCheck inp) s2 = Inl e"
    using balance_check_cong[of s2 s] assms(5) by simp
  then show ?thesis using ins rs assms(2) by (simp add: post_def post_transaction_alt)
qed

lemma debit_lines_known:
  assumes "chart_ok s"
  shows "\<forall>l \<in> set (in_lines (debit_input t amt ty opts)).
    is_tenant_code (accountCode l) \<or> find_account (accountCode l) s \<noteq> None"
  using type_accounts_exist(2)[OF assms, of ty] by (simp add: debit_input_def)

lemma debit_refused:
  assumes "ledger_inv s" "0 < toRaw amt" "\<not> d_allowNegative opts"
    and "\<forall>r. d_referenceId opts = Some r \<longrightarrow> \<not> hasReferenceId r s"
    and "- (2 ^ 53) \<le> stored_balance (tenant_code t) s" "stored_balance (tenant_code t) s < toRaw amt"
    and "stored_balance (tenant_code t) s \<le> max_safe_integer"
  shows "debit t amt ty opts s =
    Inl (Insufficient_Balance (Credit (stored_balance (tenant_code t) s)) amt)"
proof -
  let ?inp = "debit_input t amt ty opts"
  have c: "core_inv s" "chart_ok s" using assms(1) by (auto simp: ledger_inv_def)
  have "balance_check (in_balanceCheck ?inp) s =
      Inl (Insufficient_Balance (Credit (stored_balance (tenant_code t) s)) amt)"
    using assms(3,5,6,7) by (simp add: debit_input_def balance_check_def read_credit_eq credit_cmp)
  moreover have "check_lines (in_lines ?inp) = Inr ()"
    using assms(2) by (simp add: debit_input_def check_two_lines)
  moreover have "\<forall>r. in_referenceId ?inp = Some r \<longrightarrow> \<not> hasReferenceId r s"
    using assms(4) by (simp add: debit_input_def)
  ultimately have "post ?inp s =
      Inl (Insufficient_Balance (Credit (stored_balance (tenant_code t) s)) amt)"
    using post_balance_refused[OF c(1)] debit_lines_known[OF c(2)] by blast
  then show ?thesis using assms(2) by (simp add: debit_def credit_cmp)
qed

lemma debit_succeeds:
  assumes "ledger_inv s" "0 < toRaw amt" "pg_bigint (toRaw amt)"
    and "\<forall>r. d_referenceId opts = Some r \<longrightarrow> \<not> hasReferenceId r s"
    and "d_allowNegative opts \<or> toRaw amt \<le> stored_balance (tenant_code t) s
       \<and> stored_balance (tenant_code t) s \<le> max_safe_integer"
    and "pg_bigint (stored_balance (tenant_code t) s - toRaw amt)"
    and "pg_bigint (stored_balance (DEBIT_TYPE_ACCOUNT ty) s
           + debit_effect t ty (toRaw amt) (DEBIT_TYPE_ACCOUNT ty))"
  shows "\<exists>s'. debit t amt ty opts s = Inr (post_result (debit_input t amt ty opts) s, s')"
proof -
  let ?inp = "debit_input t amt ty opts"
  have c: "core_inv s" "chart_ok s" using assms(1) by (auto simp: ledger_inv_def)
  have "check_lines (in_lines ?inp) = Inr ()"
    using assms(2) by (simp add: debit_input_def check_two_lines)
  moreover have "in_referenceId ?inp = d_referenceId opts" by (simp add: debit_input_def)
  moreover have "balance_check (in_balanceCheck ?inp) s = Inr ()"
    using assms(2,5) by (auto simp: debit_input_def balance_check_def read_credit_eq credit_cmp)
  moreover have "\<forall>l \<in> set (in_lines ?inp). pg_bigint (toRaw (amount l)) \<and> pg_bigint (new_balance l s)"
    using assms(3,6,7) by (auto simp: debit_input_def new_balance_def signed_def debit_effect_def)
  ultimately have "acceptable ?inp s"
    using assms(4) debit_lines_known[OF c(2), of t amt ty opts] by (auto simp: acceptable_def)
  moreover have "distinct (map accountCode (in_lines ?inp))" by (simp add: debit_input_def)
  ultimately show ?thesis
    using post_succeeds[OF c(1)] assms(2) by (simp add: debit_def credit_cmp)
qed

end
