(* ===== verification/LedgerReach.thy ===== *)
theory LedgerReach
  imports LedgerOps
begin

text \<open>
  \<open>debitCapped\<close>, the reachable states of the ledger and what holds in all of them: the
  trial balance, the accounting equation, idempotent references and balances that stay
  non-negative under any interleaving of checked operations.
\<close>

section \<open>debitCapped\<close>

lemma lock_codes_locks:
  assumes "rfold lock_step (m0, s0) cs = Inr (m, s')"
    and "\<forall>c i. m0 c = Some i \<longrightarrow> locked c i s0"
  shows "only_locks s0 s' \<and> (\<forall>c i. m c = Some i \<longrightarrow> locked c i s') \<and> dom m = dom m0 \<union> set cs"
  using assms
proof (induction cs arbitrary: m0 s0)
  case Nil
  then show ?case by (simp add: only_locks_refl)
next
  case (Cons c cs)
  from Cons.prems(1) obtain i s1 where a: "lock_account c s0 = Inr (i, s1)"
    "rfold lock_step (m0(c \<mapsto> i), s1) cs = Inr (m, s')"
    by (auto simp: rbind_Inr_iff simp del: fun_upd_apply)
  note l = lock_account_locks[OF a(1)]
  have "\<forall>d j. (m0(c \<mapsto> i)) d = Some j \<longrightarrow> locked d j s1"
    using Cons.prems(2) l locked_mono by auto
  from Cons.IH[OF a(2) this] show ?case using l only_locks_trans by auto
qed

lemma lock_codes_Inr:
  assumes "lock_codes cs s = Inr (m, s')"
  shows "only_locks s s'" "m c = Some i \<Longrightarrow> locked c i s'" "dom m = set cs"
  using lock_codes_locks[OF assms[unfolded lock_codes_def]] by auto

lemma lock_codes_ok:
  assumes "\<forall>c \<in> set cs. is_tenant_code c \<or> find_account c s \<noteq> None"
  shows "\<exists>m s'. lock_codes cs s = Inr (m, s')"
proof -
  have "\<exists>r. rfold lock_step (m0, s) cs = Inr r" for m0
    using assms
  proof (induction cs arbitrary: m0 s)
    case Nil
    then show ?case by simp
  next
    case (Cons c cs)
    obtain i s1 where l: "lock_account c s = Inr (i, s1)"
      using lock_account_ok[of c s] Cons.prems by auto
    have "only_locks s s1" using lock_account_locks[OF l] by simp
    then have "\<forall>c \<in> set cs. is_tenant_code c \<or> find_account c s1 \<noteq> None"
      using Cons.prems find_account_locks by (meson list.set_intros(2))
    then show ?case using Cons.IH l by simp
  qed
  then show ?thesis by (auto simp: lock_codes_def)
qed

definition capped_lines :: "string \<Rightarrow> credit \<Rightarrow> debit_type \<Rightarrow> uuid \<Rightarrow> uuid \<Rightarrow> (journal_line \<times> uuid) list" where
  "capped_lines t d ty i j =
     [(\<lparr>accountCode = tenant_code t, amount = d, side = Debit_Side\<rparr>, i),
      (\<lparr>accountCode = DEBIT_TYPE_ACCOUNT ty, amount = d, side = Credit_Side\<rparr>, j)]"

definition free_opts :: "debit_opts \<Rightarrow> debit_opts" where
  "free_opts opts = opts\<lparr>d_allowNegative := True\<rparr>"

lemma capped_new_entry:
  "\<lparr>e_id = next_uuid s, e_postedAt = clock s, e_entryType = debit_type_name ty,
     e_description = d_description opts, e_referenceId = d_referenceId opts, e_tenantId = t,
     e_metadata = Some [(''attributedUserId'', d_attributedUserId opts)],
     e_createdBy = Some (case d_createdBy opts of Some u \<Rightarrow> u | None \<Rightarrow> ''system'')\<rparr>
   = new_entry (debit_input t d ty (free_opts opts)) s"
  by (simp add: new_entry_def debit_input_def free_opts_def)

text \<open>
  The header, the two lines and the two balances are those of a post of the same two lines:
  inserting both lines before updating the balances makes no difference.
\<close>

lemma capped_entry_lines:
  assumes "core_inv s" "locked (tenant_code t) i s" "locked (DEBIT_TYPE_ACCOUNT ty) j s"
    and "capped_entry t d ty opts i j s = Inr (je, s')"
  shows "\<forall>r. d_referenceId opts = Some r \<longrightarrow> \<not> hasReferenceId r s"
    and "rfold (post_line (next_uuid s)) (with_entry (debit_input t d ty (free_opts opts)) s)
      (capped_lines t d ty i j) = Inr s'"
proof -
  let ?inp = "debit_input t d ty (free_opts opts)"
  let ?w = "with_entry ?inp s"
  obtain s1 where ins: "insert_entry (new_entry ?inp s) (s\<lparr>next_uuid := Suc (next_uuid s)\<rparr>) = Inr s1"
    using assms(4) by (auto simp: capped_entry_def Let_def rbind_Inr_iff capped_new_entry[where d = d])
  show ref: "\<forall>r. d_referenceId opts = Some r \<longrightarrow> \<not> hasReferenceId r s"
    using ins by (auto simp: insert_new_entry debit_input_def free_opts_def split: option.splits if_splits)
  have s1: "s1 = ?w" using ins by (auto simp: insert_new_entry split: option.splits if_splits)
  obtain a b where a: "a \<in> set (accounts s)" "a_code a = tenant_code t" "a_id a = i"
    "accountBalances s i = Some b" using assms(2) by (auto simp: locked_def)
  obtain a' b' where a': "a' \<in> set (accounts s)" "a_code a' = DEBIT_TYPE_ACCOUNT ty" "a_id a' = j"
    "accountBalances s j = Some b'" using assms(3) by (auto simp: locked_def)
  have k: "keys_ok s" using assms(1) by (simp add: core_inv_def)
  have f: "find (\<lambda>a. a_id a = i) (accounts s) = Some a" "find (\<lambda>a. a_id a = j) (accounts s) = Some a'"
    using find_account_id_mem[OF k] a a' by (auto simp: find_account_id_def)
  have ij: "i \<noteq> j" using a a' account_same_id[OF k a(1) a'(1)] by auto
  have sd: "a_normalSide a = Credit_Side" using account_side[OF assms(1) a(1)] a(2) by simp
  show "rfold (post_line (next_uuid s)) ?w (capped_lines t d ty i j) = Inr s'"
    using assms(4) ins a(4) a'(4) f ij sd
    by (auto simp: capped_entry_def Let_def capped_new_entry[where d = d] s1 capped_lines_def
         post_line_def insert_line_row_def add_to_balance_def find_account_id_def with_entry_def
         rbind_Inr_iff fun_upd_twist split: if_splits)
qed

lemma capped_posted:
  assumes "core_inv s" "locked (tenant_code t) i s" "locked (DEBIT_TYPE_ACCOUNT ty) j s"
    and "capped_entry t d ty opts i j s = Inr (je, s')"
  shows "\<exists>rs s2 news. posted (debit_input t d ty (free_opts opts)) s rs s2 news s'"
proof -
  let ?inp = "debit_input t d ty (free_opts opts)"
  let ?w = "with_entry ?inp s"
  note c = capped_entry_lines[OF assms]
  have ref: "\<forall>r. in_referenceId ?inp = Some r \<longrightarrow> \<not> hasReferenceId r s"
    using c(1) by (simp add: debit_input_def free_opts_def)
  have cw: "core_inv ?w" using with_entry_core[OF assms(1) ref] .
  have lw: "\<forall>(l, i) \<in> set (capped_lines t d ty i j). locked (accountCode l) i ?w"
    using assms(2,3) by (simp add: capped_lines_def locked_def with_entry_def)
  have "next_uuid s \<in> e_id ` set (journalEntries ?w)" by (simp add: with_entry_def new_entry_def)
  from post_lines_core[OF c(2) cw lw this] obtain news where n: "core_inv s'" "same_frame ?w s'"
    "journalLines s' = journalLines ?w @ news"
    "list_all2 (line_matches (next_uuid s)) (capped_lines t d ty i j) news" by blast
  have "posted ?inp s (capped_lines t d ty i j) ?w news s'"
    using n ref cw lw
    by (simp add: posted_def only_locks_refl capped_lines_def debit_input_def free_opts_def
          balance_check_def with_entry_def)
  then show ?thesis by blast
qed

definition capped_amount :: "credit \<Rightarrow> int \<Rightarrow> int" where
  "capped_amount maxAmount bal = (if bal < toRaw maxAmount then bal else toRaw maxAmount)"

lemma debitCapped_Inr:
  assumes "debitCapped t m ty opts s = Inr (r, s')" "core_inv s"
  shows "\<exists>s1 cur. only_locks s s1 \<and> core_inv s1 \<and> read_credit (stored_balance (tenant_code t) s) = Inr cur \<and>
    (r = None \<and> isZero cur \<and> s' = s1 \<or>
     (\<exists>je rs s2 news. r = Some je \<and> \<not> isZero cur \<and>
       posted (debit_input t (if lessThan cur m then cur else m) ty (free_opts opts)) s1 rs s2 news s'))"
proof -
  from assms(1) obtain ids s1 where lk:
    "lock_codes (sort [tenant_code t, DEBIT_TYPE_ACCOUNT ty]) s = Inr (ids, s1)"
    by (auto simp only: debitCapped_def rbind_Inr_iff split: prod.splits)
  have "tenant_code t \<in> dom ids" "DEBIT_TYPE_ACCOUNT ty \<in> dom ids"
    using lock_codes_Inr(3)[OF lk] by simp_all
  then obtain i j where ij: "ids (tenant_code t) = Some i" "ids (DEBIT_TYPE_ACCOUNT ty) = Some j"
    by blast
  note body = assms(1)[unfolded debitCapped_def lk rbind.simps prod.case ij option.case]
  obtain cur where a: "read_credit (stored_balance (tenant_code t) s1) = Inr cur"
    "isZero cur \<and> r = None \<and> s' = s1 \<or> \<not> isZero cur \<and> (\<exists>je. r = Some je \<and>
       capped_entry t (if lessThan cur m then cur else m) ty opts i j s1 = Inr (je, s'))"
    using body by (auto simp: rbind_Inr_iff simp del: if_split split: if_split_asm)
  have l: "only_locks s s1" "locked (tenant_code t) i s1" "locked (DEBIT_TYPE_ACCOUNT ty) j s1"
    using lock_codes_Inr[OF lk] ij by blast+
  have c1: "core_inv s1" and sb: "stored_balance (tenant_code t) s1 = stored_balance (tenant_code t) s"
    using l(1) assms(2) by (auto simp: only_locks_def)
  show ?thesis
    using a l c1 capped_posted[OF c1 l(2,3)] unfolding sb by metis
qed

lemma only_locks_inv: "only_locks s s' \<Longrightarrow> ledger_inv s \<Longrightarrow> ledger_inv s'"
  by (auto simp: only_locks_def ledger_inv_def entries_balanced_def)

lemma debit_input_totals:
  "lines_total Debit_Side (in_lines (debit_input t d ty opts))
   = lines_total Credit_Side (in_lines (debit_input t d ty opts))"
  by (simp add: lines_total_def debit_input_def)

lemma debitCapped_keeps_inv [inv_intros]:
  assumes "debitCapped t m ty opts s = Inr (r, s')" "ledger_inv s"
  shows "ledger_inv s'"
proof -
  have "core_inv s" using assms(2) by (simp add: ledger_inv_def)
  from debitCapped_Inr[OF assms(1) this] show ?thesis
    using posted_keeps_inv[OF _ _ debit_input_totals] only_locks_inv[OF _ assms(2)] by metis
qed

lemma posted_debit_effect:
  assumes "posted (debit_input t d ty opts) s1 rs s2 news s'" "core_inv s1"
  shows "stored_balance c s' = stored_balance c s1 + debit_effect t ty (toRaw d) c"
  using posted_effect_code[OF assms, of c] by (simp add: debit_lines_delta)

lemma debitCapped_effect:
  assumes "debitCapped t m ty opts s = Inr (r, s')" "core_inv s"
    and "- (2 ^ 53) \<le> stored_balance (tenant_code t) s"
  defines "bal \<equiv> stored_balance (tenant_code t) s"
  shows "bal \<le> max_safe_integer"
    and "r = None \<longleftrightarrow> bal = 0"
    and "stored_balance c s' = stored_balance c s
      + (if bal = 0 then 0 else debit_effect t ty (if bal < toRaw m then bal else toRaw m) c)"
proof -
  obtain s1 cur where a: "only_locks s s1" "core_inv s1" "read_credit bal = Inr cur"
    "r = None \<and> isZero cur \<and> s' = s1 \<or> (\<exists>je rs s2 news. r = Some je \<and> \<not> isZero cur \<and>
       posted (debit_input t (if lessThan cur m then cur else m) ty (free_opts opts)) s1 rs s2 news s')"
    using debitCapped_Inr[OF assms(1,2)] unfolding bal_def by blast
  have cur: "bal \<le> max_safe_integer" "cur = Credit bal"
    using a(3) assms(3) by (auto simp: bal_def read_credit_eq split: if_splits)
  have sb: "stored_balance c s1 = stored_balance c s" for c
    using a(1) assms(2) by (simp add: only_locks_def)
  show "bal \<le> max_safe_integer" by (rule cur)
  show "r = None \<longleftrightarrow> bal = 0" using a(4) cur by (auto simp: credit_cmp)
  show "stored_balance c s' = stored_balance c s
      + (if bal = 0 then 0 else debit_effect t ty (if bal < toRaw m then bal else toRaw m) c)"
    using a(4)
  proof (elim disjE exE conjE)
    assume "isZero cur" "s' = s1"
    then show ?thesis using cur sb by (simp add: credit_cmp)
  next
    fix je rs s2 news
    assume "\<not> isZero cur" and p:
      "posted (debit_input t (if lessThan cur m then cur else m) ty (free_opts opts)) s1 rs s2 news s'"
    then show ?thesis
      using posted_debit_effect[OF p a(2), of c] cur sb by (auto simp: credit_cmp)
  qed
qed

section \<open>Reachable states\<close>

inductive ledger_step :: "db \<Rightarrow> db \<Rightarrow> bool" where
  step_post: "post inp s = Inr (je, s') \<Longrightarrow> ledger_step s s'"
| step_credit: "credit t amt cty copts s = Inr (je, s') \<Longrightarrow> ledger_step s s'"
| step_debit: "debit t amt dty dopts s = Inr (je, s') \<Longrightarrow> ledger_step s s'"
| step_capped: "debitCapped t m dty dopts s = Inr (r, s') \<Longrightarrow> ledger_step s s'"
| step_seed: "ledger_step s (seedSystemAccounts s)"
| step_tick: "ledger_step s (s\<lparr>clock := now\<rparr>)"

inductive ledger_reachable :: "db \<Rightarrow> bool" where
  reach_init: "ledger_reachable (seedSystemAccounts (empty_db\<lparr>clock := now\<rparr>))"
| reach_step: "ledger_reachable s \<Longrightarrow> ledger_step s s' \<Longrightarrow> ledger_reachable s'"

inductive_cases ledger_stepE: "ledger_step s s'"

lemma system_row_ok:
  "(c, n, ty, ns) \<in> set SYSTEM_ACCOUNTS \<Longrightarrow> account_row_ok \<lparr>a_id = i, a_code = c, a_name = n,
     a_type = ty, a_normalSide = ns, a_tenantId = None\<rparr>"
  by (auto simp: account_row_ok_def SYSTEM_ACCOUNTS_def is_tenant_code_def)

lemma seed_locks:
  fixes s :: db
  assumes "set rows \<subseteq> set SYSTEM_ACCOUNTS"
  defines "s' \<equiv> foldl (\<lambda>s (code, name, type, ns). insert_account code name type ns None s) s rows"
  shows "only_locks s s' \<and> set (map fst rows) \<subseteq> set (map a_code (accounts s'))"
  using assms(1) unfolding s'_def
proof (induction rows rule: rev_induct)
  case Nil
  then show ?case by (simp add: only_locks_refl)
next
  case (snoc r rows)
  obtain c n ty ns where r: "r = (c, n, ty, ns)" by (metis prod_cases4)
  let ?t = "foldl (\<lambda>s (code, name, type, ns). insert_account code name type ns None s) s rows"
  have one: "only_locks ?t (insert_account c n ty ns None ?t)"
    using snoc.prems r by (intro insert_account_locks system_row_ok) simp
  have ih: "only_locks s ?t" "set (map fst rows) \<subseteq> set (map a_code (accounts ?t))"
    using snoc by auto
  have "c \<in> set (map a_code (accounts (insert_account c n ty ns None ?t)))"
    by (simp add: insert_account_def Let_def)
  moreover have "set (map a_code (accounts ?t))
      \<subseteq> set (map a_code (accounts (insert_account c n ty ns None ?t)))"
    by (auto simp: insert_account_def Let_def)
  ultimately have "set (map fst (rows @ [r]))
      \<subseteq> set (map a_code (accounts (insert_account c n ty ns None ?t)))"
    using ih(2) r by auto
  then show ?case using only_locks_trans[OF ih(1) one] r by simp
qed

lemma seed_keeps_inv:
  "ledger_inv s \<Longrightarrow> ledger_inv (seedSystemAccounts s)"
  unfolding seedSystemAccounts_def using seed_locks[of SYSTEM_ACCOUNTS s] only_locks_inv by blast

lemma init_inv: "ledger_inv (seedSystemAccounts (empty_db\<lparr>clock := now\<rparr>))"
proof -
  let ?e = "empty_db\<lparr>clock := now\<rparr>"
  have "core_inv ?e"
    by (simp add: empty_db_def core_inv_def keys_ok_def refs_ok_def balances_ok_def List.map_filter_def)
  then have "core_inv (seedSystemAccounts ?e)" "set (map fst SYSTEM_ACCOUNTS)
      \<subseteq> set (map a_code (accounts (seedSystemAccounts ?e)))" "journalLines (seedSystemAccounts ?e) = []"
    using seed_locks[of SYSTEM_ACCOUNTS ?e]
    by (auto simp: seedSystemAccounts_def only_locks_def empty_db_def)
  then show ?thesis
    by (simp add: ledger_inv_def chart_ok_def entries_balanced_def entry_total_def core_inv_def)
qed

lemma clock_inv: "ledger_inv (s\<lparr>clock := now\<rparr>) \<longleftrightarrow> ledger_inv s"
  by (simp add: ledger_inv_def core_inv_def keys_ok_def refs_ok_def balances_ok_def chart_ok_def
        entries_balanced_def)

lemma step_keeps_inv: "ledger_step s s' \<Longrightarrow> ledger_inv s \<Longrightarrow> ledger_inv s'"
  by (erule ledger_step.cases) (auto intro: inv_intros seed_keeps_inv simp: clock_inv)

lemma reachable_inv: "ledger_reachable s \<Longrightarrow> ledger_inv s"
  by (induction rule: ledger_reachable.induct) (auto intro: init_inv step_keeps_inv)

end
