(* ===== verification/LedgerSafety.thy ===== *)
theory LedgerSafety
  imports LedgerReach
begin

text \<open>
  The properties of the ledger over its reachable states: the books balance, the materialized
  balances are the sums of their lines, the accounting equation, what each operation does on
  each of its branches, references that are used at most once, and tenant balances that no
  interleaving of checked operations overdraws.
\<close>

section \<open>Concrete states for the witnesses\<close>

text \<open>The seeded chart, a tenant with 500 raw units, and a tenant 500 in debt.\<close>

definition seeded :: db where
  "seeded = seedSystemAccounts (empty_db\<lparr>clock := ''2026-01-01''\<rparr>)"

definition bought :: credit_opts where
  "bought = no_credit_opts\<lparr>c_referenceId := Some ''buy-1''\<rparr>"

definition funded :: db where
  "funded = snd (projr (credit ''a'' (Credit 500) Purchase bought seeded))"

definition indebted :: db where
  "indebted = snd (projr (debit ''a'' (Credit 500) Bot_Runtime
     (no_debit_opts\<lparr>d_allowNegative := True\<rparr>) seeded))"

lemma projr_reached: "\<not> isl r \<Longrightarrow> r = Inr (fst (projr r), snd (projr r))"
  by (cases r) auto

lemma Inr_reached: "\<not> isl r \<Longrightarrow> \<exists>a b. r = Inr (a, b)"
  by (cases r) auto

lemma seeded_reachable: "ledger_reachable seeded"
  unfolding seeded_def by (rule reach_init)

lemma funded_step:
  "credit ''a'' (Credit 500) Purchase bought seeded
     = Inr (fst (projr (credit ''a'' (Credit 500) Purchase bought seeded)), funded)"
proof -
  have "\<not> isl (credit ''a'' (Credit 500) Purchase bought seeded)" by code_simp
  then show ?thesis unfolding funded_def by (rule projr_reached)
qed

lemma funded_reachable: "ledger_reachable funded"
  using seeded_reachable step_credit[OF funded_step] by (rule reach_step)

lemma indebted_step:
  "debit ''a'' (Credit 500) Bot_Runtime (no_debit_opts\<lparr>d_allowNegative := True\<rparr>) seeded
     = Inr (fst (projr (debit ''a'' (Credit 500) Bot_Runtime
         (no_debit_opts\<lparr>d_allowNegative := True\<rparr>) seeded)), indebted)"
proof -
  have "\<not> isl (debit ''a'' (Credit 500) Bot_Runtime (no_debit_opts\<lparr>d_allowNegative := True\<rparr>) seeded)"
    by code_simp
  then show ?thesis unfolding indebted_def by (rule projr_reached)
qed

lemma indebted_reachable: "ledger_reachable indebted"
  using seeded_reachable step_debit[OF indebted_step] by (rule reach_step)

lemma funded_balances:
  "stored_balance (tenant_code ''a'') funded = 500" "hasReferenceId ''buy-1'' funded"
  "stored_balance (tenant_code ''a'') indebted = - 500"
  "stored_balance ''4000'' funded = 0" "stored_balance ''1000'' funded = 500"
  by code_simp+

section \<open>Totals over all lines\<close>

lemma sum_by_key:
  fixes f :: "'a \<Rightarrow> int"
  assumes "finite K" "key ` set xs \<subseteq> K"
  shows "sum_list (map f xs) = (\<Sum>k\<in>K. sum_list (map f (filter (\<lambda>x. key x = k) xs)))"
  using assms(2)
proof (induction xs)
  case Nil
  then show ?case by simp
next
  case (Cons x xs)
  have "(\<Sum>k\<in>K. sum_list (map f (filter (\<lambda>x. key x = k) (x # xs))))
      = (\<Sum>k\<in>K. (if k = key x then f x else 0) + sum_list (map f (filter (\<lambda>x. key x = k) xs)))"
    by (rule sum.cong) auto
  also have "\<dots> = f x + (\<Sum>k\<in>K. sum_list (map f (filter (\<lambda>x. key x = k) xs)))"
    using assms(1) Cons.prems by (simp add: sum.distrib)
  finally show ?case using Cons by simp
qed

lemma side_total_entries:
  "side_total sd s = (\<Sum>i\<in>l_entryId ` set (journalLines s). entry_total sd i (journalLines s))"
proof -
  have "side_total sd s = (\<Sum>i\<in>l_entryId ` set (journalLines s). sum_list (map l_amount
      (filter (\<lambda>l. l_entryId l = i) (filter (\<lambda>l. l_side l = sd) (journalLines s)))))"
    unfolding side_total_def by (rule sum_by_key) auto
  then show ?thesis by (simp add: entry_total_def conj_commute)
qed

lemma entries_balanced_total:
  "entries_balanced s \<Longrightarrow> side_total Debit_Side s = side_total Credit_Side s"
  by (simp add: side_total_entries entries_balanced_def)

lemma read_credit_small:
  assumes "n \<le> max_safe_integer"
  shows "\<exists>c. read_credit n = Inr c"
proof -
  have "fl (of_int n) \<le> fl (of_int max_safe_integer)" using assms by (intro fl_mono) simp
  also have "\<dots> = of_int max_safe_integer" by (rule fl_of_int) (simp add: max_safe_integer_def)
  finally show ?thesis
    using fl_integral[of n] by (simp add: read_credit_def fromRaw_def number_of_bigint_def)
qed

lemma read_credit_0 [simp]: "read_credit 0 = Inr ZERO"
  by (simp add: read_credit_eq max_safe_integer_def ZERO_def)

text \<open>C1: In every reachable state the trial balance reports balanced books with difference zero;
  the only error it can raise is the overflow of a total above the safe range.\<close>

theorem books_balance:
  assumes "ledger_reachable s"
  shows "case trialBalance s of
      Inr tb \<Rightarrow> tb_balanced tb \<and> tb_difference tb = ZERO \<and> tb_totalDebits tb = tb_totalCredits tb
    | Inl e \<Rightarrow> \<exists>n > max_safe_integer. e = Sum_Overflow n"
proof -
  have eq: "side_total Debit_Side s = side_total Credit_Side s"
    using reachable_inv[OF assms] entries_balanced_total by (simp add: ledger_inv_def)
  show ?thesis
  proof (cases "side_total Credit_Side s > max_safe_integer")
    case True
    then show ?thesis using eq by (simp add: trialBalance_def Let_def)
  next
    case False
    then obtain c where "read_credit (side_total Credit_Side s) = Inr c"
      using read_credit_small by (metis linorder_not_le)
    then show ?thesis using False eq by (simp add: trialBalance_def Let_def)
  qed
qed

theorem books_balance_witness:
  "case trialBalance funded of
      Inr tb \<Rightarrow> tb_balanced tb \<and> tb_difference tb = ZERO \<and> tb_totalDebits tb = tb_totalCredits tb
    | Inl e \<Rightarrow> \<exists>n > max_safe_integer. e = Sum_Overflow n"
  by (rule books_balance[OF funded_reachable])

section \<open>Materialized balances and the accounting equation\<close>

text \<open>C3: The materialized balance of every account is the signed sum of its journal lines, in its
  normal direction, so the cache can be rebuilt from the journal.\<close>

theorem materialized_balance:
  assumes "ledger_reachable s" "a \<in> set (accounts s)"
  shows "stored_balance (a_code a) s = line_sum a (journalLines s)"
  using reachable_inv[OF assms(1)] assms(2) stored_balance_sum by (simp add: ledger_inv_def)

theorem materialized_balance_witness:
  "stored_balance (a_code (hd (accounts funded))) funded = line_sum (hd (accounts funded)) (journalLines funded)"
proof -
  have "accounts funded \<noteq> []" by code_simp
  then show ?thesis by (intro materialized_balance[OF funded_reachable]) simp
qed

definition normal_total :: "side \<Rightarrow> db \<Rightarrow> int" where
  "normal_total ns s =
     sum_list (map (\<lambda>a. stored_balance (a_code a) s) (filter (\<lambda>a. a_normalSide a = ns) (accounts s)))"

lemma signed_flip: "ns \<noteq> ns' \<Longrightarrow> signed ns sd x = - signed ns' sd x"
  by (cases ns; cases ns'; cases sd) (auto simp: signed_def)

lemma sum_list_zero: "(\<And>x. x \<in> set xs \<Longrightarrow> f x = (0 :: int)) \<Longrightarrow> sum_list (map f xs) = 0"
  by (induction xs) auto

lemma sum_list_single:
  fixes g :: "'a \<Rightarrow> int"
  assumes "distinct (map k xs)" "x \<in> set xs"
  shows "sum_list (map (\<lambda>y. if k y = k x then g y else 0) xs) = g x"
  using assms
proof (induction xs)
  case Nil
  then show ?case by simp
next
  case (Cons y ys)
  show ?case
  proof (cases "y = x")
    case True
    then have "sum_list (map (\<lambda>y. if k y = k x then g y else 0) ys) = 0"
      using Cons.prems(1) by (intro sum_list_zero) (auto simp: image_iff)
    then show ?thesis using True by simp
  next
    case False
    then show ?thesis using Cons by (auto simp: image_iff)
  qed
qed

lemma line_sums_total:
  assumes "distinct (map a_id as)" "l_accountId ` set ls \<subseteq> a_id ` set as"
  shows "sum_list (map (\<lambda>a. if a_normalSide a = Debit_Side then line_sum a ls else - line_sum a ls) as)
    = sum_list (map (\<lambda>l. signed Debit_Side (l_side l) (l_amount l)) ls)"
  using assms(2)
proof (induction ls)
  case Nil
  then show ?case by (simp add: sum_list_zero)
next
  case (Cons l ls)
  then obtain a where a: "a \<in> set as" "l_accountId l = a_id a" by auto
  let ?d = "signed Debit_Side (l_side l) (l_amount l)"
  let ?sum = "\<lambda>ls a. if a_normalSide a = Debit_Side then line_sum a ls else - line_sum a ls"
  have "?sum (l # ls) b = ?sum ls b + (if a_id b = a_id a then ?d else 0)" for b
    using signed_flip[of "a_normalSide b" Debit_Side] by (auto simp: line_sum_def a(2))
  then have "sum_list (map (?sum (l # ls)) as)
      = sum_list (map (?sum ls) as) + sum_list (map (\<lambda>b. if a_id b = a_id a then ?d else 0) as)"
    by (simp add: sum_list_addf)
  also have "\<dots> = sum_list (map (?sum ls) as) + ?d"
    using sum_list_single[OF assms(1) a(1), of "\<lambda>_. ?d"] by simp
  finally show ?case using Cons by simp
qed

lemma signed_total:
  "sum_list (map (\<lambda>l. signed Debit_Side (l_side l) (l_amount l)) (journalLines s))
   = side_total Debit_Side s - side_total Credit_Side s"
proof -
  have "sum_list (map (\<lambda>l. signed Debit_Side (l_side l) (l_amount l)) ls)
      = sum_list (map l_amount (filter (\<lambda>l. l_side l = Debit_Side) ls))
        - sum_list (map l_amount (filter (\<lambda>l. l_side l = Credit_Side) ls))" for ls
  proof (induction ls)
    case Nil
    then show ?case by simp
  next
    case (Cons l ls)
    then show ?case by (cases "l_side l") (auto simp: signed_def)
  qed
  then show ?thesis by (simp add: side_total_def)
qed

text \<open>The accounting equation: over the whole chart, the balances of the debit-normal accounts
  (assets and expenses) sum to those of the credit-normal ones (liabilities, equity, revenue).\<close>

theorem accounting_equation:
  assumes "ledger_reachable s"
  shows "normal_total Debit_Side s = normal_total Credit_Side s"
proof -
  have inv: "ledger_inv s" using reachable_inv[OF assms] .
  let ?v = "\<lambda>a. stored_balance (a_code a) s"
  have "normal_total Debit_Side s - normal_total Credit_Side s
      = sum_list (map (\<lambda>a. if a_normalSide a = Debit_Side then ?v a else - ?v a) (accounts s))"
  proof -
    have "sum_list (map ?v (filter (\<lambda>a. a_normalSide a = Debit_Side) as))
        - sum_list (map ?v (filter (\<lambda>a. a_normalSide a = Credit_Side) as))
        = sum_list (map (\<lambda>a. if a_normalSide a = Debit_Side then ?v a else - ?v a) as)" for as
    proof (induction as)
      case Nil
      then show ?case by simp
    next
      case (Cons a as)
      then show ?case by (cases "a_normalSide a") auto
    qed
    then show ?thesis by (simp add: normal_total_def)
  qed
  also have "\<dots> = sum_list (map (\<lambda>a. if a_normalSide a = Debit_Side
        then line_sum a (journalLines s) else - line_sum a (journalLines s)) (accounts s))"
    using inv stored_balance_sum[of s] by (intro arg_cong[of _ _ sum_list] map_cong) (auto simp: ledger_inv_def)
  also have "\<dots> = side_total Debit_Side s - side_total Credit_Side s"
    using inv by (subst line_sums_total)
      (auto simp: ledger_inv_def core_inv_def keys_ok_def refs_ok_def signed_total)
  also have "\<dots> = 0" using inv entries_balanced_total by (simp add: ledger_inv_def)
  finally show ?thesis by simp
qed

theorem accounting_equation_witness:
  "normal_total Debit_Side funded = normal_total Credit_Side funded"
  by (rule accounting_equation[OF funded_reachable])

section \<open>The operations\<close>

text \<open>C5: A post that returns has added exactly one entry row and one line row per line, and has moved
  every account by exactly the signed sum of the lines that name it; its reference was unused.\<close>

theorem post_functional:
  assumes "ledger_reachable s" "post inp s = Inr (je, s')"
  shows "journalEntries s' = journalEntries s @ [new_entry inp s]
    \<and> length (journalLines s') = length (journalLines s) + length (in_lines inp)
    \<and> je = post_result inp s
    \<and> (\<forall>r. in_referenceId inp = Some r \<longrightarrow> \<not> hasReferenceId r s)
    \<and> (\<forall>c. stored_balance c s' = stored_balance c s + lines_delta (code_side c) c (in_lines inp))"
proof -
  have c: "core_inv s" using reachable_inv[OF assms(1)] by (simp add: ledger_inv_def)
  obtain rs s2 news where p: "je = post_result inp s" "posted inp s rs s2 news s'"
    using post_Inr[OF assms(2) c] by blast
  have "mset (map fst rs) = mset (in_lines inp)" using p by (simp add: posted_def)
  then have "length rs = length (in_lines inp)" by (metis length_map mset_eq_length)
  moreover have "length rs = length news" using p by (auto simp: posted_def dest: list_all2_lengthD)
  ultimately show ?thesis
    using p posted_effect_code[OF p(2) c]
    by (auto simp: posted_def only_locks_def same_frame_def with_entry_def)
qed

theorem post_functional_witness:
  "length (journalLines funded) = 2 \<and> (\<forall>c. stored_balance c funded = stored_balance c seeded
     + lines_delta (code_side c) c (in_lines (credit_input ''a'' (Credit 500) Purchase bought)))"
proof -
  have "post (credit_input ''a'' (Credit 500) Purchase bought) seeded
      = Inr (fst (projr (credit ''a'' (Credit 500) Purchase bought seeded)), funded)"
    using funded_step by (simp add: credit_def credit_cmp)
  note p = post_functional[OF seeded_reachable this]
  have "journalLines seeded = []" by code_simp
  then show ?thesis using p by (simp add: credit_input_def)
qed

text \<open>Crediting a positive amount under an unused reference always succeeds while the two balances
  stay within a bigint: the tenant and the source account of the type both grow by the amount,
  every other account keeps its balance, and the invariant holds.\<close>

theorem credit_functional:
  assumes "ledger_reachable s" "0 < toRaw amt" "pg_bigint (toRaw amt)"
    and "\<forall>r. c_referenceId opts = Some r \<longrightarrow> \<not> hasReferenceId r s"
    and "pg_bigint (stored_balance (tenant_code t) s + toRaw amt)"
    and "pg_bigint (stored_balance (CREDIT_TYPE_ACCOUNT ty) s + toRaw amt)"
  shows "\<exists>je s'. credit t amt ty opts s = Inr (je, s') \<and> ledger_reachable s'
    \<and> (\<forall>c. stored_balance c s' = stored_balance c s
          + (if c \<in> {tenant_code t, CREDIT_TYPE_ACCOUNT ty} then toRaw amt else 0))"
proof -
  have inv: "ledger_inv s" using reachable_inv[OF assms(1)] .
  obtain s' where s': "credit t amt ty opts s = Inr (post_result (credit_input t amt ty opts) s, s')"
    using credit_succeeds[OF inv assms(2-6)] by blast
  moreover have "ledger_reachable s'" using assms(1) s' by (blast intro: reach_step step_credit)
  moreover have "core_inv s" using inv by (simp add: ledger_inv_def)
  ultimately show ?thesis using credit_effect[OF s'] by auto
qed

theorem credit_functional_witness:
  "\<exists>je s'. credit ''b'' (Credit 70) Promo no_credit_opts funded = Inr (je, s') \<and> ledger_reachable s'
    \<and> (\<forall>c. stored_balance c s' = stored_balance c funded
          + (if c \<in> {tenant_code ''b'', CREDIT_TYPE_ACCOUNT Promo} then toRaw (Credit 70) else 0))"
proof -
  have "pg_bigint (stored_balance (tenant_code ''b'') funded + toRaw (Credit 70))"
    "pg_bigint (stored_balance (CREDIT_TYPE_ACCOUNT Promo) funded + toRaw (Credit 70))"
    by code_simp+
  then show ?thesis
    by (intro credit_functional[OF funded_reachable]) (simp_all add: pg_bigint_def no_credit_opts_def)
qed

lemma debit_pays:
  assumes "ledger_reachable s" "0 < toRaw amt" "pg_bigint (toRaw amt)"
    and "\<forall>r. d_referenceId opts = Some r \<longrightarrow> \<not> hasReferenceId r s"
    and "\<bar>stored_balance (tenant_code t) s\<bar> \<le> max_safe_integer"
    and "pg_bigint (stored_balance (DEBIT_TYPE_ACCOUNT ty) s
           + debit_effect t ty (toRaw amt) (DEBIT_TYPE_ACCOUNT ty))"
    and "toRaw amt \<le> stored_balance (tenant_code t) s"
  shows "\<exists>je s'. debit t amt ty opts s = Inr (je, s') \<and> ledger_reachable s'
       \<and> (\<forall>c. stored_balance c s' = stored_balance c s + debit_effect t ty (toRaw amt) c)"
proof -
  have inv: "ledger_inv s" using reachable_inv[OF assms(1)] .
  then have c: "core_inv s" by (simp add: ledger_inv_def)
  have pg: "pg_bigint (stored_balance (tenant_code t) s - toRaw amt)"
    using assms(2,5,7) by (simp add: pg_bigint_def max_safe_integer_def)
  have "d_allowNegative opts \<or> toRaw amt \<le> stored_balance (tenant_code t) s
      \<and> stored_balance (tenant_code t) s \<le> max_safe_integer" using abs_le_D1[OF assms(5)] assms(7) by simp
  then obtain s' where s': "debit t amt ty opts s = Inr (post_result (debit_input t amt ty opts) s, s')"
    using debit_succeeds[OF inv assms(2,3,4) _ pg assms(6)] by blast
  moreover have "ledger_reachable s'" using assms(1) s' by (blast intro: reach_step step_debit)
  ultimately show ?thesis using debit_effect_eq[OF s' c] by auto
qed

text \<open>A checked debit of a positive amount under an unused reference: with a balance (inside the
  safe range) below the amount it is refused with both figures, otherwise it succeeds, takes
  exactly the amount from the tenant and books it on the account of the debit type.\<close>

theorem debit_functional:
  assumes "ledger_reachable s" "0 < toRaw amt" "pg_bigint (toRaw amt)" "\<not> d_allowNegative opts"
    and "\<forall>r. d_referenceId opts = Some r \<longrightarrow> \<not> hasReferenceId r s"
    and "\<bar>stored_balance (tenant_code t) s\<bar> \<le> max_safe_integer"
    and "pg_bigint (stored_balance (DEBIT_TYPE_ACCOUNT ty) s
           + debit_effect t ty (toRaw amt) (DEBIT_TYPE_ACCOUNT ty))"
  shows "if stored_balance (tenant_code t) s < toRaw amt
    then debit t amt ty opts s
       = Inl (Insufficient_Balance (Credit (stored_balance (tenant_code t) s)) amt)
    else \<exists>je s'. debit t amt ty opts s = Inr (je, s') \<and> ledger_reachable s'
       \<and> (\<forall>c. stored_balance c s' = stored_balance c s + debit_effect t ty (toRaw amt) c)"
proof -
  have inv: "ledger_inv s" using reachable_inv[OF assms(1)] .
  then have c: "core_inv s" by (simp add: ledger_inv_def)
  let ?b = "stored_balance (tenant_code t) s"
  have b: "- (2 ^ 53) \<le> ?b" "?b \<le> max_safe_integer" using assms(6) by (auto simp: max_safe_integer_def)
  show ?thesis
  proof (cases "?b < toRaw amt")
    case True
    then show ?thesis using debit_refused[OF inv assms(2,4,5) b(1) True b(2)] by simp
  next
    case False
    then show ?thesis using debit_pays[OF assms(1-3,5-7)] by simp
  qed
qed

theorem debit_functional_witness:
  "debit ''a'' (Credit 501) Bot_Runtime no_debit_opts funded
      = Inl (Insufficient_Balance (Credit 500) (Credit 501))
   \<and> (\<exists>je s'. debit ''a'' (Credit 500) Bot_Runtime no_debit_opts funded = Inr (je, s')
        \<and> stored_balance (tenant_code ''a'') s' = 0)"
proof -
  have e: "debit_effect ''a'' Bot_Runtime raw ''4000'' = raw" for raw
    by (simp add: debit_effect_def tenant_code_def code_side_def is_tenant_code_def SYSTEM_ACCOUNTS_def
          signed_def)
  have t: "debit_effect ''a'' Bot_Runtime raw (tenant_code ''a'') = - raw" for raw
    by (simp add: debit_effect_def)
  note f = debit_functional[where t = "''a''" and ty = Bot_Runtime and opts = no_debit_opts, OF funded_reachable]
  have "debit ''a'' (Credit 501) Bot_Runtime no_debit_opts funded
      = Inl (Insufficient_Balance (Credit 500) (Credit 501))"
    using f[of "Credit 501"]
    by (simp add: funded_balances e pg_bigint_def no_debit_opts_def max_safe_integer_def)
  moreover have "\<exists>je s'. debit ''a'' (Credit 500) Bot_Runtime no_debit_opts funded = Inr (je, s')
      \<and> stored_balance (tenant_code ''a'') s' = 0"
    using f[of "Credit 500"]
    by (simp add: funded_balances e pg_bigint_def no_debit_opts_def max_safe_integer_def)
       (metis add.right_inverse credit.sel funded_balances(1) t)
  ultimately show ?thesis by blast
qed

text \<open>A capped debit that returns takes exactly the smaller of the balance and the maximum when the
  balance is not negative: nothing (and null) at zero, never more than the tenant has.\<close>

theorem debitCapped_functional:
  assumes "ledger_reachable s" "debitCapped t m ty opts s = Inr (r, s')"
    and "0 \<le> stored_balance (tenant_code t) s"
  shows "(r = None \<longleftrightarrow> stored_balance (tenant_code t) s = 0)
    \<and> (\<forall>c. stored_balance c s' = stored_balance c s + (if r = None then 0
          else debit_effect t ty (min (stored_balance (tenant_code t) s) (toRaw m)) c))"
proof -
  have c: "core_inv s" using reachable_inv[OF assms(1)] by (simp add: ledger_inv_def)
  have "- (2 ^ 53) \<le> stored_balance (tenant_code t) s" using assms(3) by simp
  note e = debitCapped_effect[OF assms(2) c this]
  have m: "(if b < toRaw m then b else toRaw m) = min b (toRaw m)" for b by auto
  show ?thesis using e(2) e(3) unfolding m by auto
qed

theorem debitCapped_functional_witness:
  "\<exists>r s'. debitCapped ''a'' (Credit 900) Refund no_debit_opts funded = Inr (r, s')
     \<and> r \<noteq> None \<and> stored_balance (tenant_code ''a'') s' = 0"
proof -
  let ?r = "debitCapped ''a'' (Credit 900) Refund no_debit_opts funded"
  have "\<not> isl ?r" by code_simp
  then obtain r s' where r: "?r = Inr (r, s')" using Inr_reached by blast
  from debitCapped_functional[OF funded_reachable r] show ?thesis
    using r by (auto simp: funded_balances debit_effect_def)
qed



section \<open>References are used once\<close>

lemma step_entries:
  assumes "ledger_step s s'" "ledger_inv s"
  shows "prefix (journalEntries s) (journalEntries s')"
proof -
  have c: "core_inv s" using assms(2) by (simp add: ledger_inv_def)
  have p: "prefix (journalEntries s1) (journalEntries s')" if "posted inp s1 rs s2 news s'" for inp s1 rs s2 news s'
    using that by (auto simp: posted_def only_locks_def same_frame_def with_entry_def)
  have q: "prefix (journalEntries s) (journalEntries s')" if "post inp s = Inr (je, s')" for inp je s'
    by (rule post_Inr[OF that c]) (rule p)
  from assms(1) show ?thesis
  proof cases
    case (step_capped t m ty opts r)
    from debitCapped_Inr[OF this c] obtain s1 where "only_locks s s1" and
      alt: "s' = s1 \<or> (\<exists>d rs s2 news. posted (debit_input t d ty (free_opts opts)) s1 rs s2 news s')"
      by blast
    then have "journalEntries s1 = journalEntries s" by (simp add: only_locks_def)
    then show ?thesis using alt p by fastforce
  next
    case step_seed
    then show ?thesis
      using seed_locks[of SYSTEM_ACCOUNTS s] by (simp add: seedSystemAccounts_def only_locks_def)
  qed (auto simp: credit_def debit_def intro: q split: if_splits)
qed

lemma steps_keep:
  assumes "ledger_step\<^sup>*\<^sup>* s s'" "ledger_reachable s"
  shows "ledger_reachable s' \<and> prefix (journalEntries s) (journalEntries s')"
  using assms
proof (induction rule: rtranclp_induct)
  case base
  then show ?case by simp
next
  case (step t u)
  then have "ledger_reachable t" "prefix (journalEntries s) (journalEntries t)" by auto
  then show ?case
    using step_entries[OF step.hyps(2)] reachable_inv reach_step step.hyps(2) prefix_order.trans by blast
qed

lemma hasReferenceId_prefix:
  "prefix (journalEntries s) (journalEntries s') \<Longrightarrow> hasReferenceId r s \<Longrightarrow> hasReferenceId r s'"
  by (auto simp: hasReferenceId_def prefix_def)

lemma post_used_reference:
  assumes "in_referenceId inp = Some r" "hasReferenceId r s" "check_lines (in_lines inp) = Inr ()"
  shows "post inp s = Inl (Unique_Violation r)"
  using assms by (simp add: post_def post_transaction_alt insert_new_entry)

text \<open>C4: A reference is posted at most once: whatever happens after an entry with the reference was
  recorded, a second credit, debit or well-formed post under it is refused as a duplicate (and the
  refused transaction leaves no trace).\<close>

theorem reference_used_once:
  assumes "ledger_reachable s" "hasReferenceId r s" "ledger_step\<^sup>*\<^sup>* s s'"
    and "c_referenceId copts = Some r" "d_referenceId dopts = Some r" "in_referenceId inp = Some r"
    and "0 < toRaw amt" "check_lines (in_lines inp) = Inr ()"
  shows "credit t amt cty copts s' = Inl (Unique_Violation r)
    \<and> debit t amt dty dopts s' = Inl (Unique_Violation r)
    \<and> post inp s' = Inl (Unique_Violation r)"
proof -
  have "hasReferenceId r s'"
    using steps_keep[OF assms(3,1)] hasReferenceId_prefix assms(2) by blast
  note u = post_used_reference[OF _ this]
  have "check_lines (in_lines (credit_input t amt cty copts)) = Inr ()"
    "check_lines (in_lines (debit_input t amt dty dopts)) = Inr ()"
    using assms(7) by (simp_all add: credit_input_def debit_input_def check_two_lines)
  then have "post (credit_input t amt cty copts) s' = Inl (Unique_Violation r)"
    "post (debit_input t amt dty dopts) s' = Inl (Unique_Violation r)"
    using assms(4,5) by (auto intro!: u simp: credit_input_def debit_input_def)
  then show ?thesis using u[OF assms(6,8)] assms(7) by (simp add: credit_def debit_def credit_cmp)
qed

theorem reference_used_once_witness:
  "credit ''a'' (Credit 500) Purchase bought funded = Inl (Unique_Violation ''buy-1'')"
  using reference_used_once[OF funded_reachable funded_balances(2) rtranclp.rtrancl_refl,
      where copts = bought and dopts = "no_debit_opts\<lparr>d_referenceId := Some ''buy-1''\<rparr>"
        and inp = "credit_input ''a'' (Credit 500) Purchase bought" and amt = "Credit 500" and t = "''a''"
        and cty = Purchase]
  by (simp add: bought_def credit_input_def check_two_lines)

section \<open>No overdraft under interleaving\<close>

text \<open>The operations customers' charges go through: credits, checked debits, capped debits.\<close>

inductive checked_step :: "db \<Rightarrow> db \<Rightarrow> bool" where
  checked_credit: "credit t amt cty copts s = Inr (je, s') \<Longrightarrow> checked_step s s'"
| checked_debit: "debit t amt dty dopts s = Inr (je, s') \<Longrightarrow> \<not> d_allowNegative dopts \<Longrightarrow> checked_step s s'"
| checked_capped: "debitCapped t m dty dopts s = Inr (r, s') \<Longrightarrow> 0 \<le> toRaw m \<Longrightarrow> checked_step s s'"

lemma debit_checked_amount:
  assumes "debit t amt ty opts s = Inr (je, s')" "core_inv s" "\<not> d_allowNegative opts"
    and "- (2 ^ 53) \<le> stored_balance (tenant_code t) s"
  shows "toRaw amt \<le> stored_balance (tenant_code t) s" "0 < toRaw amt"
proof -
  have post: "post (debit_input t amt ty opts) s = Inr (je, s')" and pos: "0 < toRaw amt"
    using assms(1) by (auto simp: debit_def credit_cmp split: if_splits)
  then obtain rs s2 news where p: "posted (debit_input t amt ty opts) s rs s2 news s'"
    using post_Inr[OF _ assms(2)] by metis
  have w: "core_inv (with_entry (debit_input t amt ty opts) s)"
    using p assms(2) with_entry_core by (auto simp: posted_def)
  have "only_locks (with_entry (debit_input t amt ty opts) s) s2" using p by (simp add: posted_def)
  then have "stored_balance (tenant_code t) s2 = stored_balance (tenant_code t) s"
    using stored_balance_locks w by blast
  then have "balance_check (Some (t, amt)) s = Inr ()"
    using p assms(3) by (simp add: posted_def debit_input_def balance_check_def)
  then show "toRaw amt \<le> stored_balance (tenant_code t) s" "0 < toRaw amt"
    using assms(4) pos by (auto simp: balance_check_def read_credit_eq credit_cmp split: if_splits)
qed

lemma checked_step_nonneg:
  assumes "checked_step s s'" "ledger_reachable s" "\<forall>t. 0 \<le> stored_balance (tenant_code t) s"
  shows "ledger_reachable s' \<and> (\<forall>t. 0 \<le> stored_balance (tenant_code t) s')"
proof -
  have c: "core_inv s" using reachable_inv[OF assms(2)] by (simp add: ledger_inv_def)
  have lo: "- (2 ^ 53) \<le> stored_balance (tenant_code t) s" for t
    using assms(3)[rule_format, of t] by (rule order.trans[rotated]) simp
  from assms(1) show ?thesis
  proof cases
    case (checked_credit t amt cty copts je)
    have "0 < toRaw amt" using checked_credit by (auto simp: credit_def credit_cmp split: if_splits)
    then show ?thesis
      using credit_effect[OF checked_credit c] assms(2,3) checked_credit
      by (auto intro: reach_step step_credit)
  next
    case (checked_debit t amt dty dopts je)
    note d = debit_checked_amount[OF checked_debit(1) c checked_debit(2) lo]
    show ?thesis
      using debit_effect_eq[OF checked_debit(1) c] d assms(2,3) checked_debit(1)
      by (auto simp: debit_effect_def intro: reach_step step_debit)
  next
    case (checked_capped t m dty dopts r)
    have "0 \<le> stored_balance (tenant_code u) s'" for u
      using debitCapped_effect(3)[OF checked_capped(1) c lo, of "tenant_code u"]
        assms(3)[rule_format, of u] assms(3)[rule_format, of t] checked_capped(2)
      by (auto simp: debit_effect_def split: if_splits)
    then show ?thesis using assms(2) checked_capped(1) by (blast intro: reach_step step_capped)
  qed
qed

lemma seeded_nonneg: "\<forall>t. 0 \<le> stored_balance (tenant_code t) seeded"
proof -
  have "map a_code (accounts seeded) = map fst SYSTEM_ACCOUNTS" by code_simp
  then have "tenant_code t \<notin> set (map a_code (accounts seeded))" for t
    by (simp add: SYSTEM_ACCOUNTS_def tenant_code_def)
  then have "find_account (tenant_code t) seeded = None" for t by (simp add: find_account_None)
  then show ?thesis by (simp add: stored_balance_def)
qed

lemma funded_nonneg: "\<forall>t. 0 \<le> stored_balance (tenant_code t) funded"
  using checked_step_nonneg[OF checked_credit[OF funded_step] seeded_reachable seeded_nonneg] by blast

lemma checked_steps_nonneg:
  assumes "checked_step\<^sup>*\<^sup>* s s'" "ledger_reachable s" "\<forall>t. 0 \<le> stored_balance (tenant_code t) s"
  shows "ledger_reachable s' \<and> (\<forall>t. 0 \<le> stored_balance (tenant_code t) s')"
  using assms by (induction rule: rtranclp_induct) (auto dest: checked_step_nonneg)

lemma checked_is_step: "checked_step s s' \<Longrightarrow> ledger_step s s'"
  by (erule checked_step.cases) (auto intro: ledger_step.intros)

lemma checked_steps_reachable: "checked_step\<^sup>*\<^sup>* s s' \<Longrightarrow> ledger_reachable s \<Longrightarrow> ledger_reachable s'"
  by (induction rule: rtranclp_induct) (auto intro: reach_step checked_is_step)

text \<open>C2: No interleaving of credits, checked debits and capped debits with a non-negative maximum ever
  drives a tenant's balance below zero.\<close>

theorem no_overdraft:
  assumes "ledger_reachable s" "\<forall>t. 0 \<le> stored_balance (tenant_code t) s" "checked_step\<^sup>*\<^sup>* s s'"
  shows "0 \<le> stored_balance (tenant_code t) s'"
  using checked_steps_nonneg[OF assms(3,1,2)] by blast

theorem no_overdraft_witness:
  "0 \<le> stored_balance (tenant_code ''a'') funded"
proof -
  have "checked_step\<^sup>*\<^sup>* seeded funded" using checked_credit[OF funded_step] by (rule r_into_rtranclp)
  then show ?thesis using no_overdraft[OF seeded_reachable seeded_nonneg] by blast
qed

end
