(* ===== verification/CreditClients.thy ===== *)
theory CreditClients
  imports LedgerSafety
begin

text \<open>
  The jobs that move credits through the ledger: the signup grant (\<open>src/credits/signup-grant.ts\<close>),
  the expiry sweep (\<open>credit-expiry-cron.ts\<close>), the community dividend (\<open>dividend-cron.ts\<close>) and the
  trial balance check (\<open>trial-balance-cron.ts\<close>). A job is a loop whose body catches its errors, so
  it is a fold over a total step on the ledger and the result object; log lines are not modelled.
\<close>

section \<open>Signup grant\<close>

definition SIGNUP_GRANT :: credit where
  "SIGNUP_GRANT = fromDollars 5"

definition signup_reference :: "string \<Rightarrow> string" where
  "signup_reference tenantId = ''signup:'' @ tenantId"

definition signup_opts :: "string \<Rightarrow> credit_opts" where
  "signup_opts tenantId = no_credit_opts\<lparr>
     c_description := Some ''Welcome bonus: $5.00 credit on email verification'',
     c_referenceId := Some (signup_reference tenantId)\<rparr>"

definition isUniqueConstraintViolation :: "ledger_error \<Rightarrow> bool" where
  "isUniqueConstraintViolation e = (case e of Unique_Violation _ \<Rightarrow> True | _ \<Rightarrow> False)"

definition grantSignupCredits :: "string \<Rightarrow> (db, ledger_error, bool) act" where
  "grantSignupCredits tenantId =
     abind (aquery (\<lambda>s. Inr (hasReferenceId (signup_reference tenantId) s))) (\<lambda>seen.
       if seen then areturn False
       else acatch
         (abind (atomically (credit tenantId SIGNUP_GRANT Signup_Grant (signup_opts tenantId)))
            (\<lambda>_. areturn True))
         (\<lambda>e. if isUniqueConstraintViolation e then areturn False else athrow e))"

section \<open>Expiry sweep\<close>

record expiry_result =
  xr_processed :: nat
  xr_expired :: "string list"
  xr_errors :: "(string \<times> uuid \<times> ledger_error) list"
  xr_skippedZeroBalance :: nat

definition expiry_opts :: "uuid \<Rightarrow> debit_opts" where
  "expiry_opts entryId = no_debit_opts\<lparr>
     d_description := Some (''Expired credit grant reclaimed: '' @ decimal entryId),
     d_referenceId := Some (expiry_reference entryId)\<rparr>"

definition expiry_step :: "db \<times> expiry_result \<Rightarrow> uuid \<times> string \<times> credit \<Rightarrow> db \<times> expiry_result" where
  "expiry_step = (\<lambda>(s, r) (entryId, tenantId, amt).
     case debitCapped tenantId amt Credit_Expiry (expiry_opts entryId) s of
       Inl e \<Rightarrow> (s, r\<lparr>xr_errors := xr_errors r @ [(tenantId, entryId, e)]\<rparr>)
     | Inr (None, s') \<Rightarrow> (s', r\<lparr>xr_skippedZeroBalance := Suc (xr_skippedZeroBalance r)\<rparr>)
     | Inr (Some je, s') \<Rightarrow>
         (s', r\<lparr>xr_processed := Suc (xr_processed r),
                xr_expired := (if tenantId \<in> set (xr_expired r) then xr_expired r
                               else xr_expired r @ [tenantId])\<rparr>))"

definition runCreditExpiryCron :: "string \<Rightarrow> db \<Rightarrow> ledger_error + expiry_result \<times> db" where
  "runCreditExpiryCron now s =
     rbind (expiredCredits now s) (\<lambda>grants.
       let (s', r) = foldl expiry_step (s, \<lparr>xr_processed = 0, xr_expired = [], xr_errors = [],
                       xr_skippedZeroBalance = 0\<rparr>) grants
       in Inr (r, s'))"

section \<open>Community dividend\<close>

record dividend_result =
  dr_pool :: credit
  dr_activeCount :: nat
  dr_perUser :: credit
  dr_distributed :: nat
  dr_skippedAlreadyRun :: bool
  dr_errors :: "(string \<times> ledger_error) list"

definition dividend_reference :: "string \<Rightarrow> string \<Rightarrow> string" where
  "dividend_reference targetDate tenantId = ''dividend:'' @ targetDate @ '':'' @ tenantId"

definition dividend_opts :: "string \<Rightarrow> string \<Rightarrow> string \<Rightarrow> credit_opts" where
  "dividend_opts description targetDate tenantId = no_credit_opts\<lparr>
     c_description := Some description,
     c_referenceId := Some (dividend_reference targetDate tenantId)\<rparr>"

definition dividend_step ::
  "string \<Rightarrow> string \<Rightarrow> credit \<Rightarrow> db \<times> dividend_result \<Rightarrow> string \<Rightarrow> db \<times> dividend_result" where
  "dividend_step description targetDate perUser = (\<lambda>(s, r) tenantId.
     case credit tenantId perUser Community_Dividend (dividend_opts description targetDate tenantId) s of
       Inl e \<Rightarrow> (s, r\<lparr>dr_errors := dr_errors r @ [(tenantId, e)]\<rparr>)
     | Inr (je, s') \<Rightarrow> (s', r\<lparr>dr_distributed := Suc (dr_distributed r)\<rparr>))"

text \<open>
  \<open>subtractDays(date, 6)\<close> goes through the \<open>Date\<close> object and is a parameter \<open>minus6\<close>; the
  description of the ledger entries, which prints the pool in cents, is the parameter \<open>descr\<close>.
\<close>

definition dividend_start :: dividend_result where
  "dividend_start = \<lparr>dr_pool = ZERO, dr_activeCount = 0, dr_perUser = ZERO, dr_distributed = 0,
     dr_skippedAlreadyRun = False, dr_errors = []\<rparr>"

text \<open>From the pool and the active tenants on: the share, its two early returns, the loop.\<close>

definition distribute_dividend ::
  "(credit \<Rightarrow> nat \<Rightarrow> string) \<Rightarrow> string \<Rightarrow> credit \<Rightarrow> string list \<Rightarrow> db
   \<Rightarrow> ledger_error + dividend_result \<times> db" where
  "distribute_dividend descr targetDate pool active s =
     (let n = length active; r1 = dividend_start\<lparr>dr_pool := pool, dr_activeCount := n\<rparr>
      in if isZero pool \<or> n = 0 then Inr (r1, s)
         else
           (case fromRaw (of_int (js_floor (js_div (of_int (toRaw pool)) (of_nat n)))) of
              Inl e \<Rightarrow> Inl (Credit_Error e)
            | Inr perUser \<Rightarrow>
                if isZero perUser then Inr (r1\<lparr>dr_perUser := perUser\<rparr>, s)
                else
                  (let (s', r3) = foldl (dividend_step (descr pool n) targetDate perUser)
                                    (s, r1\<lparr>dr_perUser := perUser\<rparr>) active
                   in Inr (r3, s'))))"

definition runDividendCron ::
  "(string \<Rightarrow> int) \<Rightarrow> (string \<Rightarrow> string) \<Rightarrow> (credit \<Rightarrow> nat \<Rightarrow> string) \<Rightarrow> rat \<Rightarrow> string \<Rightarrow> db
   \<Rightarrow> ledger_error + dividend_result \<times> db" where
  "runDividendCron ts minus6 descr matchRate targetDate s =
     (if existsByReferenceIdLike (dividend_reference targetDate ''%'') s
      then Inr (dividend_start\<lparr>dr_skippedAlreadyRun := True\<rparr>, s)
      else
        (let dayStart = targetDate @ '' 00:00:00''; dayEnd = targetDate @ '' 24:00:00''
         in rbind (sumPurchasesForPeriod ts dayStart dayEnd s) (\<lambda>dailyPurchaseTotal.
            case multiply dailyPurchaseTotal matchRate of
              Inl e \<Rightarrow> Inl (Credit_Error e)
            | Inr pool \<Rightarrow>
                distribute_dividend descr targetDate pool
                  (getActiveTenantIdsInWindow ts (minus6 targetDate @ '' 00:00:00'') dayEnd s) s)))"

section \<open>Trial balance check\<close>

record trial_balance_result =
  tr_balanced :: bool
  tr_totalDebits :: int
  tr_totalCredits :: int
  tr_differenceRaw :: int

definition runTrialBalanceCron :: "db \<Rightarrow> ledger_error + trial_balance_result" where
  "runTrialBalanceCron s =
     rbind (trialBalance s) (\<lambda>tb.
       Inr \<lparr>tr_balanced = tb_balanced tb, tr_totalDebits = toRaw (tb_totalDebits tb),
            tr_totalCredits = toRaw (tb_totalCredits tb), tr_differenceRaw = toRaw (tb_difference tb)\<rparr>)"

section \<open>History only grows\<close>

definition extends :: "db \<Rightarrow> db \<Rightarrow> bool" where
  "extends s s' \<longleftrightarrow> prefix (journalEntries s) (journalEntries s')
     \<and> set (accounts s) \<subseteq> set (accounts s')
     \<and> (\<exists>news. journalLines s' = journalLines s @ news
          \<and> (\<forall>l \<in> set news. l_entryId l \<notin> e_id ` set (journalEntries s)))"

lemma extends_refl: "extends s s"
  by (simp add: extends_def)

lemma extends_trans:
  assumes "extends s t" "extends t u"
  shows "extends s u"
proof -
  obtain n1 n2 where n: "journalLines t = journalLines s @ n1" "journalLines u = journalLines t @ n2"
    "\<forall>l \<in> set n1. l_entryId l \<notin> e_id ` set (journalEntries s)"
    "\<forall>l \<in> set n2. l_entryId l \<notin> e_id ` set (journalEntries t)"
    using assms by (auto simp: extends_def)
  have sub: "set (journalEntries s) \<subseteq> set (journalEntries t)"
    using assms(1) by (auto simp: extends_def prefix_def)
  have "prefix (journalEntries s) (journalEntries u)" "set (accounts s) \<subseteq> set (accounts u)"
    using assms prefix_order.trans unfolding extends_def by blast+
  moreover have "journalLines u = journalLines s @ (n1 @ n2)" using n by simp
  moreover have "\<forall>l \<in> set (n1 @ n2). l_entryId l \<notin> e_id ` set (journalEntries s)"
    using n sub by auto
  ultimately show ?thesis unfolding extends_def by blast
qed

lemma only_locks_extends: "only_locks s s' \<Longrightarrow> extends s s'"
  by (simp add: only_locks_def extends_def)

lemma posted_extends:
  assumes "posted inp s rs s2 news s'" "core_inv s"
  shows "extends s s'"
proof -
  note p = assms(1)[unfolded posted_def]
  have "next_uuid s \<notin> e_id ` set (journalEntries s)"
    using assms(2) by (auto simp: core_inv_def keys_ok_def)
  moreover have "l_entryId ` set news \<subseteq> {next_uuid s}"
    using p by (auto simp: list_all2_conv_all_nth line_matches_def in_set_conv_nth)
  ultimately show ?thesis
    using p unfolding extends_def by (auto simp: only_locks_def same_frame_def with_entry_def)
qed

lemma step_extends:
  assumes "ledger_step s s'" "ledger_inv s"
  shows "extends s s'"
proof -
  have c: "core_inv s" using assms(2) by (simp add: ledger_inv_def)
  have q: "extends s s'" if "post inp s = Inr (je, s')" for inp je s'
    by (rule post_Inr[OF that c]) (rule posted_extends[OF _ c])
  from assms(1) show ?thesis
  proof cases
    case (step_capped t m ty opts r)
    from debitCapped_Inr[OF this c] show ?thesis
      using only_locks_extends posted_extends extends_trans by metis
  next
    case step_seed
    then show ?thesis
      using seed_locks[of SYSTEM_ACCOUNTS s] only_locks_extends by (simp add: seedSystemAccounts_def)
  next
    case (step_tick now)
    then show ?thesis by (simp add: extends_def)
  qed (auto simp: credit_def debit_def intro: q split: if_splits)
qed

lemma steps_extend:
  assumes "ledger_step\<^sup>*\<^sup>* s s'" "ledger_reachable s"
  shows "extends s s'"
  using assms
proof (induction rule: rtranclp_induct)
  case base
  then show ?case by (simp add: extends_refl)
next
  case (step t u)
  then have "ledger_inv t" using steps_keep reachable_inv by blast
  then show ?case using step step_extends extends_trans by blast
qed

lemma find_cong_set: "(\<And>x. x \<in> set xs \<Longrightarrow> P x = Q x) \<Longrightarrow> find P xs = find Q xs"
  by (induction xs) auto

lemma find_account_id_extends:
  assumes "extends s s'" "ledger_inv s" "ledger_inv s'" "i \<in> a_id ` set (accounts s)"
  shows "find_account_id i s' = find_account_id i s"
proof -
  obtain a where a: "a \<in> set (accounts s)" "i = a_id a" using assms(4) by auto
  have k: "keys_ok s" "keys_ok s'" using assms(2,3) by (simp_all add: ledger_inv_def core_inv_def)
  have "a \<in> set (accounts s')" using a assms(1) by (auto simp: extends_def)
  then show ?thesis using find_account_id_mem k a by metis
qed

lemma granted_amount_extends:
  assumes "extends s s'" "ledger_inv s" "ledger_inv s'" "i \<in> e_id ` set (journalEntries s)"
  shows "granted_amount i s' = granted_amount i s"
proof -
  obtain news where n: "journalLines s' = journalLines s @ news"
    "\<forall>l \<in> set news. l_entryId l \<notin> e_id ` set (journalEntries s)"
    using assms(1) by (auto simp: extends_def)
  let ?P = "\<lambda>s l. l_entryId l = i \<and> l_side l = Credit_Side \<and>
       (case find_account_id (l_accountId l) s of None \<Rightarrow> False | Some a \<Rightarrow> a_type a = Liability)"
  have new: "find (?P s') news = None" using n(2) assms(4) by (auto simp: find_None_iff)
  have "find (?P s') (journalLines s) = find (?P s) (journalLines s)"
  proof (rule find_cong_set)
    fix l assume "l \<in> set (journalLines s)"
    then have "l_accountId l \<in> a_id ` set (accounts s)"
      using assms(2) by (simp add: ledger_inv_def core_inv_def refs_ok_def)
    then show "?P s' l = ?P s l" using find_account_id_extends[OF assms(1-3)] by simp
  qed
  then show ?thesis using new n(1) by (auto simp: granted_amount_def find_append split: option.splits)
qed

section \<open>Signup: the bonus is granted once\<close>

lemma signup_grant_raw: "SIGNUP_GRANT = Credit 5000000000"
  using fromDollars_int[of 5] by (simp add: SIGNUP_GRANT_def SCALE_def)

lemma credit_records_reference:
  assumes "credit t amt ty opts s = Inr (je, s')" "core_inv s" "c_referenceId opts = Some r"
  shows "hasReferenceId r s'"
proof -
  have "post (credit_input t amt ty opts) s = Inr (je, s')"
    using assms(1) by (simp add: credit_def split: if_splits)
  then obtain rs s2 news where "posted (credit_input t amt ty opts) s rs s2 news s'"
    using post_Inr[OF _ assms(2)] by metis
  then have "journalEntries s' = journalEntries s @ [new_entry (credit_input t amt ty opts) s]"
    by (simp add: posted_def only_locks_def same_frame_def with_entry_def)
  then show ?thesis
    using assms(3) by (simp add: hasReferenceId_def new_entry_def credit_input_def)
qed

text \<open>The signup bonus is granted once: the first call for a tenant succeeds and adds exactly five
  dollars; every later call, whatever happened in between, returns false and changes nothing.\<close>

theorem signup_granted_once:
  assumes "ledger_reachable s" "\<not> hasReferenceId (signup_reference t) s"
    and "pg_bigint (stored_balance (tenant_code t) s + 5000000000)"
    and "pg_bigint (stored_balance ''5000'' s + 5000000000)"
  shows "\<exists>s'. grantSignupCredits t s = (Inr True, s')
    \<and> stored_balance (tenant_code t) s' = stored_balance (tenant_code t) s + 5000000000
    \<and> (\<forall>s''. ledger_step\<^sup>*\<^sup>* s' s'' \<longrightarrow> grantSignupCredits t s'' = (Inr False, s''))"
proof -
  have inv: "ledger_inv s" using reachable_inv[OF assms(1)] .
  then have c: "core_inv s" by (simp add: ledger_inv_def)
  have ref: "c_referenceId (signup_opts t) = Some (signup_reference t)" by (simp add: signup_opts_def)
  obtain s' je where s': "credit t SIGNUP_GRANT Signup_Grant (signup_opts t) s = Inr (je, s')"
    using credit_succeeds[OF inv, of SIGNUP_GRANT "signup_opts t" t Signup_Grant] assms(2-4) ref
    by (auto simp: signup_grant_raw pg_bigint_def)
  have "grantSignupCredits t s = (Inr True, s')"
    using assms(2) s' by (simp add: grantSignupCredits_def act_defs)
  moreover have "stored_balance (tenant_code t) s' = stored_balance (tenant_code t) s + 5000000000"
    using credit_effect[OF s' c, of "tenant_code t"] by (simp add: signup_grant_raw)
  moreover have "grantSignupCredits t s'' = (Inr False, s'')" if "ledger_step\<^sup>*\<^sup>* s' s''" for s''
  proof -
    have "ledger_reachable s'" using assms(1) s' by (blast intro: reach_step step_credit)
    then have "hasReferenceId (signup_reference t) s''"
      using steps_keep[OF that] hasReferenceId_prefix credit_records_reference[OF s' c ref] by blast
    then show ?thesis by (simp add: grantSignupCredits_def act_defs)
  qed
  ultimately show ?thesis by blast
qed

theorem signup_granted_once_witness:
  "\<exists>s'. grantSignupCredits ''a'' seeded = (Inr True, s')
    \<and> stored_balance (tenant_code ''a'') s' = stored_balance (tenant_code ''a'') seeded + 5000000000
    \<and> (\<forall>s''. ledger_step\<^sup>*\<^sup>* s' s'' \<longrightarrow> grantSignupCredits ''a'' s'' = (Inr False, s''))"
proof (rule signup_granted_once[OF seeded_reachable])
  show "\<not> hasReferenceId (signup_reference ''a'') seeded" by code_simp
  show "pg_bigint (stored_balance (tenant_code ''a'') seeded + 5000000000)" by code_simp
  show "pg_bigint (stored_balance ''5000'' seeded + 5000000000)" by code_simp
qed

section \<open>Expiry: what a sweep does\<close>

lemma expiry_step_moves: "ledger_step\<^sup>*\<^sup>* (fst x) (fst (expiry_step x g))"
  by (auto simp: expiry_step_def split: sum.splits option.splits prod.splits dest: step_capped)

interpretation expiry_loop: step_contract expiry_step "\<lambda>x. ledger_reachable (fst x)"
  "\<lambda>x y. ledger_step\<^sup>*\<^sup>* (fst x) (fst y)"
proof unfold_locales
  show "ledger_reachable (fst (expiry_step x g))" if "ledger_reachable (fst x)" for x g
    using steps_keep[OF expiry_step_moves that] by simp
qed (auto intro: rtranclp_trans expiry_step_moves)

text \<open>One grant: what is counted, which entries appear, when its reference is recorded.\<close>

lemma capped_new_entries:
  assumes "debitCapped t m ty opts s = Inr (r, s')" "core_inv s"
  shows "\<exists>news. journalEntries s' = journalEntries s @ news
    \<and> (\<forall>e \<in> set news. e_entryType e = debit_type_name ty)
    \<and> (r \<noteq> None \<and> d_referenceId opts = Some ref \<longrightarrow> hasReferenceId ref s')"
proof -
  from debitCapped_Inr[OF assms] obtain s1 where l: "only_locks s s1" and
    alt: "r = None \<and> s' = s1 \<or>
      (\<exists>d rs s2 news. posted (debit_input t d ty (free_opts opts)) s1 rs s2 news s')" by blast
  have e1: "journalEntries s1 = journalEntries s" using l by (simp add: only_locks_def)
  from alt show ?thesis
  proof (elim disjE exE conjE)
    assume "r = None" "s' = s1"
    then show ?thesis using e1 by (intro exI[of _ "[]"]) simp
  next
    fix d rs s2 news
    assume "posted (debit_input t d ty (free_opts opts)) s1 rs s2 news s'"
    then have "journalEntries s' = journalEntries s @ [new_entry (debit_input t d ty (free_opts opts)) s1]"
      using e1 by (simp add: posted_def only_locks_def same_frame_def with_entry_def)
    then show ?thesis
      by (intro exI[of _ "[new_entry (debit_input t d ty (free_opts opts)) s1]"])
         (auto simp: new_entry_def debit_input_def free_opts_def hasReferenceId_def)
  qed
qed

definition expiry_count :: "expiry_result \<Rightarrow> nat" where
  "expiry_count r = xr_processed r + length (xr_errors r) + xr_skippedZeroBalance r"

definition unsettled :: "expiry_result \<Rightarrow> nat" where
  "unsettled r = length (xr_errors r) + xr_skippedZeroBalance r"

lemma expiry_one:
  assumes "expiry_step (s, r) (i, t, a) = (s', r')" "ledger_reachable s"
  shows "expiry_count r' = Suc (expiry_count r)" "unsettled r \<le> unsettled r'"
    and "unsettled r' = unsettled r \<Longrightarrow> hasReferenceId (expiry_reference i) s'"
    and "\<exists>news. journalEntries s' = journalEntries s @ news
      \<and> (\<forall>e \<in> set news. e_entryType e = debit_type_name Credit_Expiry)"
proof -
  have c: "core_inv s" using reachable_inv[OF assms(2)] by (simp add: ledger_inv_def)
  let ?d = "debitCapped t a Credit_Expiry (expiry_opts i) s"
  have ref: "d_referenceId (expiry_opts i) = Some (expiry_reference i)" by (simp add: expiry_opts_def)
  show "expiry_count r' = Suc (expiry_count r)" "unsettled r \<le> unsettled r'"
    using assms(1) by (auto simp: expiry_step_def expiry_count_def unsettled_def
        split: sum.splits option.splits prod.splits)
  show "unsettled r' = unsettled r \<Longrightarrow> hasReferenceId (expiry_reference i) s'"
    using assms(1) capped_new_entries[of t a Credit_Expiry "expiry_opts i" s _ _ "expiry_reference i", OF _ c] ref
    by (auto simp: expiry_step_def unsettled_def split: sum.splits option.splits prod.splits)
  show "\<exists>news. journalEntries s' = journalEntries s @ news
      \<and> (\<forall>e \<in> set news. e_entryType e = debit_type_name Credit_Expiry)"
    using assms(1) capped_new_entries[of t a Credit_Expiry "expiry_opts i" s, OF _ c]
    by (auto simp: expiry_step_def split: sum.splits option.splits prod.splits) blast+
qed

lemma expiry_all:
  assumes "foldl expiry_step (s, r) gs = (s', r')" "ledger_reachable s"
  shows "ledger_step\<^sup>*\<^sup>* s s' \<and> expiry_count r' = expiry_count r + length gs \<and> unsettled r \<le> unsettled r'
    \<and> (unsettled r' = unsettled r \<longrightarrow> (\<forall>(i, t, a) \<in> set gs. hasReferenceId (expiry_reference i) s'))
    \<and> (\<exists>news. journalEntries s' = journalEntries s @ news
          \<and> (\<forall>e \<in> set news. e_entryType e = debit_type_name Credit_Expiry))"
  using assms
proof (induction gs arbitrary: s r)
  case Nil
  then show ?case by auto
next
  case (Cons g gs)
  obtain i t a where g: "g = (i, t, a)" by (metis prod_cases3)
  obtain s1 r1 where one: "expiry_step (s, r) (i, t, a) = (s1, r1)" by fastforce
  have mv: "ledger_step\<^sup>*\<^sup>* s s1" using expiry_step_moves[of "(s, r)" "(i, t, a)"] one by simp
  have reach: "ledger_reachable s1" using steps_keep[OF mv Cons.prems(2)] by simp
  note e1 = expiry_one[OF one Cons.prems(2)]
  have "foldl expiry_step (s1, r1) gs = (s', r')" using Cons.prems(1) one g by simp
  note ih = Cons.IH[OF this reach]
  have ref: "hasReferenceId q s1 \<Longrightarrow> hasReferenceId q s'" for q
    using ih steps_keep[OF _ reach] hasReferenceId_prefix by blast
  obtain n1 n2 where "journalEntries s1 = journalEntries s @ n1" "journalEntries s' = journalEntries s1 @ n2"
    "\<forall>e \<in> set n1. e_entryType e = debit_type_name Credit_Expiry"
    "\<forall>e \<in> set n2. e_entryType e = debit_type_name Credit_Expiry"
    using e1(4) ih by blast
  then have "\<exists>news. journalEntries s' = journalEntries s @ news
      \<and> (\<forall>e \<in> set news. e_entryType e = debit_type_name Credit_Expiry)"
    by (intro exI[of _ "n1 @ n2"]) auto
  moreover have "ledger_step\<^sup>*\<^sup>* s s'" using mv ih rtranclp_trans by metis
  moreover have "expiry_count r' = expiry_count r + length (g # gs)" "unsettled r \<le> unsettled r'"
    using ih e1(1,2) by auto
  moreover have "\<forall>(i, t, a) \<in> set (g # gs). hasReferenceId (expiry_reference i) s'"
    if "unsettled r' = unsettled r"
  proof -
    have "unsettled r1 = unsettled r" "unsettled r' = unsettled r1" using that ih e1(2) by auto
    then show ?thesis using ih e1(3) ref g by auto
  qed
  ultimately show ?case by blast
qed

lemma rmap_all_nil: "(\<And>x. x \<in> set xs \<Longrightarrow> f x = Inr []) \<Longrightarrow> rmap f xs = Inr (map (\<lambda>_. []) xs)"
  by (induction xs) auto

lemma rmap_Inr_at: "rmap f xs = Inr ys \<Longrightarrow> x \<in> set xs \<Longrightarrow> \<exists>y \<in> set ys. f x = Inr y"
  by (induction xs arbitrary: ys) (auto simp: rbind_Inr_iff)

definition no_expiry :: expiry_result where
  "no_expiry = \<lparr>xr_processed = 0, xr_expired = [], xr_errors = [], xr_skippedZeroBalance = 0\<rparr>"

lemma expired_after:
  assumes "ledger_reachable s" "ledger_reachable s'" "extends s s'"
    and "expiredCredits now s = Inr grants"
    and "journalEntries s' = journalEntries s @ news"
    and "\<forall>e \<in> set news. e_entryType e = debit_type_name Credit_Expiry"
    and "\<forall>(i, t, a) \<in> set grants. hasReferenceId (expiry_reference i) s'"
  shows "expiredCredits now s' = Inr []"
proof -
  let ?f = "\<lambda>s e. case granted_amount (e_id e) s of
          None \<Rightarrow> Inr []
        | Some amt \<Rightarrow>
            if amt = 0 then Inr []
            else if hasReferenceId (expiry_reference (e_id e)) s then Inr []
            else rbind (read_credit amt) (\<lambda>c. Inr [(e_id e, e_tenantId e, c)])"
  have cand: "expiry_candidates now s' = expiry_candidates now s"
    using assms(5,6) by (auto simp: expiry_candidates_def EXPIRABLE_CREDIT_TYPES_def)
  obtain xss where xss: "rmap (?f s) (expiry_candidates now s) = Inr xss" "grants = concat xss"
    using assms(4) by (auto simp: expiredCredits_def rbind_Inr_iff)
  have "?f s' e = Inr []" if e: "e \<in> set (expiry_candidates now s)" for e
  proof -
    have "e_id e \<in> e_id ` set (journalEntries s)" using e by (auto simp: expiry_candidates_def)
    then have g: "granted_amount (e_id e) s' = granted_amount (e_id e) s"
      using granted_amount_extends[OF assms(3)] reachable_inv assms(1,2) by blast
    obtain y where y: "y \<in> set xss" "?f s e = Inr y" using rmap_Inr_at[OF xss(1) e] by blast
    have old: "hasReferenceId q s \<Longrightarrow> hasReferenceId q s'" for q
      using assms(5) by (auto simp: hasReferenceId_def)
    have "hasReferenceId (expiry_reference (e_id e)) s'"
      if "granted_amount (e_id e) s = Some amt" "amt \<noteq> 0" for amt
    proof (cases "hasReferenceId (expiry_reference (e_id e)) s")
      case True
      then show ?thesis by (rule old)
    next
      case False
      with y(2) that obtain c where "y = [(e_id e, e_tenantId e, c)]"
        by (auto simp: rbind_Inr_iff)
      then have "(e_id e, e_tenantId e, c) \<in> set grants" using y(1) xss(2) by (auto intro!: bexI[of _ y])
      then show ?thesis using assms(7) by auto
    qed
    then show ?thesis by (auto simp: g split: option.splits)
  qed
  then have "rmap (?f s') (expiry_candidates now s') = Inr (map (\<lambda>_. []) (expiry_candidates now s))"
    unfolding cand by (rule rmap_all_nil)
  then show ?thesis by (simp add: expiredCredits_def)
qed

text \<open>An expiry sweep accounts for every grant it found exactly once (reclaimed, skipped at zero
  balance or reported as an error); when it skipped and failed none, a second sweep at the same
  time finds nothing to reclaim and leaves the ledger as it is.\<close>

theorem expiry_sweep_idempotent:
  assumes "ledger_reachable s" "expiredCredits now s = Inr grants" "runCreditExpiryCron now s = Inr (r, s')"
  shows "xr_processed r + length (xr_errors r) + xr_skippedZeroBalance r = length grants
    \<and> (xr_errors r = [] \<and> xr_skippedZeroBalance r = 0 \<longrightarrow> runCreditExpiryCron now s' = Inr (no_expiry, s'))"
proof -
  have run: "foldl expiry_step (s, no_expiry) grants = (s', r)"
    using assms(2,3) by (auto simp: runCreditExpiryCron_def no_expiry_def split: prod.splits)
  note a = expiry_all[OF run assms(1)]
  have zero: "expiry_count no_expiry = 0" "unsettled no_expiry = 0"
    by (simp_all add: expiry_count_def unsettled_def no_expiry_def)
  have "runCreditExpiryCron now s' = Inr (no_expiry, s')" if "xr_errors r = []" "xr_skippedZeroBalance r = 0"
  proof -
    have "unsettled r = 0" using that by (simp add: unsettled_def)
    moreover have "ledger_reachable s'" "extends s s'"
      using a steps_keep[OF _ assms(1)] steps_extend[OF _ assms(1)] by blast+
    ultimately have "expiredCredits now s' = Inr []"
      using expired_after[OF assms(1) _ _ assms(2)] a zero by auto
    then show ?thesis by (simp add: runCreditExpiryCron_def no_expiry_def)
  qed
  then show ?thesis using a zero by (simp add: expiry_count_def)
qed

definition granted :: db where
  "granted = snd (projr (credit ''a'' (Credit 500) Promo
     (no_credit_opts\<lparr>c_expiresAt := Some ''2026-01-02''\<rparr>) seeded))"

lemma granted_reachable: "ledger_reachable granted"
proof -
  let ?r = "credit ''a'' (Credit 500) Promo (no_credit_opts\<lparr>c_expiresAt := Some ''2026-01-02''\<rparr>) seeded"
  have "\<not> isl ?r" by code_simp
  then have "?r = Inr (fst (projr ?r), granted)" unfolding granted_def by (rule projr_reached)
  then show ?thesis using seeded_reachable by (blast intro: reach_step step_credit)
qed

theorem expiry_sweep_idempotent_witness:
  "\<exists>r s'. runCreditExpiryCron ''2026-02-01'' granted = Inr (r, s') \<and> xr_processed r = 1
     \<and> runCreditExpiryCron ''2026-02-01'' s' = Inr (no_expiry, s')"
proof -
  let ?g = "expiredCredits ''2026-02-01'' granted" and ?r = "runCreditExpiryCron ''2026-02-01'' granted"
  have "case ?g of Inl e \<Rightarrow> False | Inr gs \<Rightarrow> length gs = 1" by code_simp
  then obtain gs where gs: "?g = Inr gs" "length gs = 1" by (auto split: sum.splits)
  have "case ?r of Inl e \<Rightarrow> False
      | Inr (r, s') \<Rightarrow> xr_processed r = 1 \<and> xr_errors r = [] \<and> xr_skippedZeroBalance r = 0"
    by code_simp
  then obtain r s' where r: "?r = Inr (r, s')" "xr_processed r = 1" "xr_errors r = []"
    "xr_skippedZeroBalance r = 0"
    by (auto split: sum.splits)
  then show ?thesis using expiry_sweep_idempotent[OF granted_reachable gs(1) r(1)] by simp
qed

section \<open>The dividend stays within its pool\<close>

lemma dividend_step_moves: "ledger_step\<^sup>*\<^sup>* (fst x) (fst (dividend_step d day p x t))"
  by (auto simp: dividend_step_def split: sum.splits prod.splits dest: step_credit)

interpretation dividend_loop: step_contract "dividend_step d day p" "\<lambda>x. ledger_reachable (fst x)"
  "\<lambda>x y. ledger_step\<^sup>*\<^sup>* (fst x) (fst y)"
proof unfold_locales
  show "ledger_reachable (fst (dividend_step d day p x t))" if "ledger_reachable (fst x)" for x t
    using steps_keep[OF dividend_step_moves that] by simp
qed (auto intro: rtranclp_trans dividend_step_moves)

lemma dividend_one:
  assumes "dividend_step d day p (s, r) t = (s', r')" "ledger_reachable s"
  shows "stored_balance ''5060'' s' = stored_balance ''5060'' s + toRaw p * (int (dr_distributed r') - int (dr_distributed r))"
    and "dr_distributed r \<le> dr_distributed r'" "dr_distributed r' + length (dr_errors r') = Suc (dr_distributed r + length (dr_errors r))"
    and "toRaw p \<le> 0 \<Longrightarrow> dr_distributed r' = dr_distributed r"
    and "dr_distributed r < dr_distributed r' \<Longrightarrow> hasReferenceId (dividend_reference day t) s'"
    and "dr_pool r' = dr_pool r" "dr_perUser r' = dr_perUser r" "dr_activeCount r' = dr_activeCount r"
proof -
  have c: "core_inv s" using reachable_inv[OF assms(2)] by (simp add: ledger_inv_def)
  have code: "''5060'' = CREDIT_TYPE_ACCOUNT Community_Dividend" by simp
  show "stored_balance ''5060'' s' = stored_balance ''5060'' s + toRaw p * (int (dr_distributed r') - int (dr_distributed r))"
    using assms(1) credit_effect[of t p Community_Dividend "dividend_opts d day t" s _ _ "''5060''", OF _ c]
    by (auto simp: dividend_step_def split: sum.splits prod.splits)
  show "dr_distributed r < dr_distributed r' \<Longrightarrow> hasReferenceId (dividend_reference day t) s'"
    using assms(1) credit_records_reference[of t p Community_Dividend "dividend_opts d day t" s, OF _ c]
    by (auto simp: dividend_step_def dividend_opts_def split: sum.splits prod.splits)
  show "toRaw p \<le> 0 \<Longrightarrow> dr_distributed r' = dr_distributed r"
    using assms(1) by (auto simp: dividend_step_def credit_def credit_cmp split: sum.splits prod.splits if_splits)
qed (use assms(1) in \<open>auto simp: dividend_step_def split: sum.splits prod.splits\<close>)

lemma dividend_all:
  assumes "foldl (dividend_step d day p) (s, r) ts = (s', r')" "ledger_reachable s"
  shows "stored_balance ''5060'' s' = stored_balance ''5060'' s + toRaw p * (int (dr_distributed r') - int (dr_distributed r))
    \<and> dr_distributed r \<le> dr_distributed r'
    \<and> dr_distributed r' + length (dr_errors r') = length ts + dr_distributed r + length (dr_errors r)
    \<and> (toRaw p \<le> 0 \<longrightarrow> dr_distributed r' = dr_distributed r)
    \<and> (dr_distributed r < dr_distributed r' \<longrightarrow> (\<exists>t. hasReferenceId (dividend_reference day t) s'))
    \<and> dr_pool r' = dr_pool r \<and> dr_perUser r' = dr_perUser r \<and> dr_activeCount r' = dr_activeCount r
    \<and> ledger_step\<^sup>*\<^sup>* s s'"
  using assms
proof (induction ts arbitrary: s r)
  case Nil
  then show ?case by simp
next
  case (Cons t ts)
  obtain s1 r1 where one: "dividend_step d day p (s, r) t = (s1, r1)" by fastforce
  have mv: "ledger_step\<^sup>*\<^sup>* s s1" using dividend_step_moves[of "(s, r)" d day p t] one by simp
  have reach: "ledger_reachable s1" using steps_keep[OF mv Cons.prems(2)] by simp
  note o = dividend_one[OF one Cons.prems(2)]
  have "foldl (dividend_step d day p) (s1, r1) ts = (s', r')" using Cons.prems(1) one by simp
  note ih = Cons.IH[OF this reach]
  have mv2: "ledger_step\<^sup>*\<^sup>* s s'" using mv ih rtranclp_trans by metis
  have "\<exists>t. hasReferenceId (dividend_reference day t) s'" if "dr_distributed r < dr_distributed r'"
  proof (cases "dr_distributed r < dr_distributed r1")
    case True
    then show ?thesis using o(5) ih steps_keep[OF _ reach] hasReferenceId_prefix by blast
  next
    case False
    then show ?thesis using that ih by simp
  qed
  then show ?case using o ih mv2 by (auto simp: algebra_simps)
qed

lemma multiply_safe: "multiply c f = Inr d \<Longrightarrow> safe d"
  by (auto simp: multiply_def Let_def safe_def split: if_splits)

lemma per_user_share:
  assumes "safe pool" "0 < n" "int n \<le> 2 ^ 53"
    and "fromRaw (of_int (js_floor (js_div (of_int (toRaw pool)) (of_nat n)))) = Inr p"
  shows "toRaw p = toRaw pool div int n"
  using assms floor_quotient[of "toRaw pool" "int n"]
  by (auto simp: fromRaw_int js_floor_def js_div_def safe_def split: if_splits)

lemma share_bound:
  fixes p pool n k :: int
  assumes "p = pool div n" "0 < n" "0 \<le> k" "k \<le> n" "p \<le> 0 \<longrightarrow> k = 0"
  shows "p * k \<le> max 0 pool"
proof (cases "p \<le> 0")
  case True
  then show ?thesis using assms(5) by simp
next
  case False
  then have "p * k \<le> p * n" using assms(4) by (simp add: mult_left_mono)
  also have "\<dots> \<le> pool" using assms(1,2) by (simp add: mult.commute minus_mod_eq_mult_div [symmetric])
  finally show ?thesis by simp
qed

text \<open>The run that reaches the loop, unfolded once for both properties.\<close>

lemma distribute_run:
  assumes "distribute_dividend descr day pool active s = Inr (r, s')"
  shows "(dr_distributed r = 0 \<and> s' = s) \<or>
    (0 < length active
      \<and> (\<exists>p. fromRaw (of_int (js_floor (js_div (of_int (toRaw pool)) (of_nat (length active))))) = Inr p
      \<and> foldl (dividend_step (descr pool (length active)) day p) (s, dividend_start\<lparr>dr_pool := pool,
           dr_activeCount := length active, dr_perUser := p\<rparr>) active = (s', r)))"
  using assms
  by (auto simp: distribute_dividend_def dividend_start_def Let_def split: if_splits sum.splits prod.splits)

lemma dividend_run:
  assumes "runDividendCron ts minus6 descr rate day s = Inr (r, s')"
  shows "(dr_distributed r = 0 \<and> s' = s) \<or>
    (\<exists>pool p active. safe pool \<and> 0 < length active
      \<and> fromRaw (of_int (js_floor (js_div (of_int (toRaw pool)) (of_nat (length active))))) = Inr p
      \<and> foldl (dividend_step (descr pool (length active)) day p) (s, dividend_start\<lparr>dr_pool := pool,
           dr_activeCount := length active, dr_perUser := p\<rparr>) active = (s', r))"
proof (cases "existsByReferenceIdLike (dividend_reference day ''%'') s")
  case True
  then show ?thesis using assms by (auto simp: runDividendCron_def dividend_start_def)
next
  case False
  with assms obtain tot where b: "(case multiply tot rate of Inl e \<Rightarrow> Inl (Credit_Error e)
      | Inr pool \<Rightarrow> distribute_dividend descr day pool (getActiveTenantIdsInWindow ts
          (minus6 day @ '' 00:00:00'') (day @ '' 24:00:00'') s) s) = Inr (r, s')"
    unfolding runDividendCron_def Let_def rbind_Inr_iff by (auto simp only: if_False rbind_Inr_iff)
  then obtain pool where m: "multiply tot rate = Inr pool"
    by (cases "multiply tot rate") simp_all
  note d = b[unfolded m sum.case]
  show ?thesis using distribute_run[OF d] multiply_safe[OF m] by blast
qed

text \<open>C8: A dividend run pays at most its pool: the shares paid out, booked on the dividend expense
  account, are the per-user share times the number of tenants credited, and with at most
  \<open>2 ^ 53\<close> active tenants never exceed the pool (the quotient rounded to a double and floored is
  the exact integer quotient).\<close>

theorem dividend_within_pool:
  assumes "ledger_reachable s" "runDividendCron ts minus6 descr rate day s = Inr (r, s')"
    and "int (dr_activeCount r) \<le> 2 ^ 53"
  shows "stored_balance ''5060'' s'
      = stored_balance ''5060'' s + toRaw (dr_perUser r) * int (dr_distributed r)
    \<and> toRaw (dr_perUser r) * int (dr_distributed r) \<le> max 0 (toRaw (dr_pool r))"
  using dividend_run[OF assms(2)]
proof (elim disjE exE conjE)
  fix pool p and active :: "string list"
  assume h: "safe pool" "0 < length active"
    "fromRaw (of_int (js_floor (js_div (of_int (toRaw pool)) (of_nat (length active))))) = Inr p"
    "foldl (dividend_step (descr pool (length active)) day p) (s, dividend_start\<lparr>dr_pool := pool,
           dr_activeCount := length active, dr_perUser := p\<rparr>) active = (s', r)"
  note d = dividend_all[OF h(4) assms(1), unfolded dividend_start_def, simplified]
  have "toRaw p = toRaw pool div int (length active)"
    using per_user_share[OF h(1,2) _ h(3)] assms(3) d by simp
  then have "toRaw p * int (dr_distributed r) \<le> max 0 (toRaw pool)"
    by (rule share_bound) (use d h(2) in auto)
  then show ?thesis using d by simp
qed simp

definition demo_ts :: "string \<Rightarrow> int" where
  "demo_ts t = (if t = ''2026-01-01 24:00:00'' then 2 else if t = ''2026-01-01'' then 1 else 0)"

theorem dividend_within_pool_witness:
  "\<exists>r s'. runDividendCron demo_ts (\<lambda>d. d) (\<lambda>_ _. []) 1 ''2026-01-01'' funded = Inr (r, s')
    \<and> dr_distributed r = 1
    \<and> toRaw (dr_perUser r) * int (dr_distributed r) \<le> max 0 (toRaw (dr_pool r))"
proof -
  let ?r = "runDividendCron demo_ts (\<lambda>d. d) (\<lambda>_ _. []) 1 ''2026-01-01'' funded"
  have "case ?r of Inl e \<Rightarrow> False | Inr (r, s') \<Rightarrow> dr_activeCount r = 1 \<and> dr_distributed r = 1"
    by code_simp
  then obtain r s' where r: "?r = Inr (r, s')" "dr_activeCount r = 1" "dr_distributed r = 1"
    by (auto split: sum.splits)
  then show ?thesis using dividend_within_pool[OF funded_reachable r(1)] by auto
qed

lemma like_percent: "like ps s \<Longrightarrow> like (CHR ''%'' # ps) s"
  by (subst like.simps) simp

lemma like_percent_skip: "like (CHR ''%'' # ps) s \<Longrightarrow> like (CHR ''%'' # ps) (c # s)"
  by (subst like.simps) simp

lemma like_all: "like ''%'' t"
proof (induction t)
  case Nil
  then show ?case by (simp add: like_percent)
next
  case (Cons c t)
  then show ?case by (rule like_percent_skip)
qed

lemma like_char: "c \<noteq> CHR 0x5C \<Longrightarrow> c \<noteq> CHR ''%'' \<Longrightarrow> like ps s \<Longrightarrow> like (c # ps) (c # s)"
  by (subst like.simps) simp

lemma like_prefix: "CHR 0x5C \<notin> set p \<Longrightarrow> like (p @ ''%'') (p @ t)"
proof (induction p)
  case Nil
  then show ?case by (simp only: append_Nil like_all)
next
  case (Cons c p)
  then have ih: "like (p @ ''%'') (p @ t)" and c: "c \<noteq> CHR 0x5C" by auto
  show ?case
  proof (cases "c = CHR ''%''")
    case True
    then show ?thesis using like_percent_skip[OF like_percent[OF ih], of c] by (simp only: append_Cons)
  next
    case False
    then show ?thesis unfolding append_Cons by (rule like_char[OF c _ ih])
  qed
qed

text \<open>A date is distributed once: after a run that credited at least one tenant, every later run for
  the same date (the date has no backslash) reports itself as already run and pays nothing.\<close>

theorem dividend_once:
  assumes "ledger_reachable s" "runDividendCron ts minus6 descr rate day s = Inr (r, s')"
    and "0 < dr_distributed r" "ledger_step\<^sup>*\<^sup>* s' s''" "CHR 0x5C \<notin> set day"
  shows "runDividendCron ts minus6 descr rate day s''
    = Inr (dividend_start\<lparr>dr_skippedAlreadyRun := True\<rparr>, s'')"
proof -
  obtain pool p active where h: "foldl (dividend_step (descr pool (length active)) day p)
      (s, dividend_start\<lparr>dr_pool := pool, dr_activeCount := length active, dr_perUser := p\<rparr>) active = (s', r)"
    using dividend_run[OF assms(2)] assms(3) by auto
  note d = dividend_all[OF h assms(1), unfolded dividend_start_def, simplified]
  obtain t where t: "hasReferenceId (dividend_reference day t) s'" using d assms(3) by blast
  have "ledger_reachable s'" using d steps_keep[OF _ assms(1)] by blast
  then have "hasReferenceId (dividend_reference day t) s''"
    using t steps_keep[OF assms(4)] hasReferenceId_prefix by blast
  moreover have "like (dividend_reference day ''%'') (dividend_reference day t)"
    using like_prefix[of "''dividend:'' @ day @ '':''" t] assms(5) by (simp add: dividend_reference_def)
  ultimately have "existsByReferenceIdLike (dividend_reference day ''%'') s''"
    unfolding existsByReferenceIdLike_def hasReferenceId_def set_map image_iff
    by (metis option.case(2))
  then show ?thesis by (simp add: runDividendCron_def)
qed

theorem dividend_once_witness:
  "\<exists>r s'. runDividendCron demo_ts (\<lambda>d. d) (\<lambda>_ _. []) 1 ''2026-01-01'' funded = Inr (r, s')
    \<and> runDividendCron demo_ts (\<lambda>d. d) (\<lambda>_ _. []) 1 ''2026-01-01'' s'
      = Inr (dividend_start\<lparr>dr_skippedAlreadyRun := True\<rparr>, s')"
proof -
  let ?r = "runDividendCron demo_ts (\<lambda>d. d) (\<lambda>_ _. []) 1 ''2026-01-01'' funded"
  have "case ?r of Inl e \<Rightarrow> False | Inr (r, s') \<Rightarrow> dr_distributed r = 1" by code_simp
  then obtain r s' where r: "?r = Inr (r, s')" "0 < dr_distributed r" by (auto split: sum.splits)
  then show ?thesis
    using dividend_once[OF funded_reachable r rtranclp.rtrancl_refl] by simp
qed

text \<open>
  A grant found at zero balance is skipped without a trace, so it stays a candidate: in this run
  a promo of 500 is spent, its expiry is skipped, and the next sweep takes the 300 the tenant
  has bought in the meantime.
\<close>

definition spent_then_bought :: "db \<Rightarrow> ledger_error + int \<times> int" where
  "spent_then_bought s =
     rbind (debit ''a'' (Credit 500) Bot_Runtime no_debit_opts s) (\<lambda>(_, s1).
     rbind (runCreditExpiryCron ''2026-02-01'' s1) (\<lambda>(_, s2).
     rbind (credit ''a'' (Credit 300) Purchase no_credit_opts s2) (\<lambda>(_, s3).
     rbind (runCreditExpiryCron ''2026-02-02'' s3) (\<lambda>(_, s4).
     Inr (stored_balance (tenant_code ''a'') s3, stored_balance (tenant_code ''a'') s4)))))"

lemma skipped_grant_takes_purchase: "spent_then_bought granted = Inr (300, 0)"
  by code_simp

end
