(* ===== verification/RuntimeBilling.thy ===== *)
theory RuntimeBilling
  imports CreditClients
begin

text \<open>
  The daily runtime deduction of \<open>src/monetization/credits/runtime-cron.ts\<close>: every tenant with a
  positive balance pays for its bots, then its resource, storage and add-on surcharges, each under
  a reference of its own; what cannot be paid in full is taken in part and the tenant suspended.
  The state of a run is the ledger, the result object and the callbacks invoked so far, because
  what a tenant's body did before it threw stays. The counts and costs the configuration looks up
  are functions of the tenant; the callbacks are recorded, their own effects are the caller's.
\<close>

section \<open>Daily cost\<close>

definition leap_year :: "nat \<Rightarrow> bool" where
  "leap_year y \<longleftrightarrow> (4 dvd y \<and> \<not> 100 dvd y) \<or> 400 dvd y"

text \<open>\<open>new Date(year, month + 1, 0).getDate()\<close>, months counted from 1.\<close>

definition days_in_month :: "nat \<Rightarrow> nat \<Rightarrow> nat" where
  "days_in_month y m = (if m = 2 then (if leap_year y then 29 else 28)
     else if m \<in> {4, 6, 9, 11} then 30 else 31)"

definition MONTHLY_BOT_COST_DOLLARS :: int where
  "MONTHLY_BOT_COST_DOLLARS = 5"

definition month_cost :: "nat \<Rightarrow> credit" where
  "month_cost days = fromDollars (js_div (of_int MONTHLY_BOT_COST_DOLLARS) (of_nat days))"

text \<open>The date is \<open>YYYY-MM-DD\<close>, read in the time zone it was written in.\<close>

definition dailyBotCost :: "string \<Rightarrow> credit" where
  "dailyBotCost date =
     month_cost (days_in_month (decimal_value (take 4 date)) (decimal_value (take 2 (drop 5 date))))"

definition LOW_BALANCE_THRESHOLD :: credit where
  "LOW_BALANCE_THRESHOLD = fromCents 100"

section \<open>Configuration, result, state\<close>

record runtime_cfg =
  rc_date :: string
  rc_activeBots :: "string \<Rightarrow> int"
  rc_tierCosts :: "(string \<Rightarrow> credit) option"
  rc_storageCosts :: "(string \<Rightarrow> credit) option"
  rc_addonCosts :: "(string \<Rightarrow> credit) option"

datatype callback = On_Suspend string | On_Low_Balance string credit | On_Credits_Exhausted string

record runtime_state =
  rt_db :: db
  rt_processed :: nat
  rt_suspended :: "string list"
  rt_errors :: "(string \<times> ledger_error) list"
  rt_skipped :: "string list"
  rt_calls :: "callback list"

type_synonym 'a rt = "(runtime_state, ledger_error, 'a) act"

definition runtime_ref :: "string \<Rightarrow> string \<Rightarrow> string \<Rightarrow> string" where
  "runtime_ref kind date tenantId = kind @ '':'' @ date @ '':'' @ tenantId"

definition on_db :: "(db \<Rightarrow> ledger_error + 'a \<times> db) \<Rightarrow> 'a rt" where
  "on_db tx = atomically (\<lambda>s. rbind (tx (rt_db s)) (\<lambda>(a, d). Inr (a, s\<lparr>rt_db := d\<rparr>)))"

definition charge :: "string \<Rightarrow> credit \<Rightarrow> debit_type \<Rightarrow> string \<Rightarrow> string \<Rightarrow> unit rt" where
  "charge tenantId amt type ref description =
     abind (on_db (debit tenantId amt type (no_debit_opts\<lparr>d_description := Some description,
              d_referenceId := Some ref\<rparr>))) (\<lambda>_. areturn ())"

definition seen_ref :: "string \<Rightarrow> bool rt" where
  "seen_ref ref = aquery (\<lambda>s. Inr (hasReferenceId ref (rt_db s)))"

definition current_balance :: "string \<Rightarrow> credit rt" where
  "current_balance tenantId = aquery (\<lambda>s. balance tenantId (rt_db s))"

definition call :: "callback \<Rightarrow> unit rt" where
  "call c = amodify (\<lambda>s. s\<lparr>rt_calls := rt_calls s @ [c]\<rparr>)"

definition push_skipped :: "string \<Rightarrow> unit rt" where
  "push_skipped t = amodify (\<lambda>s. s\<lparr>rt_skipped := rt_skipped s @ [t]\<rparr>)"

definition suspend :: "string \<Rightarrow> unit rt" where
  "suspend t = amodify (\<lambda>s. s\<lparr>rt_suspended := rt_suspended s @ [t], rt_calls := rt_calls s @ [On_Suspend t]\<rparr>)"

definition suspend_once :: "string \<Rightarrow> unit rt" where
  "suspend_once t s = (if t \<in> set (rt_suspended s) then areturn () s else suspend t s)"

section \<open>One tenant\<close>

definition bill_runtime :: "runtime_cfg \<Rightarrow> string \<Rightarrow> credit \<Rightarrow> credit \<Rightarrow> unit rt" where
  "bill_runtime cfg tenantId bal totalCost =
     (let ref = runtime_ref ''runtime'' (rc_date cfg) tenantId in
      if \<not> lessThan bal totalCost then charge tenantId totalCost Bot_Runtime ref ''Daily runtime''
      else abind (awhen (greaterThan bal ZERO)
                    (charge tenantId bal Bot_Runtime ref ''Partial daily runtime''))
             (\<lambda>_. suspend_once tenantId))"

text \<open>Resource tiers: in part when the balance is short, no suspension of their own.\<close>

definition bill_tier :: "runtime_cfg \<Rightarrow> string \<Rightarrow> bool rt" where
  "bill_tier cfg tenantId =
     (case rc_tierCosts cfg of
        None \<Rightarrow> areturn False
      | Some cost \<Rightarrow>
          let ref = runtime_ref ''runtime-tier'' (rc_date cfg) tenantId; tierCost = cost tenantId in
          abind (seen_ref ref) (\<lambda>seen.
          if seen \<or> isZero tierCost then areturn False
          else abind (current_balance tenantId) (\<lambda>b.
            abind (if \<not> lessThan b tierCost
                   then charge tenantId tierCost Resource_Upgrade ref ''Daily resource tier surcharge''
                   else awhen (greaterThan b ZERO)
                     (charge tenantId b Resource_Upgrade ref ''Partial resource tier surcharge''))
              (\<lambda>_. areturn True))))"

text \<open>Storage tiers and add-ons: in part and a suspension.\<close>

definition bill_extra ::
  "(string \<Rightarrow> credit) option \<Rightarrow> string \<Rightarrow> debit_type \<Rightarrow> string \<Rightarrow> string \<Rightarrow> bool rt" where
  "bill_extra costs kind type date tenantId =
     (case costs of
        None \<Rightarrow> areturn False
      | Some cost \<Rightarrow>
          let ref = runtime_ref kind date tenantId; extra = cost tenantId in
          abind (seen_ref ref) (\<lambda>seen.
          if seen \<or> isZero extra then areturn False
          else abind (current_balance tenantId) (\<lambda>b.
            abind (if \<not> lessThan b extra then charge tenantId extra type ref ''Daily surcharge''
                   else abind (awhen (greaterThan b ZERO)
                                 (charge tenantId b type ref ''Partial surcharge''))
                          (\<lambda>_. suspend_once tenantId))
              (\<lambda>_. areturn True))))"

text \<open>The callbacks fired on the balance after runtime and tier charges.\<close>

definition notify :: "string \<Rightarrow> credit \<Rightarrow> credit \<Rightarrow> unit rt" where
  "notify tenantId bal newBalance =
     abind (awhen (greaterThan newBalance ZERO \<and> \<not> greaterThan newBalance LOW_BALANCE_THRESHOLD
                   \<and> greaterThan bal LOW_BALANCE_THRESHOLD)
              (call (On_Low_Balance tenantId newBalance))) (\<lambda>_.
     abind (awhen (\<not> greaterThan newBalance ZERO \<and> greaterThan bal ZERO)
              (call (On_Credits_Exhausted tenantId))) (\<lambda>_.
     awhen (\<not> greaterThan newBalance ZERO \<and> greaterThan bal ZERO) (suspend_once tenantId)))"

definition runtime_body :: "runtime_cfg \<Rightarrow> string \<Rightarrow> credit \<Rightarrow> unit rt" where
  "runtime_body cfg tenantId bal =
     abind (seen_ref (runtime_ref ''runtime'' (rc_date cfg) tenantId)) (\<lambda>billed.
     if rc_activeBots cfg tenantId \<le> 0 then awhen billed (push_skipped tenantId)
     else
       abind (aquery (\<lambda>s. case multiply (dailyBotCost (rc_date cfg)) (of_int (rc_activeBots cfg tenantId)) of
                Inl e \<Rightarrow> Inl (Credit_Error e) | Inr c \<Rightarrow> Inr c)) (\<lambda>totalCost.
       abind (awhen (\<not> billed) (bill_runtime cfg tenantId bal totalCost)) (\<lambda>_.
       abind (bill_tier cfg tenantId) (\<lambda>d2.
       abind (current_balance tenantId) (\<lambda>newBalance.
       abind (notify tenantId bal newBalance) (\<lambda>_.
       abind (bill_extra (rc_storageCosts cfg) ''runtime-storage'' Storage_Upgrade (rc_date cfg) tenantId) (\<lambda>d3.
       abind (bill_extra (rc_addonCosts cfg) ''runtime-addon'' Addon (rc_date cfg) tenantId) (\<lambda>d4.
       if \<not> billed \<or> d2 \<or> d3 \<or> d4 then amodify (\<lambda>s. s\<lparr>rt_processed := Suc (rt_processed s)\<rparr>)
       else push_skipped tenantId))))))))"

text \<open>The catch block.\<close>

definition runtime_handler :: "string \<Rightarrow> ledger_error \<Rightarrow> (runtime_state, ledger_error, unit) act" where
  "runtime_handler tenantId e =
     (case e of
        Insufficient_Balance _ _ \<Rightarrow>
          abind (suspend tenantId) (\<lambda>_. amodify (\<lambda>s. s\<lparr>rt_processed := Suc (rt_processed s)\<rparr>))
      | _ \<Rightarrow> if isUniqueConstraintViolation e then push_skipped tenantId
             else amodify (\<lambda>s. s\<lparr>rt_errors := rt_errors s @ [(tenantId, e)]\<rparr>))"

definition runtime_step :: "runtime_cfg \<Rightarrow> runtime_state \<Rightarrow> string \<times> credit \<Rightarrow> runtime_state" where
  "runtime_step cfg s = (\<lambda>(tenantId, bal).
     snd (acatch (runtime_body cfg tenantId bal) (runtime_handler tenantId) s))"

definition runRuntimeDeductions :: "runtime_cfg \<Rightarrow> db \<Rightarrow> ledger_error + runtime_state" where
  "runRuntimeDeductions cfg d =
     rbind (tenantsWithBalance d) (\<lambda>tenants.
       Inr (foldl (runtime_step cfg)
         \<lparr>rt_db = d, rt_processed = 0, rt_suspended = [], rt_errors = [], rt_skipped = [], rt_calls = []\<rparr>
         tenants))"

section \<open>Every charge is a checked debit\<close>

definition rt_rel :: "runtime_state \<Rightarrow> runtime_state \<Rightarrow> bool" where
  "rt_rel s s' \<longleftrightarrow> rt_db s' = rt_db s \<or> checked_step (rt_db s) (rt_db s')"

lemma rt_rel_db: "rt_rel\<^sup>*\<^sup>* s s' \<Longrightarrow> checked_step\<^sup>*\<^sup>* (rt_db s) (rt_db s')"
  by (induction rule: rtranclp_induct) (auto simp: rt_rel_def)

lemma moves_charge [moves_intros]: "moves rt_rel (charge t a ty ref d)"
proof -
  have "moves rt_rel (on_db (debit t a ty (no_debit_opts\<lparr>d_description := Some d, d_referenceId := Some ref\<rparr>)))"
    unfolding on_db_def
  proof (rule moves_atomically)
    fix s s' :: runtime_state and x
    assume "rbind (debit t a ty (no_debit_opts\<lparr>d_description := Some d, d_referenceId := Some ref\<rparr>) (rt_db s))
      (\<lambda>(a, d). Inr (a, s\<lparr>rt_db := d\<rparr>)) = Inr (x, s')"
    then obtain db where "debit t a ty (no_debit_opts\<lparr>d_description := Some d, d_referenceId := Some ref\<rparr>) (rt_db s)
      = Inr (x, db)" "s' = s\<lparr>rt_db := db\<rparr>" by (auto simp: rbind_Inr_iff)
    then have "rt_rel s s'" by (auto simp: rt_rel_def no_debit_opts_def intro: checked_debit)
    then show "rt_rel\<^sup>*\<^sup>* s s'" by blast
  qed
  then show ?thesis unfolding charge_def by (intro moves_intros)
qed

lemma moves_same_db: "(\<And>s. rt_db (f s) = rt_db s) \<Longrightarrow> moves rt_rel (amodify f)"
  by (rule moves_modify) (auto simp: rt_rel_def)

lemma moves_bookkeeping [moves_intros]:
  "moves rt_rel (call c)" "moves rt_rel (push_skipped t)" "moves rt_rel (suspend t)"
  unfolding call_def push_skipped_def suspend_def by (rule moves_same_db; simp)+

lemma moves_suspend_once [moves_intros]: "moves rt_rel (suspend_once t)"
  using moves_bookkeeping(3)[of t] by (auto simp: moves_def suspend_once_def areturn_def)

lemma moves_seen [moves_intros]: "moves rt_rel (seen_ref r)" "moves rt_rel (current_balance t)"
  unfolding seen_ref_def current_balance_def by (rule moves_query)+

lemma moves_body: "moves rt_rel (runtime_body cfg t b)"
  unfolding runtime_body_def bill_runtime_def bill_tier_def bill_extra_def notify_def Let_def
  by (intro moves_intros moves_same_db) (auto split: option.split intro!: moves_intros moves_same_db)

lemma moves_handler: "moves rt_rel (runtime_handler t e)"
  unfolding runtime_handler_def by (auto split: ledger_error.split intro!: moves_intros moves_same_db)

lemma runtime_step_moves: "rt_rel\<^sup>*\<^sup>* s (runtime_step cfg s x)"
  using moves_catch[OF moves_body moves_handler] by (auto simp: moves_def runtime_step_def split: prod.split)

interpretation runtime_loop: step_contract "runtime_step cfg" "\<lambda>x. ledger_reachable (rt_db x)" "rt_rel\<^sup>*\<^sup>*"
proof unfold_locales
  show "ledger_reachable (rt_db (runtime_step cfg s x))" if "ledger_reachable (rt_db s)" for s x
    using checked_steps_reachable[OF rt_rel_db[OF runtime_step_moves] that] .
qed (auto intro: rtranclp_trans runtime_step_moves)

lemma runtime_run_moves:
  assumes "runRuntimeDeductions cfg d = Inr r" "ledger_reachable d"
  shows "checked_step\<^sup>*\<^sup>* d (rt_db r)"
proof -
  obtain ts where "r = foldl (runtime_step cfg) \<lparr>rt_db = d, rt_processed = 0, rt_suspended = [],
      rt_errors = [], rt_skipped = [], rt_calls = []\<rparr> ts"
    using assms(1) by (auto simp: runRuntimeDeductions_def rbind_Inr_iff)
  then show ?thesis
    using rt_rel_db[OF runtime_loop.loop_le[of "\<lparr>rt_db = d, rt_processed = 0, rt_suspended = [],
      rt_errors = [], rt_skipped = [], rt_calls = []\<rparr>" cfg ts]] assms(2) by simp
qed

text \<open>C9: A daily run never overdraws anybody: from a reachable ledger in which no tenant is in debt it
  leads to a reachable ledger in which no tenant is in debt, whatever counts and costs the
  configuration returns and whatever fails on the way.\<close>

theorem runtime_never_overdraws:
  assumes "ledger_reachable d" "\<forall>t. 0 \<le> stored_balance (tenant_code t) d"
    and "runRuntimeDeductions cfg d = Inr r"
  shows "ledger_reachable (rt_db r) \<and> (\<forall>t. 0 \<le> stored_balance (tenant_code t) (rt_db r))"
  using runtime_run_moves[OF assms(3,1)] checked_steps_reachable checked_steps_nonneg assms(1,2) by blast

definition demo_cfg :: runtime_cfg where
  "demo_cfg = \<lparr>rc_date = ''2026-01-05'', rc_activeBots = (\<lambda>_. 1), rc_tierCosts = None,
     rc_storageCosts = None, rc_addonCosts = None\<rparr>"

theorem runtime_never_overdraws_witness:
  "\<exists>r. runRuntimeDeductions demo_cfg funded = Inr r
     \<and> (\<forall>t. 0 \<le> stored_balance (tenant_code t) (rt_db r))"
proof -
  have "\<not> isl (runRuntimeDeductions demo_cfg funded)" by code_simp
  then obtain r where r: "runRuntimeDeductions demo_cfg funded = Inr r"
    by (cases "runRuntimeDeductions demo_cfg funded") auto
  then show ?thesis using runtime_never_overdraws[OF funded_reachable funded_nonneg r] by blast
qed

section \<open>What one tenant pays\<close>

lemma pg_bigint_add:
  "\<bar>x\<bar> < 2 ^ 62 \<Longrightarrow> \<bar>y\<bar> \<le> a \<Longrightarrow> a < 2 ^ 53 \<Longrightarrow> pg_bigint (x + y)"
  unfolding pg_bigint_def abs_less_iff abs_le_iff by simp

lemma charge_ok:
  assumes "ledger_reachable (rt_db s)" "0 < toRaw a" "toRaw a \<le> stored_balance (tenant_code t) (rt_db s)"
    and "stored_balance (tenant_code t) (rt_db s) \<le> max_safe_integer"
    and "\<not> hasReferenceId ref (rt_db s)"
    and "\<bar>stored_balance (DEBIT_TYPE_ACCOUNT ty) (rt_db s)\<bar> < 2 ^ 62"
  shows "\<exists>d'. charge t a ty ref descr s = (Inr (), s\<lparr>rt_db := d'\<rparr>) \<and> ledger_reachable d'
    \<and> stored_balance (tenant_code t) d' = stored_balance (tenant_code t) (rt_db s) - toRaw a"
proof -
  let ?o = "no_debit_opts\<lparr>d_description := Some descr, d_referenceId := Some ref\<rparr>"
  have safe: "toRaw a < 2 ^ 53" using assms(3,4) by (simp add: max_safe_integer_def)
  have "\<bar>debit_effect t ty (toRaw a) (DEBIT_TYPE_ACCOUNT ty)\<bar> \<le> toRaw a"
    using assms(2) by (auto simp: debit_effect_def signed_def)
  then have "pg_bigint (stored_balance (DEBIT_TYPE_ACCOUNT ty) (rt_db s)
      + debit_effect t ty (toRaw a) (DEBIT_TYPE_ACCOUNT ty))"
    by (rule pg_bigint_add[OF assms(6) _ safe])
  moreover have "pg_bigint (toRaw a)" using assms(2) safe by (simp add: pg_bigint_def)
  moreover have "\<bar>stored_balance (tenant_code t) (rt_db s)\<bar> \<le> max_safe_integer" using assms(2-4) by simp
  ultimately obtain je d' where "debit t a ty ?o (rt_db s) = Inr (je, d')" "ledger_reachable d'"
    "\<forall>c. stored_balance c d' = stored_balance c (rt_db s) + debit_effect t ty (toRaw a) c"
    using debit_pays[of "rt_db s" a ?o t ty] assms(1-3,5) by (auto simp: no_debit_opts_def)
  then show ?thesis
    by (intro exI[of _ d']) (simp add: charge_def on_db_def act_defs debit_effect_def)
qed

lemma multiply_int:
  "\<bar>toRaw c * n\<bar> \<le> max_safe_integer \<Longrightarrow> multiply c (of_int n) = Inr (Credit (toRaw c * n))"
  using js_mul_int[of "toRaw c" n] js_round_int[of "toRaw c * n"]
  by (simp add: multiply_def Let_def is_safe_integer_def max_safe_integer_def)

text \<open>A body without surcharges, from the state its runtime charge leaves.\<close>

lemma body_tail:
  assumes "rc_tierCosts cfg = None" "rc_storageCosts cfg = None" "rc_addonCosts cfg = None"
    and "rc_activeBots cfg t > 0" "\<not> hasReferenceId (runtime_ref ''runtime'' (rc_date cfg) t) (rt_db s)"
    and "multiply (dailyBotCost (rc_date cfg)) (of_int (rc_activeBots cfg t)) = Inr cost"
    and "bill_runtime cfg t bal cost s = (Inr (), s1)" "balance t (rt_db s1) = Inr nb"
  shows "acatch (runtime_body cfg t bal) (runtime_handler t) s
    = (case notify t bal nb s1 of (r, s2) \<Rightarrow> (Inr (), s2\<lparr>rt_processed := Suc (rt_processed s2)\<rparr>))"
  using assms
  by (simp add: runtime_body_def seen_ref_def current_balance_def bill_tier_def bill_extra_def act_defs
      notify_def call_def suspend_once_def suspend_def split: if_splits)

lemma notify_effect:
  assumes "notify t bal nb s = (r, s')" "0 < toRaw bal"
  shows "rt_db s' = rt_db s \<and> rt_processed s' = rt_processed s
    \<and> (t \<in> set (rt_suspended s') \<longleftrightarrow> t \<in> set (rt_suspended s) \<or> toRaw nb \<le> 0)"
  using assms
  by (auto simp: notify_def act_defs call_def suspend_once_def suspend_def credit_cmp split: if_splits)

text \<open>What a tenant pays for its bots: with no surcharges configured and the day not yet billed, one
  pass takes exactly the smaller of the balance and bots times the daily cost, counts the tenant
  as processed, and suspends it precisely when the cost uses the balance up.\<close>

theorem runtime_charges_min:
  assumes "ledger_reachable (rt_db s)" "rc_tierCosts cfg = None" "rc_storageCosts cfg = None"
    and "rc_addonCosts cfg = None" "rc_activeBots cfg t > 0"
    and "\<not> hasReferenceId (runtime_ref ''runtime'' (rc_date cfg) t) (rt_db s)"
    and "cost = toRaw (dailyBotCost (rc_date cfg)) * rc_activeBots cfg t" "0 < cost" "cost \<le> max_safe_integer"
    and "bal = stored_balance (tenant_code t) (rt_db s)" "0 < bal" "bal \<le> max_safe_integer"
    and "\<bar>stored_balance ''4000'' (rt_db s)\<bar> < 2 ^ 62" "t \<notin> set (rt_suspended s)"
  defines "s' \<equiv> runtime_step cfg s (t, Credit bal)"
  shows "stored_balance (tenant_code t) (rt_db s') = bal - min bal cost
    \<and> (t \<in> set (rt_suspended s') \<longleftrightarrow> bal \<le> cost) \<and> rt_processed s' = Suc (rt_processed s)"
proof -
  let ?ref = "runtime_ref ''runtime'' (rc_date cfg) t"
  have mul: "multiply (dailyBotCost (rc_date cfg)) (of_int (rc_activeBots cfg t)) = Inr (Credit cost)"
    using multiply_int[of "dailyBotCost (rc_date cfg)" "rc_activeBots cfg t"] assms(7-9) by simp
  define paid where "paid = min bal cost"
  have paid: "0 < paid" "paid \<le> bal" using assms(8,11) by (auto simp: paid_def)
  have 4: "DEBIT_TYPE_ACCOUNT Bot_Runtime = ''4000''" by simp
  have "\<exists>d'. charge t (Credit paid) Bot_Runtime ?ref descr s = (Inr (), s\<lparr>rt_db := d'\<rparr>) \<and> ledger_reachable d'
      \<and> stored_balance (tenant_code t) d' = bal - paid" for descr
    using charge_ok[OF assms(1), of "Credit paid" t ?ref Bot_Runtime descr, unfolded 4]
      paid assms(6,10,12,13) by simp
  then obtain s1 where s1: "bill_runtime cfg t (Credit bal) (Credit cost) s = (Inr (), s1)"
    "stored_balance (tenant_code t) (rt_db s1) = bal - paid" "rt_processed s1 = rt_processed s"
    "t \<in> set (rt_suspended s1) \<longleftrightarrow> bal < cost"
  proof (cases "bal < cost")
    case True
    then have p: "paid = bal" by (simp add: paid_def)
    obtain d' where "charge t (Credit bal) Bot_Runtime ?ref ''Partial daily runtime'' s = (Inr (), s\<lparr>rt_db := d'\<rparr>)"
      "stored_balance (tenant_code t) d' = bal - paid"
      using \<open>\<And>descr. \<exists>d'. charge t (Credit paid) Bot_Runtime ?ref descr s = (Inr (), s\<lparr>rt_db := d'\<rparr>)
        \<and> ledger_reachable d' \<and> stored_balance (tenant_code t) d' = bal - paid\<close> p by blast
    then show ?thesis
      using that[of "s\<lparr>rt_db := d', rt_suspended := rt_suspended s @ [t], rt_calls := rt_calls s @ [On_Suspend t]\<rparr>"]
        True assms(11,14)
      by (simp add: bill_runtime_def Let_def credit_cmp act_defs suspend_once_def suspend_def)
  next
    case False
    then have p: "paid = cost" by (simp add: paid_def)
    obtain d' where "charge t (Credit cost) Bot_Runtime ?ref ''Daily runtime'' s = (Inr (), s\<lparr>rt_db := d'\<rparr>)"
      "stored_balance (tenant_code t) d' = bal - paid"
      using \<open>\<And>descr. \<exists>d'. charge t (Credit paid) Bot_Runtime ?ref descr s = (Inr (), s\<lparr>rt_db := d'\<rparr>)
        \<and> ledger_reachable d' \<and> stored_balance (tenant_code t) d' = bal - paid\<close> p by blast
    then show ?thesis
      using that[of "s\<lparr>rt_db := d'\<rparr>"] False assms(14) by (simp add: bill_runtime_def Let_def credit_cmp)
  qed
  have nb: "balance t (rt_db s1) = Inr (Credit (bal - paid))"
    using s1(2) paid assms(12) by (simp add: balance_def read_credit_eq)
  obtain r s2 where n: "notify t (Credit bal) (Credit (bal - paid)) s1 = (r, s2)" by fastforce
  have "s' = s2\<lparr>rt_processed := Suc (rt_processed s2)\<rparr>"
    using body_tail[OF assms(2-6) mul s1(1) nb] n by (simp add: s'_def runtime_step_def)
  then show ?thesis
    using notify_effect[OF n] s1 assms(11) by (auto simp: paid_def)
qed

definition demo_run :: runtime_state where
  "demo_run = \<lparr>rt_db = funded, rt_processed = 0, rt_suspended = [], rt_errors = [], rt_skipped = [],
     rt_calls = []\<rparr>"

theorem runtime_charges_min_witness:
  "stored_balance (tenant_code ''a'') (rt_db (runtime_step demo_cfg demo_run (''a'', Credit 500))) = 0
   \<and> ''a'' \<in> set (rt_suspended (runtime_step demo_cfg demo_run (''a'', Credit 500)))"
proof -
  have "dailyBotCost ''2026-01-05'' = Credit 161290323" by code_simp
  moreover have "\<not> hasReferenceId (runtime_ref ''runtime'' (rc_date demo_cfg) ''a'') (rt_db demo_run)"
    by code_simp
  ultimately show ?thesis
    using runtime_charges_min[where s = demo_run and cfg = demo_cfg and t = "''a''" and bal = 500
        and cost = 161290323] funded_reachable
    by (simp add: demo_run_def demo_cfg_def funded_balances max_safe_integer_def)
qed

section \<open>Proration\<close>

lemma month_cost_values:
  "month_cost 28 = Credit 178571429" "month_cost 29 = Credit 172413793"
  "month_cost 30 = Credit 166666667" "month_cost 31 = Credit 161290323"
  by code_simp+

text \<open>The prorated daily cost is within half a raw unit of the exact share of five dollars, so a
  full month of days sums to five dollars up to at most 13 raw units (nano-dollars); no month
  sums to five dollars exactly.\<close>

theorem monthly_total:
  "\<bar>int (days_in_month y m) * toRaw (month_cost (days_in_month y m)) - 5 * SCALE\<bar> \<le> 13
   \<and> int (days_in_month y m) * toRaw (month_cost (days_in_month y m)) \<noteq> 5 * SCALE"
  by (auto simp: days_in_month_def month_cost_values SCALE_def)

end
