(* ===== verification/AutoTopup.thy ===== *)
theory AutoTopup
  imports LedgerSafety
begin

text \<open>
  Automatic top-ups (\<open>src/credits/auto-topup-settings-repository.ts\<close>, \<open>auto-topup-charge.ts\<close>,
  \<open>auto-topup-usage.ts\<close>, \<open>auto-topup-schedule.ts\<close>). The settings table is a map from tenants to
  rows in cents; the ledger is that of theory Ledger; Stripe and the customer table are
  parameters that answer each call. Timestamps are milliseconds since the epoch where the code
  only compares and adds (the ISO strings order alike), and calendar dates where it uses the
  calendar.
\<close>

section \<open>The next scheduled date\<close>

definition is_leap :: "nat \<Rightarrow> bool" where
  "is_leap y \<longleftrightarrow> (4 dvd y \<and> \<not> 100 dvd y) \<or> 400 dvd y"

text \<open>Months are counted from 0 as the \<open>Date\<close> object does.\<close>

definition month_length :: "nat \<Rightarrow> nat \<Rightarrow> nat" where
  "month_length y m = (if m = 1 then (if is_leap y then 29 else 28)
     else if m \<in> {3, 5, 8, 10} then 30 else 31)"

lemma month_length_bounds: "28 \<le> month_length y m" "month_length y m \<le> 31"
  by (simp_all add: month_length_def)

text \<open>Setting a field past its range carries over into the next months.\<close>

function carry :: "nat \<Rightarrow> nat \<Rightarrow> nat \<Rightarrow> nat \<times> nat \<times> nat" where
  "carry y m d =
     (if d \<le> month_length y m then (y, m, d)
      else if m = 11 then carry (Suc y) 0 (d - month_length y m)
      else carry y (Suc m) (d - month_length y m))"
  by auto
termination
proof (relation "measure (\<lambda>(y, m, d). d)")
  fix y m d :: nat
  assume "\<not> d \<le> month_length y m"
  then have "d - month_length y m < d" using month_length_bounds(1)[of y m] by linarith
  then show "((Suc y, 0, d - month_length y m), (y, m, d)) \<in> measure (\<lambda>(y, m, d). d)"
    "((y, Suc m, d - month_length y m), (y, m, d)) \<in> measure (\<lambda>(y, m, d). d)" by simp_all
qed simp

declare carry.simps [simp del]

datatype interval = Daily | Weekly | Monthly

definition setUTCMonth_next :: "nat \<times> nat \<times> nat \<Rightarrow> nat \<times> nat \<times> nat" where
  "setUTCMonth_next = (\<lambda>(y, m, d). if m = 11 then carry (Suc y) 0 d else carry y (Suc m) d)"

text \<open>The result is a midnight, so the date is all of it.\<close>

definition computeNextScheduleAt :: "interval option \<Rightarrow> nat \<times> nat \<times> nat \<Rightarrow> (nat \<times> nat \<times> nat) option" where
  "computeNextScheduleAt iv now =
     (case iv of
        None \<Rightarrow> None
      | Some Daily \<Rightarrow> (case now of (y, m, d) \<Rightarrow> Some (carry y m (d + 1)))
      | Some Weekly \<Rightarrow> (case now of (y, m, d) \<Rightarrow> Some (carry y m (d + 7)))
      | Some Monthly \<Rightarrow> (case setUTCMonth_next now of (y, m, d) \<Rightarrow> Some (y, m, 1)))"

section \<open>Settings repository\<close>

record settings_row =
  s_usageEnabled :: bool
  s_usageThresholdCents :: int
  s_usageTopupCents :: int
  s_usageConsecutiveFailures :: int
  s_usageChargeInFlight :: bool
  s_scheduleEnabled :: bool
  s_scheduleAmountCents :: int
  s_scheduleIntervalHours :: int
  s_scheduleNextAt :: "int option"
  s_scheduleConsecutiveFailures :: int

text \<open>The column defaults of \<open>src/db/schema/credit-auto-topup-settings.ts\<close>.\<close>

definition default_settings :: settings_row where
  "default_settings = \<lparr>s_usageEnabled = False, s_usageThresholdCents = 100, s_usageTopupCents = 500,
     s_usageConsecutiveFailures = 0, s_usageChargeInFlight = False, s_scheduleEnabled = False,
     s_scheduleAmountCents = 500, s_scheduleIntervalHours = 168, s_scheduleNextAt = None,
     s_scheduleConsecutiveFailures = 0\<rparr>"

record settings =
  usageEnabled :: bool
  usageThreshold :: credit
  usageTopup :: credit
  usageConsecutiveFailures :: int
  usageChargeInFlight :: bool
  scheduleEnabled :: bool
  scheduleAmount :: credit
  scheduleIntervalHours :: int
  scheduleNextAt :: "int option"
  scheduleConsecutiveFailures :: int

definition mapRow :: "settings_row \<Rightarrow> settings" where
  "mapRow r = \<lparr>usageEnabled = s_usageEnabled r, usageThreshold = fromCents (of_int (s_usageThresholdCents r)),
     usageTopup = fromCents (of_int (s_usageTopupCents r)),
     usageConsecutiveFailures = s_usageConsecutiveFailures r,
     usageChargeInFlight = s_usageChargeInFlight r, scheduleEnabled = s_scheduleEnabled r,
     scheduleAmount = fromCents (of_int (s_scheduleAmountCents r)),
     scheduleIntervalHours = s_scheduleIntervalHours r, scheduleNextAt = s_scheduleNextAt r,
     scheduleConsecutiveFailures = s_scheduleConsecutiveFailures r\<rparr>"

text \<open>The table: rows keyed by tenant, in insertion order.\<close>

type_synonym settings_table = "(string \<times> settings_row) list"

definition getByTenant :: "string \<Rightarrow> settings_table \<Rightarrow> settings option" where
  "getByTenant t tab = map_option mapRow (map_of tab t)"

text \<open>\<open>UPDATE ... SET ... WHERE tenant_id = t\<close>.\<close>

definition update_row :: "string \<Rightarrow> (settings_row \<Rightarrow> settings_row) \<Rightarrow> settings_table \<Rightarrow> settings_table" where
  "update_row t f tab = map (\<lambda>(k, r). (k, if k = t then f r else r)) tab"

record settings_patch =
  p_usageEnabled :: "bool option"
  p_usageThreshold :: "credit option"
  p_usageTopup :: "credit option"
  p_scheduleEnabled :: "bool option"
  p_scheduleAmount :: "credit option"
  p_scheduleIntervalHours :: "int option"
  p_scheduleNextAt :: "int option option"

definition apply_patch :: "settings_patch \<Rightarrow> settings_row \<Rightarrow> settings_row" where
  "apply_patch p r = \<lparr>
     s_usageEnabled = (case p_usageEnabled p of None \<Rightarrow> s_usageEnabled r | Some b \<Rightarrow> b),
     s_usageThresholdCents = (case p_usageThreshold p of None \<Rightarrow> s_usageThresholdCents r
        | Some c \<Rightarrow> toCentsRounded c),
     s_usageTopupCents = (case p_usageTopup p of None \<Rightarrow> s_usageTopupCents r | Some c \<Rightarrow> toCentsRounded c),
     s_usageConsecutiveFailures = s_usageConsecutiveFailures r,
     s_usageChargeInFlight = s_usageChargeInFlight r,
     s_scheduleEnabled = (case p_scheduleEnabled p of None \<Rightarrow> s_scheduleEnabled r | Some b \<Rightarrow> b),
     s_scheduleAmountCents = (case p_scheduleAmount p of None \<Rightarrow> s_scheduleAmountCents r
        | Some c \<Rightarrow> toCentsRounded c),
     s_scheduleIntervalHours = (case p_scheduleIntervalHours p of None \<Rightarrow> s_scheduleIntervalHours r
        | Some h \<Rightarrow> h),
     s_scheduleNextAt = (case p_scheduleNextAt p of None \<Rightarrow> s_scheduleNextAt r | Some n \<Rightarrow> n),
     s_scheduleConsecutiveFailures = s_scheduleConsecutiveFailures r\<rparr>"

definition upsert :: "string \<Rightarrow> settings_patch \<Rightarrow> settings_table \<Rightarrow> settings_table" where
  "upsert t p tab =
     (case map_of tab t of
        None \<Rightarrow> tab @ [(t, apply_patch p default_settings)]
      | Some _ \<Rightarrow> update_row t (apply_patch p) tab)"

definition setUsageChargeInFlight :: "string \<Rightarrow> bool \<Rightarrow> settings_table \<Rightarrow> settings_table" where
  "setUsageChargeInFlight t b = update_row t (\<lambda>r. r\<lparr>s_usageChargeInFlight := b\<rparr>)"

text \<open>The compare-and-swap: update where the flag is false, succeed when a row was updated.\<close>

definition tryAcquireUsageInFlight :: "string \<Rightarrow> settings_table \<Rightarrow> bool \<times> settings_table" where
  "tryAcquireUsageInFlight t tab =
     (case map_of tab t of
        None \<Rightarrow> (False, tab)
      | Some r \<Rightarrow> if s_usageChargeInFlight r then (False, tab)
          else (True, update_row t (\<lambda>r. r\<lparr>s_usageChargeInFlight := True\<rparr>) tab))"

definition incrementUsageFailures :: "string \<Rightarrow> settings_table \<Rightarrow> int \<times> settings_table" where
  "incrementUsageFailures t tab =
     (let tab' = update_row t (\<lambda>r. r\<lparr>s_usageConsecutiveFailures := s_usageConsecutiveFailures r + 1\<rparr>) tab
      in (case getByTenant t tab' of None \<Rightarrow> 0 | Some r \<Rightarrow> usageConsecutiveFailures r, tab'))"

definition resetUsageFailures :: "string \<Rightarrow> settings_table \<Rightarrow> settings_table" where
  "resetUsageFailures t = update_row t (\<lambda>r. r\<lparr>s_usageConsecutiveFailures := 0\<rparr>)"

definition disableUsage :: "string \<Rightarrow> settings_table \<Rightarrow> settings_table" where
  "disableUsage t = update_row t (\<lambda>r. r\<lparr>s_usageEnabled := False\<rparr>)"

definition incrementScheduleFailures :: "string \<Rightarrow> settings_table \<Rightarrow> int \<times> settings_table" where
  "incrementScheduleFailures t tab =
     (let tab' = update_row t (\<lambda>r. r\<lparr>s_scheduleConsecutiveFailures := s_scheduleConsecutiveFailures r + 1\<rparr>) tab
      in (case getByTenant t tab' of None \<Rightarrow> 0 | Some r \<Rightarrow> scheduleConsecutiveFailures r, tab'))"

definition resetScheduleFailures :: "string \<Rightarrow> settings_table \<Rightarrow> settings_table" where
  "resetScheduleFailures t = update_row t (\<lambda>r. r\<lparr>s_scheduleConsecutiveFailures := 0\<rparr>)"

definition disableSchedule :: "string \<Rightarrow> settings_table \<Rightarrow> settings_table" where
  "disableSchedule t = update_row t (\<lambda>r. r\<lparr>s_scheduleEnabled := False\<rparr>)"

definition advanceScheduleNextAt :: "string \<Rightarrow> settings_table \<Rightarrow> settings_table" where
  "advanceScheduleNextAt t tab =
     (case getByTenant t tab of
        None \<Rightarrow> tab
      | Some st \<Rightarrow> (case scheduleNextAt st of
           None \<Rightarrow> tab
         | Some n \<Rightarrow> update_row t (\<lambda>r. r\<lparr>s_scheduleNextAt := Some (n + scheduleIntervalHours st * 3600000)\<rparr>) tab))"

definition listDueScheduled :: "int \<Rightarrow> settings_table \<Rightarrow> (string \<times> settings) list" where
  "listDueScheduled now tab =
     map (\<lambda>(t, r). (t, mapRow r)) (filter (\<lambda>(t, r). s_scheduleEnabled r
        \<and> (case s_scheduleNextAt r of None \<Rightarrow> False | Some n \<Rightarrow> n \<le> now)) tab)"

definition getMaxConsecutiveFailures :: "settings_table \<Rightarrow> int" where
  "getMaxConsecutiveFailures tab =
     (let mx = (\<lambda>f. foldl (\<lambda>m x. max m (f (snd x))) 0 tab)
      in max (mx s_usageConsecutiveFailures) (mx s_scheduleConsecutiveFailures))"

section \<open>The charge\<close>

definition MAX_CONSECUTIVE_FAILURES :: int where
  "MAX_CONSECUTIVE_FAILURES = 3"

datatype stripe_failure = Stripe_Card_Error | Stripe_Api_Error | Stripe_Unexpected

text \<open>
  Stripe and the customer table: the customer of a tenant, the payment methods of a customer,
  the outcome (id and status) of the n-th payment intent created.
\<close>

record stripe =
  sv_customer :: "string \<Rightarrow> string option"
  sv_methods :: "string \<Rightarrow> stripe_failure + string list"
  sv_intent :: "nat \<Rightarrow> string \<Rightarrow> string \<Rightarrow> int \<Rightarrow> stripe_failure + string \<times> string"

datatype charge_failure =
    No_Customer
  | No_Payment_Method
  | List_Failed stripe_failure
  | Charge_Failed stripe_failure
  | Not_Succeeded string
  | Grant_Failed ledger_error

record topup_event =
  ev_tenantId :: string
  ev_amountCents :: int
  ev_failure :: "charge_failure option"
  ev_paymentReference :: "string option"

record charge_result =
  cr_success :: bool
  cr_paymentReference :: "string option"
  cr_error :: "charge_failure option"

datatype topup_error = Stripe_Rethrown | Credit_Grant_Failed string ledger_error | Topup_Ledger ledger_error

text \<open>\<open>tu_charged\<close> records what Stripe collected: tenant and cents of each succeeded intent.\<close>

record topup =
  tu_db :: db
  tu_settings :: settings_table
  tu_events :: "topup_event list"
  tu_intents :: nat
  tu_charged :: "(string \<times> int) list"

type_synonym 'a tu = "(topup, topup_error, 'a) act"

definition writeEvent :: "string \<Rightarrow> int \<Rightarrow> charge_failure option \<Rightarrow> string option \<Rightarrow> unit tu" where
  "writeEvent t cents failure ref = amodify (\<lambda>s. s\<lparr>tu_events := tu_events s @
     [\<lparr>ev_tenantId = t, ev_amountCents = cents, ev_failure = failure, ev_paymentReference = ref\<rparr>]\<rparr>)"

definition failed :: "string \<Rightarrow> int \<Rightarrow> charge_failure \<Rightarrow> string option \<Rightarrow> charge_result tu" where
  "failed t cents failure ref = abind (writeEvent t cents (Some failure) ref)
     (\<lambda>_. areturn \<lparr>cr_success = False, cr_paymentReference = ref, cr_error = Some failure\<rparr>)"

definition create_intent :: "stripe \<Rightarrow> string \<Rightarrow> string \<Rightarrow> string \<Rightarrow> int \<Rightarrow> (stripe_failure + string \<times> string) tu" where
  "create_intent sv t customer pm cents s =
     (let r = sv_intent sv (tu_intents s) customer pm cents in
      (Inr r, s\<lparr>tu_intents := Suc (tu_intents s),
         tu_charged := (case r of Inr (i, status) \<Rightarrow> if status = ''succeeded''
              then tu_charged s @ [(t, cents)] else tu_charged s | Inl _ \<Rightarrow> tu_charged s)\<rparr>))"

definition topup_opts :: "string \<Rightarrow> string \<Rightarrow> credit_opts" where
  "topup_opts source ref = no_credit_opts\<lparr>c_description := Some (''Auto-topup ('' @ source @ '')''),
     c_referenceId := Some ref, c_fundingSource := Some ''stripe''\<rparr>"

text \<open>Step 5: credit the ledger unless the intent's reference is already there.\<close>

definition grant :: "string \<Rightarrow> credit \<Rightarrow> string \<Rightarrow> string \<Rightarrow> (topup, ledger_error, unit) act" where
  "grant t amt source intent s =
     (if hasReferenceId intent (tu_db s) then (Inr (), s)
      else case credit t amt Purchase (topup_opts source intent) (tu_db s) of
        Inl e \<Rightarrow> (Inl e, s)
      | Inr (je, d) \<Rightarrow> (Inr (), s\<lparr>tu_db := d\<rparr>))"

definition chargeAutoTopup :: "stripe \<Rightarrow> string \<Rightarrow> credit \<Rightarrow> string \<Rightarrow> charge_result tu" where
  "chargeAutoTopup sv t amt source =
     (let cents = toCentsFloor amt in
      case sv_customer sv t of
        None \<Rightarrow> failed t cents No_Customer None
      | Some customer \<Rightarrow>
          (case sv_methods sv customer of
             Inl e \<Rightarrow> failed t cents (List_Failed e) None
           | Inr [] \<Rightarrow> failed t cents No_Payment_Method None
           | Inr (pm # _) \<Rightarrow>
               abind (create_intent sv t customer pm cents) (\<lambda>r.
               case r of
                 Inl Stripe_Unexpected \<Rightarrow> athrow Stripe_Rethrown
               | Inl e \<Rightarrow> failed t cents (Charge_Failed e) None
               | Inr (intent, status) \<Rightarrow>
                   if status \<noteq> ''succeeded'' then failed t cents (Not_Succeeded status) (Some intent)
                   else
                     abind (acatch (grant t amt source intent)
                              (\<lambda>e. abind (writeEvent t cents (Some (Grant_Failed e)) (Some intent))
                                 (\<lambda>_. athrow (Credit_Grant_Failed intent e)))) (\<lambda>_.
                     abind (writeEvent t cents None (Some intent)) (\<lambda>_.
                     areturn \<lparr>cr_success = True, cr_paymentReference = Some intent, cr_error = None\<rparr>)))))"

section \<open>The usage trigger\<close>

definition on_settings :: "(settings_table \<Rightarrow> settings_table) \<Rightarrow> (topup, 'e, unit) act" where
  "on_settings f = amodify (\<lambda>s. s\<lparr>tu_settings := f (tu_settings s)\<rparr>)"

text \<open>Count a failure and disable the mode at the limit; the same in both branches of the code.\<close>

definition usage_failure :: "string \<Rightarrow> (topup, 'e, unit) act" where
  "usage_failure t s =
     (let (n, tab) = incrementUsageFailures t (tu_settings s) in
      (Inr (), s\<lparr>tu_settings := (if n \<ge> MAX_CONSECUTIVE_FAILURES then disableUsage t tab else tab)\<rparr>))"

definition usage_charge :: "stripe \<Rightarrow> string \<Rightarrow> credit \<Rightarrow> unit tu" where
  "usage_charge sv t amt =
     acatch (abind (chargeAutoTopup sv t amt ''auto_topup_usage'')
               (\<lambda>r. if cr_success r then on_settings (resetUsageFailures t) else usage_failure t))
            (\<lambda>e. usage_failure t)"

definition maybeTriggerUsageTopup :: "stripe \<Rightarrow> (string \<Rightarrow> bool) option \<Rightarrow> string \<Rightarrow> unit tu" where
  "maybeTriggerUsageTopup sv blocked t s =
     (case getByTenant t (tu_settings s) of
        None \<Rightarrow> areturn () s
      | Some st \<Rightarrow>
          if \<not> usageEnabled st then areturn () s
          else if (case blocked of None \<Rightarrow> False | Some b \<Rightarrow> b t) then areturn () s
          else case balance t (tu_db s) of
            Inl e \<Rightarrow> athrow (Topup_Ledger e) s
          | Inr b \<Rightarrow>
              if \<not> lessThan b (usageThreshold st) then areturn () s
              else
                (let (acquired, tab) = tryAcquireUsageInFlight t (tu_settings s) in
                 if \<not> acquired then areturn () s
                 else abind (usage_charge sv t (usageTopup st))
                        (\<lambda>_. on_settings (setUsageChargeInFlight t False))
                        (s\<lparr>tu_settings := tab\<rparr>)))"

section \<open>The schedule\<close>

record schedule_result =
  sr_processed :: nat
  sr_succeeded :: "string list"
  sr_failed :: "string list"
  sr_errors :: "(string \<times> topup_error) list"

definition schedule_failure :: "string \<Rightarrow> topup \<Rightarrow> topup" where
  "schedule_failure t s =
     (let (n, tab) = incrementScheduleFailures t (tu_settings s) in
      s\<lparr>tu_settings := (if n \<ge> MAX_CONSECUTIVE_FAILURES then disableSchedule t tab else tab)\<rparr>)"

definition advance :: "string \<Rightarrow> topup \<Rightarrow> topup" where
  "advance t s = s\<lparr>tu_settings := advanceScheduleNextAt t (tu_settings s)\<rparr>"

definition schedule_step ::
  "stripe \<Rightarrow> (string \<Rightarrow> bool) option \<Rightarrow> topup \<times> schedule_result \<Rightarrow> string \<times> settings
   \<Rightarrow> topup \<times> schedule_result" where
  "schedule_step sv blocked = (\<lambda>(s, r) (t, st).
     let r = r\<lparr>sr_processed := Suc (sr_processed r)\<rparr> in
     if (case blocked of None \<Rightarrow> False | Some b \<Rightarrow> b t)
     then (advance t s, r\<lparr>sr_failed := sr_failed r @ [t]\<rparr>)
     else case chargeAutoTopup sv t (scheduleAmount st) ''auto_topup_schedule'' s of
       (Inr c, s1) \<Rightarrow>
         if cr_success c
         then ((advance t s1)\<lparr>tu_settings := resetScheduleFailures t (tu_settings (advance t s1))\<rparr>,
               r\<lparr>sr_succeeded := sr_succeeded r @ [t]\<rparr>)
         else (schedule_failure t (advance t s1), r\<lparr>sr_failed := sr_failed r @ [t]\<rparr>)
     | (Inl e, s1) \<Rightarrow>
         (schedule_failure t (advance t s1),
          r\<lparr>sr_errors := sr_errors r @ [(t, e)], sr_failed := sr_failed r @ [t]\<rparr>))"

definition runScheduledTopups ::
  "stripe \<Rightarrow> (string \<Rightarrow> bool) option \<Rightarrow> int \<Rightarrow> topup \<Rightarrow> topup \<times> schedule_result" where
  "runScheduledTopups sv blocked now s =
     foldl (schedule_step sv blocked)
       (s, \<lparr>sr_processed = 0, sr_succeeded = [], sr_failed = [], sr_errors = []\<rparr>)
       (listDueScheduled now (tu_settings s))"

section \<open>Updating rows\<close>

lemma map_of_update_row [simp]:
  "map_of (update_row t f tab) k = (if k = t then map_option f (map_of tab k) else map_of tab k)"
  by (induction tab) (auto simp: update_row_def)

lemma map_of_upsert:
  "map_of (upsert t p tab) k = (if k = t then Some (apply_patch p (case map_of tab t of
      None \<Rightarrow> default_settings | Some r \<Rightarrow> r)) else map_of tab k)"
  by (auto simp: upsert_def map_add_def split: option.splits)

lemma getByTenant_Some: "getByTenant t tab = Some st \<longleftrightarrow> (\<exists>r. map_of tab t = Some r \<and> st = mapRow r)"
  by (auto simp: getByTenant_def)

text \<open>Settings survive the round trip through the cents columns: amounts that are whole cents (in
  the range where the conversion is exact) are read back as they were written, other tenants'
  settings are untouched, and neither the in-flight flag nor the failure counters change.\<close>

theorem settings_roundtrip:
  assumes "\<bar>a\<bar> \<le> 900719925" "\<bar>b\<bar> \<le> 900719925" "\<bar>c\<bar> \<le> 900719925"
    and "p = \<lparr>p_usageEnabled = Some ue, p_usageThreshold = Some (fromCents (of_int a)),
      p_usageTopup = Some (fromCents (of_int b)), p_scheduleEnabled = Some se,
      p_scheduleAmount = Some (fromCents (of_int c)), p_scheduleIntervalHours = Some h, p_scheduleNextAt = Some n\<rparr>"
  shows "\<exists>st. getByTenant t (upsert t p tab) = Some st \<and> usageEnabled st = ue
      \<and> usageThreshold st = fromCents (of_int a) \<and> usageTopup st = fromCents (of_int b)
      \<and> scheduleEnabled st = se \<and> scheduleAmount st = fromCents (of_int c)
      \<and> scheduleIntervalHours st = h \<and> scheduleNextAt st = n
      \<and> (\<forall>old. getByTenant t tab = Some old \<longrightarrow> usageChargeInFlight st = usageChargeInFlight old
           \<and> usageConsecutiveFailures st = usageConsecutiveFailures old)
      \<and> (\<forall>u. u \<noteq> t \<longrightarrow> getByTenant u (upsert t p tab) = getByTenant u tab)"
proof -
  have rt: "toCentsRounded (fromCents (of_int x)) = x" if "\<bar>x\<bar> \<le> 900719925" for x
  proof -
    have "safe (Credit (x * 10000000))" using that by (simp add: safe_simps abs_mult)
    then have "toCentsRounded (Credit (x * 10000000)) = (2 * (x * 10000000) + 10000000) div 20000000"
      by (simp add: toCentsRounded_exact)
    also have "\<dots> = x" by simp
    finally show ?thesis using that by (simp add: fromCents_int)
  qed
  show ?thesis
    using assms rt
    by (auto simp: getByTenant_def map_of_upsert apply_patch_def mapRow_def default_settings_def
        split: option.splits)
qed

section \<open>The in-flight flag excludes concurrent charges\<close>

text \<open>
  Any number of triggers for one tenant, interleaved with every other operation of the table:
  the state is the table and the number of triggers between the swap and the \<open>finally\<close>.
\<close>

inductive trigger_step :: "string \<Rightarrow> settings_table \<times> nat \<Rightarrow> settings_table \<times> nat \<Rightarrow> bool" for t where
  try_acquire: "tryAcquireUsageInFlight t tab = (ok, tab') \<Longrightarrow> trigger_step t (tab, n) (tab', if ok then Suc n else n)"
| release: "trigger_step t (tab, Suc n) (setUsageChargeInFlight t False tab, n)"
| other_acquire: "u \<noteq> t \<Longrightarrow> tryAcquireUsageInFlight u tab = (ok, tab') \<Longrightarrow> trigger_step t (tab, n) (tab', n)"
| other_release: "u \<noteq> t \<Longrightarrow> trigger_step t (tab, n) (setUsageChargeInFlight u b tab, n)"
| count_usage: "trigger_step t (tab, n) (snd (incrementUsageFailures u tab), n)"
| reset_usage: "trigger_step t (tab, n) (resetUsageFailures u tab, n)"
| disable_usage: "trigger_step t (tab, n) (disableUsage u tab, n)"
| count_schedule: "trigger_step t (tab, n) (snd (incrementScheduleFailures u tab), n)"
| reset_schedule: "trigger_step t (tab, n) (resetScheduleFailures u tab, n)"
| disable_schedule: "trigger_step t (tab, n) (disableSchedule u tab, n)"
| advance_schedule: "trigger_step t (tab, n) (advanceScheduleNextAt u tab, n)"
| change_settings: "trigger_step t (tab, n) (upsert u p tab, n)"

definition in_flight :: "string \<Rightarrow> settings_table \<Rightarrow> bool option" where
  "in_flight t tab = map_option s_usageChargeInFlight (map_of tab t)"

definition exclusion_inv :: "string \<Rightarrow> settings_table \<times> nat \<Rightarrow> bool" where
  "exclusion_inv t = (\<lambda>(tab, n). n = 0 \<or> n = 1 \<and> in_flight t tab = Some True)"

lemma in_flight_simps:
  "in_flight t (snd (incrementUsageFailures u tab)) = in_flight t tab"
  "in_flight t (resetUsageFailures u tab) = in_flight t tab"
  "in_flight t (disableUsage u tab) = in_flight t tab"
  "in_flight t (snd (incrementScheduleFailures u tab)) = in_flight t tab"
  "in_flight t (resetScheduleFailures u tab) = in_flight t tab"
  "in_flight t (disableSchedule u tab) = in_flight t tab"
  "in_flight t (advanceScheduleNextAt u tab) = in_flight t tab"
  "in_flight t tab = Some b \<Longrightarrow> in_flight t (upsert u p tab) = Some b"
  by (auto simp: in_flight_def incrementUsageFailures_def resetUsageFailures_def disableUsage_def
      incrementScheduleFailures_def resetScheduleFailures_def disableSchedule_def Let_def
      advanceScheduleNextAt_def map_of_upsert apply_patch_def option.map_comp comp_def
      split: option.splits)

lemma trigger_step_inv: "trigger_step t x y \<Longrightarrow> exclusion_inv t x \<Longrightarrow> exclusion_inv t y"
proof (induction rule: trigger_step.induct)
  case (try_acquire tab ok tab' n)
  then show ?case
    by (auto simp: exclusion_inv_def tryAcquireUsageInFlight_def in_flight_def split: option.splits if_splits)
next
  case (other_acquire u tab ok tab' n)
  then show ?case
    by (auto simp: exclusion_inv_def tryAcquireUsageInFlight_def in_flight_def split: option.splits if_splits)
next
  case (other_release u tab n b)
  then show ?case by (auto simp: exclusion_inv_def setUsageChargeInFlight_def in_flight_def)
qed (auto simp: exclusion_inv_def in_flight_simps)

text \<open>However triggers for a tenant interleave with each other and with every other update of the
  settings, at most one of them is between acquiring the in-flight flag and clearing it, so at most
  one usage charge is in progress, and while it is the flag is set.\<close>

theorem usage_charge_exclusive:
  assumes "(trigger_step t)\<^sup>*\<^sup>* (tab, 0) (tab', n)"
  shows "n \<le> 1 \<and> (n = 1 \<longrightarrow> in_flight t tab' = Some True)"
proof -
  have "exclusion_inv t (tab', n)"
    using assms
  proof (induction "(tab', n)" arbitrary: tab' n rule: rtranclp_induct)
    case base
    then show ?case by (simp add: exclusion_inv_def)
  next
    case (step y)
    then show ?case by (metis trigger_step_inv surj_pair)
  qed
  then show ?thesis by (auto simp: exclusion_inv_def)
qed

definition demo_table :: settings_table where
  "demo_table = [(''a'', default_settings\<lparr>s_usageEnabled := True, s_scheduleEnabled := True,
     s_scheduleNextAt := Some 0\<rparr>)]"

theorem usage_charge_exclusive_witness:
  "in_flight ''a'' (snd (tryAcquireUsageInFlight ''a'' demo_table)) = Some True"
proof -
  have "tryAcquireUsageInFlight ''a'' demo_table = (True, snd (tryAcquireUsageInFlight ''a'' demo_table))"
    by (simp add: tryAcquireUsageInFlight_def demo_table_def default_settings_def)
  from try_acquire[OF this, of 0]
  have "(trigger_step ''a'')\<^sup>*\<^sup>* (demo_table, 0) (snd (tryAcquireUsageInFlight ''a'' demo_table), 1)"
    by (simp add: r_into_rtranclp)
  then show ?thesis using usage_charge_exclusive by blast
qed

theorem settings_roundtrip_witness:
  "\<exists>st. getByTenant ''a'' (upsert ''a'' \<lparr>p_usageEnabled = Some True, p_usageThreshold = Some (fromCents (of_int 200)),
      p_usageTopup = Some (fromCents (of_int 500)), p_scheduleEnabled = Some False,
      p_scheduleAmount = Some (fromCents (of_int 1000)), p_scheduleIntervalHours = Some 24,
      p_scheduleNextAt = Some None\<rparr> demo_table) = Some st
    \<and> usageThreshold st = fromCents (of_int 200) \<and> usageTopup st = fromCents (of_int 500)"
  using settings_roundtrip[of 200 500 1000 _ True False 24 None "''a''" demo_table, OF _ _ _ refl] by auto

section \<open>A charge credits what was collected\<close>

lemma charge_keeps_settings: "tu_settings (snd (chargeAutoTopup sv t amt src s)) = tu_settings s"
  by (auto simp: chargeAutoTopup_def Let_def failed_def writeEvent_def create_intent_def grant_def act_defs
      split: option.splits sum.splits list.splits stripe_failure.splits prod.splits)

lemma charge_success:
  assumes "chargeAutoTopup sv t amt src s = (Inr r, s')" "cr_success r"
  obtains intent s1 where "cr_paymentReference r = Some intent"
    "tu_db s1 = tu_db s" "tu_charged s1 = tu_charged s @ [(t, toCentsFloor amt)]"
    "tu_intents s1 = Suc (tu_intents s)" "fst (grant t amt src intent s1) = Inr ()"
    "tu_db s' = tu_db (snd (grant t amt src intent s1))" "tu_charged s' = tu_charged s1"
proof -
  obtain customer pm pms where c: "sv_customer sv t = Some customer" "sv_methods sv customer = Inr (pm # pms)"
    using assms by (auto simp: chargeAutoTopup_def failed_def act_defs writeEvent_def Let_def
        split: option.splits sum.splits list.splits)
  let ?i = "sv_intent sv (tu_intents s) customer pm (toCentsFloor amt)"
  obtain intent where i: "?i = Inr (intent, ''succeeded'')"
    using assms c by (auto simp: chargeAutoTopup_def failed_def act_defs writeEvent_def Let_def create_intent_def
        split: sum.splits stripe_failure.splits prod.splits if_splits)
  define s1 where "s1 = snd (create_intent sv t customer pm (toCentsFloor amt) s)"
  have s1: "tu_db s1 = tu_db s" "tu_charged s1 = tu_charged s @ [(t, toCentsFloor amt)]"
    "tu_intents s1 = Suc (tu_intents s)"
    using i by (simp_all add: s1_def create_intent_def Let_def)
  have g: "fst (grant t amt src intent s1) = Inr ()" "tu_db s' = tu_db (snd (grant t amt src intent s1))"
    "tu_charged s' = tu_charged (snd (grant t amt src intent s1))" "cr_paymentReference r = Some intent"
    using assms c i
    by (auto simp: chargeAutoTopup_def act_defs writeEvent_def Let_def create_intent_def s1_def
        split: sum.splits prod.splits)
  have "tu_charged (snd (grant t amt src intent s1)) = tu_charged s1"
    by (simp add: grant_def split: sum.splits prod.splits)
  then show thesis using that s1 g by simp
qed

text \<open>A successful top-up under a new payment reference raises the tenant's balance by the full
  amount, while Stripe collects the amount rounded down to whole cents: never more than is
  credited, and less by under a cent.\<close>

theorem topup_charge_exact:
  assumes "chargeAutoTopup sv t amt src s = (Inr r, s')" "cr_success r" "safe amt"
    and "ledger_reachable (tu_db s)" "\<forall>i. cr_paymentReference r = Some i \<longrightarrow> \<not> hasReferenceId i (tu_db s)"
  shows "stored_balance (tenant_code t) (tu_db s') = stored_balance (tenant_code t) (tu_db s) + toRaw amt
    \<and> ledger_reachable (tu_db s')
    \<and> tu_charged s' = tu_charged s @ [(t, toCentsFloor amt)]
    \<and> toCentsFloor amt * 10000000 \<le> toRaw amt \<and> toRaw amt < (toCentsFloor amt + 1) * 10000000"
proof -
  obtain intent s1 where c: "cr_paymentReference r = Some intent"
    "tu_db s1 = tu_db s" "tu_charged s1 = tu_charged s @ [(t, toCentsFloor amt)]"
    "fst (grant t amt src intent s1) = Inr ()"
    "tu_db s' = tu_db (snd (grant t amt src intent s1))" "tu_charged s' = tu_charged s1"
    by (rule charge_success[OF assms(1,2)])
  have "\<not> hasReferenceId intent (tu_db s)" using assms(5) c(1) by blast
  then obtain je where cr: "credit t amt Purchase (topup_opts src intent) (tu_db s) = Inr (je, tu_db s')"
    using c(2,4,5) by (auto simp: grant_def split: sum.splits prod.splits)
  have "core_inv (tu_db s)" using reachable_inv[OF assms(4)] by (simp add: ledger_inv_def)
  then have "stored_balance (tenant_code t) (tu_db s') = stored_balance (tenant_code t) (tu_db s) + toRaw amt"
    using credit_effect[OF cr] by simp
  moreover have "ledger_reachable (tu_db s')" using assms(4) cr by (blast intro: reach_step step_credit)
  moreover have "toCentsFloor amt * 10000000 \<le> toRaw amt \<and> toRaw amt < (toCentsFloor amt + 1) * 10000000"
    using toCentsFloor_exact[OF assms(3)] by presburger
  ultimately show ?thesis using c by simp
qed

definition demo_stripe :: stripe where
  "demo_stripe = \<lparr>sv_customer = (\<lambda>t. Some (''cus-'' @ t)), sv_methods = (\<lambda>c. Inr [''pm'']),
     sv_intent = (\<lambda>n c p a. Inr (''pi-'' @ decimal n, ''succeeded''))\<rparr>"

definition demo_topup :: topup where
  "demo_topup = \<lparr>tu_db = seeded, tu_settings = demo_table, tu_events = [], tu_intents = 0, tu_charged = []\<rparr>"

theorem topup_charge_exact_witness:
  "\<exists>r s'. chargeAutoTopup demo_stripe ''a'' (Credit 5000000001) ''x'' demo_topup = (Inr r, s')
     \<and> stored_balance (tenant_code ''a'') (tu_db s') = stored_balance (tenant_code ''a'') seeded + 5000000001
     \<and> tu_charged s' = [(''a'', 500)]"
proof -
  let ?r = "chargeAutoTopup demo_stripe ''a'' (Credit 5000000001) ''x'' demo_topup"
  have "case fst ?r of Inl e \<Rightarrow> False | Inr r \<Rightarrow> cr_success r \<and> cr_paymentReference r = Some ''pi-0''"
    by code_simp
  then obtain r s' where r: "?r = (Inr r, s')" "cr_success r" "cr_paymentReference r = Some ''pi-0''"
    by (cases ?r) (auto split: sum.splits)
  have "\<not> hasReferenceId ''pi-0'' seeded" by code_simp
  moreover have "toCentsFloor (Credit 5000000001) = 500" by code_simp
  ultimately show ?thesis
    using topup_charge_exact[OF r(1,2)] r seeded_reachable by (simp add: safe_simps demo_topup_def)
qed

section \<open>When a usage charge fires\<close>

lemma charge_intents: "tu_intents (snd (chargeAutoTopup sv t amt src s)) \<le> Suc (tu_intents s)"
  by (auto simp: chargeAutoTopup_def Let_def failed_def writeEvent_def create_intent_def grant_def act_defs
      split: option.splits sum.splits list.splits stripe_failure.splits prod.splits)

lemma usage_charge_intents: "tu_intents (snd (usage_charge sv t amt s)) \<le> Suc (tu_intents s)"
  using charge_intents[of sv t amt "''auto_topup_usage''" s]
  by (auto simp: usage_charge_def act_defs on_settings_def usage_failure_def Let_def
      split: sum.splits prod.splits)

lemma charge_mono: "tu_intents s \<le> tu_intents (snd (chargeAutoTopup sv t amt src s))"
  by (auto simp: chargeAutoTopup_def Let_def failed_def writeEvent_def create_intent_def grant_def act_defs
      split: option.splits sum.splits list.splits stripe_failure.splits prod.splits)

lemma usage_charge_mono: "tu_intents s \<le> tu_intents (snd (usage_charge sv t amt s))"
  using charge_mono[of s sv t amt "''auto_topup_usage''"]
  by (auto simp: usage_charge_def act_defs on_settings_def usage_failure_def Let_def
      split: sum.splits prod.splits)

text \<open>A usage trigger creates at most one payment intent, and only for a tenant whose mode is
  enabled, who is not blocked, whose balance is below the threshold and whose in-flight flag was
  clear; the flag is clear again afterwards.\<close>

theorem usage_trigger_guarded:
  assumes "maybeTriggerUsageTopup sv blocked t s = (r, s')" "tu_intents s' \<noteq> tu_intents s"
  shows "tu_intents s' = Suc (tu_intents s) \<and> in_flight t (tu_settings s) = Some False
    \<and> in_flight t (tu_settings s') = Some False
    \<and> (\<exists>st b. getByTenant t (tu_settings s) = Some st \<and> usageEnabled st
         \<and> (case blocked of None \<Rightarrow> True | Some f \<Rightarrow> \<not> f t)
         \<and> balance t (tu_db s) = Inr b \<and> lessThan b (usageThreshold st))"
proof -
  obtain st where st: "getByTenant t (tu_settings s) = Some st" "usageEnabled st"
    "case blocked of None \<Rightarrow> True | Some f \<Rightarrow> \<not> f t"
    using assms by (auto simp: maybeTriggerUsageTopup_def areturn_def split: option.splits if_splits)
  obtain b where b: "balance t (tu_db s) = Inr b" "lessThan b (usageThreshold st)"
    using assms st by (auto simp: maybeTriggerUsageTopup_def areturn_def athrow_def
        split: option.splits sum.splits if_splits)
  obtain row where row: "map_of (tu_settings s) t = Some row" using st(1) by (auto simp: getByTenant_Some)
  let ?tab = "update_row t (\<lambda>r. r\<lparr>s_usageChargeInFlight := True\<rparr>) (tu_settings s)"
  let ?s1 = "s\<lparr>tu_settings := ?tab\<rparr>"
  have free: "\<not> s_usageChargeInFlight row"
    and run: "abind (usage_charge sv t (usageTopup st)) (\<lambda>_. on_settings (setUsageChargeInFlight t False)) ?s1
      = (r, s')"
    using assms st b row
    by (auto simp: maybeTriggerUsageTopup_def areturn_def tryAcquireUsageInFlight_def split: option.splits if_splits)
  have ok: "\<exists>u. fst (usage_charge sv t (usageTopup st) ?s1) = Inr u"
    by (auto simp: usage_charge_def act_defs on_settings_def usage_failure_def Let_def
        split: sum.splits prod.splits)
  then have s': "s' = (let s2 = snd (usage_charge sv t (usageTopup st) ?s1) in
      s2\<lparr>tu_settings := setUsageChargeInFlight t False (tu_settings s2)\<rparr>)"
    using run by (auto simp: abind_def on_settings_def amodify_def Let_def split: prod.splits sum.splits)
  have n: "tu_intents s' = Suc (tu_intents s)"
    using assms(2) usage_charge_intents[of sv t "usageTopup st" ?s1] usage_charge_mono[of ?s1 sv t "usageTopup st"]
    by (simp add: s' Let_def)
  have "map_of (tu_settings (snd (usage_charge sv t (usageTopup st) ?s1))) t \<noteq> None"
    using charge_keeps_settings[of sv t "usageTopup st" "''auto_topup_usage''" ?s1] row
    by (auto simp: usage_charge_def act_defs on_settings_def usage_failure_def resetUsageFailures_def
        incrementUsageFailures_def disableUsage_def Let_def split: sum.splits prod.splits if_splits)
  then have "in_flight t (tu_settings s') = Some False"
    by (auto simp: s' Let_def in_flight_def setUsageChargeInFlight_def)
  then show ?thesis using n row free st b by (auto simp: in_flight_def)
qed

theorem usage_trigger_guarded_witness:
  "\<exists>s'. maybeTriggerUsageTopup demo_stripe None ''a'' demo_topup = (Inr (), s')
     \<and> tu_intents s' = 1 \<and> in_flight ''a'' (tu_settings s') = Some False"
proof -
  let ?r = "maybeTriggerUsageTopup demo_stripe None ''a'' demo_topup"
  have "tu_intents (snd ?r) = 1" "fst ?r = Inr ()" by code_simp+
  then obtain s' where r: "?r = (Inr (), s')" "tu_intents s' = 1" by (cases ?r) auto
  then show ?thesis using usage_trigger_guarded[OF r(1)] by (simp add: demo_topup_def)
qed

section \<open>One scheduled tenant\<close>

text \<open>Every due tenant's next time moves on by its interval whatever happens; a successful charge
  clears the failure count, a failed or crashed one adds one to it and, from the third in a row on,
  disables the schedule; a blocked tenant is neither charged nor counted.\<close>

theorem schedule_step_effect:
  assumes "map_of (tu_settings s) t = Some row" "s_scheduleNextAt row = Some n"
    and "schedule_step sv blocked (s, res) (t, mapRow row) = (s', res')"
  defines "is_blocked \<equiv> (case blocked of None \<Rightarrow> False | Some f \<Rightarrow> f t)"
  defines "ok \<equiv> (case fst (chargeAutoTopup sv t (fromCents (of_int (s_scheduleAmountCents row)))
      ''auto_topup_schedule'' s) of Inr c \<Rightarrow> cr_success c | Inl e \<Rightarrow> False)"
  shows "\<exists>row'. map_of (tu_settings s') t = Some row'
    \<and> s_scheduleNextAt row' = Some (n + s_scheduleIntervalHours row * 3600000)
    \<and> s_scheduleConsecutiveFailures row' = (if is_blocked then s_scheduleConsecutiveFailures row
         else if ok then 0 else s_scheduleConsecutiveFailures row + 1)
    \<and> s_scheduleEnabled row' = (s_scheduleEnabled row
         \<and> (is_blocked \<or> ok \<or> s_scheduleConsecutiveFailures row + 1 < MAX_CONSECUTIVE_FAILURES))
    \<and> (is_blocked \<longrightarrow> tu_intents s' = tu_intents s \<and> tu_db s' = tu_db s)
    \<and> sr_processed res' = Suc (sr_processed res)"
  using assms(1-3) charge_keeps_settings[of sv t "fromCents (of_int (s_scheduleAmountCents row))"
      "''auto_topup_schedule''" s]
  by (auto simp: schedule_step_def Let_def is_blocked_def ok_def mapRow_def advance_def
      advanceScheduleNextAt_def getByTenant_def schedule_failure_def incrementScheduleFailures_def
      resetScheduleFailures_def disableSchedule_def
      split: option.splits sum.splits prod.splits if_splits)

theorem schedule_step_effect_witness:
  "\<exists>row'. map_of (tu_settings (fst (schedule_step (demo_stripe\<lparr>sv_customer := (\<lambda>_. None)\<rparr>) None
        (demo_topup, \<lparr>sr_processed = 0, sr_succeeded = [], sr_failed = [], sr_errors = []\<rparr>)
        (''a'', mapRow (snd (hd demo_table)))))) ''a'' = Some row'
     \<and> s_scheduleConsecutiveFailures row' = 1 \<and> s_scheduleNextAt row' = Some 604800000"
proof -
  let ?sv = "demo_stripe\<lparr>sv_customer := (\<lambda>_. None)\<rparr>" and ?row = "snd (hd demo_table)"
  let ?x = "(demo_topup, \<lparr>sr_processed = 0, sr_succeeded = [], sr_failed = [], sr_errors = []\<rparr>)"
  obtain s' res' where st: "schedule_step ?sv None ?x (''a'', mapRow ?row) = (s', res')" by fastforce
  have row: "map_of (tu_settings demo_topup) ''a'' = Some ?row" "s_scheduleNextAt ?row = Some 0"
    by (simp_all add: demo_topup_def demo_table_def)
  have "\<exists>row'. map_of (tu_settings s') ''a'' = Some row'
     \<and> s_scheduleConsecutiveFailures row' = 1 \<and> s_scheduleNextAt row' = Some 604800000"
    using schedule_step_effect[OF row st]
    by (auto simp: demo_table_def default_settings_def demo_stripe_def chargeAutoTopup_def failed_def
        writeEvent_def act_defs Let_def)
  then show ?thesis using st by (simp only: fst_conv)
qed

section \<open>The monthly date\<close>

lemma carry_id: "d \<le> month_length y m \<Longrightarrow> carry y m d = (y, m, d)"
  by (simp add: carry.simps)

definition next_month :: "nat \<Rightarrow> nat \<Rightarrow> nat \<times> nat" where
  "next_month y m = (if m = 11 then (Suc y, 0) else (y, Suc m))"

text \<open>The monthly schedule means the first of the next month, and it is that on every day that also
  exists in the next month; on a later day the month is carried over once more, so the next month
  is skipped (from January 31 the next charge is on March 1).\<close>

theorem monthly_schedule:
  assumes "1 \<le> d" "d \<le> month_length y m"
  shows "computeNextScheduleAt (Some Monthly) (y, m, d) =
    (case next_month y m of (y1, m1) \<Rightarrow>
       if d \<le> month_length y1 m1 then Some (y1, m1, 1)
       else (case next_month y1 m1 of (y2, m2) \<Rightarrow> Some (y2, m2, 1)))"
proof -
  obtain y1 m1 where n: "next_month y m = (y1, m1)" by fastforce
  obtain y2 m2 where n2: "next_month y1 m1 = (y2, m2)" by fastforce
  have c: "setUTCMonth_next (y, m, d) = carry y1 m1 d"
    using n by (auto simp: setUTCMonth_next_def next_month_def split: if_splits)
  show ?thesis
  proof (cases "d \<le> month_length y1 m1")
    case True
    then show ?thesis by (simp add: computeNextScheduleAt_def c carry_id n)
  next
    case False
    have "d - month_length y1 m1 \<le> month_length y2 m2"
      using assms(2) month_length_bounds[of y m] month_length_bounds[of y1 m1] month_length_bounds[of y2 m2]
      by linarith
    then have "carry y1 m1 d = (y2, m2, d - month_length y1 m1)"
      using False n2 by (subst carry.simps) (auto simp: next_month_def carry_id split: if_splits)
    then show ?thesis using False by (simp add: computeNextScheduleAt_def c n n2)
  qed
qed

theorem monthly_schedule_witness:
  "computeNextScheduleAt (Some Monthly) (2026, 0, 31) = Some (2026, 2, 1)"
  using monthly_schedule[of 31 2026 0] by (simp add: month_length_def next_month_def is_leap_def)

end
