(* ===== verification/Nodes.thy ===== *)
theory Nodes
  imports Prelude
begin

text \<open>
  Fleet nodes: the lifecycle graph (\<open>src/fleet/node-state-machine.ts\<close>), the repository that
  enforces it with compare-and-swap updates (\<open>drizzle-node-repository.ts\<close>), placement
  (\<open>placement.ts\<close>), the heartbeat watchdog (\<open>heartbeat-watchdog.ts\<close>) and the drainer
  (\<open>node-drainer.ts\<close>). The two tables are lists of rows. The read of a transition and its update
  are two database calls, so they are two definitions, and other calls may run in between.
  Secrets are compared through their hashes, which are opaque strings here.
\<close>

section \<open>The state machine\<close>

datatype node_status = Provisioning | Active | Unhealthy | Offline | Recovering | Returning
  | Draining | Failed

definition NODE_STATUSES :: "node_status list" where
  "NODE_STATUSES = [Provisioning, Active, Unhealthy, Offline, Recovering, Returning, Draining, Failed]"

fun VALID_TRANSITIONS :: "node_status \<Rightarrow> node_status list" where
  "VALID_TRANSITIONS Provisioning = [Active, Failed]"
| "VALID_TRANSITIONS Active = [Unhealthy, Draining]"
| "VALID_TRANSITIONS Unhealthy = [Active, Offline]"
| "VALID_TRANSITIONS Offline = [Recovering, Returning]"
| "VALID_TRANSITIONS Recovering = [Offline, Returning]"
| "VALID_TRANSITIONS Returning = [Active, Failed]"
| "VALID_TRANSITIONS Draining = [Offline, Active]"
| "VALID_TRANSITIONS Failed = [Returning]"

definition isValidTransition :: "node_status \<Rightarrow> node_status \<Rightarrow> bool" where
  "isValidTransition from to \<longleftrightarrow> to \<in> set (VALID_TRANSITIONS from)"

datatype node_error =
    Invalid_Transition node_status node_status
  | Concurrent_Transition string
  | Node_Not_Found string
  | Node_Exists string

section \<open>Tables\<close>

record node =
  n_id :: string
  n_host :: string
  n_status :: node_status
  n_capacityMb :: int
  n_usedMb :: int
  n_agentVersion :: "string option"
  n_lastHeartbeatAt :: "int option"
  n_drainStatus :: "string option"
  n_drainMigrated :: "int option"
  n_drainTotal :: "int option"
  n_provisionStage :: "string option"
  n_lastError :: "string option"
  n_dropletId :: "string option"
  n_region :: "string option"
  n_size :: "string option"
  n_monthlyCostCents :: "int option"
  n_ownerUserId :: "string option"
  n_label :: "string option"
  n_nodeSecret :: "string option"
  n_registeredAt :: int
  n_updatedAt :: int

record transition_row =
  t_nodeId :: string
  t_from :: node_status
  t_to :: node_status
  t_reason :: string
  t_triggeredBy :: string
  t_createdAt :: int

record fleet =
  nodes :: "node list"
  transitions :: "transition_row list"
  now :: int

definition getById :: "string \<Rightarrow> fleet \<Rightarrow> node option" where
  "getById i s = find (\<lambda>n. n_id n = i) (nodes s)"

definition getBySecretHash :: "string \<Rightarrow> fleet \<Rightarrow> node option" where
  "getBySecretHash h s = find (\<lambda>n. n_nodeSecret n = Some h) (nodes s)"

definition list_nodes :: "node_status list \<Rightarrow> fleet \<Rightarrow> node list" where
  "list_nodes statuses s = (if statuses \<noteq> [] then filter (\<lambda>n. n_status n \<in> set statuses) (nodes s) else nodes s)"

definition getStatus :: "string \<Rightarrow> fleet \<Rightarrow> node_status option" where
  "getStatus i s = map_option n_status (getById i s)"

text \<open>\<open>UPDATE nodes SET ... WHERE p\<close>, with the number of rows it returns.\<close>

definition update_nodes :: "(node \<Rightarrow> bool) \<Rightarrow> (node \<Rightarrow> node) \<Rightarrow> fleet \<Rightarrow> nat \<times> fleet" where
  "update_nodes p f s =
     (length (filter p (nodes s)), s\<lparr>nodes := map (\<lambda>n. if p n then f n else n) (nodes s)\<rparr>)"

section \<open>Transitions\<close>

text \<open>The read before the transaction: the current status, if the graph allows the step.\<close>

definition transition_read :: "string \<Rightarrow> node_status \<Rightarrow> fleet \<Rightarrow> node_error + node" where
  "transition_read i to s =
     (case getById i s of
        None \<Rightarrow> Inl (Node_Not_Found i)
      | Some n \<Rightarrow> if \<not> isValidTransition (n_status n) to then Inl (Invalid_Transition (n_status n) to)
                  else Inr n)"

definition clear_drain :: "node_status \<Rightarrow> node_status \<Rightarrow> node \<Rightarrow> node" where
  "clear_drain from to n =
     (if from = Draining \<and> to = Active
      then n\<lparr>n_drainStatus := None, n_drainMigrated := None, n_drainTotal := None\<rparr> else n)"

text \<open>The transaction: update where the status is still the one read, log, return the node.\<close>

definition transition_cas ::
  "node \<Rightarrow> node_status \<Rightarrow> string \<Rightarrow> string \<Rightarrow> int \<Rightarrow> fleet \<Rightarrow> node_error + node \<times> fleet" where
  "transition_cas n to reason by t s =
     (let from = n_status n;
          (k, s') = update_nodes (\<lambda>m. n_id m = n_id n \<and> n_status m = from)
                      (\<lambda>m. (clear_drain from to m)\<lparr>n_status := to, n_updatedAt := t\<rparr>) s
      in if k = 0 then Inl (Concurrent_Transition (n_id n))
         else Inr ((clear_drain from to n)\<lparr>n_status := to, n_updatedAt := t\<rparr>,
                   s'\<lparr>transitions := transitions s' @ [\<lparr>t_nodeId = n_id n, t_from = from, t_to = to,
                        t_reason = reason, t_triggeredBy = by, t_createdAt = t\<rparr>]\<rparr>))"

definition transition ::
  "string \<Rightarrow> node_status \<Rightarrow> string \<Rightarrow> string \<Rightarrow> fleet \<Rightarrow> node_error + node \<times> fleet" where
  "transition i to reason by s =
     rbind (transition_read i to s) (\<lambda>n. transition_cas n to reason by (now s) s)"

section \<open>Registration and updates\<close>

record registration =
  r_nodeId :: string
  r_host :: string
  r_capacityMb :: int
  r_agentVersion :: string

definition blank_node :: "string \<Rightarrow> string \<Rightarrow> int \<Rightarrow> node" where
  "blank_node i host t = \<lparr>n_id = i, n_host = host, n_status = Provisioning, n_capacityMb = 0, n_usedMb = 0,
     n_agentVersion = None, n_lastHeartbeatAt = None, n_drainStatus = None, n_drainMigrated = None,
     n_drainTotal = None, n_provisionStage = None, n_lastError = None, n_dropletId = None,
     n_region = None, n_size = None, n_monthlyCostCents = None, n_ownerUserId = None, n_label = None,
     n_nodeSecret = None, n_registeredAt = t, n_updatedAt = t\<rparr>"

definition insert_node :: "node \<Rightarrow> fleet \<Rightarrow> node_error + fleet" where
  "insert_node n s =
     (if n_id n \<in> set (map n_id (nodes s)) then Inl (Node_Exists (n_id n))
      else Inr (s\<lparr>nodes := nodes s @ [n]\<rparr>))"

definition registered_node :: "registration \<Rightarrow> int \<Rightarrow> node" where
  "registered_node d t = (blank_node (r_nodeId d) (r_host d) t)\<lparr>n_capacityMb := r_capacityMb d,
     n_agentVersion := Some (r_agentVersion d), n_lastHeartbeatAt := Some t\<rparr>"

definition update_metadata :: "registration \<Rightarrow> fleet \<Rightarrow> fleet" where
  "update_metadata d s = snd (update_nodes (\<lambda>n. n_id n = r_nodeId d)
     (\<lambda>n. n\<lparr>n_host := r_host d, n_capacityMb := r_capacityMb d,
            n_agentVersion := Some (r_agentVersion d), n_updatedAt := now s\<rparr>) s)"

text \<open>
  \<open>register\<close> is not a transaction: the insert or the metadata update stays when the transition
  after it fails. The result is the outcome and the state left behind.
\<close>

definition register :: "registration \<Rightarrow> (fleet, node_error, node) act" where
  "register d s =
     (case getById (r_nodeId d) s of
        None \<Rightarrow>
          (case insert_node (registered_node d (now s)) s of
             Inl e \<Rightarrow> (Inl e, s)
           | Inr s1 \<Rightarrow> atomically (transition (r_nodeId d) Active ''first_registration'' ''node_agent'') s1)
      | Some n \<Rightarrow>
          if n_status n \<in> {Offline, Recovering, Failed}
          then atomically (transition (r_nodeId d) Returning ''re_registration'' ''node_agent'')
                 (update_metadata d s)
          else (Inr (the (getById (r_nodeId d) (update_metadata d s))), update_metadata d s))"

definition registerSelfHosted ::
  "registration \<Rightarrow> string \<Rightarrow> string option \<Rightarrow> string \<Rightarrow> (fleet, node_error, node) act" where
  "registerSelfHosted d owner label secret s =
     (case insert_node ((registered_node d (now s))\<lparr>n_ownerUserId := Some owner, n_label := label,
              n_nodeSecret := Some secret\<rparr>) s of
        Inl e \<Rightarrow> (Inl e, s)
      | Inr s1 \<Rightarrow> atomically (transition (r_nodeId d) Active ''first_registration'' ''node_agent'') s1)"

definition updateHeartbeat :: "string \<Rightarrow> int \<Rightarrow> fleet \<Rightarrow> node_error + fleet" where
  "updateHeartbeat i usedMb s =
     (let (k, s') = update_nodes (\<lambda>n. n_id n = i)
            (\<lambda>n. n\<lparr>n_lastHeartbeatAt := Some (now s), n_usedMb := usedMb, n_updatedAt := now s\<rparr>) s
      in if k = 0 then Inl (Node_Not_Found i) else Inr s')"

definition addCapacity :: "string \<Rightarrow> int \<Rightarrow> fleet \<Rightarrow> node_error + fleet" where
  "addCapacity i deltaMb s =
     (let (k, s') = update_nodes (\<lambda>n. n_id n = i) (\<lambda>n. n\<lparr>n_usedMb := max 0 (n_usedMb n + deltaMb)\<rparr>) s
      in if k = 0 then Inl (Node_Not_Found i) else Inr s')"

definition insertProvisioning :: "string \<Rightarrow> string \<Rightarrow> string \<Rightarrow> string \<Rightarrow> string option \<Rightarrow> fleet \<Rightarrow> node_error + fleet" where
  "insertProvisioning i host region sz secret s =
     insert_node ((blank_node i host (now s))\<lparr>n_provisionStage := Some ''creating'', n_region := Some region,
       n_size := Some sz, n_nodeSecret := secret\<rparr>) s"

definition updateProvisionData :: "string \<Rightarrow> string \<Rightarrow> string \<Rightarrow> int \<Rightarrow> int \<Rightarrow> fleet \<Rightarrow> fleet" where
  "updateProvisionData i host droplet capacity cost s = snd (update_nodes (\<lambda>n. n_id n = i)
     (\<lambda>n. n\<lparr>n_host := host, n_dropletId := Some droplet, n_capacityMb := capacity,
            n_monthlyCostCents := Some cost, n_updatedAt := now s\<rparr>) s)"

definition updateProvisionStage :: "string \<Rightarrow> string \<Rightarrow> fleet \<Rightarrow> fleet" where
  "updateProvisionStage i stage s = snd (update_nodes (\<lambda>n. n_id n = i)
     (\<lambda>n. n\<lparr>n_provisionStage := Some stage, n_updatedAt := now s\<rparr>) s)"

text \<open>The two updates that set a status without consulting the graph.\<close>

definition markFailed :: "string \<Rightarrow> string \<Rightarrow> fleet \<Rightarrow> fleet" where
  "markFailed i err s = snd (update_nodes (\<lambda>n. n_id n = i)
     (\<lambda>n. n\<lparr>n_status := Failed, n_provisionStage := Some ''failed'', n_lastError := Some err,
            n_updatedAt := now s\<rparr>) s)"

definition updateHeartbeatWithStatus :: "string \<Rightarrow> int \<Rightarrow> node_status option \<Rightarrow> fleet \<Rightarrow> fleet" where
  "updateHeartbeatWithStatus i usedMb st s = snd (update_nodes (\<lambda>n. n_id n = i)
     (\<lambda>n. n\<lparr>n_lastHeartbeatAt := Some (now s), n_usedMb := usedMb,
            n_status := (case st of None \<Rightarrow> n_status n | Some t \<Rightarrow> t), n_updatedAt := now s\<rparr>) s)"

definition delete_node :: "string \<Rightarrow> fleet \<Rightarrow> fleet" where
  "delete_node i s = s\<lparr>nodes := filter (\<lambda>n. n_id n \<noteq> i) (nodes s)\<rparr>"

definition listTransitions :: "string \<Rightarrow> nat \<Rightarrow> fleet \<Rightarrow> transition_row list" where
  "listTransitions i limit s =
     take limit (sort_key (\<lambda>t. - t_createdAt t) (filter (\<lambda>t. t_nodeId t = i) (transitions s)))"

definition verifyNodeSecretHash :: "string \<Rightarrow> string \<Rightarrow> fleet \<Rightarrow> bool option" where
  "verifyNodeSecretHash i h s =
     (case getById i s of None \<Rightarrow> None | Some n \<Rightarrow>
        (case n_nodeSecret n of None \<Rightarrow> None | Some x \<Rightarrow> if x = [] then None else Some (x = h)))"

section \<open>Placement\<close>

definition free_mb :: "node \<Rightarrow> int" where
  "free_mb n = n_capacityMb n - n_usedMb n"

definition findBestTarget :: "string \<Rightarrow> int \<Rightarrow> fleet \<Rightarrow> node option" where
  "findBestTarget excludeId requiredMb s =
     (case sort_key (\<lambda>n. - free_mb n) (filter (\<lambda>n. n_status n = Active \<and> n_id n \<noteq> excludeId
            \<and> free_mb n \<ge> requiredMb) (nodes s)) of
        [] \<Rightarrow> None | n # _ \<Rightarrow> Some n)"

record placement =
  pl_nodeId :: string
  pl_host :: string
  pl_availableMb :: int

definition findPlacement :: "node list \<Rightarrow> int \<Rightarrow> placement option" where
  "findPlacement ns requiredMb =
     (case sort_key (\<lambda>n. - free_mb n) (filter (\<lambda>n. n_status n = Active \<and> free_mb n \<ge> requiredMb) ns) of
        [] \<Rightarrow> None
      | n # _ \<Rightarrow> Some \<lparr>pl_nodeId = n_id n, pl_host = n_host n, pl_availableMb = free_mb n\<rparr>)"

definition findPlacementExcluding :: "node list \<Rightarrow> string list \<Rightarrow> int \<Rightarrow> placement option" where
  "findPlacementExcluding ns exclude requiredMb =
     (if exclude = [] then findPlacement ns requiredMb
      else findPlacement (filter (\<lambda>n. n_id n \<notin> set exclude) ns) requiredMb)"

section \<open>Watchdog\<close>

record watchdog =
  w_unhealthyThresholdS :: int
  w_offlineThresholdS :: int

definition default_watchdog :: watchdog where
  "default_watchdog = \<lparr>w_unhealthyThresholdS = 90, w_offlineThresholdS = 300\<rparr>"

text \<open>What a check did: the fleet, the status changes announced, the recoveries triggered.\<close>

record watch_state =
  ws_fleet :: fleet
  ws_changes :: "(string \<times> node_status) list"
  ws_recoveries :: "string list"

definition on_fleet :: "(fleet \<Rightarrow> node_error + 'a \<times> fleet) \<Rightarrow> (watch_state, node_error, 'a) act" where
  "on_fleet tx = atomically (\<lambda>s. rbind (tx (ws_fleet s)) (\<lambda>(a, f). Inr (a, s\<lparr>ws_fleet := f\<rparr>)))"

definition watch_node :: "watchdog \<Rightarrow> int \<Rightarrow> node \<Rightarrow> (watch_state, node_error, unit) act" where
  "watch_node w t n =
     (case n_lastHeartbeatAt n of
        None \<Rightarrow> areturn ()
      | Some hb \<Rightarrow>
          let elapsed = t - hb in
          if elapsed \<ge> w_offlineThresholdS w \<and> n_status n = Unhealthy
          then abind (on_fleet (transition (n_id n) Offline ''heartbeat_timeout'' ''heartbeat_watchdog''))
                 (\<lambda>_. amodify (\<lambda>s. s\<lparr>ws_changes := ws_changes s @ [(n_id n, Offline)],
                                     ws_recoveries := ws_recoveries s @ [n_id n]\<rparr>))
          else if elapsed \<ge> w_unhealthyThresholdS w \<and> n_status n = Active
          then abind (on_fleet (transition (n_id n) Unhealthy ''heartbeat_timeout'' ''heartbeat_watchdog''))
                 (\<lambda>_. amodify (\<lambda>s. s\<lparr>ws_changes := ws_changes s @ [(n_id n, Unhealthy)]\<rparr>))
          else areturn ())"

definition check :: "watchdog \<Rightarrow> fleet \<Rightarrow> (node_error + unit) \<times> watch_state" where
  "check w f =
     afor (watch_node w (now f)) (list_nodes [Active, Unhealthy] f)
       \<lparr>ws_fleet = f, ws_changes = [], ws_recoveries = []\<rparr>"

section \<open>Drain\<close>

record drain_result =
  dn_migrated :: "string list"
  dn_failed :: "string list"

text \<open>
  The tenants on the node and the migration of one tenant are parameters: whether it succeeded
  and what it did to the fleet.
\<close>

definition drain ::
  "(string \<Rightarrow> fleet \<Rightarrow> bool \<times> fleet) \<Rightarrow> string list \<Rightarrow> string \<Rightarrow> (fleet, node_error, drain_result) act" where
  "drain migrate tenants nodeId =
     abind (atomically (transition nodeId Draining ''node_drain'' ''migration_orchestrator'')) (\<lambda>_ s.
       let (r, s') = foldl (\<lambda>(r, s) t. let (ok, s') = migrate t s in
                (if ok then r\<lparr>dn_migrated := dn_migrated r @ [t]\<rparr> else r\<lparr>dn_failed := dn_failed r @ [t]\<rparr>, s'))
              (\<lparr>dn_migrated = [], dn_failed = []\<rparr>, s) tenants
       in if dn_failed r = []
          then abind (atomically (transition nodeId Offline ''drain_complete'' ''migration_orchestrator''))
                 (\<lambda>_. areturn r) s'
          else areturn r s')"

section \<open>The graph\<close>

text \<open>The interface the fleet's clients use: look a status up, transition, with what is promised.\<close>

locale node_repo =
  fixes status_of :: "string \<Rightarrow> 'r \<Rightarrow> node_status option"
    and trans :: "string \<Rightarrow> node_status \<Rightarrow> 'r \<Rightarrow> 'e + 'r"
  assumes trans_edge: "trans i to r = Inr r' \<Longrightarrow> \<exists>from. status_of i r = Some from \<and> isValidTransition from to"
    and trans_sets: "trans i to r = Inr r' \<Longrightarrow> status_of i r' = Some to"
    and trans_frame: "trans i to r = Inr r' \<Longrightarrow> j \<noteq> i \<Longrightarrow> status_of j r' = status_of j r"
begin

definition run :: "(string \<times> node_status) list \<Rightarrow> 'r \<Rightarrow> 'r \<Rightarrow> bool" where
  "run reqs r r' \<longleftrightarrow> rfold (\<lambda>r (i, to). trans i to r) r reqs = Inr r'"

lemma run_Nil: "run [] r r' \<longleftrightarrow> r' = r"
  by (auto simp: run_def)

lemma run_Cons: "run ((i, to) # reqs) r r' \<longleftrightarrow> (\<exists>m. trans i to r = Inr m \<and> run reqs m r')"
  by (auto simp: run_def rbind_Inr_iff)

text \<open>A node that is dead stays dead until a request of the run sends it to \<open>Returning\<close>.\<close>

lemma dead_until_returning:
  assumes "run reqs r r'" "status_of i r = Some d" "d \<in> {Offline, Recovering, Failed}"
    and "(i, Returning) \<notin> set reqs"
  shows "\<exists>d'. status_of i r' = Some d' \<and> d' \<in> {Offline, Recovering, Failed}"
  using assms
proof (induction reqs arbitrary: r d)
  case Nil
  then show ?case by (auto simp: run_Nil)
next
  case (Cons q reqs)
  obtain j to where q: "q = (j, to)" by fastforce
  from Cons.prems(1) q obtain m where m: "trans j to r = Inr m" "run reqs m r'"
    by (auto simp: run_Cons)
  have "\<exists>d'. status_of i m = Some d' \<and> d' \<in> {Offline, Recovering, Failed}"
  proof (cases "j = i")
    case True
    obtain from' where "status_of i r = Some from'" "isValidTransition from' to"
      using trans_edge[OF m(1)] True by auto
    then have "to \<in> {Offline, Recovering, Failed}"
      using Cons.prems(2-4) q True by (auto simp: isValidTransition_def)
    then show ?thesis using trans_sets[OF m(1)] True by auto
  next
    case False
    then show ?thesis using trans_frame[OF m(1), of i] Cons.prems(2,3) by auto
  qed
  then show ?case using Cons.IH[OF m(2)] Cons.prems(4) by auto
qed

end

section \<open>The repository implements the interface\<close>

lemma getById_map:
  assumes "\<And>n. n_id (f n) = n_id n"
  shows "find (\<lambda>n. n_id n = i) (map f ns) = map_option f (find (\<lambda>n. n_id n = i) ns)"
  using assms by (induction ns) auto

lemma find_unique_id:
  "distinct (map f xs) \<Longrightarrow> x \<in> set xs \<Longrightarrow> find (\<lambda>y. f y = f x) xs = Some x"
proof (induction xs)
  case Nil
  then show ?case by simp
next
  case (Cons z zs)
  then show ?case by (cases "z = x") (auto simp: image_iff)
qed

lemma find_exists: "find P xs = Some x \<Longrightarrow> x \<in> set xs \<and> P x"
  by (induction xs) (auto split: if_splits)

lemma transition_cas_Inr:
  assumes "transition_cas n to reason by t s = Inr (n', s')"
  shows "nodes s' = map (\<lambda>m. if n_id m = n_id n \<and> n_status m = n_status n
        then (clear_drain (n_status n) to m)\<lparr>n_status := to, n_updatedAt := t\<rparr> else m) (nodes s)"
    and "transitions s' = transitions s @ [\<lparr>t_nodeId = n_id n, t_from = n_status n, t_to = to,
        t_reason = reason, t_triggeredBy = by, t_createdAt = t\<rparr>]"
    and "now s' = now s" "\<exists>m \<in> set (nodes s). n_id m = n_id n \<and> n_status m = n_status n"
    and "n' = (clear_drain (n_status n) to n)\<lparr>n_status := to, n_updatedAt := t\<rparr>"
  using assms by (auto simp: transition_cas_def update_nodes_def Let_def filter_empty_conv split: if_splits)

lemma clear_drain_id [simp]: "n_id (clear_drain from to n) = n_id n"
  by (simp add: clear_drain_def)

lemma transition_status:
  assumes "transition i to reason by s = Inr (n, s')"
  shows "\<exists>from. getStatus i s = Some from \<and> isValidTransition from to"
    and "getStatus i s' = Some to" "j \<noteq> i \<Longrightarrow> getById j s' = getById j s"
proof -
  from assms obtain m where m: "getById i s = Some m" "isValidTransition (n_status m) to"
    "transition_cas m to reason by (now s) s = Inr (n, s')"
    by (auto simp: transition_def transition_read_def rbind_Inr_iff split: option.splits if_splits)
  note c = transition_cas_Inr[OF m(3)]
  have id: "n_id m = i" using m(1) find_exists by (fastforce simp: getById_def)
  show "\<exists>from. getStatus i s = Some from \<and> isValidTransition from to"
    using m by (simp add: getStatus_def)
  let ?f = "\<lambda>x. if n_id x = n_id m \<and> n_status x = n_status m
        then (clear_drain (n_status m) to x)\<lparr>n_status := to, n_updatedAt := now s\<rparr> else x"
  have look: "getById k s' = map_option ?f (getById k s)" for k
    unfolding getById_def c(1) by (rule getById_map) simp
  show "getStatus i s' = Some to" using m(1) id by (simp add: getStatus_def look)
  show "getById j s' = getById j s" if "j \<noteq> i"
  proof (cases "getById j s")
    case None
    then show ?thesis by (simp add: look)
  next
    case (Some x)
    then have "n_id x = j" using find_exists by (fastforce simp: getById_def)
    then show ?thesis using Some that id by (simp add: look)
  qed
qed

definition repo_transition :: "string \<Rightarrow> node_status \<Rightarrow> fleet \<Rightarrow> node_error + fleet" where
  "repo_transition i to s = rbind (transition i to [] [] s) (\<lambda>(_, s'). Inr s')"

interpretation drizzle: node_repo getStatus repo_transition
proof unfold_locales
  fix i to s s' j
  assume "repo_transition i to s = Inr s'"
  then obtain n where t: "transition i to [] [] s = Inr (n, s')"
    by (auto simp: repo_transition_def rbind_Inr_iff)
  show "\<exists>from. getStatus i s = Some from \<and> isValidTransition from to" "getStatus i s' = Some to"
    using transition_status[OF t] by auto
  show "j \<noteq> i \<Longrightarrow> getStatus j s' = getStatus j s"
    using transition_status(3)[OF t] by (simp add: getStatus_def)
qed

text \<open>The gate of the state machine: in any sequence of successful repository transitions, a node
  that is offline, recovering or failed is still dead at the end unless one of the requests moved
  it to returning; in particular it cannot become active without it.\<close>

theorem dead_nodes_gated:
  assumes "rfold (\<lambda>r (i, to). repo_transition i to r) s reqs = Inr s'"
    and "getStatus i s = Some d" "d \<in> {Offline, Recovering, Failed}" "(i, Returning) \<notin> set reqs"
  shows "\<exists>d'. getStatus i s' = Some d' \<and> d' \<in> {Offline, Recovering, Failed}"
  using drizzle.dead_until_returning assms unfolding drizzle.run_def by blast

definition demo_fleet :: fleet where
  "demo_fleet = \<lparr>nodes = [(blank_node ''n1'' ''h'' 0)\<lparr>n_status := Offline, n_capacityMb := 1000,
        n_lastHeartbeatAt := Some 0\<rparr>,
      (blank_node ''n2'' ''h'' 0)\<lparr>n_status := Active, n_capacityMb := 500, n_lastHeartbeatAt := Some 5\<rparr>],
     transitions = [], now = 100\<rparr>"

theorem dead_nodes_gated_witness:
  "\<exists>s'. rfold (\<lambda>r (i, to). repo_transition i to r) demo_fleet [(''n1'', Recovering), (''n2'', Draining)] = Inr s'
     \<and> (\<exists>d'. getStatus ''n1'' s' = Some d' \<and> d' \<in> {Offline, Recovering, Failed})"
proof -
  let ?r = "rfold (\<lambda>r (i, to). repo_transition i to r) demo_fleet [(''n1'', Recovering), (''n2'', Draining)]"
  have "\<not> isl ?r" by code_simp
  then obtain s' where r: "?r = Inr s'" by (cases ?r) auto
  have "getStatus ''n1'' demo_fleet = Some Offline" by code_simp
  then show ?thesis using dead_nodes_gated[OF r, of "''n1''" Offline] r by simp
qed

section \<open>The transition log under concurrency\<close>

text \<open>
  Any number of callers: each reads (and then holds the row it read and its target) and later
  commits, possibly on stale data; registrations, heartbeats, capacity updates and provisioning
  updates come in between. The two updates that bypass the graph are left out, and so is the
  deletion of rows.
\<close>

type_synonym pending = "(node \<times> node_status) set"

inductive fleet_step :: "fleet \<times> pending \<Rightarrow> fleet \<times> pending \<Rightarrow> bool" where
  fs_read: "transition_read i to s = Inr n \<Longrightarrow> fleet_step (s, P) (s, insert (n, to) P)"
| fs_commit: "(n, to) \<in> P \<Longrightarrow> transition_cas n to reason by t s = Inr (n', s') \<Longrightarrow> fleet_step (s, P) (s', P)"
| fs_insert: "insert_node n s = Inr s' \<Longrightarrow> n_status n = Provisioning \<Longrightarrow> fleet_step (s, P) (s', P)"
| fs_metadata: "fleet_step (s, P) (update_metadata d s, P)"
| fs_heartbeat: "updateHeartbeat i used s = Inr s' \<Longrightarrow> fleet_step (s, P) (s', P)"
| fs_capacity: "addCapacity i delta s = Inr s' \<Longrightarrow> fleet_step (s, P) (s', P)"
| fs_data: "fleet_step (s, P) (updateProvisionData i host droplet capacity cost s, P)"
| fs_stage: "fleet_step (s, P) (updateProvisionStage i stage s, P)"
| fs_tick: "fleet_step (s, P) (s\<lparr>now := t\<rparr>, P)"

fun chain :: "node_status \<Rightarrow> transition_row list \<Rightarrow> node_status \<Rightarrow> bool" where
  "chain a [] b \<longleftrightarrow> a = b"
| "chain a (t # ts) b \<longleftrightarrow> t_from t = a \<and> isValidTransition a (t_to t) \<and> chain (t_to t) ts b"

lemma chain_snoc: "chain a (ts @ [t]) b \<longleftrightarrow> (\<exists>c. chain a ts c \<and> t_from t = c \<and> isValidTransition c (t_to t) \<and> b = t_to t)"
  by (induction ts arbitrary: a) auto

definition node_log :: "string \<Rightarrow> fleet \<Rightarrow> transition_row list" where
  "node_log i s = filter (\<lambda>t. t_nodeId t = i) (transitions s)"

definition log_inv :: "fleet \<times> pending \<Rightarrow> bool" where
  "log_inv = (\<lambda>(s, P). distinct (map n_id (nodes s))
     \<and> (\<forall>n \<in> set (nodes s). chain Provisioning (node_log (n_id n) s) (n_status n))
     \<and> (\<forall>t \<in> set (transitions s). t_nodeId t \<in> n_id ` set (nodes s))
     \<and> (\<forall>(n, to) \<in> P. isValidTransition (n_status n) to))"

text \<open>Updates that keep ids, statuses and the log keep the invariant.\<close>

lemma log_inv_update:
  assumes "log_inv (s, P)" "\<And>n. n_id (f n) = n_id n \<and> n_status (f n) = n_status n"
  shows "log_inv (s\<lparr>nodes := map (\<lambda>n. if p n then f n else n) (nodes s)\<rparr>, P)"
proof -
  define g where "g n = (if p n then f n else n)" for n
  have id: "n_id (g n) = n_id n" and st: "n_status (g n) = n_status n" for n using assms(2) by (auto simp: g_def)
  have ids: "map n_id (map g (nodes s)) = map n_id (nodes s)" by (simp add: id)
  then have dist: "distinct (map n_id (map g (nodes s)))"
    using assms(1) unfolding log_inv_def by (simp only: prod.case)
  have img: "n_id ` set (map g (nodes s)) = n_id ` set (nodes s)" using ids by (metis set_map)
  have "\<forall>n \<in> set (map g (nodes s)). chain Provisioning (node_log (n_id n) s) (n_status n)"
    using assms(1) by (auto simp: log_inv_def id st)
  then have "log_inv (s\<lparr>nodes := map g (nodes s)\<rparr>, P)"
    using assms(1) dist img unfolding log_inv_def by (simp add: node_log_def del: set_map map_map)
  then show ?thesis by (simp add: g_def[abs_def])
qed

lemma log_inv_commit:
  assumes "log_inv (s, P)" "(n, to) \<in> P" "transition_cas n to reason by t s = Inr (n', s')"
  shows "log_inv (s', P)"
proof -
  note c = transition_cas_Inr[OF assms(3)]
  let ?g = "\<lambda>m. if n_id m = n_id n \<and> n_status m = n_status n
        then (clear_drain (n_status n) to m)\<lparr>n_status := to, n_updatedAt := t\<rparr> else m"
  have valid: "isValidTransition (n_status n) to" using assms(1,2) by (auto simp: log_inv_def)
  have ids: "map n_id (nodes s') = map n_id (nodes s)" by (simp add: c(1) comp_def)
  have dist: "distinct (map n_id (nodes s))" using assms(1) by (simp add: log_inv_def)
  obtain m0 where m0: "m0 \<in> set (nodes s)" "n_id m0 = n_id n" "n_status m0 = n_status n"
    using c(4) by blast
  have "chain Provisioning (node_log (n_id (?g m)) s') (n_status (?g m))" if m: "m \<in> set (nodes s)" for m
  proof (cases "n_id m = n_id n")
    case True
    then have "m = m0" using dist m m0 by (auto simp: distinct_map inj_on_def)
    moreover have "chain Provisioning (node_log (n_id n) s) (n_status n)"
      using assms(1) m0 by (force simp: log_inv_def)
    ultimately show ?thesis
      using m0 valid by (simp add: node_log_def c(2) chain_snoc)
  next
    case False
    then show ?thesis using assms(1) m by (auto simp: node_log_def c(2) log_inv_def)
  qed
  then have "\<forall>x \<in> set (nodes s'). chain Provisioning (node_log (n_id x) s') (n_status x)"
    unfolding c(1) by (simp only: set_map ball_simps) blast
  moreover have img: "n_id ` set (nodes s') = n_id ` set (nodes s)" using ids by (metis set_map)
  moreover have "n_id n \<in> n_id ` set (nodes s)" using m0 by (metis imageI)
  ultimately show ?thesis
    using assms(1) ids unfolding log_inv_def prod.case img c(2) by simp
qed

lemma fleet_step_inv: "fleet_step x y \<Longrightarrow> log_inv x \<Longrightarrow> log_inv y"
proof (induction rule: fleet_step.induct)
  case (fs_read i to s n P)
  then show ?case by (auto simp: log_inv_def transition_read_def split: option.splits if_splits)
next
  case (fs_commit n to P reason by' t s n' s')
  then show ?case using log_inv_commit by blast
next
  case (fs_insert n s s' P)
  then have "n_id n \<notin> n_id ` set (nodes s)" "\<forall>t \<in> set (transitions s). t_nodeId t \<in> n_id ` set (nodes s)"
    by (auto simp: insert_node_def log_inv_def split: if_splits)
  then have "node_log (n_id n) s = []" unfolding node_log_def filter_empty_conv by metis
  then show ?case using fs_insert
    by (auto simp: insert_node_def log_inv_def node_log_def split: if_splits)
next
  case (fs_tick s P t)
  then show ?case by (simp add: log_inv_def node_log_def)
qed (auto simp: update_metadata_def updateHeartbeat_def addCapacity_def updateProvisionData_def
    updateProvisionStage_def update_nodes_def Let_def intro!: log_inv_update split: if_splits)



text \<open>
  The bypass: from an active node \<open>markFailed\<close> goes straight to failed, an edge the graph does
  not have, and writes no log entry.
\<close>

lemma markFailed_bypasses:
  "getStatus ''n2'' demo_fleet = Some Active \<and> \<not> isValidTransition Active Failed
   \<and> getStatus ''n2'' (markFailed ''n2'' ''e'' demo_fleet) = Some Failed
   \<and> transitions (markFailed ''n2'' ''e'' demo_fleet) = transitions demo_fleet"
  by code_simp

section \<open>Placement chooses the emptiest node that fits\<close>

lemma sort_head:
  assumes "sort_key k xs = y # ys"
  shows "y \<in> set xs" "\<forall>x \<in> set xs. k y \<le> k x"
proof -
  have set: "set (y # ys) = set xs" using assms by (metis set_sort)
  then show "y \<in> set xs" by auto
  have "sorted (map k (y # ys))" using assms by (metis sorted_sort_key)
  then have "\<forall>x \<in> set (y # ys). k y \<le> k x" by auto
  then show "\<forall>x \<in> set xs. k y \<le> k x" unfolding set .
qed

lemma sort_empty: "sort_key k xs = [] \<longleftrightarrow> xs = []"
  by (metis length_0_conv length_sort)

text \<open>Placement and target selection both return an active node with room for the request (and not an
  excluded one) whose free memory no other such node exceeds, and return nothing only when no
  active node has room.\<close>

theorem placement_best:
  "(case findPlacementExcluding ns exclude req of
      None \<Rightarrow> \<forall>n \<in> set ns. n_status n = Active \<and> n_id n \<notin> set exclude \<longrightarrow> free_mb n < req
    | Some p \<Rightarrow> (\<exists>n \<in> set ns. n_id n = pl_nodeId p \<and> n_host n = pl_host p \<and> free_mb n = pl_availableMb p
          \<and> n_status n = Active \<and> n_id n \<notin> set exclude)
        \<and> req \<le> pl_availableMb p
        \<and> (\<forall>n \<in> set ns. n_status n = Active \<and> n_id n \<notin> set exclude \<longrightarrow> free_mb n \<le> pl_availableMb p))
   \<and> (case findBestTarget i req s of
      None \<Rightarrow> \<forall>n \<in> set (nodes s). n_status n = Active \<and> n_id n \<noteq> i \<longrightarrow> free_mb n < req
    | Some b \<Rightarrow> b \<in> set (nodes s) \<and> n_status b = Active \<and> n_id b \<noteq> i \<and> req \<le> free_mb b
        \<and> (\<forall>n \<in> set (nodes s). n_status n = Active \<and> n_id n \<noteq> i \<longrightarrow> free_mb n \<le> free_mb b))"
  (is "?place \<and> ?target")
proof
  let ?ok = "\<lambda>n. n_status n = Active \<and> req \<le> free_mb n"
  let ?ns = "filter (\<lambda>n. n_id n \<notin> set exclude) ns"
  have f: "findPlacementExcluding ns exclude req = findPlacement ?ns req"
    by (simp add: findPlacementExcluding_def)
  show ?place
  proof (cases "sort_key (\<lambda>n. - free_mb n) (filter ?ok ?ns)")
    case Nil
    then show ?thesis unfolding f findPlacement_def by (auto simp: sort_empty filter_empty_conv)
  next
    case (Cons b bs)
    have "findPlacement ?ns req = Some \<lparr>pl_nodeId = n_id b, pl_host = n_host b, pl_availableMb = free_mb b\<rparr>"
      unfolding findPlacement_def Cons by simp
    then show ?thesis unfolding f using sort_head[OF Cons] by force
  qed
  let ?fit = "\<lambda>n. n_status n = Active \<and> n_id n \<noteq> i \<and> req \<le> free_mb n"
  show ?target
  proof (cases "sort_key (\<lambda>n. - free_mb n) (filter ?fit (nodes s))")
    case Nil
    then show ?thesis by (auto simp: findBestTarget_def sort_empty filter_empty_conv)
  next
    case (Cons b bs)
    have "findBestTarget i req s = Some b" by (simp add: findBestTarget_def Cons)
    then show ?thesis using sort_head[OF Cons] by force
  qed
qed

theorem placement_best_witness:
  "\<exists>p. findPlacementExcluding (nodes demo_fleet) [''n1''] 100 = Some p \<and> 100 \<le> pl_availableMb p
     \<and> free_mb (nodes demo_fleet ! 1) \<le> pl_availableMb p"
proof -
  have "\<not> Option.is_none (findPlacementExcluding (nodes demo_fleet) [''n1''] 100)" by code_simp
  then obtain p where p: "findPlacementExcluding (nodes demo_fleet) [''n1''] 100 = Some p"
    by (cases "findPlacementExcluding (nodes demo_fleet) [''n1''] 100") auto
  have n: "nodes demo_fleet ! 1 \<in> set (nodes demo_fleet)" "n_status (nodes demo_fleet ! 1) = Active"
    "n_id (nodes demo_fleet ! 1) \<notin> set [''n1'']" by code_simp+
  show ?thesis
    using conjunct1[OF placement_best[of "nodes demo_fleet" "[''n1'']" 100 demo_fleet "''x''"]] p n
    by auto
qed

section \<open>What a watchdog check does\<close>

text \<open>The status a node should have after a check at time \<open>t\<close>.\<close>

definition watched_status :: "watchdog \<Rightarrow> int \<Rightarrow> node \<Rightarrow> node_status" where
  "watched_status w t n =
     (case n_lastHeartbeatAt n of
        None \<Rightarrow> n_status n
      | Some hb \<Rightarrow>
          if n_status n = Unhealthy \<and> w_offlineThresholdS w \<le> t - hb then Offline
          else if n_status n = Active \<and> w_unhealthyThresholdS w \<le> t - hb then Unhealthy
          else n_status n)"

lemma transition_ok:
  assumes "getById i s = Some n" "isValidTransition (n_status n) to"
  shows "\<exists>n' s'. transition i to reason by s = Inr (n', s') \<and> now s' = now s"
proof -
  have "n \<in> set (nodes s)" using assms(1) find_exists by (fastforce simp: getById_def)
  then have "filter (\<lambda>m. n_id m = n_id n \<and> n_status m = n_status n) (nodes s) \<noteq> []"
    by (auto simp: filter_empty_conv)
  then show ?thesis
    using assms by (simp add: transition_def transition_read_def transition_cas_def update_nodes_def Let_def)
qed

lemma watch_node_effect:
  assumes "getById (n_id n) (ws_fleet s) = Some n"
  shows "\<exists>s'. watch_node w t n s = (Inr (), s')
    \<and> getStatus (n_id n) (ws_fleet s') = Some (watched_status w t n)
    \<and> (\<forall>j. j \<noteq> n_id n \<longrightarrow> getById j (ws_fleet s') = getById j (ws_fleet s))
    \<and> ws_recoveries s' = ws_recoveries s @ (if n_status n = Unhealthy \<and> watched_status w t n = Offline then [n_id n] else [])"
proof -
  have st: "getStatus (n_id n) (ws_fleet s) = Some (n_status n)" using assms by (simp add: getStatus_def)
  have go: "\<exists>m f. transition (n_id n) to r b (ws_fleet s) = Inr (m, f) \<and> getStatus (n_id n) f = Some to
      \<and> (\<forall>j. j \<noteq> n_id n \<longrightarrow> getById j f = getById j (ws_fleet s))"
    if "isValidTransition (n_status n) to" for to r b
    using transition_ok[OF assms that, of r b] transition_status by metis
  show ?thesis
  proof (cases "n_lastHeartbeatAt n")
    case None
    then show ?thesis using st by (simp add: watch_node_def watched_status_def areturn_def)
  next
    case (Some hb)
    consider "n_status n = Unhealthy" "w_offlineThresholdS w \<le> t - hb"
      | "n_status n = Active" "w_unhealthyThresholdS w \<le> t - hb"
      | "\<not> (n_status n = Unhealthy \<and> w_offlineThresholdS w \<le> t - hb)"
        "\<not> (n_status n = Active \<and> w_unhealthyThresholdS w \<le> t - hb)" by blast
    then show ?thesis
    proof cases
      case 1
      then show ?thesis using Some go[of Offline "''heartbeat_timeout''" "''heartbeat_watchdog''"]
        by (auto simp: watch_node_def watched_status_def on_fleet_def act_defs isValidTransition_def Let_def)
    next
      case 2
      then show ?thesis using Some go[of Unhealthy "''heartbeat_timeout''" "''heartbeat_watchdog''"]
        by (auto simp: watch_node_def watched_status_def on_fleet_def act_defs isValidTransition_def Let_def)
    next
      case 3
      then show ?thesis using Some st
        by (auto simp: watch_node_def watched_status_def areturn_def Let_def)
    qed
  qed
qed

lemma watch_all:
  assumes "distinct (map n_id ns)" "\<forall>n \<in> set ns. getById (n_id n) (ws_fleet s) = Some n"
  shows "\<exists>s'. afor (watch_node w t) ns s = (Inr (), s')
    \<and> (\<forall>n \<in> set ns. getStatus (n_id n) (ws_fleet s') = Some (watched_status w t n))
    \<and> (\<forall>j. j \<notin> n_id ` set ns \<longrightarrow> getById j (ws_fleet s') = getById j (ws_fleet s))
    \<and> ws_recoveries s' = ws_recoveries s
        @ map n_id (filter (\<lambda>n. n_status n = Unhealthy \<and> watched_status w t n = Offline) ns)"
  using assms
proof (induction ns arbitrary: s)
  case Nil
  then show ?case by (simp add: areturn_def)
next
  case (Cons n ns)
  obtain s1 where s1: "watch_node w t n s = (Inr (), s1)"
    "getStatus (n_id n) (ws_fleet s1) = Some (watched_status w t n)"
    "\<forall>j. j \<noteq> n_id n \<longrightarrow> getById j (ws_fleet s1) = getById j (ws_fleet s)"
    "ws_recoveries s1 = ws_recoveries s @ (if n_status n = Unhealthy \<and> watched_status w t n = Offline then [n_id n] else [])"
    using watch_node_effect[of n s w t] Cons.prems(2) by auto
  have "\<forall>m \<in> set ns. getById (n_id m) (ws_fleet s1) = Some m"
    using Cons.prems s1(3) by (metis (no_types, lifting) distinct.simps(2) image_eqI list.set_intros(2) list.set_map list.simps(9))
  then obtain s' where s': "afor (watch_node w t) ns s1 = (Inr (), s')"
    "\<forall>n \<in> set ns. getStatus (n_id n) (ws_fleet s') = Some (watched_status w t n)"
    "\<forall>j. j \<notin> n_id ` set ns \<longrightarrow> getById j (ws_fleet s') = getById j (ws_fleet s1)"
    "ws_recoveries s' = ws_recoveries s1
        @ map n_id (filter (\<lambda>n. n_status n = Unhealthy \<and> watched_status w t n = Offline) ns)"
    using Cons.IH[of s1] Cons.prems(1) by auto
  have run: "afor (watch_node w t) (n # ns) s = (Inr (), s')" using s1(1) s'(1) by (simp add: abind_def)
  have "n_id n \<notin> n_id ` set ns" using Cons.prems(1) by simp
  then have "getStatus (n_id n) (ws_fleet s') = Some (watched_status w t n)"
    using s'(3) s1(2) by (simp add: getStatus_def)
  then show ?case using run s1 s' by (intro exI[of _ s']) auto
qed

lemma check_spec:
  assumes "distinct (map n_id (nodes f))" "check w f = (r, s)"
  shows "r = Inr () \<and> (\<forall>n \<in> set (nodes f). getStatus (n_id n) (ws_fleet s) = Some (watched_status w (now f) n))
    \<and> ws_recoveries s = map n_id (filter (\<lambda>n. n_status n = Unhealthy \<and> watched_status w (now f) n = Offline) (nodes f))"
proof -
  let ?ns = "list_nodes [Active, Unhealthy] f"
  have ns: "?ns = filter (\<lambda>n. n_status n \<in> {Active, Unhealthy}) (nodes f)" by (simp add: list_nodes_def)
  have look: "\<forall>n \<in> set (nodes f). getById (n_id n) f = Some n"
    using find_unique_id[OF assms(1)] by (simp add: getById_def)
  have "distinct (map n_id ?ns)" using assms(1) by (simp add: ns distinct_map_filter)
  from watch_all[OF this, of "\<lparr>ws_fleet = f, ws_changes = [], ws_recoveries = []\<rparr>" w "now f"]
  obtain s' where s': "afor (watch_node w (now f)) ?ns \<lparr>ws_fleet = f, ws_changes = [], ws_recoveries = []\<rparr> = (Inr (), s')"
    "\<forall>n \<in> set ?ns. getStatus (n_id n) (ws_fleet s') = Some (watched_status w (now f) n)"
    "\<forall>j. j \<notin> n_id ` set ?ns \<longrightarrow> getById j (ws_fleet s') = getById j f"
    "ws_recoveries s' = map n_id (filter (\<lambda>n. n_status n = Unhealthy \<and> watched_status w (now f) n = Offline) ?ns)"
    using look by (auto simp: ns)
  have run: "r = Inr ()" "s = s'" using s'(1) assms(2) by (simp_all add: check_def)
  have "getStatus (n_id n) (ws_fleet s) = Some (watched_status w (now f) n)" if n: "n \<in> set (nodes f)" for n
  proof (cases "n \<in> set ?ns")
    case True
    then show ?thesis using s'(2) run by blast
  next
    case False
    then have "n_id n \<notin> n_id ` set ?ns"
      using n assms(1) by (auto simp: ns distinct_map inj_on_def)
    moreover have "watched_status w (now f) n = n_status n"
      using False n by (auto simp: ns watched_status_def split: option.splits)
    ultimately show ?thesis using s'(3) run look n by (simp add: getStatus_def)
  qed
  moreover have "ws_recoveries s = map n_id (filter (\<lambda>n. n_status n = Unhealthy \<and> watched_status w (now f) n = Offline) (nodes f))"
    using s'(4) run by (simp add: ns) (metis (mono_tags, lifting))
  ultimately show ?thesis using run by blast
qed

text \<open>A check never fails on a table with unique ids: every active node silent for the unhealthy
  threshold becomes unhealthy, every unhealthy one silent for the offline threshold goes offline and
  is handed to recovery exactly once, in table order, and no other node changes.\<close>

theorem watchdog_check:
  assumes "distinct (map n_id (nodes f))" "check w f = (r, s)"
  shows "r = Inr () \<and> (\<forall>n \<in> set (nodes f). getStatus (n_id n) (ws_fleet s) = Some (watched_status w (now f) n))
    \<and> ws_recoveries s = map n_id (filter (\<lambda>n. n_status n = Unhealthy \<and> watched_status w (now f) n = Offline) (nodes f))"
  using assms by (rule check_spec)

theorem watchdog_check_witness:
  "fst (check default_watchdog demo_fleet) = Inr ()
   \<and> getStatus ''n2'' (ws_fleet (snd (check default_watchdog demo_fleet))) = Some Unhealthy"
proof -
  obtain r s where rs: "check default_watchdog demo_fleet = (r, s)" by fastforce
  have "distinct (map n_id (nodes demo_fleet))" by code_simp
  from watchdog_check[OF this rs] have "r = Inr () \<and> getStatus ''n2'' (ws_fleet s) = Some Unhealthy"
    by (simp add: demo_fleet_def blank_node_def watched_status_def default_watchdog_def)
  then show ?thesis unfolding rs by simp
qed

end
