(* ===== verification/Metering.thy ===== *)
theory Metering
  imports Credit
begin

text \<open>
  The meter event pipeline of \<open>src/metering/\<close>: the write-ahead log and the dead-letter file of
  \<open>wal.ts\<close> and \<open>dlq.ts\<close>, the event table of \<open>meter-event-repository.ts\<close>, and the emitter of
  \<open>emitter.ts\<close> that moves events from memory and log into the table. The emitter's methods await
  in the middle, so each is given as the synchronous pieces between its awaits, composed the way
  the code composes them, and the theorems are about any interleaving of the pieces with crashes.
\<close>

section \<open>Events\<close>

text \<open>A \<open>Credit\<close> serialises to its raw number: the same record holds either.\<close>

record 'c meter_event =
  me_id :: string
  me_tenant :: string
  me_cost :: 'c
  me_charge :: 'c
  me_capability :: string
  me_provider :: string
  me_timestamp :: int
  me_sessionId :: "string option"
  me_duration :: "int option"
  me_usage :: "(rat \<times> string) option"
  me_tier :: "string option"
  me_metadata :: "string option"

type_synonym event = "credit meter_event"

record meter_row =
  r_id :: string
  r_tenant :: string
  r_cost :: int
  r_charge :: int
  r_capability :: string
  r_provider :: string
  r_timestamp :: int
  r_sessionId :: "string option"
  r_duration :: "int option"
  r_usageUnits :: "rat option"
  r_usageUnitType :: "string option"
  r_tier :: "string option"
  r_metadata :: "string option"

definition to_json :: "event \<Rightarrow> int meter_event" where
  "to_json e = \<lparr>me_id = me_id e, me_tenant = me_tenant e, me_cost = toRaw (me_cost e),
     me_charge = toRaw (me_charge e), me_capability = me_capability e, me_provider = me_provider e,
     me_timestamp = me_timestamp e, me_sessionId = me_sessionId e, me_duration = me_duration e,
     me_usage = me_usage e, me_tier = me_tier e, me_metadata = me_metadata e\<rparr>"

definition reconstitute :: "int meter_event \<Rightarrow> js_error + event" where
  "reconstitute e =
     rbind (fromRaw (of_int (me_cost e))) (\<lambda>cost. rbind (fromRaw (of_int (me_charge e))) (\<lambda>charge.
       Inr \<lparr>me_id = me_id e, me_tenant = me_tenant e, me_cost = cost, me_charge = charge,
         me_capability = me_capability e, me_provider = me_provider e,
         me_timestamp = me_timestamp e, me_sessionId = me_sessionId e, me_duration = me_duration e,
         me_usage = me_usage e, me_tier = me_tier e, me_metadata = me_metadata e\<rparr>))"

definition reconstituteCreditFields :: "int meter_event list \<Rightarrow> js_error + event list" where
  "reconstituteCreditFields = rmap reconstitute"

definition to_row :: "event \<Rightarrow> meter_row" where
  "to_row e = \<lparr>r_id = me_id e, r_tenant = me_tenant e, r_cost = toRaw (me_cost e),
     r_charge = toRaw (me_charge e), r_capability = me_capability e, r_provider = me_provider e,
     r_timestamp = me_timestamp e, r_sessionId = me_sessionId e, r_duration = me_duration e,
     r_usageUnits = map_option fst (me_usage e), r_usageUnitType = map_option snd (me_usage e),
     r_tier = me_tier e, r_metadata = me_metadata e\<rparr>"

section \<open>Event table\<close>

definition existsById :: "string \<Rightarrow> meter_row list \<Rightarrow> bool" where
  "existsById i tab \<longleftrightarrow> i \<in> set (map r_id tab)"

text \<open>One transaction: a duplicate key anywhere in the batch (\<open>None\<close>) undoes all of it.\<close>

fun insertBatch :: "meter_row list \<Rightarrow> meter_row list \<Rightarrow> meter_row list option" where
  "insertBatch [] tab = Some tab"
| "insertBatch (r # rs) tab = (if existsById (r_id r) tab then None else insertBatch rs (tab @ [r]))"

definition queryByTenant :: "string \<Rightarrow> nat \<Rightarrow> meter_row list \<Rightarrow> meter_row list" where
  "queryByTenant tenant limit tab =
     take limit (sort_key (\<lambda>r. - r_timestamp r) (filter (\<lambda>r. r_tenant r = tenant) tab))"

section \<open>Write-ahead log\<close>

text \<open>
  The file is its terminated lines and, after a write cut short, an unterminated last line. A line
  either parses as an event or is malformed. No file is \<open>None\<close>.
\<close>

datatype wal_line = Json "int meter_event" | Malformed

record wal_file =
  wf_lines :: "wal_line list"
  wf_tail :: "wal_line option"

type_synonym wal = "wal_file option"

definition wal_append :: "event \<Rightarrow> wal \<Rightarrow> wal" where
  "wal_append e w =
     (case w of
        None \<Rightarrow> Some \<lparr>wf_lines = [Json (to_json e)], wf_tail = None\<rparr>
      | Some f \<Rightarrow>
          (case wf_tail f of
             None \<Rightarrow> Some (f\<lparr>wf_lines := wf_lines f @ [Json (to_json e)]\<rparr>)
           | Some _ \<Rightarrow> Some \<lparr>wf_lines = wf_lines f @ [Malformed], wf_tail = None\<rparr>))"

fun parse_line :: "wal_line \<Rightarrow> int meter_event option" where
  "parse_line (Json e) = Some e"
| "parse_line Malformed = None"

definition wal_readAll :: "wal \<Rightarrow> int meter_event list" where
  "wal_readAll w =
     (case w of
        None \<Rightarrow> []
      | Some f \<Rightarrow> List.map_filter parse_line
          (wf_lines f @ (case wf_tail f of None \<Rightarrow> [] | Some l \<Rightarrow> [l])))"

definition wal_clear :: "wal \<Rightarrow> wal" where
  "wal_clear w = None"

definition wal_remove :: "string set \<Rightarrow> wal \<Rightarrow> wal" where
  "wal_remove ids w =
     (if w = None \<or> ids = {} then w
      else
        (let filtered = filter (\<lambda>e. me_id e \<notin> ids) (wal_readAll w)
         in if filtered = [] then wal_clear w
            else Some \<lparr>wf_lines = map Json filtered, wf_tail = None\<rparr>))"

definition wal_isEmpty :: "wal \<Rightarrow> bool" where
  "wal_isEmpty w = (case w of None \<Rightarrow> True | Some f \<Rightarrow> wf_lines f = [] \<and> wf_tail f = None)"

definition wal_count :: "wal \<Rightarrow> nat" where
  "wal_count w = length (wal_readAll w)"

definition wal_ids :: "wal \<Rightarrow> string set" where
  "wal_ids w = me_id ` set (wal_readAll w)"

section \<open>Dead-letter file\<close>

record dlq_entry =
  q_event :: "int meter_event"
  q_timestamp :: int
  q_error :: string
  q_retries :: nat

definition dlq_append :: "event \<Rightarrow> int \<Rightarrow> string \<Rightarrow> nat \<Rightarrow> dlq_entry list \<Rightarrow> dlq_entry list" where
  "dlq_append e t err retries q =
     q @ [\<lparr>q_event = to_json e, q_timestamp = t, q_error = err, q_retries = retries\<rparr>]"

definition dlq_ids :: "dlq_entry list \<Rightarrow> string set" where
  "dlq_ids q = (\<lambda>x. me_id (q_event x)) ` set q"

section \<open>Emitter\<close>

text \<open>
  The fields of the object, the two files and the table; then what is held by pending promises:
  events appended to the log and not yet pushed on the buffer, batches handed to \<open>insertBatch\<close>,
  batches inserted whose log entries are still to be removed, failed batches about to be settled,
  and the log content read by the constructor for the replay.
\<close>

record emitter =
  em_buffer :: "event list"
  em_closed :: bool
  em_retry :: "string \<rightharpoonup> nat"
  em_wal :: wal
  em_dlq :: "dlq_entry list"
  em_db :: "meter_row list"
  em_appended :: "event list"
  em_inflight :: "event list list"
  em_inserted :: "event list list"
  em_failing :: "(event list \<times> string set) list"
  em_replay :: "int meter_event list option"
  em_replayed :: "string set"

definition boot :: "wal \<Rightarrow> dlq_entry list \<Rightarrow> meter_row list \<Rightarrow> emitter" where
  "boot w q tab = \<lparr>em_buffer = [], em_closed = False, em_retry = Map.empty, em_wal = w, em_dlq = q,
     em_db = tab, em_appended = [], em_inflight = [], em_inserted = [], em_failing = [],
     em_replay = Some (wal_readAll w), em_replayed = {}\<rparr>"

text \<open>\<open>emit\<close>: the log entry, then the buffer.\<close>

definition emit_append :: "event \<Rightarrow> emitter \<Rightarrow> emitter" where
  "emit_append e s = s\<lparr>em_wal := wal_append e (em_wal s), em_appended := em_appended s @ [e]\<rparr>"

text \<open>\<open>flush\<close> up to the \<open>insertBatch\<close>: the whole buffer becomes the batch.\<close>

definition flush_take :: "emitter \<Rightarrow> emitter" where
  "flush_take s =
     (if em_buffer s = [] then s
      else s\<lparr>em_inflight := em_inflight s @ [em_buffer s], em_buffer := []\<rparr>)"

definition emit_push :: "nat \<Rightarrow> emitter \<Rightarrow> emitter" where
  "emit_push batchSize s =
     (case em_appended s of
        [] \<Rightarrow> s
      | e # es \<Rightarrow>
          (let s1 = s\<lparr>em_appended := es, em_buffer := em_buffer s @ [e]\<rparr>
           in if length (em_buffer s1) \<ge> batchSize then flush_take s1 else s1))"

text \<open>\<open>insertBatch\<close> succeeds.\<close>

definition flush_insert :: "event list \<Rightarrow> emitter \<Rightarrow> emitter option" where
  "flush_insert batch s =
     (case insertBatch (map to_row batch) (em_db s) of
        None \<Rightarrow> None
      | Some tab \<Rightarrow> Some (s\<lparr>em_db := tab, em_inflight := remove1 batch (em_inflight s),
                           em_inserted := em_inserted s @ [batch]\<rparr>))"

text \<open>The log entries of an inserted batch go, then its counters.\<close>

definition flush_clean :: "event list \<Rightarrow> emitter \<Rightarrow> emitter" where
  "flush_clean batch s =
     (let ids = me_id ` set batch
      in s\<lparr>em_wal := wal_remove ids (em_wal s), em_retry := em_retry s |` (- ids),
           em_inserted := remove1 batch (em_inserted s)\<rparr>)"

text \<open>The loop of the catch block: count the failure, dead-letter or keep.\<close>

fun fail_loop ::
  "nat \<Rightarrow> int \<Rightarrow> string \<Rightarrow> event list \<Rightarrow> (string \<rightharpoonup> nat) \<times> dlq_entry list
   \<Rightarrow> (event list \<times> event list) \<times> (string \<rightharpoonup> nat) \<times> dlq_entry list" where
  "fail_loop maxRetries t err [] (rc, q) = (([], []), (rc, q))"
| "fail_loop maxRetries t err (e # es) (rc, q) =
     (let retries = (case rc (me_id e) of None \<Rightarrow> 0 | Some n \<Rightarrow> n) + 1
      in if retries \<ge> maxRetries
         then let ((keep, dead), st) = fail_loop maxRetries t err es
                     (rc(me_id e := None), dlq_append e t err retries q)
              in ((keep, e # dead), st)
         else let ((keep, dead), st) = fail_loop maxRetries t err es (rc(me_id e \<mapsto> retries), q)
              in ((e # keep, dead), st))"

definition flush_fail :: "nat \<Rightarrow> int \<Rightarrow> string \<Rightarrow> event list \<Rightarrow> emitter \<Rightarrow> emitter" where
  "flush_fail maxRetries t err batch s =
     (let ((keep, dead), (rc, q)) = fail_loop maxRetries t err batch (em_retry s, em_dlq s)
      in s\<lparr>em_retry := rc, em_dlq := q, em_failing := em_failing s @ [(keep, me_id ` set dead)]\<rparr>)"

text \<open>The dead letters leave the log, the others go back to the front of the buffer.\<close>

definition flush_settle :: "event list \<times> string set \<Rightarrow> emitter \<Rightarrow> emitter" where
  "flush_settle = (\<lambda>(keep, dead) s.
     s\<lparr>em_wal := (if dead = {} then em_wal s else wal_remove dead (em_wal s)),
       em_buffer := keep @ em_buffer s, em_failing := remove1 (keep, dead) (em_failing s)\<rparr>)"

definition drop_inflight :: "event list \<Rightarrow> emitter \<Rightarrow> emitter" where
  "drop_inflight batch s = s\<lparr>em_inflight := remove1 batch (em_inflight s)\<rparr>"

definition drop_inserted :: "event list \<Rightarrow> emitter \<Rightarrow> emitter" where
  "drop_inserted batch s = s\<lparr>em_inserted := remove1 batch (em_inserted s)\<rparr>"

text \<open>
  The whole method, run without interruption. The database answers (\<open>db_ok\<close>) or refuses, the
  rewrite of the log succeeds (\<open>wal_ok\<close>) or throws into the same catch block.
\<close>

definition flush :: "nat \<Rightarrow> bool \<Rightarrow> bool \<Rightarrow> int \<Rightarrow> string \<Rightarrow> emitter \<Rightarrow> nat \<times> emitter" where
  "flush maxRetries db_ok wal_ok t err s =
     (if em_buffer s = [] then (0, s)
      else
        (let batch = em_buffer s; s1 = flush_take s;
             fail = (\<lambda>s'. let s'' = flush_fail maxRetries t err batch s'
                          in (0, flush_settle (last (em_failing s'')) s''))
         in case (if db_ok then flush_insert batch s1 else None) of
              None \<Rightarrow> fail (drop_inflight batch s1)
            | Some s2 \<Rightarrow> if wal_ok then (length batch, flush_clean batch s2)
                         else fail (drop_inserted batch s2)))"

definition emit :: "nat \<Rightarrow> event \<Rightarrow> emitter \<Rightarrow> emitter" where
  "emit batchSize e s = (if em_closed s then s else emit_push batchSize (emit_append e s))"

text \<open>\<open>replayWAL\<close> on the log content read by the constructor: what the table lacks is buffered.\<close>

definition replay_push :: "emitter \<Rightarrow> js_error + emitter" where
  "replay_push s =
     (case em_replay s of
        None \<Rightarrow> Inr s
      | Some evs \<Rightarrow>
          rbind (reconstituteCreditFields evs) (\<lambda>es.
            let existing = {me_id e |e. e \<in> set es \<and> existsById (me_id e) (em_db s)}
            in Inr (s\<lparr>em_replay := None, em_replayed := existing,
                      em_buffer := em_buffer s @ filter (\<lambda>e. me_id e \<notin> existing) es\<rparr>)))"

definition replay_clean :: "emitter \<Rightarrow> emitter" where
  "replay_clean s =
     s\<lparr>em_wal := (if em_replayed s = {} then em_wal s else wal_remove (em_replayed s) (em_wal s)),
       em_replayed := {}\<rparr>"

definition replayWAL :: "nat \<Rightarrow> bool \<Rightarrow> bool \<Rightarrow> int \<Rightarrow> string \<Rightarrow> emitter \<Rightarrow> js_error + emitter" where
  "replayWAL maxRetries db_ok wal_ok t err s =
     rbind (replay_push s) (\<lambda>s1.
       if em_buffer s1 = em_buffer s then Inr (replay_clean s1)
       else let (flushed, s2) = flush maxRetries db_ok wal_ok t err s1
            in Inr (if flushed = 0 then s2 else replay_clean s2))"

definition close :: "emitter \<Rightarrow> emitter" where
  "close s = flush_take (s\<lparr>em_closed := True\<rparr>)"

definition pending :: "emitter \<Rightarrow> nat" where
  "pending s = length (em_buffer s)"

section \<open>Interleavings\<close>

text \<open>A write cut short: the terminated lines are there, a last line is not terminated.\<close>

definition tear_wal :: "wal_line \<Rightarrow> wal \<Rightarrow> wal option" where
  "tear_wal l w =
     (case w of
        None \<Rightarrow> Some (Some \<lparr>wf_lines = [], wf_tail = Some l\<rparr>)
      | Some f \<Rightarrow> (if wf_tail f = None then Some (Some (f\<lparr>wf_tail := Some l\<rparr>)) else None))"

text \<open>
  \<open>meter_run tear batchSize maxRetries acc s\<close>: the process reaches \<open>s\<close> having accepted the events
  whose ids are in \<open>acc\<close> (their log append returned). A crash loses the memory; with \<open>tear\<close> it may
  also leave an unterminated line of the append it interrupted. The clean-up after a replay may
  come at any time or never, which covers the code's early return.
\<close>

inductive meter_run :: "bool \<Rightarrow> nat \<Rightarrow> nat \<Rightarrow> string set \<Rightarrow> emitter \<Rightarrow> bool"
  for tear :: bool and batchSize maxRetries :: nat where
  run_boot: "meter_run tear batchSize maxRetries {} (boot None [] [])"
| run_append: "meter_run tear batchSize maxRetries acc s \<Longrightarrow> \<not> em_closed s
    \<Longrightarrow> meter_run tear batchSize maxRetries (insert (me_id e) acc) (emit_append e s)"
| run_push: "meter_run tear batchSize maxRetries acc s
    \<Longrightarrow> meter_run tear batchSize maxRetries acc (emit_push batchSize s)"
| run_take: "meter_run tear batchSize maxRetries acc s
    \<Longrightarrow> meter_run tear batchSize maxRetries acc (flush_take s)"
| run_insert: "meter_run tear batchSize maxRetries acc s \<Longrightarrow> batch \<in> set (em_inflight s)
    \<Longrightarrow> flush_insert batch s = Some s' \<Longrightarrow> meter_run tear batchSize maxRetries acc s'"
| run_clean: "meter_run tear batchSize maxRetries acc s \<Longrightarrow> batch \<in> set (em_inserted s)
    \<Longrightarrow> meter_run tear batchSize maxRetries acc (flush_clean batch s)"
| run_refuse: "meter_run tear batchSize maxRetries acc s \<Longrightarrow> batch \<in> set (em_inflight s)
    \<Longrightarrow> meter_run tear batchSize maxRetries acc (flush_fail maxRetries t err batch (drop_inflight batch s))"
| run_clean_fails: "meter_run tear batchSize maxRetries acc s \<Longrightarrow> batch \<in> set (em_inserted s)
    \<Longrightarrow> meter_run tear batchSize maxRetries acc (flush_fail maxRetries t err batch (drop_inserted batch s))"
| run_settle: "meter_run tear batchSize maxRetries acc s \<Longrightarrow> f \<in> set (em_failing s)
    \<Longrightarrow> meter_run tear batchSize maxRetries acc (flush_settle f s)"
| run_replay: "meter_run tear batchSize maxRetries acc s \<Longrightarrow> replay_push s = Inr s'
    \<Longrightarrow> meter_run tear batchSize maxRetries acc s'"
| run_replay_clean: "meter_run tear batchSize maxRetries acc s
    \<Longrightarrow> meter_run tear batchSize maxRetries acc (replay_clean s)"
| run_close: "meter_run tear batchSize maxRetries acc s
    \<Longrightarrow> meter_run tear batchSize maxRetries acc (close s)"
| run_crash: "meter_run tear batchSize maxRetries acc s
    \<Longrightarrow> meter_run tear batchSize maxRetries acc (boot (em_wal s) (em_dlq s) (em_db s))"
| run_tear: "tear \<Longrightarrow> meter_run tear batchSize maxRetries acc s \<Longrightarrow> tear_wal l (em_wal s) = Some w
    \<Longrightarrow> meter_run tear batchSize maxRetries acc (boot w (em_dlq s) (em_db s))"

section \<open>No event is lost\<close>

lemma readAll_append:
  assumes "\<And>f. w = Some f \<Longrightarrow> wf_tail f = None"
  shows "wal_readAll (wal_append e w) = wal_readAll w @ [to_json e]"
  using assms by (cases w) (auto simp: wal_append_def wal_readAll_def map_filter_def)

text \<open>After a line cut short the next event is glued to it and cannot be read back.\<close>

lemma glued_append_unreadable:
  assumes "wf_tail f = Some l"
  shows "wal_readAll (wal_append e (Some f)) = wal_readAll (Some (f\<lparr>wf_tail := None\<rparr>))"
  using assms by (simp add: wal_append_def wal_readAll_def map_filter_def)

lemma readAll_remove: "wal_readAll (wal_remove ids w) = filter (\<lambda>e. me_id e \<notin> ids) (wal_readAll w)"
proof (cases "w = None \<or> ids = {}")
  case True
  then show ?thesis by (auto simp: wal_remove_def wal_readAll_def)
next
  case False
  have "List.map_filter parse_line (map Json es) = es" for es
    by (simp add: map_filter_def comp_def)
  then show ?thesis
    using False by (auto simp: wal_remove_def wal_clear_def wal_readAll_def Let_def)
qed

lemma wal_ids_remove [simp]: "wal_ids (wal_remove ids w) = wal_ids w - ids"
  by (auto simp: wal_ids_def readAll_remove)

lemma tail_remove:
  "(\<And>f. w = Some f \<Longrightarrow> wf_tail f = None) \<Longrightarrow> wal_remove ids w = Some f \<Longrightarrow> wf_tail f = None"
  by (auto simp: wal_remove_def wal_clear_def Let_def split: if_splits)

lemma tail_append: "wal_append e w = Some f \<Longrightarrow> wf_tail f = None"
  by (auto simp: wal_append_def split: option.splits)

lemma insertBatch_ids:
  assumes "insertBatch rs tab = Some tab'"
  shows "tab' = tab @ rs \<and> (distinct (map r_id tab) \<longrightarrow> distinct (map r_id tab'))"
  using assms
proof (induction rs arbitrary: tab)
  case Nil
  then show ?case by simp
next
  case (Cons r rs)
  then have r: "insertBatch rs (tab @ [r]) = Some tab'" "r_id r \<notin> set (map r_id tab)"
    by (auto simp: existsById_def split: if_splits)
  have "tab' = (tab @ [r]) @ rs" "distinct (map r_id (tab @ [r])) \<longrightarrow> distinct (map r_id tab')"
    using Cons.IH[OF r(1)] by blast+
  moreover have "distinct (map r_id tab) \<longrightarrow> distinct (map r_id (tab @ [r]))" using r(2) by simp
  moreover have "(tab @ [r]) @ rs = tab @ r # rs" by simp
  ultimately show ?case by argo
qed

lemma fail_loop_spec:
  assumes "fail_loop m t err es (rc, q) = ((keep, dead), (rc', q'))"
  shows "dlq_ids q' = dlq_ids q \<union> me_id ` set dead"
  using assms
proof (induction es arbitrary: rc q keep dead)
  case Nil
  then show ?case by simp
next
  case (Cons e es)
  then show ?case
    by (fastforce simp: Let_def dlq_append_def dlq_ids_def to_json_def split: if_splits prod.splits)
qed

definition table_ids :: "meter_row list \<Rightarrow> string set" where
  "table_ids tab = set (map r_id tab)"

text \<open>Whatever is about to leave the log is in the table or in the dead-letter file.\<close>

definition safe_removals :: "emitter \<Rightarrow> bool" where
  "safe_removals s \<longleftrightarrow>
     (\<forall>b \<in> set (em_inserted s). me_id ` set b \<subseteq> table_ids (em_db s))
     \<and> (\<forall>(keep, dead) \<in> set (em_failing s). dead \<subseteq> dlq_ids (em_dlq s))
     \<and> em_replayed s \<subseteq> table_ids (em_db s)
     \<and> distinct (map r_id (em_db s))"

definition durable :: "emitter \<Rightarrow> string set" where
  "durable s = table_ids (em_db s) \<union> wal_ids (em_wal s) \<union> dlq_ids (em_dlq s)"

definition ends_clean :: "emitter \<Rightarrow> bool" where
  "ends_clean s \<longleftrightarrow> (\<forall>f. em_wal s = Some f \<longrightarrow> wf_tail f = None)"

definition meter_inv :: "string set \<Rightarrow> emitter \<Rightarrow> bool" where
  "meter_inv acc s \<longleftrightarrow> acc \<subseteq> durable s \<and> safe_removals s \<and> ends_clean s"

lemmas meter_inv_defs = meter_inv_def safe_removals_def durable_def ends_clean_def

lemma inv_memory:
  assumes "meter_inv acc s" "em_wal s' = em_wal s" "em_dlq s' = em_dlq s" "em_db s' = em_db s"
    "set (em_inserted s') \<subseteq> set (em_inserted s)" "set (em_failing s') \<subseteq> set (em_failing s)"
    "em_replayed s' \<subseteq> em_replayed s \<union> table_ids (em_db s)"
  shows "meter_inv acc s'"
  using assms unfolding meter_inv_defs by (auto; blast)

lemma inv_boot: "meter_inv acc s \<Longrightarrow> meter_inv acc (boot (em_wal s) (em_dlq s) (em_db s))"
  by (auto simp: meter_inv_defs boot_def)

lemma inv_append: "meter_inv acc s \<Longrightarrow> meter_inv (insert (me_id e) acc) (emit_append e s)"
proof -
  assume i: "meter_inv acc s"
  then have "wal_readAll (wal_append e (em_wal s)) = wal_readAll (em_wal s) @ [to_json e]"
    by (intro readAll_append) (auto simp: meter_inv_defs)
  then have "wal_ids (wal_append e (em_wal s)) = insert (me_id e) (wal_ids (em_wal s))"
    by (simp add: wal_ids_def to_json_def)
  then show ?thesis using i tail_append by (auto simp: meter_inv_defs emit_append_def)
qed

lemma inv_take: "meter_inv acc s \<Longrightarrow> meter_inv acc (flush_take s)"
  by (erule inv_memory) (simp_all add: flush_take_def)

lemma inv_push: "meter_inv acc s \<Longrightarrow> meter_inv acc (emit_push k s)"
proof -
  assume i: "meter_inv acc s"
  have "meter_inv acc (s\<lparr>em_appended := es, em_buffer := b\<rparr>)" for es b
    using i by (rule inv_memory) simp_all
  then show ?thesis using i by (auto simp: emit_push_def Let_def inv_take split: list.splits)
qed

lemma inv_insert:
  assumes "meter_inv acc s" "flush_insert b s = Some s'"
  shows "meter_inv acc s'"
proof -
  from assms(2) obtain tab where tab: "insertBatch (map to_row b) (em_db s) = Some tab"
    and s': "s' = s\<lparr>em_db := tab, em_inflight := remove1 b (em_inflight s),
                     em_inserted := em_inserted s @ [b]\<rparr>"
    by (auto simp: flush_insert_def split: option.splits)
  have t: "tab = em_db s @ map to_row b" "distinct (map r_id (em_db s)) \<longrightarrow> distinct (map r_id tab)"
    using insertBatch_ids[OF tab] by blast+
  have ids: "table_ids tab = table_ids (em_db s) \<union> me_id ` set b"
    by (force simp: t(1) table_ids_def to_row_def)
  show ?thesis using assms(1) t(2) by (auto simp: meter_inv_defs s' ids)
qed

lemma inv_remove:
  assumes "meter_inv acc s" "ids \<subseteq> table_ids (em_db s) \<union> dlq_ids (em_dlq s)"
  shows "meter_inv acc (s\<lparr>em_wal := wal_remove ids (em_wal s)\<rparr>)"
  using assms tail_remove by (auto simp: meter_inv_defs)

lemma inv_clean:
  assumes "meter_inv acc s" "b \<in> set (em_inserted s)"
  shows "meter_inv acc (flush_clean b s)"
proof -
  have "me_id ` set b \<subseteq> table_ids (em_db s)" using assms by (auto simp: meter_inv_defs)
  then have "meter_inv acc (s\<lparr>em_wal := wal_remove (me_id ` set b) (em_wal s)\<rparr>)"
    by (intro inv_remove[OF assms(1)]) auto
  then show ?thesis
    by (rule inv_memory) (auto simp: flush_clean_def Let_def dest: set_remove1_subset[THEN subsetD])
qed

lemma inv_fail:
  assumes "meter_inv acc s"
  shows "meter_inv acc (flush_fail m t err b s)"
proof -
  obtain keep dead rc q where f: "fail_loop m t err b (em_retry s, em_dlq s) = ((keep, dead), (rc, q))"
    by (metis prod.collapse)
  have "dlq_ids q = dlq_ids (em_dlq s) \<union> me_id ` set dead" by (rule fail_loop_spec[OF f])
  then show ?thesis using assms by (auto simp: meter_inv_defs flush_fail_def f)
qed

lemma inv_drop:
  assumes "meter_inv acc s"
  shows "meter_inv acc (drop_inflight b s)" "meter_inv acc (drop_inserted b s)"
  by (rule inv_memory[OF assms]; auto simp: drop_inflight_def drop_inserted_def
        dest: set_remove1_subset[THEN subsetD])+

lemma inv_settle:
  assumes "meter_inv acc s" "f \<in> set (em_failing s)"
  shows "meter_inv acc (flush_settle f s)"
proof -
  obtain keep dead where f: "f = (keep, dead)" by (cases f)
  have "dead \<subseteq> dlq_ids (em_dlq s)" using assms by (auto simp: meter_inv_defs f)
  then have "meter_inv acc (s\<lparr>em_wal := wal_remove dead (em_wal s)\<rparr>)"
    by (intro inv_remove[OF assms(1)]) auto
  moreover have "wal_remove {} w = w" for w by (simp add: wal_remove_def)
  ultimately show ?thesis
    by (elim inv_memory) (auto simp: flush_settle_def f dest: set_remove1_subset[THEN subsetD])
qed

lemma inv_replay:
  assumes "meter_inv acc s" "replay_push s = Inr s'"
  shows "meter_inv acc s'"
  by (rule inv_memory[OF assms(1)]; use assms(2) in \<open>force simp: replay_push_def rbind_Inr_iff Let_def
        existsById_def table_ids_def split: option.splits\<close>)

lemma inv_replay_clean:
  assumes "meter_inv acc s"
  shows "meter_inv acc (replay_clean s)"
proof -
  have "meter_inv acc (s\<lparr>em_wal := wal_remove (em_replayed s) (em_wal s)\<rparr>)"
    using assms by (intro inv_remove) (auto simp: meter_inv_defs)
  moreover have "wal_remove {} w = w" for w by (simp add: wal_remove_def)
  ultimately show ?thesis by (elim inv_memory) (auto simp: replay_clean_def)
qed

lemma meter_run_inv: "meter_run tear k m acc s \<Longrightarrow> \<not> tear \<Longrightarrow> meter_inv acc s"
proof (induction rule: meter_run.induct)
  case run_boot
  then show ?case by (simp add: meter_inv_defs boot_def table_ids_def)
next
  case (run_close acc s)
  then have i: "meter_inv acc s" by blast
  have "meter_inv acc (s\<lparr>em_closed := True\<rparr>)" using i by (rule inv_memory) simp_all
  then show ?case by (simp add: close_def inv_take)
next
  case (run_insert acc s batch s')
  then show ?case using inv_insert by blast
next
  case (run_replay acc s s')
  then show ?case using inv_replay by blast
qed (simp_all add: inv_boot inv_append inv_push inv_take inv_clean inv_fail inv_drop
      inv_settle inv_replay_clean)


definition demo_event :: event where
  "demo_event = \<lparr>me_id = ''e1'', me_tenant = ''t'', me_cost = Credit 5, me_charge = Credit 7,
     me_capability = ''chat'', me_provider = ''p'', me_timestamp = 61000, me_sessionId = None,
     me_duration = None, me_usage = None, me_tier = None, me_metadata = None\<rparr>"


text \<open>With a torn line the loss is real: accepted, then crashed, then nowhere.\<close>

lemma torn_line_loses_event:
  "\<exists>s. meter_run True 100 3 {''e1''} s \<and> durable s = {}"
proof -
  let ?w = "Some \<lparr>wf_lines = [], wf_tail = Some Malformed\<rparr>" and ?e = demo_event
  have "meter_run True 100 3 {} (boot ?w (em_dlq (boot None [] [])) (em_db (boot None [] [])))"
    by (rule run_tear[where l = Malformed, OF _ run_boot]) (simp_all add: boot_def tear_wal_def)
  then have "meter_run True 100 3 {me_id ?e} (emit_append ?e (boot ?w [] []))"
    by (intro run_append) (simp_all add: boot_def)
  from run_crash[OF this] show ?thesis
    by (intro exI[of _ "boot (em_wal (emit_append ?e (boot ?w [] []))) [] []"])
      (simp add: boot_def emit_append_def demo_event_def wal_append_def durable_def table_ids_def
        wal_ids_def wal_readAll_def dlq_ids_def map_filter_def)
qed

section \<open>Dead letters\<close>

definition counters_ok :: "nat \<Rightarrow> (string \<rightharpoonup> nat) \<Rightarrow> dlq_entry list \<Rightarrow> bool" where
  "counters_ok m rc q \<longleftrightarrow> (\<forall>i n. rc i = Some n \<longrightarrow> n < m) \<and> (\<forall>x \<in> set q. q_retries x = max 1 m)"

lemma fail_loop_counters:
  assumes "fail_loop m t err es (rc, q) = (kd, (rc', q'))" "counters_ok m rc q"
  shows "counters_ok m rc' q'"
  using assms
proof (induction es arbitrary: rc q kd)
  case Nil
  then show ?case by simp
next
  case (Cons e es)
  define n where "n = Suc (case rc (me_id e) of None \<Rightarrow> 0 | Some n \<Rightarrow> n)"
  have n: "n \<ge> m \<Longrightarrow> n = max 1 m"
    using Cons.prems(2) by (fastforce simp: n_def counters_ok_def split: option.splits)
  show ?case
  proof (cases "n \<ge> m")
    case True
    have "counters_ok m (rc(me_id e := None)) (dlq_append e t err n q)"
      using Cons.prems(2) n[OF True] by (auto simp: counters_ok_def dlq_append_def)
    moreover obtain kd' where
      "fail_loop m t err es (rc(me_id e := None), dlq_append e t err n q) = (kd', (rc', q'))"
      using Cons.prems(1) True by (auto simp: n_def[symmetric] Let_def split: prod.splits)
    ultimately show ?thesis using Cons.IH by blast
  next
    case False
    have "counters_ok m (rc(me_id e \<mapsto> n)) q"
      using Cons.prems(2) False by (auto simp: counters_ok_def)
    moreover obtain kd' where "fail_loop m t err es (rc(me_id e \<mapsto> n), q) = (kd', (rc', q'))"
      using Cons.prems(1) False by (auto simp: n_def[symmetric] Let_def split: prod.splits)
    ultimately show ?thesis using Cons.IH by blast
  qed
qed

lemma run_counters: "meter_run tear k m acc s \<Longrightarrow> counters_ok m (em_retry s) (em_dlq s)"
proof (induction rule: meter_run.induct)
  case (run_refuse acc s batch t err)
  then show ?case
    using fail_loop_counters[of m t err batch "em_retry s" "em_dlq s"]
    by (auto simp: flush_fail_def drop_inflight_def split: prod.splits)
next
  case (run_clean_fails acc s batch t err)
  then show ?case
    using fail_loop_counters[of m t err batch "em_retry s" "em_dlq s"]
    by (auto simp: flush_fail_def drop_inserted_def split: prod.splits)
qed (auto simp: counters_ok_def boot_def emit_append_def emit_push_def flush_take_def flush_insert_def
      flush_clean_def flush_settle_def replay_push_def replay_clean_def close_def Let_def
      rbind_Inr_iff restrict_map_def split: option.splits list.splits prod.splits if_splits)

text \<open>Retries are bounded: at any moment every live failure counter is below the maximum, and every
  dead letter records exactly the maximum number of failed attempts (one, when the maximum is
  zero), so no event is dead-lettered early and none is retried for ever.\<close>

theorem dead_letters_after_max_retries:
  assumes "meter_run tear k m acc s"
  shows "(em_retry s i = Some n \<longrightarrow> n < m) \<and> (\<forall>x \<in> set (em_dlq s). q_retries x = max 1 m)"
  using run_counters[OF assms] by (simp add: counters_ok_def)

theorem dead_letters_after_max_retries_witness:
  "\<exists>s x. meter_run False 1 1 {''e1''} s \<and> em_dlq s = [x] \<and> q_retries x = 1"
proof -
  let ?b = "boot None [] []"
  let ?s1 = "emit_push 1 (emit_append demo_event ?b)"
  let ?s2 = "flush_fail 1 0 ''down'' [demo_event] (drop_inflight [demo_event] ?s1)"
  have "meter_run False 1 1 {me_id demo_event} ?s1"
    by (intro run_push run_append run_boot) (simp add: boot_def)
  moreover have "[demo_event] \<in> set (em_inflight ?s1)"
    by (simp add: boot_def emit_append_def emit_push_def flush_take_def)
  ultimately have "meter_run False 1 1 {me_id demo_event} ?s2" by (rule run_refuse)
  then have r: "meter_run False 1 1 {''e1''} ?s2" by (simp add: demo_event_def)
  have "length (em_dlq ?s2) = 1" by code_simp
  then obtain x where x: "em_dlq ?s2 = [x]" by (auto simp: length_Suc_conv)
  show ?thesis using r x dead_letters_after_max_retries[OF r, of "''e1''" 0] by auto
qed

section \<open>Replay after a crash\<close>

lemma reconstitute_ok:
  assumes "\<forall>e \<in> set evs. me_cost e \<le> max_safe_integer \<and> me_charge e \<le> max_safe_integer"
  shows "\<exists>es. reconstituteCreditFields evs = Inr es \<and> map me_id es = map me_id evs"
  using assms
  by (induction evs) (auto simp: reconstituteCreditFields_def reconstitute_def fromRaw_int)

lemma r_id_to_row [simp]: "r_id (to_row e) = me_id e"
  by (simp add: to_row_def)

lemma insertBatch_succeeds:
  assumes "distinct (map r_id rs)" "set (map r_id rs) \<inter> table_ids tab = {}"
  shows "insertBatch rs tab = Some (tab @ rs)"
  using assms
proof (induction rs arbitrary: tab)
  case Nil
  then show ?case by simp
next
  case (Cons r rs)
  then show ?case by (auto simp: existsById_def table_ids_def)
qed

lemma flush_ok:
  assumes "em_buffer s \<noteq> []" "distinct (map me_id (em_buffer s))"
    "me_id ` set (em_buffer s) \<inter> table_ids (em_db s) = {}"
  shows "\<exists>s'. flush m True True t err s = (length (em_buffer s), s')
    \<and> table_ids (em_db s') = table_ids (em_db s) \<union> me_id ` set (em_buffer s)
    \<and> em_wal s' = wal_remove (me_id ` set (em_buffer s)) (em_wal s)
    \<and> em_buffer s' = [] \<and> em_dlq s' = em_dlq s \<and> em_replayed s' = em_replayed s"
proof -
  have r: "map r_id (map to_row es) = map me_id es" for es by simp
  have "insertBatch (map to_row (em_buffer s)) (em_db s) = Some (em_db s @ map to_row (em_buffer s))"
    using assms(2,3) by (intro insertBatch_succeeds) (simp_all add: r del: map_map)
  then show ?thesis using assms(1)
    by (simp add: flush_def flush_take_def flush_insert_def flush_clean_def Let_def table_ids_def
        image_Un image_image)
qed



end
