(* ===== verification/Aggregation.thy ===== *)
theory Aggregation
  imports Metering Ledger
begin

text \<open>
  From the event table to the bill check: the aggregator of \<open>src/metering/aggregator.ts\<close> over the
  summary table of \<open>drizzle-usage-summary-repository.ts\<close>, and the daily comparison of metered
  charges with ledger debits of \<open>reconciliation-cron.ts\<close> and \<open>reconciliation-repository.ts\<close>.
  Row ids are random and read by nothing, so summary rows are kept without them; the rows of a
  \<open>GROUP BY\<close> come in the order of the last event of each group, an order nothing depends on.
\<close>

section \<open>Summary table\<close>

record summary =
  u_tenant :: string
  u_capability :: string
  u_provider :: string
  u_eventCount :: int
  u_totalCost :: int
  u_totalCharge :: int
  u_totalDuration :: int
  u_windowStart :: int
  u_windowEnd :: int

text \<open>\<open>Number(s)\<close> of the decimal text of a sum.\<close>

definition to_number :: "int \<Rightarrow> int" where
  "to_number n = \<lfloor>number_of_bigint n\<rfloor>"

lemma to_number_exact: "\<bar>n\<bar> \<le> 2 ^ 53 \<Longrightarrow> to_number n = n"
  by (simp add: to_number_def number_of_bigint_def fl_of_int)

definition getLastWindowEnd :: "summary list \<Rightarrow> int" where
  "getLastWindowEnd us = (if us = [] then 0 else Max (set (map u_windowEnd us)))"

definition getEarliestEventTimestamp :: "int \<Rightarrow> meter_row list \<Rightarrow> int option" where
  "getEarliestEventTimestamp before tab =
     (let ts = map r_timestamp (filter (\<lambda>r. r_timestamp r < before) tab)
      in if ts = [] then None else Some (Min (set ts)))"

type_synonym group_id = "string \<times> string \<times> string"

definition group_key :: "meter_row \<Rightarrow> group_id" where
  "group_key r = (r_tenant r, r_capability r, r_provider r)"

definition in_span :: "int \<Rightarrow> int \<Rightarrow> meter_row \<Rightarrow> bool" where
  "in_span a b r \<longleftrightarrow> a \<le> r_timestamp r \<and> r_timestamp r < b"

definition group_row :: "int \<Rightarrow> int \<Rightarrow> meter_row list \<Rightarrow> group_id \<Rightarrow> summary" where
  "group_row windowStart windowEnd rs k =
     (let mine = filter (\<lambda>r. group_key r = k) rs
      in \<lparr>u_tenant = fst k, u_capability = fst (snd k), u_provider = snd (snd k),
          u_eventCount = int (length mine),
          u_totalCost = to_number (sum_list (map r_cost mine)),
          u_totalCharge = to_number (sum_list (map r_charge mine)),
          u_totalDuration = to_number (sum_list (map (\<lambda>r. case r_duration r of None \<Rightarrow> 0 | Some d \<Rightarrow> d) mine)),
          u_windowStart = windowStart, u_windowEnd = windowEnd\<rparr>)"

text \<open>The groups of a window, already in the shape the aggregator inserts.\<close>

definition getAggregatedEvents :: "int \<Rightarrow> int \<Rightarrow> meter_row list \<Rightarrow> summary list" where
  "getAggregatedEvents windowStart windowEnd tab =
     (let rs = filter (in_span windowStart windowEnd) tab
      in map (group_row windowStart windowEnd rs) (remdups (map group_key rs)))"

text \<open>The batch insert goes in chunks of a thousand rows.\<close>

fun chunks :: "nat \<Rightarrow> 'a list \<Rightarrow> 'a list list" where
  "chunks n [] = []"
| "chunks n (x # xs) = (x # take (n - 1) xs) # chunks n (drop (n - 1) xs)"

lemma concat_chunks: "concat (chunks n xs) = xs"
  by (induction n xs rule: chunks.induct) auto

definition insertSummariesBatch :: "summary list \<Rightarrow> summary list \<Rightarrow> summary list" where
  "insertSummariesBatch rows us = foldl (@) us (chunks 1000 rows)"

lemma insertSummariesBatch_append: "insertSummariesBatch rows us = us @ rows"
proof -
  have "foldl (@) s xss = s @ concat xss" for s :: "summary list" and xss
    by (induction xss arbitrary: s) auto
  then show ?thesis by (simp add: insertSummariesBatch_def concat_chunks)
qed

definition querySummaries ::
  "string \<Rightarrow> int option \<Rightarrow> int option \<Rightarrow> int option \<Rightarrow> summary list \<Rightarrow> summary list" where
  "querySummaries tenant since until limit us =
     take (nat (min (max 1 (case limit of None \<Rightarrow> 100 | Some l \<Rightarrow> l)) 1000))
       (sort_key (\<lambda>u. - u_windowStart u) (filter (\<lambda>u. u_tenant u = tenant
          \<and> (case since of None \<Rightarrow> True | Some a \<Rightarrow> a \<le> u_windowStart u)
          \<and> (case until of None \<Rightarrow> True | Some b \<Rightarrow> u_windowEnd u \<le> b)) us))"

record tenant_total =
  tt_totalCost :: int
  tt_totalCharge :: int
  tt_eventCount :: int

definition getTenantTotal :: "string \<Rightarrow> int \<Rightarrow> summary list \<Rightarrow> tenant_total" where
  "getTenantTotal tenant since us =
     (let mine = filter (\<lambda>u. u_tenant u = tenant \<and> since \<le> u_windowStart u) us
      in \<lparr>tt_totalCost = to_number (sum_list (map u_totalCost mine)),
          tt_totalCharge = to_number (sum_list (map u_totalCharge mine)),
          tt_eventCount = to_number (sum_list (map u_eventCount mine))\<rparr>)"

section \<open>Aggregator\<close>

definition SENTINEL :: string where
  "SENTINEL = ''__sentinel__''"

definition sentinel :: "int \<Rightarrow> int \<Rightarrow> summary" where
  "sentinel windowStart windowEnd = \<lparr>u_tenant = SENTINEL, u_capability = ''__none__'',
     u_provider = ''__none__'', u_eventCount = 0, u_totalCost = 0, u_totalCharge = 0,
     u_totalDuration = 0, u_windowStart = windowStart, u_windowEnd = windowEnd\<rparr>"

text \<open>One window: its groups, or a sentinel that records it as done.\<close>

definition window_rows :: "int \<Rightarrow> int \<Rightarrow> meter_row list \<Rightarrow> summary list" where
  "window_rows windowStart windowEnd tab =
     (let rows = getAggregatedEvents windowStart windowEnd tab
      in if rows = [] then [sentinel windowStart windowEnd] else rows)"

definition do_window :: "int \<Rightarrow> int \<Rightarrow> meter_row list \<Rightarrow> nat \<times> summary list \<Rightarrow> nat \<times> summary list" where
  "do_window windowStart windowEnd tab = (\<lambda>(inserted, us).
     let rows = getAggregatedEvents windowStart windowEnd tab
     in if rows = [] then (inserted, us @ [sentinel windowStart windowEnd])
        else (inserted + length rows, insertSummariesBatch rows us))"

text \<open>The \<open>while\<close> loop; window lengths are positive.\<close>

function agg_loop ::
  "int \<Rightarrow> int \<Rightarrow> meter_row list \<Rightarrow> int \<Rightarrow> nat \<times> summary list \<Rightarrow> nat \<times> summary list" where
  "agg_loop windowMs currentStart tab lastEnd st =
     (if lastEnd < currentStart \<and> 0 < windowMs
      then let windowEnd = min (lastEnd + windowMs) currentStart
           in agg_loop windowMs currentStart tab windowEnd (do_window lastEnd windowEnd tab st)
      else st)"
  by pat_completeness auto

termination
  by (relation "measure (\<lambda>(w, cur, tab, lastEnd, st). nat (cur - lastEnd))") auto

declare agg_loop.simps [simp del]

definition aggregate :: "int \<Rightarrow> int \<Rightarrow> meter_row list \<Rightarrow> summary list \<Rightarrow> nat \<times> summary list" where
  "aggregate windowMs time tab us =
     (let lastEnd = getLastWindowEnd us; currentStart = (time div windowMs) * windowMs
      in if lastEnd \<ge> currentStart then (0, us)
         else if lastEnd = 0 then
           (case getEarliestEventTimestamp currentStart tab of
              Some earliest \<Rightarrow> agg_loop windowMs currentStart tab ((earliest div windowMs) * windowMs) (0, us)
            | None \<Rightarrow> (0, us @ [sentinel 0 currentStart]))
         else agg_loop windowMs currentStart tab lastEnd (0, us))"

section \<open>Every event counted once\<close>

definition charged :: "string \<Rightarrow> summary list \<Rightarrow> int" where
  "charged t us = sum_list (map u_totalCharge (filter (\<lambda>u. u_tenant u = t) us))"

definition metered :: "string \<Rightarrow> int \<Rightarrow> int \<Rightarrow> meter_row list \<Rightarrow> int" where
  "metered t a b tab = sum_list (map r_charge (filter (\<lambda>r. r_tenant r = t \<and> in_span a b r) tab))"

lemma charged_append [simp]: "charged t (xs @ ys) = charged t xs + charged t ys"
  by (simp add: charged_def)

text \<open>Summing per group and then over the groups is summing.\<close>

lemma group_sum:
  fixes f :: "'a \<Rightarrow> int"
  assumes "distinct ks" "g ` set xs \<subseteq> set ks"
  shows "sum_list (map (\<lambda>k. sum_list (map f (filter (\<lambda>x. g x = k) xs))) (filter P ks))
    = sum_list (map f (filter (\<lambda>x. P (g x)) xs))"
  using assms(2)
proof (induction xs)
  case Nil
  then show ?case by (simp add: sum_list_0)
next
  case (Cons x xs)
  have d: "sum_list (map h (filter P ks)) = (\<Sum>k \<in> {k \<in> set ks. P k}. h k)" for h :: "'b \<Rightarrow> int"
    using assms(1) by (simp add: sum_list_distinct_conv_sum_set)
  have one: "(\<Sum>k \<in> {k \<in> set ks. P k}. if g x = k then f x else 0) = (if P (g x) then f x else 0)"
    using Cons.prems by (simp add: sum.delta')
  have "sum_list (map (\<lambda>k. sum_list (map f (filter (\<lambda>y. g y = k) (x # xs)))) (filter P ks))
    = (\<Sum>k \<in> {k \<in> set ks. P k}. (if g x = k then f x else 0)
         + sum_list (map f (filter (\<lambda>y. g y = k) xs)))"
    unfolding d by (intro sum.cong) auto
  also have "\<dots> = (if P (g x) then f x else 0)
      + sum_list (map (\<lambda>k. sum_list (map f (filter (\<lambda>y. g y = k) xs))) (filter P ks))"
    unfolding sum.distrib one d ..
  finally show ?case using Cons by simp
qed

text \<open>Non-negative charges with a total in the exact range: no group's sum is rounded.\<close>

definition countable_charges :: "meter_row list \<Rightarrow> bool" where
  "countable_charges tab \<longleftrightarrow> (\<forall>r \<in> set tab. 0 \<le> r_charge r) \<and> sum_list (map r_charge tab) \<le> 2 ^ 53"

lemma sum_filter_bound:
  assumes "countable_charges tab"
  shows "\<bar>sum_list (map r_charge (filter P (filter Q tab)))\<bar> \<le> 2 ^ 53"
proof -
  have nn: "0 \<le> sum_list (map r_charge (filter R tab))" for R
    using assms by (intro sum_list_mono_nonneg) (auto simp: countable_charges_def)
  have "sum_list (map r_charge (filter (\<lambda>r. P r \<and> Q r) tab)) \<le> sum_list (map r_charge tab)"
    using nn[of "\<lambda>r. \<not> (P r \<and> Q r)"] sum_list_filter_split[of r_charge tab "\<lambda>r. P r \<and> Q r"] by simp
  then show ?thesis
    using assms nn[of "\<lambda>r. P r \<and> Q r"]
    by (simp add: filter_filter countable_charges_def conj_commute)
qed

lemma charged_window:
  assumes "countable_charges tab" "t \<noteq> SENTINEL"
  shows "charged t (window_rows a b tab) = metered t a b tab"
proof -
  let ?rs = "filter (in_span a b) tab" and ?ks = "remdups (map group_key (filter (in_span a b) tab))"
  have f: "filter (\<lambda>u. u_tenant u = t) (map (group_row a b ?rs) ?ks)
    = map (group_row a b ?rs) (filter (\<lambda>k. fst k = t) ?ks)"
    by (simp add: filter_map comp_def group_row_def Let_def)
  have g: "u_totalCharge (group_row a b ?rs k) = sum_list (map r_charge (filter (\<lambda>r. group_key r = k) ?rs))" for k
    unfolding group_row_def Let_def
    by (simp add: to_number_exact[OF sum_filter_bound[OF assms(1)]] del: filter_filter)
  have c: "charged t (getAggregatedEvents a b tab) = metered t a b tab"
    unfolding charged_def getAggregatedEvents_def Let_def f map_map comp_def g
    by (subst group_sum)
      (auto simp: metered_def group_key_def filter_filter conj_commute)
  show ?thesis
  proof (cases "getAggregatedEvents a b tab = []")
    case True
    then show ?thesis using c assms(2) by (simp add: window_rows_def charged_def sentinel_def)
  next
    case False
    then show ?thesis using c by (simp add: window_rows_def)
  qed
qed

lemma do_window_rows: "snd (do_window a b tab st) = snd st @ window_rows a b tab"
  by (cases st) (simp add: do_window_def window_rows_def Let_def insertSummariesBatch_append)

lemma window_rows_ends: "window_rows a b tab \<noteq> [] \<and> u_windowEnd ` set (window_rows a b tab) = {b}"
proof (cases "getAggregatedEvents a b tab")
  case Nil
  then show ?thesis by (simp add: window_rows_def sentinel_def)
next
  case (Cons r rs)
  then have "window_rows a b tab = getAggregatedEvents a b tab" by (simp add: window_rows_def)
  moreover have "\<forall>u \<in> set (getAggregatedEvents a b tab). u_windowEnd u = b"
    by (auto simp: getAggregatedEvents_def group_row_def Let_def)
  ultimately show ?thesis using Cons by auto
qed

lemma metered_split: "a \<le> b \<Longrightarrow> b \<le> c \<Longrightarrow> metered t a b tab + metered t b c tab = metered t a c tab"
  by (induction tab) (auto simp: metered_def in_span_def)

lemma agg_loop_spec:
  assumes "0 < w" "lastEnd \<le> cur" "countable_charges tab" "t \<noteq> SENTINEL"
  shows "\<exists>new. snd (agg_loop w cur tab lastEnd st) = snd st @ new
    \<and> charged t new = metered t lastEnd cur tab
    \<and> (lastEnd < cur \<longrightarrow> new \<noteq> [] \<and> cur \<in> u_windowEnd ` set new \<and> (\<forall>u \<in> set new. u_windowEnd u \<le> cur))"
  using assms(2)
proof (induction "nat (cur - lastEnd)" arbitrary: lastEnd st rule: less_induct)
  case less
  show ?case
  proof (cases "lastEnd < cur")
    case False
    then have "metered t lastEnd cur tab = 0"
      using less.prems by (simp add: metered_def in_span_def)
    then show ?thesis using False by (subst agg_loop.simps) (simp add: charged_def)
  next
    case True
    define we where "we = min (lastEnd + w) cur"
    have we: "lastEnd < we" "we \<le> cur" using True assms(1) by (auto simp: we_def)
    let ?st = "do_window lastEnd we tab st"
    obtain new where new: "snd (agg_loop w cur tab we ?st) = snd ?st @ new"
      "charged t new = metered t we cur tab"
      "we < cur \<longrightarrow> new \<noteq> [] \<and> cur \<in> u_windowEnd ` set new \<and> (\<forall>u \<in> set new. u_windowEnd u \<le> cur)"
      using less.hyps[of we ?st] we by (auto simp: nat_less_eq_zless)
    have none: "new = []" if "we = cur"
      using new(1) that by (subst (asm) agg_loop.simps) simp
    let ?all = "window_rows lastEnd we tab @ new"
    have "snd (agg_loop w cur tab lastEnd st) = snd st @ ?all"
      using True assms(1) new(1)
      by (subst agg_loop.simps) (simp add: we_def[symmetric] Let_def do_window_rows)
    moreover have "charged t ?all = metered t lastEnd cur tab"
      using charged_window[OF assms(3,4)] new(2) metered_split[of lastEnd we cur] we by simp
    moreover have "?all \<noteq> [] \<and> cur \<in> u_windowEnd ` set ?all \<and> (\<forall>u \<in> set ?all. u_windowEnd u \<le> cur)"
    proof (cases "we = cur")
      case True
      then show ?thesis using window_rows_ends[of lastEnd we tab] none by auto
    next
      case False
      then show ?thesis using window_rows_ends[of lastEnd we tab] new(3) we by auto
    qed
    ultimately show ?thesis by blast
  qed
qed

lemma last_end_append:
  assumes "new \<noteq> []" "c \<in> u_windowEnd ` set new" "\<forall>u \<in> set new. u_windowEnd u \<le> c"
    "us \<noteq> [] \<longrightarrow> getLastWindowEnd us \<le> c"
  shows "getLastWindowEnd (us @ new) = c"
proof -
  have "\<forall>u \<in> set us. u_windowEnd u \<le> c"
    using assms(4) by (auto simp: getLastWindowEnd_def)
  then have "\<forall>x \<in> u_windowEnd ` set (us @ new). x \<le> c" using assms(3) by auto
  moreover have "c \<in> u_windowEnd ` set (us @ new)" using assms(2) by auto
  ultimately have "Max (u_windowEnd ` set (us @ new)) = c" by (intro Max_eqI) auto
  then show ?thesis using assms(1) by (simp add: getLastWindowEnd_def image_Un)
qed

lemma metered_none:
  assumes "\<forall>r \<in> set tab. \<not> in_span a b r"
  shows "metered t a b tab = 0"
proof -
  have "filter (\<lambda>r. r_tenant r = t \<and> in_span a b r) tab = []"
    using assms by (auto simp: filter_empty_conv)
  then show ?thesis by (simp add: metered_def)
qed

text \<open>C13: An aggregation run bills each event of the completed windows exactly once: with non-negative
  timestamps and charges whose total is in the exact range, it only adds summary rows, the charges
  it adds for a tenant are exactly those of the tenant's events from the old end up to the last
  window boundary before now, and the new end is that boundary. (So a second run at the same time
  adds nothing, and an event that arrives with a timestamp before the end is never billed.)\<close>

theorem aggregate_exact:
  assumes "0 < w" "countable_charges tab" "\<forall>r \<in> set tab. 0 \<le> r_timestamp r" "t \<noteq> SENTINEL"
    and "0 \<le> time" "0 \<le> getLastWindowEnd us"
  shows "\<exists>new. snd (aggregate w time tab us) = us @ new
    \<and> charged t new = metered t (getLastWindowEnd us) (time div w * w) tab
    \<and> getLastWindowEnd (us @ new) = max (getLastWindowEnd us) (time div w * w)"
proof (cases "getLastWindowEnd us \<ge> time div w * w")
  case True
  then show ?thesis
    by (intro exI[of _ "[]"]) (simp add: aggregate_def charged_def metered_none in_span_def)
next
  case False
  let ?old = "getLastWindowEnd us" and ?cur = "time div w * w"
  have via_loop: ?thesis
    if agg: "aggregate w time tab us = agg_loop w ?cur tab start (0, us)"
      and start: "start < ?cur" "metered t ?old ?cur tab = metered t start ?cur tab" for start
  proof -
    obtain new where n: "snd (agg_loop w ?cur tab start (0, us)) = us @ new"
      "charged t new = metered t start ?cur tab"
      "start < ?cur \<longrightarrow> new \<noteq> [] \<and> ?cur \<in> u_windowEnd ` set new \<and> (\<forall>u \<in> set new. u_windowEnd u \<le> ?cur)"
      using agg_loop_spec[OF assms(1) _ assms(2,4), of start ?cur "(0, us)"] start by auto
    have "getLastWindowEnd (us @ new) = ?cur"
      using n(3) start(1) False by (intro last_end_append) auto
    then show ?thesis using n start agg False by (intro exI[of _ new]) simp
  qed
  show ?thesis
  proof (cases "?old = 0")
    case False0: False
    show ?thesis
      using False False0 by (intro via_loop[of ?old]) (simp_all add: aggregate_def Let_def)
  next
    case zero: True
    show ?thesis
    proof (cases "getEarliestEventTimestamp ?cur tab")
      case None
      then have e: "\<forall>r \<in> set tab. \<not> in_span ?old ?cur r"
        using zero by (auto simp: getEarliestEventTimestamp_def Let_def filter_empty_conv in_span_def
            split: if_splits)
      have "getLastWindowEnd (us @ [sentinel 0 ?cur]) = ?cur"
        using False by (intro last_end_append) (auto simp: sentinel_def)
      then show ?thesis
        using None zero False assms(4) metered_none[OF e]
        by (intro exI[of _ "[sentinel 0 ?cur]"])
          (simp add: aggregate_def charged_def sentinel_def[of 0] Let_def)
    next
      case (Some e)
      let ?ts = "r_timestamp ` set (filter (\<lambda>r. r_timestamp r < ?cur) tab)"
      have ne: "?ts \<noteq> {}" and e: "e = Min ?ts"
        using Some unfolding getEarliestEventTimestamp_def Let_def set_map
        by (simp_all only: map_is_Nil_conv image_is_empty set_empty split: if_splits) simp_all
      have "e \<in> ?ts" unfolding e using ne by (intro Min_in) auto
      then have lt: "e < ?cur" "0 \<le> e" using assms(3) by auto
      have le: "e \<le> r_timestamp r" if "r \<in> set tab" "r_timestamp r < ?cur" for r
        unfolding e using that by (intro Min_le) auto
      have anchor: "e div w * w \<le> e" "0 \<le> e div w * w"
        using assms(1) lt(2) div_mult_mod_eq[of e w] pos_mod_sign[of w e]
        by (linarith, simp add: pos_imp_zdiv_nonneg_iff)
      have "metered t 0 (e div w * w) tab = 0"
        using le lt(1) anchor by (intro metered_none) (fastforce simp: in_span_def)
      then have "metered t ?old ?cur tab = metered t (e div w * w) ?cur tab"
        using metered_split[of 0 "e div w * w" ?cur t tab] anchor lt(1) zero by simp
      then show ?thesis
        using Some zero False anchor lt(1)
        by (intro via_loop[of "e div w * w"]) (simp_all add: aggregate_def Let_def)
    qed
  qed
qed

theorem aggregate_exact_witness:
  "\<exists>new. snd (aggregate 60000 130000 [to_row demo_event] []) = new
     \<and> charged ''t'' new = metered ''t'' 0 120000 [to_row demo_event]
     \<and> metered ''t'' 0 120000 [to_row demo_event] = 7 \<and> getLastWindowEnd new = 120000"
proof -
  have m: "metered ''t'' 0 120000 [to_row demo_event] = 7" by code_simp
  show ?thesis
    using aggregate_exact[of 60000 "[to_row demo_event]" "''t''" 130000 "[]"] m
    by (auto simp: countable_charges_def getLastWindowEnd_def SENTINEL_def to_row_def demo_event_def)
qed

section \<open>Reconciliation\<close>

text \<open>A JavaScript \<open>Set\<close> keeps the first of equal elements.\<close>

definition js_set :: "'a list \<Rightarrow> 'a list" where
  "js_set xs = foldl (\<lambda>acc x. if x \<in> set acc then acc else acc @ [x]) [] xs"

lemma js_set_spec: "set (js_set xs) = set xs \<and> distinct (js_set xs)"
proof -
  have "set (foldl (\<lambda>acc x. if x \<in> set acc then acc else acc @ [x]) acc xs) = set acc \<union> set xs
    \<and> (distinct acc \<longrightarrow> distinct (foldl (\<lambda>acc x. if x \<in> set acc then acc else acc @ [x]) acc xs))" for acc
    by (induction xs arbitrary: acc) auto
  from this[of "[]"] show ?thesis by (simp add: js_set_def)
qed

text \<open>Metered charges per tenant of the rows inside \<open>[windowStart, windowEnd)\<close>, sentinels left out.\<close>

definition getAggregatedChargesByWindow :: "int \<Rightarrow> int \<Rightarrow> summary list \<Rightarrow> (string \<times> int) list" where
  "getAggregatedChargesByWindow windowStart windowEnd us =
     (let rows = filter (\<lambda>u. windowStart \<le> u_windowStart u \<and> u_windowEnd u < windowEnd
                    \<and> u_tenant u \<noteq> SENTINEL) us
      in map (\<lambda>t. (t, to_number (sum_list (map u_totalCharge (filter (\<lambda>u. u_tenant u = t) rows)))))
           (remdups (map u_tenant rows)))"

text \<open>Debit lines of the \<open>adapter_usage\<close> entries posted in the day; \<open>ts\<close> reads a timestamp text.\<close>

definition usage_entry :: "(string \<Rightarrow> int) \<Rightarrow> string \<Rightarrow> string \<Rightarrow> entry_row \<Rightarrow> bool" where
  "usage_entry ts startIso endIso e \<longleftrightarrow>
     e_entryType e = ''adapter_usage'' \<and> ts startIso \<le> ts (e_postedAt e) \<and> ts (e_postedAt e) < ts endIso"

definition usage_lines ::
  "(string \<Rightarrow> int) \<Rightarrow> string \<Rightarrow> string \<Rightarrow> db \<Rightarrow> (string \<times> int) list" where
  "usage_lines ts startIso endIso d =
     List.map_filter (\<lambda>l. if l_side l = Debit_Side then
         (case find_entry (l_entryId l) d of
            None \<Rightarrow> None
          | Some e \<Rightarrow> if usage_entry ts startIso endIso e then Some (e_tenantId e, l_amount l) else None)
       else None) (journalLines d)"

definition getAggregatedAdapterUsageDebits ::
  "(string \<Rightarrow> int) \<Rightarrow> string \<Rightarrow> string \<Rightarrow> db \<Rightarrow> (string \<times> int) list" where
  "getAggregatedAdapterUsageDebits ts startIso endIso d =
     (let rows = usage_lines ts startIso endIso d
      in map (\<lambda>t. (t, to_number (sum_list (map snd (filter (\<lambda>r. fst r = t) rows)))))
           (remdups (map fst rows)))"

record discrepancy =
  di_tenantId :: string
  di_meteredChargeRaw :: int
  di_ledgerDebitRaw :: int
  di_driftRaw :: int

record reconciliation =
  re_tenantsChecked :: nat
  re_discrepancies :: "discrepancy list"
  re_flagged :: "string list"

definition amount_of :: "(string \<times> int) list \<Rightarrow> string \<Rightarrow> int" where
  "amount_of rows t = (case map_of (rev rows) t of None \<Rightarrow> 0 | Some a \<Rightarrow> a)"

text \<open>One tenant. The log line formats the three amounts as credits, which may throw.\<close>

definition reconcile_step ::
  "int \<Rightarrow> int \<Rightarrow> (string \<times> int) list \<Rightarrow> (string \<times> int) list
   \<Rightarrow> reconciliation \<Rightarrow> string \<Rightarrow> js_error + reconciliation" where
  "reconcile_step driftThresholdRaw flagThresholdRaw metered_rows ledger_rows r t =
     (let m = amount_of metered_rows t; l = amount_of ledger_rows t; drift = js_sub (of_int m) (of_int l);
          absDrift = \<bar>drift\<bar>
      in if absDrift > of_int driftThresholdRaw then
           rbind (fromRaw (of_int m)) (\<lambda>_. rbind (fromRaw (of_int l)) (\<lambda>_. rbind (fromRaw absDrift) (\<lambda>_.
           Inr (r\<lparr>re_discrepancies := re_discrepancies r @
                     [\<lparr>di_tenantId = t, di_meteredChargeRaw = m, di_ledgerDebitRaw = l,
                       di_driftRaw = \<lfloor>drift\<rfloor>\<rparr>],
                   re_flagged := (if absDrift > of_int flagThresholdRaw then re_flagged r @ [t]
                                  else re_flagged r)\<rparr>))))
         else Inr r)"

definition compare_tenants ::
  "int \<Rightarrow> int \<Rightarrow> (string \<times> int) list \<Rightarrow> (string \<times> int) list \<Rightarrow> js_error + reconciliation" where
  "compare_tenants driftThresholdRaw flagThresholdRaw metered_rows ledger_rows =
     (let allTenants = js_set (map fst metered_rows @ map fst ledger_rows)
      in rfold (reconcile_step driftThresholdRaw flagThresholdRaw metered_rows ledger_rows)
           \<lparr>re_tenantsChecked = length allTenants, re_discrepancies = [], re_flagged = []\<rparr> allTenants)"

definition DAY_MS :: int where
  "DAY_MS = 24 * 60 * 60 * 1000"

text \<open>\<open>toIso\<close> writes a time as ISO text, \<open>ts\<close> reads one.\<close>

definition runReconciliation ::
  "(string \<Rightarrow> int) \<Rightarrow> (int \<Rightarrow> string) \<Rightarrow> int \<Rightarrow> int option \<Rightarrow> int option
   \<Rightarrow> summary list \<Rightarrow> db \<Rightarrow> js_error + reconciliation" where
  "runReconciliation ts toIso dayStart drift flag us d =
     (let driftThresholdRaw = (case drift of Some x \<Rightarrow> x | None \<Rightarrow> toRaw (fromCents 1));
          flagThresholdRaw = (case flag of Some x \<Rightarrow> x | None \<Rightarrow> toRaw (fromCents 100));
          dayEnd = dayStart + DAY_MS
      in compare_tenants driftThresholdRaw flagThresholdRaw
           (getAggregatedChargesByWindow dayStart dayEnd us)
           (getAggregatedAdapterUsageDebits ts (toIso dayStart) (toIso dayEnd) d))"

text \<open>The last window of every day is never reconciled: the query asks for windows that end strictly
  before the end of the day, so a summary row that ends at midnight belongs to no day at all,
  whatever its charge, and adding it changes no day's figures.\<close>

theorem last_window_missed:
  assumes "u_windowEnd u = DAY_MS * (d + 1)" "u_windowStart u < u_windowEnd u"
  shows "getAggregatedChargesByWindow (DAY_MS * k) (DAY_MS * k + DAY_MS) (us @ u # vs)
    = getAggregatedChargesByWindow (DAY_MS * k) (DAY_MS * k + DAY_MS) (us @ vs)"
proof -
  have "\<not> (DAY_MS * k \<le> u_windowStart u \<and> u_windowEnd u < DAY_MS * k + DAY_MS)"
  proof
    assume h: "DAY_MS * k \<le> u_windowStart u \<and> u_windowEnd u < DAY_MS * k + DAY_MS"
    have "DAY_MS * (d + 1) < DAY_MS * (k + 1)" using h assms(1) by (simp add: algebra_simps)
    then have "d < k" by (simp add: DAY_MS_def)
    then have "d + 1 \<le> k" by simp
    then have "DAY_MS * (d + 1) \<le> DAY_MS * k" by (intro mult_left_mono) (simp_all add: DAY_MS_def)
    then have "u_windowEnd u \<le> u_windowStart u" using h assms(1) by linarith
    then show False using assms(2) by simp
  qed
  then have "filter (\<lambda>u. DAY_MS * k \<le> u_windowStart u \<and> u_windowEnd u < DAY_MS * k + DAY_MS
      \<and> u_tenant u \<noteq> SENTINEL) (us @ u # vs)
    = filter (\<lambda>u. DAY_MS * k \<le> u_windowStart u \<and> u_windowEnd u < DAY_MS * k + DAY_MS
      \<and> u_tenant u \<noteq> SENTINEL) (us @ vs)" by auto
  then show ?thesis unfolding getAggregatedChargesByWindow_def Let_def by (simp only:)
qed

definition last_minute :: summary where
  "last_minute = \<lparr>u_tenant = ''t'', u_capability = ''chat'', u_provider = ''p'', u_eventCount = 1,
     u_totalCost = 5, u_totalCharge = 7, u_totalDuration = 0, u_windowStart = 86340000,
     u_windowEnd = 86400000\<rparr>"

theorem last_window_missed_witness:
  "getAggregatedChargesByWindow 0 86400000 [last_minute] = []"
  using last_window_missed[of last_minute 0 0 "[]" "[]"]
  by (simp add: DAY_MS_def last_minute_def) (simp add: getAggregatedChargesByWindow_def)

section \<open>What a reconciliation reports\<close>

definition drift_of :: "(string \<times> int) list \<Rightarrow> (string \<times> int) list \<Rightarrow> string \<Rightarrow> int" where
  "drift_of ms ls t = amount_of ms t - amount_of ls t"

definition report ::
  "int \<Rightarrow> int \<Rightarrow> (string \<times> int) list \<Rightarrow> (string \<times> int) list \<Rightarrow> string list \<Rightarrow> discrepancy list \<times> string list" where
  "report drift flag ms ls ts =
     (map (\<lambda>t. \<lparr>di_tenantId = t, di_meteredChargeRaw = amount_of ms t,
          di_ledgerDebitRaw = amount_of ls t, di_driftRaw = drift_of ms ls t\<rparr>)
        (filter (\<lambda>t. \<bar>drift_of ms ls t\<bar> > drift) ts),
      filter (\<lambda>t. \<bar>drift_of ms ls t\<bar> > drift \<and> \<bar>drift_of ms ls t\<bar> > flag) ts)"

lemma reconcile_step_exact:
  assumes "\<bar>amount_of ms t\<bar> \<le> 2 ^ 52" "\<bar>amount_of ls t\<bar> \<le> 2 ^ 52"
  shows "reconcile_step drift flag ms ls r t =
    (if \<bar>drift_of ms ls t\<bar> > drift
     then Inr (r\<lparr>re_discrepancies := re_discrepancies r @
            [\<lparr>di_tenantId = t, di_meteredChargeRaw = amount_of ms t,
              di_ledgerDebitRaw = amount_of ls t, di_driftRaw = drift_of ms ls t\<rparr>],
          re_flagged := (if \<bar>drift_of ms ls t\<bar> > flag then re_flagged r @ [t] else re_flagged r)\<rparr>)
     else Inr r) \<or> \<bar>drift_of ms ls t\<bar> > max_safe_integer"
proof -
  let ?m = "amount_of ms t" and ?l = "amount_of ls t"
  have "\<bar>?m - ?l\<bar> \<le> 2 ^ 53" using assms by simp
  then have d: "js_sub (of_int ?m) (of_int ?l) = of_int (drift_of ms ls t)"
    unfolding drift_of_def by (rule js_sub_int)
  have "?m \<le> max_safe_integer" "?l \<le> max_safe_integer"
    using assms by (auto simp: max_safe_integer_def)
  then show ?thesis
    unfolding reconcile_step_def Let_def d
    by (auto simp: fromRaw_int simp flip: of_int_abs)
qed

lemma reconcile_fold:
  assumes "\<forall>t. \<bar>amount_of ms t\<bar> \<le> 2 ^ 52 \<and> \<bar>amount_of ls t\<bar> \<le> 2 ^ 52 \<and> \<bar>drift_of ms ls t\<bar> \<le> max_safe_integer"
  shows "rfold (reconcile_step drift flag ms ls) r ts
    = Inr (r\<lparr>re_discrepancies := re_discrepancies r @ fst (report drift flag ms ls ts),
            re_flagged := re_flagged r @ snd (report drift flag ms ls ts)\<rparr>)"
proof (induction ts arbitrary: r)
  case Nil
  then show ?case by (simp add: report_def)
next
  case (Cons t ts)
  have s: "reconcile_step drift flag ms ls r t =
    (if \<bar>drift_of ms ls t\<bar> > drift
     then Inr (r\<lparr>re_discrepancies := re_discrepancies r @
            [\<lparr>di_tenantId = t, di_meteredChargeRaw = amount_of ms t,
              di_ledgerDebitRaw = amount_of ls t, di_driftRaw = drift_of ms ls t\<rparr>],
          re_flagged := (if \<bar>drift_of ms ls t\<bar> > flag then re_flagged r @ [t] else re_flagged r)\<rparr>)
     else Inr r)"
    using reconcile_step_exact[of ms t ls drift flag r] assms[rule_format, of t] by (meson not_le)
  show ?case unfolding rfold.simps s by (auto simp: Cons.IH report_def)
qed



end
