(* ===== verification/Bots.thy ===== *)
theory Bots
  imports Ledger
begin

text \<open>
  Bot instances and their billing lifecycle: the repository of
  \<open>src/fleet/drizzle-bot-instance-repository.ts\<close> over the table of
  \<open>src/db/schema/bot-instances.ts\<close>, the tiers of \<open>resource-tiers.ts\<close> and \<open>storage-tiers.ts\<close>, and
  the manager of \<open>src/monetization/credits/bot-billing.ts\<close>. Times are instants in milliseconds
  (\<open>t\<close> is the current one). The stop and start commands the manager sends never fail it
  and change nothing here: they are recorded as the list of commands sent.
\<close>

section \<open>Table\<close>

datatype billing_state = Billing_Active | Billing_Inactive | Billing_Suspended | Billing_Destroyed

record bot =
  b_id :: string
  b_tenantId :: string
  b_name :: string
  b_nodeId :: "string option"
  b_billingState :: billing_state
  b_suspendedAt :: "int option"
  b_destroyAfter :: "int option"
  b_resourceTier :: string
  b_storageTier :: string
  b_createdAt :: int
  b_updatedAt :: int
  b_createdByUserId :: "string option"

datatype bot_error = Bot_Not_Found string | Bot_Exists string | Tier_Cost js_error | Balance_Error ledger_error

definition bot_by_id :: "string \<Rightarrow> bot list \<Rightarrow> bot option" where
  "bot_by_id i bs = find (\<lambda>b. b_id b = i) bs"

definition listByNode :: "string \<Rightarrow> bot list \<Rightarrow> bot list" where
  "listByNode nodeId bs = filter (\<lambda>b. b_nodeId b = Some nodeId) bs"

definition listByTenant :: "string \<Rightarrow> bot list \<Rightarrow> bot list" where
  "listByTenant tenantId bs = filter (\<lambda>b. b_tenantId b = tenantId) bs"

definition insert_bot :: "bot \<Rightarrow> bot list \<Rightarrow> bot_error + bot list" where
  "insert_bot b bs = (if b_id b \<in> b_id ` set bs then Inl (Bot_Exists (b_id b)) else Inr (bs @ [b]))"

definition update_bot :: "string \<Rightarrow> (bot \<Rightarrow> bot) \<Rightarrow> bot list \<Rightarrow> bot list" where
  "update_bot i f bs = map (\<lambda>b. if b_id b = i then f b else b) bs"

text \<open>The row with the column defaults of the schema.\<close>

definition default_bot :: "string \<Rightarrow> string \<Rightarrow> string \<Rightarrow> int \<Rightarrow> bot" where
  "default_bot i tenantId name t = \<lparr>b_id = i, b_tenantId = tenantId, b_name = name, b_nodeId = None,
     b_billingState = Billing_Active, b_suspendedAt = None, b_destroyAfter = None,
     b_resourceTier = ''standard'', b_storageTier = ''standard'', b_createdAt = t, b_updatedAt = t,
     b_createdByUserId = None\<rparr>"

record new_bot =
  nb_id :: string
  nb_tenantId :: string
  nb_name :: string
  nb_nodeId :: "string option"
  nb_billingState :: "billing_state option"
  nb_createdByUserId :: "string option"

definition create_bot :: "new_bot \<Rightarrow> int \<Rightarrow> bot list \<Rightarrow> bot_error + bot \<times> bot list" where
  "create_bot n t bs =
     rbind (insert_bot ((default_bot (nb_id n) (nb_tenantId n) (nb_name n) t)\<lparr>
              b_nodeId := nb_nodeId n,
              b_billingState := (case nb_billingState n of None \<Rightarrow> Billing_Active | Some x \<Rightarrow> x),
              b_createdByUserId := nb_createdByUserId n\<rparr>) bs) (\<lambda>bs'.
       case bot_by_id (nb_id n) bs' of None \<Rightarrow> Inl (Bot_Not_Found (nb_id n)) | Some b \<Rightarrow> Inr (b, bs'))"

text \<open>An update that throws when no row has the id, and returns the row.\<close>

definition update_returning :: "string \<Rightarrow> (bot \<Rightarrow> bot) \<Rightarrow> bot list \<Rightarrow> bot_error + bot \<times> bot list" where
  "update_returning i f bs =
     (if i \<notin> b_id ` set bs then Inl (Bot_Not_Found i)
      else let bs' = update_bot i f bs in
        (case bot_by_id i bs' of None \<Rightarrow> Inl (Bot_Not_Found i) | Some b \<Rightarrow> Inr (b, bs')))"

definition reassign :: "string \<Rightarrow> string option \<Rightarrow> int \<Rightarrow> bot list \<Rightarrow> bot_error + bot \<times> bot list" where
  "reassign i nodeId t = update_returning i (\<lambda>b. b\<lparr>b_nodeId := nodeId, b_updatedAt := t\<rparr>)"

definition THIRTY_DAYS_MS :: int where
  "THIRTY_DAYS_MS = 30 * 24 * 60 * 60 * 1000"

definition setBillingState :: "string \<Rightarrow> billing_state \<Rightarrow> int \<Rightarrow> bot list \<Rightarrow> bot_error + bot \<times> bot list" where
  "setBillingState i st t = update_returning i (\<lambda>b.
     let b' = b\<lparr>b_billingState := st, b_updatedAt := t\<rparr> in
     (case st of
        Billing_Suspended \<Rightarrow> b'\<lparr>b_suspendedAt := Some t, b_destroyAfter := Some (t + THIRTY_DAYS_MS)\<rparr>
      | Billing_Active \<Rightarrow> b'\<lparr>b_suspendedAt := None, b_destroyAfter := None\<rparr>
      | Billing_Destroyed \<Rightarrow> b'\<lparr>b_suspendedAt := None, b_destroyAfter := None\<rparr>
      | Billing_Inactive \<Rightarrow> b'))"

definition getResourceTier :: "string \<Rightarrow> bot list \<Rightarrow> string option" where
  "getResourceTier i bs = map_option b_resourceTier (bot_by_id i bs)"

definition setResourceTier :: "string \<Rightarrow> string \<Rightarrow> int \<Rightarrow> bot list \<Rightarrow> bot list" where
  "setResourceTier i tier t = update_bot i (\<lambda>b. b\<lparr>b_resourceTier := tier, b_updatedAt := t\<rparr>)"

definition deleteAllByTenant :: "string \<Rightarrow> bot list \<Rightarrow> bot list" where
  "deleteAllByTenant tenantId bs = filter (\<lambda>b. b_tenantId b \<noteq> tenantId) bs"

definition deleteById :: "string \<Rightarrow> bot list \<Rightarrow> bot list" where
  "deleteById i bs = filter (\<lambda>b. b_id b \<noteq> i) bs"

text \<open>Instances of a node by tier priority, then id; \<open>tiers\<close> is the customer table's tier column.\<close>

definition tier_rank :: "string option \<Rightarrow> nat" where
  "tier_rank tier = (if tier = Some ''enterprise'' then 1 else if tier = Some ''pro'' then 2
     else if tier = Some ''starter'' then 3 else 4)"

record tenant_with_tier =
  tw_id :: string
  tw_tenantId :: string
  tw_name :: string
  tw_tier :: "string option"

definition listByNodeWithTier :: "(string \<rightharpoonup> string) \<Rightarrow> string \<Rightarrow> bot list \<Rightarrow> tenant_with_tier list" where
  "listByNodeWithTier tiers nodeId bs =
     map (\<lambda>b. \<lparr>tw_id = b_id b, tw_tenantId = b_tenantId b, tw_name = b_name b, tw_tier = tiers (b_tenantId b)\<rparr>)
       (sort_key (\<lambda>b. tier_rank (tiers (b_tenantId b))) (sort_key b_id (listByNode nodeId bs)))"

definition findByTenantAndNode :: "string \<Rightarrow> string \<Rightarrow> bot list \<Rightarrow> bot option" where
  "findByTenantAndNode tenantId nodeId bs = find (\<lambda>b. b_tenantId b = tenantId \<and> b_nodeId b = Some nodeId) bs"

definition listActiveIdsByTenant :: "string \<Rightarrow> bot list \<Rightarrow> string list" where
  "listActiveIdsByTenant tenantId bs =
     map b_id (filter (\<lambda>b. b_tenantId b = tenantId \<and> b_billingState b = Billing_Active) bs)"

definition countActiveByTenant :: "string \<Rightarrow> bot list \<Rightarrow> nat" where
  "countActiveByTenant tenantId bs =
     length (filter (\<lambda>b. b_tenantId b = tenantId \<and> b_billingState b = Billing_Active) bs)"

definition listSuspendedIdsByTenant :: "string \<Rightarrow> bot list \<Rightarrow> string list" where
  "listSuspendedIdsByTenant tenantId bs =
     map b_id (filter (\<lambda>b. b_tenantId b = tenantId \<and> b_billingState b = Billing_Suspended) bs)"

definition expired_suspended :: "int \<Rightarrow> bot \<Rightarrow> bool" where
  "expired_suspended t b \<longleftrightarrow> b_billingState b = Billing_Suspended
     \<and> (case b_destroyAfter b of None \<Rightarrow> False | Some d \<Rightarrow> d \<le> t)"

definition listExpiredSuspendedIds :: "int \<Rightarrow> bot list \<Rightarrow> string list" where
  "listExpiredSuspendedIds t bs = map b_id (filter (expired_suspended t) bs)"

definition suspend_bot_row :: "string \<Rightarrow> int \<Rightarrow> int \<Rightarrow> bot list \<Rightarrow> bot list" where
  "suspend_bot_row i graceDays t = update_bot i (\<lambda>b. b\<lparr>b_billingState := Billing_Suspended,
     b_suspendedAt := Some t, b_destroyAfter := Some (t + graceDays * 86400000), b_updatedAt := t\<rparr>)"

definition reactivate_row :: "string \<Rightarrow> int \<Rightarrow> bot list \<Rightarrow> bot list" where
  "reactivate_row i t = update_bot i (\<lambda>b. if b_billingState b = Billing_Suspended
     then b\<lparr>b_billingState := Billing_Active, b_suspendedAt := None, b_destroyAfter := None, b_updatedAt := t\<rparr>
     else b)"

definition markDestroyed :: "string \<Rightarrow> int \<Rightarrow> bot list \<Rightarrow> bot list" where
  "markDestroyed i t = update_bot i (\<lambda>b. b\<lparr>b_billingState := Billing_Destroyed, b_updatedAt := t\<rparr>)"

definition register_bot_row ::
  "string \<Rightarrow> string \<Rightarrow> string \<Rightarrow> billing_state option \<Rightarrow> int \<Rightarrow> bot list \<Rightarrow> bot_error + bot list" where
  "register_bot_row i tenantId name st t =
     insert_bot ((default_bot i tenantId name t)\<lparr>b_billingState := (case st of None \<Rightarrow> Billing_Inactive | Some x \<Rightarrow> x)\<rparr>)"

definition startBilling :: "string \<Rightarrow> bot list \<Rightarrow> bot list" where
  "startBilling i = update_bot i (\<lambda>b. b\<lparr>b_billingState := Billing_Active\<rparr>)"

definition stopBilling :: "string \<Rightarrow> bot list \<Rightarrow> bot list" where
  "stopBilling i = update_bot i (\<lambda>b. b\<lparr>b_billingState := Billing_Inactive\<rparr>)"

definition getStorageTier :: "string \<Rightarrow> bot list \<Rightarrow> string option" where
  "getStorageTier i bs = map_option b_storageTier (bot_by_id i bs)"

definition setStorageTier :: "string \<Rightarrow> string \<Rightarrow> int \<Rightarrow> bot list \<Rightarrow> bot list" where
  "setStorageTier i tier t = update_bot i (\<lambda>b. b\<lparr>b_storageTier := tier, b_updatedAt := t\<rparr>)"

definition listActiveStorageTiers :: "string \<Rightarrow> bot list \<Rightarrow> string list" where
  "listActiveStorageTiers tenantId bs =
     map b_storageTier (filter (\<lambda>b. b_tenantId b = tenantId \<and> b_billingState b = Billing_Active) bs)"

section \<open>Tiers\<close>

text \<open>Daily costs in cents by key.\<close>

definition RESOURCE_TIERS :: "string \<rightharpoonup> credit" where
  "RESOURCE_TIERS = map_of [(''standard'', ZERO), (''pro'', fromCents 10), (''power'', fromCents 27),
     (''beast'', fromCents 50)]"

definition STORAGE_TIERS :: "string \<rightharpoonup> credit" where
  "STORAGE_TIERS = map_of [(''standard'', ZERO), (''plus'', fromCents 3), (''pro'', fromCents 8),
     (''max'', fromCents 15)]"

section \<open>Billing manager\<close>

definition SUSPENSION_GRACE_DAYS :: int where
  "SUSPENSION_GRACE_DAYS = 30"

datatype node_command = Stop_Bot string string | Start_Bot string string

record billing =
  bl_bots :: "bot list"
  bl_sent :: "node_command list"

text \<open>A command goes to the node the bot is on, when it is on one.\<close>

definition sendCommand :: "(string \<Rightarrow> string \<Rightarrow> node_command) \<Rightarrow> string \<Rightarrow> billing \<Rightarrow> billing" where
  "sendCommand cmd i s =
     (case bot_by_id i (bl_bots s) of
        None \<Rightarrow> s
      | Some b \<Rightarrow> (case b_nodeId b of None \<Rightarrow> s
          | Some n \<Rightarrow> s\<lparr>bl_sent := bl_sent s @ [cmd n (b_name b)]\<rparr>))"

definition getActiveBotCount :: "string \<Rightarrow> billing \<Rightarrow> nat" where
  "getActiveBotCount tenantId s = countActiveByTenant tenantId (bl_bots s)"

definition suspendBot :: "int \<Rightarrow> string \<Rightarrow> billing \<Rightarrow> billing" where
  "suspendBot t i s = sendCommand Stop_Bot i
     (s\<lparr>bl_bots := suspend_bot_row i SUSPENSION_GRACE_DAYS t (bl_bots s)\<rparr>)"

definition suspendAllForTenant :: "int \<Rightarrow> string \<Rightarrow> billing \<Rightarrow> string list \<times> billing" where
  "suspendAllForTenant t tenantId s =
     (let ids = listActiveIdsByTenant tenantId (bl_bots s) in (ids, foldl (\<lambda>s i. suspendBot t i s) s ids))"

definition reactivateBot :: "int \<Rightarrow> string \<Rightarrow> billing \<Rightarrow> billing" where
  "reactivateBot t i s = sendCommand Start_Bot i (s\<lparr>bl_bots := reactivate_row i t (bl_bots s)\<rparr>)"

definition checkReactivation :: "int \<Rightarrow> string \<Rightarrow> db \<Rightarrow> billing \<Rightarrow> bot_error + string list \<times> billing" where
  "checkReactivation t tenantId d s =
     (case balance tenantId d of
        Inl e \<Rightarrow> Inl (Balance_Error e)
      | Inr c \<Rightarrow>
          if isNegative c \<or> isZero c then Inr ([], s)
          else let ids = listSuspendedIdsByTenant tenantId (bl_bots s)
               in Inr (ids, foldl (\<lambda>s i. reactivateBot t i s) s ids))"

definition destroyBot :: "int \<Rightarrow> string \<Rightarrow> billing \<Rightarrow> billing" where
  "destroyBot t i s = s\<lparr>bl_bots := markDestroyed i t (bl_bots s)\<rparr>"

definition destroyExpiredBots :: "int \<Rightarrow> billing \<Rightarrow> string list \<times> billing" where
  "destroyExpiredBots t s =
     (let ids = listExpiredSuspendedIds t (bl_bots s) in (ids, foldl (\<lambda>s i. destroyBot t i s) s ids))"

definition getStorageTierCostsForTenant :: "string \<Rightarrow> billing \<Rightarrow> js_error + credit" where
  "getStorageTierCostsForTenant tenantId s =
     rfold (\<lambda>total tier. add total (case STORAGE_TIERS tier of None \<Rightarrow> ZERO | Some c \<Rightarrow> c))
       ZERO (listActiveStorageTiers tenantId (bl_bots s))"

definition registerBot :: "int \<Rightarrow> string \<Rightarrow> string \<Rightarrow> string \<Rightarrow> billing \<Rightarrow> bot_error + billing" where
  "registerBot t i tenantId name s =
     rbind (register_bot_row i tenantId name None t (bl_bots s)) (\<lambda>bs. Inr (s\<lparr>bl_bots := bs\<rparr>))"

text \<open>The look-up of \<open>runtime-cron.ts\<close> over the repository.\<close>

definition resource_cost :: "bot list \<Rightarrow> string \<Rightarrow> credit" where
  "resource_cost bs i =
     (let tier = (case getResourceTier i bs of None \<Rightarrow> ''standard'' | Some x \<Rightarrow> x)
      in (case RESOURCE_TIERS tier of Some c \<Rightarrow> c | None \<Rightarrow> the (RESOURCE_TIERS ''standard'')))"

definition buildResourceTierCosts ::
  "(string \<Rightarrow> string list) \<Rightarrow> bot list \<Rightarrow> string \<Rightarrow> js_error + credit" where
  "buildResourceTierCosts activeIds bs tenantId =
     rfold (\<lambda>total i. add total (resource_cost bs i)) ZERO (activeIds tenantId)"

section \<open>Sweeps over many bots\<close>

text \<open>Updating one id after another is one pass, when the update is idempotent.\<close>

lemma update_many:
  assumes "\<And>b. f (f b) = f b" "\<And>b. b_id (f b) = b_id b"
  shows "foldl (\<lambda>bs i. update_bot i f bs) bs ids = map (\<lambda>b. if b_id b \<in> set ids then f b else b) bs"
proof (induction ids arbitrary: bs)
  case Nil
  then show ?case by simp
next
  case (Cons i ids)
  show ?case by (simp add: Cons.IH) (auto simp: update_bot_def assms)
qed

lemma sendCommand_bots [simp]: "bl_bots (sendCommand cmd i s) = bl_bots s"
  by (simp add: sendCommand_def split: option.splits)

definition suspended_row :: "int \<Rightarrow> bot \<Rightarrow> bot" where
  "suspended_row t b = b\<lparr>b_billingState := Billing_Suspended, b_suspendedAt := Some t,
     b_destroyAfter := Some (t + SUSPENSION_GRACE_DAYS * 86400000), b_updatedAt := t\<rparr>"

definition reactivated_row :: "int \<Rightarrow> bot \<Rightarrow> bot" where
  "reactivated_row t b = (if b_billingState b = Billing_Suspended
     then b\<lparr>b_billingState := Billing_Active, b_suspendedAt := None, b_destroyAfter := None, b_updatedAt := t\<rparr>
     else b)"

definition destroyed_row :: "int \<Rightarrow> bot \<Rightarrow> bot" where
  "destroyed_row t b = b\<lparr>b_billingState := Billing_Destroyed, b_updatedAt := t\<rparr>"

lemmas row_defs = suspended_row_def reactivated_row_def destroyed_row_def

lemma bots_suspendBot: "bl_bots (suspendBot t i s) = update_bot i (suspended_row t) (bl_bots s)"
  by (simp add: suspendBot_def suspend_bot_row_def suspended_row_def[abs_def])

lemma bots_reactivateBot: "bl_bots (reactivateBot t i s) = update_bot i (reactivated_row t) (bl_bots s)"
  by (simp add: reactivateBot_def reactivate_row_def reactivated_row_def[abs_def])

lemma bots_destroyBot: "bl_bots (destroyBot t i s) = update_bot i (destroyed_row t) (bl_bots s)"
  by (simp add: destroyBot_def markDestroyed_def destroyed_row_def[abs_def])

lemma bots_foldl:
  assumes "\<And>s i. bl_bots (op i s) = update_bot i f (bl_bots s)"
    and "\<And>b. f (f b) = f b" "\<And>b. b_id (f b) = b_id b"
  shows "bl_bots (foldl (\<lambda>s i. op i s) s ids)
    = map (\<lambda>b. if b_id b \<in> set ids then f b else b) (bl_bots s)"
proof -
  have "bl_bots (foldl (\<lambda>s i. op i s) s ids) = foldl (\<lambda>bs i. update_bot i f bs) (bl_bots s) ids"
    by (induction ids arbitrary: s) (simp_all add: assms(1))
  then show ?thesis using update_many[OF assms(2,3)] by simp
qed

lemmas bots_suspend_all = bots_foldl[of "\<lambda>i. suspendBot t i" "suspended_row t" for t,
  OF bots_suspendBot, simplified row_defs, simplified]

lemma bots_reactivate_all:
  "bl_bots (foldl (\<lambda>s i. reactivateBot t i s) s ids)
    = map (\<lambda>b. if b_id b \<in> set ids then reactivated_row t b else b) (bl_bots s)"
  by (rule bots_foldl[OF bots_reactivateBot]) (simp_all add: reactivated_row_def)

lemma bots_destroy_all:
  "bl_bots (foldl (\<lambda>s i. destroyBot t i s) s ids)
    = map (\<lambda>b. if b_id b \<in> set ids then destroyed_row t b else b) (bl_bots s)"
  by (rule bots_foldl[OF bots_destroyBot]) (simp_all add: destroyed_row_def)

lemma unique_row:
  assumes "distinct (map b_id bs)" "b \<in> set bs" "b' \<in> set bs" "b_id b = b_id b'"
  shows "b = b'"
  using assms by (meson distinct_map inj_onD)

lemma in_ids_iff:
  assumes "distinct (map b_id bs)" "b \<in> set bs"
  shows "b_id b \<in> set (map b_id (filter P bs)) \<longleftrightarrow> P b"
  using unique_row[OF assms(1)] assms(2) by auto

section \<open>Lifecycle\<close>

text \<open>Every operation of the manager and the direct state changes of the repository.\<close>

inductive billing_run :: "billing \<Rightarrow> bool" where
  br_start: "billing_run \<lparr>bl_bots = [], bl_sent = []\<rparr>"
| br_register: "billing_run s \<Longrightarrow> registerBot t i tenantId name s = Inr s' \<Longrightarrow> billing_run s'"
| br_suspend: "billing_run s \<Longrightarrow> billing_run (suspendBot t i s)"
| br_suspend_all: "billing_run s \<Longrightarrow> suspendAllForTenant t tenantId s = (ids, s') \<Longrightarrow> billing_run s'"
| br_reactivate: "billing_run s \<Longrightarrow> billing_run (reactivateBot t i s)"
| br_check: "billing_run s \<Longrightarrow> checkReactivation t tenantId d s = Inr (ids, s') \<Longrightarrow> billing_run s'"
| br_destroy: "billing_run s \<Longrightarrow> billing_run (destroyBot t i s)"
| br_destroy_expired: "billing_run s \<Longrightarrow> destroyExpiredBots t s = (ids, s') \<Longrightarrow> billing_run s'"
| br_start_billing: "billing_run s \<Longrightarrow> billing_run (s\<lparr>bl_bots := startBilling i (bl_bots s)\<rparr>)"
| br_stop_billing: "billing_run s \<Longrightarrow> billing_run (s\<lparr>bl_bots := stopBilling i (bl_bots s)\<rparr>)"
| br_tier: "billing_run s \<Longrightarrow> billing_run (s\<lparr>bl_bots := setStorageTier i tier t (bl_bots s)\<rparr>)"
| br_reassign: "billing_run s \<Longrightarrow> reassign i n t (bl_bots s) = Inr (b, bs)
    \<Longrightarrow> billing_run (s\<lparr>bl_bots := bs\<rparr>)"

definition row_ok :: "bot \<Rightarrow> bool" where
  "row_ok b \<longleftrightarrow> (b_billingState b = Billing_Suspended \<longrightarrow>
     (\<exists>a. b_suspendedAt b = Some a \<and> b_destroyAfter b = Some (a + THIRTY_DAYS_MS)))"

definition grace_inv :: "bot list \<Rightarrow> bool" where
  "grace_inv bs \<longleftrightarrow> distinct (map b_id bs) \<and> (\<forall>b \<in> set bs. row_ok b)"

lemma grace_map:
  assumes "grace_inv bs" "\<And>b. b_id (f b) = b_id b" "\<And>b. row_ok b \<Longrightarrow> row_ok (f b)"
  shows "grace_inv (map f bs)"
  using assms by (auto simp: grace_inv_def comp_def)

lemma row_ok_rows [simp]:
  "row_ok (suspended_row t b)" "row_ok (destroyed_row t b)" "row_ok b \<Longrightarrow> row_ok (reactivated_row t b)"
  by (simp_all add: row_ok_def row_defs SUSPENSION_GRACE_DAYS_def THIRTY_DAYS_MS_def)

lemma row_ids [simp]:
  "b_id (suspended_row t b) = b_id b" "b_id (destroyed_row t b) = b_id b" "b_id (reactivated_row t b) = b_id b"
  by (simp_all add: row_defs)

lemma grace_update:
  assumes "grace_inv bs" "\<And>b. b_id (f b) = b_id b" "\<And>b. row_ok b \<Longrightarrow> row_ok (f b)"
  shows "grace_inv (update_bot i f bs)"
  unfolding update_bot_def using assms by (intro grace_map) auto

lemma billing_run_inv: "billing_run s \<Longrightarrow> grace_inv (bl_bots s)"
proof (induction rule: billing_run.induct)
  case br_start
  then show ?case by (simp add: grace_inv_def)
next
  case (br_register s t i tenantId name s')
  then show ?case
    by (auto simp: registerBot_def register_bot_row_def insert_bot_def rbind_Inr_iff grace_inv_def
        default_bot_def row_ok_def split: if_splits)
next
  case (br_suspend s t i)
  then show ?case unfolding bots_suspendBot by (intro grace_update) auto
next
  case (br_suspend_all s t tenantId ids s')
  have "bl_bots s' = map (\<lambda>b. if b_id b \<in> set ids then suspended_row t b else b) (bl_bots s)"
    using br_suspend_all(2) bots_foldl[of "suspendBot t" "suspended_row t" s ids, OF bots_suspendBot]
    by (auto simp: suspendAllForTenant_def Let_def suspended_row_def)
  then show ?case using br_suspend_all.IH by (auto intro!: grace_map)
next
  case (br_reactivate s t i)
  then show ?case unfolding bots_reactivateBot by (intro grace_update) auto
next
  case (br_check s t tenantId d ids s')
  then show ?case
    by (auto simp: checkReactivation_def Let_def bots_reactivate_all split: sum.splits if_splits
        intro!: grace_map)
next
  case (br_destroy s t i)
  then show ?case unfolding bots_destroyBot by (intro grace_update) auto
next
  case (br_destroy_expired s t ids s')
  then show ?case
    by (auto simp: destroyExpiredBots_def Let_def bots_destroy_all intro!: grace_map)
next
  case (br_reassign s i n t b bs)
  then have "bs = update_bot i (\<lambda>b. b\<lparr>b_nodeId := n, b_updatedAt := t\<rparr>) (bl_bots s)"
    by (auto simp: reassign_def update_returning_def Let_def split: if_splits option.splits)
  then show ?case using br_reassign.IH by (auto intro!: grace_update simp: row_ok_def)
qed (auto simp: startBilling_def stopBilling_def setStorageTier_def intro!: grace_update, auto simp: row_ok_def)

text \<open>C15: Nothing is destroyed before its thirty days: in every state the lifecycle can reach, the sweep
  returns exactly the bots that are suspended and were last suspended at least thirty days ago,
  marks precisely those destroyed, and leaves every other row as it was.\<close>

theorem destroyed_only_after_grace:
  assumes "billing_run s" "destroyExpiredBots t s = (ids, s')"
  shows "set ids = {b_id b |b. b \<in> set (bl_bots s) \<and> b_billingState b = Billing_Suspended
        \<and> (\<exists>a. b_suspendedAt b = Some a \<and> a + 30 * 86400000 \<le> t)}
    \<and> bl_bots s' = map (\<lambda>b. if b_id b \<in> set ids
          then b\<lparr>b_billingState := Billing_Destroyed, b_updatedAt := t\<rparr> else b) (bl_bots s)"
proof -
  have i: "grace_inv (bl_bots s)" by (rule billing_run_inv[OF assms(1)])
  have e: "expired_suspended t b \<longleftrightarrow> b_billingState b = Billing_Suspended
      \<and> (\<exists>a. b_suspendedAt b = Some a \<and> a + 30 * 86400000 \<le> t)" if "b \<in> set (bl_bots s)" for b
    using i that by (fastforce simp: grace_inv_def row_ok_def expired_suspended_def THIRTY_DAYS_MS_def)
  have ids: "ids = map b_id (filter (expired_suspended t) (bl_bots s))"
    and s': "s' = foldl (\<lambda>s i. destroyBot t i s) s ids"
    using assms(2) by (auto simp: destroyExpiredBots_def listExpiredSuspendedIds_def Let_def)
  have "set ids = b_id ` {b \<in> set (bl_bots s). expired_suspended t b}" by (auto simp: ids)
  also have "\<dots> = {b_id b |b. b \<in> set (bl_bots s) \<and> b_billingState b = Billing_Suspended
      \<and> (\<exists>a. b_suspendedAt b = Some a \<and> a + 30 * 86400000 \<le> t)}"
    using e by blast
  finally show ?thesis unfolding s' bots_destroy_all destroyed_row_def by blast
qed

definition demo_bots :: billing where
  "demo_bots = suspendBot 0 ''b1'' (\<lparr>bl_bots = [default_bot ''b1'' ''t1'' ''bot'' 0], bl_sent = []\<rparr>
     \<lparr>bl_bots := stopBilling ''b1'' [default_bot ''b1'' ''t1'' ''bot'' 0]\<rparr>)"

lemma demo_bots_run: "billing_run demo_bots"
proof -
  have "registerBot 0 ''b1'' ''t1'' ''bot'' \<lparr>bl_bots = [], bl_sent = []\<rparr>
    = Inr \<lparr>bl_bots = stopBilling ''b1'' [default_bot ''b1'' ''t1'' ''bot'' 0], bl_sent = []\<rparr>"
    by (simp add: registerBot_def register_bot_row_def insert_bot_def stopBilling_def update_bot_def
        default_bot_def)
  then show ?thesis
    unfolding demo_bots_def using br_suspend[OF br_register[OF br_start]] by simp
qed

theorem destroyed_only_after_grace_witness:
  "set (fst (destroyExpiredBots 2592000000 demo_bots)) = {''b1''}
   \<and> fst (destroyExpiredBots 2591999999 demo_bots) = []"
proof -
  obtain ids s' where d: "destroyExpiredBots 2592000000 demo_bots = (ids, s')" by fastforce
  obtain ids2 s2 where d2: "destroyExpiredBots 2591999999 demo_bots = (ids2, s2)" by fastforce
  have b: "bl_bots demo_bots = [suspended_row 0 (stopped)] " if
    "stopped = (default_bot ''b1'' ''t1'' ''bot'' 0)\<lparr>b_billingState := Billing_Inactive\<rparr>" for stopped
    using that by (simp add: demo_bots_def bots_suspendBot update_bot_def stopBilling_def default_bot_def)
  show ?thesis
    using destroyed_only_after_grace[OF demo_bots_run d] destroyed_only_after_grace[OF demo_bots_run d2]
    by (auto simp: d d2 b[OF refl] suspended_row_def default_bot_def)
qed

lemma check_reactivation_spec:
  assumes "billing_run s" "balance tenantId d = Inr c"
  shows "\<exists>ids s'. checkReactivation t tenantId d s = Inr (ids, s')
    \<and> (if greaterThan c ZERO
       then ids = listSuspendedIdsByTenant tenantId (bl_bots s)
         \<and> listSuspendedIdsByTenant tenantId (bl_bots s') = []
         \<and> getActiveBotCount tenantId s' = getActiveBotCount tenantId s + length ids
         \<and> filter (\<lambda>b. b_tenantId b \<noteq> tenantId) (bl_bots s')
           = filter (\<lambda>b. b_tenantId b \<noteq> tenantId) (bl_bots s)
       else ids = [] \<and> s' = s)"
proof (cases "greaterThan c ZERO")
  case False
  then show ?thesis using assms(2) by (auto simp: checkReactivation_def credit_cmp)
next
  case True
  let ?bs = "bl_bots s" and ?P = "\<lambda>b. b_tenantId b = tenantId \<and> b_billingState b = Billing_Suspended"
  define ids where "ids = listSuspendedIdsByTenant tenantId ?bs"
  define s' where "s' = foldl (\<lambda>s i. reactivateBot t i s) s ids"
  have d: "distinct (map b_id ?bs)" using billing_run_inv[OF assms(1)] by (simp add: grace_inv_def)
  have m: "b_id b \<in> set ids \<longleftrightarrow> ?P b" if "b \<in> set ?bs" for b
    unfolding ids_def listSuspendedIdsByTenant_def using in_ids_iff[OF d that, of ?P] .
  have bs': "bl_bots s' = map (\<lambda>b. if ?P b then reactivated_row t b else b) ?bs"
    unfolding s'_def bots_reactivate_all by (rule map_cong[OF refl]) (simp add: m)
  have c: "checkReactivation t tenantId d s = Inr (ids, s')"
    using assms(2) True by (auto simp: checkReactivation_def credit_cmp ids_def s'_def Let_def)
  have "filter ?P (map (\<lambda>b. if ?P b then reactivated_row t b else b) bs) = []" for bs
    by (induction bs) (auto simp: reactivated_row_def)
  then have l: "listSuspendedIdsByTenant tenantId (bl_bots s') = []"
    unfolding bs' listSuspendedIdsByTenant_def by simp
  have "length (filter (\<lambda>b. b_tenantId b = tenantId \<and> b_billingState b = Billing_Active)
        (map (\<lambda>b. if ?P b then reactivated_row t b else b) bs))
      = length (filter (\<lambda>b. b_tenantId b = tenantId \<and> b_billingState b = Billing_Active) bs)
        + length (filter ?P bs)" for bs
    by (induction bs) (auto simp: reactivated_row_def)
  then have g: "getActiveBotCount tenantId s' = getActiveBotCount tenantId s + length ids"
    unfolding getActiveBotCount_def countActiveByTenant_def bs' ids_def listSuspendedIdsByTenant_def
      length_map .
  have "filter (\<lambda>b. b_tenantId b \<noteq> tenantId) (map (\<lambda>b. if ?P b then reactivated_row t b else b) bs)
      = filter (\<lambda>b. b_tenantId b \<noteq> tenantId) bs" for bs
    by (induction bs) (auto simp: reactivated_row_def)
  then have f: "filter (\<lambda>b. b_tenantId b \<noteq> tenantId) (bl_bots s')
      = filter (\<lambda>b. b_tenantId b \<noteq> tenantId) (bl_bots s)" unfolding bs' .
  show ?thesis unfolding if_P[OF True] using c l g f ids_def by blast
qed

text \<open>A purchase brings every suspended bot back: with a positive balance the check reactivates all
  suspended bots of the tenant (clearing their timers) and only those, so none stays suspended and
  the number the daily billing counts grows by exactly the number returned; without a positive
  balance it changes nothing.\<close>

theorem reactivation_complete:
  assumes "billing_run s" "balance tenantId d = Inr c"
  shows "\<exists>ids s'. checkReactivation t tenantId d s = Inr (ids, s')
    \<and> (if greaterThan c ZERO
       then ids = listSuspendedIdsByTenant tenantId (bl_bots s)
         \<and> listSuspendedIdsByTenant tenantId (bl_bots s') = []
         \<and> getActiveBotCount tenantId s' = getActiveBotCount tenantId s + length ids
         \<and> filter (\<lambda>b. b_tenantId b \<noteq> tenantId) (bl_bots s')
           = filter (\<lambda>b. b_tenantId b \<noteq> tenantId) (bl_bots s)
       else ids = [] \<and> s' = s)"
  using assms by (rule check_reactivation_spec)

definition demo_ledger :: db where
  "demo_ledger = empty_db\<lparr>accounts := [\<lparr>a_id = 0, a_code = tenant_code ''t1'', a_name = [],
     a_type = Liability, a_normalSide = Credit_Side, a_tenantId = Some ''t1''\<rparr>],
     accountBalances := [0 \<mapsto> 5]\<rparr>"

theorem reactivation_complete_witness:
  "\<exists>ids s'. checkReactivation 5 ''t1'' demo_ledger demo_bots = Inr (ids, s') \<and> ids = [''b1'']
     \<and> listSuspendedIdsByTenant ''t1'' (bl_bots s') = []
     \<and> getActiveBotCount ''t1'' s' = getActiveBotCount ''t1'' demo_bots + 1"
proof -
  have "balance ''t1'' demo_ledger = Inr (Credit 5)"
    by (simp add: balance_def stored_balance_def find_account_def demo_ledger_def read_credit_def
        fromRaw_bigint max_safe_integer_def)
  then obtain ids s' where r: "checkReactivation 5 ''t1'' demo_ledger demo_bots = Inr (ids, s')"
    "ids = listSuspendedIdsByTenant ''t1'' (bl_bots demo_bots)"
    "listSuspendedIdsByTenant ''t1'' (bl_bots s') = []"
    "getActiveBotCount ''t1'' s' = getActiveBotCount ''t1'' demo_bots + length ids"
    using reactivation_complete[OF demo_bots_run, of "''t1''" demo_ledger "Credit 5" 5]
    by (auto simp: greaterThan_def ZERO_def)
  moreover have "listSuspendedIdsByTenant ''t1'' (bl_bots demo_bots) = [''b1'']" by code_simp
  ultimately show ?thesis by auto
qed

end
