(* ===== verification/Recovery.thy ===== *)
theory Recovery
  imports Nodes Bots
begin

text \<open>
  Recovery of the tenants of a dead node: the event and item tables of
  \<open>src/fleet/drizzle-recovery-repository.ts\<close> and \<open>recovery-orchestrator.ts\<close>, wired as in
  \<open>services.ts\<close> to the node repository (\<open>Nodes\<close>) and the bot instances (\<open>Bots\<close>). The node agents
  behind the command bus and the profile store are parameters: the bus answers each command from
  the commands sent so far, by nothing or by an error. What the code did before it threw stays.
\<close>

section \<open>Tables\<close>

datatype event_status = In_Progress | Completed | Partial | Event_Failed

datatype item_status = Item_Recovered | Item_Failed | Item_Skipped | Item_Retried | Item_Waiting

datatype recovery_error =
    Node_Error node_error
  | Bot_Error bot_error
  | Bus_Error string
  | Setup_Error string
  | Event_Not_Found nat
  | Item_Not_Found nat

text \<open>Why a tenant failed or waits; the code keeps the message text.\<close>

datatype reason = No_Capacity | Thrown recovery_error | Bot_Instance_Not_Found

record report =
  rp_recovered :: "(string \<times> string) list"
  rp_failed :: "(string \<times> reason) list"
  rp_skipped :: "(string \<times> reason) list"
  rp_waiting :: "(string \<times> reason) list"

record recovery_event =
  v_id :: nat
  v_nodeId :: string
  v_trigger :: string
  v_status :: event_status
  v_tenantsTotal :: nat
  v_tenantsRecovered :: nat
  v_tenantsFailed :: nat
  v_tenantsWaiting :: nat
  v_startedAt :: int
  v_completedAt :: "int option"
  v_report :: "report option"

record recovery_item =
  m_id :: nat
  m_eventId :: nat
  m_tenant :: string
  m_sourceNode :: string
  m_targetNode :: "string option"
  m_backupKey :: "string option"
  m_status :: item_status
  m_reason :: "reason option"
  m_retryCount :: nat
  m_startedAt :: "int option"
  m_completedAt :: "int option"

datatype bus_command = Backup_Download string | Bot_Import string string "(string \<times> string) list"
  | Bot_Inspect string | Bot_Remove string

datatype notice = Recovery_Complete string report | Capacity_Overflow string nat nat

text \<open>The stores, the commands and notices sent, and the two local variables a throw does not undo.\<close>

record world =
  w_fleet :: fleet
  w_bots :: "bot list"
  w_events :: "recovery_event list"
  w_items :: "recovery_item list"
  w_sent :: "(string \<times> bus_command) list"
  w_notices :: "notice list"
  w_uuid :: nat
  w_report :: report
  w_imported :: bool

type_synonym 'a rec = "(world, recovery_error, 'a) act"

section \<open>Repository\<close>

definition fresh :: "nat rec" where
  "fresh s = (Inr (w_uuid s), s\<lparr>w_uuid := Suc (w_uuid s)\<rparr>)"

definition createEvent :: "nat \<Rightarrow> string \<Rightarrow> string \<Rightarrow> nat \<Rightarrow> unit rec" where
  "createEvent i nodeId trigger tenantsTotal = amodify (\<lambda>s. s\<lparr>w_events := w_events s @
     [\<lparr>v_id = i, v_nodeId = nodeId, v_trigger = trigger, v_status = In_Progress, v_tenantsTotal = tenantsTotal,
       v_tenantsRecovered = 0, v_tenantsFailed = 0, v_tenantsWaiting = 0,
       v_startedAt = now (w_fleet s), v_completedAt = None, v_report = None\<rparr>]\<rparr>)"

definition getEvent :: "nat \<Rightarrow> world \<Rightarrow> recovery_event option" where
  "getEvent i s = find (\<lambda>e. v_id e = i) (w_events s)"

definition updateEvent :: "nat \<Rightarrow> (recovery_event \<Rightarrow> recovery_event) \<Rightarrow> unit rec" where
  "updateEvent i f = atomically (\<lambda>s.
     if i \<notin> v_id ` set (w_events s) then Inl (Event_Not_Found i)
     else Inr ((), s\<lparr>w_events := map (\<lambda>e. if v_id e = i then f e else e) (w_events s)\<rparr>))"

definition createItem :: "nat \<Rightarrow> nat \<Rightarrow> string \<Rightarrow> string \<Rightarrow> string option \<Rightarrow> unit rec" where
  "createItem i eventId tenant sourceNode backupKey = amodify (\<lambda>s. s\<lparr>w_items := w_items s @
     [\<lparr>m_id = i, m_eventId = eventId, m_tenant = tenant, m_sourceNode = sourceNode, m_targetNode = None,
       m_backupKey = backupKey, m_status = Item_Waiting, m_reason = None, m_retryCount = 0,
       m_startedAt = Some (now (w_fleet s)), m_completedAt = None\<rparr>]\<rparr>)"

definition updateItem :: "nat \<Rightarrow> (recovery_item \<Rightarrow> recovery_item) \<Rightarrow> unit rec" where
  "updateItem i f = atomically (\<lambda>s.
     if i \<notin> m_id ` set (w_items s) then Inl (Item_Not_Found i)
     else Inr ((), s\<lparr>w_items := map (\<lambda>m. if m_id m = i then f m else m) (w_items s)\<rparr>))"

definition listOpenEvents :: "world \<Rightarrow> recovery_event list" where
  "listOpenEvents s = filter (\<lambda>e. v_status e \<in> {In_Progress, Partial}) (w_events s)"

definition listEvents :: "nat \<Rightarrow> event_status option \<Rightarrow> world \<Rightarrow> recovery_event list" where
  "listEvents limit st s =
     take limit (case st of None \<Rightarrow> w_events s | Some x \<Rightarrow> filter (\<lambda>e. v_status e = x) (w_events s))"

definition getWaitingItems :: "nat \<Rightarrow> world \<Rightarrow> recovery_item list" where
  "getWaitingItems eventId s = filter (\<lambda>m. m_eventId m = eventId \<and> m_status m = Item_Waiting) (w_items s)"

definition incrementRetryCount :: "nat \<Rightarrow> unit rec" where
  "incrementRetryCount i = amodify (\<lambda>s. s\<lparr>w_items :=
     map (\<lambda>m. if m_id m = i then m\<lparr>m_retryCount := Suc (m_retryCount m)\<rparr> else m) (w_items s)\<rparr>)"

definition listItemsByEvent :: "nat \<Rightarrow> world \<Rightarrow> recovery_item list" where
  "listItemsByEvent eventId s = filter (\<lambda>m. m_eventId m = eventId) (w_items s)"

definition completeInProgressEvents :: "string \<Rightarrow> unit rec" where
  "completeInProgressEvents nodeId = amodify (\<lambda>s. s\<lparr>w_events :=
     map (\<lambda>e. if v_nodeId e = nodeId \<and> v_status e = In_Progress
              then e\<lparr>v_status := Completed, v_completedAt := Some (now (w_fleet s))\<rparr> else e) (w_events s)\<rparr>)"

section \<open>Wiring\<close>

record tenant_info =
  ti_botId :: string
  ti_tenantId :: string
  ti_name :: string
  ti_containerName :: string
  ti_estimatedMb :: int
  ti_tier :: "string option"

definition getTenants :: "string \<Rightarrow> world \<Rightarrow> tenant_info list" where
  "getTenants nodeId s =
     map (\<lambda>b. \<lparr>ti_botId = b_id b, ti_tenantId = b_tenantId b, ti_name = b_name b,
            ti_containerName = ''tenant_'' @ b_tenantId b, ti_estimatedMb = 100, ti_tier = None\<rparr>)
       (listByNode nodeId (w_bots s))"

definition node_op :: "(fleet \<Rightarrow> node_error + 'a \<times> fleet) \<Rightarrow> unit rec" where
  "node_op tx = atomically (\<lambda>s. case tx (w_fleet s) of
     Inl e \<Rightarrow> Inl (Node_Error e) | Inr (_, f) \<Rightarrow> Inr ((), s\<lparr>w_fleet := f\<rparr>))"

definition reassignTenant :: "string \<Rightarrow> string \<Rightarrow> unit rec" where
  "reassignTenant botId targetNodeId = atomically (\<lambda>s.
     case reassign botId (Some targetNodeId) (now (w_fleet s)) (w_bots s) of
       Inl e \<Rightarrow> Inl (Bot_Error e) | Inr (_, bs) \<Rightarrow> Inr ((), s\<lparr>w_bots := bs\<rparr>))"

definition addNodeCapacity :: "string \<Rightarrow> int \<Rightarrow> unit rec" where
  "addNodeCapacity nodeId deltaMb = node_op (\<lambda>f. rbind (addCapacity nodeId deltaMb f) (\<lambda>f'. Inr ((), f')))"

text \<open>
  The outside: the bus, given the commands sent before, fails a command with a message or not; a
  profile is an image and an environment; the setup after the transitions may fail.
\<close>

record outside =
  o_bus :: "(string \<times> bus_command) list \<Rightarrow> string \<Rightarrow> bus_command \<Rightarrow> string option"
  o_profile :: "string \<Rightarrow> (string \<times> (string \<times> string) list) option"
  o_setup :: "string option"

definition send :: "outside \<Rightarrow> string \<Rightarrow> bus_command \<Rightarrow> unit rec" where
  "send env nodeId cmd s =
     (case o_bus env (w_sent s) nodeId cmd of
        None \<Rightarrow> (Inr (), s\<lparr>w_sent := w_sent s @ [(nodeId, cmd)]\<rparr>)
      | Some msg \<Rightarrow> (Inl (Bus_Error msg), s\<lparr>w_sent := w_sent s @ [(nodeId, cmd)]\<rparr>))"

section \<open>Orchestrator\<close>

definition DEFAULT_IMAGE :: string where
  "DEFAULT_IMAGE = ''ghcr.io/wopr-network/wopr:latest''"

definition on_report :: "(report \<Rightarrow> report) \<Rightarrow> unit rec" where
  "on_report f = amodify (\<lambda>s. s\<lparr>w_report := f (w_report s)\<rparr>)"

definition add_item ::
  "nat \<Rightarrow> nat \<Rightarrow> tenant_info \<Rightarrow> string \<Rightarrow> string \<Rightarrow> (recovery_item \<Rightarrow> recovery_item) \<Rightarrow> unit rec" where
  "add_item itemId eventId tenant deadNodeId backupKey f =
     abind (createItem itemId eventId (ti_tenantId tenant) deadNodeId (Some backupKey))
       (\<lambda>_. updateItem itemId f)"

text \<open>The body of the \<open>try\<close>: download, import, inspect, reassign, account for the memory, record.\<close>

definition recover_on ::
  "outside \<Rightarrow> nat \<Rightarrow> nat \<Rightarrow> string \<Rightarrow> tenant_info \<Rightarrow> string \<Rightarrow> string \<Rightarrow> int \<Rightarrow> unit rec" where
  "recover_on env itemId eventId deadNodeId tenant backupKey target startedAt =
     (let (image, vars) = (case o_profile env (ti_botId tenant) of
            Some p \<Rightarrow> p | None \<Rightarrow> (DEFAULT_IMAGE, []))
      in abind (send env target (Backup_Download backupKey)) (\<lambda>_.
         abind (send env target (Bot_Import (ti_containerName tenant) image vars)) (\<lambda>_.
         abind (amodify (\<lambda>s. s\<lparr>w_imported := True\<rparr>)) (\<lambda>_.
         abind (send env target (Bot_Inspect (ti_containerName tenant))) (\<lambda>_.
         abind (reassignTenant (ti_botId tenant) target) (\<lambda>_.
         abind (addNodeCapacity target (ti_estimatedMb tenant)) (\<lambda>_.
         abind (on_report (\<lambda>r. r\<lparr>rp_recovered := rp_recovered r @ [(ti_botId tenant, target)]\<rparr>)) (\<lambda>_.
         add_item itemId eventId tenant deadNodeId backupKey (\<lambda>m. m\<lparr>m_targetNode := Some target,
           m_status := Item_Recovered, m_startedAt := Some startedAt, m_completedAt := Some startedAt\<rparr>)))))))))"

text \<open>The catch block: remove an imported container, record the failure.\<close>

definition recover_failed ::
  "outside \<Rightarrow> nat \<Rightarrow> nat \<Rightarrow> string \<Rightarrow> tenant_info \<Rightarrow> string \<Rightarrow> string \<Rightarrow> int \<Rightarrow> recovery_error \<Rightarrow> unit rec" where
  "recover_failed env itemId eventId deadNodeId tenant backupKey target startedAt err =
     abind (\<lambda>s. if w_imported s
              then acatch (send env target (Bot_Remove (ti_containerName tenant))) (\<lambda>_. areturn ()) s
              else areturn () s) (\<lambda>_.
     abind (on_report (\<lambda>r. r\<lparr>rp_failed := rp_failed r @ [(ti_botId tenant, Thrown err)]\<rparr>)) (\<lambda>_.
     add_item itemId eventId tenant deadNodeId backupKey (\<lambda>m. m\<lparr>m_targetNode := Some target,
       m_status := Item_Failed, m_reason := Some (Thrown err), m_startedAt := Some startedAt, m_completedAt := Some startedAt\<rparr>)))"

definition recover_waiting :: "nat \<Rightarrow> nat \<Rightarrow> string \<Rightarrow> tenant_info \<Rightarrow> string \<Rightarrow> int \<Rightarrow> unit rec" where
  "recover_waiting itemId eventId deadNodeId tenant backupKey startedAt =
     abind (on_report (\<lambda>r. r\<lparr>rp_waiting := rp_waiting r @ [(ti_botId tenant, No_Capacity)]\<rparr>)) (\<lambda>_.
     add_item itemId eventId tenant deadNodeId backupKey
       (\<lambda>m. m\<lparr>m_status := Item_Waiting, m_reason := Some No_Capacity, m_startedAt := Some startedAt\<rparr>))"

definition recoverTenant :: "outside \<Rightarrow> nat \<Rightarrow> string \<Rightarrow> tenant_info \<Rightarrow> unit rec" where
  "recoverTenant env eventId deadNodeId tenant =
     abind fresh (\<lambda>itemId s.
       let startedAt = now (w_fleet s);
           backupKey = ''latest/'' @ ti_containerName tenant @ ''/latest.tar.gz''
       in case findBestTarget deadNodeId (ti_estimatedMb tenant) (w_fleet s) of
            None \<Rightarrow> recover_waiting itemId eventId deadNodeId tenant backupKey startedAt s
          | Some target \<Rightarrow>
              acatch (recover_on env itemId eventId deadNodeId tenant backupKey (n_id target) startedAt)
                (recover_failed env itemId eventId deadNodeId tenant backupKey (n_id target) startedAt)
                (s\<lparr>w_imported := False\<rparr>))"

definition empty_report :: report where
  "empty_report = \<lparr>rp_recovered = [], rp_failed = [], rp_skipped = [], rp_waiting = []\<rparr>"

definition final_status :: "report \<Rightarrow> event_status" where
  "final_status r = (if rp_waiting r \<noteq> [] then Partial
     else if rp_recovered r = [] \<and> rp_failed r \<noteq> [] then Event_Failed else Completed)"

definition transition_node :: "string \<Rightarrow> node_status \<Rightarrow> string \<Rightarrow> unit rec" where
  "transition_node i to reason = node_op (transition i to reason ''recovery_orchestrator'')"

text \<open>Steps 2 and 3, with the roll-back of the node when they throw.\<close>

definition setup_recovery :: "outside \<Rightarrow> nat \<Rightarrow> string \<Rightarrow> string \<Rightarrow> tenant_info list rec" where
  "setup_recovery env eventId deadNodeId trigger =
     acatch
       (abind (aquery (\<lambda>s. case o_setup env of Some msg \<Rightarrow> Inl (Setup_Error msg)
                 | None \<Rightarrow> Inr (getTenants deadNodeId s))) (\<lambda>tenants.
        abind (createEvent eventId deadNodeId trigger (length tenants)) (\<lambda>_. areturn tenants)))
       (\<lambda>e. abind (transition_node deadNodeId Offline ''recovery_setup_failed'') (\<lambda>_. athrow e))"

definition finish :: "nat \<Rightarrow> string \<Rightarrow> nat \<Rightarrow> report rec" where
  "finish eventId deadNodeId tenantsTotal =
     abind (aquery (\<lambda>s. Inr (w_report s, now (w_fleet s)))) (\<lambda>(r, t).
     abind (updateEvent eventId (\<lambda>e. e\<lparr>v_status := final_status r,
              v_tenantsRecovered := length (rp_recovered r), v_tenantsFailed := length (rp_failed r),
              v_tenantsWaiting := length (rp_waiting r), v_completedAt := Some t,
              v_report := Some r\<rparr>)) (\<lambda>_.
     abind (amodify (\<lambda>s. s\<lparr>w_notices := w_notices s @ [Recovery_Complete deadNodeId r]\<rparr>)) (\<lambda>_.
     abind (awhen (rp_waiting r \<noteq> []) (amodify (\<lambda>s. s\<lparr>w_notices := w_notices s
              @ [Capacity_Overflow deadNodeId (length (rp_waiting r)) tenantsTotal]\<rparr>))) (\<lambda>_.
     areturn r))))"

definition triggerRecovery :: "outside \<Rightarrow> string \<Rightarrow> string \<Rightarrow> report rec" where
  "triggerRecovery env deadNodeId trigger =
     (let reason = (if trigger = ''heartbeat_timeout'' then ''heartbeat_timeout'' else ''manual_recovery'')
      in abind fresh (\<lambda>eventId.
         abind (transition_node deadNodeId Offline reason) (\<lambda>_.
         abind (transition_node deadNodeId Recovering reason) (\<lambda>_.
         abind (setup_recovery env eventId deadNodeId trigger) (\<lambda>tenants.
         abind (amodify (\<lambda>s. s\<lparr>w_report := empty_report\<rparr>)) (\<lambda>_.
         abind (afor (recoverTenant env eventId deadNodeId) tenants) (\<lambda>_.
         abind (transition_node deadNodeId Offline ''recovery_complete'') (\<lambda>_.
         finish eventId deadNodeId (length tenants)))))))))"

text \<open>One waiting item of a retry.\<close>

definition retry_item :: "outside \<Rightarrow> nat \<Rightarrow> string \<Rightarrow> tenant_info list \<Rightarrow> recovery_item \<Rightarrow> unit rec" where
  "retry_item env eventId nodeId allTenants item =
     (case find (\<lambda>t. ti_tenantId t = m_tenant item) allTenants of
        None \<Rightarrow> on_report (\<lambda>r. r\<lparr>rp_failed := rp_failed r @ [(m_tenant item, Bot_Instance_Not_Found)]\<rparr>)
      | Some tenant \<Rightarrow>
          abind (aquery (\<lambda>s. Inr (w_report s))) (\<lambda>before.
          abind (recoverTenant env eventId nodeId tenant) (\<lambda>_.
          abind (aquery (\<lambda>s. Inr (w_report s))) (\<lambda>after.
          abind (if length (rp_recovered after) > length (rp_recovered before)
                 then (\<lambda>s. updateItem (m_id item) (\<lambda>m. m\<lparr>m_status := Item_Recovered,
                        m_completedAt := Some (now (w_fleet s))\<rparr>) s)
                 else if length (rp_failed after) > length (rp_failed before)
                 then (\<lambda>s. updateItem (m_id item) (\<lambda>m. m\<lparr>m_status := Item_Failed,
                        m_completedAt := Some (now (w_fleet s))\<rparr>) s)
                 else areturn ()) (\<lambda>_.
          incrementRetryCount (m_id item))))))"

definition retryWaiting :: "outside \<Rightarrow> nat \<Rightarrow> report rec" where
  "retryWaiting env eventId =
     abind (aquery (\<lambda>s. case getEvent eventId s of None \<Rightarrow> Inl (Event_Not_Found eventId) | Some e \<Rightarrow> Inr e)) (\<lambda>event.
     abind (aquery (\<lambda>s. Inr (getWaitingItems eventId s, getTenants (v_nodeId event) s))) (\<lambda>(waitingItems, allTenants).
     abind (amodify (\<lambda>s. s\<lparr>w_report := empty_report\<rparr>)) (\<lambda>_.
     abind (afor (retry_item env eventId (v_nodeId event) allTenants) waitingItems) (\<lambda>_.
     abind (aquery (\<lambda>s. Inr (w_report s, now (w_fleet s)))) (\<lambda>(r, t).
     abind (updateEvent eventId (\<lambda>e. e\<lparr>
              v_tenantsRecovered := v_tenantsRecovered event + length (rp_recovered r),
              v_tenantsFailed := v_tenantsFailed event + length (rp_failed r),
              v_tenantsWaiting := length (rp_waiting r),
              v_status := (if rp_waiting r \<noteq> [] then Partial else Completed),
              v_completedAt := (if rp_waiting r = [] then Some t else v_completedAt event)\<rparr>)) (\<lambda>_.
     areturn r))))))"

section \<open>The watchdog's own recovery is refused\<close>

lemma trigger_from_offline:
  assumes "getStatus i (w_fleet s) = Some Offline"
  shows "triggerRecovery env i trigger s
    = (Inl (Node_Error (Invalid_Transition Offline Offline)), s\<lparr>w_uuid := Suc (w_uuid s)\<rparr>)"
proof -
  obtain n where "getById i (w_fleet s) = Some n" "n_status n = Offline"
    using assms by (auto simp: getStatus_def)
  then have "transition i Offline r b (w_fleet s) = Inl (Invalid_Transition Offline Offline)" for r b
    by (simp add: transition_def transition_read_def isValidTransition_def)
  then show ?thesis
    by (simp add: triggerRecovery_def fresh_def abind_def transition_node_def node_op_def
        atomically_def Let_def)
qed

text \<open>C16: Automatic recovery never starts: the watchdog takes a silent node offline before it hands the
  node to recovery, and recovery begins with that same step, which the state machine refuses; so
  for every node a check hands over, the triggered recovery throws an invalid transition, creates
  no event, sends no command and moves no tenant.\<close>

theorem watchdog_recovery_refused:
  assumes "distinct (map n_id (nodes f))" "check w f = (r, ws)" "i \<in> set (ws_recoveries ws)"
    and "w_fleet s = ws_fleet ws"
  shows "triggerRecovery env i ''heartbeat_timeout'' s
    = (Inl (Node_Error (Invalid_Transition Offline Offline)), s\<lparr>w_uuid := Suc (w_uuid s)\<rparr>)"
proof -
  have "getStatus i (ws_fleet ws) = Some Offline"
    using check_spec[OF assms(1,2)] assms(3) by auto
  then show ?thesis using assms(4) by (intro trigger_from_offline) simp
qed

definition quiet :: outside where
  "quiet = \<lparr>o_bus = \<lambda>_ _ _. None, o_profile = \<lambda>_. None, o_setup = None\<rparr>"

definition demo_world :: "fleet \<Rightarrow> world" where
  "demo_world f = \<lparr>w_fleet = f, w_bots = [(default_bot ''b1'' ''t1'' ''bot'' 0)\<lparr>b_nodeId := Some ''n1''\<rparr>],
     w_events = [], w_items = [], w_sent = [], w_notices = [], w_uuid = 0, w_report = empty_report,
     w_imported = False\<rparr>"

definition silent_fleet :: fleet where
  "silent_fleet = \<lparr>nodes = [(blank_node ''n1'' ''h'' 0)\<lparr>n_status := Unhealthy, n_capacityMb := 1000,
        n_lastHeartbeatAt := Some 0\<rparr>,
      (blank_node ''n2'' ''h'' 0)\<lparr>n_status := Active, n_capacityMb := 500, n_lastHeartbeatAt := Some 390\<rparr>],
     transitions = [], now = 400\<rparr>"

theorem watchdog_recovery_refused_witness:
  "fst (triggerRecovery quiet ''n1'' ''heartbeat_timeout''
      (demo_world (ws_fleet (snd (check default_watchdog silent_fleet)))))
   = Inl (Node_Error (Invalid_Transition Offline Offline))"
proof -
  obtain r ws where c: "check default_watchdog silent_fleet = (r, ws)" by fastforce
  have d: "distinct (map n_id (nodes silent_fleet))" by code_simp
  have "ws_recoveries (snd (check default_watchdog silent_fleet)) = [''n1'']" by code_simp
  then have "''n1'' \<in> set (ws_recoveries ws)" by (simp add: c)
  from watchdog_recovery_refused[OF d c this, of "demo_world (ws_fleet ws)" quiet]
  show ?thesis by (simp add: c demo_world_def)
qed

section \<open>One tenant\<close>

definition fresh_items :: "world \<Rightarrow> bool" where
  "fresh_items s \<longleftrightarrow> (\<forall>m \<in> set (w_items s). m_id m < w_uuid s)"

lemma add_item_eq:
  assumes "\<forall>m \<in> set (w_items s). m_id m \<noteq> itemId"
  shows "add_item itemId eventId tenant dead key f s = (Inr (), s\<lparr>w_items := w_items s @
     [f \<lparr>m_id = itemId, m_eventId = eventId, m_tenant = ti_tenantId tenant, m_sourceNode = dead,
         m_targetNode = None, m_backupKey = Some key, m_status = Item_Waiting, m_reason = None,
         m_retryCount = 0, m_startedAt = Some (now (w_fleet s)), m_completedAt = None\<rparr>]\<rparr>)"
proof -
  have "map (\<lambda>m. if m_id m = itemId then f m else m) (w_items s) = w_items s"
    using assms by (intro map_idI) auto
  then show ?thesis
    by (simp add: add_item_def createItem_def updateItem_def abind_def amodify_def atomically_def)
qed

lemma send_cases:
  obtains s' where "send env n cmd s = (Inr (), s')" "s' = s\<lparr>w_sent := w_sent s @ [(n, cmd)]\<rparr>"
  | s' msg where "send env n cmd s = (Inl (Bus_Error msg), s')" "s' = s\<lparr>w_sent := w_sent s @ [(n, cmd)]\<rparr>"
  by (cases "o_bus env (w_sent s) n cmd") (auto simp: send_def)

text \<open>
  What handling the tenants \<open>ts\<close> does: each is reported once, the recovered bots moved to active nodes,
  one new item per tenant with the status of its report, and nothing else but the commands and memory.
\<close>

definition reported :: "report \<Rightarrow> string list" where
  "reported r = map fst (rp_recovered r) @ map fst (rp_failed r) @ map fst (rp_waiting r)"

definition move_bots :: "(string \<times> string) list \<Rightarrow> int \<Rightarrow> bot list \<Rightarrow> bot list" where
  "move_bots ms t bs = foldl (\<lambda>bs (b, target). update_bot b
     (\<lambda>x. x\<lparr>b_nodeId := Some target, b_updatedAt := t\<rparr>) bs) bs ms"

definition same_statuses :: "fleet \<Rightarrow> fleet \<Rightarrow> bool" where
  "same_statuses f g \<longleftrightarrow> (\<forall>i. getStatus i g = getStatus i f) \<and> now g = now f \<and> map n_id (nodes g) = map n_id (nodes f)"

definition framed :: "world \<Rightarrow> world \<Rightarrow> bool" where
  "framed s s' \<longleftrightarrow> w_events s' = w_events s \<and> w_notices s' = w_notices s \<and> w_uuid s \<le> w_uuid s'
     \<and> same_statuses (w_fleet s) (w_fleet s')"

definition with_status :: "item_status \<Rightarrow> recovery_item list \<Rightarrow> recovery_item list" where
  "with_status st = filter (\<lambda>m. m_status m = st)"

definition accounted :: "nat \<Rightarrow> tenant_info list \<Rightarrow> world \<Rightarrow> world \<Rightarrow> bool" where
  "accounted ev ts s s' \<longleftrightarrow> framed s s' \<and> fresh_items s' \<and>
     mset (reported (w_report s')) = mset (reported (w_report s)) + mset (map ti_botId ts) \<and>
     (\<exists>ms. rp_recovered (w_report s') = rp_recovered (w_report s) @ ms
        \<and> w_bots s' = move_bots ms (now (w_fleet s)) (w_bots s)
        \<and> (\<forall>(b, target) \<in> set ms. getStatus target (w_fleet s) = Some Active)) \<and>
     (\<exists>its. w_items s' = w_items s @ its \<and> (\<forall>m \<in> set its. m_eventId m = ev)
        \<and> length (rp_recovered (w_report s')) = length (rp_recovered (w_report s)) + length (with_status Item_Recovered its)
        \<and> length (rp_failed (w_report s')) = length (rp_failed (w_report s)) + length (with_status Item_Failed its)
        \<and> length (rp_waiting (w_report s')) = length (rp_waiting (w_report s)) + length (with_status Item_Waiting its))"

lemma framed_refl [simp]: "framed s s"
  by (simp add: framed_def same_statuses_def)

lemma framed_trans: "framed s s' \<Longrightarrow> framed s' s'' \<Longrightarrow> framed s s''"
  by (simp add: framed_def same_statuses_def)

lemma accounted_nil: "fresh_items s \<Longrightarrow> accounted ev [] s s"
  by (auto simp: accounted_def move_bots_def with_status_def)

lemma accounted_append:
  assumes "accounted ev ts s s'" "accounted ev us s' s''"
  shows "accounted ev (ts @ us) s s''"
proof -
  have eq: "now (w_fleet s') = now (w_fleet s)" "\<And>i. getStatus i (w_fleet s') = getStatus i (w_fleet s)"
    using assms(1) by (simp_all add: accounted_def framed_def same_statuses_def)
  obtain ms ms' where ms: "rp_recovered (w_report s') = rp_recovered (w_report s) @ ms"
      "w_bots s' = move_bots ms (now (w_fleet s)) (w_bots s)"
      "\<forall>(b, target) \<in> set ms. getStatus target (w_fleet s) = Some Active"
    and ms': "rp_recovered (w_report s'') = rp_recovered (w_report s') @ ms'"
      "w_bots s'' = move_bots ms' (now (w_fleet s)) (w_bots s')"
      "\<forall>(b, target) \<in> set ms'. getStatus target (w_fleet s) = Some Active"
    using assms unfolding accounted_def eq by blast
  obtain its its' where its: "w_items s' = w_items s @ its" "\<forall>m \<in> set its. m_eventId m = ev"
      "length (rp_recovered (w_report s')) = length (rp_recovered (w_report s)) + length (with_status Item_Recovered its)"
      "length (rp_failed (w_report s')) = length (rp_failed (w_report s)) + length (with_status Item_Failed its)"
      "length (rp_waiting (w_report s')) = length (rp_waiting (w_report s)) + length (with_status Item_Waiting its)"
    and its': "w_items s'' = w_items s' @ its'" "\<forall>m \<in> set its'. m_eventId m = ev"
      "length (rp_recovered (w_report s'')) = length (rp_recovered (w_report s')) + length (with_status Item_Recovered its')"
      "length (rp_failed (w_report s'')) = length (rp_failed (w_report s')) + length (with_status Item_Failed its')"
      "length (rp_waiting (w_report s'')) = length (rp_waiting (w_report s')) + length (with_status Item_Waiting its')"
    using assms unfolding accounted_def by blast
  have "framed s s''" "fresh_items s''"
    using assms framed_trans by (auto simp: accounted_def)
  moreover have "mset (reported (w_report s'')) = mset (reported (w_report s)) + mset (map ti_botId (ts @ us))"
    using assms by (simp add: accounted_def)
  moreover have "\<exists>ms. rp_recovered (w_report s'') = rp_recovered (w_report s) @ ms
        \<and> w_bots s'' = move_bots ms (now (w_fleet s)) (w_bots s)
        \<and> (\<forall>(b, target) \<in> set ms. getStatus target (w_fleet s) = Some Active)"
    using ms ms' by (intro exI[of _ "ms @ ms'"]) (auto simp: move_bots_def)
  moreover have "w_items s'' = w_items s @ its @ its'" "\<forall>m \<in> set (its @ its'). m_eventId m = ev"
    using its its' by auto
  ultimately show ?thesis
    unfolding accounted_def using its its' by (auto simp: with_status_def intro!: exI[of _ "its @ its'"])
qed

lemma findBestTarget_active:
  assumes "findBestTarget i mb f = Some n"
  shows "n \<in> set (nodes f)" "n_status n = Active"
proof -
  let ?c = "filter (\<lambda>n. n_status n = Active \<and> n_id n \<noteq> i \<and> free_mb n \<ge> mb) (nodes f)"
  have "set (sort_key (\<lambda>n. - free_mb n) ?c) = set ?c" by simp
  moreover have "n \<in> set (sort_key (\<lambda>n. - free_mb n) ?c)"
    using assms unfolding findBestTarget_def by (cases "sort_key (\<lambda>n. - free_mb n) ?c") simp_all
  ultimately have "n \<in> set ?c" by blast
  then show "n \<in> set (nodes f)" "n_status n = Active" by auto
qed

lemma addCapacity_ok:
  assumes "n \<in> set (nodes f)"
  shows "\<exists>f'. addCapacity (n_id n) d f = Inr f' \<and> same_statuses f f'"
proof -
  let ?g = "\<lambda>m. if n_id m = n_id n then m\<lparr>n_usedMb := max 0 (n_usedMb m + d)\<rparr> else m"
  have "filter (\<lambda>m. n_id m = n_id n) (nodes f) \<noteq> []" using assms by (auto simp: filter_empty_conv)
  then have "addCapacity (n_id n) d f = Inr (f\<lparr>nodes := map ?g (nodes f)\<rparr>)"
    by (simp add: addCapacity_def update_nodes_def Let_def)
  moreover have "getStatus i (f\<lparr>nodes := map ?g (nodes f)\<rparr>) = getStatus i f" for i
    by (simp add: getStatus_def getById_def getById_map option.map_comp comp_def if_distrib cong: if_cong)
  ultimately show ?thesis by (auto simp: same_statuses_def)
qed

text \<open>The two ends of the \<open>try\<close>: everything done, or nothing but commands sent.\<close>

definition unmoved :: "world \<Rightarrow> world \<Rightarrow> bool" where
  "unmoved s s' \<longleftrightarrow> w_fleet s' = w_fleet s \<and> w_bots s' = w_bots s \<and> w_items s' = w_items s
     \<and> w_events s' = w_events s \<and> w_notices s' = w_notices s \<and> w_uuid s' = w_uuid s \<and> w_report s' = w_report s"

lemma recover_on_tail:
  assumes n: "n \<in> set (nodes (w_fleet s))" "n_status n = Active" and d: "getStatus (n_id n) (w_fleet s) = Some Active"
    and fresh: "\<forall>m \<in> set (w_items s). m_id m < itemId" "itemId < w_uuid s"
  shows "case abind (reassignTenant (ti_botId tenant) (n_id n)) (\<lambda>_.
         abind (addNodeCapacity (n_id n) (ti_estimatedMb tenant)) (\<lambda>_.
         abind (on_report (\<lambda>r. r\<lparr>rp_recovered := rp_recovered r @ [(ti_botId tenant, n_id n)]\<rparr>)) (\<lambda>_.
         add_item itemId ev tenant dead key (\<lambda>m. m\<lparr>m_targetNode := Some (n_id n),
           m_status := Item_Recovered, m_startedAt := Some t, m_completedAt := Some t\<rparr>)))) s
     of (Inr _, s') \<Rightarrow> accounted ev [tenant] s s' | (Inl e, s') \<Rightarrow> unmoved s s'"
proof (cases "reassign (ti_botId tenant) (Some (n_id n)) (now (w_fleet s)) (w_bots s)")
  case (Inl e)
  then show ?thesis by (simp add: abind_def reassignTenant_def atomically_def unmoved_def)
next
  case (Inr p)
  then have p: "snd p = update_bot (ti_botId tenant)
      (\<lambda>x. x\<lparr>b_nodeId := Some (n_id n), b_updatedAt := now (w_fleet s)\<rparr>) (w_bots s)"
    by (auto simp: reassign_def update_returning_def Let_def split: if_splits option.splits)
  obtain f where f: "addCapacity (n_id n) (ti_estimatedMb tenant) (w_fleet s) = Inr f" "same_statuses (w_fleet s) f"
    using addCapacity_ok[OF n(1)] by blast
  have fr: "\<forall>m \<in> set (w_items s). m_id m \<noteq> itemId" using fresh by auto
  show ?thesis
    using Inr f p d fresh fr
    by (cases p) (auto simp: abind_def reassignTenant_def addNodeCapacity_def node_op_def atomically_def
        on_report_def amodify_def add_item_eq accounted_def framed_def fresh_items_def reported_def move_bots_def
        with_status_def same_statuses_def split: sum.splits)
qed

lemma unmoved_trans: "unmoved s s' \<Longrightarrow> unmoved s' s'' \<Longrightarrow> unmoved s s''"
  by (simp add: unmoved_def)

lemma send_unmoved: "send env n cmd s = (r, s') \<Longrightarrow> unmoved s s'"
  by (auto simp: send_def unmoved_def split: option.splits)

lemma accounted_unmoved:
  assumes "unmoved s s'" "accounted ev ts s' s''"
  shows "accounted ev ts s s''"
  using assms by (simp add: accounted_def framed_def unmoved_def)

lemma abind_quiet:
  assumes "\<And>r s'. m s = (r, s') \<Longrightarrow> unmoved s s'"
    and "\<And>a s'. unmoved s s' \<Longrightarrow>
      (case k a s' of (Inr _, s'') \<Rightarrow> accounted ev ts s' s'' | (Inl e, s'') \<Rightarrow> unmoved s' s'')"
  shows "case abind m k s of (Inr _, s'') \<Rightarrow> accounted ev ts s s'' | (Inl e, s'') \<Rightarrow> unmoved s s''"
proof (cases "m s")
  case (Pair r s')
  have u: "unmoved s s'" using assms(1)[OF Pair] .
  show ?thesis
  proof (cases r)
    case (Inl e)
    then show ?thesis using Pair u by (simp add: abind_def)
  next
    case (Inr a)
    show ?thesis using Inr Pair assms(2)[OF u, of a] accounted_unmoved[OF u] unmoved_trans[OF u]
      by (auto simp: abind_def split: sum.splits prod.splits)
  qed
qed

lemma recover_on_effect:
  assumes n: "n \<in> set (nodes (w_fleet s))" "n_status n = Active" "getStatus (n_id n) (w_fleet s) = Some Active"
    and fresh: "\<forall>m \<in> set (w_items s). m_id m < itemId" "itemId < w_uuid s"
  shows "case recover_on env itemId ev dead tenant key (n_id n) t s
     of (Inr _, s') \<Rightarrow> accounted ev [tenant] s s' | (Inl e, s') \<Rightarrow> unmoved s s'"
proof -
  have tail: "case abind (reassignTenant (ti_botId tenant) (n_id n)) (\<lambda>_.
         abind (addNodeCapacity (n_id n) (ti_estimatedMb tenant)) (\<lambda>_.
         abind (on_report (\<lambda>r. r\<lparr>rp_recovered := rp_recovered r @ [(ti_botId tenant, n_id n)]\<rparr>)) (\<lambda>_.
         add_item itemId ev tenant dead key (\<lambda>m. m\<lparr>m_targetNode := Some (n_id n),
           m_status := Item_Recovered, m_startedAt := Some t, m_completedAt := Some t\<rparr>)))) s'
     of (Inr _, s'') \<Rightarrow> accounted ev [tenant] s' s'' | (Inl e, s'') \<Rightarrow> unmoved s' s''" if "unmoved s s'" for s'
    by (rule recover_on_tail) (use that assms in \<open>simp_all add: unmoved_def\<close>)
  have imp: "unmoved s (s\<lparr>w_imported := True\<rparr>)" for s by (simp add: unmoved_def)
  obtain image vars where p: "(case o_profile env (ti_botId tenant) of Some p \<Rightarrow> p | None \<Rightarrow> (DEFAULT_IMAGE, [])) = (image, vars)"
    by fastforce
  show ?thesis
    unfolding recover_on_def Let_def p prod.case
    by (rule abind_quiet, erule send_unmoved, rule abind_quiet, erule send_unmoved, rule abind_quiet,
        simp add: amodify_def, metis imp, rule abind_quiet, erule send_unmoved, rule tail)
      (blast intro: unmoved_trans)
qed

lemma abind_Inr: "m s = (Inr a, s') \<Longrightarrow> abind m k s = k a s'"
  by (simp add: abind_def)

lemma recover_failed_effect:
  assumes fresh: "\<forall>m \<in> set (w_items s). m_id m < itemId" "itemId < w_uuid s"
  shows "\<exists>s'. recover_failed env itemId ev dead tenant key target t err s = (Inr (), s') \<and> accounted ev [tenant] s s'"
proof -
  let ?clean = "(\<lambda>s. if w_imported s
              then acatch (send env target (Bot_Remove (ti_containerName tenant))) (\<lambda>_. areturn ()) s
              else areturn () s) :: unit rec"
  have "\<exists>s1. ?clean s = (Inr (), s1) \<and> unmoved s s1"
    by (cases "o_bus env (w_sent s) target (Bot_Remove (ti_containerName tenant))")
      (simp_all add: acatch_def areturn_def send_def unmoved_def)
  then obtain s1 where s1: "?clean s = (Inr (), s1)" "unmoved s s1" by blast
  have "\<forall>m \<in> set (w_items s1). m_id m \<noteq> itemId" using fresh s1(2) by (auto simp: unmoved_def)
  moreover have "\<forall>m \<in> set (w_items s1). m_id m < itemId" "itemId < w_uuid s1"
    using fresh s1(2) by (auto simp: unmoved_def)
  ultimately have "\<exists>s'. abind (on_report (\<lambda>r. r\<lparr>rp_failed := rp_failed r @ [(ti_botId tenant, Thrown err)]\<rparr>)) (\<lambda>_.
       add_item itemId ev tenant dead key (\<lambda>m. m\<lparr>m_targetNode := Some target, m_status := Item_Failed,
         m_reason := Some (Thrown err), m_startedAt := Some t, m_completedAt := Some t\<rparr>)) s1 = (Inr (), s')
       \<and> accounted ev [tenant] s1 s'"
    by (auto simp: abind_def on_report_def amodify_def add_item_eq accounted_def framed_def fresh_items_def
        reported_def move_bots_def with_status_def same_statuses_def)
  then show ?thesis
    unfolding recover_failed_def abind_Inr[of ?clean, OF s1(1)] using accounted_unmoved[OF s1(2)] by blast
qed

lemma getStatus_member:
  "distinct (map n_id (nodes f)) \<Longrightarrow> n \<in> set (nodes f) \<Longrightarrow> getStatus (n_id n) f = Some (n_status n)"
  by (simp add: getStatus_def getById_def find_unique_id)

lemma recoverTenant_effect:
  assumes d: "distinct (map n_id (nodes (w_fleet s)))" and f: "fresh_items s"
  shows "\<exists>s'. recoverTenant env ev dead tenant s = (Inr (), s') \<and> accounted ev [tenant] s s'"
proof -
  let ?s = "s\<lparr>w_uuid := Suc (w_uuid s)\<rparr>"
  let ?u = "?s\<lparr>w_imported := False\<rparr>"
  let ?i = "w_uuid s" and ?t = "now (w_fleet s)"
  let ?key = "''latest/'' @ ti_containerName tenant @ ''/latest.tar.gz''"
  have fresh: "\<forall>m \<in> set (w_items ?s). m_id m < ?i" "\<forall>m \<in> set (w_items ?s). m_id m \<noteq> ?i"
    using f by (auto simp: fresh_items_def)
  have up: "accounted ev [tenant] s s'" if "accounted ev [tenant] ?u s' \<or> accounted ev [tenant] ?s s'" for s'
    using that by (auto simp: accounted_def framed_def)
  show ?thesis
  proof (cases "findBestTarget dead (ti_estimatedMb tenant) (w_fleet s)")
    case None
    have "\<exists>s'. recover_waiting ?i ev dead tenant ?key ?t ?s = (Inr (), s') \<and> accounted ev [tenant] ?s s'"
      using fresh by (auto simp: recover_waiting_def abind_def on_report_def amodify_def add_item_eq accounted_def
        framed_def fresh_items_def reported_def move_bots_def with_status_def same_statuses_def)
    then show ?thesis using up by (auto simp: recoverTenant_def abind_def fresh_def None Let_def)
  next
    case (Some n)
    note n = findBestTarget_active[OF Some]
    have r: "recoverTenant env ev dead tenant s = acatch (recover_on env ?i ev dead tenant ?key (n_id n) ?t)
        (recover_failed env ?i ev dead tenant ?key (n_id n) ?t) ?u"
      by (simp add: recoverTenant_def abind_def fresh_def Some Let_def)
    have "case recover_on env ?i ev dead tenant ?key (n_id n) ?t ?u
        of (Inr _, s') \<Rightarrow> accounted ev [tenant] ?u s' | (Inl e, s') \<Rightarrow> unmoved ?u s'"
      by (rule recover_on_effect) (use n d fresh getStatus_member in \<open>auto\<close>)
    then consider s' where "recover_on env ?i ev dead tenant ?key (n_id n) ?t ?u = (Inr (), s')" "accounted ev [tenant] ?u s'"
      | e s1 where "recover_on env ?i ev dead tenant ?key (n_id n) ?t ?u = (Inl e, s1)" "unmoved ?u s1"
      by (auto split: prod.splits sum.splits)
    then show ?thesis
    proof cases
      case 1
      then show ?thesis using up r by (auto simp: acatch_def)
    next
      case (2 e s1)
      then have "\<forall>m \<in> set (w_items s1). m_id m < ?i" "?i < w_uuid s1" using fresh by (auto simp: unmoved_def)
      then obtain s' where "recover_failed env ?i ev dead tenant ?key (n_id n) ?t e s1 = (Inr (), s')" "accounted ev [tenant] s1 s'"
        using recover_failed_effect by blast
      then show ?thesis using 2 up r accounted_unmoved[OF 2(2)] by (auto simp: acatch_def)
    qed
  qed
qed

section \<open>A whole recovery\<close>

lemma recover_all:
  assumes "distinct (map n_id (nodes (w_fleet s)))" "fresh_items s"
  shows "\<exists>s'. afor (recoverTenant env ev dead) ts s = (Inr (), s') \<and> accounted ev ts s s'"
  using assms
proof (induction ts arbitrary: s)
  case Nil
  then show ?case using accounted_nil by (simp add: areturn_def)
next
  case (Cons t ts)
  obtain s1 where s1: "recoverTenant env ev dead t s = (Inr (), s1)" "accounted ev [t] s s1"
    using recoverTenant_effect[OF Cons.prems] by blast
  then have "distinct (map n_id (nodes (w_fleet s1)))" "fresh_items s1"
    using Cons.prems by (simp_all add: accounted_def framed_def same_statuses_def)
  then obtain s' where "afor (recoverTenant env ev dead) ts s1 = (Inr (), s')" "accounted ev ts s1 s'"
    using Cons.IH by blast
  then show ?case using s1(1) accounted_append[OF s1(2)] by (auto simp: abind_def)
qed

lemma transition_node_ok:
  assumes "getStatus i (w_fleet s) = Some a" "isValidTransition a to"
  shows "\<exists>f. transition_node i to reason s = (Inr (), s\<lparr>w_fleet := f\<rparr>) \<and> getStatus i f = Some to
    \<and> (\<forall>j. j \<noteq> i \<longrightarrow> getStatus j f = getStatus j (w_fleet s)) \<and> now f = now (w_fleet s)
    \<and> map n_id (nodes f) = map n_id (nodes (w_fleet s))"
proof -
  obtain n where n: "getById i (w_fleet s) = Some n" "n_status n = a"
    using assms(1) by (auto simp: getStatus_def)
  obtain n' f where f: "transition i to reason ''recovery_orchestrator'' (w_fleet s) = Inr (n', f)" "now f = now (w_fleet s)"
    using transition_ok[OF n(1)] assms(2) n(2) by blast
  have "map n_id (nodes f) = map n_id (nodes (w_fleet s))"
    using f(1) by (auto simp: transition_def transition_read_def rbind_Inr_iff dest!: transition_cas_Inr(1)
        split: option.splits if_splits)
  then show ?thesis
    using f transition_status(2,3)[OF f(1)]
    by (intro exI[of _ f]) (simp add: transition_node_def node_op_def atomically_def getStatus_def)
qed

definition fresh_events :: "world \<Rightarrow> bool" where
  "fresh_events s \<longleftrightarrow> (\<forall>e \<in> set (w_events s). v_id e < w_uuid s)"

lemma finish_eq:
  assumes "\<forall>e \<in> set es. v_id e \<noteq> v_id e0" "w_events s = es @ [e0]"
  shows "\<exists>s'. finish (v_id e0) dead k s = (Inr (w_report s), s')
    \<and> w_events s' = es @ [e0\<lparr>v_status := final_status (w_report s),
        v_tenantsRecovered := length (rp_recovered (w_report s)), v_tenantsFailed := length (rp_failed (w_report s)),
        v_tenantsWaiting := length (rp_waiting (w_report s)), v_completedAt := Some (now (w_fleet s)),
        v_report := Some (w_report s)\<rparr>]
    \<and> w_fleet s' = w_fleet s \<and> w_bots s' = w_bots s \<and> w_items s' = w_items s"
proof -
  have "map (\<lambda>e. if v_id e = v_id e0 then g e else e) es = es" for g
    using assms(1) by (intro map_idI) auto
  then show ?thesis using assms(2) by (simp add: finish_def act_defs updateEvent_def)
qed

lemma setup_ok:
  assumes "o_setup env = None"
  shows "setup_recovery env ev i trigger s = (Inr (getTenants i s), s\<lparr>w_events := w_events s @
     [\<lparr>v_id = ev, v_nodeId = i, v_trigger = trigger, v_status = In_Progress,
       v_tenantsTotal = length (getTenants i s), v_tenantsRecovered = 0, v_tenantsFailed = 0,
       v_tenantsWaiting = 0, v_startedAt = now (w_fleet s), v_completedAt = None, v_report = None\<rparr>]\<rparr>)"
  using assms by (simp add: setup_recovery_def acatch_def act_defs createEvent_def)



section \<open>Retrying while there is still no room\<close>

lemma retry_item_waits:
  assumes t: "find (\<lambda>t. ti_tenantId t = m_tenant item) ts = Some t"
    and none: "findBestTarget node (ti_estimatedMb t) (w_fleet s) = None" and f: "fresh_items s"
  shows "\<exists>s'. retry_item env ev node ts item s = (Inr (), s') \<and> w_fleet s' = w_fleet s \<and> w_events s' = w_events s
    \<and> fresh_items s' \<and> length (getWaitingItems ev s') = Suc (length (getWaitingItems ev s))"
proof -
  have fr: "\<forall>m \<in> set (w_items s). m_id m \<noteq> w_uuid s" using f by (auto simp: fresh_items_def)
  have inc: "(\<lambda>m. m_eventId m = ev \<and> m_status m = Item_Waiting)
      \<circ> (\<lambda>m. if m_id m = i then m\<lparr>m_retryCount := Suc (m_retryCount m)\<rparr> else m)
    = (\<lambda>m. m_eventId m = ev \<and> m_status m = Item_Waiting)" for i
    by (rule ext) simp
  show ?thesis
    using f fr unfolding retry_item_def t
    by (auto simp: abind_def aquery_def recoverTenant_def fresh_def none Let_def recover_waiting_def on_report_def
        amodify_def add_item_eq areturn_def incrementRetryCount_def fresh_items_def getWaitingItems_def filter_map inc)
qed

lemma retry_all_wait:
  assumes "fresh_items s" "\<forall>m \<in> set items. \<exists>t. find (\<lambda>t. ti_tenantId t = m_tenant m) ts = Some t"
    and "\<forall>t \<in> set ts. findBestTarget node (ti_estimatedMb t) (w_fleet s) = None"
  shows "\<exists>s'. afor (retry_item env ev node ts) items s = (Inr (), s') \<and> w_events s' = w_events s
    \<and> length (getWaitingItems ev s') = length (getWaitingItems ev s) + length items"
  using assms
proof (induction items arbitrary: s)
  case Nil
  then show ?case by (simp add: areturn_def)
next
  case (Cons m items)
  obtain t where t: "find (\<lambda>t. ti_tenantId t = m_tenant m) ts = Some t" using Cons.prems(2) by auto
  then have "t \<in> set ts" using find_exists by fastforce
  then have none: "findBestTarget node (ti_estimatedMb t) (w_fleet s) = None" using Cons.prems(3) by blast
  obtain s1 where s1: "retry_item env ev node ts m s = (Inr (), s1)" "w_fleet s1 = w_fleet s" "w_events s1 = w_events s"
      "fresh_items s1" "length (getWaitingItems ev s1) = Suc (length (getWaitingItems ev s))"
    using retry_item_waits[OF t none Cons.prems(1)] by blast
  obtain s' where "afor (retry_item env ev node ts) items s1 = (Inr (), s')" "w_events s' = w_events s1"
      "length (getWaitingItems ev s') = length (getWaitingItems ev s1) + length items"
    using Cons.IH[of s1] s1 Cons.prems by auto
  then show ?case using s1 by (auto simp: abind_def)
qed

text \<open>A retry that finds no room again does not leave the waiting list as it was: it writes a new waiting
  item for every waiting item and keeps the old one, so each such retry doubles the number of items
  waiting for the event.\<close>

theorem retry_doubles_waiting:
  assumes "getEvent ev s = Some e" "fresh_items s"
    and "\<forall>m \<in> set (getWaitingItems ev s). \<exists>b \<in> set (listByNode (v_nodeId e) (w_bots s)). b_tenantId b = m_tenant m"
    and "findBestTarget (v_nodeId e) 100 (w_fleet s) = None"
  shows "\<exists>r s'. retryWaiting env ev s = (Inr r, s')
    \<and> length (getWaitingItems ev s') = 2 * length (getWaitingItems ev s)"
proof -
  let ?ts = "getTenants (v_nodeId e) s" and ?items = "getWaitingItems ev s"
  let ?s = "s\<lparr>w_report := empty_report\<rparr>"
  have "\<exists>t. find (\<lambda>t. ti_tenantId t = m_tenant m) ?ts = Some t" if m: "m \<in> set ?items" for m
  proof -
    obtain b where b: "b \<in> set (listByNode (v_nodeId e) (w_bots s))" "b_tenantId b = m_tenant m"
      using bspec[OF assms(3) m] by (elim bexE)
    have "\<exists>t \<in> set ?ts. ti_tenantId t = m_tenant m"
      unfolding getTenants_def set_map by (rule bexI[OF _ imageI[OF b(1)]]) (simp add: b(2))
    then have "find (\<lambda>t. ti_tenantId t = m_tenant m) ?ts \<noteq> None"
      by (auto simp: find_None_iff)
    then show ?thesis by (simp add: not_None_eq)
  qed
  moreover have "\<forall>t \<in> set ?ts. findBestTarget (v_nodeId e) (ti_estimatedMb t) (w_fleet ?s) = None"
    using assms(4) by (auto simp: getTenants_def)
  moreover have "fresh_items ?s" using assms(2) by (simp add: fresh_items_def)
  ultimately obtain s1 where s1: "afor (retry_item env ev (v_nodeId e) ?ts) ?items ?s = (Inr (), s1)"
      "w_events s1 = w_events s" "length (getWaitingItems ev s1) = length (getWaitingItems ev ?s) + length ?items"
    using retry_all_wait[of ?s ?items ?ts "v_nodeId e" env ev] by auto
  have "ev \<in> v_id ` set (w_events s1)" using assms(1) s1(2) find_exists by (fastforce simp: getEvent_def)
  have w: "getWaitingItems ev (x\<lparr>w_events := es\<rparr>) = getWaitingItems ev x" "getWaitingItems ev ?s = getWaitingItems ev s" for x es
    by (simp_all add: getWaitingItems_def)
  have "\<exists>r es. retryWaiting env ev s = (Inr r, s1\<lparr>w_events := es\<rparr>)"
    using \<open>ev \<in> _\<close> by (simp add: retryWaiting_def act_defs updateEvent_def assms(1) s1(1)) blast
  then show ?thesis using s1(3) w by fastforce
qed

definition waiting_world :: world where
  "waiting_world = (demo_world silent_fleet)\<lparr>w_fleet := silent_fleet\<lparr>nodes := []\<rparr>, w_uuid := 2,
     w_events := [\<lparr>v_id = 0, v_nodeId = ''n1'', v_trigger = [], v_status = Partial, v_tenantsTotal = 1,
       v_tenantsRecovered = 0, v_tenantsFailed = 0, v_tenantsWaiting = 1, v_startedAt = 0, v_completedAt = None,
       v_report = None\<rparr>],
     w_items := [\<lparr>m_id = 1, m_eventId = 0, m_tenant = ''t1'', m_sourceNode = ''n1'', m_targetNode = None,
       m_backupKey = None, m_status = Item_Waiting, m_reason = Some No_Capacity, m_retryCount = 0,
       m_startedAt = None, m_completedAt = None\<rparr>]\<rparr>"

theorem retry_doubles_waiting_witness:
  "\<exists>r s'. retryWaiting quiet 0 waiting_world = (Inr r, s') \<and> length (getWaitingItems 0 s') = 2"
proof -
  have w: "length (getWaitingItems 0 waiting_world) = 1" by (simp add: waiting_world_def getWaitingItems_def)
  have p: "getEvent 0 waiting_world = Some (hd (w_events waiting_world))" "fresh_items waiting_world"
    "\<forall>m \<in> set (getWaitingItems 0 waiting_world).
       \<exists>b \<in> set (listByNode (v_nodeId (hd (w_events waiting_world))) (w_bots waiting_world)). b_tenantId b = m_tenant m"
    "findBestTarget (v_nodeId (hd (w_events waiting_world))) 100 (w_fleet waiting_world) = None"
    by code_simp+
  show ?thesis using retry_doubles_waiting[OF p, of quiet] unfolding w by simp
qed

end
