(* ===== verification/Rollout.thy ===== *)
theory Rollout
  imports JsNumber
begin

text \<open>
  Rolling container updates: the strategies of \<open>src/fleet/rollout-strategy.ts\<close>, the update of one bot
  (\<open>updater.ts\<close>) and the waves of \<open>rollout-orchestrator.ts\<close>. Docker, the fleet manager, the profile
  store and the volume snapshots are the parameter \<open>site\<close>: each call is answered from the calls made
  before it, by a value or a failure. Pauses are calls too.
\<close>

section \<open>Strategies\<close>

datatype failure_action = Abort | Skip | Retry

record wave_options =
  batchPercent :: rat
  pauseMs :: rat
  maxFailures :: rat

datatype strategy = Rolling_Wave wave_options nat | Single_Bot | Immediate

fun pauseDuration :: "strategy \<Rightarrow> rat" where
  "pauseDuration (Rolling_Wave opts _) = pauseMs opts"
| "pauseDuration Single_Bot = 0"
| "pauseDuration Immediate = 0"

fun maxRetries :: "strategy \<Rightarrow> nat" where
  "maxRetries (Rolling_Wave _ _) = 2"
| "maxRetries Single_Bot = 3"
| "maxRetries Immediate = 1"

fun healthCheckTimeout :: "strategy \<Rightarrow> nat" where
  "healthCheckTimeout (Rolling_Wave _ _) = 120000"
| "healthCheckTimeout Single_Bot = 120000"
| "healthCheckTimeout Immediate = 60000"

definition wave_size :: "rat \<Rightarrow> nat \<Rightarrow> nat" where
  "wave_size percent len = nat (max 1 (js_ceil (js_div (js_mul (of_nat len) percent) 100)))"

fun nextBatch :: "strategy \<Rightarrow> 'p list \<Rightarrow> 'p list" where
  "nextBatch (Rolling_Wave opts _) remaining =
     (if remaining = [] then [] else take (wave_size (batchPercent opts) (length remaining)) remaining)"
| "nextBatch Single_Bot remaining = (if remaining = [] then [] else take 1 remaining)"
| "nextBatch Immediate remaining = remaining"

fun onBotFailure :: "strategy \<Rightarrow> nat \<Rightarrow> failure_action \<times> strategy" where
  "onBotFailure (Rolling_Wave opts totalFailures) attempt =
     (if attempt < maxRetries (Rolling_Wave opts totalFailures) then (Retry, Rolling_Wave opts totalFailures)
      else let st = Rolling_Wave opts (Suc totalFailures) in
        (if of_nat (Suc totalFailures) \<ge> maxFailures opts then (Abort, st) else (Skip, st)))"
| "onBotFailure Single_Bot attempt =
     (if attempt < maxRetries Single_Bot then (Retry, Single_Bot) else (Abort, Single_Bot))"
| "onBotFailure Immediate _ = (Skip, Immediate)"

fun reset :: "strategy \<Rightarrow> strategy" where
  "reset (Rolling_Wave opts _) = Rolling_Wave opts 0"
| "reset st = st"

datatype strategy_type = Type_Rolling_Wave | Type_Single_Bot | Type_Immediate

definition default_wave_options :: wave_options where
  "default_wave_options = \<lparr>batchPercent = 25, pauseMs = 60000, maxFailures = 3\<rparr>"

fun createRolloutStrategy :: "strategy_type \<Rightarrow> (rat option \<times> rat option \<times> rat option) option \<Rightarrow> strategy" where
  "createRolloutStrategy Type_Rolling_Wave options =
     (case options of None \<Rightarrow> Rolling_Wave default_wave_options 0
      | Some (percent, pause, failures) \<Rightarrow> Rolling_Wave
          \<lparr>batchPercent = (case percent of None \<Rightarrow> 25 | Some x \<Rightarrow> x),
           pauseMs = (case pause of None \<Rightarrow> 60000 | Some x \<Rightarrow> x),
           maxFailures = (case failures of None \<Rightarrow> 3 | Some x \<Rightarrow> x)\<rparr> 0)"
| "createRolloutStrategy Type_Single_Bot _ = Single_Bot"
| "createRolloutStrategy Type_Immediate _ = Immediate"

section \<open>What the strategies promise\<close>

text \<open>The interface the orchestrator relies on: a non-empty wave off the front, and retries below a bound.\<close>

locale rollout_strategy =
  fixes batch :: "'s \<Rightarrow> 'p list \<Rightarrow> 'p list"
    and failed :: "'s \<Rightarrow> nat \<Rightarrow> failure_action \<times> 's"
    and retries :: "'s \<Rightarrow> nat"
  assumes batch_prefix: "\<exists>k. batch st ps = take k ps"
    and batch_nonempty: "ps \<noteq> [] \<Longrightarrow> batch st ps \<noteq> []"
    and retry_iff: "0 < n \<Longrightarrow> fst (failed st n) = Retry \<longleftrightarrow> n < retries st"
    and retries_kept: "retries (snd (failed st n)) = retries st"
    and retries_positive: "0 < retries st"
begin

lemma batch_split: "\<exists>rest. ps = batch st ps @ rest"
  using batch_prefix[of st ps] by (metis append_take_drop_id)

lemma last_attempt: "0 < n \<Longrightarrow> fst (failed st n) \<noteq> Retry \<Longrightarrow> n \<le> retries st \<Longrightarrow> n = retries st"
  using retry_iff by fastforce

end

interpretation strat: rollout_strategy nextBatch onBotFailure maxRetries
proof
  fix st :: strategy and ps :: "'p list" and n :: nat
  show "\<exists>k. nextBatch st ps = take k ps"
    by (cases st) (auto intro: exI[of _ 0] exI[of _ "length ps"])
  show "nextBatch st ps \<noteq> []" if "ps \<noteq> []" using that by (cases st) (auto simp: wave_size_def)
  show "fst (onBotFailure st n) = Retry \<longleftrightarrow> n < maxRetries st" if "0 < n"
    using that by (cases st) (auto simp: Let_def)
  show "maxRetries (snd (onBotFailure st n)) = maxRetries st" by (cases st) (auto simp: Let_def)
  show "0 < maxRetries st" by (cases st) auto
qed

section \<open>Updating one bot\<close>

record profile =
  p_id :: string
  p_image :: string
  p_volumeName :: "string option"

record update_result =
  x_botId :: string
  x_success :: bool
  x_previousImage :: string
  x_newImage :: string
  x_previousDigest :: "string option"
  x_newDigest :: "string option"
  x_rolledBack :: bool
  x_error :: "string option"

record bot_update = update_result +
  x_volumeRestored :: bool

text \<open>What the poll of a container sees; after the deadline there is no further poll.\<close>

datatype health = No_Container | Not_Running | No_Healthcheck | Healthy | Sick | Starting | Inspect_Failed

datatype call = Get_Profile string | Get_Digest string | Inspect string | Pull string
  | Fleet_Update string string | Poll_Health string | Snapshot string | Restore string
  | Delete_Snapshot string | Sleep rat

record site =
  k_profile :: "call list \<Rightarrow> string \<Rightarrow> profile option"
  k_digest :: "call list \<Rightarrow> string \<Rightarrow> string option"
  k_running :: "call list \<Rightarrow> string \<Rightarrow> bool"
  k_pull :: "call list \<Rightarrow> string \<Rightarrow> string option"
  k_fleet :: "call list \<Rightarrow> string \<Rightarrow> string \<Rightarrow> string option"
  k_health :: "call list \<Rightarrow> string \<Rightarrow> health list"
  k_snapshot :: "call list \<Rightarrow> string \<Rightarrow> string + string"
  k_restore :: "call list \<Rightarrow> string \<Rightarrow> string option"
  k_delete :: "call list \<Rightarrow> string \<Rightarrow> string option"

record updater =
  u_calls :: "call list"
  u_updating :: "string set"

type_synonym 'a upd = "(updater, string, 'a) act"

text \<open>A call whose answer is a value, and one that may throw.\<close>

definition ask :: "call \<Rightarrow> (call list \<Rightarrow> 'a) \<Rightarrow> 'a upd" where
  "ask c answer u = (Inr (answer (u_calls u)), u\<lparr>u_calls := u_calls u @ [c]\<rparr>)"

definition try_call :: "call \<Rightarrow> (call list \<Rightarrow> string option) \<Rightarrow> unit upd" where
  "try_call c answer = abind (ask c answer) (\<lambda>e. case e of None \<Rightarrow> areturn () | Some msg \<Rightarrow> athrow msg)"

fun waitForHealthy :: "health list \<Rightarrow> bool" where
  "waitForHealthy [] = False"
| "waitForHealthy (No_Healthcheck # _) = True"
| "waitForHealthy (Healthy # _) = True"
| "waitForHealthy (Sick # _) = False"
| "waitForHealthy (_ # hs) = waitForHealthy hs"

definition rollback_image :: "string \<Rightarrow> string option \<Rightarrow> string" where
  "rollback_image previousImage previousDigest =
     (case previousDigest of
        Some d \<Rightarrow> if d = [] then previousImage else takeWhile (\<lambda>c. c \<noteq> CHR '':'') previousImage @ ''@'' @ d
      | None \<Rightarrow> previousImage)"

definition rollback :: "site \<Rightarrow> string \<Rightarrow> string \<Rightarrow> string option \<Rightarrow> update_result upd" where
  "rollback env botId previousImage previousDigest =
     (let rollbackImage = rollback_image previousImage previousDigest in
      acatch
        (abind (try_call (Fleet_Update botId rollbackImage) (\<lambda>cs. k_fleet env cs botId rollbackImage))
          (\<lambda>_. areturn \<lparr>x_botId = botId, x_success = False, x_previousImage = previousImage,
             x_newImage = previousImage, x_previousDigest = previousDigest, x_newDigest = previousDigest,
             x_rolledBack = True,
             x_error = Some ''Health check failed after update, rolled back to previous image''\<rparr>))
        (\<lambda>msg. athrow (''Rollback failed: '' @ msg)))"

definition failed_update :: "string \<Rightarrow> string \<Rightarrow> update_result" where
  "failed_update botId msg = \<lparr>x_botId = botId, x_success = False, x_previousImage = [], x_newImage = [],
     x_previousDigest = None, x_newDigest = None, x_rolledBack = False, x_error = Some msg\<rparr>"

definition update_verified :: "site \<Rightarrow> string \<Rightarrow> profile \<Rightarrow> string option \<Rightarrow> bool \<Rightarrow> update_result upd" where
  "update_verified env botId profile previousDigest wasRunning =
     abind (try_call (Pull (p_image profile)) (\<lambda>cs. k_pull env cs (p_image profile))) (\<lambda>_.
     abind (try_call (Fleet_Update botId (p_image profile)) (\<lambda>cs. k_fleet env cs botId (p_image profile))) (\<lambda>_.
     abind (if wasRunning then ask (Poll_Health botId) (\<lambda>cs. waitForHealthy (k_health env cs botId)) else areturn True)
       (\<lambda>healthy. if wasRunning \<and> \<not> healthy then rollback env botId (p_image profile) previousDigest
          else abind (ask (Get_Digest botId) (\<lambda>cs. k_digest env cs botId)) (\<lambda>newDigest.
            areturn \<lparr>x_botId = botId, x_success = True, x_previousImage = p_image profile,
              x_newImage = p_image profile, x_previousDigest = previousDigest, x_newDigest = newDigest,
              x_rolledBack = False, x_error = None\<rparr>))))"

definition doUpdateBot :: "site \<Rightarrow> string \<Rightarrow> update_result upd" where
  "doUpdateBot env botId =
     abind (ask (Get_Profile botId) (\<lambda>cs. k_profile env cs botId)) (\<lambda>found.
     case found of None \<Rightarrow> areturn (failed_update botId ''Bot not found'')
     | Some profile \<Rightarrow>
         abind (ask (Get_Digest botId) (\<lambda>cs. k_digest env cs botId)) (\<lambda>previousDigest.
         abind (ask (Inspect botId) (\<lambda>cs. k_running env cs botId)) (\<lambda>wasRunning.
         acatch (update_verified env botId profile previousDigest wasRunning)
           (\<lambda>message. acatch (rollback env botId (p_image profile) previousDigest)
             (\<lambda>_. areturn \<lparr>x_botId = botId, x_success = False, x_previousImage = p_image profile,
                x_newImage = p_image profile, x_previousDigest = previousDigest, x_newDigest = None,
                x_rolledBack = False,
                x_error = Some (''Update failed: '' @ message @ ''. Rollback also failed.'')\<rparr>)))))"

definition updater_updateBot :: "site \<Rightarrow> string \<Rightarrow> update_result upd" where
  "updater_updateBot env botId u =
     (if botId \<in> u_updating u then (Inr (failed_update botId ''Update already in progress''), u)
      else let (r, u') = doUpdateBot env botId (u\<lparr>u_updating := insert botId (u_updating u)\<rparr>)
           in (r, u'\<lparr>u_updating := u_updating u' - {botId}\<rparr>))"

section \<open>Updating one bot with a snapshot\<close>

definition restored :: "bool \<Rightarrow> update_result \<Rightarrow> bot_update" where
  "restored v r = \<lparr>x_botId = x_botId r, x_success = x_success r, x_previousImage = x_previousImage r,
     x_newImage = x_newImage r, x_previousDigest = x_previousDigest r, x_newDigest = x_newDigest r,
     x_rolledBack = x_rolledBack r, x_error = x_error r, x_volumeRestored = v\<rparr>"

fun restoreVolumes :: "site \<Rightarrow> string list \<Rightarrow> bool upd" where
  "restoreVolumes env [] = areturn False"
| "restoreVolumes env (i # ids) =
     abind (ask (Restore i) (\<lambda>cs. k_restore env cs i))
       (\<lambda>e. case e of None \<Rightarrow> areturn True | Some _ \<Rightarrow> restoreVolumes env ids)"

definition cleanupSnapshots :: "site \<Rightarrow> string list \<Rightarrow> unit upd" where
  "cleanupSnapshots env = afor (\<lambda>i. acatch (try_call (Delete_Snapshot i) (\<lambda>cs. k_delete env cs i)) (\<lambda>_. areturn ()))"

definition pre_snapshot :: "site \<Rightarrow> profile \<Rightarrow> string list upd" where
  "pre_snapshot env profile =
     (case p_volumeName profile of
        Some v \<Rightarrow> if v = [] then areturn [] else
          abind (ask (Snapshot v) (\<lambda>cs. k_snapshot env cs v))
            (\<lambda>r. case r of Inl _ \<Rightarrow> areturn [] | Inr i \<Rightarrow> areturn [i])
      | None \<Rightarrow> areturn [])"

definition updateBot :: "site \<Rightarrow> profile \<Rightarrow> bot_update upd" where
  "updateBot env profile =
     abind (pre_snapshot env profile) (\<lambda>snapshotIds.
     acatch
       (abind (updater_updateBot env (p_id profile)) (\<lambda>result.
        if x_success result
        then abind (cleanupSnapshots env snapshotIds) (\<lambda>_. areturn (restored False result))
        else abind (restoreVolumes env snapshotIds) (\<lambda>v. areturn (restored v result))))
       (\<lambda>err. abind (restoreVolumes env snapshotIds) (\<lambda>v.
          areturn (restored v \<lparr>x_botId = p_id profile, x_success = False, x_previousImage = p_image profile,
            x_newImage = p_image profile, x_previousDigest = None, x_newDigest = None, x_rolledBack = False,
            x_error = Some err\<rparr>))))"

section \<open>Waves\<close>

record rolling =
  g_site :: updater
  g_strategy :: strategy
  g_results :: "bot_update list"
  g_aborted :: bool
  g_retry :: "profile list"

definition fails :: "string \<Rightarrow> bot_update list \<Rightarrow> nat" where
  "fails i rs = length (filter (\<lambda>r. x_botId r = i \<and> \<not> x_success r) rs)"

definition handleFailure :: "string \<Rightarrow> bot_update list \<Rightarrow> strategy \<Rightarrow> failure_action \<times> strategy" where
  "handleFailure botId allResults st = onBotFailure st (fails botId allResults)"

definition wave_step :: "site \<Rightarrow> rolling \<Rightarrow> profile \<Rightarrow> rolling" where
  "wave_step env s profile =
     (if g_aborted s then s else
      case updateBot env profile (g_site s) of
        (Inl _, u) \<Rightarrow> s\<lparr>g_site := u\<rparr>
      | (Inr result, u) \<Rightarrow>
          let s1 = s\<lparr>g_site := u, g_results := g_results s @ [result]\<rparr> in
          if x_success result then s1
          else let (action, st) = handleFailure (p_id profile) (g_results s1) (g_strategy s1);
                   s2 = s1\<lparr>g_strategy := st\<rparr>
               in (case action of
                     Abort \<Rightarrow> s2\<lparr>g_aborted := True\<rparr>
                   | Retry \<Rightarrow> s2\<lparr>g_retry := g_retry s2 @ [profile]\<rparr>
                   | Skip \<Rightarrow> s2))"

definition wave :: "site \<Rightarrow> profile list \<Rightarrow> rolling \<Rightarrow> rolling" where
  "wave env batch s = foldl (wave_step env) (s\<lparr>g_retry := []\<rparr>) batch"

definition left_over :: "profile list \<Rightarrow> profile list \<Rightarrow> profile list \<Rightarrow> profile list" where
  "left_over remaining batch retryProfiles =
     filter (\<lambda>b. p_id b \<notin> p_id ` set batch) remaining
     @ filter (\<lambda>b. p_id b \<in> p_id ` set retryProfiles) retryProfiles"

definition pause :: "profile list \<Rightarrow> rolling \<Rightarrow> rolling" where
  "pause remaining s =
     (if remaining \<noteq> [] \<and> \<not> g_aborted s \<and> pauseDuration (g_strategy s) > 0
      then s\<lparr>g_site := (g_site s)\<lparr>u_calls := u_calls (g_site s) @ [Sleep (pauseDuration (g_strategy s))]\<rparr>\<rparr>
      else s)"

text \<open>The update of a bot never throws, and its result carries the id of the bot.\<close>

lemma returns_ask: "\<exists>a u'. ask c f u = (Inr a, u')"
  by (simp add: ask_def)

lemma restoreVolumes_returns: "\<exists>v u'. restoreVolumes env ids u = (Inr v, u')"
  by (induction ids arbitrary: u) (auto simp: areturn_def abind_def ask_def split: option.splits)

lemma cleanup_returns: "\<exists>u'. cleanupSnapshots env ids u = (Inr (), u')"
  by (induction ids arbitrary: u)
    (auto simp: cleanupSnapshots_def areturn_def abind_def acatch_def try_call_def ask_def athrow_def split: option.splits)

lemma pre_snapshot_returns: "\<exists>ids u'. pre_snapshot env p u = (Inr ids, u')"
  by (auto simp: pre_snapshot_def areturn_def abind_def ask_def split: option.splits sum.splits)

definition about :: "string \<Rightarrow> update_result upd \<Rightarrow> bool" where
  "about i m \<longleftrightarrow> (\<forall>u. case fst (m u) of Inl _ \<Rightarrow> True | Inr r \<Rightarrow> x_botId r = i)"

lemma about_bind:
  assumes "\<And>a. about i (k a)"
  shows "about i (abind m k)"
proof -
  have "case fst (abind m k u) of Inl _ \<Rightarrow> True | Inr r \<Rightarrow> x_botId r = i" for u
  proof (cases "m u")
    case (Pair r u')
    show ?thesis
    proof (cases r)
      case (Inr a)
      then show ?thesis using assms[of a] Pair by (simp add: abind_def about_def)
    qed (simp add: Pair abind_def)
  qed
  then show ?thesis by (simp add: about_def)
qed

lemma about_catch:
  assumes "about i m" "\<And>e. about i (h e)"
  shows "about i (acatch m h)"
proof -
  have "case fst (acatch m h u) of Inl _ \<Rightarrow> True | Inr r \<Rightarrow> x_botId r = i" for u
  proof (cases "m u")
    case (Pair r u')
    have "case fst (m u) of Inl _ \<Rightarrow> True | Inr r \<Rightarrow> x_botId r = i" using assms(1) by (simp add: about_def)
    then show ?thesis
      using assms(2) Pair by (cases r) (simp_all add: acatch_def about_def)
  qed
  then show ?thesis by (simp add: about_def)
qed

lemma aboutD:
  assumes "about i m" "m u = (Inr r, u')"
  shows "x_botId r = i"
proof -
  have "case fst (m u) of Inl _ \<Rightarrow> True | Inr r \<Rightarrow> x_botId r = i" using assms(1) by (simp add: about_def)
  then show ?thesis using assms(2) by simp
qed

lemma about_return: "x_botId r = i \<Longrightarrow> about i (areturn r)"
  by (simp add: about_def areturn_def)

lemma about_throw: "about i (athrow e)"
  by (simp add: about_def athrow_def)

lemmas about_intros = about_bind about_catch about_return about_throw

lemma rollback_about: "about i (rollback env i img d)"
  unfolding rollback_def Let_def by (intro about_intros) simp_all

lemma updater_about: "about i (updater_updateBot env i)"
proof -
  have "about i (doUpdateBot env i)"
    unfolding doUpdateBot_def update_verified_def
    by (auto intro!: about_intros rollback_about simp: failed_update_def split: option.splits)
  then have "case fst (updater_updateBot env i u) of Inl _ \<Rightarrow> True | Inr r \<Rightarrow> x_botId r = i" for u
    by (auto simp: about_def updater_updateBot_def failed_update_def split: prod.splits)
      (metis fst_conv)
  then show ?thesis by (simp add: about_def)
qed

lemma updateBot_returns: "\<exists>r u'. updateBot env p u = (Inr r, u') \<and> x_botId r = p_id p"
proof -
  obtain ids u1 where pre: "pre_snapshot env p u = (Inr ids, u1)" using pre_snapshot_returns by blast
  obtain r u2 where up: "updater_updateBot env (p_id p) u1 = (r, u2)" by fastforce
  obtain v u3 where re: "restoreVolumes env ids u2 = (Inr v, u3)" using restoreVolumes_returns by blast
  obtain u4 where cl: "cleanupSnapshots env ids u2 = (Inr (), u4)" using cleanup_returns by blast
  show ?thesis
  proof (cases r)
    case (Inl e)
    then show ?thesis using pre up re by (simp add: updateBot_def abind_def acatch_def areturn_def restored_def)
  next
    case (Inr x)
    have "x_botId x = p_id p" using aboutD[OF updater_about] up Inr by simp
    then show ?thesis using pre up re cl Inr
      by (cases "x_success x") (simp_all add: updateBot_def abind_def acatch_def areturn_def restored_def)
  qed
qed

section \<open>The waves end\<close>

text \<open>One step of a wave, with the retries still allowed to a bot.\<close>

lemma fails_append: "fails i (rs @ rs') = fails i rs + fails i rs'"
  by (simp add: fails_def)

inductive stepped :: "profile \<Rightarrow> rolling \<Rightarrow> rolling \<Rightarrow> bool" for p s s' where
  step_stopped: "g_aborted s \<Longrightarrow> s' = s \<Longrightarrow> stepped p s s'"
| step_done: "\<not> g_aborted s \<Longrightarrow> g_results s' = g_results s @ [r] \<Longrightarrow> x_botId r = p_id p \<Longrightarrow> x_success r
    \<Longrightarrow> \<not> g_aborted s' \<Longrightarrow> g_retry s' = g_retry s \<Longrightarrow> g_strategy s' = g_strategy s \<Longrightarrow> stepped p s s'"
| step_retry: "\<not> g_aborted s \<Longrightarrow> g_results s' = g_results s @ [r] \<Longrightarrow> x_botId r = p_id p \<Longrightarrow> \<not> x_success r
    \<Longrightarrow> Suc (fails (p_id p) (g_results s)) < maxRetries (g_strategy s) \<Longrightarrow> \<not> g_aborted s'
    \<Longrightarrow> g_retry s' = g_retry s @ [p] \<Longrightarrow> maxRetries (g_strategy s') = maxRetries (g_strategy s) \<Longrightarrow> stepped p s s'"
| step_given_up: "\<not> g_aborted s \<Longrightarrow> g_results s' = g_results s @ [r] \<Longrightarrow> x_botId r = p_id p \<Longrightarrow> \<not> x_success r
    \<Longrightarrow> maxRetries (g_strategy s) \<le> Suc (fails (p_id p) (g_results s))
    \<Longrightarrow> g_retry s' = g_retry s \<Longrightarrow> maxRetries (g_strategy s') = maxRetries (g_strategy s) \<Longrightarrow> stepped p s s'"

lemma wave_step_stepped: "stepped p s (wave_step env s p)"
proof (cases "g_aborted s")
  case True
  then show ?thesis by (intro step_stopped) (simp_all add: wave_step_def)
next
  case False
  obtain r u where r: "updateBot env p (g_site s) = (Inr r, u)" "x_botId r = p_id p"
    using updateBot_returns by blast
  show ?thesis
  proof (cases "x_success r")
    case True
    then show ?thesis using False r by (intro step_done) (simp_all add: wave_step_def)
  next
    case fail: False
    let ?n = "fails (p_id p) (g_results s @ [r])"
    have n: "?n = Suc (fails (p_id p) (g_results s))" using r fail by (simp add: fails_def)
    obtain a st where a: "onBotFailure (g_strategy s) ?n = (a, st)" by fastforce
    have ret: "a = Retry \<longleftrightarrow> ?n < maxRetries (g_strategy s)" "maxRetries st = maxRetries (g_strategy s)"
      using strat.retry_iff[of ?n "g_strategy s"] strat.retries_kept[of "g_strategy s" ?n] a n by auto
    show ?thesis
    proof (cases a)
      case Retry
      then show ?thesis using False r fail a n ret
        by (intro step_retry) (simp_all add: wave_step_def handleFailure_def)
    qed (use False r fail a n ret in \<open>auto intro!: step_given_up simp: wave_step_def handleFailure_def\<close>)
  qed
qed

definition budget :: "rolling \<Rightarrow> profile \<Rightarrow> nat" where
  "budget s p = maxRetries (g_strategy s) - fails (p_id p) (g_results s)"

lemma budget_step: "stepped q s s' \<Longrightarrow> budget s' p \<le> budget s p"
  by (erule stepped.cases) (auto simp: budget_def fails_append)

lemma budget_retry:
  "stepped p s s' \<Longrightarrow> g_retry s' = g_retry s @ [p] \<Longrightarrow> Suc (budget s' p) \<le> budget s p"
  by (erule stepped.cases) (auto simp: budget_def fails_def)

lemma step_retry_or_not: "stepped p s s' \<Longrightarrow> g_retry s' = g_retry s \<or> g_retry s' = g_retry s @ [p]"
  by (erule stepped.cases) auto

lemma wave_mono: "budget (foldl (wave_step env) s batch) q \<le> budget s q"
proof (induction batch arbitrary: s)
  case (Cons p ps)
  show ?case using order_trans[OF Cons.IH budget_step[OF wave_step_stepped]] by simp
qed simp

lemma wave_budget:
  "\<exists>ret. g_retry (foldl (wave_step env) s batch) = g_retry s @ ret
     \<and> sum_list (map (\<lambda>p. Suc (budget (foldl (wave_step env) s batch) p)) ret) \<le> sum_list (map (budget s) batch)
     \<and> subseq ret batch"
proof (induction batch arbitrary: s)
  case Nil
  then show ?case by simp
next
  case (Cons p ps)
  let ?s1 = "wave_step env s p" and ?s' = "foldl (wave_step env) (wave_step env s p) ps"
  note st = wave_step_stepped[of p s env]
  obtain ret where ret: "g_retry ?s' = g_retry ?s1 @ ret" "subseq ret ps"
      "sum_list (map (\<lambda>p. Suc (budget ?s' p)) ret) \<le> sum_list (map (budget ?s1) ps)"
    using Cons.IH[of ?s1] by blast
  have le: "sum_list (map (budget ?s1) ps) \<le> sum_list (map (budget s) ps)"
    by (intro sum_list_mono budget_step[OF st])
  from step_retry_or_not[OF st] show ?case
  proof
    assume "g_retry ?s1 = g_retry s"
    then show ?thesis using ret le by (auto intro!: exI[of _ ret])
  next
    assume r: "g_retry ?s1 = g_retry s @ [p]"
    have "budget ?s' p \<le> budget ?s1 p" by (rule wave_mono)
    then have "Suc (budget ?s' p) \<le> budget s p" using budget_retry[OF st r] by simp
    then show ?thesis using ret le r by (auto intro!: exI[of _ "p # ret"])
  qed
qed

definition work :: "rolling \<Rightarrow> profile list \<Rightarrow> nat" where
  "work s remaining = sum_list (map (\<lambda>p. Suc (budget s p)) remaining)"

lemma left_over_retry: "left_over remaining batch retry = filter (\<lambda>b. p_id b \<notin> p_id ` set batch) remaining @ retry"
proof -
  have "filter (\<lambda>b. p_id b \<in> p_id ` set retry) retry = retry" by (auto intro!: filter_True)
  then show ?thesis by (simp add: left_over_def)
qed

lemma work_decreases:
  assumes "remaining = batch @ rest" "batch \<noteq> []"
  shows "work (wave env batch s) (left_over remaining batch (g_retry (wave env batch s))) < work s remaining"
proof -
  let ?s' = "wave env batch s"
  have same: "budget (s\<lparr>g_retry := []\<rparr>) = budget s" by (rule ext) (simp add: budget_def)
  have b: "budget ?s' p \<le> budget s p" for p
    using wave_mono[of env "s\<lparr>g_retry := []\<rparr>" batch p] by (simp add: wave_def same)
  obtain ret where ret: "g_retry ?s' = ret" "sum_list (map (\<lambda>p. Suc (budget ?s' p)) ret) \<le> sum_list (map (budget s) batch)"
    using wave_budget[of env "s\<lparr>g_retry := []\<rparr>" batch] by (auto simp: wave_def same)
  have part: "work t (filter P xs) \<le> work t xs" for t P xs
    by (induction xs) (auto simp: work_def)
  have "work ?s' (filter (\<lambda>b. p_id b \<notin> p_id ` set batch) remaining)
      = work ?s' (filter (\<lambda>b. p_id b \<notin> p_id ` set batch) rest)"
    using assms(1) by (auto simp: work_def filter_empty_conv)
  also have "\<dots> \<le> work ?s' rest" by (rule part)
  also have "\<dots> \<le> work s rest" unfolding work_def by (intro sum_list_mono) (simp add: b)
  finally have "work ?s' (filter (\<lambda>b. p_id b \<notin> p_id ` set batch) remaining) \<le> work s rest" .
  moreover have "work ?s' ret < work s batch"
  proof -
    have "sum_list (map (budget s) batch) < work s batch"
      using assms(2) by (simp add: work_def sum_list_Suc)
    then show ?thesis using ret(2) by (simp add: work_def)
  qed
  ultimately show ?thesis using assms(1) ret(1) by (simp add: left_over_retry work_def)
qed

lemma nextBatch_split:
  assumes "remaining \<noteq> []"
  obtains rest where "remaining = nextBatch st remaining @ rest" "nextBatch st remaining \<noteq> []"
  using assms strat.batch_split strat.batch_nonempty by metis

lemma work_pause [simp]: "work (pause r s) xs = work s xs"
  by (simp add: work_def budget_def pause_def)

text \<open>The loop over the waves.\<close>

function waves :: "site \<Rightarrow> profile list \<Rightarrow> rolling \<Rightarrow> rolling" where
  "waves env remaining s =
     (if remaining = [] \<or> g_aborted s then s
      else let batch = nextBatch (g_strategy s) remaining in
        if batch = [] then s
        else let s' = wave env batch s;
                 remaining' = left_over remaining batch (g_retry s')
             in waves env remaining' (pause remaining' s'))"
  by pat_completeness auto

termination
proof (relation "measure (\<lambda>(env, remaining, s). work s remaining)")
  fix env remaining s batch s' remaining'
  assume "\<not> (remaining = [] \<or> g_aborted s)" and d: "batch = nextBatch (g_strategy s) remaining" "batch \<noteq> []"
    "s' = wave env batch s" "remaining' = left_over remaining batch (g_retry s')"
  then obtain rest where "remaining = batch @ rest" by (metis nextBatch_split)
  then have "work s' remaining' < work s remaining" using work_decreases d by blast
  then show "((env, remaining', pause remaining' s'), env, remaining, s)
      \<in> measure (\<lambda>(env, remaining, s). work s remaining)" by simp
qed simp

declare waves.simps [simp del]

section \<open>The rollout\<close>

record rollout_result =
  z_totalBots :: nat
  z_succeeded :: nat
  z_failed :: nat
  z_skipped :: int
  z_aborted :: bool
  z_alreadyRunning :: bool
  z_results :: "bot_update list"

record orchestrator =
  h_site :: updater
  h_strategy :: strategy
  h_rolling :: bool
  h_completed :: "rollout_result list"

definition nothing_rolled :: "bool \<Rightarrow> rollout_result" where
  "nothing_rolled already = \<lparr>z_totalBots = 0, z_succeeded = 0, z_failed = 0, z_skipped = 0,
     z_aborted = False, z_alreadyRunning = already, z_results = []\<rparr>"

definition rollout_report :: "nat \<Rightarrow> rolling \<Rightarrow> rollout_result" where
  "rollout_report totalBots s =
     \<lparr>z_totalBots = totalBots,
      z_succeeded = length (filter x_success (g_results s)),
      z_failed = length (filter (\<lambda>r. \<not> x_success r) (g_results s)),
      z_skipped = int totalBots - int (length (g_results s)),
      z_aborted = g_aborted s, z_alreadyRunning = False, z_results = g_results s\<rparr>"

definition rollout :: "site \<Rightarrow> string + profile list \<Rightarrow> orchestrator \<Rightarrow> (string + rollout_result) \<times> orchestrator" where
  "rollout env profiles h =
     (if h_rolling h then (Inr (nothing_rolled True), h)
      else case profiles of
        Inl e \<Rightarrow> (Inl e, h\<lparr>h_rolling := False\<rparr>)
      | Inr remaining \<Rightarrow>
          if remaining = [] then (Inr (nothing_rolled False), h\<lparr>h_rolling := False\<rparr>)
          else let s = waves env remaining \<lparr>g_site = h_site h, g_strategy = h_strategy h, g_results = [],
                     g_aborted = False, g_retry = []\<rparr>;
                   r = rollout_report (length remaining) s
               in (Inr r, h\<lparr>h_site := g_site s, h_strategy := g_strategy s, h_rolling := False,
                     h_completed := h_completed h @ [r]\<rparr>))"

definition succs :: "string \<Rightarrow> bot_update list \<Rightarrow> nat" where
  "succs i rs = length (filter (\<lambda>r. x_botId r = i \<and> x_success r) rs)"

definition pending_bot :: "nat \<Rightarrow> string \<Rightarrow> bot_update list \<Rightarrow> bool" where
  "pending_bot m i rs \<longleftrightarrow> succs i rs = 0 \<and> fails i rs < m"

definition settled_bot :: "nat \<Rightarrow> string \<Rightarrow> bot_update list \<Rightarrow> bool" where
  "settled_bot m i rs \<longleftrightarrow> succs i rs = 1 \<and> fails i rs < m \<or> succs i rs = 0 \<and> fails i rs = m"

lemma tally_append:
  "succs i (rs @ [r]) = succs i rs + (if x_botId r = i \<and> x_success r then 1 else 0)"
  "fails i (rs @ [r]) = fails i rs + (if x_botId r = i \<and> \<not> x_success r then 1 else 0)"
  by (simp_all add: succs_def fails_def)

definition tally :: "string \<Rightarrow> rolling \<Rightarrow> nat \<times> nat" where
  "tally i s = (succs i (g_results s), fails i (g_results s))"

definition is_pending :: "rolling \<Rightarrow> profile \<Rightarrow> bool" where
  "is_pending s p \<longleftrightarrow> pending_bot (maxRetries (g_strategy s)) (p_id p) (g_results s)"

definition is_settled :: "rolling \<Rightarrow> profile \<Rightarrow> bool" where
  "is_settled s p \<longleftrightarrow> settled_bot (maxRetries (g_strategy s)) (p_id p) (g_results s)"

lemma step_frame:
  assumes "stepped p s s'"
  shows "maxRetries (g_strategy s') = maxRetries (g_strategy s)" "i \<noteq> p_id p \<Longrightarrow> tally i s' = tally i s"
  using assms by (auto elim!: stepped.cases simp: tally_def tally_append)

lemma step_outcome:
  assumes "stepped p s s'" "is_pending s p"
  shows "g_retry s' = g_retry s @ [p] \<and> is_pending s' p
    \<or> g_retry s' = g_retry s \<and> (is_pending s' p \<or> is_settled s' p) \<and> (g_aborted s' \<or> is_settled s' p)"
  using assms(1)
proof cases
  case step_stopped
  then show ?thesis using assms(2) by simp
qed (use assms(2) in \<open>auto simp: is_pending_def is_settled_def pending_bot_def settled_bot_def tally_append\<close>)

lemma same_tally:
  assumes "tally (p_id p) s' = tally (p_id p) s" "maxRetries (g_strategy s') = maxRetries (g_strategy s)"
  shows "is_pending s' p = is_pending s p" "is_settled s' p = is_settled s p"
  using assms by (simp_all add: is_pending_def is_settled_def pending_bot_def settled_bot_def tally_def)

lemma step_aborted: "stepped p s s' \<Longrightarrow> g_aborted s \<Longrightarrow> g_aborted s'"
  by (erule stepped.cases) auto

lemma wave_frame:
  "maxRetries (g_strategy (foldl (wave_step env) s batch)) = maxRetries (g_strategy s)
   \<and> (\<forall>i. i \<notin> p_id ` set batch \<longrightarrow> tally i (foldl (wave_step env) s batch) = tally i s)"
proof (induction batch arbitrary: s)
  case (Cons p ps)
  show ?case using Cons.IH[of "wave_step env s p"] step_frame[OF wave_step_stepped[of p s env]] by simp
qed simp

lemma wave_outcome:
  assumes "distinct (map p_id batch)" "\<forall>p \<in> set batch. is_pending s p"
  shows "\<exists>ret. g_retry (foldl (wave_step env) s batch) = g_retry s @ ret \<and> set ret \<subseteq> set batch
    \<and> distinct (map p_id ret)
    \<and> (\<forall>p \<in> set ret. is_pending (foldl (wave_step env) s batch) p)
    \<and> (\<forall>p \<in> set batch. is_pending (foldl (wave_step env) s batch) p \<or> is_settled (foldl (wave_step env) s batch) p)
    \<and> (g_aborted (foldl (wave_step env) s batch)
       \<or> (\<forall>p \<in> set batch. p \<in> set ret \<or> is_settled (foldl (wave_step env) s batch) p))"
  using assms
proof (induction batch arbitrary: s)
  case Nil
  then show ?case by simp
next
  case (Cons p ps)
  let ?s1 = "wave_step env s p"
  let ?s' = "foldl (wave_step env) ?s1 ps"
  note st = wave_step_stepped[of p s env]
  have ne: "p_id q \<noteq> p_id p" if "q \<in> set ps" for q
    using Cons.prems(1) that by (metis distinct.simps(2) image_eqI image_set list.simps(9))
  have pend: "\<forall>q \<in> set ps. is_pending ?s1 q"
    using Cons.prems(2) same_tally(1)[OF step_frame(2)[OF st] step_frame(1)[OF st]] ne by auto
  obtain ret where ret: "g_retry ?s' = g_retry ?s1 @ ret" "set ret \<subseteq> set ps" "distinct (map p_id ret)"
      "\<forall>q \<in> set ret. is_pending ?s' q" "\<forall>q \<in> set ps. is_pending ?s' q \<or> is_settled ?s' q"
      "g_aborted ?s' \<or> (\<forall>q \<in> set ps. q \<in> set ret \<or> is_settled ?s' q)"
    using Cons.IH[OF _ pend] Cons.prems(1) by auto
  have notin: "p_id p \<notin> p_id ` set ps" using Cons.prems(1) by simp
  have fr: "is_pending ?s' p = is_pending ?s1 p" "is_settled ?s' p = is_settled ?s1 p"
    using wave_frame[of env ?s1 ps] notin same_tally[of p ?s' ?s1] by auto
  have ab: "g_aborted ?s'" if "g_aborted ?s1"
    using that by (induction ps arbitrary: s rule: rev_induct) (auto intro: step_aborted[OF wave_step_stepped])
  have "is_pending s p" using Cons.prems(2) by simp
  then consider "g_retry ?s1 = g_retry s @ [p]" "is_pending ?s1 p"
    | "g_retry ?s1 = g_retry s" "is_pending ?s1 p \<or> is_settled ?s1 p" "g_aborted ?s1 \<or> is_settled ?s1 p"
    using step_outcome[OF st] by blast
  then show ?case
  proof cases
    case 1
    have "distinct (map p_id (p # ret))" using ret(2,3) notin by auto
    then show ?thesis using 1 ret fr by (intro exI[of _ "p # ret"]) auto
  next
    case 2
    then show ?thesis using ret fr ab by (intro exI[of _ ret]) auto
  qed
qed

text \<open>What holds between two waves of a rollout over \<open>ps\<close>.\<close>

definition rolling_inv :: "nat \<Rightarrow> profile list \<Rightarrow> profile list \<Rightarrow> rolling \<Rightarrow> bool" where
  "rolling_inv m ps remaining s \<longleftrightarrow> maxRetries (g_strategy s) = m \<and> distinct (map p_id remaining) \<and> set remaining \<subseteq> set ps
     \<and> (\<forall>p \<in> set remaining. is_pending s p \<or> g_aborted s)
     \<and> (\<forall>p \<in> set ps. is_pending s p \<or> is_settled s p)
     \<and> (g_aborted s \<or> (\<forall>p \<in> set ps. p \<in> set remaining \<or> is_settled s p))"

lemma pause_frame [simp]: "is_pending (pause r s) p = is_pending s p" "is_settled (pause r s) p = is_settled s p"
    "g_aborted (pause r s) = g_aborted s" "g_strategy (pause r s) = g_strategy s" "g_results (pause r s) = g_results s"
  by (simp_all add: pause_def is_pending_def is_settled_def)

lemma wave_inv:
  assumes inv: "rolling_inv m ps remaining s" and d: "distinct (map p_id ps)"
    and na: "\<not> g_aborted s" and split: "remaining = batch @ rest"
  shows "rolling_inv m ps (left_over remaining batch (g_retry (wave env batch s))) (wave env batch s)"
proof -
  let ?t = "s\<lparr>g_retry := []\<rparr>" and ?s' = "wave env batch s"
  have t: "is_pending ?t p = is_pending s p" for p by (simp add: is_pending_def)
  have dist: "distinct (map p_id batch)" "distinct (map p_id rest)" "p_id ` set batch \<inter> p_id ` set rest = {}"
    using inv split by (auto simp: rolling_inv_def)
  have "\<forall>p \<in> set batch. is_pending ?t p" using inv na split t by (auto simp: rolling_inv_def)
  then obtain ret where ret: "g_retry ?s' = ret" "set ret \<subseteq> set batch" "distinct (map p_id ret)"
      "\<forall>p \<in> set ret. is_pending ?s' p" "\<forall>p \<in> set batch. is_pending ?s' p \<or> is_settled ?s' p"
      "g_aborted ?s' \<or> (\<forall>p \<in> set batch. p \<in> set ret \<or> is_settled ?s' p)"
    using wave_outcome[OF dist(1), of ?t env] by (auto simp: wave_def)
  have m: "maxRetries (g_strategy ?s') = maxRetries (g_strategy s)"
    and out: "p_id p \<notin> p_id ` set batch \<Longrightarrow> tally (p_id p) ?s' = tally (p_id p) s" for p
    using wave_frame[of env ?t batch] by (auto simp: wave_def tally_def)
  have keep: "is_pending ?s' p = is_pending s p" "is_settled ?s' p = is_settled s p" if "p_id p \<notin> p_id ` set batch" for p
    using same_tally[OF out[OF that] m] by simp_all
  have same: "p \<in> set batch" if p: "p \<in> set ps" and id: "p_id p \<in> p_id ` set batch" for p
  proof -
    obtain q where "q \<in> set batch" "p_id q = p_id p" using id by auto
    moreover have "set batch \<subseteq> set ps" using inv split by (auto simp: rolling_inv_def)
    ultimately show ?thesis using p d by (metis distinct_map inj_onD subsetD)
  qed
  have lo: "left_over remaining batch (g_retry ?s') = rest @ ret"
    using dist(3) split ret(1) by (auto simp: left_over_retry filter_empty_conv intro!: filter_True)
  have "p_id ` set ret \<subseteq> p_id ` set batch" using ret(2) by blast
  then have "distinct (map p_id (rest @ ret))" using dist(2,3) ret(3) by auto
  moreover have "set (rest @ ret) \<subseteq> set ps" using inv split ret(2) by (auto simp: rolling_inv_def)
  moreover have "\<forall>p \<in> set (rest @ ret). is_pending ?s' p"
  proof
    fix p assume p: "p \<in> set (rest @ ret)"
    show "is_pending ?s' p"
    proof (cases "p \<in> set ret")
      case False
      then have "p \<in> set rest" using p by simp
      moreover from this have "p_id p \<notin> p_id ` set batch" using dist(3) by blast
      ultimately show ?thesis using keep(1) inv na split by (auto simp: rolling_inv_def)
    qed (use ret(4) in blast)
  qed
  moreover have "\<forall>p \<in> set ps. is_pending ?s' p \<or> is_settled ?s' p"
  proof
    fix p assume p: "p \<in> set ps"
    have "is_pending s p \<or> is_settled s p" using inv p by (simp add: rolling_inv_def)
    then show "is_pending ?s' p \<or> is_settled ?s' p"
      using ret(5) same[OF p] keep by (cases "p_id p \<in> p_id ` set batch") simp_all
  qed
  moreover have "g_aborted ?s' \<or> (\<forall>p \<in> set ps. p \<in> set (rest @ ret) \<or> is_settled ?s' p)"
  proof (cases "g_aborted ?s'")
    case False
    have "p \<in> set (rest @ ret) \<or> is_settled ?s' p" if p: "p \<in> set ps" for p
    proof (cases "p_id p \<in> p_id ` set batch")
      case True
      then show ?thesis using same[OF p] ret(6) False by auto
    next
      case out: False
      then have "p \<notin> set batch" by auto
      then show ?thesis using inv na p split keep[OF out] by (auto simp: rolling_inv_def)
    qed
    then show ?thesis by blast
  qed simp
  ultimately show ?thesis using m inv lo by (auto simp: rolling_inv_def)
qed

lemma waves_inv:
  assumes "rolling_inv m ps remaining s" "distinct (map p_id ps)"
  shows "\<exists>remaining'. rolling_inv m ps remaining' (waves env remaining s)
    \<and> (remaining' = [] \<or> g_aborted (waves env remaining s))"
  using assms
proof (induction env remaining s rule: waves.induct)
  case (1 env remaining s)
  show ?case
  proof (cases "remaining = [] \<or> g_aborted s")
    case True
    then show ?thesis using 1(2) by (auto simp: waves.simps)
  next
    case False
    define batch where "batch = nextBatch (g_strategy s) remaining"
    define s' where "s' = wave env batch s"
    define lo where "lo = left_over remaining batch (g_retry s')"
    obtain rest where rest: "remaining = batch @ rest" "batch \<noteq> []"
      using nextBatch_split[of remaining "g_strategy s"] False batch_def by metis
    have "rolling_inv m ps lo s'" using wave_inv[OF 1(2,3) _ rest(1)] False by (simp add: lo_def s'_def)
    then have "rolling_inv m ps lo (pause lo s')" by (simp add: rolling_inv_def)
    moreover have "waves env remaining s = waves env lo (pause lo s')"
      using False rest(2) by (subst waves.simps) (simp add: batch_def s'_def lo_def Let_def)
    ultimately show ?thesis using 1(1)[OF False batch_def rest(2) s'_def lo_def] 1(3) by simp
  qed
qed

lemma counts_split: "length (filter x_success rs) + length (filter (\<lambda>r. \<not> x_success r) rs) = length rs"
  by (rule sum_length_filter_compl)


definition flaky_site :: site where
  "flaky_site = \<lparr>k_profile = \<lambda>_ i. Some \<lparr>p_id = i, p_image = ''img:1'', p_volumeName = None\<rparr>,
     k_digest = \<lambda>_ _. None, k_running = \<lambda>_ _. False, k_pull = \<lambda>_ _. Some ''registry down'',
     k_fleet = \<lambda>_ _ _. None, k_health = \<lambda>_ _. [], k_snapshot = \<lambda>_ v. Inr v, k_restore = \<lambda>_ _. None,
     k_delete = \<lambda>_ _. None\<rparr>"

definition idle :: orchestrator where
  "idle = \<lparr>h_site = \<lparr>u_calls = [], u_updating = {}\<rparr>, h_strategy = Rolling_Wave default_wave_options 0,
     h_rolling = False, h_completed = []\<rparr>"


text \<open>
  Retries make the number of skipped bots negative: one bot, two failed attempts. And a strategy kept
  between rollouts keeps its failures: the third bot given up by it in its lifetime aborts a rollout.
\<close>

lemma skipped_negative:
  "map_sum id z_skipped (fst (rollout flaky_site (Inr [\<lparr>p_id = ''b'', p_image = ''img:1'', p_volumeName = None\<rparr>]) idle))
   = Inr (- 1)"
  by code_simp

lemma failures_accumulate:
  assumes "n \<ge> 2" "attempt \<ge> 2"
  shows "fst (onBotFailure (Rolling_Wave default_wave_options n) attempt) = Abort"
proof -
  have "of_nat 3 \<le> (of_nat (Suc n) :: rat)" using assms(1) by (simp only: of_nat_le_iff)
  then show ?thesis using assms(2) by (simp add: default_wave_options_def)
qed

end
