(* ===== verification/Payments.thy ===== *)
theory Payments
  imports LedgerSafety Bots
begin

text \<open>
  What the payment webhooks share: the ledger, the bots, the guard against replayed events
  (\<open>src/billing/drizzle-webhook-seen-repository.ts\<close>), and the pattern all of them rest on, a ledger
  entry under a reference that is looked up first. Each call of a store is one step; what a
  handler did before it threw stays.
\<close>

section \<open>Stores\<close>

record pay =
  y_db :: db
  y_bots :: billing
  y_seen :: "(string \<times> string \<times> int) list"
  y_now :: int

datatype pay_error =
    Pay_Ledger ledger_error
  | Pay_Bots bot_error
  | Pay_Credit js_error
  | Pay_Exists string
  | Pay_Not_Found string
  | Pay_Out_Of_Range int
  | Pay_Error string

type_synonym ('s, 'a) pay_act = "('s pay_scheme, pay_error, 'a) act"

definition ledger_call :: "(db \<Rightarrow> ledger_error + 'a \<times> db) \<Rightarrow> ('s, 'a) pay_act" where
  "ledger_call tx = atomically (\<lambda>s. case tx (y_db s) of
     Inl e \<Rightarrow> Inl (Pay_Ledger e) | Inr (a, d) \<Rightarrow> Inr (a, s\<lparr>y_db := d\<rparr>))"

definition has_reference :: "string \<Rightarrow> ('s, bool) pay_act" where
  "has_reference r = aquery (\<lambda>s. Inr (hasReferenceId r (y_db s)))"

definition check_reactivation :: "string \<Rightarrow> ('s, string list) pay_act" where
  "check_reactivation tenant = atomically (\<lambda>s.
     case checkReactivation (y_now s) tenant (y_db s) (y_bots s) of
       Inl e \<Rightarrow> Inl (Pay_Bots e) | Inr (ids, b) \<Rightarrow> Inr (ids, s\<lparr>y_bots := b\<rparr>))"

definition suspend_all :: "string \<Rightarrow> ('s, string list) pay_act" where
  "suspend_all tenant = atomically (\<lambda>s.
     let (ids, b) = suspendAllForTenant (y_now s) tenant (y_bots s) in Inr (ids, s\<lparr>y_bots := b\<rparr>))"

section \<open>Columns and texts\<close>

text \<open>The width of an integer column, and ASCII lower case.\<close>

definition pg_integer :: "int \<Rightarrow> bool" where
  "pg_integer n \<longleftrightarrow> - (2 ^ 31) \<le> n \<and> n < 2 ^ 31"

definition lower_char :: "char \<Rightarrow> char" where
  "lower_char c = (let n = of_char c :: nat in if 65 \<le> n \<and> n \<le> 90 then char_of (n + 32) else c)"

definition toLowerCase :: "string \<Rightarrow> string" where
  "toLowerCase = map lower_char"

lemma lower_char_idem [simp]: "lower_char (lower_char c) = lower_char c"
  by (simp add: lower_char_def Let_def)

lemma toLowerCase_idem [simp]: "toLowerCase (toLowerCase a) = toLowerCase a"
  by (simp add: toLowerCase_def)

section \<open>Replay guard\<close>

definition isDuplicate :: "string \<Rightarrow> string \<Rightarrow> 's pay_scheme \<Rightarrow> bool" where
  "isDuplicate eventId source s \<longleftrightarrow> (eventId, source) \<in> (\<lambda>(e, r, _). (e, r)) ` set (y_seen s)"

definition markSeen :: "string \<Rightarrow> string \<Rightarrow> ('s, unit) pay_act" where
  "markSeen eventId source = amodify (\<lambda>s.
     if isDuplicate eventId source s then s
     else s\<lparr>y_seen := y_seen s @ [(eventId, source, y_now s)]\<rparr>)"

definition purgeExpired :: "int \<Rightarrow> ('s, nat) pay_act" where
  "purgeExpired ttlMs = atomically (\<lambda>s.
     let cutoff = y_now s - ttlMs in
     Inr (length (filter (\<lambda>(_, _, seenAt). seenAt < cutoff) (y_seen s)),
          s\<lparr>y_seen := filter (\<lambda>(_, _, seenAt). \<not> seenAt < cutoff) (y_seen s)\<rparr>))"

lemma markSeen_seen: "isDuplicate e r (snd (markSeen e r s))"
  by (auto simp: markSeen_def amodify_def isDuplicate_def)

lemma markSeen_db [simp]: "y_db (snd (markSeen e r s)) = y_db s" "y_bots (snd (markSeen e r s)) = y_bots s"
  by (simp_all add: markSeen_def amodify_def)

section \<open>Entries guarded by their reference\<close>

text \<open>
  The interface: a put under a reference leaves the reference behind, is refused when it is there, and
  references never go away. A handler that looks the reference up before it puts is then idempotent.
\<close>

definition once :: "('r \<Rightarrow> 's \<Rightarrow> bool) \<Rightarrow> ('r \<Rightarrow> 's \<Rightarrow> 'e + 'a \<times> 's) \<Rightarrow> 'r \<Rightarrow> 's \<Rightarrow> 'e + bool \<times> 's" where
  "once has put r s = (if has r s then Inr (False, s)
     else case put r s of Inl e \<Rightarrow> Inl e | Inr (_, s') \<Rightarrow> Inr (True, s'))"

locale guarded_put =
  fixes has :: "'r \<Rightarrow> 's \<Rightarrow> bool" and put :: "'r \<Rightarrow> 's \<Rightarrow> 'e + 'a \<times> 's" and ok :: "'s \<Rightarrow> bool"
  assumes put_has: "ok s \<Longrightarrow> put r s = Inr (a, s') \<Longrightarrow> has r s'"
    and put_refused: "ok s \<Longrightarrow> has r s \<Longrightarrow> \<exists>e. put r s = Inl e"
    and put_keeps: "ok s \<Longrightarrow> put r s = Inr (a, s') \<Longrightarrow> has q s \<Longrightarrow> has q s'"
    and put_ok: "ok s \<Longrightarrow> put r s = Inr (a, s') \<Longrightarrow> ok s'"
begin

lemma once_has:
  assumes "ok s" "once has put r s = Inr (b, s')"
  shows "has r s' \<and> ok s'"
proof (cases "has r s")
  case False
  then obtain a where "put r s = Inr (a, s')"
    using assms(2) by (auto simp: once_def split: sum.splits)
  then show ?thesis using put_has[OF assms(1)] put_ok[OF assms(1)] by blast
qed (use assms in \<open>simp add: once_def\<close>)

lemma once_again: "ok s \<Longrightarrow> once has put r s = Inr (b, s') \<Longrightarrow> once has put r s' = Inr (False, s')"
  using once_has[of s r b s'] by (simp add: once_def)

lemma put_twice: "ok s \<Longrightarrow> put r s = Inr (a, s') \<Longrightarrow> \<exists>e. put r s' = Inl e"
  using put_has put_refused put_ok by blast

end

lemma credit_reference:
  assumes "credit t amt ty (opts\<lparr>c_referenceId := Some r\<rparr>) s = Inr (je, s')" "core_inv s"
  shows "hasReferenceId r s'"
proof -
  have "post (credit_input t amt ty (opts\<lparr>c_referenceId := Some r\<rparr>)) s = Inr (je, s')"
    using assms(1) by (simp add: credit_def split: if_splits)
  then obtain rs s2 news where "posted (credit_input t amt ty (opts\<lparr>c_referenceId := Some r\<rparr>)) s rs s2 news s'"
    using post_Inr[OF _ assms(2)] by metis
  then show ?thesis
    by (auto simp: posted_def only_locks_def same_frame_def with_entry_def hasReferenceId_def new_entry_def credit_input_def)
qed

lemma debit_reference:
  assumes "debit t amt ty (opts\<lparr>d_referenceId := Some r\<rparr>) s = Inr (je, s')" "core_inv s"
  shows "hasReferenceId r s'"
proof -
  have "post (debit_input t amt ty (opts\<lparr>d_referenceId := Some r\<rparr>)) s = Inr (je, s')"
    using assms(1) by (simp add: debit_def split: if_splits)
  then obtain rs s2 news where "posted (debit_input t amt ty (opts\<lparr>d_referenceId := Some r\<rparr>)) s rs s2 news s'"
    using post_Inr[OF _ assms(2)] by metis
  then show ?thesis
    by (auto simp: posted_def only_locks_def same_frame_def with_entry_def hasReferenceId_def new_entry_def debit_input_def)
qed

lemma keeps_reference:
  "ledger_step s s' \<Longrightarrow> ledger_reachable s \<Longrightarrow> hasReferenceId q s \<Longrightarrow> hasReferenceId q s'"
  using step_entries reachable_inv hasReferenceId_prefix by blast

lemma reachable_core: "ledger_reachable s \<Longrightarrow> core_inv s"
  using reachable_inv by (auto simp: ledger_inv_def)

interpretation credits: guarded_put hasReferenceId
  "\<lambda>r. credit t amt ty (opts\<lparr>c_referenceId := Some r\<rparr>)" ledger_reachable for t amt ty opts
proof
  fix s r je s' q
  assume s: "ledger_reachable s"
  show "hasReferenceId r s'" if "credit t amt ty (opts\<lparr>c_referenceId := Some r\<rparr>) s = Inr (je, s')"
    using credit_reference[OF that reachable_core[OF s]] .
  show "\<exists>e. credit t amt ty (opts\<lparr>c_referenceId := Some r\<rparr>) s = Inl e" if "hasReferenceId r s"
  proof (cases "isZero amt \<or> isNegative amt")
    case False
    then have "check_lines (in_lines (credit_input t amt ty (opts\<lparr>c_referenceId := Some r\<rparr>))) = Inr ()"
      by (auto simp: check_lines_Inr credit_input_def lines_total_def credit_cmp)
    then show ?thesis using that False post_used_reference[of "credit_input t amt ty (opts\<lparr>c_referenceId := Some r\<rparr>)" r s]
      by (auto simp: credit_def credit_input_def)
  qed (simp add: credit_def)
  show "ledger_reachable s'" if "credit t amt ty (opts\<lparr>c_referenceId := Some r\<rparr>) s = Inr (je, s')"
    using s that by (blast intro: reach_step step_credit)
  show "hasReferenceId q s'"
    if "credit t amt ty (opts\<lparr>c_referenceId := Some r\<rparr>) s = Inr (je, s')" "hasReferenceId q s"
    using keeps_reference[OF step_credit[OF that(1)] s that(2)] .
qed

interpretation debits: guarded_put hasReferenceId
  "\<lambda>r. debit t amt ty (opts\<lparr>d_referenceId := Some r\<rparr>)" ledger_reachable for t amt ty opts
proof
  fix s r je s' q
  assume s: "ledger_reachable s"
  show "hasReferenceId r s'" if "debit t amt ty (opts\<lparr>d_referenceId := Some r\<rparr>) s = Inr (je, s')"
    using debit_reference[OF that reachable_core[OF s]] .
  show "\<exists>e. debit t amt ty (opts\<lparr>d_referenceId := Some r\<rparr>) s = Inl e" if "hasReferenceId r s"
  proof (cases "isZero amt \<or> isNegative amt")
    case False
    then have "check_lines (in_lines (debit_input t amt ty (opts\<lparr>d_referenceId := Some r\<rparr>))) = Inr ()"
      by (auto simp: check_lines_Inr debit_input_def lines_total_def credit_cmp)
    then show ?thesis using that False post_used_reference[of "debit_input t amt ty (opts\<lparr>d_referenceId := Some r\<rparr>)" r s]
      by (auto simp: debit_def debit_input_def)
  qed (simp add: debit_def)
  show "ledger_reachable s'" if "debit t amt ty (opts\<lparr>d_referenceId := Some r\<rparr>) s = Inr (je, s')"
    using s that by (blast intro: reach_step step_debit)
  show "hasReferenceId q s'"
    if "debit t amt ty (opts\<lparr>d_referenceId := Some r\<rparr>) s = Inr (je, s')" "hasReferenceId q s"
    using keeps_reference[OF step_debit[OF that(1)] s that(2)] .
qed

section \<open>What an action may do to the ledger\<close>

definition pay_moves :: "'s pay_scheme \<Rightarrow> 's pay_scheme \<Rightarrow> bool" where
  "pay_moves s s' \<longleftrightarrow> ledger_step\<^sup>*\<^sup>* (y_db s) (y_db s')"

end
