(* ===== verification/CryptoPay.thy ===== *)
theory CryptoPay
  imports Payments
begin

text \<open>
  Payments in crypto currency: the charge table (\<open>src/billing/crypto/charge-store.ts\<close>), the webhook of the
  key server (\<open>key-server-webhook.ts\<close>) with the bot reactivation \<open>monetization/crypto/webhook.ts\<close>
  adds, and the three settlers of on-chain transfers. Addresses are ASCII. A status or
  currency passed as undefined leaves the column alone, as the query builder does.
\<close>

section \<open>Charges\<close>

record charge =
  ch_referenceId :: string
  ch_tenantId :: string
  ch_amountUsdCents :: int
  ch_status :: string
  ch_currency :: "string option"
  ch_filledAmount :: "string option"
  ch_creditedAt :: "int option"
  ch_createdAt :: int
  ch_updatedAt :: int
  ch_chain :: "string option"
  ch_token :: "string option"
  ch_depositAddress :: "string option"
  ch_derivationIndex :: "int option"
  ch_callbackUrl :: "string option"
  ch_expectedAmount :: "string option"
  ch_receivedAmount :: "string option"
  ch_confirmations :: int
  ch_confirmationsRequired :: int
  ch_txHash :: "string option"
  ch_amountReceivedCents :: int

datatype charge_status = Charge_Pending | Charge_Partial | Charge_Confirmed | Charge_Expired | Charge_Failed

record crypto = pay +
  cr_charges :: "charge list"

type_synonym 'a crypto_act = "(crypto, pay_error, 'a) act"

definition new_charge :: "string \<Rightarrow> string \<Rightarrow> int \<Rightarrow> int \<Rightarrow> charge" where
  "new_charge referenceId tenantId amountUsdCents t = \<lparr>ch_referenceId = referenceId, ch_tenantId = tenantId,
     ch_amountUsdCents = amountUsdCents, ch_status = ''New'', ch_currency = None, ch_filledAmount = None,
     ch_creditedAt = None, ch_createdAt = t, ch_updatedAt = t, ch_chain = None, ch_token = None,
     ch_depositAddress = None, ch_derivationIndex = None, ch_callbackUrl = None, ch_expectedAmount = None,
     ch_receivedAmount = None, ch_confirmations = 0, ch_confirmationsRequired = 1, ch_txHash = None,
     ch_amountReceivedCents = 0\<rparr>"

text \<open>The primary key and the two unique partial indexes of the table, and the width of its integers.\<close>

definition insert_charge :: "charge \<Rightarrow> unit crypto_act" where
  "insert_charge c = atomically (\<lambda>s.
     if \<not> pg_integer (ch_amountUsdCents c) then Inl (Pay_Out_Of_Range (ch_amountUsdCents c))
     else if ch_referenceId c \<in> ch_referenceId ` set (cr_charges s) then Inl (Pay_Exists (ch_referenceId c))
     else if ch_depositAddress c \<noteq> None \<and> ch_depositAddress c \<in> ch_depositAddress ` set (cr_charges s)
       \<or> ch_derivationIndex c \<noteq> None \<and> ch_derivationIndex c \<in> ch_derivationIndex ` set (cr_charges s)
     then Inl (Pay_Exists (ch_referenceId c))
     else Inr ((), s\<lparr>cr_charges := cr_charges s @ [c]\<rparr>))"

definition create_charge :: "string \<Rightarrow> string \<Rightarrow> int \<Rightarrow> unit crypto_act" where
  "create_charge referenceId tenantId amountUsdCents s =
     insert_charge (new_charge referenceId tenantId amountUsdCents (y_now s)) s"

definition getByReferenceId :: "string \<Rightarrow> crypto \<Rightarrow> charge option" where
  "getByReferenceId referenceId s = find (\<lambda>c. ch_referenceId c = referenceId) (cr_charges s)"

definition mapStatus :: "string \<Rightarrow> bool \<Rightarrow> charge_status" where
  "mapStatus dbStatus credited =
     (if credited then Charge_Confirmed
      else if dbStatus = ''New'' then Charge_Pending
      else if dbStatus = ''Processing'' then Charge_Partial
      else if dbStatus = ''Settled'' then Charge_Confirmed
      else if dbStatus = ''Expired'' then Charge_Expired
      else if dbStatus = ''Invalid'' then Charge_Failed
      else Charge_Pending)"

record charge_view =
  w_id :: string
  w_tenantId :: string
  w_chain :: string
  w_status :: charge_status
  w_amountExpectedCents :: int
  w_amountReceivedCents :: int
  w_confirmations :: int
  w_confirmationsRequired :: int
  w_txHash :: "string option"
  w_credited :: bool
  w_createdAt :: int

definition get_charge :: "string \<Rightarrow> crypto \<Rightarrow> charge_view option" where
  "get_charge referenceId s = map_option (\<lambda>c.
     \<lparr>w_id = ch_referenceId c, w_tenantId = ch_tenantId c,
      w_chain = (case ch_chain c of Some x \<Rightarrow> x | None \<Rightarrow> ''unknown''),
      w_status = mapStatus (ch_status c) (ch_creditedAt c \<noteq> None),
      w_amountExpectedCents = ch_amountUsdCents c, w_amountReceivedCents = ch_amountReceivedCents c,
      w_confirmations = ch_confirmations c, w_confirmationsRequired = ch_confirmationsRequired c,
      w_txHash = ch_txHash c, w_credited = (ch_creditedAt c \<noteq> None), w_createdAt = ch_createdAt c\<rparr>)
     (getByReferenceId referenceId s)"

fun status_text :: "charge_status \<Rightarrow> string" where
  "status_text Charge_Pending = ''New''"
| "status_text Charge_Partial = ''Processing''"
| "status_text Charge_Confirmed = ''Settled''"
| "status_text Charge_Expired = ''Expired''"
| "status_text Charge_Failed = ''Invalid''"

definition update_charge :: "string \<Rightarrow> (charge \<Rightarrow> charge) \<Rightarrow> unit crypto_act" where
  "update_charge referenceId f = amodify (\<lambda>s. s\<lparr>cr_charges :=
     map (\<lambda>c. if ch_referenceId c = referenceId then f c else c) (cr_charges s)\<rparr>)"

text \<open>An undefined value leaves the column as it is.\<close>

definition or_keep :: "'a option \<Rightarrow> 'a option \<Rightarrow> 'a option" where
  "or_keep new old = (case new of None \<Rightarrow> old | Some _ \<Rightarrow> new)"

definition updateProgress :: "string \<Rightarrow> charge_status \<Rightarrow> int \<Rightarrow> int \<Rightarrow> int \<Rightarrow> string option \<Rightarrow> unit crypto_act" where
  "updateProgress referenceId status amountReceivedCents confirmations confirmationsRequired txHash s =
     (case find (\<lambda>n. \<not> pg_integer n) [amountReceivedCents, confirmations, confirmationsRequired] of
        Some n \<Rightarrow> (Inl (Pay_Out_Of_Range n), s)
      | None \<Rightarrow> update_charge referenceId (\<lambda>c. c\<lparr>ch_status := status_text status,
          ch_amountReceivedCents := amountReceivedCents, ch_confirmations := confirmations,
          ch_confirmationsRequired := confirmationsRequired, ch_txHash := or_keep txHash (ch_txHash c),
          ch_updatedAt := y_now s\<rparr>) s)"

definition updateStatus :: "string \<Rightarrow> string \<Rightarrow> string option \<Rightarrow> string option \<Rightarrow> unit crypto_act" where
  "updateStatus referenceId status currency filledAmount s =
     update_charge referenceId (\<lambda>c. c\<lparr>ch_status := status, ch_currency := or_keep currency (ch_currency c),
       ch_filledAmount := or_keep filledAmount (ch_filledAmount c), ch_updatedAt := y_now s\<rparr>) s"

definition markCredited :: "string \<Rightarrow> unit crypto_act" where
  "markCredited referenceId s =
     update_charge referenceId (\<lambda>c. c\<lparr>ch_creditedAt := Some (y_now s), ch_updatedAt := y_now s\<rparr>) s"

definition isCredited :: "string \<Rightarrow> crypto \<Rightarrow> bool" where
  "isCredited referenceId s =
     (case getByReferenceId referenceId s of None \<Rightarrow> False | Some c \<Rightarrow> ch_creditedAt c \<noteq> None)"

record deposit_input =
  de_referenceId :: string
  de_tenantId :: string
  de_amountUsdCents :: int
  de_chain :: string
  de_token :: string
  de_depositAddress :: string
  de_derivationIndex :: int
  de_callbackUrl :: "string option"
  de_expectedAmount :: "string option"

definition createStablecoinCharge :: "deposit_input \<Rightarrow> unit crypto_act" where
  "createStablecoinCharge i s =
     (if \<not> pg_integer (de_derivationIndex i) then (Inl (Pay_Out_Of_Range (de_derivationIndex i)), s)
      else insert_charge ((new_charge (de_referenceId i) (de_tenantId i) (de_amountUsdCents i) (y_now s))
        \<lparr>ch_chain := Some (de_chain i), ch_token := Some (de_token i),
         ch_depositAddress := Some (toLowerCase (de_depositAddress i)),
         ch_derivationIndex := Some (de_derivationIndex i), ch_callbackUrl := de_callbackUrl i,
         ch_expectedAmount := de_expectedAmount i, ch_receivedAmount := Some ''0''\<rparr>) s)"

definition getByDepositAddress :: "string \<Rightarrow> crypto \<Rightarrow> charge option" where
  "getByDepositAddress address s =
     find (\<lambda>c. ch_depositAddress c = Some (toLowerCase address)) (cr_charges s)"

definition listActiveDepositAddresses :: "crypto \<Rightarrow> (string \<times> string \<times> string) list" where
  "listActiveDepositAddresses s = List.map_filter (\<lambda>c.
     case (ch_creditedAt c, ch_chain c, ch_depositAddress c, ch_token c) of
       (None, Some chain, Some address, Some token) \<Rightarrow> Some (chain, address, token)
     | _ \<Rightarrow> None) (cr_charges s)"

definition getNextDerivationIndex :: "crypto \<Rightarrow> int" where
  "getNextDerivationIndex s =
     fold max (List.map_filter ch_derivationIndex (cr_charges s)) (- 1) + 1"

section \<open>Webhook of the key server\<close>

record key_payload =
  kp_chargeId :: string
  kp_chain :: string
  kp_address :: string
  kp_amountUsdCents :: "int option"
  kp_amountReceivedCents :: "int option"
  kp_status :: string
  kp_txHash :: "string option"
  kp_amountReceived :: "string option"
  kp_confirmations :: "int option"
  kp_confirmationsRequired :: "int option"

record key_result =
  kr_handled :: bool
  kr_duplicate :: bool
  kr_tenant :: "string option"
  kr_creditedCents :: "int option"
  kr_reactivatedBots :: "string list option"
  kr_status :: "charge_status option"
  kr_confirmations :: "int option"
  kr_confirmationsRequired :: "int option"

definition normalizeStatus :: "string \<Rightarrow> charge_status" where
  "normalizeStatus raw =
     (if raw \<in> {''confirmed'', ''Settled'', ''InvoiceSettled''} then Charge_Confirmed
      else if raw \<in> {''partial'', ''Processing'', ''InvoiceProcessing'', ''InvoiceReceivedPayment''} then Charge_Partial
      else if raw \<in> {''expired'', ''Expired'', ''InvoiceExpired''} then Charge_Expired
      else if raw \<in> {''failed'', ''Invalid'', ''InvoiceInvalid''} then Charge_Failed
      else Charge_Pending)"

definition show_int :: "int \<Rightarrow> string" where
  "show_int n = (if n < 0 then ''-'' @ decimal (nat (- n)) else decimal (nat n))"

fun status_name :: "charge_status \<Rightarrow> string" where
  "status_name Charge_Pending = ''pending''"
| "status_name Charge_Partial = ''partial''"
| "status_name Charge_Confirmed = ''confirmed''"
| "status_name Charge_Expired = ''expired''"
| "status_name Charge_Failed = ''failed''"

definition or_else :: "'a option \<Rightarrow> 'a \<Rightarrow> 'a" where
  "or_else x d = (case x of None \<Rightarrow> d | Some y \<Rightarrow> y)"

definition dedupe_key :: "key_payload \<Rightarrow> string" where
  "dedupe_key p = ''ks:'' @ kp_chargeId p @ '':'' @ status_name (normalizeStatus (kp_status p))
     @ '':'' @ show_int (or_else (kp_confirmations p) 0)"

definition crypto_opts :: "string \<Rightarrow> credit_opts" where
  "crypto_opts description = no_credit_opts\<lparr>c_description := Some description, c_fundingSource := Some ''crypto''\<rparr>"

text \<open>Credit the amount of the charge under the reference, mark the charge, wake the bots.\<close>

definition credit_charge ::
  "bool \<Rightarrow> charge \<Rightarrow> string \<Rightarrow> string \<Rightarrow> string list option crypto_act" where
  "credit_charge wired c creditRef description =
     abind (ledger_call (credit (ch_tenantId c) (fromCents (of_int (ch_amountUsdCents c))) Purchase
       ((crypto_opts description)\<lparr>c_referenceId := Some creditRef\<rparr>))) (\<lambda>_.
     abind (markCredited (ch_referenceId c)) (\<lambda>_.
     if wired then abind (check_reactivation (ch_tenantId c))
       (\<lambda>ids. areturn (if ids = [] then None else Some ids))
     else areturn None))"

definition key_progress :: "key_payload \<Rightarrow> charge \<Rightarrow> unit crypto_act" where
  "key_progress p c =
     (let status = normalizeStatus (kp_status p);
          amountReceivedCents = or_else (kp_amountReceivedCents p) (or_else (kp_amountUsdCents p) 0)
      in abind (updateProgress (kp_chargeId p) status amountReceivedCents (or_else (kp_confirmations p) 0)
             (or_else (kp_confirmationsRequired p) 1) (kp_txHash p)) (\<lambda>_.
         updateStatus (kp_chargeId p) (status_text status) (ch_token c) (kp_amountReceived p)))"

definition key_answer :: "key_payload \<Rightarrow> charge \<Rightarrow> bool \<Rightarrow> int option \<Rightarrow> string list option \<Rightarrow> key_result" where
  "key_answer p c duplicate credited bots = \<lparr>kr_handled = True, kr_duplicate = duplicate,
     kr_tenant = Some (ch_tenantId c), kr_creditedCents = credited, kr_reactivatedBots = bots,
     kr_status = Some (normalizeStatus (kp_status p)), kr_confirmations = Some (or_else (kp_confirmations p) 0),
     kr_confirmationsRequired = Some (or_else (kp_confirmationsRequired p) 1)\<rparr>"

definition no_key_answer :: "bool \<Rightarrow> key_result" where
  "no_key_answer duplicate = \<lparr>kr_handled = duplicate, kr_duplicate = duplicate, kr_tenant = None,
     kr_creditedCents = None, kr_reactivatedBots = None, kr_status = None, kr_confirmations = None,
     kr_confirmationsRequired = None\<rparr>"

definition key_credit :: "bool \<Rightarrow> key_payload \<Rightarrow> charge \<Rightarrow> key_result crypto_act" where
  "key_credit wired p c =
     (let creditRef = ''crypto:'' @ kp_chargeId p in
      abind (has_reference creditRef) (\<lambda>seen.
      if seen then abind (markSeen (dedupe_key p) ''crypto'') (\<lambda>_. areturn (key_answer p c True None None))
      else abind (credit_charge wired c creditRef (''Crypto payment confirmed ('' @ kp_chain p @ '', tx: ''
             @ or_else (kp_txHash p) ''unknown'' @ '')'')) (\<lambda>bots.
        abind (markSeen (dedupe_key p) ''crypto'') (\<lambda>_.
        areturn (key_answer p c False (Some (ch_amountUsdCents c)) bots)))))"

definition handleKeyServerWebhook :: "bool \<Rightarrow> key_payload \<Rightarrow> key_result crypto_act" where
  "handleKeyServerWebhook wired p =
     abind (aquery (\<lambda>s. Inr (isDuplicate (dedupe_key p) ''crypto'' s, getByReferenceId (kp_chargeId p) s)))
       (\<lambda>(duplicate, found).
        if duplicate then areturn (no_key_answer True)
        else case found of
          None \<Rightarrow> areturn (no_key_answer False)
        | Some c \<Rightarrow> abind (key_progress p c) (\<lambda>_.
            if normalizeStatus (kp_status p) = Charge_Confirmed then key_credit wired p c
            else abind (markSeen (dedupe_key p) ''crypto'') (\<lambda>_. areturn (key_answer p c False None None))))"

definition handleCryptoWebhook :: "bool \<Rightarrow> key_payload \<Rightarrow> key_result crypto_act" where
  "handleCryptoWebhook botBilling = handleKeyServerWebhook botBilling"

section \<open>Settlers\<close>

record evm_event =
  ev_chain :: string
  ev_token :: string
  ev_to :: string
  ev_amountUsdCents :: int
  ev_txHash :: string
  ev_logIndex :: nat

record eth_event =
  et_chain :: string
  et_to :: string
  et_amountUsdCents :: int
  et_txHash :: string

record btc_event =
  bt_address :: string
  bt_txid :: string
  bt_amountUsdCents :: int

record settle_result =
  sr_handled :: bool
  sr_status :: string
  sr_tenant :: "string option"
  sr_creditedCents :: "int option"
  sr_reactivatedBots :: "string list option"

definition settled :: "charge \<Rightarrow> int \<Rightarrow> string list option \<Rightarrow> settle_result" where
  "settled c cents bots = \<lparr>sr_handled = True, sr_status = ''Settled'', sr_tenant = Some (ch_tenantId c),
     sr_creditedCents = Some cents, sr_reactivatedBots = bots\<rparr>"

definition no_charge :: settle_result where
  "no_charge = \<lparr>sr_handled = False, sr_status = ''Invalid'', sr_tenant = None, sr_creditedCents = None,
     sr_reactivatedBots = None\<rparr>"

definition UNDERPAYMENT_TOLERANCE :: rat where
  "UNDERPAYMENT_TOLERANCE = js_div 98 100"

definition settleEvmPayment :: "bool \<Rightarrow> evm_event \<Rightarrow> settle_result crypto_act" where
  "settleEvmPayment wired event =
     abind (aquery (\<lambda>s. Inr (getByDepositAddress (toLowerCase (ev_to event)) s))) (\<lambda>found.
     case found of None \<Rightarrow> areturn no_charge
     | Some c \<Rightarrow>
         abind (updateStatus (ch_referenceId c) ''Settled'' None None) (\<lambda>_.
         if ch_creditedAt c \<noteq> None then areturn (settled c 0 None)
         else let creditRef = ''evm:'' @ ev_chain event @ '':'' @ ev_txHash event @ '':'' @ decimal (ev_logIndex event) in
           abind (has_reference creditRef) (\<lambda>seen.
           if seen then areturn (settled c 0 None)
           else if ev_amountUsdCents event < ch_amountUsdCents c then areturn (settled c 0 None)
           else abind (credit_charge wired c creditRef (''Stablecoin credit purchase ('' @ ev_token event @ '' on ''
                    @ ev_chain event @ '', tx: '' @ ev_txHash event @ '')''))
                  (\<lambda>bots. areturn (settled c (ch_amountUsdCents c) bots)))))"

definition settleEthPayment :: "bool \<Rightarrow> eth_event \<Rightarrow> settle_result crypto_act" where
  "settleEthPayment wired event =
     abind (aquery (\<lambda>s. Inr (getByDepositAddress (toLowerCase (et_to event)) s))) (\<lambda>found.
     case found of None \<Rightarrow> areturn no_charge
     | Some c \<Rightarrow>
         abind (updateStatus (ch_referenceId c) ''Settled'' None None) (\<lambda>_.
         if ch_creditedAt c \<noteq> None then areturn (settled c 0 None)
         else let creditRef = ''eth:'' @ et_chain event @ '':'' @ et_txHash event in
           abind (has_reference creditRef) (\<lambda>seen.
           if seen then areturn (settled c 0 None)
           else if of_int (et_amountUsdCents event) < js_mul (of_int (ch_amountUsdCents c)) UNDERPAYMENT_TOLERANCE
           then areturn (settled c 0 None)
           else abind (credit_charge wired c creditRef (''ETH credit purchase ('' @ et_chain event @ '', tx: ''
                    @ et_txHash event @ '')''))
                  (\<lambda>bots. areturn (settled c (ch_amountUsdCents c) bots)))))"

definition settleBtcPayment :: "bool \<Rightarrow> btc_event \<Rightarrow> settle_result crypto_act" where
  "settleBtcPayment wired event =
     abind (aquery (\<lambda>s. Inr (getByDepositAddress (bt_address event) s))) (\<lambda>found.
     case found of None \<Rightarrow> areturn no_charge
     | Some c \<Rightarrow>
         abind (updateStatus (ch_referenceId c) ''Settled'' None None) (\<lambda>_.
         if ch_creditedAt c \<noteq> None then areturn (settled c 0 None)
         else let creditRef = ''btc:'' @ bt_txid event in
           abind (has_reference creditRef) (\<lambda>seen.
           if seen then areturn (settled c 0 None)
           else if of_int (bt_amountUsdCents event) < js_mul (of_int (ch_amountUsdCents c)) UNDERPAYMENT_TOLERANCE
           then areturn (settled c 0 None)
           else abind (credit_charge wired c creditRef (''BTC credit purchase (txid: '' @ bt_txid event @ '')''))
                  (\<lambda>bots. areturn (settled c (ch_amountUsdCents c) bots)))))"

section \<open>One credit per charge\<close>

lemma charges_update:
  assumes "\<And>c. ch_referenceId (f c) = ch_referenceId c" "\<And>c. ch_depositAddress (f c) = ch_depositAddress c"
  shows "find (\<lambda>c. ch_referenceId c = i) (map (\<lambda>c. if ch_referenceId c = r then f c else c) cs)
      = map_option (\<lambda>c. if ch_referenceId c = r then f c else c) (find (\<lambda>c. ch_referenceId c = i) cs)"
    and "find (\<lambda>c. ch_depositAddress c = a) (map (\<lambda>c. if ch_referenceId c = r then f c else c) cs)
      = map_option (\<lambda>c. if ch_referenceId c = r then f c else c) (find (\<lambda>c. ch_depositAddress c = a) cs)"
  using assms by (induction cs) auto

lemma fromCents_amount:
  "0 < n \<Longrightarrow> n \<le> 900719925 \<Longrightarrow> fromCents (of_int n) = Credit (n * 10000000)"
  by (rule fromCents_int) simp

text \<open>Once the reference is in the ledger, no delivery about the charge changes the ledger again.\<close>

lemma progress_db: "y_db (snd (key_progress p c s)) = y_db s"
  by (auto simp: key_progress_def Let_def abind_def updateProgress_def updateStatus_def update_charge_def
      amodify_def split: option.splits)

lemma webhook_after_reference:
  assumes "hasReferenceId (''crypto:'' @ kp_chargeId p) (y_db s)"
  shows "y_db (snd (handleKeyServerWebhook wired p s)) = y_db s"
proof -
  have k: "y_db (snd (key_credit wired p c x)) = y_db x"
    if "hasReferenceId (''crypto:'' @ kp_chargeId p) (y_db x)" for c and x :: crypto
    using that by (simp add: key_credit_def Let_def abind_def has_reference_def aquery_def markSeen_def amodify_def areturn_def)
  show ?thesis
  proof (cases "isDuplicate (dedupe_key p) ''crypto'' s \<or> getByReferenceId (kp_chargeId p) s = None")
    case True
    then show ?thesis by (auto simp: handleKeyServerWebhook_def abind_def aquery_def areturn_def)
  next
    case False
    then obtain c where c: "getByReferenceId (kp_chargeId p) s = Some c" by auto
    obtain r s1 where s1: "key_progress p c s = (r, s1)" by fastforce
    then have "y_db s1 = y_db s" using progress_db[of p c s] by simp
    then show ?thesis
      using False c s1 k[of s1] assms
      by (cases r) (auto simp: handleKeyServerWebhook_def abind_def aquery_def areturn_def markSeen_def amodify_def)
  qed
qed

lemma credit_charge_effect:
  assumes l: "ledger_reachable (y_db s)" and b: "billing_run (y_bots s)"
    and a: "0 < ch_amountUsdCents c" "ch_amountUsdCents c \<le> 900719925" and fresh: "\<not> hasReferenceId r (y_db s)"
    and room: "\<bar>stored_balance (tenant_code (ch_tenantId c)) (y_db s) + ch_amountUsdCents c * 10000000\<bar> \<le> max_safe_integer"
      "pg_bigint (stored_balance (CREDIT_TYPE_ACCOUNT Purchase) (y_db s) + ch_amountUsdCents c * 10000000)"
  shows "\<exists>ids s'. credit_charge True c r d s = (Inr ids, s') \<and> ledger_reachable (y_db s')
    \<and> stored_balance (tenant_code (ch_tenantId c)) (y_db s')
      = stored_balance (tenant_code (ch_tenantId c)) (y_db s) + ch_amountUsdCents c * 10000000
    \<and> hasReferenceId r (y_db s') \<and> y_seen s' = y_seen s
    \<and> cr_charges s' = map (\<lambda>x. if ch_referenceId x = ch_referenceId c
        then x\<lparr>ch_creditedAt := Some (y_now s), ch_updatedAt := y_now s\<rparr> else x) (cr_charges s)
    \<and> (0 < stored_balance (tenant_code (ch_tenantId c)) (y_db s')
        \<longrightarrow> listSuspendedIdsByTenant (ch_tenantId c) (bl_bots (y_bots s')) = [])"
proof -
  let ?t = "ch_tenantId c" and ?n = "ch_amountUsdCents c * 10000000"
  let ?o = "(crypto_opts d)\<lparr>c_referenceId := Some r\<rparr>"
  have n: "fromCents (of_int (ch_amountUsdCents c)) = Credit ?n" using fromCents_amount[OF a] .
  have pos: "0 < toRaw (Credit ?n)" "pg_bigint (toRaw (Credit ?n))" using a by (simp_all add: pg_bigint_def)
  have big: "pg_bigint (stored_balance (tenant_code ?t) (y_db s) + toRaw (Credit ?n))"
    "pg_bigint (stored_balance (CREDIT_TYPE_ACCOUNT Purchase) (y_db s) + toRaw (Credit ?n))"
    using room by (auto simp: pg_bigint_def max_safe_integer_def)
  obtain je d' where d': "credit ?t (Credit ?n) Purchase ?o (y_db s) = Inr (je, d')"
    using credit_succeeds[OF reachable_inv[OF l] pos _ big, of ?o] fresh by (auto simp: crypto_opts_def)
  have bal: "stored_balance (tenant_code ?t) d' = stored_balance (tenant_code ?t) (y_db s) + ?n"
    using credit_effect[OF d' reachable_core[OF l]] by simp
  have "- (2 ^ 53) \<le> stored_balance (tenant_code ?t) (y_db s) + ?n"
    using room(1) by (simp add: max_safe_integer_def abs_le_iff)
  from read_credit_eq[OF this] bal
  have "balance ?t d' = Inr (Credit (stored_balance (tenant_code ?t) (y_db s) + ?n))"
    using room(1) by (simp add: balance_def abs_le_iff)
  from check_reactivation_spec[OF b this, of "y_now s"] obtain ids bs where
    re: "checkReactivation (y_now s) ?t d' (y_bots s) = Inr (ids, bs)"
    and sp: "greaterThan (Credit (stored_balance (tenant_code ?t) (y_db s) + ?n)) ZERO
      \<longrightarrow> listSuspendedIdsByTenant ?t (bl_bots bs) = []"
    by (auto split: if_splits)
  have wake: "0 < stored_balance (tenant_code ?t) (y_db s) + ?n \<longrightarrow> listSuspendedIdsByTenant ?t (bl_bots bs) = []"
    using sp by (simp add: greaterThan_def ZERO_def)
  have "ledger_reachable d'" using credits.put_ok[OF l d'] .
  moreover have "hasReferenceId r d'" using credits.put_has[OF l d'] .
  ultimately show ?thesis
    using d' re bal wake
    by (simp add: credit_charge_def n abind_def ledger_call_def atomically_def markCredited_def update_charge_def
        amodify_def check_reactivation_def areturn_def)
qed

text \<open>C19: A confirmed crypto payment is credited exactly once: the first confirmed delivery for a charge adds
  exactly the amount of the charge to its tenant, marks the charge credited, and wakes the
  suspended bots of the tenant when the balance becomes positive; after that no delivery about the
  charge, whatever its status, its confirmations or what else happened in between, changes the ledger.\<close>

theorem crypto_webhook_once:
  assumes "ledger_reachable (y_db s)" "billing_run (y_bots s)"
    and c: "getByReferenceId (kp_chargeId p) s = Some c"
    and a: "0 < ch_amountUsdCents c" "ch_amountUsdCents c \<le> 900719925"
    and p: "normalizeStatus (kp_status p) = Charge_Confirmed" "\<not> isDuplicate (dedupe_key p) ''crypto'' s"
      "\<not> hasReferenceId (''crypto:'' @ kp_chargeId p) (y_db s)"
    and i: "pg_integer (or_else (kp_amountReceivedCents p) (or_else (kp_amountUsdCents p) 0))"
      "pg_integer (or_else (kp_confirmations p) 0)" "pg_integer (or_else (kp_confirmationsRequired p) 1)"
    and room: "\<bar>stored_balance (tenant_code (ch_tenantId c)) (y_db s) + ch_amountUsdCents c * 10000000\<bar> \<le> max_safe_integer"
      "pg_bigint (stored_balance (CREDIT_TYPE_ACCOUNT Purchase) (y_db s) + ch_amountUsdCents c * 10000000)"
  shows "\<exists>r s'. handleCryptoWebhook True p s = (Inr r, s')
    \<and> kr_creditedCents r = Some (ch_amountUsdCents c) \<and> isCredited (kp_chargeId p) s'
    \<and> stored_balance (tenant_code (ch_tenantId c)) (y_db s')
      = stored_balance (tenant_code (ch_tenantId c)) (y_db s) + ch_amountUsdCents c * 10000000
    \<and> (0 < stored_balance (tenant_code (ch_tenantId c)) (y_db s')
        \<longrightarrow> listSuspendedIdsByTenant (ch_tenantId c) (bl_bots (y_bots s')) = [])
    \<and> (\<forall>s'' q wired. ledger_step\<^sup>*\<^sup>* (y_db s') (y_db s'') \<and> kp_chargeId q = kp_chargeId p
        \<longrightarrow> y_db (snd (handleCryptoWebhook wired q s'')) = y_db s'')"
proof -
  let ?r = "''crypto:'' @ kp_chargeId p"
  let ?d = "''Crypto payment confirmed ('' @ kp_chain p @ '', tx: '' @ or_else (kp_txHash p) ''unknown'' @ '')''"
  obtain s1 where s1: "key_progress p c s = (Inr (), s1)" "y_db s1 = y_db s" "y_bots s1 = y_bots s"
      "getByReferenceId (kp_chargeId p) s1 \<noteq> None" "y_seen s1 = y_seen s"
    using c i
    by (auto simp: key_progress_def Let_def abind_def updateProgress_def updateStatus_def update_charge_def
        amodify_def getByReferenceId_def charges_update simp del: map_map)
  have id: "ch_referenceId c = kp_chargeId p" using find_Some_set[of _ "cr_charges s" c] c by (auto simp: getByReferenceId_def)
  obtain ids s2 where s2: "credit_charge True c ?r ?d s1 = (Inr ids, s2)" "ledger_reachable (y_db s2)"
      "stored_balance (tenant_code (ch_tenantId c)) (y_db s2)
        = stored_balance (tenant_code (ch_tenantId c)) (y_db s) + ch_amountUsdCents c * 10000000"
      "hasReferenceId ?r (y_db s2)" "y_seen s2 = y_seen s1"
      "cr_charges s2 = map (\<lambda>x. if ch_referenceId x = ch_referenceId c
        then x\<lparr>ch_creditedAt := Some (y_now s1), ch_updatedAt := y_now s1\<rparr> else x) (cr_charges s1)"
      "0 < stored_balance (tenant_code (ch_tenantId c)) (y_db s2)
        \<longrightarrow> listSuspendedIdsByTenant (ch_tenantId c) (bl_bots (y_bots s2)) = []"
    using credit_charge_effect[of s1 c ?r ?d] assms(1,2) a p(3) room s1(2,3) by auto
  define s3 where "s3 = snd (markSeen (dedupe_key p) ''crypto'' s2)"
  have m: "markSeen (dedupe_key p) ''crypto'' s2 = (Inr (), s3)" "y_db s3 = y_db s2" "y_bots s3 = y_bots s2"
      "cr_charges s3 = cr_charges s2"
    by (simp_all add: s3_def markSeen_def amodify_def)
  have run: "handleCryptoWebhook True p s = (Inr (key_answer p c False (Some (ch_amountUsdCents c)) ids), s3)"
    using c p s1(1,2) s2(1) m(1)
    by (simp add: handleCryptoWebhook_def handleKeyServerWebhook_def abind_def aquery_def areturn_def key_credit_def
        Let_def has_reference_def)
  have "isCredited (kp_chargeId p) s3"
    using s1(4) id by (auto simp: isCredited_def getByReferenceId_def m(4) s2(6) charges_update dest: find_Some_set)
  moreover have "y_db (snd (handleCryptoWebhook wired q s'')) = y_db s''"
    if "ledger_step\<^sup>*\<^sup>* (y_db s3) (y_db s'')" "kp_chargeId q = kp_chargeId p" for s'' q wired
  proof -
    have "hasReferenceId ?r (y_db s'')"
      using steps_keep[of "y_db s3" "y_db s''"] that(1) s2(2,4) m(2) hasReferenceId_prefix by metis
    then show ?thesis using webhook_after_reference[of q s''] that(2) by (simp add: handleCryptoWebhook_def)
  qed
  ultimately show ?thesis using run s2(3,7) m(2,3) by (auto simp: key_answer_def)
qed

definition demo_crypto :: crypto where
  "demo_crypto = \<lparr>y_db = seeded, y_bots = demo_bots, y_seen = [], y_now = 7,
     cr_charges = [(new_charge ''btc:x'' ''t1'' 5000 0)\<lparr>ch_depositAddress := Some ''bc1q''\<rparr>]\<rparr>"

definition demo_payload :: key_payload where
  "demo_payload = \<lparr>kp_chargeId = ''btc:x'', kp_chain = ''bitcoin'', kp_address = ''bc1q'', kp_amountUsdCents = None,
     kp_amountReceivedCents = Some 5000, kp_status = ''confirmed'', kp_txHash = None, kp_amountReceived = None,
     kp_confirmations = Some 6, kp_confirmationsRequired = Some 6\<rparr>"

lemma demo_room:
  "\<bar>stored_balance (tenant_code ''t1'') seeded + 50000000000\<bar> \<le> max_safe_integer"
  "pg_bigint (stored_balance (CREDIT_TYPE_ACCOUNT Purchase) seeded + 50000000000)"
  by code_simp+

theorem crypto_webhook_once_witness:
  "\<exists>r s'. handleCryptoWebhook True demo_payload demo_crypto = (Inr r, s') \<and> kr_creditedCents r = Some 5000
    \<and> stored_balance (tenant_code ''t1'') (y_db s') = stored_balance (tenant_code ''t1'') seeded + 50000000000"
proof -
  let ?c = "(new_charge ''btc:x'' ''t1'' 5000 0)\<lparr>ch_depositAddress := Some ''bc1q''\<rparr>"
  have d: "y_db demo_crypto = seeded" "y_bots demo_crypto = demo_bots" by (simp_all add: demo_crypto_def)
  have c: "getByReferenceId (kp_chargeId demo_payload) demo_crypto = Some ?c"
    by (simp add: getByReferenceId_def demo_crypto_def demo_payload_def new_charge_def)
  have amt: "ch_amountUsdCents ?c = 5000" "ch_tenantId ?c = ''t1''" by (simp_all add: new_charge_def)
  have p: "normalizeStatus (kp_status demo_payload) = Charge_Confirmed"
    "\<not> isDuplicate (dedupe_key demo_payload) ''crypto'' demo_crypto"
    by (simp_all add: normalizeStatus_def demo_payload_def isDuplicate_def demo_crypto_def)
  have h: "\<not> hasReferenceId (''crypto:'' @ kp_chargeId demo_payload) (y_db demo_crypto)" unfolding d by code_simp
  have i: "pg_integer (or_else (kp_amountReceivedCents demo_payload) (or_else (kp_amountUsdCents demo_payload) 0))"
      "pg_integer (or_else (kp_confirmations demo_payload) 0)" "pg_integer (or_else (kp_confirmationsRequired demo_payload) 1)"
    by (simp_all add: pg_integer_def demo_payload_def or_else_def)
  show ?thesis
    using crypto_webhook_once[OF _ _ c _ _ p h i] seeded_reachable demo_bots_run demo_room unfolding amt d
    by auto
qed

section \<open>One credit per deposit address\<close>

datatype transfer = Evm evm_event | Eth eth_event | Btc btc_event

fun settle :: "bool \<Rightarrow> transfer \<Rightarrow> settle_result crypto_act" where
  "settle wired (Evm e) = settleEvmPayment wired e"
| "settle wired (Eth e) = settleEthPayment wired e"
| "settle wired (Btc e) = settleBtcPayment wired e"

fun deposit_of :: "transfer \<Rightarrow> string" where
  "deposit_of (Evm e) = toLowerCase (ev_to e)"
| "deposit_of (Eth e) = toLowerCase (et_to e)"
| "deposit_of (Btc e) = toLowerCase (bt_address e)"

fun transfer_reference :: "transfer \<Rightarrow> string" where
  "transfer_reference (Evm e) = ''evm:'' @ ev_chain e @ '':'' @ ev_txHash e @ '':'' @ decimal (ev_logIndex e)"
| "transfer_reference (Eth e) = ''eth:'' @ et_chain e @ '':'' @ et_txHash e"
| "transfer_reference (Btc e) = ''btc:'' @ bt_txid e"

fun transfer_note :: "transfer \<Rightarrow> string" where
  "transfer_note (Evm e) = ''Stablecoin credit purchase ('' @ ev_token e @ '' on '' @ ev_chain e @ '', tx: '' @ ev_txHash e @ '')''"
| "transfer_note (Eth e) = ''ETH credit purchase ('' @ et_chain e @ '', tx: '' @ et_txHash e @ '')''"
| "transfer_note (Btc e) = ''BTC credit purchase (txid: '' @ bt_txid e @ '')''"

text \<open>What is paid must reach the whole amount in a stablecoin, and 98 percent of it in a volatile coin.\<close>

fun covers :: "transfer \<Rightarrow> int \<Rightarrow> bool" where
  "covers (Evm e) cents \<longleftrightarrow> cents \<le> ev_amountUsdCents e"
| "covers (Eth e) cents \<longleftrightarrow> js_mul (of_int cents) UNDERPAYMENT_TOLERANCE \<le> of_int (et_amountUsdCents e)"
| "covers (Btc e) cents \<longleftrightarrow> js_mul (of_int cents) UNDERPAYMENT_TOLERANCE \<le> of_int (bt_amountUsdCents e)"

text \<open>The three settlers, written three times in the source, are one.\<close>

definition settle_spec :: "bool \<Rightarrow> transfer \<Rightarrow> settle_result crypto_act" where
  "settle_spec wired e s =
     (case find (\<lambda>c. ch_depositAddress c = Some (deposit_of e)) (cr_charges s) of
        None \<Rightarrow> (Inr no_charge, s)
      | Some c \<Rightarrow>
          let s1 = snd (updateStatus (ch_referenceId c) ''Settled'' None None s) in
          if ch_creditedAt c = None \<and> \<not> hasReferenceId (transfer_reference e) (y_db s) \<and> covers e (ch_amountUsdCents c)
          then abind (credit_charge wired c (transfer_reference e) (transfer_note e))
                 (\<lambda>bots. areturn (settled c (ch_amountUsdCents c) bots)) s1
          else (Inr (settled c 0 None), s1))"

lemma settle_is_spec: "settle wired e s = settle_spec wired e s"
proof (cases e)
  case (Evm x)
  then show ?thesis
    by (auto simp: settle_spec_def settleEvmPayment_def getByDepositAddress_def abind_def aquery_def areturn_def
        updateStatus_def update_charge_def amodify_def has_reference_def Let_def split: option.splits)
next
  case (Eth x)
  then show ?thesis
    by (auto simp: settle_spec_def settleEthPayment_def getByDepositAddress_def abind_def aquery_def areturn_def
        updateStatus_def update_charge_def amodify_def has_reference_def Let_def split: option.splits)
next
  case (Btc x)
  then show ?thesis
    by (auto simp: settle_spec_def settleBtcPayment_def getByDepositAddress_def abind_def aquery_def areturn_def
        updateStatus_def update_charge_def amodify_def has_reference_def Let_def split: option.splits)
qed


definition paid :: "pay_error + settle_result \<Rightarrow> bool" where
  "paid r = (case r of Inl _ \<Rightarrow> False | Inr x \<Rightarrow> or_else (sr_creditedCents x) 0 > 0)"

definition posted_for :: "charge \<Rightarrow> db \<Rightarrow> db \<Rightarrow> bool" where
  "posted_for c d d' \<longleftrightarrow> (\<exists>note r je. credit (ch_tenantId c) (fromCents (of_int (ch_amountUsdCents c))) Purchase
     ((crypto_opts note)\<lparr>c_referenceId := Some r\<rparr>) d = Inr (je, d'))"

definition same_charge :: "charge \<Rightarrow> charge \<Rightarrow> bool" where
  "same_charge c c' \<longleftrightarrow> ch_referenceId c' = ch_referenceId c \<and> ch_tenantId c' = ch_tenantId c
     \<and> ch_amountUsdCents c' = ch_amountUsdCents c"

lemma deposit_update:
  assumes "find (\<lambda>c. ch_depositAddress c = a) cs = Some c"
    and "\<And>c. ch_referenceId (f c) = ch_referenceId c" "\<And>c. ch_depositAddress (f c) = ch_depositAddress c"
  shows "find (\<lambda>c. ch_depositAddress c = a) (map (\<lambda>x. if ch_referenceId x = ch_referenceId c then f x else x) cs)
    = Some (f c)"
  using charges_update(2)[of f a "ch_referenceId c" cs] assms by simp

lemma credit_charge_cases:
  assumes "credit_charge wired c ref note s = (r, s')"
    and "find (\<lambda>c. ch_depositAddress c = a) (cr_charges s) = Some c0" "ch_referenceId c = ch_referenceId c0"
  obtains (refused) e where "r = Inl e" "s' = s"
  | (credited) c' where "posted_for c (y_db s) (y_db s')" "ch_creditedAt c' \<noteq> None" "same_charge c0 c'"
      "find (\<lambda>c. ch_depositAddress c = a) (cr_charges s') = Some c'"
proof (cases "credit (ch_tenantId c) (fromCents (of_int (ch_amountUsdCents c))) Purchase
    ((crypto_opts note)\<lparr>c_referenceId := Some ref\<rparr>) (y_db s)")
  case (Inl e)
  then show ?thesis using assms(1) by (intro refused) (auto simp: credit_charge_def abind_def ledger_call_def atomically_def)
next
  case (Inr p)
  obtain je d where p: "p = (je, d)" by fastforce
  let ?m = "\<lambda>x. x\<lparr>ch_creditedAt := Some (y_now s), ch_updatedAt := y_now s\<rparr>"
  have s': "y_db s' = d" "cr_charges s' = map (\<lambda>x. if ch_referenceId x = ch_referenceId c then ?m x else x) (cr_charges s)"
    using assms(1) Inr p
    by (auto simp: credit_charge_def abind_def ledger_call_def atomically_def markCredited_def update_charge_def
        amodify_def check_reactivation_def areturn_def split: if_splits sum.splits prod.splits)
  have "find (\<lambda>c. ch_depositAddress c = a) (cr_charges s') = Some (?m c0)"
    unfolding s'(2) assms(3) by (rule deposit_update[OF assms(2)]) simp_all
  moreover have "posted_for c (y_db s) (y_db s')" using Inr p s'(1) by (auto simp: posted_for_def)
  ultimately show ?thesis by (intro credited[of "?m c0"]) (simp_all add: same_charge_def)
qed

lemma settle_effect:
  assumes r: "settle wired e s = (r, s')"
    and found: "find (\<lambda>c. ch_depositAddress c = Some (deposit_of e)) (cr_charges s) = Some c"
  shows "\<exists>c'. find (\<lambda>c. ch_depositAddress c = Some (deposit_of e)) (cr_charges s') = Some c' \<and> same_charge c c'
    \<and> (y_db s' = y_db s \<and> ch_creditedAt c' = ch_creditedAt c \<and> \<not> paid r
       \<or> ch_creditedAt c = None \<and> ch_creditedAt c' \<noteq> None \<and> posted_for c (y_db s) (y_db s'))"
proof -
  let ?st = "\<lambda>x. x\<lparr>ch_status := ''Settled'', ch_currency := or_keep None (ch_currency x),
       ch_filledAmount := or_keep None (ch_filledAmount x), ch_updatedAt := y_now s\<rparr>"
  define s1 where "s1 = snd (updateStatus (ch_referenceId c) ''Settled'' None None s)"
  have s1: "y_db s1 = y_db s" "find (\<lambda>c. ch_depositAddress c = Some (deposit_of e)) (cr_charges s1) = Some (?st c)"
    using deposit_update[OF found, of ?st]
    by (simp_all add: s1_def updateStatus_def update_charge_def amodify_def)
  let ?go = "ch_creditedAt c = None \<and> \<not> hasReferenceId (transfer_reference e) (y_db s) \<and> covers e (ch_amountUsdCents c)"
  have run: "settle wired e s = (if ?go then abind (credit_charge wired c (transfer_reference e) (transfer_note e))
      (\<lambda>bots. areturn (settled c (ch_amountUsdCents c) bots)) s1 else (Inr (settled c 0 None), s1))"
    by (simp add: settle_is_spec settle_spec_def found s1_def Let_def)
  show ?thesis
  proof (cases ?go)
    case False
    have "settle wired e s = (Inr (settled c 0 None), s1)" unfolding run by (rule if_not_P[OF False])
    then have "r = Inr (settled c 0 None)" "s' = s1" using r by simp_all
    then show ?thesis using s1 by (auto simp: paid_def settled_def or_else_def same_charge_def)
  next
    case True
    obtain r1 s2 where cc: "credit_charge wired c (transfer_reference e) (transfer_note e) s1 = (r1, s2)" by fastforce
    have s': "s' = s2" "r1 = Inl x \<Longrightarrow> r = Inl x" for x
      using r run True cc by (auto simp: abind_def areturn_def split: sum.splits)
    show ?thesis
    proof (cases rule: credit_charge_cases[OF cc s1(2)])
      case 1
      then show ?case by simp
    next
      case (2 x)
      then show ?thesis using s' s1 by (auto simp: paid_def same_charge_def)
    next
      case (3 c')
      then show ?thesis using s' s1(1) True by (auto simp: same_charge_def)
    qed
  qed
qed

fun run_transfers :: "bool \<Rightarrow> transfer list \<Rightarrow> crypto \<Rightarrow> (pay_error + settle_result) list \<times> crypto" where
  "run_transfers wired [] s = ([], s)"
| "run_transfers wired (e # es) s =
     (let (r, s1) = settle wired e s; (rs, s2) = run_transfers wired es s1 in (r # rs, s2))"

text \<open>However many transfers arrive at the address of a charge, of whatever coin, in whatever order and
  with repetitions, settling them one after the other credits the charge at most once, with exactly
  its amount to its tenant: the ledger is unchanged or has that one entry more, and at most one
  settlement reports a credit.\<close>

theorem transfers_credit_once:
  assumes "run_transfers wired es s = (rs, s')" "\<forall>e \<in> set es. deposit_of e = toLowerCase a"
    and "getByDepositAddress a s = Some c"
  shows "(y_db s' = y_db s \<or> posted_for c (y_db s) (y_db s')) \<and> length (filter paid rs) \<le> 1
    \<and> (ch_creditedAt c \<noteq> None \<longrightarrow> y_db s' = y_db s)"
proof -
  have "(y_db s' = y_db s \<or> ch_creditedAt c = None \<and> posted_for c (y_db s) (y_db s')) \<and> length (filter paid rs) \<le> 1
      \<and> (ch_creditedAt c \<noteq> None \<longrightarrow> filter paid rs = [])"
    using assms
  proof (induction es arbitrary: s rs c)
    case Nil
    then show ?case by simp
  next
    case (Cons e es)
    obtain r s1 rs1 where st: "settle wired e s = (r, s1)" "run_transfers wired es s1 = (rs1, s')" "rs = r # rs1"
      using Cons.prems(1) by (auto simp: Let_def split: prod.splits)
    have "find (\<lambda>c. ch_depositAddress c = Some (deposit_of e)) (cr_charges s) = Some c"
      using Cons.prems(2,3) by (simp add: getByDepositAddress_def)
    from settle_effect[OF st(1) this] obtain c' where c': "getByDepositAddress a s1 = Some c'" "same_charge c c'"
        "y_db s1 = y_db s \<and> ch_creditedAt c' = ch_creditedAt c \<and> \<not> paid r
         \<or> ch_creditedAt c = None \<and> ch_creditedAt c' \<noteq> None \<and> posted_for c (y_db s) (y_db s1)"
      using Cons.prems(2) by (auto simp: getByDepositAddress_def)
    have p: "posted_for c' = posted_for c" using c'(2) by (simp add: posted_for_def[abs_def] same_charge_def)
    show ?case using Cons.IH[OF st(2) _ c'(1)] Cons.prems(2) c'(3) st(3) p by auto
  qed
  then show ?thesis by auto
qed

definition btc_payment :: "string \<Rightarrow> transfer" where
  "btc_payment i = Btc \<lparr>bt_address = ''BC1Q'', bt_txid = i, bt_amountUsdCents = 5000\<rparr>"

theorem transfers_credit_once_witness:
  "length (filter paid (fst (run_transfers False [btc_payment ''a'', btc_payment ''b''] demo_crypto))) \<le> 1"
proof -
  obtain rs s' where r: "run_transfers False [btc_payment ''a'', btc_payment ''b''] demo_crypto = (rs, s')" by fastforce
  have d: "\<forall>e \<in> set [btc_payment ''a'', btc_payment ''b'']. deposit_of e = toLowerCase ''bc1q''" by code_simp
  have "getByDepositAddress ''bc1q'' demo_crypto = Some (hd (cr_charges demo_crypto))"
    by (simp add: getByDepositAddress_def demo_crypto_def new_charge_def toLowerCase_def lower_char_def)
  from transfers_credit_once[OF r d this] show ?thesis unfolding r fst_conv by blast
qed

end
