(* ===== verification/Affiliate.thy ===== *)
theory Affiliate
  imports Payments
begin

text \<open>
  The affiliate programme (\<open>src/monetization/affiliate/\<close>): codes and referrals
  (\<open>drizzle-affiliate-repository.ts\<close>), the fraud signals and their log
  (\<open>self-referral-detector.ts\<close>, \<open>affiliate-fraud-repository.ts\<close>), the bonus of a referred
  user (\<open>new-user-bonus.ts\<close>) and the match of the referrer (\<open>credit-match.ts\<close>). Random codes
  and identifiers are arguments; lists of signals are stored as lists where the code stores JSON.
\<close>

section \<open>Tables\<close>

record affiliate_code =
  co_tenantId :: string
  co_code :: string
  co_createdAt :: int

record referral_row =
  rf_id :: nat
  rf_referrerTenantId :: string
  rf_referredTenantId :: string
  rf_code :: string
  rf_signedUpAt :: int
  rf_firstPurchaseAt :: "int option"
  rf_matchAmountCents :: "int option"
  rf_matchedAt :: "int option"
  rf_payoutSuppressed :: bool
  rf_suppressionReason :: "string option"
  rf_signupIp :: "string option"
  rf_signupEmail :: "string option"

datatype verdict = Blocked | Flagged | Clean

datatype phase = Signup | Payout

record fraud_event =
  fe_referralId :: nat
  fe_referrerTenantId :: string
  fe_referredTenantId :: string
  fe_verdict :: verdict
  fe_signals :: "string list"
  fe_signalDetails :: "(string \<times> string) list"
  fe_phase :: phase
  fe_createdAt :: int

record affiliates = pay +
  af_codes :: "affiliate_code list"
  af_referrals :: "referral_row list"
  af_fraud :: "fraud_event list"

type_synonym ('s, 'a) aff_act = "('s affiliates_scheme, pay_error, 'a) act"

section \<open>Codes\<close>

definition CODE_LENGTH :: nat where "CODE_LENGTH = 6"

definition MAX_CODE_ATTEMPTS :: nat where "MAX_CODE_ATTEMPTS = 5"

definition AFFILIATE_BASE_URL :: string where
  "AFFILIATE_BASE_URL = ''https://wopr.network/join?ref=''"

definition base36_digit :: "nat \<Rightarrow> char" where
  "base36_digit d = (if d < 10 then char_of (48 + d) else char_of (87 + d))"

fun base36 :: "nat \<Rightarrow> string" where
  "base36 n = (if n < 36 then [base36_digit n] else base36 (n div 36) @ [base36_digit (n mod 36)])"

declare base36.simps [simp del]

definition padEnd :: "nat \<Rightarrow> char \<Rightarrow> string \<Rightarrow> string" where
  "padEnd n c s = s @ replicate (n - length s) c"

text \<open>The argument is the number read from the first ten hexadecimal digits of the UUID.\<close>

definition generateCode :: "nat \<Rightarrow> string" where
  "generateCode num = padEnd CODE_LENGTH (CHR ''0'') (take CODE_LENGTH (base36 num))"

datatype insert_outcome = Inserted | Code_Taken | Tenant_Taken

definition code_of_tenant :: "string \<Rightarrow> affiliate_code list \<Rightarrow> affiliate_code option" where
  "code_of_tenant t = find (\<lambda>c. co_tenantId c = t)"

definition insert_code :: "string \<Rightarrow> string \<Rightarrow> ('s, insert_outcome) aff_act" where
  "insert_code tenantId code s =
     (if code_of_tenant tenantId (af_codes s) \<noteq> None then (Inr Tenant_Taken, s)
      else if code \<in> co_code ` set (af_codes s) then (Inr Code_Taken, s)
      else (Inr Inserted, s\<lparr>af_codes := af_codes s @
        [\<lparr>co_tenantId = tenantId, co_code = code, co_createdAt = y_now s\<rparr>]\<rparr>))"

definition read_back :: "string \<Rightarrow> string \<Rightarrow> ('s, affiliate_code) aff_act" where
  "read_back tenantId msg = aquery (\<lambda>s. case code_of_tenant tenantId (af_codes s) of
     Some c \<Rightarrow> Inr c | None \<Rightarrow> Inl (Pay_Error msg))"

fun code_attempts :: "string \<Rightarrow> nat list \<Rightarrow> ('s, affiliate_code) aff_act" where
  "code_attempts tenantId [] = read_back tenantId ''Failed to generate unique affiliate code after 5 attempts''"
| "code_attempts tenantId (n # ns) =
     abind (insert_code tenantId (generateCode n)) (\<lambda>outcome. case outcome of
       Inserted \<Rightarrow> read_back tenantId ''Failed to read back inserted affiliate code''
     | Code_Taken \<Rightarrow> code_attempts tenantId ns
     | Tenant_Taken \<Rightarrow> read_back tenantId ''Failed to generate unique affiliate code after 5 attempts'')"

definition getOrCreateCode :: "string \<Rightarrow> nat list \<Rightarrow> ('s, affiliate_code) aff_act" where
  "getOrCreateCode tenantId randoms =
     abind (aquery (\<lambda>s. Inr (code_of_tenant tenantId (af_codes s)))) (\<lambda>existing. case existing of
       Some c \<Rightarrow> areturn c
     | None \<Rightarrow> code_attempts tenantId (take MAX_CODE_ATTEMPTS randoms))"

definition getByCode :: "string \<Rightarrow> 's affiliates_scheme \<Rightarrow> affiliate_code option" where
  "getByCode code s = find (\<lambda>c. co_code c = code) (af_codes s)"

section \<open>Referrals\<close>

definition recordReferral ::
  "nat \<Rightarrow> string \<Rightarrow> string \<Rightarrow> string \<Rightarrow> string option \<Rightarrow> string option \<Rightarrow> ('s, bool) aff_act" where
  "recordReferral i referrer referred code signupIp signupEmail s =
     (if referrer = referred then (Inl (Pay_Error ''Self-referral is not allowed''), s)
      else if referred \<in> rf_referredTenantId ` set (af_referrals s) then (Inr False, s)
      else (Inr True, s\<lparr>af_referrals := af_referrals s @
        [\<lparr>rf_id = i, rf_referrerTenantId = referrer, rf_referredTenantId = referred, rf_code = code,
          rf_signedUpAt = y_now s, rf_firstPurchaseAt = None, rf_matchAmountCents = None, rf_matchedAt = None,
          rf_payoutSuppressed = False, rf_suppressionReason = None, rf_signupIp = signupIp,
          rf_signupEmail = signupEmail\<rparr>]\<rparr>))"

definition match_amount :: "referral_row \<Rightarrow> credit option" where
  "match_amount r = map_option (\<lambda>n. fromCents (of_int n)) (rf_matchAmountCents r)"

definition listByReferrer :: "string \<Rightarrow> 's affiliates_scheme \<Rightarrow> referral_row list" where
  "listByReferrer referrer s = filter (\<lambda>r. rf_referrerTenantId r = referrer) (af_referrals s)"

definition getReferral :: "string \<Rightarrow> 's affiliates_scheme \<Rightarrow> referral_row option" where
  "getReferral referred s = find (\<lambda>r. rf_referredTenantId r = referred) (af_referrals s)"

definition isReferred :: "string \<Rightarrow> 's affiliates_scheme \<Rightarrow> bool" where
  "isReferred referred s \<longleftrightarrow> getReferral referred s \<noteq> None"

definition update_referral :: "string \<Rightarrow> (referral_row \<Rightarrow> referral_row) \<Rightarrow> 's affiliates_scheme \<Rightarrow> 's affiliates_scheme" where
  "update_referral referred f s = s\<lparr>af_referrals :=
     map (\<lambda>r. if rf_referredTenantId r = referred then f r else r) (af_referrals s)\<rparr>"

definition markFirstPurchase :: "string \<Rightarrow> ('s, unit) aff_act" where
  "markFirstPurchase referred = amodify (\<lambda>s. update_referral referred (\<lambda>r.
     if rf_firstPurchaseAt r = None then r\<lparr>rf_firstPurchaseAt := Some (y_now s)\<rparr> else r) s)"

definition recordSuppression :: "string \<Rightarrow> string \<Rightarrow> ('s, unit) aff_act" where
  "recordSuppression referred reason = amodify (update_referral referred
     (\<lambda>r. r\<lparr>rf_payoutSuppressed := True, rf_suppressionReason := Some reason\<rparr>))"

definition recordMatch :: "string \<Rightarrow> credit \<Rightarrow> ('s, unit) aff_act" where
  "recordMatch referred amt s =
     (if \<not> pg_integer (toCentsRounded amt) then (Inl (Pay_Out_Of_Range (toCentsRounded amt)), s)
      else (Inr (), update_referral referred (\<lambda>r. if rf_matchedAt r = None
        then r\<lparr>rf_matchAmountCents := Some (toCentsRounded amt), rf_matchedAt := Some (y_now s)\<rparr> else r) s))"

definition days30 :: int where "days30 = 30 * 24 * 60 * 60 * 1000"

definition paid_out :: "string \<Rightarrow> int \<Rightarrow> referral_row \<Rightarrow> bool" where
  "paid_out referrer now r \<longleftrightarrow> rf_referrerTenantId r = referrer
     \<and> (case rf_matchedAt r of None \<Rightarrow> False | Some t \<Rightarrow> now - days30 \<le> t) \<and> \<not> rf_payoutSuppressed r"

definition cents_of :: "referral_row list \<Rightarrow> int" where
  "cents_of rs = sum_list (List.map_filter rf_matchAmountCents rs)"

definition getPayoutCount30d :: "string \<Rightarrow> 's affiliates_scheme \<Rightarrow> nat" where
  "getPayoutCount30d referrer s = length (filter (paid_out referrer (y_now s)) (af_referrals s))"

definition getPayoutTotal30d :: "string \<Rightarrow> 's affiliates_scheme \<Rightarrow> int" where
  "getPayoutTotal30d referrer s = cents_of (filter (paid_out referrer (y_now s)) (af_referrals s))"

record affiliate_stats =
  as_code :: string
  as_link :: string
  as_referrals_total :: nat
  as_referrals_converted :: nat
  as_creditsEarned :: credit

definition getStats :: "string \<Rightarrow> nat list \<Rightarrow> ('s, affiliate_stats) aff_act" where
  "getStats tenantId randoms = abind (getOrCreateCode tenantId randoms) (\<lambda>c. aquery (\<lambda>s.
     let rs = listByReferrer tenantId s in
     Inr \<lparr>as_code = co_code c, as_link = AFFILIATE_BASE_URL @ co_code c, as_referrals_total = length rs,
       as_referrals_converted = length (filter (\<lambda>r. rf_firstPurchaseAt r \<noteq> None) rs),
       as_creditsEarned = fromCents (of_int (cents_of rs))\<rparr>))"

section \<open>Fraud signals\<close>

record fraud_bundle =
  fb_referrerTenantId :: string
  fb_referredTenantId :: string
  fb_referralId :: nat
  fb_referredIp :: "string option"
  fb_referredEmail :: "string option"
  fb_existing :: "(string \<times> string option \<times> string option) list"
  fb_referrerIp :: "string option"
  fb_referrerEmail :: "string option"
  fb_referrerStripe :: "string option"
  fb_referredStripe :: "string option"

record fraud_result =
  fr_verdict :: verdict
  fr_signals :: "string list"
  fr_signalDetails :: "(string \<times> string) list"

definition GMAIL_DOMAINS :: "string list" where
  "GMAIL_DOMAINS = [''gmail.com'', ''googlemail.com'']"

definition js_space :: "char \<Rightarrow> bool" where
  "js_space c \<longleftrightarrow> (let n = of_char c :: nat in n = 32 \<or> 9 \<le> n \<and> n \<le> 13 \<or> n = 160)"

definition js_trim :: "string \<Rightarrow> string" where
  "js_trim s = rev (dropWhile js_space (rev (dropWhile js_space s)))"

definition normalizeEmail :: "string option \<Rightarrow> string option" where
  "normalizeEmail email = (case email of None \<Rightarrow> None | Some e \<Rightarrow>
     if e = [] then None else
     let lower = js_trim (toLowerCase e) in
     if CHR ''@'' \<notin> set lower then Some lower else
     let local0 = takeWhile (\<lambda>c. c \<noteq> CHR ''@'') lower;
         domain = drop (length local0 + 1) lower;
         local1 = (if domain \<in> set GMAIL_DOMAINS
           then takeWhile (\<lambda>c. c \<noteq> CHR ''+'') (filter (\<lambda>c. c \<noteq> CHR ''.'') local0) else local0)
     in Some (local1 @ CHR ''@'' # domain))"

definition text_of :: "string option \<Rightarrow> string" where
  "text_of x = (case x of None \<Rightarrow> ''null'' | Some s \<Rightarrow> s)"

definition both_equal :: "string option \<Rightarrow> string option \<Rightarrow> bool" where
  "both_equal a b \<longleftrightarrow> truthy a \<and> truthy b \<and> a = b"

fun join_comma :: "string list \<Rightarrow> string" where
  "join_comma [] = []"
| "join_comma [x] = x"
| "join_comma (x # y # zs) = x @ '', '' @ join_comma (y # zs)"

definition reused_ip :: "fraud_bundle \<Rightarrow> string list" where
  "reused_ip b = map fst (filter (\<lambda>(t, ip, _). ip = fb_referredIp b \<and> t \<noteq> fb_referredTenantId b) (fb_existing b))"

definition reused_email :: "fraud_bundle \<Rightarrow> string list" where
  "reused_email b = map fst (filter (\<lambda>(t, _, e). normalizeEmail e = normalizeEmail (fb_referredEmail b)
     \<and> t \<noteq> fb_referredTenantId b) (fb_existing b))"

definition fraud_signals :: "fraud_bundle \<Rightarrow> (string \<times> string) list" where
  "fraud_signals b =
     (let normReferrer = normalizeEmail (fb_referrerEmail b); normReferred = normalizeEmail (fb_referredEmail b) in
      (if both_equal (fb_referrerIp b) (fb_referredIp b)
       then [(''same_ip'', ''Both accounts used IP '' @ text_of (fb_referrerIp b))] else [])
      @ (if both_equal normReferrer normReferred
         then [(''email_alias'', ''Referrer email '' @ [char_of (34 :: nat)] @ text_of (fb_referrerEmail b) @ [char_of (34 :: nat)]
           @ '' and referred email '' @ [char_of (34 :: nat)] @ text_of (fb_referredEmail b) @ [char_of (34 :: nat)]
           @ '' normalize to '' @ [char_of (34 :: nat)] @ text_of normReferrer @ [char_of (34 :: nat)])] else [])
      @ (if both_equal (fb_referrerStripe b) (fb_referredStripe b)
         then [(''same_stripe_customer'', ''Both accounts share Stripe customer '' @ text_of (fb_referrerStripe b))] else [])
      @ (if truthy (fb_referredIp b) \<and> reused_ip b \<noteq> []
         then [(''ip_reuse_across_referrals'', ''IP '' @ text_of (fb_referredIp b)
           @ '' also used by referred tenants: '' @ join_comma (reused_ip b))] else [])
      @ (if truthy normReferred \<and> reused_email b \<noteq> []
         then [(''email_reuse_across_referrals'', ''Normalized email '' @ [char_of (34 :: nat)] @ text_of normReferred
           @ [char_of (34 :: nat)] @ '' also used by referred tenants: '' @ join_comma (reused_email b))] else []))"

definition checkSelfReferral :: "fraud_bundle \<Rightarrow> fraud_result" where
  "checkSelfReferral b =
     (let signals = map fst (fraud_signals b) in
      \<lparr>fr_verdict = (if ''same_stripe_customer'' \<in> set signals then Blocked
          else if 2 \<le> length signals then Blocked
          else if length signals = 1 then Flagged else Clean),
       fr_signals = signals, fr_signalDetails = fraud_signals b\<rparr>)"

definition record_fraud :: "fraud_event \<Rightarrow> ('s, unit) aff_act" where
  "record_fraud e = amodify (\<lambda>s.
     if \<exists>x \<in> set (af_fraud s). fe_referralId x = fe_referralId e \<and> fe_phase x = fe_phase e then s
     else s\<lparr>af_fraud := af_fraud s @ [e\<lparr>fe_createdAt := y_now s\<rparr>]\<rparr>)"

definition fraud_listByReferrer :: "string \<Rightarrow> 's affiliates_scheme \<Rightarrow> fraud_event list" where
  "fraud_listByReferrer referrer s = filter (\<lambda>e. fe_referrerTenantId e = referrer) (af_fraud s)"

definition isBlocked :: "nat \<Rightarrow> phase \<Rightarrow> 's affiliates_scheme \<Rightarrow> bool" where
  "isBlocked referralId ph s \<longleftrightarrow>
     (\<exists>e \<in> set (af_fraud s). fe_referralId e = referralId \<and> fe_phase e = ph \<and> fe_verdict e = Blocked)"

section \<open>Bonus of the referred user\<close>

record affiliate_config =
  cf_matchRate :: rat
  cf_maxReferrals30d :: nat
  cf_maxMatchCredits30d :: int
  cf_newUserBonusRate :: rat

definition default_affiliate_config :: affiliate_config where
  "default_affiliate_config = \<lparr>cf_matchRate = 1, cf_maxReferrals30d = 20, cf_maxMatchCredits30d = 20000,
     cf_newUserBonusRate = fl (1 / 5)\<rparr>"

definition credit_math :: "js_error + 'a \<Rightarrow> ('s, 'a) pay_act" where
  "credit_math r = aquery (\<lambda>_. case r of Inl e \<Rightarrow> Inl (Pay_Credit e) | Inr a \<Rightarrow> Inr a)"

definition affiliate_opts :: "string \<Rightarrow> string \<Rightarrow> credit_opts" where
  "affiliate_opts description ref = no_credit_opts\<lparr>c_description := Some description, c_referenceId := Some ref\<rparr>"

definition bonus_reference :: "string \<Rightarrow> string" where
  "bonus_reference t = ''affiliate-bonus:'' @ t"

definition bonus_opts :: "string \<Rightarrow> rat \<Rightarrow> credit_opts" where
  "bonus_opts referred rate = affiliate_opts
     (''New user first-purchase bonus ('' @ decimal (nat (js_round (js_mul rate 100))) @ ''%)'')
     (bonus_reference referred)"

definition grant_bonus :: "string \<Rightarrow> credit \<Rightarrow> rat \<Rightarrow> ('s, credit option) aff_act" where
  "grant_bonus referred purchase rate =
     abind (credit_math (multiply purchase rate)) (\<lambda>bonus.
     if isZero bonus \<or> isNegative bonus then areturn None
     else abind (markFirstPurchase referred) (\<lambda>_.
       abind (ledger_call (credit referred bonus Affiliate_Bonus (bonus_opts referred rate))) (\<lambda>_.
       areturn (Some bonus))))"

definition grantNewUserBonus :: "string \<Rightarrow> credit \<Rightarrow> rat \<Rightarrow> ('s, credit option) aff_act" where
  "grantNewUserBonus referred purchase rate =
     abind (aquery (\<lambda>s. Inr (getReferral referred s))) (\<lambda>referral. case referral of
       None \<Rightarrow> areturn None
     | Some r \<Rightarrow>
         if rf_firstPurchaseAt r \<noteq> None then areturn None
         else abind (has_reference (bonus_reference referred)) (\<lambda>seen.
           if seen then areturn None else grant_bonus referred purchase rate))"

section \<open>Match of the referrer\<close>

record fraud_deps =
  fd_referrerIp :: "string option"
  fd_referrerEmail :: "string option"
  fd_referrerStripe :: "string option"
  fd_referredStripe :: "string option"

definition match_reference :: "string \<Rightarrow> string" where
  "match_reference t = ''affiliate_match:'' @ t"

definition purchase_history :: "string \<Rightarrow> ('s, journal_entry list) pay_act" where
  "purchase_history t = aquery (\<lambda>s. case history t \<lparr>h_limit = Some 2, h_offset = None, h_type = Some ''purchase''\<rparr> (y_db s) of
     Inl e \<Rightarrow> Inl (Pay_Ledger e) | Inr es \<Rightarrow> Inr es)"

definition match_bundle :: "fraud_deps \<Rightarrow> string \<Rightarrow> referral_row \<Rightarrow> 's affiliates_scheme \<Rightarrow> fraud_bundle" where
  "match_bundle d tenantId r s = \<lparr>fb_referrerTenantId = rf_referrerTenantId r, fb_referredTenantId = tenantId,
     fb_referralId = rf_id r, fb_referredIp = rf_signupIp r, fb_referredEmail = rf_signupEmail r,
     fb_existing = map (\<lambda>x. (rf_referredTenantId x, rf_signupIp x, rf_signupEmail x))
       (filter (\<lambda>x. rf_referredTenantId x \<noteq> tenantId) (listByReferrer (rf_referrerTenantId r) s)),
     fb_referrerIp = fd_referrerIp d, fb_referrerEmail = fd_referrerEmail d,
     fb_referrerStripe = fd_referrerStripe d, fb_referredStripe = fd_referredStripe d\<rparr>"

definition fraud_check :: "fraud_deps option \<Rightarrow> string \<Rightarrow> referral_row \<Rightarrow> ('s, bool) aff_act" where
  "fraud_check fraud tenantId r = (case fraud of None \<Rightarrow> areturn False | Some d \<Rightarrow>
     abind (aquery (\<lambda>s. Inr (checkSelfReferral (match_bundle d tenantId r s)))) (\<lambda>res.
     abind (awhen (fr_verdict res \<noteq> Clean) (record_fraud \<lparr>fe_referralId = rf_id r,
        fe_referrerTenantId = rf_referrerTenantId r, fe_referredTenantId = tenantId, fe_verdict = fr_verdict res,
        fe_signals = fr_signals res, fe_signalDetails = fr_signalDetails res, fe_phase = Payout, fe_createdAt = 0\<rparr>))
     (\<lambda>_. areturn (fr_verdict res = Blocked))))"

definition suppress :: "string \<Rightarrow> string \<Rightarrow> ('s, 'a option) aff_act" where
  "suppress tenantId reason =
     abind (recordSuppression tenantId reason) (\<lambda>_. abind (markFirstPurchase tenantId) (\<lambda>_. areturn None))"

definition match_opts :: "string \<Rightarrow> credit_opts" where
  "match_opts tenantId = affiliate_opts (''Affiliate match for referred tenant '' @ tenantId) (match_reference tenantId)"

definition record_payout :: "string \<Rightarrow> string \<Rightarrow> credit \<Rightarrow> ('s, (string \<times> credit) option) aff_act" where
  "record_payout tenantId referrer amt = abind (markFirstPurchase tenantId) (\<lambda>_.
     abind (recordMatch tenantId amt) (\<lambda>_. areturn (Some (referrer, amt))))"

definition pay_match :: "affiliate_config \<Rightarrow> string \<Rightarrow> credit \<Rightarrow> string \<Rightarrow> ('s, (string \<times> credit) option) aff_act" where
  "pay_match cfg tenantId purchase referrer =
     abind (has_reference (match_reference tenantId)) (\<lambda>seen.
     if seen then areturn None else
     abind (credit_math (multiply purchase (cf_matchRate cfg))) (\<lambda>amt.
     if isZero amt \<or> isNegative amt then areturn None
     else abind (ledger_call (credit referrer amt Affiliate_Match (match_opts tenantId))) (\<lambda>_.
       record_payout tenantId referrer amt)))"

definition processAffiliateCreditMatch ::
  "affiliate_config \<Rightarrow> fraud_deps option \<Rightarrow> string \<Rightarrow> credit \<Rightarrow> ('s, (string \<times> credit) option) aff_act" where
  "processAffiliateCreditMatch cfg fraud tenantId purchase =
     abind (aquery (\<lambda>s. Inr (getReferral tenantId s))) (\<lambda>referral. case referral of
       None \<Rightarrow> areturn None
     | Some r \<Rightarrow>
         if rf_matchedAt r \<noteq> None then areturn None else
         abind (purchase_history tenantId) (\<lambda>es.
         if length es \<noteq> 1 then areturn None else
         abind (fraud_check fraud tenantId r) (\<lambda>blocked.
         if blocked then areturn None else
         abind (aquery (\<lambda>s. Inr (getPayoutCount30d (rf_referrerTenantId r) s, getPayoutTotal30d (rf_referrerTenantId r) s)))
           (\<lambda>(payoutCount, payoutTotal).
            if cf_maxReferrals30d cfg \<le> payoutCount then suppress tenantId ''velocity_cap_referrals''
            else if cf_maxMatchCredits30d cfg \<le> payoutTotal then suppress tenantId ''velocity_cap_credits''
            else pay_match cfg tenantId purchase (rf_referrerTenantId r)))))"

section \<open>The monthly cap\<close>

lemma base36_digits: "c \<in> set (base36 n) \<Longrightarrow> c \<in> char_of ` ({48..<58} \<union> {97..<123 :: nat})"
proof (induction n rule: base36.induct)
  case (1 n)
  have d: "base36_digit m \<in> char_of ` ({48..<58} \<union> {97..<123 :: nat})" if "m < 36" for m
  proof (cases "m < 10")
    case True
    then have "48 + m \<in> {48..<58} \<union> {97..<123 :: nat}" by simp
    then show ?thesis using True by (metis base36_digit_def imageI)
  next
    case False
    then have "87 + m \<in> {48..<58} \<union> {97..<123 :: nat}" using that by simp
    then show ?thesis using False by (metis base36_digit_def imageI)
  qed
  show ?case using 1 d[of n] d[of "n mod 36"] by (subst (asm) (2) base36.simps) (auto split: if_splits)
qed

text \<open>A generated code is six lower-case letters or digits, whatever was drawn.\<close>

lemma generateCode_shape:
  "length (generateCode n) = 6 \<and> set (generateCode n) \<subseteq> char_of ` ({48..<58} \<union> {97..<123 :: nat})"
proof -
  define D where "D = char_of ` ({48..<58} \<union> {97..<123 :: nat})"
  have "set (take 6 (base36 n)) \<subseteq> D"
    using base36_digits set_take_subset unfolding D_def by fast
  moreover have "CHR ''0'' \<in> D"
    unfolding D_def by (rule image_eqI[of _ _ 48]) code_simp+
  ultimately show ?thesis
    unfolding D_def[symmetric] by (auto simp: generateCode_def padEnd_def CODE_LENGTH_def min_def)
qed

lemma count_update:
  assumes "\<And>r. P (f r) \<Longrightarrow> P r"
  shows "length (filter P (map (\<lambda>r. if k r = t then f r else r) rs)) \<le> length (filter P rs)"
  using assms by (induction rs) auto

lemma filter_update_other:
  assumes "\<And>r. r \<in> set rs \<Longrightarrow> k r = t \<Longrightarrow> \<not> P r \<and> \<not> P (f r)"
  shows "filter P (map (\<lambda>r. if k r = t then f r else r) rs) = filter P rs"
  using assms by (induction rs) auto

lemma count_update_one:
  assumes "distinct (map k rs)"
  shows "length (filter P (map (\<lambda>r. if k r = t then f r else r) rs)) \<le> length (filter P rs) + 1"
  using assms
proof (induction rs)
  case Nil
  then show ?case by simp
next
  case (Cons r rs)
  show ?case
  proof (cases "k r = t")
    case True
    then have "map (\<lambda>r. if k r = t then f r else r) rs = rs" using Cons.prems by (intro map_idI) (force simp: image_iff)
    then show ?thesis by simp
  qed (use Cons in auto)
qed

definition capped :: "nat \<Rightarrow> 's affiliates_scheme \<Rightarrow> bool" where
  "capped n s \<longleftrightarrow> distinct (map rf_referredTenantId (af_referrals s)) \<and> (\<forall>q. getPayoutCount30d q s \<le> n)"

lemma capped_cong:
  "af_referrals s' = af_referrals s \<Longrightarrow> y_now s' = y_now s \<Longrightarrow> capped n s' = capped n s"
  by (simp add: capped_def getPayoutCount30d_def)

lemma update_referral_simps [simp]:
  "af_referrals (update_referral t f s) = map (\<lambda>r. if rf_referredTenantId r = t then f r else r) (af_referrals s)"
  "y_now (update_referral t f s) = y_now s" "y_db (update_referral t f s) = y_db s"
  by (simp_all add: update_referral_def)

lemma distinct_update:
  assumes "\<And>r. k (f r) = k r"
  shows "map k (map (\<lambda>r. if k r = t then f r else r) rs) = map k rs"
  using assms by (induction rs) auto

lemma distinct_referrals:
  assumes "\<And>r. rf_referredTenantId (f r) = rf_referredTenantId r"
  shows "distinct (map rf_referredTenantId (af_referrals (update_referral t f s)))
    = distinct (map rf_referredTenantId (af_referrals s))"
  using distinct_update[of rf_referredTenantId f t "af_referrals s", OF assms] by (simp only: update_referral_simps)

lemma capped_update:
  assumes "capped n s" "\<And>r. rf_referredTenantId (f r) = rf_referredTenantId r"
    and "\<And>q r. paid_out q (y_now s) (f r) \<Longrightarrow> paid_out q (y_now s) r"
  shows "capped n (update_referral t f s)"
  unfolding capped_def
proof
  show "distinct (map rf_referredTenantId (af_referrals (update_referral t f s)))"
    using assms(1) by (simp only: distinct_referrals[OF assms(2)] capped_def)
  have "getPayoutCount30d q (update_referral t f s) \<le> getPayoutCount30d q s" for q
    unfolding getPayoutCount30d_def update_referral_simps
    by (rule count_update[of "paid_out q (y_now s)" f rf_referredTenantId t "af_referrals s"]) (rule assms(3))
  then show "\<forall>q. getPayoutCount30d q (update_referral t f s) \<le> n"
    using assms(1) by (meson capped_def le_trans)
qed

lemma capped_mark: "capped n s \<Longrightarrow> capped n (snd (markFirstPurchase t s))"
  by (auto simp: markFirstPurchase_def amodify_def paid_out_def intro!: capped_update)

lemma capped_suppress: "capped n s \<Longrightarrow> capped n (snd (suppress t reason s))"
  by (auto simp: suppress_def recordSuppression_def abind_def amodify_def areturn_def markFirstPurchase_def paid_out_def
      intro!: capped_update)

lemma capped_match:
  assumes "capped n s" "getReferral t s = Some r" "getPayoutCount30d (rf_referrerTenantId r) s < n"
  shows "capped n (snd (recordMatch t amt s))"
proof -
  let ?f = "\<lambda>x. if rf_matchedAt x = None
    then x\<lparr>rf_matchAmountCents := Some (toCentsRounded amt), rf_matchedAt := Some (y_now s)\<rparr> else x"
  have "getPayoutCount30d q (update_referral t ?f s) \<le> n" for q
  proof (cases "q = rf_referrerTenantId r")
    case True
    then show ?thesis
      using assms count_update_one[of rf_referredTenantId "af_referrals s" "paid_out q (y_now s)" t ?f]
      by (simp add: capped_def getPayoutCount30d_def)
  next
    case False
    have "rf_referrerTenantId x = rf_referrerTenantId r" if "x \<in> set (af_referrals s)" "rf_referredTenantId x = t" for x
    proof -
      have "r \<in> set (af_referrals s)" "rf_referredTenantId r = t"
        using find_Some_set[OF assms(2)[unfolded getReferral_def]] by auto
      then have "x = r" using assms(1) that by (auto simp: capped_def distinct_map dest: inj_onD)
      then show ?thesis by simp
    qed
    then have "filter (paid_out q (y_now s)) (map (\<lambda>x. if rf_referredTenantId x = t then ?f x else x) (af_referrals s))
        = filter (paid_out q (y_now s)) (af_referrals s)"
      using False by (intro filter_update_other) (auto simp: paid_out_def)
    then show ?thesis using assms(1) by (simp add: capped_def getPayoutCount30d_def)
  qed
  moreover have "distinct (map rf_referredTenantId (af_referrals (update_referral t ?f s)))"
    using assms(1) by (subst distinct_referrals) (simp_all add: capped_def)
  ultimately have "capped n (update_referral t ?f s)" by (simp add: capped_def)
  then show ?thesis using assms(1) by (simp add: recordMatch_def)
qed

lemma find_map_if:
  assumes "\<And>r. k (f r) = k r"
  shows "find (\<lambda>r. k r = q) (map (\<lambda>r. if k r = t then f r else r) rs)
    = map_option (\<lambda>r. if k r = t then f r else r) (find (\<lambda>r. k r = q) rs)"
  using assms by (induction rs) auto

lemma referral_update:
  assumes "\<And>r. rf_referredTenantId (f r) = rf_referredTenantId r" "\<And>r. rf_referrerTenantId (f r) = rf_referrerTenantId r"
    and "getReferral q s = Some r"
  shows "\<exists>r'. getReferral q (update_referral t f s) = Some r' \<and> rf_referrerTenantId r' = rf_referrerTenantId r"
  using assms find_map_if[of rf_referredTenantId f q t "af_referrals s"] by (auto simp: getReferral_def)

lemma referral_mark:
  "getReferral q s = Some r \<Longrightarrow> \<exists>r'. getReferral q (snd (markFirstPurchase t s)) = Some r'
    \<and> rf_referrerTenantId r' = rf_referrerTenantId r"
  unfolding markFirstPurchase_def amodify_def snd_conv by (rule referral_update) auto

lemma fraud_check_frame:
  "af_referrals (snd (fraud_check fraud t r s)) = af_referrals s" "y_now (snd (fraud_check fraud t r s)) = y_now s"
  "y_db (snd (fraud_check fraud t r s)) = y_db s"
  by (auto simp: fraud_check_def act_defs record_fraud_def Let_def split: option.splits)

lemma count_mark: "getPayoutCount30d q (snd (markFirstPurchase t s)) \<le> getPayoutCount30d q s"
  unfolding getPayoutCount30d_def markFirstPurchase_def amodify_def snd_conv update_referral_simps
  by (rule count_update) (auto simp: paid_out_def split: if_splits)

lemma ledger_call_frame:
  fixes s :: "'s affiliates_scheme"
  shows "af_referrals (snd (ledger_call tx s)) = af_referrals s" "y_now (snd (ledger_call tx s)) = y_now s"
  by (auto simp: ledger_call_def atomically_def split: sum.splits prod.splits)

lemma capped_payout:
  assumes "capped n s" "getReferral t s = Some r" "getPayoutCount30d (rf_referrerTenantId r) s < n"
  shows "capped n (snd (record_payout t q amt s))"
proof -
  let ?s3 = "snd (markFirstPurchase t s)"
  obtain r' where "getReferral t ?s3 = Some r'" "rf_referrerTenantId r' = rf_referrerTenantId r"
    using referral_mark[OF assms(2)] by blast
  then have "capped n (snd (recordMatch t amt ?s3))"
    using capped_mark[OF assms(1)] assms(3) count_mark[of "rf_referrerTenantId r" t s]
    by (intro capped_match) auto
  then show ?thesis
    by (auto simp: record_payout_def abind_def markFirstPurchase_def amodify_def areturn_def split: prod.splits sum.splits)
qed

lemma capped_pay_match:
  assumes c: "capped n s" "getReferral t s = Some r" "getPayoutCount30d (rf_referrerTenantId r) s < n"
  shows "capped n (snd (pay_match cfg t p (rf_referrerTenantId r) s))"
proof (cases "hasReferenceId (match_reference t) (y_db s)")
  case True
  then show ?thesis using c(1) by (simp add: pay_match_def abind_def has_reference_def aquery_def areturn_def)
next
  case False
  show ?thesis
  proof (cases "multiply p (cf_matchRate cfg)")
    case (Inl e)
    then show ?thesis using c(1) False
      by (simp add: pay_match_def abind_def has_reference_def aquery_def credit_math_def)
  next
    case (Inr amt)
    obtain e s2 where l: "ledger_call (credit (rf_referrerTenantId r) amt Affiliate_Match (match_opts t)) s = (e, s2)"
      by fastforce
    then have s2: "af_referrals s2 = af_referrals s" "y_now s2 = y_now s" using ledger_call_frame by (metis snd_conv)+
    then have "capped n s2" "getReferral t s2 = Some r" "getPayoutCount30d (rf_referrerTenantId r) s2 < n"
      using c capped_cong[OF s2] by (simp_all add: getReferral_def getPayoutCount30d_def)
    then have "capped n s2" "capped n (snd (record_payout t (rf_referrerTenantId r) amt s2))"
      using capped_payout by blast+
    then show ?thesis using False Inr l c(1)
      by (cases e) (auto simp: pay_match_def abind_def has_reference_def aquery_def credit_math_def areturn_def)
  qed
qed

lemma capped_process:
  assumes "capped (cf_maxReferrals30d cfg) s"
  shows "capped (cf_maxReferrals30d cfg) (snd (processAffiliateCreditMatch cfg fraud t p s))"
proof (cases "getReferral t s")
  case None
  then show ?thesis using assms by (simp add: processAffiliateCreditMatch_def abind_def aquery_def areturn_def)
next
  case (Some r)
  obtain b s1 where f: "fraud_check fraud t r s = (b, s1)" by fastforce
  then have s1: "af_referrals s1 = af_referrals s" "y_now s1 = y_now s" using fraud_check_frame[of fraud t r s] by simp_all
  then have c1: "capped (cf_maxReferrals30d cfg) s1" "getReferral t s1 = Some r"
    using assms Some capped_cong[OF s1] by (simp_all add: getReferral_def)
  obtain h where "purchase_history t s = (h, s)" by (simp add: purchase_history_def aquery_def)
  then have "snd (processAffiliateCreditMatch cfg fraud t p s) = s
    \<or> snd (processAffiliateCreditMatch cfg fraud t p s) = s1
    \<or> (\<exists>reason. snd (processAffiliateCreditMatch cfg fraud t p s)
        = snd ((suppress t reason :: ('a, (string \<times> credit) option) aff_act) s1))
    \<or> getPayoutCount30d (rf_referrerTenantId r) s1 < cf_maxReferrals30d cfg
      \<and> snd (processAffiliateCreditMatch cfg fraud t p s) = snd (pay_match cfg t p (rf_referrerTenantId r) s1)"
    using Some f by (cases h; cases b) (auto simp: processAffiliateCreditMatch_def abind_def aquery_def areturn_def)
  then show ?thesis using assms c1 capped_suppress[OF c1(1)] capped_pay_match[OF c1] by auto
qed

text \<open>What may happen to the programme: purchases, referrals, ledger activity and the passing of time.\<close>

inductive affiliate_step :: "affiliate_config \<Rightarrow> affiliates \<Rightarrow> affiliates \<Rightarrow> bool" for cfg where
  step_match: "affiliate_step cfg s (snd (processAffiliateCreditMatch cfg fraud t p s))"
| step_bonus: "affiliate_step cfg s (snd (grantNewUserBonus t p rate s))"
| step_refer: "affiliate_step cfg s (snd (recordReferral i referrer referred code ip email s))"
| step_code: "affiliate_step cfg s (snd (getStats t randoms s))"
| step_ledger: "ledger_step (y_db s) d \<Longrightarrow> affiliate_step cfg s (s\<lparr>y_db := d\<rparr>)"
| step_time: "y_now s \<le> now \<Longrightarrow> affiliate_step cfg s (s\<lparr>y_now := now\<rparr>)"

lemma capped_grant:
  assumes "capped n s"
  shows "capped n (snd (grant_bonus t p rate s))"
proof (cases "multiply p rate")
  case (Inl e)
  then show ?thesis using assms by (simp add: grant_bonus_def abind_def credit_math_def aquery_def)
next
  case (Inr amt)
  obtain s1 where m: "(markFirstPurchase t :: ('a, unit) aff_act) s = (Inr (), s1)"
    by (simp add: markFirstPurchase_def amodify_def)
  then have c1: "capped n s1" using capped_mark[OF assms, of t] by simp
  obtain e s2 where l: "ledger_call (credit t amt Affiliate_Bonus (bonus_opts t rate)) s1 = (e, s2)" by fastforce
  then have "af_referrals s2 = af_referrals s1" "y_now s2 = y_now s1" using ledger_call_frame by (metis snd_conv)+
  then have "capped n s2" using c1 capped_cong by blast
  then show ?thesis using Inr m l assms
    by (cases e) (simp_all add: grant_bonus_def abind_def credit_math_def aquery_def areturn_def)
qed

lemma capped_bonus: "capped n s \<Longrightarrow> capped n (snd (grantNewUserBonus t p rate s))"
  using capped_grant[of n s t p rate]
  by (auto simp: grantNewUserBonus_def abind_def aquery_def areturn_def has_reference_def split: option.splits)

lemma capped_refer: "capped n s \<Longrightarrow> capped n (snd (recordReferral i a b code ip email s))"
  by (auto simp: recordReferral_def capped_def getPayoutCount30d_def paid_out_def)

lemma read_back_frame: "snd (read_back t msg s) = s"
  by (simp add: read_back_def aquery_def)

lemma code_attempts_frame:
  "af_referrals (snd (code_attempts t ns s)) = af_referrals s \<and> y_now (snd (code_attempts t ns s)) = y_now s"
  by (induction ns arbitrary: s) (auto simp: read_back_frame abind_def insert_code_def)

lemma getStats_frame:
  "af_referrals (snd (getStats t ns s)) = af_referrals s" "y_now (snd (getStats t ns s)) = y_now s"
  using code_attempts_frame[of t "take MAX_CODE_ATTEMPTS ns" s]
  by (auto simp: getStats_def getOrCreateCode_def abind_def aquery_def areturn_def Let_def split: option.splits sum.splits prod.splits)

lemma capped_time:
  assumes "capped n s" "y_now s \<le> now"
  shows "capped n (s\<lparr>y_now := now\<rparr>)"
proof -
  have "length (filter (paid_out q now) rs) \<le> length (filter (paid_out q (y_now s)) rs)" for q rs
    using assms(2) by (induction rs) (auto simp: paid_out_def split: option.splits)
  then show ?thesis using assms(1) by (auto simp: capped_def getPayoutCount30d_def intro: le_trans)
qed

lemma capped_step: "affiliate_step cfg s s' \<Longrightarrow> capped (cf_maxReferrals30d cfg) s \<Longrightarrow> capped (cf_maxReferrals30d cfg) s'"
proof (induction rule: affiliate_step.induct)
  case (step_code s t randoms)
  then show ?case using capped_cong[of "snd (getStats t randoms s)" s] getStats_frame by blast
next
  case (step_ledger s d)
  then show ?case using capped_cong[of "s\<lparr>y_db := d\<rparr>" s] by simp
qed (simp_all add: capped_process capped_bonus capped_refer capped_time)

text \<open>C21: In the affiliate programme, no referrer ever has more paid matches within thirty days than the configured
  maximum: from an empty programme, whatever purchases, referrals, ledger activity and passing of time
  come one after the other, the count of payouts of the last thirty days stays within the cap.\<close>

theorem payouts_capped:
  assumes "(affiliate_step cfg)\<^sup>*\<^sup>* s s'" "af_referrals s = []"
  shows "getPayoutCount30d q s' \<le> cf_maxReferrals30d cfg"
proof -
  have "capped (cf_maxReferrals30d cfg) s" using assms(2) by (simp add: capped_def getPayoutCount30d_def)
  with assms(1) have "capped (cf_maxReferrals30d cfg) s'" by (induction rule: rtranclp_induct) (auto intro: capped_step)
  then show ?thesis by (simp add: capped_def)
qed

definition new_programme :: affiliates where
  "new_programme = \<lparr>y_db = funded, y_bots = \<lparr>bl_bots = [], bl_sent = []\<rparr>, y_seen = [], y_now = 5,
     af_codes = [], af_referrals = [], af_fraud = []\<rparr>"

definition one_referral :: affiliates where
  "one_referral = snd (recordReferral 0 ''ann'' ''a'' ''abc123'' None None new_programme)"

theorem payouts_capped_witness:
  "getPayoutCount30d ''ann'' (snd (processAffiliateCreditMatch default_affiliate_config None ''a'' (Credit 500) one_referral)) \<le> 20"
proof -
  have "(affiliate_step default_affiliate_config)\<^sup>*\<^sup>* new_programme
      (snd (processAffiliateCreditMatch default_affiliate_config None ''a'' (Credit 500) one_referral))"
    unfolding one_referral_def by (rule rtranclp.rtrancl_into_rtrancl[OF r_into_rtranclp]) (rule step_refer, rule step_match)
  from payouts_capped[OF this, of "''ann''"] show ?thesis by (simp add: new_programme_def default_affiliate_config_def)
qed

section \<open>A match is paid once\<close>

lemma frame_db [simp]:
  "y_db (snd (markFirstPurchase t s)) = y_db s" "y_db (snd (recordMatch t amt s)) = y_db s"
  "y_db (snd (suppress t reason s)) = y_db s"
  by (simp_all add: markFirstPurchase_def amodify_def recordMatch_def suppress_def recordSuppression_def abind_def areturn_def)

lemma payout_db: "y_db (snd (record_payout t q amt s)) = y_db s"
  by (simp add: record_payout_def abind_def markFirstPurchase_def amodify_def areturn_def recordMatch_def)

text \<open>Once the match of a tenant is in the ledger, no purchase of the tenant changes the ledger again.\<close>

lemma process_after_reference:
  assumes "hasReferenceId (match_reference t) (y_db s)"
  shows "y_db (snd (processAffiliateCreditMatch cfg fraud t p s)) = y_db s"
proof (cases "getReferral t s")
  case None
  then show ?thesis by (simp add: processAffiliateCreditMatch_def abind_def aquery_def areturn_def)
next
  case (Some r)
  obtain b s1 where f: "fraud_check fraud t r s = (b, s1)" by fastforce
  then have s1: "y_db s1 = y_db s" using fraud_check_frame(3)[of fraud t r s] by simp
  have m: "y_db (snd (pay_match cfg t p q s1)) = y_db s" for q
    using assms s1 by (simp add: pay_match_def abind_def has_reference_def aquery_def areturn_def)
  obtain h where "purchase_history t s = (h, s)" by (simp add: purchase_history_def aquery_def)
  then show ?thesis using Some f s1 m
    by (cases h; cases b) (auto simp: processAffiliateCreditMatch_def abind_def aquery_def areturn_def)
qed

lemma process_Some:
  assumes "processAffiliateCreditMatch cfg fraud t p s = (Inr (Some x), s')"
  obtains r s1 where "getReferral t s = Some r" "rf_matchedAt r = None" "y_db s1 = y_db s" "af_referrals s1 = af_referrals s"
    "y_now s1 = y_now s" "getPayoutCount30d (rf_referrerTenantId r) s < cf_maxReferrals30d cfg"
    "pay_match cfg t p (rf_referrerTenantId r) s1 = (Inr (Some x), s')"
proof (cases "getReferral t s")
  case None
  then show ?thesis using assms by (simp add: processAffiliateCreditMatch_def abind_def aquery_def areturn_def)
next
  case (Some r)
  obtain b s1 where f: "fraud_check fraud t r s = (b, s1)" by fastforce
  then have s1: "y_db s1 = y_db s" "af_referrals s1 = af_referrals s" "y_now s1 = y_now s"
    using fraud_check_frame[of fraud t r s] by simp_all
  then have c: "getPayoutCount30d q s1 = getPayoutCount30d q s" for q by (simp add: getPayoutCount30d_def)
  obtain h where "purchase_history t s = (h, s)" by (simp add: purchase_history_def aquery_def)
  moreover have "suppress t reason s1 \<noteq> (Inr (Some x), s')" for reason
    by (simp add: suppress_def recordSuppression_def markFirstPurchase_def amodify_def abind_def areturn_def)
  ultimately show ?thesis using assms Some f s1 c
    by (cases h; cases b) (auto simp: processAffiliateCreditMatch_def abind_def aquery_def areturn_def split: if_splits intro: that)
qed

lemma pay_match_Some:
  assumes "pay_match cfg t p q s = (Inr (Some x), s')"
  obtains amt je d s3 where "multiply p (cf_matchRate cfg) = Inr amt" "0 < toRaw amt" "x = (q, amt)"
    "credit q amt Affiliate_Match (match_opts t) (y_db s) = Inr (je, d)" "y_db s' = d"
    "record_payout t q amt (s\<lparr>y_db := d\<rparr>) = (Inr (Some x), s')"
proof (cases "multiply p (cf_matchRate cfg)")
  case (Inl e)
  then show ?thesis using assms
    by (auto simp: pay_match_def abind_def has_reference_def aquery_def credit_math_def areturn_def split: if_splits)
next
  case (Inr amt)
  have nz: "\<not> (isZero amt \<or> isNegative amt)" and nr: "\<not> hasReferenceId (match_reference t) (y_db s)"
    using assms Inr by (auto simp: pay_match_def abind_def has_reference_def aquery_def credit_math_def areturn_def split: if_splits)
  obtain je d where c: "credit q amt Affiliate_Match (match_opts t) (y_db s) = Inr (je, d)"
    using assms Inr nz nr
    by (cases "credit q amt Affiliate_Match (match_opts t) (y_db s)")
      (auto simp: pay_match_def abind_def has_reference_def aquery_def credit_math_def ledger_call_def atomically_def)
  have p: "record_payout t q amt (s\<lparr>y_db := d\<rparr>) = (Inr (Some x), s')"
    using assms Inr nz nr c
    by (simp add: pay_match_def abind_def has_reference_def aquery_def credit_math_def ledger_call_def atomically_def)
  moreover from p have "x = (q, amt)"
    by (auto simp: record_payout_def abind_def markFirstPurchase_def amodify_def areturn_def split: sum.splits prod.splits)
  moreover from p have "y_db s' = d" using payout_db[of t q amt "s\<lparr>y_db := d\<rparr>"] by simp
  ultimately show ?thesis using that Inr c nz by (auto simp: isZero_def isNegative_def)
qed

lemma getReferral_update:
  assumes "\<And>r. rf_referredTenantId (f r) = rf_referredTenantId r"
  shows "getReferral q (update_referral t f s) = map_option (\<lambda>r. if rf_referredTenantId r = t then f r else r) (getReferral q s)"
  using find_map_if[of rf_referredTenantId f q t "af_referrals s", OF assms] by (simp add: getReferral_def)

lemma record_payout_row:
  assumes "record_payout t q amt s = (Inr x, s')" "getReferral t s = Some r" "rf_matchedAt r = None"
  shows "\<exists>r'. getReferral t s' = Some r' \<and> rf_matchedAt r' = Some (y_now s)
    \<and> rf_matchAmountCents r' = Some (toCentsRounded amt)"
proof -
  let ?f = "\<lambda>r. if rf_firstPurchaseAt r = None then r\<lparr>rf_firstPurchaseAt := Some (y_now s)\<rparr> else r"
  let ?g = "\<lambda>r. if rf_matchedAt r = None
    then r\<lparr>rf_matchAmountCents := Some (toCentsRounded amt), rf_matchedAt := Some (y_now s)\<rparr> else r"
  have t: "rf_referredTenantId r = t" using find_Some_set[OF assms(2)[unfolded getReferral_def]] by simp
  have "s' = update_referral t ?g (update_referral t ?f s)"
    using assms(1) by (auto simp: record_payout_def abind_def markFirstPurchase_def amodify_def recordMatch_def
        areturn_def split: if_splits cong: if_cong)
  then have "getReferral t s' = Some (?g (?f r))"
    using assms(2) t by (simp add: getReferral_update)
  then show ?thesis using assms(3) by simp
qed

text \<open>A paid affiliate match is exact and final. When the match of a tenant's first purchase is paid, it goes to
  the recorded referrer, who was below the monthly cap; the amount is the purchase times the match rate
  and positive, the balance of the referrer grows by exactly that amount, and the referral is marked
  matched with its value in cents. No later purchase of the tenant changes the ledger again.\<close>

theorem match_paid_once:
  assumes run: "processAffiliateCreditMatch cfg fraud t p s = (Inr (Some (q, amt)), s')" and l: "ledger_reachable (y_db s)"
  shows "multiply p (cf_matchRate cfg) = Inr amt \<and> 0 < toRaw amt
    \<and> getPayoutCount30d q s < cf_maxReferrals30d cfg
    \<and> stored_balance (tenant_code q) (y_db s') = stored_balance (tenant_code q) (y_db s) + toRaw amt
    \<and> (\<exists>r. getReferral t s = Some r \<and> rf_referrerTenantId r = q \<and> rf_matchedAt r = None)
    \<and> (\<exists>r. getReferral t s' = Some r \<and> rf_matchedAt r = Some (y_now s)
        \<and> rf_matchAmountCents r = Some (toCentsRounded amt))
    \<and> (\<forall>u cfg' fraud' p'. ledger_step\<^sup>*\<^sup>* (y_db s') (y_db u)
        \<longrightarrow> y_db (snd (processAffiliateCreditMatch cfg' fraud' t p' (u :: 'a affiliates_scheme))) = y_db u)"
proof -
  obtain r s1 where r: "getReferral t s = Some r" "rf_matchedAt r = None" "y_db s1 = y_db s" "af_referrals s1 = af_referrals s"
      "y_now s1 = y_now s" "getPayoutCount30d (rf_referrerTenantId r) s < cf_maxReferrals30d cfg"
      "pay_match cfg t p (rf_referrerTenantId r) s1 = (Inr (Some (q, amt)), s')"
    using process_Some[OF run] .
  obtain amt' je d where m: "multiply p (cf_matchRate cfg) = Inr amt'" "0 < toRaw amt'" "(q, amt) = (rf_referrerTenantId r, amt')"
      "credit (rf_referrerTenantId r) amt' Affiliate_Match (match_opts t) (y_db s1) = Inr (je, d)" "y_db s' = d"
      "record_payout t (rf_referrerTenantId r) amt' (s1\<lparr>y_db := d\<rparr>) = (Inr (Some (q, amt)), s')"
    using pay_match_Some[OF r(7)] .
  have credited: "credit q amt Affiliate_Match (match_opts t) (y_db s) = Inr (je, y_db s')" using m r(3) by simp
  have "getReferral t (s1\<lparr>y_db := d\<rparr>) = Some r" using r(1,4) by (simp add: getReferral_def)
  from record_payout_row[OF m(6) this r(2)]
  have "\<exists>r. getReferral t s' = Some r \<and> rf_matchedAt r = Some (y_now s) \<and> rf_matchAmountCents r = Some (toCentsRounded amt)"
    using m(3) r(5) by auto
  moreover have "match_opts t = (match_opts t)\<lparr>c_referenceId := Some (match_reference t)\<rparr>"
    by (simp add: match_opts_def affiliate_opts_def)
  then have ref: "hasReferenceId (match_reference t) (y_db s')" "ledger_reachable (y_db s')"
    using credit_reference[of q amt Affiliate_Match "match_reference t" "match_opts t" "y_db s" je "y_db s'"]
      reach_step[OF l step_credit[OF credited]] credited reachable_core[OF l] by auto
  have "y_db (snd (processAffiliateCreditMatch cfg' fraud' t p' u)) = y_db u"
    if u: "ledger_step\<^sup>*\<^sup>* (y_db s') (y_db u)" for u :: "'a affiliates_scheme" and cfg' fraud' p'
  proof -
    have "hasReferenceId (match_reference t) (y_db u) \<and> ledger_reachable (y_db u)" using u ref
      by (induction rule: rtranclp_induct) (auto intro: keeps_reference reach_step)
    then show ?thesis by (simp add: process_after_reference)
  qed
  ultimately show ?thesis
    using m(1,2,3) r credit_effect[OF credited reachable_core[OF l], of "tenant_code q"] by auto
qed

theorem match_paid_once_witness:
  "stored_balance (tenant_code ''ann'') (y_db (snd (processAffiliateCreditMatch default_affiliate_config None ''a''
    (Credit 500) one_referral))) = stored_balance (tenant_code ''ann'') (y_db one_referral) + 500"
proof -
  let ?run = "processAffiliateCreditMatch default_affiliate_config None ''a'' (Credit 500) one_referral"
  have "fst ?run = Inr (Some (''ann'', Credit 500))" by code_simp
  then have run: "?run = (Inr (Some (''ann'', Credit 500)), snd ?run)" by (metis prod.collapse)
  have "ledger_reachable (y_db one_referral)"
    using funded_reachable by (simp add: one_referral_def new_programme_def recordReferral_def)
  from match_paid_once[OF run this]
  have "stored_balance (tenant_code ''ann'') (y_db (snd ?run))
    = stored_balance (tenant_code ''ann'') (y_db one_referral) + toRaw (Credit 500)" by blast
  then show ?thesis by (simp only: credit.sel)
qed

end
