(* ===== verification/Promotions.thy ===== *)
theory Promotions
  imports Affiliate
begin

text \<open>
  Promotions (\<open>src/monetization/promotions/\<close>): the promotion, coupon and redemption repositories and
  the engine that grants credits for a purchase, a coupon or a batch. Identifiers are numbers, rows
  come in the order of their insertion, and each call of a repository or of the ledger is one step.
\<close>

section \<open>Tables\<close>

datatype promo_type = Bonus_On_Purchase | Coupon_Fixed | Coupon_Unique | Batch_Grant

datatype promo_status = Promo_Draft | Promo_Scheduled | Promo_Active | Promo_Paused | Promo_Expired | Promo_Cancelled

datatype value_type = Flat_Credits | Percent_Of_Purchase

datatype user_segment = All_Users | New_Users | Existing_Users | Tenant_List

record promotion =
  pr_id :: nat
  pr_name :: string
  pr_type :: promo_type
  pr_status :: promo_status
  pr_startsAt :: "int option"
  pr_endsAt :: "int option"
  pr_valueType :: value_type
  pr_valueAmount :: int
  pr_maxValueCredits :: "int option"
  pr_firstPurchaseOnly :: bool
  pr_minPurchaseCredits :: "int option"
  pr_userSegment :: user_segment
  pr_eligibleTenantIds :: "string list option"
  pr_totalUseLimit :: "int option"
  pr_perUserLimit :: int
  pr_budgetCredits :: "int option"
  pr_totalUses :: int
  pr_totalCreditsGranted :: int
  pr_couponCode :: "string option"
  pr_couponBatchId :: "string option"
  pr_createdBy :: string
  pr_createdAt :: int
  pr_updatedAt :: int
  pr_notes :: "string option"

record coupon =
  cp_id :: nat
  cp_promotionId :: nat
  cp_code :: string
  cp_assignedTenantId :: "string option"
  cp_assignedEmail :: "string option"
  cp_redeemedAt :: "int option"
  cp_redeemedByTenantId :: "string option"

record redemption =
  rd_id :: nat
  rd_promotionId :: nat
  rd_tenantId :: string
  rd_couponCodeId :: "nat option"
  rd_creditsGranted :: int
  rd_creditTransactionId :: uuid
  rd_purchaseAmountCredits :: "int option"
  rd_redeemedAt :: int

record shop = affiliates +
  sh_promotions :: "promotion list"
  sh_coupons :: "coupon list"
  sh_redemptions :: "redemption list"

type_synonym ('s, 'a) shop_act = "('s shop_scheme, pay_error, 'a) act"

section \<open>Promotion repository\<close>

text \<open>A column of four bytes; a number that is no integer is refused as well.\<close>

definition to_integer :: "rat \<Rightarrow> pay_error + int" where
  "to_integer x = (if is_integer x \<and> pg_integer \<lfloor>x\<rfloor> then Inr \<lfloor>x\<rfloor> else Inl (Pay_Out_Of_Range \<lfloor>x\<rfloor>))"

definition create_promotion :: "promotion \<Rightarrow> ('s, promotion) shop_act" where
  "create_promotion input s =
     (let p = input\<lparr>pr_id := length (sh_promotions s), pr_totalUses := 0, pr_totalCreditsGranted := 0,
           pr_createdAt := y_now s, pr_updatedAt := y_now s\<rparr> in
      if pr_couponCode p \<noteq> None \<and> pr_couponCode p \<in> pr_couponCode ` set (sh_promotions s)
      then (Inl (Pay_Exists (the (pr_couponCode p))), s)
      else (Inr p, s\<lparr>sh_promotions := sh_promotions s @ [p]\<rparr>))"

definition promotion_by_id :: "nat \<Rightarrow> 's shop_scheme \<Rightarrow> promotion option" where
  "promotion_by_id i s = find (\<lambda>p. pr_id p = i) (sh_promotions s)"

definition list_promotions :: "promo_status option \<Rightarrow> promo_type option \<Rightarrow> 's shop_scheme \<Rightarrow> promotion list" where
  "list_promotions st ty s = filter (\<lambda>p. (case st of None \<Rightarrow> True | Some x \<Rightarrow> pr_status p = x)
     \<and> (case ty of None \<Rightarrow> True | Some x \<Rightarrow> pr_type p = x)) (sh_promotions s)"

definition listActive :: "promo_type option \<Rightarrow> int \<Rightarrow> 's shop_scheme \<Rightarrow> promotion list" where
  "listActive ty now s = filter (\<lambda>p. pr_status p = Promo_Active
     \<and> (case pr_startsAt p of None \<Rightarrow> True | Some t \<Rightarrow> t \<le> now)
     \<and> (case pr_endsAt p of None \<Rightarrow> True | Some t \<Rightarrow> now \<le> t)
     \<and> (case ty of None \<Rightarrow> True | Some x \<Rightarrow> pr_type p = x)) (sh_promotions s)"

definition findByCouponCode :: "string \<Rightarrow> 's shop_scheme \<Rightarrow> promotion option" where
  "findByCouponCode code s = find (\<lambda>p. pr_couponCode p = Some code) (sh_promotions s)"

definition update_promotion :: "nat \<Rightarrow> (promotion \<Rightarrow> promotion) \<Rightarrow> 's shop_scheme \<Rightarrow> 's shop_scheme" where
  "update_promotion i f s = s\<lparr>sh_promotions :=
     map (\<lambda>p. if pr_id p = i then (f p)\<lparr>pr_updatedAt := y_now s\<rparr> else p) (sh_promotions s)\<rparr>"

definition promotion_updateStatus :: "nat \<Rightarrow> promo_status \<Rightarrow> ('s, unit) shop_act" where
  "promotion_updateStatus i st = amodify (update_promotion i (\<lambda>p. p\<lparr>pr_status := st\<rparr>))"

text \<open>A patch sets the columns of the input, never the counters.\<close>

definition promotion_update :: "nat \<Rightarrow> (promotion \<Rightarrow> promotion) \<Rightarrow> ('s, unit) shop_act" where
  "promotion_update i patch = amodify (update_promotion i (\<lambda>p. (patch p)\<lparr>pr_id := pr_id p,
     pr_totalUses := pr_totalUses p, pr_totalCreditsGranted := pr_totalCreditsGranted p,
     pr_createdAt := pr_createdAt p\<rparr>))"

definition used :: "int \<Rightarrow> promotion \<Rightarrow> promotion" where
  "used n p = p\<lparr>pr_totalUses := pr_totalUses p + 1, pr_totalCreditsGranted := pr_totalCreditsGranted p + n\<rparr>"

definition counters_fit :: "promotion \<Rightarrow> bool" where
  "counters_fit p \<longleftrightarrow> pg_integer (pr_totalUses p) \<and> pg_integer (pr_totalCreditsGranted p)"

definition limit_ok :: "int option \<Rightarrow> int \<Rightarrow> bool" where
  "limit_ok limit n \<longleftrightarrow> (case limit of None \<Rightarrow> True | Some m \<Rightarrow> n \<le> m)"

definition incrementUsageIfAllowed :: "nat \<Rightarrow> int \<Rightarrow> int option \<Rightarrow> int option \<Rightarrow> ('s, bool) shop_act" where
  "incrementUsageIfAllowed i n budget useLimit s =
     (case promotion_by_id i s of
        None \<Rightarrow> (Inr False, s)
      | Some p \<Rightarrow>
          if budget \<noteq> None \<and> \<not> pg_integer (pr_totalCreditsGranted p + n)
            then (Inl (Pay_Out_Of_Range (pr_totalCreditsGranted p + n)), s)
          else if \<not> limit_ok budget (pr_totalCreditsGranted p + n) \<or> \<not> limit_ok useLimit (pr_totalUses p + 1)
            then (Inr False, s)
          else if \<not> counters_fit (used n p) then (Inl (Pay_Out_Of_Range (pr_totalCreditsGranted p + n)), s)
          else (Inr True, update_promotion i (used n) s))"

definition incrementUsageIfBudgetAllows :: "nat \<Rightarrow> int \<Rightarrow> int option \<Rightarrow> ('s, bool) shop_act" where
  "incrementUsageIfBudgetAllows i n budget = incrementUsageIfAllowed i n budget None"

definition incrementUsage :: "nat \<Rightarrow> int \<Rightarrow> ('s, unit) shop_act" where
  "incrementUsage i n = abind (incrementUsageIfAllowed i n None None) (\<lambda>_. areturn ())"

section \<open>Coupon repository\<close>

fun insert_coupons :: "nat \<Rightarrow> (string \<times> string option \<times> string option) list \<Rightarrow> coupon list \<Rightarrow> pay_error + coupon list" where
  "insert_coupons promotionId [] cs = Inr cs"
| "insert_coupons promotionId ((code, tenant, email) # xs) cs =
     (if code \<in> cp_code ` set cs then Inl (Pay_Exists code)
      else insert_coupons promotionId xs (cs @ [\<lparr>cp_id = length cs, cp_promotionId = promotionId, cp_code = code,
        cp_assignedTenantId = tenant, cp_assignedEmail = email, cp_redeemedAt = None, cp_redeemedByTenantId = None\<rparr>]))"

definition createBatch :: "nat \<Rightarrow> (string \<times> string option \<times> string option) list \<Rightarrow> ('s, unit) shop_act" where
  "createBatch promotionId codes = atomically (\<lambda>s.
     case insert_coupons promotionId codes (sh_coupons s) of
       Inl e \<Rightarrow> Inl e | Inr cs \<Rightarrow> Inr ((), s\<lparr>sh_coupons := cs\<rparr>))"

definition findByCode :: "string \<Rightarrow> 's shop_scheme \<Rightarrow> coupon option" where
  "findByCode code s = find (\<lambda>c. cp_code c = code) (sh_coupons s)"

definition redeem :: "nat \<Rightarrow> string \<Rightarrow> ('s, unit) shop_act" where
  "redeem codeId tenantId = amodify (\<lambda>s. s\<lparr>sh_coupons := map (\<lambda>c. if cp_id c = codeId
     then c\<lparr>cp_redeemedAt := Some (y_now s), cp_redeemedByTenantId := Some tenantId\<rparr> else c) (sh_coupons s)\<rparr>)"

definition coupons_listByPromotion :: "nat \<Rightarrow> nat option \<Rightarrow> 's shop_scheme \<Rightarrow> coupon list" where
  "coupons_listByPromotion promotionId limit s =
     (let rows = filter (\<lambda>c. cp_promotionId c = promotionId) (sh_coupons s)
      in case limit of Some n \<Rightarrow> if n = 0 then rows else take n rows | None \<Rightarrow> rows)"

definition countRedeemed :: "nat \<Rightarrow> 's shop_scheme \<Rightarrow> nat" where
  "countRedeemed promotionId s =
     length (filter (\<lambda>c. cp_promotionId c = promotionId \<and> cp_redeemedAt c \<noteq> None) (sh_coupons s))"

definition getUserRedemptionCount :: "nat \<Rightarrow> string \<Rightarrow> 's shop_scheme \<Rightarrow> nat" where
  "getUserRedemptionCount promotionId tenantId s =
     length (filter (\<lambda>c. cp_promotionId c = promotionId \<and> cp_redeemedByTenantId c = Some tenantId) (sh_coupons s))"

section \<open>Redemption repository\<close>

definition create_redemption ::
  "nat \<Rightarrow> string \<Rightarrow> nat option \<Rightarrow> int \<Rightarrow> uuid \<Rightarrow> rat option \<Rightarrow> ('s, unit) shop_act" where
  "create_redemption promotionId tenantId couponCodeId creditsGranted txId purchase s =
     (case (case purchase of None \<Rightarrow> Inr None | Some x \<Rightarrow> map_sum id Some (to_integer x)) of
        Inl e \<Rightarrow> (Inl e, s)
      | Inr amt \<Rightarrow> (Inr (), s\<lparr>sh_redemptions := sh_redemptions s @
          [\<lparr>rd_id = length (sh_redemptions s), rd_promotionId = promotionId, rd_tenantId = tenantId,
            rd_couponCodeId = couponCodeId, rd_creditsGranted = creditsGranted, rd_creditTransactionId = txId,
            rd_purchaseAmountCredits = amt, rd_redeemedAt = y_now s\<rparr>]\<rparr>))"

definition redemptions_listByPromotion :: "nat \<Rightarrow> nat option \<Rightarrow> 's shop_scheme \<Rightarrow> redemption list" where
  "redemptions_listByPromotion promotionId limit s =
     (let rows = filter (\<lambda>r. rd_promotionId r = promotionId) (sh_redemptions s)
      in case limit of Some n \<Rightarrow> if n = 0 then rows else take n rows | None \<Rightarrow> rows)"

definition countByTenant :: "nat \<Rightarrow> string \<Rightarrow> 's shop_scheme \<Rightarrow> nat" where
  "countByTenant promotionId tenantId s =
     length (filter (\<lambda>r. rd_promotionId r = promotionId \<and> rd_tenantId r = tenantId) (sh_redemptions s))"

definition hasPriorPurchase :: "string \<Rightarrow> 's shop_scheme \<Rightarrow> bool" where
  "hasPriorPurchase tenantId s \<longleftrightarrow> (\<exists>r \<in> set (sh_redemptions s). rd_tenantId r = tenantId
     \<and> (case rd_purchaseAmountCredits r of None \<Rightarrow> False | Some n \<Rightarrow> 0 < n))"

section \<open>Engine\<close>

datatype trigger = Purchase_Trigger | Coupon_Redeem | Batch_Trigger

record promo_context =
  px_tenantId :: string
  px_trigger :: trigger
  px_couponCode :: "string option"
  px_purchase :: "credit option"

record grant_result =
  gr_promotionId :: nat
  gr_promotionName :: string
  gr_creditsGranted :: credit
  gr_transactionId :: uuid

definition purchase_cents :: "promo_context \<Rightarrow> rat" where
  "purchase_cents ctx = (case px_purchase ctx of None \<Rightarrow> 0 | Some c \<Rightarrow> toCents c)"

definition promo_reference :: "promotion \<Rightarrow> string \<Rightarrow> nat \<Rightarrow> string" where
  "promo_reference p t n = ''promo:'' @ decimal (pr_id p) @ '':'' @ t @ '':'' @ decimal (Suc n)"

definition grant_amount :: "promotion \<Rightarrow> promo_context \<Rightarrow> credit" where
  "grant_amount p ctx = (case pr_valueType p of
     Flat_Credits \<Rightarrow> fromCents (of_int (pr_valueAmount p))
   | Percent_Of_Purchase \<Rightarrow>
       let raw = js_floor (js_div (js_mul (purchase_cents ctx) (of_int (pr_valueAmount p))) 10000);
           amt = fromCents (of_int raw)
       in case pr_maxValueCredits p of None \<Rightarrow> amt
          | Some m \<Rightarrow> fromCents (min (toCents amt) (of_int m)))"

text \<open>
  The tests before the grant, none of which changes anything: the limit per user, the reference, the
  first purchase, the segment, the minimum, the unique code. What passes them is the reference, the
  code and the amount of the grant.
\<close>

definition promo_code :: "promotion \<Rightarrow> promo_context \<Rightarrow> 's shop_scheme \<Rightarrow> nat option option" where
  "promo_code p ctx s =
     (if pr_type p = Coupon_Unique \<and> truthy (px_couponCode ctx)
      then case findByCode (the (px_couponCode ctx)) s of
             None \<Rightarrow> None
           | Some c \<Rightarrow> if cp_redeemedAt c \<noteq> None \<or> cp_promotionId c \<noteq> pr_id p then None else Some (Some (cp_id c))
      else Some None)"

definition promo_offer :: "promotion \<Rightarrow> promo_context \<Rightarrow> 's shop_scheme \<Rightarrow> (string \<times> nat option \<times> credit) option" where
  "promo_offer p ctx s =
     (let userCount = countByTenant (pr_id p) (px_tenantId ctx) s;
          refId = promo_reference p (px_tenantId ctx) userCount in
      if pr_perUserLimit p \<le> int userCount then None
      else if hasReferenceId refId (y_db s) then None
      else if pr_firstPurchaseOnly p \<and> px_trigger ctx = Purchase_Trigger \<and> hasPriorPurchase (px_tenantId ctx) s then None
      else if pr_userSegment p = Tenant_List
        \<and> (case pr_eligibleTenantIds p of None \<Rightarrow> True | Some ts \<Rightarrow> px_tenantId ctx \<notin> set ts) then None
      else if (case pr_minPurchaseCredits p of None \<Rightarrow> False | Some m \<Rightarrow> purchase_cents ctx < of_int m) then None
      else case promo_code p ctx s of
        None \<Rightarrow> None
      | Some code \<Rightarrow>
          let amt = grant_amount p ctx in
          if isZero amt \<or> isNegative amt then None else Some (refId, code, amt))"

definition promo_opts :: "promotion \<Rightarrow> string \<Rightarrow> credit_opts" where
  "promo_opts p refId = no_credit_opts\<lparr>c_description := Some (''Promotion: '' @ pr_name p), c_referenceId := Some refId\<rparr>"

definition promo_grant ::
  "promotion \<Rightarrow> promo_context \<Rightarrow> string \<times> nat option \<times> credit \<Rightarrow> ('s, grant_result option) shop_act" where
  "promo_grant p ctx = (\<lambda>(refId, code, amt).
     abind (aquery (\<lambda>_. to_integer (toCents amt))) (\<lambda>n.
     abind (incrementUsageIfAllowed (pr_id p) n (pr_budgetCredits p) (pr_totalUseLimit p)) (\<lambda>granted.
     if \<not> granted then areturn None
     else abind (ledger_call (credit (px_tenantId ctx) amt Promo (promo_opts p refId))) (\<lambda>tx.
       abind (create_redemption (pr_id p) (px_tenantId ctx) code n (je_id tx) (map_option toCents (px_purchase ctx))) (\<lambda>_.
       abind (case code of None \<Rightarrow> areturn () | Some c \<Rightarrow> redeem c (px_tenantId ctx)) (\<lambda>_.
       areturn (Some \<lparr>gr_promotionId = pr_id p, gr_promotionName = pr_name p, gr_creditsGranted = amt,
         gr_transactionId = je_id tx\<rparr>)))))))"

definition tryGrant :: "promotion \<Rightarrow> promo_context \<Rightarrow> ('s, grant_result option) shop_act" where
  "tryGrant p ctx = abind (aquery (\<lambda>s. Inr (promo_offer p ctx s))) (\<lambda>offer.
     case offer of None \<Rightarrow> areturn None | Some x \<Rightarrow> promo_grant p ctx x)"

fun grant_each :: "promo_context \<Rightarrow> promotion list \<Rightarrow> ('s, grant_result list) shop_act" where
  "grant_each ctx [] = areturn []"
| "grant_each ctx (p # ps) = abind (tryGrant p ctx) (\<lambda>r.
     abind (grant_each ctx ps) (\<lambda>rs. areturn (case r of None \<Rightarrow> rs | Some x \<Rightarrow> x # rs)))"

definition candidates :: "promo_context \<Rightarrow> 's shop_scheme \<Rightarrow> promotion list" where
  "candidates ctx s =
     (if px_trigger ctx = Coupon_Redeem \<and> truthy (px_couponCode ctx)
      then case findByCouponCode (the (px_couponCode ctx)) s of None \<Rightarrow> [] | Some p \<Rightarrow> [p]
      else if px_trigger ctx = Purchase_Trigger then listActive (Some Bonus_On_Purchase) (y_now s) s
      else listActive None (y_now s) s)"

definition evaluateAndGrant :: "promo_context \<Rightarrow> ('s, grant_result list) shop_act" where
  "evaluateAndGrant ctx = abind (aquery (\<lambda>s. Inr (candidates ctx s))) (grant_each ctx)"

section \<open>Limits\<close>

definition same_terms :: "promotion \<Rightarrow> promotion \<Rightarrow> bool" where
  "same_terms p q \<longleftrightarrow> pr_id q = pr_id p \<and> pr_budgetCredits q = pr_budgetCredits p
     \<and> pr_totalUseLimit q = pr_totalUseLimit p \<and> pr_perUserLimit q = pr_perUserLimit p"

definition grants_of :: "nat \<Rightarrow> redemption list \<Rightarrow> redemption list" where
  "grants_of i = filter (\<lambda>r. rd_promotionId r = i)"

definition granted_cents :: "nat \<Rightarrow> redemption list \<Rightarrow> int" where
  "granted_cents i rs = sum_list (map rd_creditsGranted (grants_of i rs))"

definition uses_by :: "nat \<Rightarrow> string \<Rightarrow> redemption list \<Rightarrow> nat" where
  "uses_by i t rs = length (filter (\<lambda>r. rd_promotionId r = i \<and> rd_tenantId r = t) rs)"

definition uses_of_code :: "nat \<Rightarrow> redemption list \<Rightarrow> nat" where
  "uses_of_code c rs = length (filter (\<lambda>r. rd_couponCodeId r = Some c) rs)"

text \<open>The counters of a promotion bound what was granted, and respect its limits.\<close>

definition promotion_ok :: "redemption list \<Rightarrow> promotion \<Rightarrow> bool" where
  "promotion_ok rs p \<longleftrightarrow> limit_ok (pr_budgetCredits p) (pr_totalCreditsGranted p)
     \<and> limit_ok (pr_totalUseLimit p) (pr_totalUses p)
     \<and> int (length (grants_of (pr_id p) rs)) \<le> pr_totalUses p
     \<and> granted_cents (pr_id p) rs \<le> pr_totalCreditsGranted p
     \<and> (\<forall>t. int (uses_by (pr_id p) t rs) \<le> max 0 (pr_perUserLimit p))"

definition coupon_ok :: "redemption list \<Rightarrow> coupon \<Rightarrow> bool" where
  "coupon_ok rs c \<longleftrightarrow> uses_of_code (cp_id c) rs \<le> (if cp_redeemedAt c = None then 0 else 1)"

definition promo_inv :: "'s shop_scheme \<Rightarrow> bool" where
  "promo_inv s \<longleftrightarrow> distinct (map pr_id (sh_promotions s))
     \<and> (\<forall>p \<in> set (sh_promotions s). promotion_ok (sh_redemptions s) p)
     \<and> (\<forall>c \<in> set (sh_coupons s). coupon_ok (sh_redemptions s) c)"

definition same_tables :: "'s shop_scheme \<Rightarrow> 's shop_scheme \<Rightarrow> bool" where
  "same_tables s s' \<longleftrightarrow> sh_promotions s' = sh_promotions s \<and> sh_coupons s' = sh_coupons s \<and> sh_redemptions s' = sh_redemptions s"

lemma same_tables_refl [simp]: "same_tables s s"
  by (simp add: same_tables_def)

lemma ledger_tables: "same_tables s (snd (ledger_call tx s))"
  by (auto simp: same_tables_def ledger_call_def atomically_def split: sum.splits prod.splits)

lemma increment_cases:
  assumes "incrementUsageIfAllowed i n b u s = (g, s')"
  obtains (refused) "s' = s" "g \<noteq> Inr True"
  | (allowed) p where "g = Inr True" "promotion_by_id i s = Some p" "limit_ok b (pr_totalCreditsGranted p + n)"
      "limit_ok u (pr_totalUses p + 1)" "s' = update_promotion i (used n) s"
  using assms by (auto simp: incrementUsageIfAllowed_def split: option.splits if_splits)

lemma toCents_nonneg:
  assumes "\<not> isNegative c"
  shows "0 \<le> toCents c"
proof -
  have "js_div (rat_of_int SCALE) 100 = 10000000" by code_simp
  then show ?thesis using assms
    by (simp add: toCents_def isNegative_def js_div_def fl_nonneg)
qed

lemma to_integer_nonneg: "to_integer x = Inr n \<Longrightarrow> 0 \<le> x \<Longrightarrow> 0 \<le> n"
  by (auto simp: to_integer_def split: if_splits)

text \<open>What one grant leaves in the tables: nothing, the counters alone, or counters, redemption and code.\<close>

definition booked :: "promotion \<Rightarrow> int \<Rightarrow> 's shop_scheme \<Rightarrow> 's shop_scheme \<Rightarrow> bool" where
  "booked p n s s' \<longleftrightarrow> 0 \<le> n \<and> (\<exists>q. promotion_by_id (pr_id p) s = Some q
       \<and> limit_ok (pr_budgetCredits p) (pr_totalCreditsGranted q + n) \<and> limit_ok (pr_totalUseLimit p) (pr_totalUses q + 1))
     \<and> sh_promotions s' = sh_promotions (update_promotion (pr_id p) (used n) s)"

definition redeemed :: "promotion \<Rightarrow> string \<Rightarrow> nat option \<Rightarrow> int \<Rightarrow> 's shop_scheme \<Rightarrow> 's shop_scheme \<Rightarrow> bool" where
  "redeemed p t code n s s' \<longleftrightarrow>
     (\<exists>r. rd_promotionId r = pr_id p \<and> rd_tenantId r = t \<and> rd_couponCodeId r = code \<and> rd_creditsGranted r = n
        \<and> sh_redemptions s' = sh_redemptions s @ [r])
     \<and> sh_coupons s' = (case code of None \<Rightarrow> sh_coupons s
         | Some c \<Rightarrow> map (\<lambda>x. if cp_id x = c then x\<lparr>cp_redeemedAt := Some (y_now s),
             cp_redeemedByTenantId := Some t\<rparr> else x) (sh_coupons s))"

lemma ledger_call_now: "y_now (snd (ledger_call tx s)) = y_now s"
  by (auto simp: ledger_call_def atomically_def split: sum.splits prod.splits)

lemma promo_grant_cases:
  assumes run: "promo_grant p ctx (refId, code, amt) s = (r, s')" and amt: "\<not> isNegative amt"
  obtains (unchanged) "same_tables s s'"
  | (counted) n where "booked p n s s'" "sh_coupons s' = sh_coupons s" "sh_redemptions s' = sh_redemptions s"
  | (full) n where "booked p n s s'" "redeemed p (px_tenantId ctx) code n s s'"
proof (cases "to_integer (toCents amt)")
  case (Inl e)
  then have "s' = s" using run by (simp add: promo_grant_def abind_def aquery_def)
  then show ?thesis using unchanged by simp
next
  case (Inr n)
  have n: "0 \<le> n" using to_integer_nonneg[OF Inr] toCents_nonneg[OF amt] .
  obtain g s1 where inc: "incrementUsageIfAllowed (pr_id p) n (pr_budgetCredits p) (pr_totalUseLimit p) s = (g, s1)" by fastforce
  show ?thesis
  proof (cases rule: increment_cases[OF inc])
    case 1
    then have "s' = s" using run Inr inc
      by (cases g) (auto simp: promo_grant_def abind_def aquery_def areturn_def)
    then show ?thesis by (intro unchanged) simp
  next
    case (2 q)
    have b: "booked p n s x" if "sh_promotions x = sh_promotions s1" for x
      using that 2 n by (auto simp: booked_def)
    have s1: "sh_coupons s1 = sh_coupons s" "sh_redemptions s1 = sh_redemptions s" "y_now s1 = y_now s"
      using 2 by (simp_all add: update_promotion_def)
    obtain l s2 where led: "ledger_call (credit (px_tenantId ctx) amt Promo (promo_opts p refId)) s1 = (l, s2)" by fastforce
    then have t2: "same_tables s1 s2" "y_now s2 = y_now s" using ledger_tables ledger_call_now s1(3) by (metis snd_conv)+
    let ?made = "create_redemption (pr_id p) (px_tenantId ctx) code n"
    show ?thesis
    proof (cases l)
      case (Inl e)
      then have "s' = s2" using run Inr inc 2(1) led by (simp add: promo_grant_def abind_def aquery_def)
      then show ?thesis using t2 s1 b by (intro counted) (auto simp: same_tables_def)
    next
      case l: (Inr tx)
      obtain c s3 where cr: "?made (je_id tx) (map_option toCents (px_purchase ctx)) s2 = (c, s3)" by fastforce
      then have cases3: "s3 = s2 \<and> (\<exists>e. c = Inl e) \<or> c = Inr () \<and> sh_promotions s3 = sh_promotions s2 \<and> sh_coupons s3 = sh_coupons s2
          \<and> y_now s3 = y_now s2 \<and> (\<exists>r. rd_promotionId r = pr_id p \<and> rd_tenantId r = px_tenantId ctx \<and> rd_couponCodeId r = code
          \<and> rd_creditsGranted r = n \<and> sh_redemptions s3 = sh_redemptions s2 @ [r])"
        by (auto simp: create_redemption_def split: sum.splits option.splits)
      have s': "s' = (case c of Inl _ \<Rightarrow> s3 | Inr _ \<Rightarrow> snd ((case code of None \<Rightarrow> areturn () | Some c \<Rightarrow> redeem c (px_tenantId ctx)) s3))"
        using run Inr inc 2(1) led l cr
        by (auto simp: promo_grant_def abind_def aquery_def areturn_def redeem_def amodify_def split: sum.splits option.splits)
      from cases3 show ?thesis
      proof
        assume "s3 = s2 \<and> (\<exists>e. c = Inl e)"
        then show ?thesis using s' t2 s1 b by (intro counted) (auto simp: same_tables_def)
      next
        assume k: "c = Inr () \<and> sh_promotions s3 = sh_promotions s2 \<and> sh_coupons s3 = sh_coupons s2
          \<and> y_now s3 = y_now s2 \<and> (\<exists>r. rd_promotionId r = pr_id p \<and> rd_tenantId r = px_tenantId ctx \<and> rd_couponCodeId r = code
          \<and> rd_creditsGranted r = n \<and> sh_redemptions s3 = sh_redemptions s2 @ [r])"
        have "sh_promotions s' = sh_promotions s1"
          using k s' t2 by (auto simp: same_tables_def areturn_def redeem_def amodify_def split: option.splits)
        moreover have "redeemed p (px_tenantId ctx) code n s s'"
          using k s' t2 s1 by (auto simp: redeemed_def same_tables_def areturn_def redeem_def amodify_def split: option.splits)
        ultimately show ?thesis using b full by blast
      qed
    qed
  qed
qed

lemma used_terms: "same_terms p (used n q) = same_terms p q" "same_terms q (used n q)"
  by (simp_all add: same_terms_def used_def)

lemma grants_append:
  "grants_of i (rs @ [r]) = grants_of i rs @ (if rd_promotionId r = i then [r] else [])"
  "granted_cents i (rs @ [r]) = granted_cents i rs + (if rd_promotionId r = i then rd_creditsGranted r else 0)"
  "uses_by i t (rs @ [r]) = uses_by i t rs + (if rd_promotionId r = i \<and> rd_tenantId r = t then 1 else 0)"
  "uses_of_code c (rs @ [r]) = uses_of_code c rs + (if rd_couponCodeId r = Some c then 1 else 0)"
  by (simp_all add: grants_of_def granted_cents_def uses_by_def uses_of_code_def)

lemma promotion_ok_cong:
  "promotion_ok rs (p\<lparr>pr_updatedAt := t\<rparr>) = promotion_ok rs p"
  "same_terms q (p\<lparr>pr_updatedAt := t\<rparr>) = same_terms q p"
  by (simp_all add: promotion_ok_def same_terms_def)

text \<open>A snapshot of a promotion is current as long as its terms stay.\<close>

definition current :: "'s shop_scheme \<Rightarrow> promotion \<Rightarrow> bool" where
  "current s p \<longleftrightarrow> (\<exists>q \<in> set (sh_promotions s). same_terms p q)"

lemma promotion_by_id_unique:
  assumes "distinct (map pr_id (sh_promotions s))" "q \<in> set (sh_promotions s)"
  shows "promotion_by_id (pr_id q) s = Some q"
  using assms find_unique[of pr_id "sh_promotions s" q] by (simp add: promotion_by_id_def)

lemma promotion_by_id_current:
  assumes "promotion_by_id (pr_id p) s = Some q" "distinct (map pr_id (sh_promotions s))" "current s p"
  shows "same_terms p q"
proof -
  from assms(3) obtain q' where q': "q' \<in> set (sh_promotions s)" "same_terms p q'" by (auto simp: current_def)
  then have "pr_id q' = pr_id p" by (simp add: same_terms_def)
  then have "q' = q" using promotion_by_id_unique[OF assms(2) q'(1)] assms(1) by simp
  with q' show ?thesis by simp
qed

lemma booked_rows:
  assumes "booked p n s s'" "distinct (map pr_id (sh_promotions s))"
  shows "distinct (map pr_id (sh_promotions s'))"
    and "x \<in> set (sh_promotions s') \<Longrightarrow>
      x \<in> set (sh_promotions s) \<and> pr_id x \<noteq> pr_id p
      \<or> (\<exists>q t. promotion_by_id (pr_id p) s = Some q \<and> x = (used n q)\<lparr>pr_updatedAt := t\<rparr>
          \<and> limit_ok (pr_budgetCredits p) (pr_totalCreditsGranted q + n) \<and> limit_ok (pr_totalUseLimit p) (pr_totalUses q + 1))"
    and "current s c \<Longrightarrow> current s' c"
proof -
  from assms(1) obtain q where q: "promotion_by_id (pr_id p) s = Some q" "sh_promotions s'
      = map (\<lambda>x. if pr_id x = pr_id p then (used n x)\<lparr>pr_updatedAt := y_now s\<rparr> else x) (sh_promotions s)"
      "limit_ok (pr_budgetCredits p) (pr_totalCreditsGranted q + n)" "limit_ok (pr_totalUseLimit p) (pr_totalUses q + 1)"
    by (auto simp: booked_def update_promotion_def)
  have "map pr_id (sh_promotions s') = map pr_id (sh_promotions s)" by (auto simp: q(2) used_def)
  then show "distinct (map pr_id (sh_promotions s'))" using assms(2) by simp
  show "x \<in> set (sh_promotions s) \<and> pr_id x \<noteq> pr_id p
      \<or> (\<exists>q t. promotion_by_id (pr_id p) s = Some q \<and> x = (used n q)\<lparr>pr_updatedAt := t\<rparr>
          \<and> limit_ok (pr_budgetCredits p) (pr_totalCreditsGranted q + n) \<and> limit_ok (pr_totalUseLimit p) (pr_totalUses q + 1))"
    if x: "x \<in> set (sh_promotions s')"
  proof -
    from x q(2) obtain y where y: "y \<in> set (sh_promotions s)"
      "x = (if pr_id y = pr_id p then (used n y)\<lparr>pr_updatedAt := y_now s\<rparr> else y)" by auto
    show ?thesis
    proof (cases "pr_id y = pr_id p")
      case True
      then have "q = y" using promotion_by_id_unique[OF assms(2) y(1)] q(1) by simp
      then show ?thesis using True y q by auto
    qed (use y in simp)
  qed
  show "current s' c" if "current s c"
  proof -
    from that obtain y where y: "y \<in> set (sh_promotions s)" "same_terms c y" by (auto simp: current_def)
    let ?y = "if pr_id y = pr_id p then (used n y)\<lparr>pr_updatedAt := y_now s\<rparr> else y"
    have "?y \<in> set (sh_promotions s')" using y(1) by (simp add: q(2))
    moreover have "same_terms c ?y" using y(2) by (simp add: same_terms_def used_def)
    ultimately show ?thesis unfolding current_def by blast
  qed
qed

lemma inv_counted:
  assumes inv: "promo_inv s" "current s p" and b: "booked p n s s'"
    and same: "sh_coupons s' = sh_coupons s" "sh_redemptions s' = sh_redemptions s"
  shows "promo_inv s'"
  unfolding promo_inv_def
proof (intro conjI ballI)
  have d: "distinct (map pr_id (sh_promotions s))" using inv(1) by (simp add: promo_inv_def)
  show "distinct (map pr_id (sh_promotions s'))" using booked_rows(1)[OF b d] .
  show "promotion_ok (sh_redemptions s') x" if "x \<in> set (sh_promotions s')" for x
    using booked_rows(2)[OF b d that]
  proof (elim disjE exE conjE)
    fix q t
    assume q: "promotion_by_id (pr_id p) s = Some q" "x = (used n q)\<lparr>pr_updatedAt := t\<rparr>"
      "limit_ok (pr_budgetCredits p) (pr_totalCreditsGranted q + n)" "limit_ok (pr_totalUseLimit p) (pr_totalUses q + 1)"
    have "promotion_ok (sh_redemptions s) q" "0 \<le> n" "same_terms p q"
      using inv(1) b find_Some_set[OF q(1)[unfolded promotion_by_id_def]] promotion_by_id_current[OF q(1) d inv(2)]
      by (auto simp: promo_inv_def booked_def)
    then show ?thesis using q(2-4) same
      by (auto simp: promotion_ok_cong promotion_ok_def used_def same_terms_def)
  qed (use inv(1) same in \<open>auto simp: promo_inv_def\<close>)
  show "coupon_ok (sh_redemptions s') c" if "c \<in> set (sh_coupons s')" for c
    using that inv(1) same by (simp add: promo_inv_def)
qed

lemma inv_full:
  assumes inv: "promo_inv s" "current s p" and b: "booked p n s s'" and r: "redeemed p t code n s s'"
    and room: "int (uses_by (pr_id p) t (sh_redemptions s)) < pr_perUserLimit p"
    and fresh: "\<And>i. code = Some i \<Longrightarrow> \<exists>c \<in> set (sh_coupons s). cp_id c = i \<and> cp_redeemedAt c = None"
  shows "promo_inv s'"
  unfolding promo_inv_def
proof (intro conjI ballI)
  have d: "distinct (map pr_id (sh_promotions s))" using inv(1) by (simp add: promo_inv_def)
  show "distinct (map pr_id (sh_promotions s'))" using booked_rows(1)[OF b d] .
  obtain red where red: "rd_promotionId red = pr_id p" "rd_tenantId red = t" "rd_couponCodeId red = code"
      "rd_creditsGranted red = n" "sh_redemptions s' = sh_redemptions s @ [red]"
      "sh_coupons s' = (case code of None \<Rightarrow> sh_coupons s
         | Some c \<Rightarrow> map (\<lambda>x. if cp_id x = c then x\<lparr>cp_redeemedAt := Some (y_now s),
             cp_redeemedByTenantId := Some t\<rparr> else x) (sh_coupons s))"
    using r by (auto simp: redeemed_def)
  show "promotion_ok (sh_redemptions s') x" if "x \<in> set (sh_promotions s')" for x
    using booked_rows(2)[OF b d that]
  proof (elim disjE exE conjE)
    fix q u
    assume q: "promotion_by_id (pr_id p) s = Some q" "x = (used n q)\<lparr>pr_updatedAt := u\<rparr>"
      "limit_ok (pr_budgetCredits p) (pr_totalCreditsGranted q + n)" "limit_ok (pr_totalUseLimit p) (pr_totalUses q + 1)"
    have "promotion_ok (sh_redemptions s) q" "0 \<le> n" "same_terms p q"
      using inv(1) b find_Some_set[OF q(1)[unfolded promotion_by_id_def]] promotion_by_id_current[OF q(1) d inv(2)]
      by (auto simp: promo_inv_def booked_def)
    then show ?thesis using q(2-4) red room
      by (auto simp: promotion_ok_cong promotion_ok_def used_def same_terms_def grants_append)
  qed (use inv(1) red in \<open>auto simp: promo_inv_def promotion_ok_def grants_append\<close>)
  show "coupon_ok (sh_redemptions s') c" if c: "c \<in> set (sh_coupons s')" for c
  proof (cases code)
    case None
    then show ?thesis using c inv(1) red by (auto simp: promo_inv_def coupon_ok_def grants_append)
  next
    case (Some i)
    obtain y where y: "y \<in> set (sh_coupons s)" "c = (if cp_id y = i then y\<lparr>cp_redeemedAt := Some (y_now s),
             cp_redeemedByTenantId := Some t\<rparr> else y)" using c red(6) Some by auto
    have oky: "coupon_ok (sh_redemptions s) y" using inv(1) y(1) by (simp add: promo_inv_def)
    obtain z where "z \<in> set (sh_coupons s)" "cp_id z = i" "cp_redeemedAt z = None" using fresh Some by blast
    then have "uses_of_code i (sh_redemptions s) = 0" using inv(1) by (auto simp: promo_inv_def coupon_ok_def)
    then show ?thesis using oky y(2) red(3,5) Some by (auto simp: coupon_ok_def grants_append)
  qed
qed

lemma promo_offer_room:
  assumes "promo_offer p ctx s = Some (refId, code, amt)"
  shows "int (uses_by (pr_id p) (px_tenantId ctx) (sh_redemptions s)) < pr_perUserLimit p" "\<not> isNegative amt"
    and "code = Some i \<Longrightarrow> \<exists>c \<in> set (sh_coupons s). cp_id c = i \<and> cp_redeemedAt c = None"
proof -
  obtain c where c: "promo_code p ctx s = Some c" "c = code" "\<not> isNegative amt"
      "\<not> pr_perUserLimit p \<le> int (countByTenant (pr_id p) (px_tenantId ctx) s)"
    using assms by (auto simp: promo_offer_def Let_def split: if_splits option.splits)
  then show "int (uses_by (pr_id p) (px_tenantId ctx) (sh_redemptions s)) < pr_perUserLimit p" "\<not> isNegative amt"
    by (simp_all add: countByTenant_def uses_by_def)
  show "\<exists>c \<in> set (sh_coupons s). cp_id c = i \<and> cp_redeemedAt c = None" if "code = Some i"
    using c(1,2) that by (auto simp: promo_code_def findByCode_def dest: find_Some_set split: if_splits option.splits)
qed

definition ids_ok :: "'s shop_scheme \<Rightarrow> bool" where
  "ids_ok s \<longleftrightarrow> (\<forall>p \<in> set (sh_promotions s). pr_id p < length (sh_promotions s))
     \<and> (\<forall>c \<in> set (sh_coupons s). cp_id c < length (sh_coupons s))
     \<and> (\<forall>r \<in> set (sh_redemptions s). rd_promotionId r < length (sh_promotions s)
         \<and> (\<forall>c. rd_couponCodeId r = Some c \<longrightarrow> c < length (sh_coupons s)))"

lemma same_tables_keep:
  assumes "same_tables s s'"
  shows "promo_inv s' = promo_inv s" "ids_ok s' = ids_ok s" "current s' = current s"
  using assms by (auto simp: same_tables_def promo_inv_def ids_ok_def current_def)

lemma current_bound: "ids_ok s \<Longrightarrow> current s p \<Longrightarrow> pr_id p < length (sh_promotions s)"
  by (auto simp: ids_ok_def current_def same_terms_def)

lemma booked_length: "booked p n s s' \<Longrightarrow> length (sh_promotions s') = length (sh_promotions s)"
  by (auto simp: booked_def update_promotion_def)

lemma booked_ids:
  "booked p n s s' \<Longrightarrow> \<forall>p \<in> set (sh_promotions s). pr_id p < k \<Longrightarrow> \<forall>p \<in> set (sh_promotions s'). pr_id p < k"
  by (auto simp: booked_def update_promotion_def used_def)

lemma redeemed_ids:
  assumes "booked p n s s'" "redeemed p t code n s s'" "ids_ok s" "current s p"
    and "\<And>i. code = Some i \<Longrightarrow> \<exists>c \<in> set (sh_coupons s). cp_id c = i \<and> cp_redeemedAt c = None"
  shows "ids_ok s'"
proof -
  have "length (sh_coupons s') = length (sh_coupons s)" "\<forall>c \<in> set (sh_coupons s'). cp_id c < length (sh_coupons s)"
    using assms(2,3) by (auto simp: redeemed_def ids_ok_def split: option.splits)
  moreover have "i < length (sh_coupons s)" if "code = Some i" for i
    using assms(5)[OF that] assms(3) by (auto simp: ids_ok_def)
  moreover have "\<forall>p \<in> set (sh_promotions s'). pr_id p < length (sh_promotions s)"
    using booked_ids[OF assms(1)] assms(3) by (simp add: ids_ok_def)
  ultimately show ?thesis
    using assms(2,3) booked_length[OF assms(1)] current_bound[OF assms(3,4)] by (auto simp: ids_ok_def redeemed_def)
qed

lemma tryGrant_keeps:
  assumes inv: "promo_inv s" "ids_ok s" "current s p" and run: "tryGrant p ctx s = (r, s')"
  shows "promo_inv s' \<and> ids_ok s' \<and> (\<forall>c. current s c \<longrightarrow> current s' c)"
proof (cases "promo_offer p ctx s")
  case None
  then show ?thesis using run inv by (simp add: tryGrant_def abind_def aquery_def areturn_def)
next
  case (Some x)
  obtain refId code amt where x: "x = (refId, code, amt)" by (cases x)
  have offer: "promo_offer p ctx s = Some (refId, code, amt)" using Some x by simp
  note room = promo_offer_room[OF offer]
  have g: "promo_grant p ctx (refId, code, amt) s = (r, s')"
    using run Some x by (simp add: tryGrant_def abind_def aquery_def)
  have d: "distinct (map pr_id (sh_promotions s))" using inv(1) by (simp add: promo_inv_def)
  show ?thesis
  proof (cases rule: promo_grant_cases[OF g room(2)])
    case 1
    then show ?thesis using inv same_tables_keep[OF 1] by simp
  next
    case (2 n)
    have "ids_ok s'"
      using inv(2) booked_ids[OF 2(1)] booked_length[OF 2(1)] 2(2,3) by (simp add: ids_ok_def)
    then show ?thesis using inv_counted[OF inv(1,3) 2] booked_rows(3)[OF 2(1) d] by blast
  next
    case (3 n)
    show ?thesis
      using inv_full[OF inv(1,3) 3 room(1) room(3)] redeemed_ids[OF 3 inv(2,3) room(3)] booked_rows(3)[OF 3(1) d] by blast
  qed
qed

lemma grant_each_keeps:
  assumes "promo_inv s" "ids_ok s" "\<forall>p \<in> set ps. current s p" "grant_each ctx ps s = (r, s')"
  shows "promo_inv s' \<and> ids_ok s'"
  using assms
proof (induction ps arbitrary: s r)
  case Nil
  then show ?case by (simp add: areturn_def)
next
  case (Cons p ps)
  obtain g s1 where g: "tryGrant p ctx s = (g, s1)" by fastforce
  have k: "promo_inv s1" "ids_ok s1" "\<forall>p \<in> set ps. current s1 p"
    using tryGrant_keeps[OF Cons.prems(1,2) _ g] Cons.prems(3) by auto
  obtain rs s2 where t: "grant_each ctx ps s1 = (rs, s2)" by fastforce
  show ?case
  proof (cases g)
    case (Inl e)
    then show ?thesis using Cons.prems(4) g k by (simp add: abind_def)
  next
    case (Inr x)
    then have "s' = s2" using Cons.prems(4) g t by (cases rs) (auto simp: abind_def areturn_def)
    then show ?thesis using Cons.IH[OF k] t by simp
  qed
qed

lemma candidates_current: "p \<in> set (candidates ctx s) \<Longrightarrow> current s p"
  by (auto simp: candidates_def current_def listActive_def findByCouponCode_def same_terms_def
      dest!: find_Some_set[OF sym] split: if_splits option.splits)

lemma evaluate_keeps:
  assumes "promo_inv s" "ids_ok s"
  shows "promo_inv (snd (evaluateAndGrant ctx s)) \<and> ids_ok (snd (evaluateAndGrant ctx s))"
proof -
  obtain r s' where run: "grant_each ctx (candidates ctx s) s = (r, s')" by fastforce
  have "promo_inv s' \<and> ids_ok s'" using grant_each_keeps[OF assms _ run] candidates_current by blast
  then show ?thesis using run by (simp add: evaluateAndGrant_def abind_def aquery_def)
qed

lemma insert_coupons_appends:
  assumes "insert_coupons i xs cs = Inr cs'" "\<forall>c \<in> set cs. cp_id c < length cs"
  shows "(\<forall>c \<in> set cs'. cp_id c < length cs') \<and> length cs \<le> length cs'
    \<and> (\<forall>c \<in> set cs'. c \<in> set cs \<or> length cs \<le> cp_id c)"
  using assms
proof (induction i xs cs rule: insert_coupons.induct)
  case (2 i code tenant email xs cs)
  let ?cs = "cs @ [\<lparr>cp_id = length cs, cp_promotionId = i, cp_code = code, cp_assignedTenantId = tenant,
    cp_assignedEmail = email, cp_redeemedAt = None, cp_redeemedByTenantId = None\<rparr>]"
  have "code \<notin> cp_code ` set cs" "insert_coupons i xs ?cs = Inr cs'" using "2.prems"(1) by (auto split: if_splits)
  then show ?case using "2.IH" "2.prems"(2) by (fastforce simp: less_Suc_eq)
qed simp

inductive shop_step :: "shop \<Rightarrow> shop \<Rightarrow> bool" where
  shop_grant: "shop_step s (snd (evaluateAndGrant ctx s))"
| shop_create: "limit_ok (pr_budgetCredits p) 0 \<Longrightarrow> limit_ok (pr_totalUseLimit p) 0 \<Longrightarrow> shop_step s (snd (create_promotion p s))"
| shop_status: "shop_step s (snd (promotion_updateStatus i st s))"
| shop_batch: "shop_step s (snd (createBatch i codes s))"
| shop_ledger: "ledger_step (y_db s) d \<Longrightarrow> shop_step s (s\<lparr>y_db := d\<rparr>)"
| shop_time: "y_now s \<le> now \<Longrightarrow> shop_step s (s\<lparr>y_now := now\<rparr>)"

lemma no_uses:
  assumes "\<And>r. r \<in> set rs \<Longrightarrow> rd_promotionId r \<noteq> i"
  shows "grants_of i rs = []" "granted_cents i rs = 0" "uses_by i t rs = 0"
  using assms by (auto simp: grants_of_def granted_cents_def uses_by_def filter_empty_conv)

lemma create_keeps:
  assumes inv: "promo_inv s" "ids_ok s" and l: "limit_ok (pr_budgetCredits p) 0" "limit_ok (pr_totalUseLimit p) 0"
  shows "promo_inv (snd (create_promotion p s)) \<and> ids_ok (snd (create_promotion p s))"
proof -
  define p' where "p' = p\<lparr>pr_id := length (sh_promotions s), pr_totalUses := 0, pr_totalCreditsGranted := 0,
           pr_createdAt := y_now s, pr_updatedAt := y_now s\<rparr>"
  have "promotion_ok (sh_redemptions s) p'"
    using no_uses[of "sh_redemptions s" "length (sh_promotions s)"] inv(2) l
    by (fastforce simp: promotion_ok_def p'_def ids_ok_def)
  moreover have "pr_id p' = length (sh_promotions s)" by (simp add: p'_def)
  moreover have "snd (create_promotion p s) = s \<or> snd (create_promotion p s) = s\<lparr>sh_promotions := sh_promotions s @ [p']\<rparr>"
    by (simp add: create_promotion_def Let_def p'_def)
  ultimately show ?thesis using inv by (fastforce simp: promo_inv_def ids_ok_def less_Suc_eq)
qed

lemma status_keeps:
  assumes "promo_inv s" "ids_ok s"
  shows "promo_inv (snd (promotion_updateStatus i st s)) \<and> ids_ok (snd (promotion_updateStatus i st s))"
proof -
  define f :: "promotion \<Rightarrow> promotion" where "f = (\<lambda>p. if pr_id p = i then p\<lparr>pr_status := st, pr_updatedAt := y_now s\<rparr> else p)"
  have f: "promotion_ok rs (f p) = promotion_ok rs p" "pr_id (f p) = pr_id p" for rs p
    by (simp_all add: promotion_ok_def f_def)
  have s': "snd (promotion_updateStatus i st s) = s\<lparr>sh_promotions := map f (sh_promotions s)\<rparr>"
    by (simp add: promotion_updateStatus_def amodify_def update_promotion_def f_def cong: if_cong)
  have "pr_id \<circ> f = pr_id" by (simp add: fun_eq_iff f)
  then show ?thesis using assms f unfolding s' by (simp add: promo_inv_def ids_ok_def)
qed

lemma batch_keeps:
  assumes "promo_inv s" "ids_ok s"
  shows "promo_inv (snd (createBatch i codes s)) \<and> ids_ok (snd (createBatch i codes s))"
proof (cases "insert_coupons i codes (sh_coupons s)")
  case (Inl e)
  then show ?thesis using assms by (simp add: createBatch_def atomically_def)
next
  case (Inr cs)
  have c: "\<forall>c \<in> set cs. cp_id c < length cs" "length (sh_coupons s) \<le> length cs"
      "\<forall>c \<in> set cs. c \<in> set (sh_coupons s) \<or> length (sh_coupons s) \<le> cp_id c"
    using insert_coupons_appends[OF Inr] assms(2) by (auto simp: ids_ok_def)
  have "coupon_ok (sh_redemptions s) c" if m: "c \<in> set cs" for c
  proof (cases "c \<in> set (sh_coupons s)")
    case True
    then show ?thesis using assms(1) by (simp add: promo_inv_def)
  next
    case False
    then have "length (sh_coupons s) \<le> cp_id c" using c(3) m by blast
    then have "uses_of_code (cp_id c) (sh_redemptions s) = 0"
      using assms(2) by (fastforce simp: uses_of_code_def ids_ok_def filter_empty_conv)
    then show ?thesis by (simp add: coupon_ok_def)
  qed
  then show ?thesis using assms Inr c by (fastforce simp: createBatch_def atomically_def promo_inv_def ids_ok_def)
qed

lemma shop_step_keeps: "shop_step s s' \<Longrightarrow> promo_inv s \<Longrightarrow> ids_ok s \<Longrightarrow> promo_inv s' \<and> ids_ok s'"
proof (induction rule: shop_step.induct)
  case (shop_grant s ctx)
  then show ?case using evaluate_keeps by blast
next
  case (shop_create p s)
  then show ?case using create_keeps by blast
next
  case (shop_status s i st)
  then show ?case using status_keeps by blast
next
  case (shop_batch s i codes)
  then show ?case using batch_keeps by blast
qed (simp_all add: promo_inv_def ids_ok_def)

text \<open>C22: Promotions stay within their limits. From empty promotion tables, through any sequence of new
  promotions and coupon batches, status changes, ledger activity and grants for purchases, coupons and
  batches: the cents granted under a promotion never exceed its budget, the grants never exceed its
  total use limit, a tenant never gets more grants than the limit per user, and a unique coupon code
  is never redeemed twice.\<close>

theorem promotion_limits:
  assumes "shop_step\<^sup>*\<^sup>* s s'" "sh_promotions s = []" "sh_coupons s = []" "sh_redemptions s = []"
    and p: "p \<in> set (sh_promotions s')"
  shows "limit_ok (pr_budgetCredits p) (granted_cents (pr_id p) (sh_redemptions s'))
    \<and> limit_ok (pr_totalUseLimit p) (int (length (grants_of (pr_id p) (sh_redemptions s'))))
    \<and> int (countByTenant (pr_id p) t s') \<le> max 0 (pr_perUserLimit p)
    \<and> (c \<in> set (sh_coupons s') \<longrightarrow> uses_of_code (cp_id c) (sh_redemptions s') \<le> 1)"
proof -
  have "promo_inv s \<and> ids_ok s" using assms(2-4) by (simp add: promo_inv_def ids_ok_def)
  with assms(1) have "promo_inv s' \<and> ids_ok s'" by (induction rule: rtranclp_induct) (auto dest: shop_step_keeps)
  then have "promotion_ok (sh_redemptions s') p" "c \<in> set (sh_coupons s') \<longrightarrow> coupon_ok (sh_redemptions s') c"
    using p by (auto simp: promo_inv_def)
  then show ?thesis
    by (auto simp: promotion_ok_def coupon_ok_def limit_ok_def countByTenant_def uses_by_def split: option.splits if_splits)
qed

definition new_shop :: shop where
  "new_shop = \<lparr>y_db = funded, y_bots = \<lparr>bl_bots = [], bl_sent = []\<rparr>, y_seen = [], y_now = 5, af_codes = [],
     af_referrals = [], af_fraud = [], sh_promotions = [], sh_coupons = [], sh_redemptions = []\<rparr>"

definition first_bonus :: promotion where
  "first_bonus = \<lparr>pr_id = 0, pr_name = ''welcome'', pr_type = Bonus_On_Purchase, pr_status = Promo_Active,
     pr_startsAt = None, pr_endsAt = None, pr_valueType = Flat_Credits, pr_valueAmount = 100,
     pr_maxValueCredits = None, pr_firstPurchaseOnly = False, pr_minPurchaseCredits = None,
     pr_userSegment = All_Users, pr_eligibleTenantIds = None, pr_totalUseLimit = None, pr_perUserLimit = 5,
     pr_budgetCredits = Some 150, pr_totalUses = 0, pr_totalCreditsGranted = 0, pr_couponCode = None,
     pr_couponBatchId = None, pr_createdBy = ''admin'', pr_createdAt = 0, pr_updatedAt = 0, pr_notes = None\<rparr>"

definition purchase_of :: "string \<Rightarrow> promo_context" where
  "purchase_of t = \<lparr>px_tenantId = t, px_trigger = Purchase_Trigger, px_couponCode = None, px_purchase = Some (Credit 5000000000)\<rparr>"

definition one_purchase :: shop where
  "one_purchase = snd (evaluateAndGrant (purchase_of ''a'') (snd (create_promotion first_bonus new_shop)))"

theorem promotion_limits_witness:
  "granted_cents 0 (sh_redemptions one_purchase) = 100 \<and> granted_cents 0 (sh_redemptions one_purchase) \<le> 150"
proof -
  have a: "shop_step new_shop (snd (create_promotion first_bonus new_shop))"
    by (rule shop_create) (simp_all add: first_bonus_def limit_ok_def)
  have run: "shop_step\<^sup>*\<^sup>* new_shop one_purchase"
    unfolding one_purchase_def using a shop_grant by (blast intro: rtranclp.rtrancl_into_rtrancl)
  have e: "map (\<lambda>p. (pr_id p, pr_budgetCredits p)) (sh_promotions one_purchase) = [(0, Some 150)]
      \<and> granted_cents 0 (sh_redemptions one_purchase) = 100"
    by code_simp
  then obtain p where p: "p \<in> set (sh_promotions one_purchase)" "pr_id p = 0" "pr_budgetCredits p = Some 150"
    by (cases "sh_promotions one_purchase") auto
  have "granted_cents 0 (sh_redemptions one_purchase) \<le> 150"
    using promotion_limits[OF run _ _ _ p(1)] p(2,3) by (simp add: new_shop_def limit_ok_def)
  then show ?thesis using e by simp
qed

end
