(* ===== verification/StripeHook.thy ===== *)
theory StripeHook
  imports Promotions
begin

text \<open>
  The Stripe webhook (\<open>src/monetization/stripe/webhook.ts\<close>) with the tables it alone writes: the
  tenants' payment customers (\<open>src/billing/stripe/tenant-store.ts\<close>) and the VPS subscriptions
  (\<open>src/fleet/vps-repository.ts\<close>). One handler serves purchases, renewals, refunds and disputes over the
  ledger, the bots, the affiliate programme and the promotions. The nested objects of the events are
  records of what the handler reads of them; mails are recorded.
\<close>

section \<open>Customers of the payment processor\<close>

record customer =
  cu_tenant :: string
  cu_processorCustomerId :: string
  cu_processor :: string
  cu_tier :: string
  cu_billingHold :: int
  cu_inferenceMode :: string
  cu_createdAt :: int
  cu_updatedAt :: int

datatype vps_status = Vps_Active | Vps_Canceling | Vps_Canceled

record vps_subscription =
  vp_botId :: string
  vp_tenantId :: string
  vp_stripeSubscriptionId :: string
  vp_stripeCustomerId :: string
  vp_status :: vps_status
  vp_sshPublicKey :: "string option"
  vp_cloudflareTunnelId :: "string option"
  vp_hostname :: "string option"
  vp_diskSizeGb :: int
  vp_createdAt :: int
  vp_updatedAt :: int

datatype mail =
    Affiliate_Mail string string string
  | Topup_Failed_Mail string string
  | Dispute_Created_Mail string string string string string
  | Dispute_Won_Mail string string string string
  | Dispute_Lost_Mail string string string string

record hooks = shop +
  hk_customers :: "customer list"
  hk_vps :: "vps_subscription list"
  hk_mails :: "mail list"

type_synonym 'a hook_act = "(hooks, pay_error, 'a) act"

definition customer_of :: "string \<Rightarrow> hooks \<Rightarrow> customer option" where
  "customer_of tenant s = find (\<lambda>r. cu_tenant r = tenant) (hk_customers s)"

definition getByProcessorCustomerId :: "string \<Rightarrow> hooks \<Rightarrow> customer option" where
  "getByProcessorCustomerId c s = find (\<lambda>r. cu_processorCustomerId r = c) (hk_customers s)"

definition update_customer :: "string \<Rightarrow> (customer \<Rightarrow> customer) \<Rightarrow> hooks \<Rightarrow> hooks" where
  "update_customer tenant f s = s\<lparr>hk_customers :=
     map (\<lambda>r. if cu_tenant r = tenant then (f r)\<lparr>cu_updatedAt := y_now s\<rparr> else r) (hk_customers s)\<rparr>"

definition customer_upsert :: "string \<Rightarrow> string \<Rightarrow> string option \<Rightarrow> unit hook_act" where
  "customer_upsert tenant customerId tier s =
     (if \<exists>r \<in> set (hk_customers s). cu_processorCustomerId r = customerId \<and> cu_tenant r \<noteq> tenant
      then (Inl (Pay_Exists customerId), s)
      else if customer_of tenant s \<noteq> None
      then (Inr (), update_customer tenant (\<lambda>r. r\<lparr>cu_processorCustomerId := customerId,
          cu_tier := (case tier of None \<Rightarrow> cu_tier r | Some t \<Rightarrow> t)\<rparr>) s)
      else (Inr (), s\<lparr>hk_customers := hk_customers s @ [\<lparr>cu_tenant = tenant, cu_processorCustomerId = customerId,
          cu_processor = ''stripe'', cu_tier = (case tier of None \<Rightarrow> ''free'' | Some t \<Rightarrow> t), cu_billingHold = 0,
          cu_inferenceMode = ''byok'', cu_createdAt = y_now s, cu_updatedAt = y_now s\<rparr>]\<rparr>))"

definition setTier :: "string \<Rightarrow> string \<Rightarrow> unit hook_act" where
  "setTier tenant tier = amodify (update_customer tenant (\<lambda>r. r\<lparr>cu_tier := tier\<rparr>))"

definition setBillingHold :: "string \<Rightarrow> bool \<Rightarrow> unit hook_act" where
  "setBillingHold tenant hold = amodify (update_customer tenant (\<lambda>r. r\<lparr>cu_billingHold := (if hold then 1 else 0)\<rparr>))"

definition hasBillingHold :: "string \<Rightarrow> hooks \<Rightarrow> bool" where
  "hasBillingHold tenant s \<longleftrightarrow> (case customer_of tenant s of None \<Rightarrow> False | Some r \<Rightarrow> cu_billingHold r = 1)"

definition getInferenceMode :: "string \<Rightarrow> hooks \<Rightarrow> string" where
  "getInferenceMode tenant s = (case customer_of tenant s of None \<Rightarrow> ''byok'' | Some r \<Rightarrow> cu_inferenceMode r)"

definition setInferenceMode :: "string \<Rightarrow> string \<Rightarrow> unit hook_act" where
  "setInferenceMode tenant mode = amodify (update_customer tenant (\<lambda>r. r\<lparr>cu_inferenceMode := mode\<rparr>))"

definition list_customers :: "hooks \<Rightarrow> customer list" where
  "list_customers s = rev (sort_key cu_createdAt (rev (hk_customers s)))"

definition listMetered :: "hooks \<Rightarrow> (string \<times> string) list" where
  "listMetered s = map (\<lambda>r. (cu_tenant r, cu_processorCustomerId r))
     (filter (\<lambda>r. cu_inferenceMode r = ''metered'') (hk_customers s))"

definition buildCustomerIdMap :: "hooks \<Rightarrow> string \<rightharpoonup> string" where
  "buildCustomerIdMap s = foldl (\<lambda>m r. m(cu_tenant r \<mapsto> cu_processorCustomerId r)) Map.empty (hk_customers s)"

section \<open>VPS subscriptions\<close>

definition vps_by_bot :: "string \<Rightarrow> hooks \<Rightarrow> vps_subscription option" where
  "vps_by_bot botId s = find (\<lambda>v. vp_botId v = botId) (hk_vps s)"

definition getBySubscriptionId :: "string \<Rightarrow> hooks \<Rightarrow> vps_subscription option" where
  "getBySubscriptionId i s = find (\<lambda>v. vp_stripeSubscriptionId v = i) (hk_vps s)"

definition vps_listByTenant :: "string \<Rightarrow> hooks \<Rightarrow> vps_subscription list" where
  "vps_listByTenant t s = filter (\<lambda>v. vp_tenantId v = t) (hk_vps s)"

definition create_vps :: "string \<Rightarrow> string \<Rightarrow> string \<Rightarrow> string \<Rightarrow> string option \<Rightarrow> int option \<Rightarrow> unit hook_act" where
  "create_vps botId tenantId subscriptionId customerId hostname disk s =
     (if botId \<in> vp_botId ` set (hk_vps s) then (Inl (Pay_Exists botId), s)
      else if subscriptionId \<in> vp_stripeSubscriptionId ` set (hk_vps s) then (Inl (Pay_Exists subscriptionId), s)
      else (Inr (), s\<lparr>hk_vps := hk_vps s @ [\<lparr>vp_botId = botId, vp_tenantId = tenantId,
        vp_stripeSubscriptionId = subscriptionId, vp_stripeCustomerId = customerId, vp_status = Vps_Active,
        vp_sshPublicKey = None, vp_cloudflareTunnelId = None, vp_hostname = hostname,
        vp_diskSizeGb = (case disk of None \<Rightarrow> 20 | Some n \<Rightarrow> n), vp_createdAt = y_now s, vp_updatedAt = y_now s\<rparr>]\<rparr>))"

definition update_vps :: "string \<Rightarrow> (vps_subscription \<Rightarrow> vps_subscription) \<Rightarrow> unit hook_act" where
  "update_vps botId f = amodify (\<lambda>s. s\<lparr>hk_vps :=
     map (\<lambda>v. if vp_botId v = botId then (f v)\<lparr>vp_updatedAt := y_now s\<rparr> else v) (hk_vps s)\<rparr>)"

definition vps_updateStatus :: "string \<Rightarrow> vps_status \<Rightarrow> unit hook_act" where
  "vps_updateStatus botId st = update_vps botId (\<lambda>v. v\<lparr>vp_status := st\<rparr>)"

definition setSshPublicKey :: "string \<Rightarrow> string \<Rightarrow> unit hook_act" where
  "setSshPublicKey botId key = update_vps botId (\<lambda>v. v\<lparr>vp_sshPublicKey := Some key\<rparr>)"

definition setTunnelId :: "string \<Rightarrow> string \<Rightarrow> unit hook_act" where
  "setTunnelId botId tunnel = update_vps botId (\<lambda>v. v\<lparr>vp_cloudflareTunnelId := Some tunnel\<rparr>)"

definition delete_vps :: "string \<Rightarrow> unit hook_act" where
  "delete_vps botId = amodify (\<lambda>s. s\<lparr>hk_vps := filter (\<lambda>v. vp_botId v \<noteq> botId) (hk_vps s)\<rparr>)"

definition vps_deleteAllByTenant :: "string \<Rightarrow> unit hook_act" where
  "vps_deleteAllByTenant t = amodify (\<lambda>s. s\<lparr>hk_vps := filter (\<lambda>v. vp_tenantId v \<noteq> t) (hk_vps s)\<rparr>)"

section \<open>Events\<close>

text \<open>The three places where an expanded charge may carry a card fingerprint.\<close>

record fp_source =
  fp_latestCharge :: "string option"
  fp_firstCharge :: "string option"
  fp_charge :: "string option"

definition extractStripeFingerprint :: "fp_source \<Rightarrow> string option" where
  "extractStripeFingerprint src = (case fp_latestCharge src of Some f \<Rightarrow> Some f
     | None \<Rightarrow> case fp_firstCharge src of Some f \<Rightarrow> Some f | None \<Rightarrow> fp_charge src)"

record checkout_session =
  ss_id :: "string option"
  ss_client_reference_id :: "string option"
  ss_wopr_tenant :: "string option"
  ss_customer :: "string option"
  ss_amount_total :: "int option"
  ss_source :: fp_source

record subscription =
  su_id :: string
  su_wopr_bot_id :: "string option"
  su_wopr_tenant :: "string option"
  su_wopr_purchase_type :: "string option"
  su_customer :: string
  su_status :: string
  su_cancel_at_period_end :: bool

record payment_intent =
  pi_id :: string
  pi_wopr_tenant :: "string option"
  pi_wopr_source :: "string option"
  pi_amount :: int
  pi_source :: fp_source

record invoice =
  iv_id :: string
  iv_customer :: "string option"
  iv_amount_paid :: "int option"
  iv_source :: fp_source

record refunded_charge =
  rc_id :: string
  rc_customer :: "string option"
  rc_latestRefund :: "int option"
  rc_amount_refunded :: int

text \<open>The customer of a dispute is known when its charge is an expanded object.\<close>

record dispute =
  di_id :: string
  di_charge_customer :: "string option"
  di_amount :: int
  di_reason :: string
  di_status :: string

datatype stripe_object =
    Checkout_Completed checkout_session
  | Subscription_Changed subscription
  | Subscription_Deleted subscription
  | Payment_Intent_Succeeded payment_intent
  | Invoice_Payment_Failed invoice
  | Invoice_Payment_Succeeded invoice
  | Charge_Refunded refunded_charge
  | Dispute_Created dispute
  | Dispute_Closed dispute
  | Other_Event

record stripe_event =
  se_id :: string
  se_type :: string
  se_object :: stripe_object

record hook_result =
  hr_handled :: bool
  hr_event_type :: string
  hr_tenant :: "string option"
  hr_creditedCents :: "int option"
  hr_debitedCents :: "int option"
  hr_reactivatedBots :: "string list option"
  hr_suspendedBots :: "string list option"
  hr_duplicate :: "bool option"
  hr_affiliateBonus :: "credit option"
  hr_disputeId :: "string option"

record hook_deps =
  hd_priceMap :: "(int \<times> int) list option"
  hd_botBilling :: bool
  hd_affiliate :: "affiliate_config option"
  hd_email :: "(string \<Rightarrow> string option) option"
  hd_vps :: bool
  hd_promotions :: bool
  hd_domain :: string

definition outcome :: "bool \<Rightarrow> string \<Rightarrow> string option \<Rightarrow> hook_result" where
  "outcome handled ty tenant = \<lparr>hr_handled = handled, hr_event_type = ty, hr_tenant = tenant, hr_creditedCents = None,
     hr_debitedCents = None, hr_reactivatedBots = None, hr_suspendedBots = None, hr_duplicate = None,
     hr_affiliateBonus = None, hr_disputeId = None\<rparr>"

definition non_empty :: "'a list \<Rightarrow> 'a list option" where
  "non_empty xs = (if xs = [] then None else Some xs)"

definition reactivated :: "hook_deps \<Rightarrow> string \<Rightarrow> string list option hook_act" where
  "reactivated deps tenant = (if hd_botBilling deps
     then abind (check_reactivation tenant) (\<lambda>ids. areturn (non_empty ids)) else areturn None)"

definition suspended_bots :: "hook_deps \<Rightarrow> string \<Rightarrow> string list option hook_act" where
  "suspended_bots deps tenant = (if hd_botBilling deps
     then abind (suspend_all tenant) (\<lambda>ids. areturn (non_empty ids)) else areturn None)"

definition mail_to :: "hook_deps \<Rightarrow> string \<Rightarrow> (string \<Rightarrow> mail) \<Rightarrow> unit hook_act" where
  "mail_to deps tenant m = amodify (\<lambda>s. case hd_email deps of None \<Rightarrow> s | Some f \<Rightarrow>
     if truthy (f tenant) then s\<lparr>hk_mails := hk_mails s @ [m (the (f tenant))]\<rparr> else s)"

definition dollars :: "rat \<Rightarrow> string" where
  "dollars cents = to_fixed2 (js_div cents 100)"

section \<open>Purchases\<close>

definition checkout_tenant :: "checkout_session \<Rightarrow> string option" where
  "checkout_tenant ss = (case ss_client_reference_id ss of Some t \<Rightarrow> Some t | None \<Rightarrow> ss_wopr_tenant ss)"

definition session_reference :: "checkout_session \<Rightarrow> string" where
  "session_reference ss = (case ss_id ss of None \<Rightarrow> ''unknown'' | Some i \<Rightarrow> i)"

definition credit_cents :: "hook_deps \<Rightarrow> int \<Rightarrow> int" where
  "credit_cents deps amountPaid = (case hd_priceMap deps of None \<Rightarrow> amountPaid
     | Some points \<Rightarrow> case find (\<lambda>(a, _). a = amountPaid) points of None \<Rightarrow> amountPaid | Some (_, c) \<Rightarrow> c)"

definition purchase_opts :: "string \<Rightarrow> string \<Rightarrow> fp_source \<Rightarrow> credit_opts" where
  "purchase_opts description ref src = no_credit_opts\<lparr>c_description := Some description, c_referenceId := Some ref,
     c_fundingSource := Some ''stripe'', c_stripeFingerprint := extractStripeFingerprint src\<rparr>"

definition stripe_credit :: "string \<Rightarrow> int \<Rightarrow> string \<Rightarrow> string \<Rightarrow> fp_source \<Rightarrow> unit hook_act" where
  "stripe_credit tenant cents description ref src =
     abind (ledger_call (credit tenant (fromCents (of_int cents)) Purchase (purchase_opts description ref src)))
       (\<lambda>_. areturn ())"

definition affiliate_rewards :: "hook_deps \<Rightarrow> string \<Rightarrow> credit \<Rightarrow> credit option hook_act" where
  "affiliate_rewards deps tenant purchase = (case hd_affiliate deps of
     None \<Rightarrow> areturn None
   | Some cfg \<Rightarrow>
       abind (grantNewUserBonus tenant purchase (cf_newUserBonusRate cfg)) (\<lambda>bonus.
       abind (processAffiliateCreditMatch cfg None tenant purchase) (\<lambda>m.
       abind (case m of None \<Rightarrow> areturn () | Some (referrer, amt) \<Rightarrow>
           mail_to deps referrer (\<lambda>email. Affiliate_Mail referrer email (dollars (toCents amt)))) (\<lambda>_.
       areturn bonus))))"

definition promotion_rewards :: "hook_deps \<Rightarrow> string \<Rightarrow> credit \<Rightarrow> unit hook_act" where
  "promotion_rewards deps tenant purchase = (if hd_promotions deps
     then acatch (abind (evaluateAndGrant \<lparr>px_tenantId = tenant, px_trigger = Purchase_Trigger, px_couponCode = None,
        px_purchase = Some purchase\<rparr>) (\<lambda>_. areturn ())) (\<lambda>_. areturn ())
     else areturn ())"

definition session_note :: "checkout_session \<Rightarrow> string" where
  "session_note ss = ''Stripe credit purchase (session: '' @ session_reference ss @ '')''"

definition complete_purchase :: "hook_deps \<Rightarrow> string \<Rightarrow> checkout_session \<Rightarrow> string \<Rightarrow> int \<Rightarrow> hook_result hook_act" where
  "complete_purchase deps ty ss tenant cents =
     abind (stripe_credit tenant cents (session_note ss) (session_reference ss) (ss_source ss)) (\<lambda>_.
     abind (affiliate_rewards deps tenant (fromCents (of_int cents))) (\<lambda>bonus.
     abind (promotion_rewards deps tenant (fromCents (of_int cents))) (\<lambda>_.
     abind (reactivated deps tenant) (\<lambda>bots.
     areturn ((outcome True ty (Some tenant))\<lparr>hr_creditedCents := Some cents, hr_reactivatedBots := bots,
       hr_affiliateBonus := bonus\<rparr>)))))"

definition nothing_credited :: "string \<Rightarrow> string \<Rightarrow> hook_result" where
  "nothing_credited ty tenant = (outcome True ty (Some tenant))\<lparr>hr_creditedCents := Some 0\<rparr>"

definition on_checkout :: "hook_deps \<Rightarrow> string \<Rightarrow> checkout_session \<Rightarrow> hook_result hook_act" where
  "on_checkout deps ty ss =
     (if \<not> truthy (checkout_tenant ss) then areturn (outcome False ty None)
      else let tenant = the (checkout_tenant ss) in
        abind (if truthy (ss_customer ss) then customer_upsert tenant (the (ss_customer ss)) None else areturn ()) (\<lambda>_.
        case ss_amount_total ss of
          None \<Rightarrow> areturn (nothing_credited ty tenant)
        | Some paid \<Rightarrow>
            if paid \<le> 0 then areturn (nothing_credited ty tenant)
            else abind (has_reference (session_reference ss)) (\<lambda>seen.
              if seen then areturn (nothing_credited ty tenant)
              else complete_purchase deps ty ss tenant (credit_cents deps paid))))"

definition on_payment_intent :: "string \<Rightarrow> payment_intent \<Rightarrow> hook_result hook_act" where
  "on_payment_intent ty p =
     (if \<not> truthy (pi_wopr_tenant p) \<or> pi_amount p \<le> 0 then areturn (outcome False ty None)
      else let tenant = the (pi_wopr_tenant p) in
        abind (has_reference (pi_id p)) (\<lambda>seen.
        if seen then areturn (nothing_credited ty tenant)
        else abind (stripe_credit tenant (pi_amount p) (''Auto-topup webhook fallback ('' @ (case pi_wopr_source p of
              None \<Rightarrow> ''auto_topup_webhook_fallback'' | Some x \<Rightarrow> x) @ '')'') (pi_id p) (pi_source p)) (\<lambda>_.
          areturn ((outcome True ty (Some tenant))\<lparr>hr_creditedCents := Some (pi_amount p)\<rparr>))))"

text \<open>The handlers that find the tenant through the customer of the event.\<close>

definition with_tenant :: "string \<Rightarrow> string option \<Rightarrow> (string \<Rightarrow> hook_result hook_act) \<Rightarrow> hook_result hook_act" where
  "with_tenant ty customerId f =
     (if \<not> truthy customerId then areturn (outcome False ty None)
      else abind (aquery (\<lambda>s. Inr (getByProcessorCustomerId (the customerId) s))) (\<lambda>mapping. case mapping of
        None \<Rightarrow> areturn (outcome False ty None) | Some r \<Rightarrow> f (cu_tenant r)))"

definition on_invoice_failed :: "hook_deps \<Rightarrow> string \<Rightarrow> invoice \<Rightarrow> hook_result hook_act" where
  "on_invoice_failed deps ty i = with_tenant ty (iv_customer i) (\<lambda>tenant.
     abind (suspended_bots deps tenant) (\<lambda>bots.
     abind (mail_to deps tenant (Topup_Failed_Mail tenant)) (\<lambda>_.
     areturn ((outcome True ty (Some tenant))\<lparr>hr_suspendedBots := bots\<rparr>))))"

definition on_invoice_paid :: "hook_deps \<Rightarrow> string \<Rightarrow> invoice \<Rightarrow> hook_result hook_act" where
  "on_invoice_paid deps ty i = with_tenant ty (iv_customer i) (\<lambda>tenant.
     case iv_amount_paid i of
       None \<Rightarrow> areturn (nothing_credited ty tenant)
     | Some paid \<Rightarrow>
         if paid \<le> 0 then areturn (nothing_credited ty tenant)
         else abind (has_reference (iv_id i)) (\<lambda>seen.
           if seen then areturn (nothing_credited ty tenant)
           else abind (stripe_credit tenant paid (''Stripe subscription renewal (invoice: '' @ iv_id i @ '')'') (iv_id i) (iv_source i)) (\<lambda>_.
             abind (reactivated deps tenant) (\<lambda>bots.
             areturn ((outcome True ty (Some tenant))\<lparr>hr_creditedCents := Some paid, hr_reactivatedBots := bots\<rparr>)))))"

section \<open>Refunds and disputes\<close>

definition overdraw_opts :: "string \<Rightarrow> string \<Rightarrow> debit_opts" where
  "overdraw_opts description ref = no_debit_opts\<lparr>d_description := Some description, d_referenceId := Some ref,
     d_allowNegative := True\<rparr>"

definition refunded_cents :: "refunded_charge \<Rightarrow> int" where
  "refunded_cents c = (case rc_latestRefund c of None \<Rightarrow> rc_amount_refunded c | Some n \<Rightarrow> n)"

definition on_refund :: "string \<Rightarrow> string \<Rightarrow> refunded_charge \<Rightarrow> hook_result hook_act" where
  "on_refund eventId ty c =
     (if refunded_cents c \<le> 0 then areturn (outcome False ty None)
      else with_tenant ty (rc_customer c) (\<lambda>tenant.
        abind (has_reference eventId) (\<lambda>seen.
        if seen then areturn ((outcome True ty (Some tenant))\<lparr>hr_debitedCents := Some 0\<rparr>)
        else abind (ledger_call (debit tenant (fromCents (of_int (refunded_cents c))) Refund
            (overdraw_opts (''Stripe refund (charge: '' @ rc_id c @ '')'') eventId))) (\<lambda>_.
          areturn ((outcome True ty (Some tenant))\<lparr>hr_debitedCents := Some (refunded_cents c)\<rparr>)))))"

definition dispute_note :: "dispute \<Rightarrow> string" where
  "dispute_note d = ''Stripe dispute (dispute: '' @ di_id d @ '', reason: '' @ di_reason d @ '')''"

definition freeze_disputed :: "string \<Rightarrow> dispute \<Rightarrow> unit hook_act" where
  "freeze_disputed tenant d = abind (has_reference (di_id d)) (\<lambda>seen.
     if di_amount d > 0 \<and> \<not> seen
     then abind (ledger_call (debit tenant (fromCents (of_int (di_amount d))) Debit_Correction
         (overdraw_opts (dispute_note d) (di_id d)))) (\<lambda>_. areturn ())
     else areturn ())"

definition on_dispute_created :: "hook_deps \<Rightarrow> string \<Rightarrow> dispute \<Rightarrow> hook_result hook_act" where
  "on_dispute_created deps ty d = with_tenant ty (di_charge_customer d) (\<lambda>tenant.
     abind (setBillingHold tenant True) (\<lambda>_.
     abind (freeze_disputed tenant d) (\<lambda>_.
     abind (suspended_bots deps tenant) (\<lambda>bots.
     abind (mail_to deps tenant (\<lambda>email. Dispute_Created_Mail tenant email (di_id d)
         (CHR ''$'' # dollars (of_int (di_amount d))) (di_reason d))) (\<lambda>_.
     areturn ((outcome True ty (Some tenant))\<lparr>hr_disputeId := Some (di_id d), hr_suspendedBots := bots\<rparr>))))))"

definition reversal_reference :: "dispute \<Rightarrow> string" where
  "reversal_reference d = di_id d @ '':reversal''"

definition reversal_opts :: "dispute \<Rightarrow> credit_opts" where
  "reversal_opts d = no_credit_opts\<lparr>c_description := Some (''Stripe dispute won - credits restored (dispute: '' @ di_id d @ '')''),
     c_referenceId := Some (reversal_reference d), c_fundingSource := Some ''stripe''\<rparr>"

definition restore_disputed :: "string \<Rightarrow> dispute \<Rightarrow> unit hook_act" where
  "restore_disputed tenant d = abind (has_reference (reversal_reference d)) (\<lambda>seen.
     if di_amount d > 0 \<and> \<not> seen
     then abind (ledger_call (credit tenant (fromCents (of_int (di_amount d))) Credit_Correction (reversal_opts d)))
       (\<lambda>_. areturn ())
     else areturn ())"

definition on_dispute_closed :: "hook_deps \<Rightarrow> string \<Rightarrow> dispute \<Rightarrow> hook_result hook_act" where
  "on_dispute_closed deps ty d = with_tenant ty (di_charge_customer d) (\<lambda>tenant.
     if di_status d = ''won'' then
       abind (setBillingHold tenant False) (\<lambda>_.
       abind (restore_disputed tenant d) (\<lambda>_.
       abind (reactivated deps tenant) (\<lambda>bots.
       abind (mail_to deps tenant (\<lambda>email. Dispute_Won_Mail tenant email (di_id d)
           (CHR ''$'' # dollars (of_int (di_amount d))))) (\<lambda>_.
       areturn ((outcome True ty (Some tenant))\<lparr>hr_disputeId := Some (di_id d), hr_reactivatedBots := bots\<rparr>)))))
     else
       abind (mail_to deps tenant (\<lambda>email. Dispute_Lost_Mail tenant email (di_id d)
           (CHR ''$'' # dollars (of_int (di_amount d))))) (\<lambda>_.
       areturn ((outcome True ty (Some tenant))\<lparr>hr_disputeId := Some (di_id d)\<rparr>)))"

section \<open>Subscriptions\<close>

definition vps_hostname :: "hook_deps \<Rightarrow> string \<Rightarrow> string" where
  "vps_hostname deps tenant = tenant @ ''.bot.'' @ hd_domain deps"

definition on_subscription :: "hook_deps \<Rightarrow> string \<Rightarrow> subscription \<Rightarrow> hook_result hook_act" where
  "on_subscription deps ty su =
     (if \<not> truthy (su_wopr_bot_id su) \<or> \<not> truthy (su_wopr_tenant su) \<or> su_wopr_purchase_type su \<noteq> Some ''vps''
        \<or> \<not> hd_vps deps
      then areturn (outcome False ty None)
      else let botId = the (su_wopr_bot_id su); tenant = the (su_wopr_tenant su) in
        abind (customer_upsert tenant (su_customer su) None) (\<lambda>_.
        abind (aquery (\<lambda>s. Inr (vps_by_bot botId s))) (\<lambda>existing.
        abind (if su_status su = ''active''
               then if existing = None
                    then create_vps botId tenant (su_id su) (su_customer su) (Some (vps_hostname deps tenant)) None
                    else vps_updateStatus botId Vps_Active
               else if su_status su = ''canceled'' then awhen (existing \<noteq> None) (vps_updateStatus botId Vps_Canceled)
               else awhen (su_cancel_at_period_end su \<and> existing \<noteq> None) (vps_updateStatus botId Vps_Canceling)) (\<lambda>_.
        areturn (outcome True ty (Some tenant))))))"

definition on_subscription_deleted :: "hook_deps \<Rightarrow> string \<Rightarrow> subscription \<Rightarrow> hook_result hook_act" where
  "on_subscription_deleted deps ty su =
     (if \<not> truthy (su_wopr_bot_id su) \<or> \<not> hd_vps deps then areturn (outcome False ty None)
      else let botId = the (su_wopr_bot_id su) in
        abind (aquery (\<lambda>s. Inr (vps_by_bot botId s))) (\<lambda>existing.
        abind (awhen (existing \<noteq> None) (vps_updateStatus botId Vps_Canceled)) (\<lambda>_.
        areturn (outcome True ty (su_wopr_tenant su)))))"

section \<open>The handler\<close>

definition process_event :: "hook_deps \<Rightarrow> stripe_event \<Rightarrow> hook_result hook_act" where
  "process_event deps e = (case se_object e of
     Checkout_Completed ss \<Rightarrow> on_checkout deps (se_type e) ss
   | Subscription_Changed su \<Rightarrow> on_subscription deps (se_type e) su
   | Subscription_Deleted su \<Rightarrow> on_subscription_deleted deps (se_type e) su
   | Payment_Intent_Succeeded p \<Rightarrow> on_payment_intent (se_type e) p
   | Invoice_Payment_Failed i \<Rightarrow> on_invoice_failed deps (se_type e) i
   | Invoice_Payment_Succeeded i \<Rightarrow> on_invoice_paid deps (se_type e) i
   | Charge_Refunded c \<Rightarrow> on_refund (se_id e) (se_type e) c
   | Dispute_Created d \<Rightarrow> on_dispute_created deps (se_type e) d
   | Dispute_Closed d \<Rightarrow> on_dispute_closed deps (se_type e) d
   | Other_Event \<Rightarrow> areturn (outcome False (se_type e) None))"

definition handleWebhookEvent :: "hook_deps \<Rightarrow> stripe_event \<Rightarrow> hook_result hook_act" where
  "handleWebhookEvent deps e =
     abind (aquery (\<lambda>s. Inr (isDuplicate (se_id e) ''stripe'' s))) (\<lambda>duplicate.
     if duplicate then areturn ((outcome True (se_type e) None)\<lparr>hr_duplicate := Some True\<rparr>)
     else abind (process_event deps e) (\<lambda>result.
       abind (markSeen (se_id e) ''stripe'') (\<lambda>_. areturn result)))"

section \<open>What an event does to the ledger\<close>

lemma abind_Inr_iff:
  "abind m f s = (Inr b, s') \<longleftrightarrow> (\<exists>a s1. m s = (Inr a, s1) \<and> f a s1 = (Inr b, s'))"
  by (auto simp: abind_def split: prod.splits sum.splits)

lemma moves_pay: "moves pay_moves m \<longleftrightarrow> (\<forall>s. pay_moves s (snd (m s)))"
proof -
  have "pay_moves\<^sup>*\<^sup>* s t \<Longrightarrow> pay_moves s t" for s t :: "'a pay_scheme"
    by (induction rule: rtranclp_induct) (auto simp: pay_moves_def)
  then show ?thesis by (auto simp: moves_def)
qed

text \<open>An action that leaves the ledger alone, and one that only takes steps of the ledger.\<close>

definition silent :: "('s pay_scheme, 'e, 'a) act \<Rightarrow> bool" where
  "silent m \<longleftrightarrow> (\<forall>s. y_db (snd (m s)) = y_db s)"

named_theorems silent_intros "sequences of actions that leave the ledger alone"
named_theorems silent_atoms "calls that leave the ledger alone"

lemma silent_moves: "silent m \<Longrightarrow> moves pay_moves m"
  by (simp add: silent_def moves_pay pay_moves_def)

lemma silent_base [silent_atoms]:
  "silent (areturn a)" "silent (athrow e)" "silent (aquery q)" "silent (has_reference r)"
  by (simp_all add: silent_def areturn_def athrow_def aquery_def has_reference_def)

lemma silent_bind [silent_intros]: "silent m \<Longrightarrow> (\<And>a. silent (f a)) \<Longrightarrow> silent (abind m f)"
  by (auto simp: silent_def abind_def split: prod.splits sum.splits) (metis snd_conv)+

lemma silent_if [silent_intros]: "silent m \<Longrightarrow> silent n \<Longrightarrow> silent (if b then m else n)"
  by simp

lemma silent_when [silent_intros]: "silent m \<Longrightarrow> silent (awhen b m)"
  by (simp add: awhen_def silent_atoms)

lemma silent_option [silent_intros]: "silent m \<Longrightarrow> (\<And>y. silent (f y)) \<Longrightarrow> silent (case x of None \<Rightarrow> m | Some y \<Rightarrow> f y)"
  by (cases x) auto

lemma silent_modify: "(\<And>s. y_db (f s) = y_db s) \<Longrightarrow> silent (amodify f)"
  by (simp add: silent_def amodify_def)

lemma silent_bots [silent_atoms]: "silent (check_reactivation t)" "silent (suspend_all t)"
  by (auto simp: silent_def check_reactivation_def suspend_all_def atomically_def split: sum.splits prod.splits)

lemma silent_seen [silent_atoms]: "silent (markSeen e r)"
  by (simp add: silent_def)

lemma silent_affiliate [silent_atoms]:
  "silent (markFirstPurchase t)" "silent (recordMatch t amt)" "silent (suppress t reason)" "silent (fraud_check fr t r)"
  "silent (purchase_history t)" "silent (credit_math x)"
  by (simp_all add: silent_def purchase_history_def aquery_def credit_math_def fraud_check_frame)

lemma silent_shop [silent_atoms]:
  "silent (incrementUsageIfAllowed i n b u)" "silent (create_redemption i t c n x p)" "silent (redeem i t)"
  by (auto simp: silent_def incrementUsageIfAllowed_def update_promotion_def create_redemption_def redeem_def amodify_def
      split: option.splits sum.splits)

lemma silent_hooks [silent_atoms]:
  "silent (customer_upsert t c tier)" "silent (setBillingHold t held)" "silent (mail_to deps t m)"
  "silent (create_vps b t i c hostname d)" "silent (vps_updateStatus b st)"
  by (auto simp: silent_def customer_upsert_def update_customer_def setBillingHold_def amodify_def mail_to_def create_vps_def
      vps_updateStatus_def update_vps_def split: option.splits)

lemma silent_wake [silent_atoms]: "silent (reactivated deps t)" "silent (suspended_bots deps t)"
  by (simp_all add: reactivated_def suspended_bots_def silent_intros silent_atoms)

lemma moves_ledger_call:
  assumes "\<And>d a d'. tx d = Inr (a, d') \<Longrightarrow> ledger_step d d'"
  shows "moves pay_moves (ledger_call tx)"
  using assms by (auto simp: moves_pay pay_moves_def ledger_call_def atomically_def split: sum.splits prod.splits)

lemma moves_credit [moves_intros]: "moves pay_moves (ledger_call (credit t amt ty opts))"
  by (rule moves_ledger_call) (rule step_credit)

lemma moves_debit [moves_intros]: "moves pay_moves (ledger_call (debit t amt ty opts))"
  by (rule moves_ledger_call) (rule step_debit)

lemma moves_option [moves_intros]:
  "moves R m \<Longrightarrow> (\<And>y. moves R (f y)) \<Longrightarrow> moves R (case x of None \<Rightarrow> m | Some y \<Rightarrow> f y)"
  by (cases x) auto

lemma moves_bonus [moves_intros]: "moves pay_moves (grantNewUserBonus t p rate)"
  unfolding grantNewUserBonus_def grant_bonus_def by (intro moves_intros silent_atoms[THEN silent_moves])

lemma moves_match [moves_intros]: "moves pay_moves (processAffiliateCreditMatch cfg fr t p)"
  unfolding processAffiliateCreditMatch_def pay_match_def record_payout_def
  by (auto intro!: moves_intros silent_atoms[THEN silent_moves] split: prod.split)

lemma moves_tryGrant [moves_intros]: "moves pay_moves (tryGrant p ctx)"
  unfolding tryGrant_def promo_grant_def by (auto intro!: moves_intros silent_atoms[THEN silent_moves] split: prod.split)

lemma moves_grant_each: "moves pay_moves (grant_each ctx ps)"
  by (induction ps) (auto intro!: moves_intros silent_atoms[THEN silent_moves])

lemma moves_evaluate [moves_intros]: "moves pay_moves (evaluateAndGrant ctx)"
  unfolding evaluateAndGrant_def by (auto intro!: moves_intros moves_grant_each silent_atoms[THEN silent_moves])

lemma moves_rewards [moves_intros]:
  "moves pay_moves (affiliate_rewards deps t p)" "moves pay_moves (promotion_rewards deps t p)"
  unfolding affiliate_rewards_def promotion_rewards_def
  by (auto intro!: moves_intros silent_atoms[THEN silent_moves] split: prod.split option.split)

lemma moves_stripe_credit [moves_intros]: "moves pay_moves (stripe_credit t c note r src)"
  unfolding stripe_credit_def by (intro moves_intros)

lemma movesD: "moves pay_moves m \<Longrightarrow> m s = (x, s') \<Longrightarrow> ledger_step\<^sup>*\<^sup>* (y_db s) (y_db s')"
  by (metis moves_pay pay_moves_def snd_conv)

lemma silentD: "silent m \<Longrightarrow> m s = (x, s') \<Longrightarrow> y_db s' = y_db s"
  by (metis silent_def snd_conv)

section \<open>Every event counts once\<close>

text \<open>The reference under which an event reaches the ledger, and events that never do.\<close>

fun object_reference :: "string \<Rightarrow> stripe_object \<Rightarrow> string" where
  "object_reference eventId (Checkout_Completed ss) = session_reference ss"
| "object_reference eventId (Payment_Intent_Succeeded p) = pi_id p"
| "object_reference eventId (Invoice_Payment_Succeeded i) = iv_id i"
| "object_reference eventId (Dispute_Created d) = di_id d"
| "object_reference eventId (Dispute_Closed d) = reversal_reference d"
| "object_reference eventId _ = eventId"

definition event_reference :: "stripe_event \<Rightarrow> string" where
  "event_reference e = object_reference (se_id e) (se_object e)"

fun inert :: "stripe_object \<Rightarrow> bool" where
  "inert (Dispute_Created d) \<longleftrightarrow> di_amount d \<le> 0"
| "inert (Dispute_Closed d) \<longleftrightarrow> di_amount d \<le> 0 \<or> di_status d \<noteq> ''won''"
| "inert _ \<longleftrightarrow> False"

text \<open>With its reference in the ledger, an action is silent.\<close>

definition quiet :: "string \<Rightarrow> ('s pay_scheme, 'e, 'a) act \<Rightarrow> bool" where
  "quiet r m \<longleftrightarrow> (\<forall>s. hasReferenceId r (y_db s) \<longrightarrow> y_db (snd (m s)) = y_db s)"

named_theorems quiet_intros "actions that are silent once their reference is used"

lemma quiet_silent: "silent m \<Longrightarrow> quiet r m"
  by (simp add: quiet_def silent_def)

lemma quiet_bind [quiet_intros]:
  assumes "quiet r m" "\<And>a. quiet r (f a)"
  shows "quiet r (abind m f)"
  unfolding quiet_def
proof (intro allI impI)
  fix s :: "'a pay_scheme"
  assume h: "hasReferenceId r (y_db s)"
  obtain x s1 where m: "m s = (x, s1)" by fastforce
  then have "y_db s1 = y_db s" using assms(1) h by (metis quiet_def snd_conv)
  then show "y_db (snd (abind m f s)) = y_db s"
    using assms(2) h m by (cases x) (auto simp: abind_def quiet_def)
qed

lemma quiet_look [quiet_intros]: "quiet r (f True) \<Longrightarrow> quiet r (abind (has_reference r) f)"
  by (simp add: quiet_def abind_def has_reference_def aquery_def)

lemma quiet_if [quiet_intros]: "quiet r m \<Longrightarrow> quiet r n \<Longrightarrow> quiet r (if b then m else n)"
  by simp

lemma quiet_option [quiet_intros]: "quiet r m \<Longrightarrow> (\<And>y. quiet r (f y)) \<Longrightarrow> quiet r (case x of None \<Rightarrow> m | Some y \<Rightarrow> f y)"
  by (cases x) auto

lemma quiet_with_tenant [quiet_intros]: "(\<And>t. quiet r (f t)) \<Longrightarrow> quiet r (with_tenant ty c f)"
  unfolding with_tenant_def by (intro quiet_intros silent_atoms[THEN quiet_silent])

lemma quiet_checkout: "quiet (session_reference ss) (on_checkout deps ty ss)"
  unfolding on_checkout_def Let_def
  by (rule quiet_if, intro quiet_intros silent_atoms[THEN quiet_silent], rule quiet_bind, intro quiet_intros silent_atoms[THEN quiet_silent],
      rule quiet_option, intro quiet_intros silent_atoms[THEN quiet_silent], rule quiet_if, intro quiet_intros silent_atoms[THEN quiet_silent],
      rule quiet_look, simp, intro quiet_intros silent_atoms[THEN quiet_silent])

lemma quiet_intent: "quiet (pi_id p) (on_payment_intent ty p)"
  unfolding on_payment_intent_def Let_def
  by (rule quiet_if, intro quiet_intros silent_atoms[THEN quiet_silent], rule quiet_look, simp, intro quiet_intros silent_atoms[THEN quiet_silent])

lemma quiet_invoice: "quiet (iv_id i) (on_invoice_paid deps ty i)"
  unfolding on_invoice_paid_def
  by (rule quiet_with_tenant, rule quiet_option, intro quiet_intros silent_atoms[THEN quiet_silent], rule quiet_if,
      intro quiet_intros silent_atoms[THEN quiet_silent], rule quiet_look, simp, intro quiet_intros silent_atoms[THEN quiet_silent])

lemma quiet_refund: "quiet e (on_refund e ty c)"
  unfolding on_refund_def
  by (rule quiet_if, intro quiet_intros silent_atoms[THEN quiet_silent], rule quiet_with_tenant, rule quiet_look, simp,
      intro quiet_intros silent_atoms[THEN quiet_silent])

lemma quiet_freeze [quiet_intros]: "quiet (di_id d) (freeze_disputed t d)"
  unfolding freeze_disputed_def by (rule quiet_look, simp, intro quiet_intros silent_atoms[THEN quiet_silent])

lemma quiet_restore [quiet_intros]: "quiet (reversal_reference d) (restore_disputed t d)"
  unfolding restore_disputed_def by (rule quiet_look, simp, intro quiet_intros silent_atoms[THEN quiet_silent])

lemma silent_small:
  "di_amount d \<le> 0 \<Longrightarrow> silent (freeze_disputed t d)" "di_amount d \<le> 0 \<Longrightarrow> silent (restore_disputed t d)"
  by (simp_all add: freeze_disputed_def restore_disputed_def silent_intros silent_atoms)

lemma silent_with_tenant: "(\<And>t. silent (f t)) \<Longrightarrow> silent (with_tenant ty c f)"
  unfolding with_tenant_def by (intro silent_intros silent_atoms)

lemma silent_others:
  "silent (on_invoice_failed deps ty i)" "silent (on_subscription deps ty su)" "silent (on_subscription_deleted deps ty su)"
  unfolding on_invoice_failed_def on_subscription_def on_subscription_deleted_def Let_def
  by (intro silent_with_tenant silent_intros silent_atoms)+

lemma process_quiet: "quiet (event_reference e) (process_event deps e)"
proof (cases "se_object e")
  case (Dispute_Created d)
  then show ?thesis
    by (auto simp: process_event_def event_reference_def on_dispute_created_def intro!: quiet_intros silent_atoms[THEN quiet_silent])
next
  case (Dispute_Closed d)
  then show ?thesis
    by (auto simp: process_event_def event_reference_def on_dispute_closed_def intro!: quiet_intros silent_atoms[THEN quiet_silent])
qed (auto simp: process_event_def event_reference_def quiet_checkout quiet_intent quiet_invoice quiet_refund
    intro!: quiet_silent silent_others silent_atoms)

lemma process_inert:
  assumes "inert (se_object e)"
  shows "silent (process_event deps e)"
proof (cases "se_object e")
  case (Dispute_Created d)
  then show ?thesis using assms
    by (auto simp: process_event_def on_dispute_created_def intro!: silent_with_tenant silent_intros silent_atoms silent_small)
next
  case (Dispute_Closed d)
  then show ?thesis using assms
    by (cases "di_status d = ''won''")
      (auto simp: process_event_def on_dispute_closed_def intro!: silent_with_tenant silent_intros silent_atoms silent_small)
qed (use assms in simp_all)

lemma handle_quiet: "quiet (event_reference e) (handleWebhookEvent deps e)"
  unfolding handleWebhookEvent_def by (intro quiet_intros process_quiet silent_atoms[THEN quiet_silent])

lemma handle_inert: "inert (se_object e) \<Longrightarrow> silent (handleWebhookEvent deps e)"
  unfolding handleWebhookEvent_def by (intro silent_intros silent_atoms process_inert)

text \<open>What a handled event has put into the ledger.\<close>

definition took_effect :: "stripe_event \<Rightarrow> hook_result \<Rightarrow> db \<Rightarrow> db \<Rightarrow> bool" where
  "took_effect e res d d' \<longleftrightarrow>
     (\<forall>n. hr_creditedCents res = Some n \<and> n \<noteq> 0 \<longrightarrow> (\<exists>t opts je d1. hr_tenant res = Some t
        \<and> credit t (fromCents (of_int n)) Purchase (opts\<lparr>c_referenceId := Some (event_reference e)\<rparr>) d = Inr (je, d1)
        \<and> ledger_step\<^sup>*\<^sup>* d1 d'))
     \<and> (\<forall>n. hr_debitedCents res = Some n \<and> n \<noteq> 0 \<longrightarrow> (\<exists>t opts je. hr_tenant res = Some t
        \<and> debit t (fromCents (of_int n)) Refund (opts\<lparr>d_referenceId := Some (event_reference e)\<rparr>) d = Inr (je, d')))"

definition acted :: "hook_result \<Rightarrow> bool" where
  "acted res \<longleftrightarrow> hr_creditedCents res \<notin> {None, Some 0} \<or> hr_debitedCents res \<notin> {None, Some 0} \<or> hr_disputeId res \<noteq> None"

lemma ledger_call_Inr:
  "ledger_call tx s = (Inr a, s') \<longleftrightarrow> (\<exists>d. tx (y_db s) = Inr (a, d) \<and> s' = s\<lparr>y_db := d\<rparr>)"
  by (auto simp: ledger_call_def atomically_def split: sum.splits)

lemma stripe_credit_Inr:
  assumes "stripe_credit t n note r src s = (Inr (), s')"
  shows "\<exists>opts je. credit t (fromCents (of_int n)) Purchase (opts\<lparr>c_referenceId := Some r\<rparr>) (y_db s) = Inr (je, y_db s')"
proof -
  have "purchase_opts note r src = (purchase_opts note r src)\<lparr>c_referenceId := Some r\<rparr>" by (simp add: purchase_opts_def)
  then show ?thesis using assms
    by (auto simp: stripe_credit_def abind_Inr_iff ledger_call_Inr areturn_def) metis
qed

lemma complete_purchase_effect:
  assumes "complete_purchase deps ty ss t n s = (Inr res, s')" "se_object e = Checkout_Completed ss"
  shows "took_effect e res (y_db s) (y_db s') \<and> hr_debitedCents res = None \<and> hr_disputeId res = None"
proof -
  obtain s1 bonus s2 s3 bots where run: "stripe_credit t n (session_note ss) (session_reference ss) (ss_source ss) s = (Inr (), s1)"
      "affiliate_rewards deps t (fromCents (of_int n)) s1 = (Inr bonus, s2)"
      "promotion_rewards deps t (fromCents (of_int n)) s2 = (Inr (), s3)" "reactivated deps t s3 = (Inr bots, s')"
      "res = (outcome True ty (Some t))\<lparr>hr_creditedCents := Some n, hr_reactivatedBots := bots, hr_affiliateBonus := bonus\<rparr>"
    using assms(1) by (auto simp: complete_purchase_def abind_Inr_iff areturn_def)
  have "ledger_step\<^sup>*\<^sup>* (y_db s1) (y_db s')"
    using movesD[OF moves_rewards(1) run(2)] movesD[OF moves_rewards(2) run(3)] silentD[OF silent_wake(1) run(4)]
    by (auto intro: rtranclp_trans)
  then show ?thesis using stripe_credit_Inr[OF run(1)] run(5) assms(2)
    by (auto simp: took_effect_def outcome_def event_reference_def)
qed

lemma nothing_effect: "took_effect e (outcome b ty t) d d'" "\<not> acted (outcome b ty t)"
  "took_effect e (nothing_credited ty u) d d'" "\<not> acted (nothing_credited ty u)"
  by (simp_all add: took_effect_def acted_def outcome_def nothing_credited_def)

lemma checkout_effect:
  assumes "on_checkout deps ty ss s = (Inr res, s')" "se_object e = Checkout_Completed ss"
  shows "took_effect e res (y_db s) (y_db s') \<and> hr_debitedCents res = None \<and> hr_disputeId res = None"
proof (cases "truthy (checkout_tenant ss)")
  case True
  let ?up = "if truthy (ss_customer ss) then customer_upsert (the (checkout_tenant ss)) (the (ss_customer ss)) None else areturn ()"
  obtain s1 where up: "?up s = (Inr (), s1)"
    using assms(1) True by (auto simp: on_checkout_def Let_def abind_Inr_iff split: if_splits)
  have db: "y_db s1 = y_db s"
    using silentD[OF silent_if[OF silent_hooks(1) silent_base(1)] up] .
  show ?thesis
  proof (cases "res = nothing_credited ty (the (checkout_tenant ss))")
    case True
    then show ?thesis using nothing_effect by (simp add: nothing_credited_def outcome_def)
  next
    case False
    then obtain paid where p: "complete_purchase deps ty ss (the (checkout_tenant ss)) (credit_cents deps paid) s1 = (Inr res, s')"
      using assms(1) True up
      by (auto simp: on_checkout_def Let_def abind_Inr_iff has_reference_def aquery_def areturn_def
          split: if_splits option.splits)
    show ?thesis using complete_purchase_effect[OF p assms(2)] db by simp
  qed
qed (use assms in \<open>auto simp: on_checkout_def areturn_def nothing_effect, simp_all add: outcome_def\<close>)

lemma with_tenant_Inr:
  assumes "with_tenant ty c f s = (Inr res, s')"
  obtains "res = outcome False ty None" "s' = s" | t where "f t s = (Inr res, s')"
  using assms by (auto simp: with_tenant_def abind_Inr_iff aquery_def areturn_def split: if_splits option.splits)

lemma steps_keep_reference:
  "ledger_step\<^sup>*\<^sup>* d d' \<Longrightarrow> ledger_reachable d \<Longrightarrow> hasReferenceId r d \<Longrightarrow> hasReferenceId r d' \<and> ledger_reachable d'"
  by (induction rule: rtranclp_induct) (auto intro: keeps_reference reach_step)

lemma took_reference:
  assumes "took_effect e res d d'" "ledger_reachable d"
    and "hr_creditedCents res \<notin> {None, Some 0} \<or> hr_debitedCents res \<notin> {None, Some 0}"
  shows "hasReferenceId (event_reference e) d'"
proof (cases "hr_creditedCents res \<notin> {None, Some 0}")
  case True
  then obtain n t opts je d1 where c: "credit t (fromCents (of_int n)) Purchase
      (opts\<lparr>c_referenceId := Some (event_reference e)\<rparr>) d = Inr (je, d1)" "ledger_step\<^sup>*\<^sup>* d1 d'"
    using assms(1) by (auto simp: took_effect_def)
  have "hasReferenceId (event_reference e) d1" using credit_reference[OF c(1) reachable_core[OF assms(2)]] .
  then show ?thesis using steps_keep_reference[OF c(2) reach_step[OF assms(2) step_credit[OF c(1)]]] by blast
next
  case False
  then obtain n t opts je where "debit t (fromCents (of_int n)) Refund
      (opts\<lparr>d_referenceId := Some (event_reference e)\<rparr>) d = Inr (je, d')"
    using assms(1,3) by (auto simp: took_effect_def)
  then show ?thesis using debit_reference reachable_core[OF assms(2)] by blast
qed

lemma intent_effect:
  assumes "on_payment_intent ty p s = (Inr res, s')" "se_object e = Payment_Intent_Succeeded p"
  shows "took_effect e res (y_db s) (y_db s') \<and> hr_disputeId res = None"
proof (cases "hr_creditedCents res \<in> {None, Some 0}")
  case True
  then show ?thesis using assms(1)
    by (auto simp: took_effect_def on_payment_intent_def Let_def abind_Inr_iff areturn_def has_reference_def aquery_def
        outcome_def nothing_credited_def split: if_splits)
next
  case False
  then obtain msg t where "stripe_credit t (pi_amount p) msg (pi_id p) (pi_source p) s = (Inr (), s')"
      "res = (outcome True ty (Some t))\<lparr>hr_creditedCents := Some (pi_amount p)\<rparr>"
    using assms(1)
    by (auto simp: on_payment_intent_def Let_def abind_Inr_iff areturn_def has_reference_def aquery_def
        outcome_def nothing_credited_def split: if_splits)
  then show ?thesis using stripe_credit_Inr assms(2)
    by (fastforce simp: took_effect_def outcome_def event_reference_def)
qed

lemma invoice_effect:
  assumes "on_invoice_paid deps ty i s = (Inr res, s')" "se_object e = Invoice_Payment_Succeeded i"
  shows "took_effect e res (y_db s) (y_db s') \<and> hr_disputeId res = None"
  using assms(1) unfolding on_invoice_paid_def
proof (cases rule: with_tenant_Inr)
  case 1
  then show ?thesis by (simp add: took_effect_def outcome_def)
next
  case (2 t)
  show ?thesis
  proof (cases "res = nothing_credited ty t")
    case True
    then show ?thesis by (simp add: nothing_effect) (simp add: nothing_credited_def outcome_def)
  next
    case False
    then obtain msg paid s1 bots where r: "stripe_credit t paid msg (iv_id i) (iv_source i) s = (Inr (), s1)"
        "reactivated deps t s1 = (Inr bots, s')"
        "res = (outcome True ty (Some t))\<lparr>hr_creditedCents := Some paid, hr_reactivatedBots := bots\<rparr>"
      using 2 by (auto simp: abind_Inr_iff areturn_def has_reference_def aquery_def split: option.splits if_splits)
    have "y_db s' = y_db s1" using silentD[OF silent_wake(1) r(2)] .
    then show ?thesis using stripe_credit_Inr[OF r(1)] r(3) assms(2)
      by (auto simp: took_effect_def outcome_def event_reference_def)
  qed
qed

lemma overdraw_ref: "overdraw_opts msg r = (overdraw_opts msg r)\<lparr>d_referenceId := Some r\<rparr>"
  by (simp add: overdraw_opts_def)

lemma refund_effect:
  assumes "on_refund (se_id e) ty c s = (Inr res, s')" "se_object e = Charge_Refunded c"
  shows "took_effect e res (y_db s) (y_db s') \<and> hr_disputeId res = None"
proof (cases "refunded_cents c \<le> 0")
  case True
  then show ?thesis using assms(1) by (simp add: on_refund_def areturn_def) (auto simp: nothing_effect, simp add: outcome_def)
next
  case False
  then have "with_tenant ty (rc_customer c) (\<lambda>tenant.
        abind (has_reference (se_id e)) (\<lambda>seen.
        if seen then areturn ((outcome True ty (Some tenant))\<lparr>hr_debitedCents := Some 0\<rparr>)
        else abind (ledger_call (debit tenant (fromCents (of_int (refunded_cents c))) Refund
            (overdraw_opts (''Stripe refund (charge: '' @ rc_id c @ '')'') (se_id e)))) (\<lambda>_.
          areturn ((outcome True ty (Some tenant))\<lparr>hr_debitedCents := Some (refunded_cents c)\<rparr>)))) s = (Inr res, s')"
    using assms(1) by (simp add: on_refund_def)
  then show ?thesis
  proof (cases rule: with_tenant_Inr)
    case 1
    then show ?thesis by (simp add: took_effect_def outcome_def)
  next
    case (2 t)
    show ?thesis
    proof (cases "hasReferenceId (se_id e) (y_db s)")
      case True
      then show ?thesis using 2
        by (auto simp: abind_Inr_iff has_reference_def aquery_def areturn_def took_effect_def outcome_def)
    next
      case False
      then obtain je d msg where r: "debit t (fromCents (of_int (refunded_cents c))) Refund (overdraw_opts msg (se_id e)) (y_db s)
          = Inr (je, d)" "s' = s\<lparr>y_db := d\<rparr>" "res = (outcome True ty (Some t))\<lparr>hr_debitedCents := Some (refunded_cents c)\<rparr>"
        using 2 by (auto simp: abind_Inr_iff has_reference_def aquery_def areturn_def ledger_call_Inr)
      then show ?thesis using assms(2) overdraw_ref[of msg "se_id e"]
        by (auto simp: took_effect_def outcome_def event_reference_def) metis
    qed
  qed
qed

lemma freeze_effect:
  assumes "freeze_disputed t d s = (Inr (), s')" "0 < di_amount d" "\<not> hasReferenceId (di_id d) (y_db s)"
  obtains je where "debit t (fromCents (of_int (di_amount d))) Debit_Correction (overdraw_opts (dispute_note d) (di_id d)) (y_db s)
    = Inr (je, y_db s')" "y_bots s' = y_bots s" "hk_customers s' = hk_customers s"
  using assms
  by (auto simp: freeze_disputed_def abind_Inr_iff has_reference_def aquery_def areturn_def ledger_call_Inr)

lemma restore_effect:
  assumes "restore_disputed t d s = (Inr (), s')" "0 < di_amount d" "\<not> hasReferenceId (reversal_reference d) (y_db s)"
  obtains je where "credit t (fromCents (of_int (di_amount d))) Credit_Correction (reversal_opts d) (y_db s)
    = Inr (je, y_db s')" "y_bots s' = y_bots s" "hk_customers s' = hk_customers s" "y_now s' = y_now s"
  using assms
  by (auto simp: restore_disputed_def abind_Inr_iff has_reference_def aquery_def areturn_def ledger_call_Inr)

lemma freeze_reference:
  assumes "freeze_disputed t d s = (Inr (), s')" "ledger_reachable (y_db s)" "0 < di_amount d"
  shows "hasReferenceId (di_id d) (y_db s')"
proof (cases "hasReferenceId (di_id d) (y_db s)")
  case True
  then show ?thesis using assms(1)
    by (auto simp: freeze_disputed_def abind_Inr_iff has_reference_def aquery_def areturn_def)
next
  case False
  from freeze_effect[OF assms(1,3) this] obtain je where
    "debit t (fromCents (of_int (di_amount d))) Debit_Correction (overdraw_opts (dispute_note d) (di_id d)) (y_db s)
      = Inr (je, y_db s')" .
  then show ?thesis using debit_reference reachable_core[OF assms(2)] overdraw_ref by metis
qed

lemma reversal_ref: "reversal_opts d = (reversal_opts d)\<lparr>c_referenceId := Some (reversal_reference d)\<rparr>"
  by (simp add: reversal_opts_def)

lemma restore_reference:
  assumes "restore_disputed t d s = (Inr (), s')" "ledger_reachable (y_db s)" "0 < di_amount d"
  shows "hasReferenceId (reversal_reference d) (y_db s')"
proof (cases "hasReferenceId (reversal_reference d) (y_db s)")
  case True
  then show ?thesis using assms(1)
    by (auto simp: restore_disputed_def abind_Inr_iff has_reference_def aquery_def areturn_def)
next
  case False
  from restore_effect[OF assms(1,3) this] obtain je where
    "credit t (fromCents (of_int (di_amount d))) Credit_Correction (reversal_opts d) (y_db s) = Inr (je, y_db s')" .
  then show ?thesis using credit_reference reachable_core[OF assms(2)] reversal_ref by metis
qed

lemma setBillingHold_run:
  "setBillingHold t b s = (Inr (), snd (setBillingHold t b s))" "y_db (snd (setBillingHold t b s)) = y_db s"
  by (simp_all add: setBillingHold_def amodify_def update_customer_def)

lemma mail_to_run: "mail_to deps t m s = (Inr (), snd (mail_to deps t m s))"
  "y_db (snd (mail_to deps t m s)) = y_db s" "y_bots (snd (mail_to deps t m s)) = y_bots s"
  "hk_customers (snd (mail_to deps t m s)) = hk_customers s"
  by (simp_all add: mail_to_def amodify_def split: option.splits)

definition disputed_tenant :: "dispute \<Rightarrow> hooks \<Rightarrow> string \<Rightarrow> bool" where
  "disputed_tenant d s t \<longleftrightarrow> truthy (di_charge_customer d)
     \<and> (\<exists>r. getByProcessorCustomerId (the (di_charge_customer d)) s = Some r \<and> cu_tenant r = t)"

lemma with_tenant_dispute:
  assumes "with_tenant ty (di_charge_customer d) f s = (Inr res, s')"
  obtains "res = outcome False ty None" "s' = s" | t where "disputed_tenant d s t" "f t s = (Inr res, s')"
  using assms by (auto simp: with_tenant_def abind_Inr_iff aquery_def areturn_def disputed_tenant_def
      split: if_splits option.splits)

lemma abind_unit_iff:
  "abind m f s = (Inr b, s') \<longleftrightarrow> (\<exists>s1. m s = (Inr (), s1) \<and> f () s1 = (Inr b, s'))"
  by (simp add: abind_Inr_iff)

lemma abind_step: "m s = (Inr a, s1) \<Longrightarrow> abind m f s = f a s1"
  by (simp add: abind_def)

lemma dispute_created_run:
  assumes "on_dispute_created deps ty d s = (Inr res, s')"
  obtains "res = outcome False ty None" "s' = s"
  | t s1 s2 bots where "disputed_tenant d s t" "freeze_disputed t d (snd (setBillingHold t True s)) = (Inr (), s1)"
      "suspended_bots deps t s1 = (Inr bots, s2)" "y_db s' = y_db s2" "y_bots s' = y_bots s2" "hk_customers s' = hk_customers s2"
      "res = (outcome True ty (Some t))\<lparr>hr_disputeId := Some (di_id d), hr_suspendedBots := bots\<rparr>"
  using assms unfolding on_dispute_created_def
proof (cases rule: with_tenant_dispute)
  case (2 t)
  from 2(2) obtain s1 s2 bots where r: "freeze_disputed t d (snd (setBillingHold t True s)) = (Inr (), s1)"
      "suspended_bots deps t s1 = (Inr bots, s2)" "abind (mail_to deps t (\<lambda>email. Dispute_Created_Mail t email (di_id d)
         (CHR ''$'' # dollars (of_int (di_amount d))) (di_reason d))) (\<lambda>_.
       areturn ((outcome True ty (Some t))\<lparr>hr_disputeId := Some (di_id d), hr_suspendedBots := bots\<rparr>)) s2 = (Inr res, s')"
    by (simp only: abind_step[OF setBillingHold_run(1)] abind_unit_iff[of "freeze_disputed t d"] abind_Inr_iff[of "suspended_bots deps t"])
      blast
  let ?m = "mail_to deps t (\<lambda>email. Dispute_Created_Mail t email (di_id d) (CHR ''$'' # dollars (of_int (di_amount d))) (di_reason d))"
  have "s' = snd (?m s2)" "res = (outcome True ty (Some t))\<lparr>hr_disputeId := Some (di_id d), hr_suspendedBots := bots\<rparr>"
    using r(3) by (simp_all only: abind_step[OF mail_to_run(1)] areturn_def prod.inject sum.inject)
  then show ?thesis using r(1,2) 2(1) mail_to_run(2,3,4) by (intro that(2)) simp_all
qed (rule that)

lemma dispute_won_run:
  assumes "on_dispute_closed deps ty d s = (Inr res, s')" "di_status d = ''won''"
  obtains "res = outcome False ty None" "s' = s"
  | t s1 s2 bots where "disputed_tenant d s t" "restore_disputed t d (snd (setBillingHold t False s)) = (Inr (), s1)"
      "reactivated deps t s1 = (Inr bots, s2)" "y_db s' = y_db s2" "y_bots s' = y_bots s2" "hk_customers s' = hk_customers s2"
      "res = (outcome True ty (Some t))\<lparr>hr_disputeId := Some (di_id d), hr_reactivatedBots := bots\<rparr>"
  using assms(1) unfolding on_dispute_closed_def
proof (cases rule: with_tenant_dispute)
  case (2 t)
  from 2(2) obtain s1 s2 bots where r: "restore_disputed t d (snd (setBillingHold t False s)) = (Inr (), s1)"
      "reactivated deps t s1 = (Inr bots, s2)" "abind (mail_to deps t (\<lambda>email. Dispute_Won_Mail t email (di_id d)
           (CHR ''$'' # dollars (of_int (di_amount d))))) (\<lambda>_.
       areturn ((outcome True ty (Some t))\<lparr>hr_disputeId := Some (di_id d), hr_reactivatedBots := bots\<rparr>)) s2 = (Inr res, s')"
    by (simp only: assms(2) simp_thms if_True abind_step[OF setBillingHold_run(1)] abind_unit_iff[of "restore_disputed t d"]
        abind_Inr_iff[of "reactivated deps t"]) blast
  let ?m = "mail_to deps t (\<lambda>email. Dispute_Won_Mail t email (di_id d) (CHR ''$'' # dollars (of_int (di_amount d))))"
  have "s' = snd (?m s2)" "res = (outcome True ty (Some t))\<lparr>hr_disputeId := Some (di_id d), hr_reactivatedBots := bots\<rparr>"
    using r(3) by (simp_all only: abind_step[OF mail_to_run(1)] areturn_def prod.inject sum.inject)
  then show ?thesis using r(1,2) 2(1) mail_to_run(2,3,4) by (intro that(2)) simp_all
qed (rule that)


lemma others_result:
  assumes "process_event deps e s = (Inr res, s')"
    and "\<exists>su. se_object e = Subscription_Changed su \<or> se_object e = Subscription_Deleted su
      \<or> (\<exists>i. se_object e = Invoice_Payment_Failed i) \<or> se_object e = Other_Event"
  shows "hr_creditedCents res = None \<and> hr_debitedCents res = None \<and> hr_disputeId res = None"
  using assms
  by (auto simp: process_event_def on_subscription_def on_subscription_deleted_def on_invoice_failed_def Let_def
      abind_Inr_iff areturn_def outcome_def with_tenant_def split: if_splits option.splits)

text \<open>The interface of a handler: what it answers is in the ledger, under the reference of the event.\<close>

lemma handler_effect:
  assumes "took_effect e res (y_db s) (y_db s') \<and> hr_disputeId res = None" "ledger_reachable (y_db s)"
  shows "took_effect e res (y_db s) (y_db s')
    \<and> (acted res \<longrightarrow> inert (se_object e) \<or> hasReferenceId (event_reference e) (y_db s'))"
  using assms took_reference[of e res "y_db s" "y_db s'"] by (auto simp: acted_def)

lemma created_effect:
  assumes "on_dispute_created deps ty d s = (Inr res, s')" "se_object e = Dispute_Created d" "ledger_reachable (y_db s)"
  shows "took_effect e res (y_db s) (y_db s') \<and> (acted res \<longrightarrow> inert (se_object e) \<or> hasReferenceId (event_reference e) (y_db s'))"
  using assms(1)
proof (cases rule: dispute_created_run)
  case 1
  then show ?thesis by (simp add: nothing_effect)
next
  case (2 t s1 s2 bots)
  have "y_db s' = y_db s1" using silentD[OF silent_wake(2) 2(3)] 2(4) by simp
  then have "0 < di_amount d \<Longrightarrow> hasReferenceId (di_id d) (y_db s')"
    using freeze_reference[OF 2(2)] assms(3) setBillingHold_run(2) by simp
  then show ?thesis using 2(7) assms(2)
      by (cases "di_amount d \<le> 0") (auto simp: took_effect_def outcome_def event_reference_def)
qed

lemma closed_effect:
  assumes "on_dispute_closed deps ty d s = (Inr res, s')" "se_object e = Dispute_Closed d" "ledger_reachable (y_db s)"
  shows "took_effect e res (y_db s) (y_db s') \<and> (acted res \<longrightarrow> inert (se_object e) \<or> hasReferenceId (event_reference e) (y_db s'))"
proof (cases "di_status d = ''won''")
  case won: True
  show ?thesis using assms(1) won
  proof (cases rule: dispute_won_run)
    case 1
    then show ?thesis by (simp add: nothing_effect)
  next
    case (2 t s1 s2 bots)
    have "y_db s' = y_db s1" using silentD[OF silent_wake(1) 2(3)] 2(4) by simp
    then have "0 < di_amount d \<Longrightarrow> hasReferenceId (reversal_reference d) (y_db s')"
      using restore_reference[OF 2(2)] assms(3) setBillingHold_run(2) by simp
    then show ?thesis using 2(7) assms(2)
      by (cases "di_amount d \<le> 0") (auto simp: took_effect_def outcome_def event_reference_def)
  qed
next
  case False
  have "hr_creditedCents res = None \<and> hr_debitedCents res = None"
    using assms(1) False
    by (auto simp: on_dispute_closed_def with_tenant_def abind_Inr_iff areturn_def outcome_def split: if_splits option.splits)
  then show ?thesis using False assms(2) by (simp add: took_effect_def)
qed

lemma process_effect:
  assumes "process_event deps e s = (Inr res, s')" "ledger_reachable (y_db s)"
  shows "took_effect e res (y_db s) (y_db s') \<and> (acted res \<longrightarrow> inert (se_object e) \<or> hasReferenceId (event_reference e) (y_db s'))"
proof (cases "se_object e")
  case (Checkout_Completed ss)
  then show ?thesis using handler_effect[of e res s s', OF _ assms(2)] checkout_effect[of deps "se_type e" ss s res s' e] assms(1)
    by (simp add: process_event_def)
next
  case (Payment_Intent_Succeeded p)
  then show ?thesis using handler_effect[OF intent_effect assms(2), of "se_type e" p res s' e] assms(1)
    by (simp add: process_event_def)
next
  case (Invoice_Payment_Succeeded i)
  then show ?thesis using handler_effect[OF invoice_effect assms(2), of deps "se_type e" i res s' e] assms(1)
    by (simp add: process_event_def)
next
  case (Charge_Refunded c)
  then show ?thesis using handler_effect[OF refund_effect assms(2), of e "se_type e" c res s'] assms(1)
    by (simp add: process_event_def)
next
  case (Dispute_Created d)
  then show ?thesis using created_effect[OF _ _ assms(2)] assms(1) by (simp add: process_event_def)
next
  case (Dispute_Closed d)
  then show ?thesis using closed_effect[OF _ _ assms(2)] assms(1) by (simp add: process_event_def)
qed (use others_result[OF assms(1)] in \<open>auto simp: took_effect_def acted_def\<close>)

lemma handle_Inr:
  assumes "handleWebhookEvent deps e s = (Inr res, s')"
  obtains "res = (outcome True (se_type e) None)\<lparr>hr_duplicate := Some True\<rparr>" "s' = s"
  | s1 where "process_event deps e s = (Inr res, s1)" "s' = snd (markSeen (se_id e) ''stripe'' s1)"
proof (cases "isDuplicate (se_id e) ''stripe'' s")
  case True
  then show ?thesis using assms by (intro that(1)) (auto simp: handleWebhookEvent_def abind_Inr_iff aquery_def areturn_def)
next
  case False
  then obtain s1 where "process_event deps e s = (Inr res, s1)" "markSeen (se_id e) ''stripe'' s1 = (Inr (), s')"
    using assms by (auto simp: handleWebhookEvent_def abind_Inr_iff aquery_def areturn_def)
  then show ?thesis by (metis that(2) snd_conv)
qed

lemma handle_effect:
  assumes "handleWebhookEvent deps e s = (Inr res, s')" "ledger_reachable (y_db s)"
  shows "took_effect e res (y_db s) (y_db s') \<and> (acted res \<longrightarrow> inert (se_object e) \<or> hasReferenceId (event_reference e) (y_db s'))"
  using assms(1)
proof (cases rule: handle_Inr)
  case 1
  then show ?thesis by (simp add: took_effect_def acted_def outcome_def)
next
  case (2 s1)
  then show ?thesis using process_effect[OF 2(1) assms(2)] by simp
qed

lemma moves_with_tenant [moves_intros]: "(\<And>t. moves pay_moves (f t)) \<Longrightarrow> moves pay_moves (with_tenant ty c f)"
  unfolding with_tenant_def by (intro moves_intros silent_atoms[THEN silent_moves])

lemma moves_handlers [moves_intros]:
  "moves pay_moves (on_checkout deps ty ss)" "moves pay_moves (on_payment_intent ty p)"
  "moves pay_moves (on_invoice_paid deps ty i)" "moves pay_moves (on_refund eid ty c)"
  "moves pay_moves (on_dispute_created deps ty d)" "moves pay_moves (on_dispute_closed deps ty d)"
  unfolding on_checkout_def complete_purchase_def on_payment_intent_def on_invoice_paid_def on_refund_def Let_def
    on_dispute_created_def on_dispute_closed_def freeze_disputed_def restore_disputed_def
  by (intro moves_intros silent_atoms[THEN silent_moves])+

lemma moves_handle: "moves pay_moves (handleWebhookEvent deps e)"
  unfolding handleWebhookEvent_def process_event_def
  by (cases "se_object e") (auto intro!: moves_intros silent_atoms[THEN silent_moves] silent_others[THEN silent_moves])

lemma handle_reachable:
  assumes "ledger_reachable (y_db s)"
  shows "ledger_reachable (y_db (snd (handleWebhookEvent deps e s)))"
proof -
  have "ledger_step\<^sup>*\<^sup>* (y_db s) (y_db (snd (handleWebhookEvent deps e s)))"
    using moves_handle by (simp add: moves_pay pay_moves_def)
  then show ?thesis using assms by (induction rule: rtranclp_induct) (auto intro: reach_step)
qed

lemma suspended_customers: "hk_customers (snd (suspended_bots deps t s)) = hk_customers s"
  by (auto simp: suspended_bots_def suspend_all_def atomically_def abind_def areturn_def split: sum.splits prod.splits)

lemma reactivated_customers: "hk_customers (snd (reactivated deps t s)) = hk_customers s"
  by (auto simp: reactivated_def check_reactivation_def atomically_def abind_def areturn_def split: sum.splits prod.splits)

lemma markSeen_customers: "hk_customers (snd (markSeen e r s)) = hk_customers s"
  by (simp add: markSeen_def amodify_def)

lemma hold_after:
  assumes "hk_customers s' = hk_customers (snd (setBillingHold t b s))" "disputed_tenant d s t"
  shows "hasBillingHold t s' = b"
proof -
  obtain r where "r \<in> set (hk_customers s)" "cu_tenant r = t"
    using assms(2) by (auto simp: disputed_tenant_def getByProcessorCustomerId_def find_Some_iff) (metis nth_mem)
  then have "find (\<lambda>r. cu_tenant r = t) (hk_customers s) \<noteq> None" by (auto simp: find_None_iff)
  moreover have "hk_customers s' = map (\<lambda>r. if cu_tenant r = t
      then r\<lparr>cu_billingHold := (if b then 1 else 0), cu_updatedAt := y_now s\<rparr> else r) (hk_customers s)"
    using assms(1) by (simp add: setBillingHold_def amodify_def update_customer_def)
  ultimately have "customer_of t s' = map_option (\<lambda>r. if cu_tenant r = t
      then r\<lparr>cu_billingHold := (if b then 1 else 0), cu_updatedAt := y_now s\<rparr> else r) (customer_of t s)"
    and c: "customer_of t s \<noteq> None"
    by (simp_all add: customer_of_def find_map_if)
  moreover obtain y where "customer_of t s = Some y" "cu_tenant y = t"
    using c by (auto simp: customer_of_def find_Some_iff)
  ultimately show ?thesis by (simp add: hasBillingHold_def)
qed

lemma steps_reachable: "ledger_step\<^sup>*\<^sup>* d d' \<Longrightarrow> ledger_reachable d \<Longrightarrow> ledger_reachable d'"
  by (induction rule: rtranclp_induct) (auto intro: reach_step)

lemma created_takes:
  assumes "handleWebhookEvent deps e s = (Inr res, s1)" "se_object e = Dispute_Created d"
    and "hr_tenant res = Some t" "ledger_reachable (y_db s)" "0 < di_amount d" "\<not> hasReferenceId (di_id d) (y_db s)"
  shows "hasBillingHold t s1 \<and> stored_balance (tenant_code t) (y_db s1)
        = stored_balance (tenant_code t) (y_db s) - toRaw (fromCents (of_int (di_amount d)))"
  using assms(1)
proof (cases rule: handle_Inr)
  case (2 s2)
  then have "on_dispute_created deps (se_type e) d s = (Inr res, s2)" using assms(2) by (simp add: process_event_def)
  then show ?thesis
  proof (cases rule: dispute_created_run)
    case (2 t' s3 s4 bots)
    have t: "t' = t" using 2(7) assms(3) by (simp add: outcome_def)
    from freeze_effect[OF 2(2)] assms(5,6) setBillingHold_run(2) obtain je where
      f: "debit t (fromCents (of_int (di_amount d))) Debit_Correction (overdraw_opts (dispute_note d) (di_id d)) (y_db s)
          = Inr (je, y_db s3)" "hk_customers s3 = hk_customers (snd (setBillingHold t True s))"
      by (metis t)
    have "y_db s4 = y_db s3" using silentD[OF silent_wake(2) 2(3)] .
    moreover have "hk_customers s4 = hk_customers s3" using suspended_customers[of deps t' s3] 2(3) by simp
    ultimately show ?thesis
      using debit_effect_eq[OF f(1) reachable_core[OF assms(4)], of "tenant_code t"] f(2) 2(1,4,6) t \<open>s1 = _\<close>
        hold_after[of s1 t True s]
      by (simp add: debit_effect_def markSeen_customers)
  qed (use assms(3) in \<open>simp add: outcome_def\<close>)
qed (use assms(3) in \<open>simp add: outcome_def\<close>)

lemma won_returns:
  assumes "handleWebhookEvent deps e s = (Inr res, s1)" "se_object e = Dispute_Closed (d\<lparr>di_status := ''won''\<rparr>)"
    and "hr_tenant res = Some t" "ledger_reachable (y_db s)" "0 < di_amount d" "\<not> hasReferenceId (reversal_reference d) (y_db s)"
  shows "\<not> hasBillingHold t s1 \<and> stored_balance (tenant_code t) (y_db s1)
        = stored_balance (tenant_code t) (y_db s) + toRaw (fromCents (of_int (di_amount d)))"
  using assms(1)
proof (cases rule: handle_Inr)
  let ?d = "d\<lparr>di_status := ''won''\<rparr>"
  case (2 s2)
  then have "on_dispute_closed deps (se_type e) ?d s = (Inr res, s2)" "di_status ?d = ''won''"
    using assms(2) by (simp_all add: process_event_def)
  then show ?thesis
  proof (cases rule: dispute_won_run)
    case (2 t' s3 s4 bots)
    have t: "t' = t" using 2(7) assms(3) by (simp add: outcome_def)
    have "0 < di_amount ?d" "\<not> hasReferenceId (reversal_reference ?d) (y_db (snd (setBillingHold t' False s)))"
      using assms(5,6) by (simp_all add: reversal_reference_def setBillingHold_run(2))
    then have "\<exists>je. credit t (fromCents (of_int (di_amount d))) Credit_Correction (reversal_opts ?d) (y_db s) = Inr (je, y_db s3)
        \<and> hk_customers s3 = hk_customers (snd (setBillingHold t False s))"
      by (rule restore_effect[OF 2(2)]) (simp add: t setBillingHold_run(2))
    then obtain je where
      f: "credit t (fromCents (of_int (di_amount d))) Credit_Correction (reversal_opts ?d) (y_db s) = Inr (je, y_db s3)"
        "hk_customers s3 = hk_customers (snd (setBillingHold t False s))"
      by blast
    have "y_db s4 = y_db s3" using silentD[OF silent_wake(1) 2(3)] .
    moreover have "hk_customers s4 = hk_customers s3" using reactivated_customers[of deps t' s3] 2(3) by simp
    ultimately show ?thesis
      using credit_effect[OF f(1) reachable_core[OF assms(4)], of "tenant_code t"] f(2) 2(1,4,6) t \<open>s1 = _\<close>
        hold_after[of s1 t False s]
      by (simp add: markSeen_customers)
  qed (use assms(3) in \<open>simp add: outcome_def\<close>)
qed (use assms(3) in \<open>simp add: outcome_def\<close>)


definition plain_deps :: hook_deps where
  "plain_deps = \<lparr>hd_priceMap = None, hd_botBilling = True, hd_affiliate = None, hd_email = None, hd_vps = False,
     hd_promotions = False, hd_domain = ''example.com''\<rparr>"

definition new_hooks :: hooks where
  "new_hooks = \<lparr>y_db = funded, y_bots = \<lparr>bl_bots = [], bl_sent = []\<rparr>, y_seen = [], y_now = 5, af_codes = [],
     af_referrals = [], af_fraud = [], sh_promotions = [], sh_coupons = [], sh_redemptions = [],
     hk_customers = [\<lparr>cu_tenant = ''a'', cu_processorCustomerId = ''cus'', cu_processor = ''stripe'', cu_tier = ''free'',
       cu_billingHold = 0, cu_inferenceMode = ''byok'', cu_createdAt = 1, cu_updatedAt = 1\<rparr>],
     hk_vps = [], hk_mails = []\<rparr>"

definition some_refund :: stripe_event where
  "some_refund = \<lparr>se_id = ''evt'', se_type = ''charge.refunded'', se_object = Charge_Refunded
     \<lparr>rc_id = ''ch'', rc_customer = Some ''cus'', rc_latestRefund = Some 300, rc_amount_refunded = 300\<rparr>\<rparr>"

definition refunded_hooks :: hooks where
  "refunded_hooks = snd (handleWebhookEvent plain_deps some_refund new_hooks)"


text \<open>C24: A dispute that is won gives back what its opening took. Opening a dispute puts the tenant on
  billing hold and takes the disputed amount from the balance, below zero if need be; closing it as won,
  whatever the ledger did in between, lifts the hold and adds the same amount.\<close>

theorem dispute_won_restores:
  assumes "handleWebhookEvent deps e s = (Inr res, s1)" "se_object e = Dispute_Created d"
    and "hr_tenant res = Some t" "ledger_reachable (y_db s)" "0 < di_amount d" "\<not> hasReferenceId (di_id d) (y_db s)"
    and "ledger_step\<^sup>*\<^sup>* (y_db s1) (y_db u)" "handleWebhookEvent deps' e' u = (Inr res', u')"
    and "se_object e' = Dispute_Closed (d\<lparr>di_status := ''won''\<rparr>)" "hr_tenant res' = Some t"
    and "\<not> hasReferenceId (reversal_reference d) (y_db u)"
  shows "hasBillingHold t s1 \<and> \<not> hasBillingHold t u'
    \<and> stored_balance (tenant_code t) (y_db s1)
        = stored_balance (tenant_code t) (y_db s) - toRaw (fromCents (of_int (di_amount d)))
    \<and> stored_balance (tenant_code t) (y_db u')
        = stored_balance (tenant_code t) (y_db u) + toRaw (fromCents (of_int (di_amount d)))"
proof -
  have "ledger_reachable (y_db s1)" using handle_reachable[OF assms(4), of deps e] assms(1) by simp
  then have u: "ledger_reachable (y_db u)"
    using steps_reachable assms(7) by blast
  show ?thesis
    using created_takes[OF assms(1-6)] won_returns[OF assms(8,9,10) u assms(5,11)] by simp
qed

definition some_dispute :: dispute where
  "some_dispute = \<lparr>di_id = ''dp'', di_charge_customer = Some ''cus'', di_amount = 250, di_reason = ''fraudulent'',
     di_status = ''needs_response''\<rparr>"

definition dispute_event :: "string \<Rightarrow> string \<Rightarrow> stripe_object \<Rightarrow> stripe_event" where
  "dispute_event i ty ob = \<lparr>se_id = i, se_type = ty, se_object = ob\<rparr>"

definition disputed_hooks :: hooks where
  "disputed_hooks = snd (handleWebhookEvent plain_deps
     (dispute_event ''e1'' ''charge.dispute.created'' (Dispute_Created some_dispute)) new_hooks)"

definition won_event :: stripe_event where
  "won_event = dispute_event ''e2'' ''charge.dispute.closed'' (Dispute_Closed (some_dispute\<lparr>di_status := ''won''\<rparr>))"

theorem dispute_won_restores_witness:
  "stored_balance (tenant_code ''a'') (y_db (snd (handleWebhookEvent plain_deps won_event disputed_hooks)))
     = stored_balance (tenant_code ''a'') funded"
proof -
  let ?e = "dispute_event ''e1'' ''charge.dispute.created'' (Dispute_Created some_dispute)"
  have r: "case fst (handleWebhookEvent plain_deps ?e new_hooks) of Inl _ \<Rightarrow> False | Inr res \<Rightarrow> hr_tenant res = Some ''a''"
    and q: "case fst (handleWebhookEvent plain_deps won_event disputed_hooks) of Inl _ \<Rightarrow> False
      | Inr res \<Rightarrow> hr_tenant res = Some ''a''"
    and "\<not> hasReferenceId ''dp'' (y_db new_hooks) \<and> \<not> hasReferenceId ''dp:reversal'' (y_db disputed_hooks)"
    by code_simp+
  then have n: "\<not> hasReferenceId (di_id some_dispute) (y_db new_hooks)"
      "\<not> hasReferenceId (reversal_reference some_dispute) (y_db disputed_hooks)"
    by (simp_all add: some_dispute_def reversal_reference_def)
  obtain res where r1: "handleWebhookEvent plain_deps ?e new_hooks = (Inr res, disputed_hooks)" "hr_tenant res = Some ''a''"
    using r by (cases "handleWebhookEvent plain_deps ?e new_hooks") (auto simp: disputed_hooks_def split: sum.splits)
  obtain res' u' where r2: "handleWebhookEvent plain_deps won_event disputed_hooks = (Inr res', u')" "hr_tenant res' = Some ''a''"
    using q by (cases "handleWebhookEvent plain_deps won_event disputed_hooks") (auto split: sum.splits)
  have "y_db new_hooks = funded" by (simp add: new_hooks_def)
  moreover have "se_object ?e = Dispute_Created some_dispute" "0 < di_amount some_dispute"
      "se_object won_event = Dispute_Closed (some_dispute\<lparr>di_status := ''won''\<rparr>)"
    by (simp_all add: dispute_event_def some_dispute_def won_event_def)
  ultimately show ?thesis
    using dispute_won_restores[OF r1(1) _ r1(2) _ _ n(1) rtranclp.rtrancl_refl r2(1) _ r2(2) n(2)] funded_reachable r2(1)
    by simp
qed

end
