(* ===== verification/RateLimit.thy ===== *)
theory RateLimit
  imports Payments
begin

text \<open>
  The counters that protect the API and the gateway: the fixed-window rate limiter of
  \<open>src/api/middleware/rate-limit.ts\<close> with its table (\<open>src/api/drizzle-rate-limit-repository.ts\<close>) and the
  platform's rules, the limiter per capability (\<open>src/gateway/capability-rate-limit.ts\<close>), and the circuit
  breaker per bot instance (\<open>src/gateway/circuit-breaker.ts\<close>) with its table. Times are milliseconds,
  one reading of the clock per request.
\<close>

section \<open>Client addresses\<close>

fun split_on :: "char \<Rightarrow> string \<Rightarrow> string list" where
  "split_on c [] = [[]]"
| "split_on c (x # xs) = (if x = c then [] # split_on c xs
     else case split_on c xs of [] \<Rightarrow> [[x]] | p # ps \<Rightarrow> (x # p) # ps)"

definition is_space :: "char \<Rightarrow> bool" where
  "is_space c \<longleftrightarrow> of_char c \<in> {9, 10, 11, 12, 13, 32 :: nat}"

definition trim :: "string \<Rightarrow> string" where
  "trim s = rev (dropWhile is_space (rev (dropWhile is_space s)))"

definition is_digit :: "char \<Rightarrow> bool" where
  "is_digit c \<longleftrightarrow> 48 \<le> (of_char c :: nat) \<and> (of_char c :: nat) \<le> 57"

text \<open>\<open>Number.parseInt(s, 10)\<close>: \<open>None\<close> is \<open>NaN\<close>, which no comparison accepts.\<close>

definition parseInt :: "string \<Rightarrow> int option" where
  "parseInt s = (let t = dropWhile is_space s;
       (sign, u) = (case t of CHR ''-'' # r \<Rightarrow> (-1, r) | CHR ''+'' # r \<Rightarrow> (1, r) | _ \<Rightarrow> (1, t));
       ds = takeWhile is_digit u
     in if ds = [] then None else Some (sign * int (decimal_value ds)))"

definition parseTrustedProxies :: "string option \<Rightarrow> string list" where
  "parseTrustedProxies v = (if \<not> truthy v then [] else filter (\<lambda>p. p \<noteq> []) (map trim (split_on CHR '','' (the v))))"

definition normalizeIp :: "string \<Rightarrow> string" where
  "normalizeIp ip = (if take 7 ip = ''::ffff:'' then drop 7 ip else ip)"

definition isPrivateIp :: "string \<Rightarrow> bool" where
  "isPrivateIp ip = (let parts = split_on CHR ''.'' ip in
     length parts = 4 \<and>
     (let a = parseInt (parts ! 0); b = parseInt (parts ! 1) in
       a = Some 10 \<or> (a = Some 172 \<and> (case b of None \<Rightarrow> False | Some n \<Rightarrow> 16 \<le> n \<and> n \<le> 31))
       \<or> (a = Some 192 \<and> b = Some 168) \<or> a = Some 127))"

definition getClientIp :: "string option \<Rightarrow> string option \<Rightarrow> string list \<Rightarrow> string" where
  "getClientIp xff socket trusted =
     (let direct = (if truthy socket then the socket else ''unknown'');
          ip = normalizeIp (the socket)
      in if truthy xff \<and> truthy socket \<and> ip \<noteq> [] \<and> (ip \<in> set trusted \<or> isPrivateIp ip)
         then let first = trim (hd (split_on CHR '','' (the xff))) in if first \<noteq> [] then first else direct
         else direct)"

section \<open>Counter table\<close>

record rate_entry =
  re_key :: string
  re_scope :: string
  re_count :: int
  re_windowStart :: int

definition rate_row :: "string \<Rightarrow> string \<Rightarrow> rate_entry \<Rightarrow> bool" where
  "rate_row key scope r \<longleftrightarrow> re_key r = key \<and> re_scope r = scope"

definition rate_get :: "string \<Rightarrow> string \<Rightarrow> rate_entry list \<Rightarrow> rate_entry option" where
  "rate_get key scope db = find (rate_row key scope) db"

definition first_hit :: "string \<Rightarrow> string \<Rightarrow> int \<Rightarrow> rate_entry" where
  "first_hit key scope now = \<lparr>re_key = key, re_scope = scope, re_count = 1, re_windowStart = now\<rparr>"

text \<open>One upsert; the \<open>CASE\<close> of both columns reads the stored row.\<close>

definition next_hit :: "int \<Rightarrow> int \<Rightarrow> rate_entry \<Rightarrow> rate_entry" where
  "next_hit windowMs now r =
     (if now - re_windowStart r < windowMs then r\<lparr>re_count := re_count r + 1\<rparr>
      else r\<lparr>re_count := 1, re_windowStart := now\<rparr>)"

definition increment :: "string \<Rightarrow> string \<Rightarrow> int \<Rightarrow> int \<Rightarrow> rate_entry list \<Rightarrow> rate_entry \<times> rate_entry list" where
  "increment key scope windowMs now db = (case rate_get key scope db of
     None \<Rightarrow> (first_hit key scope now, db @ [first_hit key scope now])
   | Some r \<Rightarrow> (next_hit windowMs now r, map (\<lambda>x. if rate_row key scope x then next_hit windowMs now x else x) db))"

definition rate_purgeStale :: "int \<Rightarrow> int \<Rightarrow> rate_entry list \<Rightarrow> nat \<times> rate_entry list" where
  "rate_purgeStale windowMs now db =
     (let gone = (\<lambda>r. re_windowStart r < now - windowMs) in (length (filter gone db), filter (\<lambda>r. \<not> gone r) db))"

text \<open>The older table of \<open>src/middleware/\<close>: a read, then an update or an upsert.\<close>

definition increment_read_first :: "string \<Rightarrow> string \<Rightarrow> int \<Rightarrow> int \<Rightarrow> rate_entry list \<Rightarrow> rate_entry \<times> rate_entry list" where
  "increment_read_first key scope windowMs now db = (case rate_get key scope db of
     Some e \<Rightarrow>
       if now - re_windowStart e < windowMs
       then (\<lparr>re_key = key, re_scope = scope, re_count = re_count e + 1, re_windowStart = re_windowStart e\<rparr>,
             map (\<lambda>x. if rate_row key scope x then x\<lparr>re_count := re_count x + 1\<rparr> else x) db)
       else (first_hit key scope now,
             map (\<lambda>x. if rate_row key scope x then x\<lparr>re_count := 1, re_windowStart := now\<rparr> else x) db)
   | None \<Rightarrow> (first_hit key scope now, db @ [first_hit key scope now]))"

section \<open>Limiter\<close>

record rate_headers =
  rh_limit :: int
  rh_remaining :: int
  rh_reset :: int
  rh_retryAfter :: "int option"

datatype limit_answer = Unlimited | Within rate_headers | Exceeded rate_headers string

definition admitted :: "limit_answer \<Rightarrow> bool" where
  "admitted a = (case a of Exceeded _ _ \<Rightarrow> False | _ \<Rightarrow> True)"

definition ceil_seconds :: "int \<Rightarrow> int" where
  "ceil_seconds ms = - ((- ms) div 1000)"

definition limit_answer_of :: "int \<Rightarrow> int \<Rightarrow> string \<Rightarrow> int \<Rightarrow> rate_entry \<Rightarrow> limit_answer" where
  "limit_answer_of windowMs maximum message now e =
     (let reset = ceil_seconds (re_windowStart e + windowMs) in
      if re_count e > maximum
      then Exceeded \<lparr>rh_limit = maximum, rh_remaining = 0, rh_reset = reset,
             rh_retryAfter = Some (ceil_seconds (re_windowStart e + windowMs - now))\<rparr> message
      else Within \<lparr>rh_limit = maximum, rh_remaining = max 0 (maximum - re_count e), rh_reset = reset,
             rh_retryAfter = None\<rparr>)"

record rate_config =
  rc_max :: int
  rc_windowMs :: "int option"
  rc_message :: "string option"

definition window_of :: "rate_config \<Rightarrow> int" where
  "window_of cfg = (case rc_windowMs cfg of None \<Rightarrow> 60000 | Some w \<Rightarrow> w)"

definition message_of :: "rate_config \<Rightarrow> string" where
  "message_of cfg = (case rc_message cfg of None \<Rightarrow> ''Too many requests, please try again later'' | Some m \<Rightarrow> m)"

text \<open>Without a repository (\<open>None\<close>) the limiter is off.\<close>

definition rateLimit ::
  "rate_config \<Rightarrow> string option \<Rightarrow> string \<Rightarrow> int \<Rightarrow> rate_entry list option \<Rightarrow> limit_answer \<times> rate_entry list option" where
  "rateLimit cfg scope key now repo = (case repo of
     None \<Rightarrow> (Unlimited, None)
   | Some db \<Rightarrow>
       let (e, db') = increment key (case scope of None \<Rightarrow> ''default'' | Some x \<Rightarrow> x) (window_of cfg) now db
       in (limit_answer_of (window_of cfg) (rc_max cfg) (message_of cfg) now e, Some db'))"

section \<open>Rules per route\<close>

record rate_rule =
  rr_method :: string
  rr_pathPrefix :: string
  rr_config :: rate_config
  rr_scope :: "string option"

definition upper_char :: "char \<Rightarrow> char" where
  "upper_char c = (let n = of_char c :: nat in if 97 \<le> n \<and> n \<le> 122 then char_of (n - 32) else c)"

definition toUpperCase :: "string \<Rightarrow> string" where
  "toUpperCase = map upper_char"

definition startsWith :: "string \<Rightarrow> string \<Rightarrow> bool" where
  "startsWith s p \<longleftrightarrow> take (length p) s = p"

definition rule_matches :: "string \<Rightarrow> string \<Rightarrow> rate_rule \<Rightarrow> bool" where
  "rule_matches method path r \<longleftrightarrow>
     (rr_method r = ''*'' \<or> toUpperCase (rr_method r) = toUpperCase method) \<and> startsWith path (rr_pathPrefix r)"

definition rule_for :: "rate_rule list \<Rightarrow> rate_config \<Rightarrow> string \<Rightarrow> string \<Rightarrow> rate_config \<times> string" where
  "rule_for rules fallback method path = (case find (rule_matches method path) rules of
     None \<Rightarrow> (fallback, ''default'')
   | Some r \<Rightarrow> (rr_config r, case rr_scope r of None \<Rightarrow> rr_pathPrefix r | Some x \<Rightarrow> x))"

definition rateLimitByRoute ::
  "rate_rule list \<Rightarrow> rate_config \<Rightarrow> string \<Rightarrow> string \<Rightarrow> string \<Rightarrow> int \<Rightarrow> rate_entry list \<Rightarrow> limit_answer \<times> rate_entry list" where
  "rateLimitByRoute rules fallback method path key now db =
     (let (cfg, scope) = rule_for rules fallback method path;
          (e, db') = increment key scope (window_of cfg) now db
      in (limit_answer_of (window_of cfg) (rc_max cfg) (message_of cfg) now e, db'))"

definition per_minute :: "int \<Rightarrow> rate_config" where
  "per_minute n = \<lparr>rc_max = n, rc_windowMs = None, rc_message = None\<rparr>"

definition SETUP_INTENT_LIMIT :: rate_config where
  "SETUP_INTENT_LIMIT = \<lparr>rc_max = 5, rc_windowMs = None, rc_message = Some ''Too many setup intent requests''\<rparr>"

definition CRYPTO_CHECKOUT_LIMIT :: rate_config where
  "CRYPTO_CHECKOUT_LIMIT = \<lparr>rc_max = 10, rc_windowMs = None, rc_message = Some ''Too many crypto checkout requests''\<rparr>"

definition AUTH_LOGIN_LIMIT :: rate_config where
  "AUTH_LOGIN_LIMIT = \<lparr>rc_max = 5, rc_windowMs = Some (15 * 60 * 1000),
     rc_message = Some ''Too many login attempts. Please try again in 15 minutes.''\<rparr>"

definition AUTH_SIGNUP_LIMIT :: rate_config where
  "AUTH_SIGNUP_LIMIT = \<lparr>rc_max = 10, rc_windowMs = Some (60 * 60 * 1000),
     rc_message = Some ''Too many sign-up attempts. Please try again later.''\<rparr>"

definition AUTH_RESET_LIMIT :: rate_config where
  "AUTH_RESET_LIMIT = \<lparr>rc_max = 3, rc_windowMs = Some (60 * 60 * 1000),
     rc_message = Some ''Too many password reset requests. Please try again later.''\<rparr>"

definition ONBOARDING_SESSION_LIMIT :: rate_config where
  "ONBOARDING_SESSION_LIMIT = \<lparr>rc_max = 10, rc_windowMs = None, rc_message = Some ''Too many onboarding session requests''\<rparr>"

definition TRPC_BILLING_MUTATION_LIMIT :: rate_config where
  "TRPC_BILLING_MUTATION_LIMIT = \<lparr>rc_max = 10, rc_windowMs = None, rc_message = Some ''Too many billing requests''\<rparr>"

definition TRPC_COUPON_LIMIT :: rate_config where
  "TRPC_COUPON_LIMIT = \<lparr>rc_max = 5, rc_windowMs = None, rc_message = Some ''Too many coupon attempts''\<rparr>"

definition TRPC_PASSWORD_CHANGE_LIMIT :: rate_config where
  "TRPC_PASSWORD_CHANGE_LIMIT = \<lparr>rc_max = 5, rc_windowMs = Some (15 * 60 * 1000),
     rc_message = Some ''Too many password change attempts. Please try again later.''\<rparr>"

definition TRPC_ROLE_CHANGE_LIMIT :: rate_config where
  "TRPC_ROLE_CHANGE_LIMIT = \<lparr>rc_max = 5, rc_windowMs = None, rc_message = Some ''Too many role change requests''\<rparr>"

definition TRPC_FLEET_CREATE_LIMIT :: rate_config where
  "TRPC_FLEET_CREATE_LIMIT = \<lparr>rc_max = 10, rc_windowMs = None, rc_message = Some ''Too many instance creation requests''\<rparr>"

definition rate_rule_of :: "string \<times> string \<times> rate_config \<times> string \<Rightarrow> rate_rule" where
  "rate_rule_of = (\<lambda>(m, p, cfg, s). \<lparr>rr_method = m, rr_pathPrefix = p, rr_config = cfg, rr_scope = Some s\<rparr>)"

definition platformRateLimitRules :: "rate_rule list" where
  "platformRateLimitRules = map rate_rule_of
    [(''POST'', ''/trpc/billing.creditsCheckout'', TRPC_BILLING_MUTATION_LIMIT, ''trpc:billing-checkout''),
     (''POST'', ''/trpc/billing.cryptoCheckout'', TRPC_BILLING_MUTATION_LIMIT, ''trpc:billing-crypto''),
     (''POST'', ''/trpc/billing.portalSession'', TRPC_BILLING_MUTATION_LIMIT, ''trpc:billing-portal''),
     (''POST'', ''/trpc/billing.applyCoupon'', TRPC_COUPON_LIMIT, ''trpc:billing-coupon''),
     (''POST'', ''/trpc/profile.changePassword'', TRPC_PASSWORD_CHANGE_LIMIT, ''trpc:profile-password''),
     (''POST'', ''/trpc/org.changeRole'', TRPC_ROLE_CHANGE_LIMIT, ''trpc:org-role''),
     (''POST'', ''/trpc/admin.changeRole'', TRPC_ROLE_CHANGE_LIMIT, ''trpc:admin-role''),
     (''POST'', ''/trpc/fleet.createInstance'', TRPC_FLEET_CREATE_LIMIT, ''trpc:fleet-create''),
     (''*'', ''/trpc/'', per_minute 100, ''trpc:default''),
     (''POST'', ''/api/auth/sign-in'', AUTH_LOGIN_LIMIT, ''auth:login''),
     (''POST'', ''/api/auth/sign-up'', AUTH_SIGNUP_LIMIT, ''auth:signup''),
     (''POST'', ''/api/auth/request-password-reset'', AUTH_RESET_LIMIT, ''auth:reset''),
     (''GET'', ''/api/onboarding/session'', ONBOARDING_SESSION_LIMIT, ''api:onboarding-session-history''),
     (''POST'', ''/api/validate-key'', per_minute 5, ''api:validate-key''),
     (''POST'', ''/api/channels'', per_minute 10, ''api:channels''),
     (''POST'', ''/api/billing/webhook'', per_minute 30, ''api:billing-webhook''),
     (''POST'', ''/api/billing/setup-intent'', SETUP_INTENT_LIMIT, ''api:billing-setup-intent''),
     (''POST'', ''/api/billing/crypto/checkout'', CRYPTO_CHECKOUT_LIMIT, ''api:billing-crypto-checkout''),
     (''POST'', ''/api/billing/credits/checkout'', per_minute 10, ''api:billing-checkout''),
     (''POST'', ''/api/billing/portal'', per_minute 10, ''api:billing-portal''),
     (''POST'', ''/fleet/bots'', per_minute 30, ''fleet:create''),
     (''GET'', ''/fleet/'', per_minute 120, ''fleet:read'')]"

definition platformDefaultLimit :: rate_config where
  "platformDefaultLimit = per_minute 200"

section \<open>Limits per capability\<close>

datatype capability_category = Llm | Image_Gen | Audio_Speech | Telephony

definition resolveCapabilityCategory :: "string \<Rightarrow> capability_category option" where
  "resolveCapabilityCategory path =
     (if startsWith path ''/chat/completions'' \<or> startsWith path ''/completions'' \<or> startsWith path ''/embeddings''
      then Some Llm
      else if startsWith path ''/images/generations'' \<or> startsWith path ''/video/generations'' then Some Image_Gen
      else if startsWith path ''/audio/transcriptions'' \<or> startsWith path ''/audio/speech'' then Some Audio_Speech
      else if startsWith path ''/phone/'' \<or> startsWith path ''/messages/'' then Some Telephony
      else None)"

fun category_name :: "capability_category \<Rightarrow> string" where
  "category_name Llm = ''llm''"
| "category_name Image_Gen = ''imageGen''"
| "category_name Audio_Speech = ''audioSpeech''"
| "category_name Telephony = ''telephony''"

fun DEFAULT_CAPABILITY_LIMITS :: "capability_category \<Rightarrow> int" where
  "DEFAULT_CAPABILITY_LIMITS Llm = 60"
| "DEFAULT_CAPABILITY_LIMITS Image_Gen = 10"
| "DEFAULT_CAPABILITY_LIMITS Audio_Speech = 30"
| "DEFAULT_CAPABILITY_LIMITS Telephony = 100"

definition capability_message :: "capability_category \<Rightarrow> string" where
  "capability_message cat = ''Rate limit exceeded for '' @ category_name cat @ '' capability. Please slow down.''"

definition capability_key :: "string option \<Rightarrow> string option \<Rightarrow> string" where
  "capability_key attributed tenant = (case attributed of Some a \<Rightarrow> a
     | None \<Rightarrow> case tenant of Some t \<Rightarrow> t | None \<Rightarrow> ''unknown'')"

definition capabilityRateLimit ::
  "(capability_category \<rightharpoonup> int) \<Rightarrow> string \<Rightarrow> string option \<Rightarrow> string option \<Rightarrow> int
   \<Rightarrow> rate_entry list option \<Rightarrow> limit_answer \<times> rate_entry list option" where
  "capabilityRateLimit config path attributed tenant now repo = (case repo of
     None \<Rightarrow> (Unlimited, None)
   | Some db \<Rightarrow> (case resolveCapabilityCategory path of
       None \<Rightarrow> (Unlimited, Some db)
     | Some cat \<Rightarrow>
         let maximum = (case config cat of None \<Rightarrow> DEFAULT_CAPABILITY_LIMITS cat | Some n \<Rightarrow> n);
             (e, db') = increment (capability_key attributed tenant) (''cap:'' @ category_name cat) 60000 now db
         in (limit_answer_of 60000 maximum (capability_message cat) now e, Some db')))"

section \<open>Circuit breaker\<close>

record circuit_entry =
  ci_instanceId :: string
  ci_count :: int
  ci_windowStart :: int
  ci_trippedAt :: "int option"

definition circuit_get :: "string \<Rightarrow> circuit_entry list \<Rightarrow> circuit_entry option" where
  "circuit_get i db = find (\<lambda>r. ci_instanceId r = i) db"

definition circuit_put :: "circuit_entry \<Rightarrow> (circuit_entry \<Rightarrow> circuit_entry) \<Rightarrow> circuit_entry list \<Rightarrow> circuit_entry list" where
  "circuit_put new f db = (if circuit_get (ci_instanceId new) db = None then db @ [new]
     else map (\<lambda>r. if ci_instanceId r = ci_instanceId new then f r else r) db)"

definition incrementOrReset :: "string \<Rightarrow> int \<Rightarrow> int \<Rightarrow> circuit_entry list \<Rightarrow> circuit_entry \<times> circuit_entry list" where
  "incrementOrReset i windowMs now db =
     (let fresh = \<lparr>ci_instanceId = i, ci_count = 1, ci_windowStart = now, ci_trippedAt = None\<rparr>;
          restart = (fresh, circuit_put fresh (\<lambda>r. r\<lparr>ci_count := 1, ci_windowStart := now, ci_trippedAt := None\<rparr>) db)
      in case circuit_get i db of
           None \<Rightarrow> restart
         | Some e \<Rightarrow> if now - ci_windowStart e < windowMs
             then (e\<lparr>ci_count := ci_count e + 1\<rparr>,
                   map (\<lambda>r. if ci_instanceId r = i then r\<lparr>ci_count := ci_count r + 1\<rparr> else r) db)
             else restart)"

definition circuit_trip :: "string \<Rightarrow> int \<Rightarrow> circuit_entry list \<Rightarrow> circuit_entry list" where
  "circuit_trip i now = circuit_put
     \<lparr>ci_instanceId = i, ci_count = 1, ci_windowStart = now, ci_trippedAt = Some now\<rparr> (\<lambda>r. r\<lparr>ci_trippedAt := Some now\<rparr>)"

definition circuit_reset :: "string \<Rightarrow> int \<Rightarrow> circuit_entry list \<Rightarrow> circuit_entry list" where
  "circuit_reset i now = circuit_put
     \<lparr>ci_instanceId = i, ci_count = 0, ci_windowStart = now, ci_trippedAt = None\<rparr>
     (\<lambda>r. r\<lparr>ci_count := 0, ci_windowStart := now, ci_trippedAt := None\<rparr>)"

definition circuit_purgeStale :: "int \<Rightarrow> int \<Rightarrow> circuit_entry list \<Rightarrow> nat \<times> circuit_entry list" where
  "circuit_purgeStale windowMs now db =
     (let gone = (\<lambda>r. ci_windowStart r < now - windowMs \<and> ci_trippedAt r = None)
      in (length (filter gone db), filter (\<lambda>r. \<not> gone r) db))"

record breaker_config =
  bc_maxRequestsPerWindow :: int
  bc_windowMs :: int
  bc_pauseDurationMs :: int

definition DEFAULT_CIRCUIT_BREAKER_CONFIG :: breaker_config where
  "DEFAULT_CIRCUIT_BREAKER_CONFIG =
     \<lparr>bc_maxRequestsPerWindow = 100, bc_windowMs = 10000, bc_pauseDurationMs = 300000\<rparr>"

text \<open>A rejection carries the \<open>Retry-After\<close> header, the end of the pause and, while paused, what is left of it.\<close>

record rejection =
  rj_retryAfter :: int
  rj_paused_until :: int
  rj_remaining_ms :: "int option"

text \<open>The answer (\<open>None\<close> passes the request on), and the count with which \<open>onTrip\<close> is called.\<close>

definition instance_of :: "string option \<Rightarrow> string option \<Rightarrow> string" where
  "instance_of tenant inst = (case inst of Some b \<Rightarrow> b | None \<Rightarrow> (case tenant of Some t \<Rightarrow> t | None \<Rightarrow> ''unknown''))"

definition paused :: "breaker_config \<Rightarrow> int \<Rightarrow> int \<Rightarrow> rejection" where
  "paused cfg now t = \<lparr>rj_retryAfter = ceil_seconds (bc_pauseDurationMs cfg),
     rj_paused_until = ceil_seconds (t + bc_pauseDurationMs cfg),
     rj_remaining_ms = Some (bc_pauseDurationMs cfg - (now - t))\<rparr>"

definition count_request ::
  "breaker_config \<Rightarrow> string \<Rightarrow> int \<Rightarrow> circuit_entry list \<Rightarrow> (rejection option \<times> int option) \<times> circuit_entry list" where
  "count_request cfg i now db =
     (let (e, db1) = incrementOrReset i (bc_windowMs cfg) now db
      in if ci_count e > bc_maxRequestsPerWindow cfg
         then ((Some \<lparr>rj_retryAfter = ceil_seconds (bc_pauseDurationMs cfg),
                  rj_paused_until = ceil_seconds (now + bc_pauseDurationMs cfg), rj_remaining_ms = None\<rparr>,
                Some (ci_count e)), circuit_trip i now db1)
         else ((None, None), db1))"

definition circuitBreaker ::
  "breaker_config \<Rightarrow> string \<Rightarrow> int \<Rightarrow> circuit_entry list \<Rightarrow> (rejection option \<times> int option) \<times> circuit_entry list" where
  "circuitBreaker cfg i now db =
     (case (case circuit_get i db of None \<Rightarrow> None | Some r \<Rightarrow> ci_trippedAt r) of
        Some t \<Rightarrow>
          if now - t \<ge> bc_pauseDurationMs cfg then count_request cfg i now (circuit_reset i now db)
          else ((Some (paused cfg now t), None), db)
      | None \<Rightarrow> count_request cfg i now db)"

text \<open>\<open>getCircuitStates\<close>: count, trip time and what is left of the pause, by instance.\<close>

definition getCircuitStates :: "int \<Rightarrow> int \<Rightarrow> circuit_entry list \<Rightarrow> (string \<times> int \<times> int option \<times> int) list" where
  "getCircuitStates pauseDurationMs now db = map (\<lambda>r. (ci_instanceId r, ci_count r, ci_trippedAt r,
     case ci_trippedAt r of None \<Rightarrow> 0 | Some t \<Rightarrow> max 0 (pauseDurationMs - (now - t)))) db"

section \<open>The breaker as a state machine\<close>

text \<open>
  What the middleware promises for one instance: it is idle, counting requests in a window, or open since a
  time. The abstraction reads the row of the instance.
\<close>

datatype breaker = Idle | Counting int int | Open int

fun counted :: "breaker_config \<Rightarrow> int \<Rightarrow> breaker \<Rightarrow> breaker" where
  "counted cfg t (Counting c w) = (if t - w < bc_windowMs cfg then Counting (c + 1) w else Counting 1 t)"
| "counted cfg t _ = Counting 1 t"

definition admit :: "breaker_config \<Rightarrow> int \<Rightarrow> breaker \<Rightarrow> bool \<times> breaker" where
  "admit cfg t b = (case counted cfg t b of
     Counting c w \<Rightarrow> if c > bc_maxRequestsPerWindow cfg then (False, Open t) else (True, Counting c w)
   | b' \<Rightarrow> (True, b'))"

fun breaker_step :: "breaker_config \<Rightarrow> int \<Rightarrow> breaker \<Rightarrow> bool \<times> breaker" where
  "breaker_step cfg t (Open since) = (if t - since \<ge> bc_pauseDurationMs cfg then admit cfg t Idle else (False, Open since))"
| "breaker_step cfg t b = admit cfg t b"

definition breaker_of :: "string \<Rightarrow> circuit_entry list \<Rightarrow> breaker" where
  "breaker_of i db = (case circuit_get i db of None \<Rightarrow> Idle
     | Some r \<Rightarrow> (case ci_trippedAt r of Some t \<Rightarrow> Open t | None \<Rightarrow> Counting (ci_count r) (ci_windowStart r)))"

lemma circuit_get_id: "circuit_get i db = Some r \<Longrightarrow> ci_instanceId r = i"
  by (auto simp: circuit_get_def find_Some_iff)

lemma circuit_get_map:
  assumes "\<And>r. ci_instanceId (f r) = ci_instanceId r"
  shows "circuit_get j (map (\<lambda>r. if ci_instanceId r = i then f r else r) db)
    = map_option (\<lambda>r. if ci_instanceId r = i then f r else r) (circuit_get j db)"
  unfolding circuit_get_def using assms by (induction db) auto

lemma circuit_get_append: "circuit_get j (db @ [r]) = (case circuit_get j db of Some x \<Rightarrow> Some x
    | None \<Rightarrow> if ci_instanceId r = j then Some r else None)"
  unfolding circuit_get_def by (induction db) auto

lemma circuit_get_put:
  assumes "\<And>r. ci_instanceId (f r) = ci_instanceId r"
  shows "circuit_get j (circuit_put new f db) = (if j = ci_instanceId new
     then Some (case circuit_get j db of None \<Rightarrow> new | Some r \<Rightarrow> f r) else circuit_get j db)"
proof (cases "circuit_get j db")
  case None
  then show ?thesis by (cases "j = ci_instanceId new") (simp_all add: circuit_put_def circuit_get_map[OF assms] circuit_get_append)
next
  case (Some r)
  then have "ci_instanceId r = j" by (rule circuit_get_id)
  then show ?thesis using Some
    by (cases "j = ci_instanceId new") (simp_all add: circuit_put_def circuit_get_map[OF assms] circuit_get_append)
qed

lemmas circuit_gets = circuit_get_put circuit_get_map

lemma count_refines:
  assumes "circuit_get i db = None \<or> (\<exists>r. circuit_get i db = Some r \<and> ci_trippedAt r = None)"
  shows "fst (fst (count_request cfg i t db)) = None \<longleftrightarrow> fst (admit cfg t (breaker_of i db))"
    and "breaker_of i (snd (count_request cfg i t db)) = snd (admit cfg t (breaker_of i db))"
  using assms circuit_get_id[of i db]
  by (auto simp: count_request_def incrementOrReset_def Let_def breaker_of_def admit_def circuit_trip_def circuit_gets
      split: option.splits)

lemma count_others: "j \<noteq> i \<Longrightarrow> circuit_get j (snd (count_request cfg i t db)) = circuit_get j db"
  using circuit_get_id[of j db]
  by (cases "circuit_get j db")
    (auto simp: count_request_def incrementOrReset_def Let_def circuit_trip_def circuit_gets split: option.splits)

lemma reset_breaker:
  "circuit_get i (circuit_reset i now db) = None \<or> (\<exists>r. circuit_get i (circuit_reset i now db) = Some r \<and> ci_trippedAt r = None)"
  "j \<noteq> i \<Longrightarrow> circuit_get j (circuit_reset i now db) = circuit_get j db"
  "breaker_of i (circuit_reset i now db) = Counting 0 now"
  by (auto simp: circuit_reset_def circuit_gets breaker_of_def split: option.splits)

lemma admit_fresh: "admit cfg t (Counting 0 t) = admit cfg t Idle"
  by (simp add: admit_def)

lemma breaker_simulates:
  "fst (fst (circuitBreaker cfg i t db)) = None \<longleftrightarrow> fst (breaker_step cfg t (breaker_of i db))"
  "breaker_of i (snd (circuitBreaker cfg i t db)) = snd (breaker_step cfg t (breaker_of i db))"
  "j \<noteq> i \<Longrightarrow> breaker_of j (snd (circuitBreaker cfg i t db)) = breaker_of j db"
proof -
  consider "circuit_get i db = None \<or> (\<exists>r. circuit_get i db = Some r \<and> ci_trippedAt r = None)"
    | r t0 where "circuit_get i db = Some r" "ci_trippedAt r = Some t0" "t - t0 \<ge> bc_pauseDurationMs cfg"
    | r t0 where "circuit_get i db = Some r" "ci_trippedAt r = Some t0" "\<not> t - t0 \<ge> bc_pauseDurationMs cfg"
    by (cases "circuit_get i db") auto
  note cs = this
  have s: "circuit_get i db = None \<or> (\<exists>r. circuit_get i db = Some r \<and> ci_trippedAt r = None)
      \<Longrightarrow> breaker_step cfg t (breaker_of i db) = admit cfg t (breaker_of i db)"
    "circuit_get i db = Some r \<Longrightarrow> ci_trippedAt r = Some t0 \<Longrightarrow> breaker_of i db = Open t0" for r t0
    by (auto simp: breaker_of_def)
  show "fst (fst (circuitBreaker cfg i t db)) = None \<longleftrightarrow> fst (breaker_step cfg t (breaker_of i db))"
    using cs by cases (auto simp: circuitBreaker_def count_refines reset_breaker admit_fresh s)
  show "breaker_of i (snd (circuitBreaker cfg i t db)) = snd (breaker_step cfg t (breaker_of i db))"
    using cs by cases (auto simp: circuitBreaker_def count_refines reset_breaker admit_fresh s)
  show "breaker_of j (snd (circuitBreaker cfg i t db)) = breaker_of j db" if "j \<noteq> i"
    using cs that by cases (auto simp: circuitBreaker_def count_others reset_breaker breaker_of_def)
qed

text \<open>Requests of any instances in time order, as the middleware serves them and as the machine does.\<close>

fun serve_circuit :: "breaker_config \<Rightarrow> (string \<times> int) list \<Rightarrow> circuit_entry list \<Rightarrow> bool list \<times> circuit_entry list" where
  "serve_circuit cfg [] db = ([], db)"
| "serve_circuit cfg ((i, t) # rs) db =
     (let (a, db1) = circuitBreaker cfg i t db; (as, db2) = serve_circuit cfg rs db1 in ((fst a = None) # as, db2))"

fun serve_machine :: "breaker_config \<Rightarrow> (string \<times> int) list \<Rightarrow> (string \<Rightarrow> breaker) \<Rightarrow> bool list \<times> (string \<Rightarrow> breaker)" where
  "serve_machine cfg [] m = ([], m)"
| "serve_machine cfg ((i, t) # rs) m =
     (let (a, b) = breaker_step cfg t (m i); (as, m') = serve_machine cfg rs (m(i := b)) in (a # as, m'))"

lemma serve_simulates:
  "fst (serve_circuit cfg rs db) = fst (serve_machine cfg rs (\<lambda>i. breaker_of i db))
   \<and> (\<lambda>i. breaker_of i (snd (serve_circuit cfg rs db))) = snd (serve_machine cfg rs (\<lambda>i. breaker_of i db))"
proof (induction rs arbitrary: db)
  case (Cons r rs)
  obtain i t where r: "r = (i, t)" by fastforce
  have m: "(\<lambda>j. breaker_of j (snd (circuitBreaker cfg i t db)))
      = (\<lambda>j. breaker_of j db)(i := snd (breaker_step cfg t (breaker_of i db)))"
    by (auto simp: breaker_simulates)
  show ?case
    using Cons.IH[of "snd (circuitBreaker cfg i t db)"] breaker_simulates(1)[of cfg i t db]
    by (auto simp: r m Let_def split: prod.splits)
qed simp

text \<open>C30: The circuit breaker is the state machine it claims to be. Over any sequence of requests of any
  instances, from an empty table, the middleware lets through exactly the requests that the abstract
  breakers let through, one machine per instance, and the rows represent the states of the machines.\<close>

theorem circuit_refines:
  "fst (serve_circuit cfg rs []) = fst (serve_machine cfg rs (\<lambda>_. Idle))
   \<and> (\<forall>i. breaker_of i (snd (serve_circuit cfg rs [])) = snd (serve_machine cfg rs (\<lambda>_. Idle)) i)"
proof -
  have "(\<lambda>i. breaker_of i []) = (\<lambda>_. Idle)" by (simp add: breaker_of_def circuit_get_def)
  then show ?thesis using serve_simulates[of cfg rs "[]"] by (metis (no_types))
qed

lemma open_stays:
  "m i = Open t \<Longrightarrow> \<forall>(j, u) \<in> set rs. j = i \<longrightarrow> u - t < bc_pauseDurationMs cfg \<Longrightarrow> k < length rs \<Longrightarrow> fst (rs ! k) = i
    \<Longrightarrow> \<not> fst (serve_machine cfg rs m) ! k"
proof (induction rs arbitrary: m k)
  case (Cons r rs)
  obtain j u where r: "r = (j, u)" by fastforce
  let ?m = "m(j := snd (breaker_step cfg u (m j)))"
  have "?m i = Open t" using Cons.prems(1,2) by (auto simp: r)
  then have "\<And>k. k < length rs \<Longrightarrow> fst (rs ! k) = i \<Longrightarrow> \<not> fst (serve_machine cfg rs ?m) ! k"
    using Cons.IH Cons.prems(2) by simp
  then show ?case using Cons.prems by (cases k) (auto simp: r Let_def split: prod.splits)
qed simp

lemma trips_open:
  assumes "fst (circuitBreaker cfg i t db) = (Some rej, Some n)"
  shows "bc_maxRequestsPerWindow cfg < n \<and> breaker_of i (snd (circuitBreaker cfg i t db)) = Open t"
proof -
  have c: "fst (count_request cfg i t db') = (Some rej, Some n) \<Longrightarrow>
      bc_maxRequestsPerWindow cfg < n \<and> breaker_of i (snd (count_request cfg i t db')) = Open t" for db'
    by (auto simp: count_request_def Let_def breaker_of_def circuit_trip_def circuit_gets split: if_splits option.splits prod.splits)
  show ?thesis
    using assms c by (auto simp: circuitBreaker_def split: option.splits if_splits)
qed

text \<open>A tripped instance is paused. When a request trips the breaker, the count handed to \<open>onTrip\<close> is above the
  limit, and every later request of that instance, however it interleaves with those of others, is
  rejected until the pause is over.\<close>

theorem breaker_pauses:
  assumes "fst (circuitBreaker cfg i t db) = (Some rej, Some n)"
    and "\<forall>(j, u) \<in> set rs. j = i \<longrightarrow> u < t + bc_pauseDurationMs cfg" "k < length rs" "fst (rs ! k) = i"
  shows "bc_maxRequestsPerWindow cfg < n \<and> \<not> fst (serve_circuit cfg rs (snd (circuitBreaker cfg i t db))) ! k"
proof -
  let ?db = "snd (circuitBreaker cfg i t db)"
  have "\<not> fst (serve_machine cfg rs (\<lambda>i. breaker_of i ?db)) ! k"
  proof (rule open_stays[OF _ _ assms(3,4)])
    show "breaker_of i ?db = Open t" using trips_open[OF assms(1)] by simp
    show "\<forall>(j, u) \<in> set rs. j = i \<longrightarrow> u - t < bc_pauseDurationMs cfg" using assms(2) by auto
  qed
  then show ?thesis using serve_simulates[of cfg rs ?db] trips_open[OF assms(1)] by simp
qed

definition two_a_second :: breaker_config where
  "two_a_second = \<lparr>bc_maxRequestsPerWindow = 2, bc_windowMs = 1000, bc_pauseDurationMs = 5000\<rparr>"

definition busy_circuit :: "circuit_entry list" where
  "busy_circuit = snd (serve_circuit two_a_second [(''bot'', 0), (''bot'', 10)] [])"

theorem breaker_pauses_witness:
  "\<not> fst (serve_circuit two_a_second [(''x'', 30), (''bot'', 5019)] (snd (circuitBreaker two_a_second ''bot'' 20 busy_circuit))) ! 1"
proof -
  have "snd (fst (circuitBreaker two_a_second ''bot'' 20 busy_circuit)) = Some 3
      \<and> fst (fst (circuitBreaker two_a_second ''bot'' 20 busy_circuit)) \<noteq> None" by code_simp
  then obtain rej where r: "fst (circuitBreaker two_a_second ''bot'' 20 busy_circuit) = (Some rej, Some 3)"
    by (cases "fst (circuitBreaker two_a_second ''bot'' 20 busy_circuit)") auto
  have p: "bc_pauseDurationMs two_a_second = 5000" by (simp add: two_a_second_def)
  show ?thesis
    using breaker_pauses[OF r, of "[(''x'', 30), (''bot'', 5019)]" 1] by (simp add: p)
qed

section \<open>How much a limiter lets through\<close>

datatype limiter_event = Hit string string rate_config int | Sweep int int

fun event_time :: "limiter_event \<Rightarrow> int" where
  "event_time (Hit _ _ _ t) = t"
| "event_time (Sweep _ t) = t"

text \<open>The admitted requests, oldest first.\<close>

fun serve_limits :: "limiter_event list \<Rightarrow> rate_entry list \<Rightarrow> (string \<times> string \<times> int) list" where
  "serve_limits [] db = []"
| "serve_limits (Hit k s cfg t # es) db =
     (let (a, db') = rateLimit cfg (Some s) k t (Some db)
      in (if admitted a then [(k, s, t)] else []) @ serve_limits es (the db'))"
| "serve_limits (Sweep w t # es) db = serve_limits es (snd (rate_purgeStale w t db))"

text \<open>The same for one key and scope, with the start of the window each request was counted in.\<close>

fun trail :: "string \<Rightarrow> string \<Rightarrow> limiter_event list \<Rightarrow> rate_entry list \<Rightarrow> (int \<times> int \<times> bool) list" where
  "trail k s [] db = []"
| "trail k s (Hit k' s' cfg t # es) db =
     (let (e, db') = increment k' s' (window_of cfg) t db
      in (if k' = k \<and> s' = s then [(t, re_windowStart e, re_count e \<le> rc_max cfg)] else []) @ trail k s es db')"
| "trail k s (Sweep w t # es) db = trail k s es (snd (rate_purgeStale w t db))"

definition admitted_in :: "int \<Rightarrow> (int \<times> int \<times> bool) list \<Rightarrow> nat" where
  "admitted_in x L = length (filter (\<lambda>(_, y, b). b \<and> y = x) L)"

definition starts :: "(int \<times> int \<times> bool) list \<Rightarrow> int set" where
  "starts L = (\<lambda>(_, x, _). x) ` set L"

definition tidy :: "int \<Rightarrow> int \<Rightarrow> int \<Rightarrow> (int \<times> int \<times> bool) list \<Rightarrow> bool" where
  "tidy w m now L \<longleftrightarrow> (\<forall>(t, x, _) \<in> set L. x \<le> t \<and> t < x + w)
     \<and> (\<forall>x \<in> starts L. \<forall>y \<in> starts L. x < y \<longrightarrow> x + w \<le> y) \<and> (\<forall>x. admitted_in x L \<le> nat m)"

definition in_step :: "int \<Rightarrow> int \<Rightarrow> (int \<times> int \<times> bool) list \<Rightarrow> rate_entry option \<Rightarrow> bool" where
  "in_step w now L row = (case row of
     None \<Rightarrow> \<forall>x \<in> starts L. x + w \<le> now
   | Some r \<Rightarrow> (\<forall>x \<in> starts L. x \<le> re_windowStart r \<and> (x < re_windowStart r \<longrightarrow> x + w \<le> re_windowStart r))
       \<and> int (admitted_in (re_windowStart r) L) \<le> re_count r \<and> re_windowStart r \<le> now)"

lemma rate_get_row: "rate_get k s db = Some r \<Longrightarrow> rate_row k s r"
  by (auto simp: rate_get_def find_Some_iff)

lemma next_hit_row [simp]: "rate_row k s (next_hit w t r) = rate_row k s r"
  by (simp add: rate_row_def next_hit_def)

lemma rate_get_map: "rate_get k s (map (\<lambda>x. if rate_row k' s' x then next_hit w t x else x) db)
    = map_option (\<lambda>x. if rate_row k' s' x then next_hit w t x else x) (rate_get k s db)"
  unfolding rate_get_def by (induction db) auto

lemma rate_get_append: "rate_get k s (db @ [r]) = (case rate_get k s db of Some x \<Rightarrow> Some x
    | None \<Rightarrow> if rate_row k s r then Some r else None)"
  unfolding rate_get_def by (induction db) auto

lemma row_first [simp]: "rate_row k s (first_hit k' s' t) \<longleftrightarrow> k' = k \<and> s' = s"
  by (simp add: rate_row_def first_hit_def)

lemma row_unique: "rate_row k s r \<Longrightarrow> rate_row k' s' r \<longleftrightarrow> k' = k \<and> s' = s"
  by (auto simp: rate_row_def)

lemma next_hit_key [simp]: "re_key (next_hit w t r) = re_key r" "re_scope (next_hit w t r) = re_scope r"
  by (simp_all add: next_hit_def)

lemma increment_same: "rate_get k s (snd (increment k s w t db)) = Some (fst (increment k s w t db))"
  using rate_get_row[of k s db]
  by (auto simp: increment_def rate_get_map rate_get_append split: option.splits)

lemma increment_other: "(k', s') \<noteq> (k, s) \<Longrightarrow> rate_get k s (snd (increment k' s' w t db)) = rate_get k s db"
  using rate_get_row[of k s db]
  by (auto simp: increment_def rate_get_map rate_get_append row_unique split: option.splits)

text \<open>The row of a key is unique, so a sweep either keeps or removes it.\<close>

definition keyed :: "rate_entry list \<Rightarrow> bool" where
  "keyed db \<longleftrightarrow> distinct (map (\<lambda>r. (re_key r, re_scope r)) db)"

lemma keyed_increment: "keyed db \<Longrightarrow> keyed (snd (increment k s w t db))"
proof -
  have "(\<lambda>x. (re_key (if rate_row k s x then next_hit w t x else x), re_scope (if rate_row k s x then next_hit w t x else x)))
      = (\<lambda>x. (re_key x, re_scope x))" by auto
  then show "keyed db \<Longrightarrow> keyed (snd (increment k s w t db))"
    by (auto simp: keyed_def increment_def comp_def first_hit_def rate_get_def find_None_iff rate_row_def
        split: option.splits)
qed

lemma keyed_purge: "keyed db \<Longrightarrow> keyed (snd (rate_purgeStale w t db))"
  by (simp add: keyed_def rate_purgeStale_def Let_def distinct_map_filter)

lemma rate_get_purge: "keyed db \<Longrightarrow> rate_get k s (snd (rate_purgeStale w t db)) =
    (case rate_get k s db of None \<Rightarrow> None | Some r \<Rightarrow> if re_windowStart r < t - w then None else Some r)"
proof (induction db)
  case (Cons r db)
  have "rate_row k s r \<Longrightarrow> rate_get k s db = None"
  proof -
    assume row: "rate_row k s r"
    have "x \<in> set db \<Longrightarrow> \<not> rate_row k s x" for x
      using Cons.prems row by (auto simp: keyed_def rate_row_def intro: rev_image_eqI)
    then show "rate_get k s db = None" by (auto simp: rate_get_def find_None_iff)
  qed
  then show ?case using Cons by (auto simp: keyed_def rate_get_def rate_purgeStale_def Let_def split: option.splits)
qed (simp add: rate_get_def rate_purgeStale_def)

lemma admitted_in_append: "admitted_in x (L @ [(t, y, b)]) = admitted_in x L + (if b \<and> y = x then 1 else 0)"
  by (simp add: admitted_in_def)

lemma starts_append: "starts (L @ [(t, y, b)]) = insert y (starts L)"
  by (simp add: starts_def)

lemma admitted_in_none: "x \<notin> starts L \<Longrightarrow> admitted_in x L = 0"
  by (force simp: admitted_in_def starts_def filter_empty_conv)

lemma hit_keeps:
  assumes "tidy w m now L" "in_step w now L (rate_get k s db)" "now \<le> t" "0 < w"
    and "increment k s w t db = (e, db')"
  shows "tidy w m t (L @ [(t, re_windowStart e, re_count e \<le> m)])
    \<and> in_step w t (L @ [(t, re_windowStart e, re_count e \<le> m)]) (rate_get k s db')"
proof -
  have row: "rate_get k s db' = Some e" using increment_same[of k s w t db] assms(5) by simp
  consider (fresh) "re_windowStart e = t" "re_count e = 1" "\<forall>x \<in> starts L. x + w \<le> t"
    | (again) r where "rate_get k s db = Some r" "re_windowStart e = re_windowStart r" "re_count e = re_count r + 1"
        "t < re_windowStart r + w"
    using assms(2,3,5)
    by (cases "rate_get k s db")
      (fastforce simp: increment_def first_hit_def next_hit_def in_step_def split: if_splits)+
  then show ?thesis
  proof cases
    case fresh
    then have "t \<notin> starts L" using assms(4) by force
    then have "admitted_in t L = 0" by (rule admitted_in_none)
    then show ?thesis using fresh assms(1,4)
      by (auto simp: row tidy_def in_step_def starts_append admitted_in_append)
  next
    case (again r)
    then show ?thesis using assms(1,2,3)
      by (auto simp: row tidy_def in_step_def starts_append admitted_in_append)
  qed
qed

text \<open>One limiter on a key and scope, sweeps that only remove finished windows, times in order.\<close>

definition orderly :: "string \<Rightarrow> string \<Rightarrow> rate_config \<Rightarrow> limiter_event list \<Rightarrow> bool" where
  "orderly k s cfg es \<longleftrightarrow> sorted (map event_time es) \<and> (\<forall>c t. Hit k s c t \<in> set es \<longrightarrow> c = cfg)
     \<and> (\<forall>w t. Sweep w t \<in> set es \<longrightarrow> window_of cfg \<le> w)"

lemma orderly_Cons: "orderly k s cfg (e # es) \<Longrightarrow> orderly k s cfg es \<and> (\<forall>x \<in> set es. event_time e \<le> event_time x)"
  by (auto simp: orderly_def)

lemma tidy_any: "tidy w m t L \<Longrightarrow> tidy w m t' L"
  by (simp add: tidy_def)

lemma trail_tidy:
  assumes "orderly k s cfg es" "0 < window_of cfg" "keyed db" "tidy (window_of cfg) (rc_max cfg) now L"
    and "in_step (window_of cfg) now L (rate_get k s db)" "\<forall>e \<in> set es. now \<le> event_time e"
  shows "tidy (window_of cfg) (rc_max cfg) now (L @ trail k s es db)"
  using assms
proof (induction es arbitrary: db now L)
  case (Cons e es)
  note next' = Cons.IH[OF conjunct1[OF orderly_Cons[OF Cons.prems(1)]] Cons.prems(2)]
  have le: "now \<le> event_time e" and after: "\<forall>x \<in> set es. event_time e \<le> event_time x"
    using Cons.prems(6) orderly_Cons[OF Cons.prems(1)] by auto
  show ?case
  proof (cases e)
    case (Sweep w t)
    have "window_of cfg \<le> w" using Cons.prems(1) Sweep by (auto simp: orderly_def)
    then have "in_step (window_of cfg) t L (rate_get k s (snd (rate_purgeStale w t db)))"
      using Cons.prems(5) le by (auto simp: rate_get_purge[OF Cons.prems(3)] in_step_def Sweep split: option.splits)
    from next'[OF keyed_purge[OF Cons.prems(3)] tidy_any[OF Cons.prems(4)] this] show ?thesis
      using after by (simp add: Sweep tidy_any)
  next
    case (Hit k' s' c t)
    obtain r db' where i: "increment k' s' (window_of c) t db = (r, db')" by fastforce
    have keyed: "keyed db'" using keyed_increment[OF Cons.prems(3)] i by (metis snd_conv)
    show ?thesis
    proof (cases "k' = k \<and> s' = s")
      case True
      then have "c = cfg" using Cons.prems(1) Hit by (auto simp: orderly_def)
      with True i have i': "increment k s (window_of cfg) t db = (r, db')" by simp
      have "now \<le> t" using le Hit by simp
      note kept = hit_keeps[OF Cons.prems(4,5) this Cons.prems(2) i']
      note h = next'[OF keyed conjunct1[OF kept] conjunct2[OF kept]]
      have "trail k s (e # es) db = (t, re_windowStart r, re_count r \<le> rc_max cfg) # trail k s es db'"
        using True i \<open>c = cfg\<close> by (simp add: Hit)
      then show ?thesis using h after tidy_any by (simp add: Hit)
    next
      case False
      then have "rate_get k s db' = rate_get k s db" using increment_other i by (metis prod.inject snd_conv)
      then have "in_step (window_of cfg) t L (rate_get k s db')"
        using Cons.prems(5) le by (auto simp: in_step_def Hit split: option.splits)
      from next'[OF keyed tidy_any[OF Cons.prems(4)] this] show ?thesis
        using after tidy_any by (auto simp: Hit False i)
    qed
  qed
qed simp

lemma trail_serves:
  assumes "orderly k s cfg es"
  shows "length (filter (\<lambda>(k', s', t). k' = k \<and> s' = s \<and> P t) (serve_limits es db))
    = length (filter (\<lambda>(t, _, b). b \<and> P t) (trail k s es db))"
  using assms
proof (induction es arbitrary: db)
  case (Cons e es)
  note IH = Cons.IH[OF conjunct1[OF orderly_Cons[OF Cons.prems]]]
  show ?case
  proof (cases e)
    case (Hit k' s' c t)
    obtain r db' where i: "increment k' s' (window_of c) t db = (r, db')" by fastforce
    show ?thesis using IH[of db'] by (auto simp: Hit rateLimit_def i limit_answer_of_def admitted_def Let_def)
  qed (use IH in simp)
qed simp

lemma length_filter_weaken: "(\<And>x. P x \<Longrightarrow> Q x) \<Longrightarrow> length (filter P L) \<le> length (filter Q L)"
  by (induction L) auto

lemma length_by_class:
  assumes "finite S" "\<forall>x \<in> set L. P x \<longrightarrow> f x \<in> S"
  shows "length (filter P L) = (\<Sum>c \<in> S. length (filter (\<lambda>x. P x \<and> f x = c) L))"
  using assms(2)
proof (induction L)
  case (Cons x L)
  have "(\<Sum>c \<in> S. length (filter (\<lambda>y. P y \<and> f y = c) (x # L)))
      = (\<Sum>c \<in> S. length (filter (\<lambda>y. P y \<and> f y = c) L)) + (\<Sum>c \<in> S. if P x \<and> f x = c then 1 else 0)"
    by (simp add: sum.distrib[symmetric]) (rule sum.cong, auto)
  also have "(\<Sum>c \<in> S. if P x \<and> f x = c then 1 else 0) = (if P x then 1 else 0)"
    using Cons.prems assms(1) by (auto simp: sum.delta)
  finally show ?case using Cons by simp
qed simp

text \<open>At most two windows meet a stretch of time no longer than a window.\<close>

lemma two_windows:
  assumes "tidy w m now L" "S = (\<lambda>(_, x, _). x) ` set (filter (\<lambda>(t, _, b). b \<and> a \<le> t \<and> t < a + w) L)"
  shows "card S \<le> 2"
proof (rule ccontr)
  assume "\<not> card S \<le> 2"
  then have "2 < card S" by simp
  then obtain T where T: "T \<subseteq> S" "card T = 3" by (metis Suc_leI eval_nat_numeral(3) numeral_2_eq_2 obtain_subset_with_card_n)
  then have fin: "finite T" by (metis card.infinite zero_neq_numeral)
  obtain x y z where xyz: "x \<in> S" "y \<in> S" "z \<in> S" "x < y" "y < z"
  proof -
    obtain u v q where "T = {u, v, q}" "u \<noteq> v" "v \<noteq> q" "u \<noteq> q" using T(2) by (auto simp: card_3_iff)
    then show ?thesis using T(1) that by (metis insert_subset linorder_neq_iff)
  qed
  obtain t u where tu: "(t, x, True) \<in> set L" "a \<le> t" "(u, z, True) \<in> set L" "u < a + w"
    using xyz(1,3) assms(2) by auto
  have st: "x \<in> starts L" "y \<in> starts L" "z \<in> starts L"
    using xyz(1-3) assms(2) by (auto simp: starts_def) (force)+
  have "x + w \<le> y" "y + w \<le> z" using assms(1) st xyz(4,5) by (auto simp: tidy_def)
  moreover have "t < x + w" "z \<le> u" using assms(1) tu by (fastforce simp: tidy_def)+
  ultimately show False using tu by linarith
qed

text \<open>C29: A limiter keeps its bound. For any requests under any keys in time order, with sweeps of windows at least as
  long: of the requests of one client and scope, at most twice the maximum pass in any stretch as long as
  the window, wherever it begins. (Windows begin with the first request after the last one, so a stretch may
  see the end of one and the beginning of the next.)\<close>

theorem rate_limit_bound:
  assumes "orderly k s cfg es" "0 < window_of cfg"
  shows "length (filter (\<lambda>(k', s', t). k' = k \<and> s' = s \<and> a \<le> t \<and> t < a + window_of cfg) (serve_limits es []))
    \<le> 2 * nat (rc_max cfg)"
proof (cases es)
  case (Cons e es')
  let ?L = "trail k s es []" and ?P = "\<lambda>(t, _, b). b \<and> a \<le> t \<and> t < a + window_of cfg"
  let ?S = "(\<lambda>(_, x, _). x) ` set (filter ?P ?L)"
  have tidy: "tidy (window_of cfg) (rc_max cfg) (event_time e) ?L"
    using trail_tidy[OF assms, of "[]" "event_time e" "[]"] orderly_Cons[of k s cfg e es'] assms(1)
    by (auto simp: keyed_def tidy_def starts_def admitted_in_def in_step_def rate_get_def Cons)
  have "length (filter ?P ?L) = (\<Sum>c \<in> ?S. length (filter (\<lambda>x. ?P x \<and> (\<lambda>(_, x, _). x) x = c) ?L))"
    by (rule length_by_class) auto
  also have "\<dots> \<le> (\<Sum>c \<in> ?S. nat (rc_max cfg))"
  proof (rule sum_mono)
    fix c
    have "length (filter (\<lambda>x. ?P x \<and> (\<lambda>(_, x, _). x) x = c) ?L) \<le> admitted_in c ?L"
      unfolding admitted_in_def by (rule length_filter_weaken) auto
    also have "\<dots> \<le> nat (rc_max cfg)" using tidy by (simp add: tidy_def)
    finally show "length (filter (\<lambda>x. ?P x \<and> (\<lambda>(_, x, _). x) x = c) ?L) \<le> nat (rc_max cfg)" .
  qed
  also have "\<dots> = card ?S * nat (rc_max cfg)" by simp
  also have "\<dots> \<le> 2 * nat (rc_max cfg)" using two_windows[OF tidy refl] by (rule mult_le_mono1)
  finally show ?thesis using trail_serves[OF assms(1), of "\<lambda>t. a \<le> t \<and> t < a + window_of cfg" "[]"] by simp
qed simp

theorem rate_limit_bound_witness:
  "length (filter (\<lambda>(k', s', t). k' = ''ip'' \<and> s' = ''auth:login'' \<and> 0 \<le> t \<and> t < 0 + window_of AUTH_LOGIN_LIMIT)
     (serve_limits (Hit ''ip'' ''auth:login'' AUTH_LOGIN_LIMIT 5 # Sweep 900000 6 # map (Hit ''ip'' ''auth:login'' AUTH_LOGIN_LIMIT) [7..20]) []))
   \<le> 2 * nat (rc_max AUTH_LOGIN_LIMIT)
   \<and> length (serve_limits (map (Hit ''ip'' ''auth:login'' AUTH_LOGIN_LIMIT) [7..20]) []) = 5"
proof
  have "orderly ''ip'' ''auth:login'' AUTH_LOGIN_LIMIT
      (Hit ''ip'' ''auth:login'' AUTH_LOGIN_LIMIT 5 # Sweep 900000 6 # map (Hit ''ip'' ''auth:login'' AUTH_LOGIN_LIMIT) [7..20])"
    by (auto simp: orderly_def window_of_def AUTH_LOGIN_LIMIT_def comp_def)
  then show "length (filter (\<lambda>(k', s', t). k' = ''ip'' \<and> s' = ''auth:login'' \<and> 0 \<le> t \<and> t < 0 + window_of AUTH_LOGIN_LIMIT)
     (serve_limits (Hit ''ip'' ''auth:login'' AUTH_LOGIN_LIMIT 5 # Sweep 900000 6 # map (Hit ''ip'' ''auth:login'' AUTH_LOGIN_LIMIT) [7..20]) []))
   \<le> 2 * nat (rc_max AUTH_LOGIN_LIMIT)"
    by (rule rate_limit_bound) (simp add: window_of_def AUTH_LOGIN_LIMIT_def)
  show "length (serve_limits (map (Hit ''ip'' ''auth:login'' AUTH_LOGIN_LIMIT) [7..20]) []) = 5" by code_simp
qed

text \<open>A client that sets the attribution header to a fresh value is never limited: the key is the header's.\<close>

lemma attribution_evades_limit:
  assumes "rate_get a (''cap:'' @ category_name cat) db = None" "resolveCapabilityCategory path = Some cat"
    and "config cat = None"
  shows "admitted (fst (capabilityRateLimit config path (Some a) tenant now (Some db)))"
  using assms by (cases cat) (simp_all add: capabilityRateLimit_def increment_def capability_key_def limit_answer_of_def
      first_hit_def admitted_def)

text \<open>Uninterrupted, the older table counts like the newer one.\<close>

lemma keyed_unique: "keyed db \<Longrightarrow> rate_get k s db = Some r \<Longrightarrow> x \<in> set db \<Longrightarrow> rate_row k s x \<Longrightarrow> x = r"
  unfolding keyed_def rate_get_def by (induction db) (force simp: rate_row_def split: if_splits)+

lemma increment_read_first_same:
  assumes "keyed db"
  shows "increment_read_first k s w t db = increment k s w t db"
proof (cases "rate_get k s db")
  case (Some r)
  have "x \<in> set db \<Longrightarrow> rate_row k s x \<Longrightarrow> x = r" for x using keyed_unique[OF assms Some] by blast
  then show ?thesis using rate_get_row[OF Some]
    by (auto simp: increment_read_first_def increment_def Some next_hit_def first_hit_def rate_row_def cong: map_cong)
qed (simp add: increment_read_first_def increment_def)

end
