(* ===== verification/Gates.thy ===== *)
theory Gates
  imports Aggregation AutoTopup RateLimit "HOL-Library.AList"
begin

text \<open>
  What stands before a call of the gateway and what is charged after it: the prepaid balance gate and the
  debit of \<open>src/gateway/credit-gate.ts\<close> with the margin of \<open>src/monetization/adapters/types.ts\<close>, the spend
  that tenants have accumulated (\<open>src/fleet/spending-cap-repository.ts\<close>, \<open>budget-checker.ts\<close>) and the caps
  compared with it, token prices (\<open>rate-lookup.ts\<close>) and the error answers (\<open>error-mapping.ts\<close>). The LRU
  caches are a third-party library: their answer is an argument.
\<close>

section \<open>State of the gateway\<close>

text \<open>
  The ledger, the meter with its event table, the summary table, the counters of the metrics and the calls
  of the notification callbacks.
\<close>

text \<open>A row of \<open>provisioned_phone_numbers\<close> (\<open>sid\<close> is the primary key).\<close>

record phone_row =
  pn_sid :: string
  pn_tenantId :: string
  pn_phoneNumber :: string
  pn_provisionedAt :: int
  pn_lastBilledAt :: "int option"

record gateway =
  gw_db :: db
  gw_emitter :: emitter
  gw_summaries :: "summary list"
  gw_uuid :: nat
  gw_now :: int
  gw_requests :: "string list"
  gw_errors :: "string list"
  gw_deduction_failures :: nat
  gw_exhausted :: "(string \<times> int) list"
  gw_debited :: "string list"
  gw_spend_checks :: "string list"
  gw_phones :: "phone_row list"

text \<open>A thrown error: its message and the HTTP status attached to it.\<close>

record thrown =
  th_message :: string
  th_status :: "int option"

type_synonym 'a gw_act = "(gateway, thrown, 'a) act"

definition js_lit :: "rat \<Rightarrow> rat" where
  "js_lit x = fl x"

section \<open>Margin\<close>

definition withMargin :: "credit \<Rightarrow> rat \<Rightarrow> js_error + credit" where
  "withMargin cost margin =
     multiply cost (if 3 \<le> margin \<and> margin \<le> 100 then js_add 1 (js_div margin 100) else margin)"

section \<open>Tenants\<close>

datatype tenant_type = Personal | Org | Platform_Service

datatype inference_mode = Metered | Managed | Byok

record spend_limits =
  sl_maxSpendPerHour :: "rat option"
  sl_maxSpendPerMonth :: "rat option"
  sl_label :: "string option"

record spending_caps =
  cp_dailyCapUsd :: "rat option"
  cp_monthlyCapUsd :: "rat option"

record gateway_tenant =
  gt_id :: string
  gt_type :: "tenant_type option"
  gt_spendLimits :: spend_limits
  gt_instanceId :: "string option"
  gt_spendingCaps :: "spending_caps option"
  gt_inferenceMode :: "inference_mode option"

section \<open>Balance gate and debit\<close>

record gate_deps =
  gd_ledger :: bool
  gd_topUpUrl :: string
  gd_graceBufferCents :: "int option"
  gd_onBalanceExhausted :: bool
  gd_onDebitComplete :: bool
  gd_onSpendAlertCrossed :: bool

record credit_error =
  ce_message :: string
  ce_code :: string
  ce_topUpUrl :: string
  ce_currentBalanceCents :: rat
  ce_requiredCents :: int

definition grace_buffer :: "gate_deps \<Rightarrow> int" where
  "grace_buffer deps = (case gd_graceBufferCents deps of None \<Rightarrow> 50 | Some n \<Rightarrow> n)"

definition exhausted_error :: "gate_deps \<Rightarrow> credit \<Rightarrow> int \<Rightarrow> credit_error" where
  "exhausted_error deps bal required =
     \<lparr>ce_message = ''Your credits are exhausted. Add credits to continue using your bot.'', ce_code = ''credits_exhausted'',
      ce_topUpUrl = gd_topUpUrl deps, ce_currentBalanceCents = of_int (toCentsRounded bal), ce_requiredCents = required\<rparr>"

definition insufficient_error :: "gate_deps \<Rightarrow> credit \<Rightarrow> int \<Rightarrow> credit_error" where
  "insufficient_error deps bal required =
     \<lparr>ce_message = ''Insufficient credits. Please add credits to continue.'', ce_code = ''insufficient_credits'',
      ce_topUpUrl = gd_topUpUrl deps, ce_currentBalanceCents = toCents bal, ce_requiredCents = required\<rparr>"

definition exempt :: "gate_deps \<Rightarrow> gateway_tenant \<Rightarrow> bool" where
  "exempt deps tenant \<longleftrightarrow> \<not> gd_ledger deps \<or> gt_type tenant = Some Platform_Service \<or> gt_inferenceMode tenant = Some Metered"

definition creditBalanceCheck :: "gate_deps \<Rightarrow> gateway_tenant \<Rightarrow> int \<Rightarrow> db \<Rightarrow> ledger_error + credit_error option" where
  "creditBalanceCheck deps tenant estimatedCostCents d =
     (if exempt deps tenant then Inr None
      else rbind (balance (gt_id tenant) d) (\<lambda>bal.
        let required = max 0 estimatedCostCents; floor = fromCents (of_int (- grace_buffer deps)) in
        if lessThan bal floor \<or> equals bal floor then Inr (Some (exhausted_error deps bal required))
        else if \<not> isNegative bal \<and> lessThan bal (fromCents (of_int required))
        then Inr (Some (insufficient_error deps bal required))
        else Inr None))"

definition usage_opts :: "string \<Rightarrow> string \<Rightarrow> debit_opts" where
  "usage_opts capability provider = no_debit_opts\<lparr>d_description := Some (''Gateway '' @ capability @ '' via '' @ provider),
     d_allowNegative := True\<rparr>"

text \<open>After the debit: the exhaustion callback on the first crossing of zero, then the two others.\<close>

definition crossing :: "string \<Rightarrow> credit \<Rightarrow> db \<Rightarrow> unit + int option" where
  "crossing tenantId charge d = (case balance tenantId d of
     Inl _ \<Rightarrow> Inl ()
   | Inr new \<Rightarrow> (case add new charge of
       Inl _ \<Rightarrow> Inl ()
     | Inr before \<Rightarrow> Inr (if greaterThan before ZERO \<and> (isNegative new \<or> isZero new)
         then Some (toCentsRounded new) else None)))"

definition after_debit :: "gate_deps \<Rightarrow> string \<Rightarrow> credit \<Rightarrow> gateway \<Rightarrow> gateway" where
  "after_debit deps tenantId charge s =
     (let fail = s\<lparr>gw_deduction_failures := gw_deduction_failures s + 1\<rparr>;
          rest = (\<lambda>s. s\<lparr>gw_debited := gw_debited s @ (if gd_onDebitComplete deps then [tenantId] else []),
                        gw_spend_checks := gw_spend_checks s @ (if gd_onSpendAlertCrossed deps then [tenantId] else [])\<rparr>)
      in if gd_onBalanceExhausted deps
         then (case crossing tenantId charge (gw_db s) of
             Inl _ \<Rightarrow> fail
           | Inr None \<Rightarrow> rest s
           | Inr (Some cents) \<Rightarrow> rest (s\<lparr>gw_exhausted := gw_exhausted s @ [(tenantId, cents)]\<rparr>))
         else rest s)"

text \<open>Not awaited: a margin that overflows rejects a promise that nobody reads.\<close>

definition debitCredits ::
  "gate_deps \<Rightarrow> string \<Rightarrow> rat \<Rightarrow> rat \<Rightarrow> string \<Rightarrow> string \<Rightarrow> gateway \<Rightarrow> gateway" where
  "debitCredits deps tenantId costUsd margin capability provider s =
     (if \<not> gd_ledger deps then s
      else case withMargin (fromDollars costUsd) margin of
        Inl _ \<Rightarrow> s
      | Inr charge \<Rightarrow>
          if isZero charge \<or> isNegative charge then s
          else (case debit tenantId charge Adapter_Usage (usage_opts capability provider) (gw_db s) of
              Inl _ \<Rightarrow> s\<lparr>gw_deduction_failures := gw_deduction_failures s + 1\<rparr>
            | Inr (_, d) \<Rightarrow> after_debit deps tenantId charge (s\<lparr>gw_db := d\<rparr>)))"

section \<open>Accumulated spend\<close>

definition DAY :: int where
  "DAY = 86400000"

definition getDayStart :: "int \<Rightarrow> int" where
  "getDayStart now = now div DAY * DAY"

definition utc_date :: "int \<Rightarrow> nat \<times> nat \<times> nat" where
  "utc_date now = carry 1970 0 (nat (now div DAY) + 1)"

definition getMonthStart :: "int \<Rightarrow> int" where
  "getMonthStart now = (case utc_date now of (y, m, d) \<Rightarrow> (now div DAY - (int d - 1)) * DAY)"

text \<open>Summaries that reach into the span, then the events after the last of them.\<close>

definition spend_summaries :: "string \<Rightarrow> int \<Rightarrow> int \<Rightarrow> summary list \<Rightarrow> summary list" where
  "spend_summaries tenant since now us =
     filter (\<lambda>u. u_tenant u = tenant \<and> since \<le> u_windowEnd u \<and> u_windowStart u \<le> now) us"

definition latest_end :: "summary list \<Rightarrow> int" where
  "latest_end us = (if us = [] then 0 else Max (set (map u_windowEnd us)))"

definition spend_raw :: "string \<Rightarrow> int \<Rightarrow> int \<Rightarrow> summary list \<Rightarrow> meter_row list \<Rightarrow> rat" where
  "spend_raw tenant since now us tab =
     (let mine = spend_summaries tenant since now us;
          eventsStart = (if latest_end mine > since then latest_end mine else since);
          events = filter (\<lambda>r. r_tenant r = tenant \<and> eventsStart \<le> r_timestamp r) tab
      in js_add (of_int (to_number (sum_list (map u_totalCharge mine)))) (of_int (to_number (sum_list (map r_charge events)))))"

definition spend_dollars :: "string \<Rightarrow> int \<Rightarrow> int \<Rightarrow> summary list \<Rightarrow> meter_row list \<Rightarrow> js_error + rat" where
  "spend_dollars tenant since now us tab =
     rbind (fromRaw (spend_raw tenant since now us tab)) (\<lambda>c. Inr (toDollars c))"

text \<open>Daily and monthly spend of the caps, hourly and monthly spend of the budget.\<close>

definition querySpend :: "string \<Rightarrow> int \<Rightarrow> summary list \<Rightarrow> meter_row list \<Rightarrow> js_error + rat \<times> rat" where
  "querySpend tenant now us tab =
     rbind (spend_dollars tenant (getDayStart now) now us tab) (\<lambda>daily.
     rbind (spend_dollars tenant (getMonthStart now) now us tab) (\<lambda>monthly. Inr (daily, monthly)))"

definition queryBudgetData :: "string \<Rightarrow> int \<Rightarrow> summary list \<Rightarrow> meter_row list \<Rightarrow> js_error + rat \<times> rat" where
  "queryBudgetData tenant now us tab =
     rbind (spend_dollars tenant (now - 60 * 60 * 1000) now us tab) (\<lambda>hourly.
     rbind (spend_dollars tenant (getMonthStart now) now us tab) (\<lambda>monthly. Inr (hourly, monthly)))"

section \<open>Spending caps\<close>

text \<open>
  \<open>cached\<close> is the answer of the cache; the second result is what is put into it. A query that throws leaves
  the middleware with the error.
\<close>

datatype cap_answer = Cap_Pass | Cap_Exceeded string rat rat

definition over :: "rat option \<Rightarrow> rat \<Rightarrow> bool" where
  "over cap spend \<longleftrightarrow> (case cap of None \<Rightarrow> False | Some c \<Rightarrow> spend \<ge> c)"

definition cap_verdict :: "spending_caps \<Rightarrow> rat \<times> rat \<Rightarrow> cap_answer" where
  "cap_verdict caps = (\<lambda>(daily, monthly).
     if over (cp_dailyCapUsd caps) daily then Cap_Exceeded ''daily'' daily (the (cp_dailyCapUsd caps))
     else if over (cp_monthlyCapUsd caps) monthly then Cap_Exceeded ''monthly'' monthly (the (cp_monthlyCapUsd caps))
     else Cap_Pass)"

definition spendingCapCheck ::
  "gateway_tenant option \<Rightarrow> (rat \<times> rat) option \<Rightarrow> int \<Rightarrow> summary list \<Rightarrow> meter_row list
   \<Rightarrow> js_error + cap_answer \<times> (rat \<times> rat) option" where
  "spendingCapCheck tenant cached now us tab = (case tenant of
     None \<Rightarrow> Inr (Cap_Pass, None)
   | Some t \<Rightarrow> (case gt_spendingCaps t of
       None \<Rightarrow> Inr (Cap_Pass, None)
     | Some caps \<Rightarrow>
         if cp_dailyCapUsd caps = None \<and> cp_monthlyCapUsd caps = None then Inr (Cap_Pass, None)
         else (case cached of
             Some spend \<Rightarrow> Inr (cap_verdict caps spend, None)
           | None \<Rightarrow> rbind (querySpend (gt_id t) now us tab) (\<lambda>spend. Inr (cap_verdict caps spend, Some spend)))))"

record spending_limits =
  lim_alertAt :: "rat option"
  lim_hardCap :: "rat option"
  lim_perCapability :: "(string \<times> rat option \<times> rat option) list"

definition limits_get :: "string \<Rightarrow> (string \<times> spending_limits) list \<Rightarrow> spending_limits" where
  "limits_get tenant rows = (case map_of rows tenant of None \<Rightarrow> \<lparr>lim_alertAt = None, lim_hardCap = None, lim_perCapability = []\<rparr> | Some l \<Rightarrow> l)"

definition limits_upsert :: "string \<Rightarrow> spending_limits \<Rightarrow> (string \<times> spending_limits) list \<Rightarrow> (string \<times> spending_limits) list" where
  "limits_upsert tenant l rows = AList.update tenant l rows"

text \<open>A hard cap of the table replaces the caps of the key; an unreachable table (\<open>None\<close>) changes nothing.\<close>

definition hydrateSpendingCaps :: "spending_limits option \<Rightarrow> gateway_tenant \<Rightarrow> gateway_tenant" where
  "hydrateSpendingCaps limits t = (case limits of
     None \<Rightarrow> t
   | Some l \<Rightarrow> (case lim_hardCap l of
       None \<Rightarrow> t
     | Some cap \<Rightarrow> t\<lparr>gt_spendingCaps := Some \<lparr>cp_dailyCapUsd = None, cp_monthlyCapUsd = Some cap\<rparr>\<rparr>))"

section \<open>Budget\<close>

record budget_result =
  br_allowed :: bool
  br_reason :: "string option"
  br_httpStatus :: "int option"
  br_hourly :: rat
  br_monthly :: rat

definition limit_reason :: "string \<Rightarrow> rat \<Rightarrow> rat \<Rightarrow> string \<Rightarrow> string" where
  "limit_reason period spend cap label = period @ '' spending limit exceeded: $'' @ to_fixed2 spend @ ''/$'' @ to_fixed2 cap
     @ '' ('' @ label @ '' tier). Upgrade your plan for higher limits.''"

definition budget_verdict :: "spend_limits \<Rightarrow> rat \<times> rat \<Rightarrow> budget_result" where
  "budget_verdict limits = (\<lambda>(hourly, monthly).
     let label = (case sl_label limits of None \<Rightarrow> ''current'' | Some l \<Rightarrow> l);
         refuse = (\<lambda>period spend cap. \<lparr>br_allowed = False, br_reason = Some (limit_reason period spend cap label),
            br_httpStatus = Some 429, br_hourly = hourly, br_monthly = monthly\<rparr>)
     in if over (sl_maxSpendPerHour limits) hourly then refuse ''Hourly'' hourly (the (sl_maxSpendPerHour limits))
        else if over (sl_maxSpendPerMonth limits) monthly then refuse ''Monthly'' monthly (the (sl_maxSpendPerMonth limits))
        else \<lparr>br_allowed = True, br_reason = None, br_httpStatus = None, br_hourly = hourly, br_monthly = monthly\<rparr>)"

definition unavailable :: budget_result where
  "unavailable = \<lparr>br_allowed = False, br_reason = Some ''Budget check unavailable. Please try again later.'',
     br_httpStatus = Some 503, br_hourly = 0, br_monthly = 0\<rparr>"

text \<open>Fail-closed: a table that does not answer (\<open>db_ok\<close> false) or a sum that throws refuses the call.\<close>

definition budget_check ::
  "string \<Rightarrow> spend_limits \<Rightarrow> (rat \<times> rat) option \<Rightarrow> bool \<Rightarrow> int \<Rightarrow> summary list \<Rightarrow> meter_row list
   \<Rightarrow> budget_result \<times> (rat \<times> rat) option" where
  "budget_check tenant limits cached db_ok now us tab = (case cached of
     Some d \<Rightarrow> (budget_verdict limits d, None)
   | None \<Rightarrow> (case (if db_ok then queryBudgetData tenant now us tab else Inl TypeError) of
       Inl _ \<Rightarrow> (unavailable, None)
     | Inr d \<Rightarrow> (budget_verdict limits d, Some d)))"

section \<open>Token prices\<close>

record token_rates =
  tr_input :: rat
  tr_output :: rat

definition DEFAULT_TOKEN_RATES :: token_rates where
  "DEFAULT_TOKEN_RATES = \<lparr>tr_input = js_lit (1 / 1000), tr_output = js_lit (2 / 1000)\<rparr>"

type_synonym rate_lookup = "string \<Rightarrow> string \<Rightarrow> string option \<Rightarrow> rat option"

definition resolveTokenRates :: "rate_lookup \<Rightarrow> string \<Rightarrow> string option \<Rightarrow> token_rates" where
  "resolveTokenRates lookup capability model =
     (if \<not> truthy model then DEFAULT_TOKEN_RATES
      else let m = the model; i = lookup capability m (Some ''1K-input-tokens'');
               out = lookup capability m (Some ''1K-output-tokens'')
      in if i \<noteq> None \<or> out \<noteq> None
         then \<lparr>tr_input = (case i of None \<Rightarrow> tr_input DEFAULT_TOKEN_RATES | Some p \<Rightarrow> p),
               tr_output = (case out of None \<Rightarrow> tr_output DEFAULT_TOKEN_RATES | Some p \<Rightarrow> p)\<rparr>
         else (case lookup capability m None of None \<Rightarrow> DEFAULT_TOKEN_RATES | Some p \<Rightarrow> \<lparr>tr_input = p, tr_output = p\<rparr>))"

section \<open>Error answers\<close>

record error_answer =
  ea_status :: int
  ea_message :: string
  ea_type :: string
  ea_code :: string

definition text_includes :: "string \<Rightarrow> string \<Rightarrow> bool" where
  "text_includes s part \<longleftrightarrow> list_ex (\<lambda>i. take (length part) (drop i s) = part) [0..<Suc (length s)]"

definition mapBudgetError :: "string \<Rightarrow> string \<Rightarrow> error_answer" where
  "mapBudgetError uiUrl reason =
     (if text_includes reason ''spending limit'' \<or> text_includes reason ''Budget exceeded''
      then \<lparr>ea_status = 402, ea_message = reason @ ''. Add credits at '' @ uiUrl @ ''/billing to continue.'',
            ea_type = ''billing_error'', ea_code = ''insufficient_credits''\<rparr>
      else \<lparr>ea_status = 429, ea_message = reason, ea_type = ''rate_limit_error'', ea_code = ''rate_limit_exceeded''\<rparr>)"

definition mapProviderError :: "thrown \<Rightarrow> string \<Rightarrow> error_answer" where
  "mapProviderError e provider =
     (if text_includes (th_message e) ''spending limit''
      then \<lparr>ea_status = 429, ea_message = th_message e, ea_type = ''billing_error'', ea_code = ''insufficient_credits''\<rparr>
      else if th_status e = Some 429
      then \<lparr>ea_status = 429, ea_message = ''Rate limit exceeded. Please retry after a brief delay.'',
            ea_type = ''rate_limit_error'', ea_code = ''rate_limit_exceeded''\<rparr>
      else if th_status e = Some 503
      then \<lparr>ea_status = 503, ea_message = ''Service temporarily unavailable. Please try again.'',
            ea_type = ''server_error'', ea_code = ''service_unavailable''\<rparr>
      else case th_status e of
        Some n \<Rightarrow> if 400 \<le> n \<and> n < 500
          then \<lparr>ea_status = n, ea_message = ''Upstream error from '' @ provider @ '': '' @ th_message e,
                ea_type = ''upstream_error'', ea_code = ''provider_error''\<rparr>
          else \<lparr>ea_status = 502, ea_message = ''An error occurred while processing your request.'',
                ea_type = ''server_error'', ea_code = ''upstream_error''\<rparr>
      | None \<Rightarrow> \<lparr>ea_status = 502, ea_message = ''An error occurred while processing your request.'',
                ea_type = ''server_error'', ea_code = ''upstream_error''\<rparr>)"

section \<open>The spend that is counted\<close>

text \<open>
  The tables as the running system fills them: events arrive with a timestamp that is not yet aggregated, and
  the aggregator runs at any time.
\<close>

inductive usage_run :: "int \<Rightarrow> summary list \<Rightarrow> meter_row list \<Rightarrow> bool" for w :: int where
  usage_start: "usage_run w [] []"
| usage_event: "usage_run w us tab \<Longrightarrow> getLastWindowEnd us \<le> r_timestamp r \<Longrightarrow> 0 \<le> r_timestamp r \<Longrightarrow> 0 \<le> r_charge r
    \<Longrightarrow> usage_run w us (tab @ [r])"
| usage_aggregate: "usage_run w us tab \<Longrightarrow> 0 \<le> time \<Longrightarrow> usage_run w (snd (aggregate w time tab us)) tab"

definition window_charge :: "string \<Rightarrow> int \<Rightarrow> summary list \<Rightarrow> int" where
  "window_charge t a us = sum_list (map u_totalCharge (filter (\<lambda>u. u_tenant u = t \<and> u_windowStart u = a) us))"

text \<open>The windows of a tenant are aligned, end by \<open>until\<close>, and hold exactly the charges of their events.\<close>

definition tiled :: "int \<Rightarrow> string \<Rightarrow> int \<Rightarrow> summary list \<Rightarrow> meter_row list \<Rightarrow> bool" where
  "tiled w t until us tab \<longleftrightarrow> w dvd until
     \<and> (\<forall>u \<in> set us. u_tenant u = t \<longrightarrow> w dvd u_windowStart u \<and> u_windowEnd u = u_windowStart u + w \<and> u_windowEnd u \<le> until)
     \<and> (\<forall>k. (k + 1) * w \<le> until \<longrightarrow> window_charge t (k * w) us = metered t (k * w) ((k + 1) * w) tab)
     \<and> (\<forall>r \<in> set tab. r_tenant r = t \<and> r_timestamp r < until \<longrightarrow>
          (\<exists>u \<in> set us. u_tenant u = t \<and> r_timestamp r < u_windowEnd u))"

lemma window_rows_of:
  assumes "t \<noteq> SENTINEL" "u \<in> set (window_rows a b tab)" "u_tenant u = t"
  shows "u_windowStart u = a \<and> u_windowEnd u = b"
  using assms by (auto simp: window_rows_def Let_def sentinel_def getAggregatedEvents_def group_row_def split: if_splits)

lemma window_rows_has:
  assumes "r \<in> set tab" "in_span a b r"
  shows "\<exists>u \<in> set (window_rows a b tab). u_tenant u = r_tenant r \<and> u_windowEnd u = b"
proof -
  let ?rs = "filter (in_span a b) tab"
  have "group_row a b ?rs (group_key r) \<in> set (getAggregatedEvents a b tab)"
    using assms by (auto simp: getAggregatedEvents_def Let_def)
  moreover from this have "window_rows a b tab = getAggregatedEvents a b tab" by (auto simp: window_rows_def Let_def)
  ultimately show ?thesis by (auto simp: group_row_def Let_def group_key_def intro!: bexI)
qed

lemma window_charge_append [simp]: "window_charge t a (xs @ ys) = window_charge t a xs + window_charge t a ys"
  by (simp add: window_charge_def)

lemma window_charge_rows:
  assumes "countable_charges tab" "t \<noteq> SENTINEL"
  shows "window_charge t c (window_rows a b tab) = (if c = a then metered t a b tab else 0)"
proof -
  have f: "filter (\<lambda>u. u_tenant u = t \<and> u_windowStart u = c) (window_rows a b tab)
      = (if c = a then filter (\<lambda>u. u_tenant u = t) (window_rows a b tab) else [])"
    using window_rows_of[OF assms(2)] by (auto intro!: filter_cong simp: filter_empty_conv)
  show ?thesis using charged_window[OF assms, of a b] by (simp add: window_charge_def f charged_def)
qed

lemma tiled_window:
  assumes "tiled w t until us tab" "0 < w" "countable_charges tab" "t \<noteq> SENTINEL"
  shows "tiled w t (until + w) (us @ window_rows until (until + w) tab) tab"
proof -
  let ?new = "window_rows until (until + w) tab"
  have old: "window_charge t a us = 0" if "until \<le> a" for a
  proof -
    have "filter (\<lambda>u. u_tenant u = t \<and> u_windowStart u = a) us = []"
      using assms(1,2) that by (fastforce simp: tiled_def filter_empty_conv)
    then show ?thesis by (simp add: window_charge_def)
  qed
  have "window_charge t (k * w) (us @ ?new) = metered t (k * w) ((k + 1) * w) tab" if "(k + 1) * w \<le> until + w" for k
  proof (cases "k * w = until")
    case True
    then have "(k + 1) * w = until + w" by (simp add: algebra_simps)
    then show ?thesis using True old window_charge_rows[OF assms(3,4)] by simp
  next
    case False
    have "w dvd until" using assms(1) by (simp add: tiled_def)
    then obtain e where e: "until = e * w" by (metis dvd_def mult.commute)
    have "k < e" using False that assms(2) e by (simp add: distrib_right)
    then have "(k + 1) * w \<le> until" using assms(2) e by simp
    then show ?thesis using assms(1) False window_charge_rows[OF assms(3,4)] by (simp add: tiled_def)
  qed
  moreover have "\<exists>u \<in> set (us @ ?new). u_tenant u = t \<and> r_timestamp r < u_windowEnd u"
    if "r \<in> set tab" "r_tenant r = t" "r_timestamp r < until + w" for r
  proof (cases "r_timestamp r < until")
    case True
    then show ?thesis using assms(1) that by (auto simp: tiled_def)
  next
    case False
    then have "in_span until (until + w) r" using that by (simp add: in_span_def)
    then show ?thesis using window_rows_has[OF that(1)] that by fastforce
  qed
  ultimately show ?thesis
    using assms(1,2) window_rows_of[OF assms(4)] by (fastforce simp: tiled_def)
qed

lemma tiled_loop:
  assumes "0 < w" "w dvd cur" "countable_charges tab" "t \<noteq> SENTINEL" "until \<le> cur" "tiled w t until (snd st) tab"
  shows "tiled w t cur (snd (agg_loop w cur tab until st)) tab"
  using assms(5,6)
proof (induction "nat (cur - until)" arbitrary: until st rule: less_induct)
  case less
  show ?case
  proof (cases "until < cur")
    case False
    then show ?thesis using less.prems by (subst agg_loop.simps) simp
  next
    case True
    have "w dvd cur - until" using less.prems(2) assms(2) by (simp add: tiled_def)
    then have le: "until + w \<le> cur" using True assms(1) zdvd_imp_le[of w "cur - until"] by simp
    then have "tiled w t (until + w) (snd (do_window until (until + w) tab st)) tab"
      using tiled_window[OF less.prems(2) assms(1,3,4)] by (simp add: do_window_rows)
    then show ?thesis using less.hyps[of "until + w"] True le assms(1) by (subst agg_loop.simps) (simp add: Let_def min_def)
  qed
qed

lemma tiled_empty:
  assumes "w dvd a" "\<forall>u \<in> set us. u_tenant u \<noteq> t" "\<forall>r \<in> set tab. a \<le> r_timestamp r"
  shows "tiled w t a us tab"
proof -
  have "filter (\<lambda>u. u_tenant u = t \<and> u_windowStart u = c) us = []" for c using assms(2) by (auto simp: filter_empty_conv)
  moreover have "metered t c d tab = 0" if "d \<le> a" for c d
    using assms(3) that by (intro metered_none) (force simp: in_span_def)
  ultimately show ?thesis using assms by (auto simp: tiled_def window_charge_def)
qed

lemma countable_prefix:
  assumes "countable_charges (tab @ tab')"
  shows "countable_charges tab"
proof -
  have "0 \<le> sum_list (map r_charge tab')" using assms by (intro sum_list_mono_nonneg) (auto simp: countable_charges_def)
  then show ?thesis using assms by (auto simp: countable_charges_def)
qed

definition spend_inv :: "int \<Rightarrow> string \<Rightarrow> summary list \<Rightarrow> meter_row list \<Rightarrow> bool" where
  "spend_inv w t us tab \<longleftrightarrow> 0 \<le> getLastWindowEnd us \<and> (getLastWindowEnd us = 0 \<longrightarrow> us = [])
     \<and> (\<forall>r \<in> set tab. 0 \<le> r_timestamp r) \<and> tiled w t (getLastWindowEnd us) us tab"

lemma spend_inv_event:
  assumes "spend_inv w t us tab" "0 < w" "getLastWindowEnd us \<le> r_timestamp r" "0 \<le> r_timestamp r"
  shows "spend_inv w t us (tab @ [r])"
proof -
  have "metered t (k * w) ((k + 1) * w) (tab @ [r]) = metered t (k * w) ((k + 1) * w) tab"
    if "(k + 1) * w \<le> getLastWindowEnd us" for k
    using assms(3) that by (simp add: metered_def in_span_def)
  then show ?thesis using assms by (auto simp: spend_inv_def tiled_def)
qed

lemma spend_inv_aggregate:
  assumes "spend_inv w t us tab" "0 < w" "countable_charges tab" "t \<noteq> SENTINEL" "0 \<le> time"
  shows "spend_inv w t (snd (aggregate w time tab us)) tab"
proof (cases "getLastWindowEnd us \<ge> time div w * w")
  case True
  then show ?thesis using assms(1) by (simp add: aggregate_def)
next
  case False
  let ?cur = "time div w * w" and ?us = "snd (aggregate w time tab us)"
  have inv: "0 \<le> getLastWindowEnd us" "getLastWindowEnd us = 0 \<Longrightarrow> us = []" "\<forall>r \<in> set tab. 0 \<le> r_timestamp r"
      "tiled w t (getLastWindowEnd us) us tab"
    using assms(1) by (auto simp: spend_inv_def)
  have last: "getLastWindowEnd ?us = ?cur"
    using aggregate_exact[OF assms(2,3) inv(3) assms(4,5) inv(1)] False by auto
  have "tiled w t ?cur ?us tab"
  proof (cases "getLastWindowEnd us = 0")
    case False0: False
    then have "?us = snd (agg_loop w ?cur tab (getLastWindowEnd us) (0, us))" using False by (simp add: aggregate_def Let_def)
    then show ?thesis using tiled_loop[OF assms(2) _ assms(3,4), of ?cur "getLastWindowEnd us" "(0, us)"] inv(4) False by simp
  next
    case zero: True
    show ?thesis
    proof (cases "getEarliestEventTimestamp ?cur tab")
      case None
      then have "\<forall>r \<in> set tab. ?cur \<le> r_timestamp r"
        by (auto simp: getEarliestEventTimestamp_def Let_def filter_empty_conv not_less split: if_splits)
      moreover have "?us = [sentinel 0 ?cur]" using None zero inv(2) False by (simp add: aggregate_def Let_def)
      ultimately show ?thesis using assms(4) by (intro tiled_empty) (auto simp: sentinel_def)
    next
      case (Some e)
      let ?ts = "set (map r_timestamp (filter (\<lambda>r. r_timestamp r < ?cur) tab))"
      have e: "e = Min ?ts" "?ts \<noteq> {}"
        using Some unfolding getEarliestEventTimestamp_def Let_def by (simp_all only: split: if_splits) (auto simp: filter_empty_conv)
      have "e \<in> ?ts" unfolding e(1) using e(2) by (intro Min_in) auto
      then have "e < ?cur" by auto
      have below: "e div w * w \<le> e" using assms(2) pos_mod_sign[of w e] div_mult_mod_eq[of e w] by linarith
      have "e \<le> r_timestamp r" if "r \<in> set tab" for r
      proof (cases "r_timestamp r < ?cur")
        case True
        then have "r_timestamp r \<in> ?ts" using that by auto
        then show ?thesis using e(1) Min_le[of ?ts "r_timestamp r"] by simp
      qed (use \<open>e < ?cur\<close> in simp)
      then have "\<forall>r \<in> set tab. e div w * w \<le> r_timestamp r" using below by fastforce
      then have t0: "tiled w t (e div w * w) [] tab" by (intro tiled_empty) auto
      have "?us = snd (agg_loop w ?cur tab (e div w * w) (0, []))" using Some zero inv(2) False by (simp add: aggregate_def Let_def)
      then show ?thesis using tiled_loop[OF assms(2) _ assms(3,4), of ?cur "e div w * w" "(0, [])"] t0 below \<open>e < ?cur\<close> by simp
    qed
  qed
  then show ?thesis using last inv(1,3) False by (auto simp: spend_inv_def)
qed

lemma usage_run_inv:
  assumes "usage_run w us tab" "0 < w" "t \<noteq> SENTINEL" "countable_charges tab"
  shows "spend_inv w t us tab"
  using assms
proof (induction rule: usage_run.induct)
  case usage_start
  have "tiled w t 0 [] []" by (rule tiled_empty) auto
  then show ?case by (simp add: spend_inv_def getLastWindowEnd_def)
next
  case (usage_event us tab r)
  then show ?case using spend_inv_event countable_prefix by blast
next
  case (usage_aggregate us tab time)
  then show ?case using spend_inv_aggregate by blast
qed

lemma tiled_tail:
  assumes "tiled w t until us tab" "0 < w" "a \<le> until" "w dvd a"
  shows "sum_list (map u_totalCharge (filter (\<lambda>u. u_tenant u = t \<and> a \<le> u_windowStart u) us)) = metered t a until tab"
  using assms(3,4)
proof (induction "nat (until - a)" arbitrary: a rule: less_induct)
  case less
  show ?case
  proof (cases "a = until")
    case True
    have "filter (\<lambda>u. u_tenant u = t \<and> a \<le> u_windowStart u) us = []"
      using assms(1,2) True by (fastforce simp: tiled_def filter_empty_conv)
    then show ?thesis using True by (simp add: metered_none in_span_def)
  next
    case False
    have "w dvd until - a" using assms(1) less.prems(2) by (simp add: tiled_def)
    then have le: "a + w \<le> until" using False less.prems(1) assms(2) zdvd_imp_le[of w "until - a"] by simp
    obtain k where k: "a = k * w" using less.prems(2) by (metis dvd_def mult.commute)
    then have "(k + 1) * w = a + w" by (simp add: algebra_simps)
    with k le assms(1) have first: "window_charge t a us = metered t a (a + w) tab" by (simp add: tiled_def)
    have *: "u_tenant u = t \<Longrightarrow> u \<in> set us \<Longrightarrow> a \<le> u_windowStart u \<Longrightarrow> u_windowStart u \<noteq> a \<Longrightarrow> a + w \<le> u_windowStart u" for u
    proof -
      assume u: "u_tenant u = t" "u \<in> set us" "a \<le> u_windowStart u" "u_windowStart u \<noteq> a"
      have "w dvd u_windowStart u - a" using assms(1) less.prems(2) u(1,2) by (simp add: tiled_def)
      then show ?thesis using u(3,4) zdvd_imp_le[of w "u_windowStart u - a"] by simp
    qed
    let ?P = "\<lambda>u. u_tenant u = t \<and> a \<le> u_windowStart u"
    have "sum_list (map u_totalCharge (filter ?P us))
        = window_charge t a us + sum_list (map u_totalCharge (filter (\<lambda>u. u_tenant u = t \<and> a + w \<le> u_windowStart u) us))"
      unfolding sum_list_filter_split[of u_totalCharge "filter ?P us" "\<lambda>u. u_windowStart u = a"] filter_filter window_charge_def
      using * assms(2) by (intro arg_cong2[where f = "(+)"] arg_cong[where f = "\<lambda>xs. sum_list (map u_totalCharge xs)"] filter_cong) auto
    then show ?thesis using first less.hyps[of "a + w"] le less.prems(2) assms(2) metered_split[of a "a + w" until t tab] by simp
  qed
qed

text \<open>From where on events count: the start of the first window that ends at or after \<open>since\<close>.\<close>

definition first_counted :: "int \<Rightarrow> int \<Rightarrow> int \<Rightarrow> int" where
  "first_counted w since until = (let c = - ((- since) div w) in if c * w \<le> until then (c - 1) * w else since)"

definition charges_since :: "string \<Rightarrow> int \<Rightarrow> meter_row list \<Rightarrow> int" where
  "charges_since t a tab = sum_list (map r_charge (filter (\<lambda>r. r_tenant r = t \<and> a \<le> r_timestamp r) tab))"

lemma charges_split: "a \<le> b \<Longrightarrow> charges_since t a tab = metered t a b tab + charges_since t b tab"
  by (induction tab) (auto simp: charges_since_def metered_def in_span_def)

lemma ceil_aligned:
  assumes "0 < w" "w dvd e"
  shows "since \<le> e \<longleftrightarrow> - ((- since) div w) * w \<le> (e :: int)"
proof -
  obtain k where k: "e = k * w" using assms(2) by (metis dvd_def mult.commute)
  let ?q = "(- since) div w"
  have q: "?q * w \<le> - since" "- since < (?q + 1) * w"
  proof -
    have "0 \<le> (- since) mod w" "(- since) mod w < w" using assms(1) by simp_all
    then show "?q * w \<le> - since" "- since < (?q + 1) * w"
      using div_mult_mod_eq[of "- since" w] by (simp_all only: distrib_right mult_1)
  qed
  have "since \<le> k * w \<longleftrightarrow> - k \<le> ?q"
  proof
    assume "since \<le> k * w"
    then have "- k * w < (?q + 1) * w" using q(2) by simp
    then show "- k \<le> ?q" using assms(1) by (simp only: mult_less_cancel_right) linarith
  next
    assume "- k \<le> ?q"
    then have "- k * w \<le> ?q * w" using assms(1) by (intro mult_right_mono) auto
    then show "since \<le> k * w" using q(1) by simp
  qed
  also have "\<dots> \<longleftrightarrow> - ?q * w \<le> k * w"
    using mult_le_cancel_right_pos[OF assms(1), of "- ?q" k] by (simp only: minus_le_iff)
  finally show ?thesis using k by simp
qed

lemma charge_bounds:
  assumes "countable_charges tab"
  shows "0 \<le> charges_since t a tab" "charges_since t a tab \<le> 2 ^ 53" "0 \<le> metered t a b tab"
proof -
  have nn: "0 \<le> sum_list (map r_charge (filter P tab))" for P
    using assms by (intro sum_list_mono_nonneg) (auto simp: countable_charges_def)
  show "0 \<le> charges_since t a tab" "0 \<le> metered t a b tab" using nn by (simp_all add: charges_since_def metered_def)
  show "charges_since t a tab \<le> 2 ^ 53"
    using assms nn[of "\<lambda>r. \<not> (r_tenant r = t \<and> a \<le> r_timestamp r)"]
      sum_list_filter_split[of r_charge tab "\<lambda>r. r_tenant r = t \<and> a \<le> r_timestamp r"]
    by (simp add: charges_since_def countable_charges_def)
qed

lemma spend_parts:
  assumes "tiled w t E us tab" "0 < w" "E \<le> now" "0 \<le> since"
  shows "sum_list (map u_totalCharge (spend_summaries t since now us)) = metered t (first_counted w since E) (max (first_counted w since E) E) tab"
    and "filter (\<lambda>r. r_tenant r = t \<and> (if latest_end (spend_summaries t since now us) > since
           then latest_end (spend_summaries t since now us) else since) \<le> r_timestamp r) tab
      = filter (\<lambda>r. r_tenant r = t \<and> max (first_counted w since E) E \<le> r_timestamp r) tab"
proof -
  let ?c = "- ((- since) div w)" and ?mine = "spend_summaries t since now us"
  have al: "w dvd u_windowEnd u" "u_windowEnd u = u_windowStart u + w" "u_windowEnd u \<le> E" "w dvd u_windowStart u"
    if "u \<in> set us" "u_tenant u = t" for u
    using assms(1) that by (auto simp: tiled_def)
  have E: "w dvd E" using assms(1) by (simp add: tiled_def)
  have reach: "since \<le> u_windowEnd u \<longleftrightarrow> (?c - 1) * w \<le> u_windowStart u" if "u \<in> set us" "u_tenant u = t" for u
    using ceil_aligned[OF assms(2) al(1)[OF that], of since] al(2)[OF that] by (simp add: algebra_simps)
  have mine: "?mine = filter (\<lambda>u. u_tenant u = t \<and> (?c - 1) * w \<le> u_windowStart u) us"
    unfolding spend_summaries_def using al reach assms(2,3) by (intro filter_cong) fastforce+
  have latest: "u_windowEnd u \<le> latest_end ?mine" if "u \<in> set ?mine" for u
    using that by (auto simp: latest_end_def intro!: Max_ge)
  have "u_windowEnd u \<le> max 0 E" if "u \<in> set ?mine" for u using al(3) that by (fastforce simp: spend_summaries_def)
  then have le: "latest_end ?mine \<le> max 0 E" by (auto simp: latest_end_def intro!: Max.boundedI)
  show "sum_list (map u_totalCharge ?mine) = metered t (first_counted w since E) (max (first_counted w since E) E) tab"
  proof (cases "?c * w \<le> E")
    case True
    then have "(?c - 1) * w \<le> E" using assms(2) by (simp add: left_diff_distrib)
    then show ?thesis using True tiled_tail[OF assms(1,2), of "(?c - 1) * w"] by (simp add: mine first_counted_def Let_def)
  next
    case False
    then have "E < since" using ceil_aligned[OF assms(2) E, of since] by simp
    then have "?mine = []" using al by (fastforce simp: spend_summaries_def filter_empty_conv)
    then show ?thesis using False \<open>E < since\<close> by (simp add: first_counted_def Let_def metered_none in_span_def)
  qed
  show "filter (\<lambda>r. r_tenant r = t \<and> (if latest_end ?mine > since then latest_end ?mine else since) \<le> r_timestamp r) tab
      = filter (\<lambda>r. r_tenant r = t \<and> max (first_counted w since E) E \<le> r_timestamp r) tab"
  proof (cases "?c * w \<le> E")
    case True
    then have se: "since \<le> E" using ceil_aligned[OF assms(2) E, of since] by simp
    have fE: "max (first_counted w since E) E = E" using True assms(2) by (simp add: first_counted_def Let_def left_diff_distrib)
    have "(if latest_end ?mine > since then latest_end ?mine else since) \<le> r_timestamp r \<longleftrightarrow> E \<le> r_timestamp r"
      if r: "r \<in> set tab" "r_tenant r = t" for r
    proof
      assume h: "(if latest_end ?mine > since then latest_end ?mine else since) \<le> r_timestamp r"
      show "E \<le> r_timestamp r"
      proof (rule ccontr)
        assume "\<not> E \<le> r_timestamp r"
        then obtain u where u: "u \<in> set us" "u_tenant u = t" "r_timestamp r < u_windowEnd u"
          using assms(1) r by (fastforce simp: tiled_def)
        then have "u \<in> set ?mine" using h al[OF u(1,2)] assms(2,3) by (auto simp: spend_summaries_def split: if_splits)
        then show False using latest h u(3) by (fastforce split: if_splits)
      qed
    next
      assume "E \<le> r_timestamp r"
      then show "(if latest_end ?mine > since then latest_end ?mine else since) \<le> r_timestamp r"
        using le se assms(4) by (auto split: if_splits)
    qed
    then show ?thesis unfolding fE by (intro filter_cong) auto
  next
    case False
    then have "E < since" using ceil_aligned[OF assms(2) E, of since] by simp
    then have "latest_end ?mine \<le> since" using le assms(4) by simp
    then show ?thesis using False \<open>E < since\<close> by (auto simp: first_counted_def Let_def intro!: filter_cong)
  qed
qed


definition row_at :: "int \<Rightarrow> int \<Rightarrow> meter_row" where
  "row_at n c = (to_row demo_event)\<lparr>r_timestamp := n, r_charge := c, r_tenant := ''t''\<rparr>"


section \<open>How far a prepaid tenant can go below zero\<close>

record gate_request =
  gq_tenant :: gateway_tenant
  gq_estimate :: int
  gq_costUsd :: rat
  gq_margin :: rat
  gq_capability :: string
  gq_provider :: string

text \<open>The pattern of every endpoint: the gate, the call, the debit.\<close>

definition gated :: "gate_deps \<Rightarrow> gate_request \<Rightarrow> gateway \<Rightarrow> gateway" where
  "gated deps q s = (case creditBalanceCheck deps (gq_tenant q) (gq_estimate q) (gw_db s) of
     Inr None \<Rightarrow> debitCredits deps (gt_id (gq_tenant q)) (gq_costUsd q) (gq_margin q) (gq_capability q) (gq_provider q) s
   | _ \<Rightarrow> s)"

definition charge_of :: "gate_request \<Rightarrow> int" where
  "charge_of q = (case withMargin (fromDollars (gq_costUsd q)) (gq_margin q) of Inl _ \<Rightarrow> 0 | Inr c \<Rightarrow> toRaw c)"

definition gate_floor :: "gate_deps \<Rightarrow> int" where
  "gate_floor deps = toRaw (fromCents (of_int (- grace_buffer deps)))"

lemma after_debit_db [simp]: "gw_db (after_debit deps t c s) = gw_db s"
  by (auto simp: after_debit_def Let_def split: sum.splits option.splits)

lemma debitCredits_step:
  "gw_db (debitCredits deps t usd m cap prov s) = gw_db s
   \<or> (\<exists>c je d. withMargin (fromDollars usd) m = Inr c \<and> 0 < toRaw c
        \<and> debit t c Adapter_Usage (usage_opts cap prov) (gw_db s) = Inr (je, d) \<and> gw_db (debitCredits deps t usd m cap prov s) = d)"
  by (auto simp: debitCredits_def isZero_def isNegative_def split: sum.splits)

lemma usage_effect:
  assumes "debit t c Adapter_Usage opts d = Inr (je, d')" "core_inv d"
  shows "stored_balance (tenant_code u) d' = stored_balance (tenant_code u) d - (if u = t then toRaw c else 0)"
  using debit_effect_eq[OF assms, of "tenant_code u"] by (simp add: debit_effect_def) (simp add: tenant_code_def)

lemma gate_open:
  assumes "creditBalanceCheck deps tenant est d = Inr None" "\<not> exempt deps tenant"
    and "- (2 ^ 53) \<le> stored_balance (tenant_code (gt_id tenant)) d"
  shows "gate_floor deps < stored_balance (tenant_code (gt_id tenant)) d"
  using assms by (auto simp: creditBalanceCheck_def balance_def read_credit_eq rbind_Inr_iff Let_def lessThan_def equals_def
      gate_floor_def split: if_splits)

lemma gated_keeps:
  assumes "ledger_reachable (gw_db s)" "\<not> exempt deps (gq_tenant q)" "charge_of q \<le> C" "0 \<le> C"
    and "- (2 ^ 53) \<le> gate_floor deps - C" "gate_floor deps - C < stored_balance (tenant_code t) (gw_db s)"
  shows "ledger_reachable (gw_db (gated deps q s))
    \<and> gate_floor deps - C < stored_balance (tenant_code t) (gw_db (gated deps q s))"
proof (cases "creditBalanceCheck deps (gq_tenant q) (gq_estimate q) (gw_db s) = Inr None")
  case True
  let ?id = "gt_id (gq_tenant q)"
  from debitCredits_step show ?thesis
  proof
    assume "gw_db (debitCredits deps ?id (gq_costUsd q) (gq_margin q) (gq_capability q) (gq_provider q) s) = gw_db s"
    then show ?thesis using assms True by (simp add: gated_def)
  next
    assume "\<exists>c je d. withMargin (fromDollars (gq_costUsd q)) (gq_margin q) = Inr c \<and> 0 < toRaw c
      \<and> debit ?id c Adapter_Usage (usage_opts (gq_capability q) (gq_provider q)) (gw_db s) = Inr (je, d)
      \<and> gw_db (debitCredits deps ?id (gq_costUsd q) (gq_margin q) (gq_capability q) (gq_provider q) s) = d"
    then obtain c je d where d: "withMargin (fromDollars (gq_costUsd q)) (gq_margin q) = Inr c"
        "debit ?id c Adapter_Usage (usage_opts (gq_capability q) (gq_provider q)) (gw_db s) = Inr (je, d)"
        "gw_db (gated deps q s) = d"
      using True by (auto simp: gated_def)
    have "toRaw c \<le> C" using assms(3) d(1) by (simp add: charge_of_def)
    moreover have "gate_floor deps < stored_balance (tenant_code ?id) (gw_db s)" if "t = ?id"
      using gate_open[OF True assms(2)] assms(5,6) that by simp
    ultimately show ?thesis
      using usage_effect[OF d(2) reachable_core[OF assms(1)], of t] reach_step[OF assms(1) step_debit[OF d(2)]] assms(6) d(3)
      by (auto split: if_splits)
  qed
qed (use assms in \<open>auto simp: gated_def split: sum.splits option.splits\<close>)


definition new_gateway :: gateway where
  "new_gateway = \<lparr>gw_db = funded, gw_emitter = boot None [] [], gw_summaries = [], gw_uuid = 0, gw_now = 5, gw_requests = [],
     gw_errors = [], gw_deduction_failures = 0, gw_exhausted = [], gw_debited = [], gw_spend_checks = [], gw_phones = []\<rparr>"

definition all_callbacks :: gate_deps where
  "all_callbacks = \<lparr>gd_ledger = True, gd_topUpUrl = ''/dashboard/credits'', gd_graceBufferCents = None,
     gd_onBalanceExhausted = True, gd_onDebitComplete = True, gd_onSpendAlertCrossed = True\<rparr>"

definition tenant_a :: gateway_tenant where
  "tenant_a = \<lparr>gt_id = ''a'', gt_type = None, gt_spendLimits = \<lparr>sl_maxSpendPerHour = None, sl_maxSpendPerMonth = None,
     sl_label = None\<rparr>, gt_instanceId = None, gt_spendingCaps = None, gt_inferenceMode = None\<rparr>"

definition big_call :: gate_request where
  "big_call = \<lparr>gq_tenant = tenant_a, gq_estimate = 0, gq_costUsd = 4, gq_margin = 2, gq_capability = ''llm'', gq_provider = ''x''\<rparr>"


end
