(* ===== verification/Proxy.thy ===== *)
theory Proxy
  imports Gates
begin

text \<open>
  The endpoints of the gateway (\<open>src/gateway/proxy.ts\<close>, \<open>streaming.ts\<close>): budget and balance gates, the call of
  the upstream provider, the meter event and the debit. The network and the arbitrage router are parameters
  that answer each request; a text is what \<open>JSON.parse\<close> makes of it. This theory holds the model, speech,
  image and video endpoints; theory Telephony the others.
\<close>

section \<open>JSON\<close>

datatype json = JNull | JBool bool | JNum rat | JStr string | JArr "json list" | JObj "(string \<times> json) list"

datatype body_text = Json_Text json | Not_Json string

text \<open>\<open>x?.f\<close>; values of a type the code does not expect read as absent.\<close>

fun field :: "string \<Rightarrow> json \<Rightarrow> json option" where
  "field f (JObj kvs) = map_of kvs f"
| "field f _ = None"

definition opt_field :: "string \<Rightarrow> json option \<Rightarrow> json option" where
  "opt_field f x = Option.bind x (field f)"

fun as_string :: "json option \<Rightarrow> string option" where
  "as_string (Some (JStr s)) = Some s"
| "as_string _ = None"

fun as_number :: "json option \<Rightarrow> rat option" where
  "as_number (Some (JNum x)) = Some x"
| "as_number _ = None"

definition number_or :: "rat \<Rightarrow> json option \<Rightarrow> rat" where
  "number_or d x = (case as_number x of None \<Rightarrow> d | Some n \<Rightarrow> n)"

definition string_or :: "string \<Rightarrow> json option \<Rightarrow> string" where
  "string_or d x = (case as_string x of None \<Rightarrow> d | Some s \<Rightarrow> s)"

definition set_field :: "string \<Rightarrow> json \<Rightarrow> (string \<times> json) list \<Rightarrow> (string \<times> json) list" where
  "set_field f v kvs = AList.update f v kvs"

text \<open>\<open>JSON.parse\<close> with a member access on the result: \<open>null\<close> has none.\<close>

fun parsed_object :: "body_text \<Rightarrow> json option" where
  "parsed_object (Not_Json _) = None"
| "parsed_object (Json_Text JNull) = None"
| "parsed_object (Json_Text j) = Some j"

section \<open>Upstream\<close>

datatype request_body = No_Body | Text_Body body_text | Form_Body "(string \<times> string) list" | Bytes_Body string

record http_request =
  hq_method :: string
  hq_url :: string
  hq_headers :: "(string \<times> string) list"
  hq_body :: request_body

text \<open>A line of a stream: the end mark, data, or something else.\<close>

datatype sse_line = Sse_Done | Sse_Data body_text | Sse_Other

text \<open>\<open>hs_cost\<close> is the cost header, absent or empty when \<open>None\<close>, not a finite number when \<open>Some None\<close>.\<close>

record http_response =
  hs_status :: int
  hs_text :: body_text
  hs_cost :: "rat option option"
  hs_contentType :: "string option"
  hs_bytes :: "thrown + string"
  hs_chunks :: "sse_line list list"

definition res_ok :: "http_response \<Rightarrow> bool" where
  "res_ok r \<longleftrightarrow> 200 \<le> hs_status r \<and> hs_status r \<le> 299"

datatype arb_error = No_Provider string | Arb_Thrown thrown

record arb_result =
  ar_result :: json
  ar_cost :: credit
  ar_provider :: string

record provider_cfg =
  pv_apiKey :: string
  pv_baseUrl :: "string option"

record twilio_cfg =
  tw_accountSid :: string
  tw_authToken :: string
  tw_baseUrl :: "string option"

record proxy_deps = gate_deps +
  pd_openrouter :: "provider_cfg option"
  pd_deepgram :: "provider_cfg option"
  pd_elevenlabs :: "provider_cfg option"
  pd_replicate :: "provider_cfg option"
  pd_twilio :: "twilio_cfg option"
  pd_defaultModel :: "string option"
  pd_resolveDefaultModel :: "string option"
  pd_defaultMargin :: rat
  pd_fetch :: "http_request \<Rightarrow> thrown + http_response"
  pd_arbitrage :: "(string \<Rightarrow> string \<Rightarrow> json \<Rightarrow> arb_error + arb_result) option"
  pd_rateLookup :: "rate_lookup option"
  pd_webhookBaseUrl :: "string option"
  pd_phoneRepo :: bool
  pd_uiUrl :: string
  pd_batchSize :: nat
  pd_stringify :: "json \<Rightarrow> string"
  pd_encode :: "string \<Rightarrow> string"
  pd_btoa :: "string \<Rightarrow> string"
  pd_Number :: "string \<Rightarrow> rat option"
  pd_budgetCache :: "string \<Rightarrow> (rat \<times> rat) option"
  pd_dbOk :: bool

datatype reply =
    Json_Error int string string string
  | Credit_Denied credit_error
  | Text_Reply int body_text
  | Json_Reply "(string \<times> json) list"
  | Audio_Reply string string
  | Stream_Reply
  | Xml_Reply string

definition succeeded :: "reply \<Rightarrow> bool" where
  "succeeded r = (case r of Json_Error _ _ _ _ \<Rightarrow> False | Credit_Denied _ \<Rightarrow> False
     | Text_Reply n _ \<Rightarrow> 200 \<le> n \<and> n \<le> 299 | _ \<Rightarrow> True)"

definition error_reply :: "error_answer \<Rightarrow> reply" where
  "error_reply e = Json_Error (ea_status e) (ea_message e) (ea_type e) (ea_code e)"

definition not_configured :: "string \<Rightarrow> reply" where
  "not_configured service = Json_Error 503 (service @ '' service not configured'') ''server_error'' ''service_unavailable''"

section \<open>Shared steps\<close>

definition throw_error :: "string \<Rightarrow> 'a gw_act" where
  "throw_error message = athrow \<lparr>th_message = message, th_status = None\<rparr>"

definition count_gateway_request :: "string \<Rightarrow> unit gw_act" where
  "count_gateway_request name = amodify (\<lambda>s. s\<lparr>gw_requests := gw_requests s @ [name]\<rparr>)"

definition count_gateway_error :: "string \<Rightarrow> unit gw_act" where
  "count_gateway_error name = amodify (\<lambda>s. s\<lparr>gw_errors := gw_errors s @ [name]\<rparr>)"

definition budgetCheck :: "proxy_deps \<Rightarrow> gateway_tenant \<Rightarrow> reply option gw_act" where
  "budgetCheck deps tenant = aquery (\<lambda>s.
     let result = fst (budget_check (gt_id tenant) (gt_spendLimits tenant) (pd_budgetCache deps (gt_id tenant)) (pd_dbOk deps)
           (gw_now s) (gw_summaries s) (em_db (gw_emitter s)))
     in Inr (if br_allowed result then None
        else Some (error_reply (mapBudgetError (pd_uiUrl deps)
          (case br_reason result of None \<Rightarrow> ''Budget exceeded'' | Some r \<Rightarrow> r)))))"

definition credit_gate :: "proxy_deps \<Rightarrow> gateway_tenant \<Rightarrow> credit_error option gw_act" where
  "credit_gate deps tenant = aquery (\<lambda>s.
     case creditBalanceCheck (gate_deps.truncate deps) tenant 1 (gw_db s) of
       Inl _ \<Rightarrow> Inl \<lparr>th_message = ''Balance not readable'', th_status = None\<rparr> | Inr r \<Rightarrow> Inr r)"

text \<open>The first lines of every paid endpoint.\<close>

definition with_gates :: "proxy_deps \<Rightarrow> gateway_tenant \<Rightarrow> reply gw_act \<Rightarrow> reply gw_act" where
  "with_gates deps tenant body = abind (budgetCheck deps tenant) (\<lambda>budgetErr. case budgetErr of
     Some r \<Rightarrow> areturn r
   | None \<Rightarrow> abind (credit_gate deps tenant) (\<lambda>creditErr. case creditErr of
       Some e \<Rightarrow> areturn (Credit_Denied e)
     | None \<Rightarrow> body))"

text \<open>The \<open>try\<close> around a call and its \<open>catch\<close>, with or without the error counter.\<close>

definition map_errors :: "string \<Rightarrow> reply gw_act \<Rightarrow> reply gw_act" where
  "map_errors provider body = acatch body (\<lambda>e. areturn (error_reply (mapProviderError e provider)))"

definition answer_errors :: "string \<Rightarrow> string \<Rightarrow> reply gw_act \<Rightarrow> reply gw_act" where
  "answer_errors name provider body = acatch body (\<lambda>e.
     abind (count_gateway_error name) (\<lambda>_. areturn (error_reply (mapProviderError e provider))))"

definition gateway_event :: "string \<Rightarrow> credit \<Rightarrow> credit \<Rightarrow> string \<Rightarrow> string \<Rightarrow> (rat \<times> string) option \<Rightarrow> string option
    \<Rightarrow> string option \<Rightarrow> gateway \<Rightarrow> event" where
  "gateway_event tenantId cost charge capability provider usage tier metadata s =
     \<lparr>me_id = decimal (gw_uuid s), me_tenant = tenantId, me_cost = cost, me_charge = charge, me_capability = capability,
      me_provider = provider, me_timestamp = gw_now s, me_sessionId = None, me_duration = None, me_usage = usage,
      me_tier = tier, me_metadata = metadata\<rparr>"

definition emitMeterEvent ::
  "proxy_deps \<Rightarrow> string \<Rightarrow> string \<Rightarrow> string \<Rightarrow> credit \<Rightarrow> rat \<Rightarrow> (rat \<times> string) option \<Rightarrow> string option \<Rightarrow> json option \<Rightarrow> unit gw_act" where
  "emitMeterEvent deps tenantId capability provider cost margin usage tier metadata s =
     (case withMargin cost margin of
        Inl _ \<Rightarrow> throw_error ''Credit.multiply overflow'' s
      | Inr charge \<Rightarrow> (Inr (), s\<lparr>gw_emitter := emit (pd_batchSize deps)
            (gateway_event tenantId cost charge capability provider usage tier (map_option (pd_stringify deps) metadata) s) (gw_emitter s),
            gw_uuid := gw_uuid s + 1\<rparr>))"

definition debit_credits :: "proxy_deps \<Rightarrow> string \<Rightarrow> rat \<Rightarrow> rat \<Rightarrow> string \<Rightarrow> string \<Rightarrow> unit gw_act" where
  "debit_credits deps tenantId cost margin capability provider =
     amodify (debitCredits (gate_deps.truncate deps) tenantId cost margin capability provider)"

text \<open>Meter event and debit for a cost in dollars; a cost that is no number throws in the margin.\<close>

definition bill ::
  "proxy_deps \<Rightarrow> string \<Rightarrow> string \<Rightarrow> string \<Rightarrow> rat option \<Rightarrow> rat \<Rightarrow> (rat \<times> string) option \<Rightarrow> json option \<Rightarrow> unit gw_act" where
  "bill deps tenantId capability provider cost margin usage metadata = (case cost of
     None \<Rightarrow> throw_error ''Credit.multiply overflow''
   | Some c \<Rightarrow> abind (emitMeterEvent deps tenantId capability provider (fromDollars c) margin usage (Some ''branded'') metadata) (\<lambda>_.
       debit_credits deps tenantId c margin capability provider))"

text \<open>The same for a routed call, whose cost is a credit.\<close>

definition bill_routed ::
  "proxy_deps \<Rightarrow> string \<Rightarrow> string \<Rightarrow> string \<Rightarrow> credit \<Rightarrow> (rat \<times> string) option \<Rightarrow> json option \<Rightarrow> unit gw_act" where
  "bill_routed deps tenantId capability provider cost usage metadata =
     abind (emitMeterEvent deps tenantId capability provider cost (pd_defaultMargin deps) usage (Some ''branded'') metadata) (\<lambda>_.
       debit_credits deps tenantId (toDollars cost) (pd_defaultMargin deps) capability provider)"

definition fetch :: "proxy_deps \<Rightarrow> http_request \<Rightarrow> http_response gw_act" where
  "fetch deps r = aquery (\<lambda>_. pd_fetch deps r)"

text \<open>The error thrown for an upstream answer that is not ok.\<close>

definition shown :: "body_text \<Rightarrow> proxy_deps \<Rightarrow> string" where
  "shown t deps = (case t of Json_Text j \<Rightarrow> pd_stringify deps j | Not_Json s \<Rightarrow> s)"

definition int_text :: "int \<Rightarrow> string" where
  "int_text n = (if n < 0 then ''-'' else []) @ decimal (nat \<bar>n\<bar>)"

definition require_ok :: "string \<Rightarrow> proxy_deps \<Rightarrow> http_response \<Rightarrow> unit gw_act" where
  "require_ok what deps r = (if res_ok r then areturn ()
     else athrow \<lparr>th_message = what @ '' ('' @ int_text (hs_status r) @ ''): '' @ shown (hs_text r) deps,
            th_status = Some (hs_status r)\<rparr>)"

section \<open>Tokens\<close>

definition token_field :: "string \<Rightarrow> json \<Rightarrow> rat" where
  "token_field f j = number_or 0 (opt_field f (field ''usage'' j))"

definition token_total :: "json \<Rightarrow> rat" where
  "token_total j = number_or (js_add (token_field ''prompt_tokens'' j) (token_field ''completion_tokens'' j))
     (opt_field ''total_tokens'' (field ''usage'' j))"

definition token_cost :: "token_rates \<Rightarrow> rat \<Rightarrow> rat \<Rightarrow> rat" where
  "token_cost rates i out = js_div (js_add (js_mul i (tr_input rates)) (js_mul out (tr_output rates))) 1000"

definition lookup_fn :: "rate_lookup option \<Rightarrow> rate_lookup" where
  "lookup_fn f = (case f of None \<Rightarrow> (\<lambda>_ _ _. None) | Some g \<Rightarrow> g)"

definition estimateTokenCost :: "body_text \<Rightarrow> string option \<Rightarrow> rate_lookup option \<Rightarrow> string \<Rightarrow> rat" where
  "estimateTokenCost body model lookup capability = (case parsed_object body of
     None \<Rightarrow> js_lit (1 / 1000)
   | Some j \<Rightarrow> token_cost (resolveTokenRates (lookup_fn lookup) capability model)
       (token_field ''prompt_tokens'' j) (token_field ''completion_tokens'' j))"

definition model_json :: "string option \<Rightarrow> json" where
  "model_json m = (case m of None \<Rightarrow> JNull | Some x \<Rightarrow> JStr x)"

definition optional :: "string \<Rightarrow> json option \<Rightarrow> (string \<times> json) list" where
  "optional f x = (case x of None \<Rightarrow> [] | Some v \<Rightarrow> [(f, v)])"

text \<open>Usage and metadata of a completion, when it reports tokens.\<close>

definition completion_usage :: "body_text \<Rightarrow> (rat \<times> string) option \<times> json option" where
  "completion_usage body = (case parsed_object body of
     None \<Rightarrow> (None, None)
   | Some j \<Rightarrow> if token_total j > 0
       then (Some (token_total j, ''tokens''), Some (JObj ([(''inputTokens'', JNum (token_field ''prompt_tokens'' j)),
              (''outputTokens'', JNum (token_field ''completion_tokens'' j))] @ optional ''model'' (field ''model'' j))))
       else (None, None))"

definition response_cost :: "proxy_deps \<Rightarrow> http_response \<Rightarrow> rat \<Rightarrow> rat option" where
  "response_cost deps r fallback = (case hs_cost r of None \<Rightarrow> Some fallback | Some c \<Rightarrow> c)"

definition llm_request :: "provider_cfg \<Rightarrow> string \<Rightarrow> body_text \<Rightarrow> http_request" where
  "llm_request cfg path body = \<lparr>hq_method = ''POST'',
     hq_url = (case pv_baseUrl cfg of None \<Rightarrow> ''https://openrouter.ai/api'' | Some u \<Rightarrow> u) @ path,
     hq_headers = [(''Authorization'', ''Bearer '' @ pv_apiKey cfg), (''Content-Type'', ''application/json'')],
     hq_body = Text_Body body\<rparr>"

section \<open>Streams\<close>

text \<open>The accumulated cost; a line after the end mark is left unread in its chunk.\<close>

definition stream_line :: "proxy_deps \<Rightarrow> string \<Rightarrow> string option \<Rightarrow> body_text \<Rightarrow> rat option \<Rightarrow> rat option" where
  "stream_line deps capability model t cost = (case parsed_object t of
     None \<Rightarrow> cost
   | Some j \<Rightarrow> (case field ''usage'' j of
       Some (JObj u) \<Rightarrow>
         if cost = Some 0
         then Some (token_cost (case pd_rateLookup deps of None \<Rightarrow> DEFAULT_TOKEN_RATES
                  | Some f \<Rightarrow> resolveTokenRates f capability model)
                (token_field ''prompt_tokens'' j) (token_field ''completion_tokens'' j))
         else cost
     | _ \<Rightarrow> cost))"

fun stream_chunk :: "proxy_deps \<Rightarrow> string \<Rightarrow> string option \<Rightarrow> sse_line list \<Rightarrow> rat option \<Rightarrow> rat option" where
  "stream_chunk deps capability model [] cost = cost"
| "stream_chunk deps capability model (Sse_Done # ls) cost = cost"
| "stream_chunk deps capability model (Sse_Other # ls) cost = stream_chunk deps capability model ls cost"
| "stream_chunk deps capability model (Sse_Data t # ls) cost =
     stream_chunk deps capability model ls (stream_line deps capability model t cost)"

definition stream_cost :: "proxy_deps \<Rightarrow> string \<Rightarrow> string option \<Rightarrow> http_response \<Rightarrow> rat option" where
  "stream_cost deps capability model r =
     foldl (\<lambda>c ls. stream_chunk deps capability model ls c) (case hs_cost r of None \<Rightarrow> Some 0 | Some c \<Rightarrow> c) (hs_chunks r)"

text \<open>The stream read to its end: one event, without usage or tier, and the debit. A throw in \<open>flush\<close> ends the stream.\<close>

definition proxySSEStream :: "proxy_deps \<Rightarrow> string \<Rightarrow> string \<Rightarrow> string \<Rightarrow> string option \<Rightarrow> http_response \<Rightarrow> reply gw_act" where
  "proxySSEStream deps tenantId capability provider model r =
     acatch (abind (case stream_cost deps capability model r of
         None \<Rightarrow> throw_error ''Credit.multiply overflow''
       | Some c \<Rightarrow> abind (emitMeterEvent deps tenantId capability provider (fromDollars c) (pd_defaultMargin deps) None None None)
           (\<lambda>_. debit_credits deps tenantId c (pd_defaultMargin deps) capability provider))
       (\<lambda>_. areturn Stream_Reply)) (\<lambda>_. areturn Stream_Reply)"

section \<open>Chat completions\<close>

definition enforced_model :: "proxy_deps \<Rightarrow> string option" where
  "enforced_model deps = (case pd_resolveDefaultModel deps of Some m \<Rightarrow> Some m | None \<Rightarrow> pd_defaultModel deps)"

text \<open>The body with the enforced model, whether it asks for a stream, and its model.\<close>

definition enforce :: "string option \<Rightarrow> body_text \<Rightarrow> body_text" where
  "enforce m body = (case body of
     Json_Text (JObj kvs) \<Rightarrow> if truthy m then Json_Text (JObj (set_field ''model'' (JStr (the m)) kvs)) else body
   | _ \<Rightarrow> body)"

definition body_field :: "string \<Rightarrow> body_text \<Rightarrow> json option" where
  "body_field f body = (case body of Json_Text j \<Rightarrow> field f j | Not_Json _ \<Rightarrow> None)"

definition is_streaming :: "body_text \<Rightarrow> bool" where
  "is_streaming body \<longleftrightarrow> body_field ''stream'' body = Some (JBool True)"

text \<open>The content of the last user message.\<close>

definition last_prompt :: "json option \<Rightarrow> string" where
  "last_prompt messages = (case messages of
     Some (JArr ms) \<Rightarrow> (case rev (filter (\<lambda>m. field ''role'' m = Some (JStr ''user'')) ms) of
       [] \<Rightarrow> [] | m # _ \<Rightarrow> string_or [] (field ''content'' m))
   | _ \<Rightarrow> [])"

definition chat_input :: "body_text \<Rightarrow> json" where
  "chat_input body = JObj ([(''prompt'', JStr (last_prompt (body_field ''messages'' body)))]
     @ optional ''messages'' (body_field ''messages'' body) @ optional ''model'' (body_field ''model'' body)
     @ optional ''maxTokens'' (body_field ''max_tokens'' body) @ optional ''temperature'' (body_field ''temperature'' body))"

definition routed_reply :: "int \<Rightarrow> json \<Rightarrow> rat \<Rightarrow> rat \<Rightarrow> reply" where
  "routed_reply now result i out = Json_Reply [(''id'', JStr (''chatcmpl-arb-'' @ int_text now)), (''object'', JStr ''chat.completion''),
     (''created'', JNum (of_int (now div 1000))), (''model'', JStr (string_or [] (field ''model'' result))),
     (''choices'', JArr [JObj [(''index'', JNum 0), (''message'', JObj [(''role'', JStr ''assistant''),
         (''content'', JStr (string_or [] (field ''text'' result)))]), (''finish_reason'', JStr ''stop'')]]),
     (''usage'', JObj [(''prompt_tokens'', JNum i), (''completion_tokens'', JNum out), (''total_tokens'', JNum (js_add i out))])]"

text \<open>The routed call: \<open>None\<close> when no provider is available and the direct call follows.\<close>

definition chat_routed :: "proxy_deps \<Rightarrow> string \<Rightarrow> body_text \<Rightarrow> reply option gw_act" where
  "chat_routed deps tenantId body = (case pd_arbitrage deps of
     None \<Rightarrow> areturn None
   | Some route \<Rightarrow>
       if is_streaming body then areturn None
       else (case route ''text-generation'' tenantId (chat_input body) of
           Inl (No_Provider _) \<Rightarrow> areturn None
         | Inl (Arb_Thrown e) \<Rightarrow> abind (count_gateway_error ''chat-completions'') (\<lambda>_.
             areturn (Some (error_reply (mapProviderError e ''arbitrage''))))
         | Inr r \<Rightarrow>
             let usage = (\<lambda>f. number_or 0 (opt_field f (field ''usage'' (ar_result r))));
                 i = usage ''inputTokens''; out = usage ''outputTokens''
             in abind (answer_errors ''chat-completions'' ''arbitrage''
                  (abind (bill_routed deps tenantId ''chat-completions'' (ar_provider r) (ar_cost r)
                      (Some (js_add i out, ''tokens''))
                      (Some (JObj ([(''inputTokens'', JNum i), (''outputTokens'', JNum out)] @ optional ''model'' (field ''model'' (ar_result r))))))
                    (\<lambda>_ s. (Inr (routed_reply (gw_now s) (ar_result r) i out), s))))
                (\<lambda>x. areturn (Some x))))"

text \<open>Only the three standard fields of the usage are passed on.\<close>

definition sanitize :: "body_text \<Rightarrow> body_text" where
  "sanitize t = (case t of
     Json_Text (JObj kvs) \<Rightarrow> (case map_of kvs ''usage'' of
       Some (JObj u) \<Rightarrow> Json_Text (JObj (set_field ''usage'' (JObj (concat (map (\<lambda>f. optional f (map_of u f))
           [''prompt_tokens'', ''completion_tokens'', ''total_tokens'']))) kvs))
     | Some (JArr _) \<Rightarrow> Json_Text (JObj (set_field ''usage'' (JObj []) kvs))
     | _ \<Rightarrow> t)
   | _ \<Rightarrow> t)"

definition chat_direct :: "proxy_deps \<Rightarrow> string \<Rightarrow> body_text \<Rightarrow> provider_cfg \<Rightarrow> reply gw_act" where
  "chat_direct deps tenantId body cfg = answer_errors ''chat-completions'' ''openrouter''
     (abind (fetch deps (llm_request cfg ''/v1/chat/completions'' body)) (\<lambda>r.
      let model = as_string (body_field ''model'' body) in
      if is_streaming body \<and> res_ok r then proxySSEStream deps tenantId ''chat-completions'' ''openrouter'' model r
      else abind (if res_ok r
           then bill deps tenantId ''chat-completions'' ''openrouter''
             (response_cost deps r (estimateTokenCost (hs_text r) model (pd_rateLookup deps) ''chat-completions''))
             (pd_defaultMargin deps) (fst (completion_usage (hs_text r))) (snd (completion_usage (hs_text r)))
           else areturn ()) (\<lambda>_.
        areturn (Text_Reply (hs_status r) (sanitize (hs_text r))))))"

definition chatCompletions :: "proxy_deps \<Rightarrow> gateway_tenant \<Rightarrow> body_text \<Rightarrow> reply gw_act" where
  "chatCompletions deps tenant rawBody = with_gates deps tenant
     (let body = enforce (enforced_model deps) rawBody in
      abind (count_gateway_request ''chat-completions'') (\<lambda>_.
      abind (chat_routed deps (gt_id tenant) body) (\<lambda>routed. case routed of
        Some r \<Rightarrow> areturn r
      | None \<Rightarrow> (case pd_openrouter deps of
          None \<Rightarrow> areturn (not_configured ''LLM'')
        | Some cfg \<Rightarrow> chat_direct deps (gt_id tenant) body cfg))))"

section \<open>Text completions and embeddings\<close>

definition textCompletions :: "proxy_deps \<Rightarrow> gateway_tenant \<Rightarrow> body_text \<Rightarrow> reply gw_act" where
  "textCompletions deps tenant body = with_gates deps tenant (case pd_openrouter deps of
     None \<Rightarrow> areturn (not_configured ''LLM'')
   | Some cfg \<Rightarrow> answer_errors ''text-completions'' ''openrouter''
       (abind (count_gateway_request ''text-completions'') (\<lambda>_.
        abind (fetch deps (llm_request cfg ''/v1/completions'' body)) (\<lambda>r.
        abind (if res_ok r
           then bill deps (gt_id tenant) ''text-completions'' ''openrouter''
             (response_cost deps r (estimateTokenCost (hs_text r) (as_string (body_field ''model'' body)) (pd_rateLookup deps)
                ''text-completions''))
             (pd_defaultMargin deps) (fst (completion_usage (hs_text r))) (snd (completion_usage (hs_text r)))
           else areturn ()) (\<lambda>_.
        areturn (Text_Reply (hs_status r) (hs_text r)))))))"

definition embedding_usage :: "body_text \<Rightarrow> (rat \<times> string) option \<times> json option" where
  "embedding_usage body = (case parsed_object body of
     None \<Rightarrow> (None, None)
   | Some j \<Rightarrow> if token_field ''total_tokens'' j > 0
       then (Some (token_field ''total_tokens'' j, ''tokens''), Some (JObj (optional ''model'' (field ''model'' j))))
       else (None, None))"

definition embeddings :: "proxy_deps \<Rightarrow> gateway_tenant \<Rightarrow> body_text \<Rightarrow> reply gw_act" where
  "embeddings deps tenant body = with_gates deps tenant (case pd_openrouter deps of
     None \<Rightarrow> areturn (not_configured ''Embeddings'')
   | Some cfg \<Rightarrow> answer_errors ''embeddings'' ''openrouter''
       (abind (count_gateway_request ''embeddings'') (\<lambda>_.
        abind (fetch deps (llm_request cfg ''/v1/embeddings'' body)) (\<lambda>r.
        abind (if res_ok r
           then bill deps (gt_id tenant) ''embeddings'' ''openrouter'' (response_cost deps r (js_lit (1 / 10000)))
             (pd_defaultMargin deps) (fst (embedding_usage (hs_text r))) (snd (embedding_usage (hs_text r)))
           else areturn ()) (\<lambda>_.
        areturn (Text_Reply (hs_status r) (hs_text r)))))))"

section \<open>Speech\<close>

record audio_request =
  au_contentType :: "string option"
  au_model :: "string option"
  au_language :: "string option"
  au_audio :: string

text \<open>\<open>URLSearchParams.toString\<close>; the encoding of a value is a parameter.\<close>

fun url_params :: "proxy_deps \<Rightarrow> (string \<times> string) list \<Rightarrow> string" where
  "url_params deps [] = []"
| "url_params deps [(k, v)] = k @ ''='' @ pd_encode deps v"
| "url_params deps ((k, v) # ps) = k @ ''='' @ pd_encode deps v @ ''&'' @ url_params deps ps"

definition audio_seconds :: "body_text \<Rightarrow> rat" where
  "audio_seconds t = (case parsed_object t of None \<Rightarrow> 0 | Some j \<Rightarrow> number_or 0 (opt_field ''duration'' (field ''metadata'' j)))"

definition audio_cost :: "rat \<Rightarrow> rat" where
  "audio_cost seconds = (if seconds = 0 then js_lit (1 / 1000) else js_mul (js_div seconds 60) (js_lit (43 / 10000)))"

definition audioTranscriptions :: "proxy_deps \<Rightarrow> gateway_tenant \<Rightarrow> audio_request \<Rightarrow> reply gw_act" where
  "audioTranscriptions deps tenant q = with_gates deps tenant (case pd_deepgram deps of
     None \<Rightarrow> areturn (not_configured ''STT'')
   | Some cfg \<Rightarrow> answer_errors ''transcription'' ''deepgram''
       (abind (count_gateway_request ''transcription'') (\<lambda>_.
        let model = (case au_model q of None \<Rightarrow> ''nova-2'' | Some m \<Rightarrow> m);
            params = [(''model'', model), if truthy (au_language q) then (''language'', the (au_language q)) else (''detect_language'', ''true'')]
        in abind (fetch deps \<lparr>hq_method = ''POST'',
             hq_url = (case pv_baseUrl cfg of None \<Rightarrow> ''https://api.deepgram.com'' | Some u \<Rightarrow> u) @ ''/v1/listen?'' @ url_params deps params,
             hq_headers = [(''Authorization'', ''Token '' @ pv_apiKey cfg),
               (''Content-Type'', case au_contentType q of None \<Rightarrow> ''application/octet-stream'' | Some c \<Rightarrow> c)],
             hq_body = Bytes_Body (au_audio q)\<rparr>) (\<lambda>r.
        let seconds = audio_seconds (hs_text r) in
        abind (if res_ok r
           then bill deps (gt_id tenant) ''transcription'' ''deepgram'' (Some (audio_cost seconds)) (pd_defaultMargin deps)
             (if seconds > 0 then Some (js_div seconds 60, ''minutes'') else None)
             (if seconds > 0 then Some (JObj [(''model'', JStr model), (''durationSeconds'', JNum seconds)]) else None)
           else areturn ()) (\<lambda>_.
        areturn (Text_Reply (hs_status r) (hs_text r)))))))"

text \<open>A data URL is decoded (\<open>Buffer.from\<close> is the identity here), any other URL is fetched, after the billing.\<close>

definition routed_audio :: "proxy_deps \<Rightarrow> json \<Rightarrow> reply gw_act" where
  "routed_audio deps result =
     (let url = string_or [] (field ''audioUrl'' result); fmt = string_or [] (field ''format'' result) in
      if startsWith url ''data:''
      then let parts = split_on CHR '','' url; mime = drop 5 (hd (split_on CHR '';'' (hd parts)))
        in areturn (Audio_Reply (if length parts > 1 then parts ! 1 else []) (if mime \<noteq> [] then mime else ''audio/'' @ fmt))
      else abind (fetch deps \<lparr>hq_method = ''GET'', hq_url = url, hq_headers = [], hq_body = No_Body\<rparr>) (\<lambda>r.
        areturn (Audio_Reply (case hs_bytes r of Inl _ \<Rightarrow> [] | Inr b \<Rightarrow> b)
          (case hs_contentType r of None \<Rightarrow> ''audio/'' @ fmt | Some c \<Rightarrow> c))))"

definition speech_text :: "json \<Rightarrow> string" where
  "speech_text body = string_or [] (field ''input'' body)"

definition speech_voice :: "json \<Rightarrow> string" where
  "speech_voice body = string_or ''21m00Tcm4TlvDq8ikWAM'' (field ''voice'' body)"

definition speech_format :: "json \<Rightarrow> string" where
  "speech_format body = string_or ''mp3'' (field ''response_format'' body)"

text \<open>The first member access of \<open>body\<close>.\<close>

definition read_body :: "json \<Rightarrow> unit gw_act" where
  "read_body body = (if body = JNull then throw_error ''Cannot read properties of null'' else areturn ())"

definition speech_routed :: "proxy_deps \<Rightarrow> string \<Rightarrow> json \<Rightarrow> (string \<Rightarrow> string \<Rightarrow> json \<Rightarrow> arb_error + arb_result) \<Rightarrow> reply gw_act" where
  "speech_routed deps tenantId body route = answer_errors ''tts'' ''arbitrage'' (abind (read_body body) (\<lambda>_.
     case route ''tts'' tenantId (JObj [(''text'', JStr (speech_text body)), (''voice'', JStr (speech_voice body)),
          (''format'', JStr (speech_format body))]) of
        Inl (No_Provider m) \<Rightarrow> abind (count_gateway_error ''tts'') (\<lambda>_.
          areturn (Json_Error 503 m ''server_error'' ''no_provider_available''))
      | Inl (Arb_Thrown e) \<Rightarrow> athrow e
      | Inr r \<Rightarrow> abind (bill_routed deps tenantId ''tts'' (ar_provider r) (ar_cost r)
              (Some (of_nat (length (speech_text body)), ''characters'')) None) (\<lambda>_.
           routed_audio deps (ar_result r))))"

definition speech_direct :: "proxy_deps \<Rightarrow> string \<Rightarrow> json \<Rightarrow> provider_cfg \<Rightarrow> reply gw_act" where
  "speech_direct deps tenantId body cfg = answer_errors ''tts'' ''elevenlabs'' (abind (read_body body) (\<lambda>_.
      let fmt = speech_format body; model = string_or ''eleven_multilingual_v2'' (field ''model'' body) in
      abind (fetch deps \<lparr>hq_method = ''POST'',
          hq_url = (case pv_baseUrl cfg of None \<Rightarrow> ''https://api.elevenlabs.io'' | Some u \<Rightarrow> u) @ ''/v1/text-to-speech/''
            @ speech_voice body @ ''?output_format='' @ (if fmt = ''mp3'' then ''mp3_44100_128'' else fmt),
          hq_headers = [(''xi-api-key'', pv_apiKey cfg), (''Content-Type'', ''application/json'')],
          hq_body = Text_Body (Json_Text (JObj [(''text'', JStr (speech_text body)), (''model_id'', JStr model),
            (''voice_settings'', JObj [(''stability'', JNum (js_lit (1 / 2))), (''similarity_boost'', JNum (js_lit (3 / 4)))])]))\<rparr>) (\<lambda>r.
      abind (require_ok ''ElevenLabs API error'' deps r) (\<lambda>_.
      abind (bill deps tenantId ''tts'' ''elevenlabs''
          (Some (js_mul (of_nat (length (speech_text body))) (js_lit (15 / 1000000)))) (pd_defaultMargin deps)
          (Some (of_nat (length (speech_text body)), ''characters''))
          (Some (JObj [(''voice'', JStr (speech_voice body)), (''model'', JStr model)]))) (\<lambda>_.
      abind (aquery (\<lambda>_. hs_bytes r)) (\<lambda>bytes.
      areturn (Audio_Reply bytes (case hs_contentType r of None \<Rightarrow> ''audio/mpeg'' | Some c \<Rightarrow> c))))))))"

definition audioSpeech :: "proxy_deps \<Rightarrow> gateway_tenant \<Rightarrow> body_text \<Rightarrow> reply gw_act" where
  "audioSpeech deps tenant rawBody = with_gates deps tenant (case rawBody of
     Not_Json _ \<Rightarrow> areturn (Json_Error 400 ''Invalid JSON in request body'' ''invalid_request_error'' ''parse_error'')
   | Json_Text body \<Rightarrow> abind (count_gateway_request ''tts'') (\<lambda>_. case pd_arbitrage deps of
       Some route \<Rightarrow> speech_routed deps (gt_id tenant) body route
     | None \<Rightarrow> (case pd_elevenlabs deps of
         None \<Rightarrow> areturn (not_configured ''TTS'')
       | Some cfg \<Rightarrow> speech_direct deps (gt_id tenant) body cfg)))"

section \<open>Images and video\<close>

definition image_size :: "proxy_deps \<Rightarrow> json \<Rightarrow> rat \<times> rat" where
  "image_size deps body = (case as_string (field ''size'' body) of
     None \<Rightarrow> (1024, 1024)
   | Some dims \<Rightarrow> (let ps = map (pd_Number deps) (split_on CHR ''x'' dims) in
       case (ps ! 0, if length ps > 1 then ps ! 1 else None) of
         (Some w, Some h) \<Rightarrow> if w \<noteq> 0 \<and> h \<noteq> 0 then (w, h) else (1024, 1024)
       | _ \<Rightarrow> (1024, 1024)))"

definition replicate_request :: "provider_cfg \<Rightarrow> string \<Rightarrow> (string \<times> json) list \<Rightarrow> http_request" where
  "replicate_request cfg version input = \<lparr>hq_method = ''POST'',
     hq_url = (case pv_baseUrl cfg of None \<Rightarrow> ''https://api.replicate.com'' | Some u \<Rightarrow> u) @ ''/v1/predictions'',
     hq_headers = [(''Authorization'', ''Bearer '' @ pv_apiKey cfg), (''Content-Type'', ''application/json''), (''Prefer'', ''wait'')],
     hq_body = Text_Body (Json_Text (JObj [(''version'', JStr version), (''input'', JObj input)]))\<rparr>"

text \<open>\<open>json()\<close> and the first member access on its result: a text that is no JSON throws, and so does \<open>null\<close>.\<close>

definition require_json :: "body_text \<Rightarrow> json gw_act" where
  "require_json t = (case parsed_object t of None \<Rightarrow> throw_error ''Unexpected token'' | Some j \<Rightarrow> areturn j)"

definition predict_time :: "rat \<Rightarrow> json \<Rightarrow> rat" where
  "predict_time fallback prediction = number_or fallback (opt_field ''predict_time'' (field ''metrics'' prediction))"

definition image_reply :: "int \<Rightarrow> json \<Rightarrow> reply" where
  "image_reply now prediction = Json_Reply [(''created'', JNum (of_int (now div 1000))),
     (''data'', JArr (map (\<lambda>url. JObj [(''url'', url)]) (case field ''output'' prediction of Some (JArr xs) \<Rightarrow> xs | _ \<Rightarrow> [])))]"

definition imageGenerations :: "proxy_deps \<Rightarrow> gateway_tenant \<Rightarrow> body_text \<Rightarrow> reply gw_act" where
  "imageGenerations deps tenant rawBody = with_gates deps tenant (case pd_replicate deps of
     None \<Rightarrow> areturn (not_configured ''Image'')
   | Some cfg \<Rightarrow> answer_errors ''image-generation'' ''replicate''
       (abind (count_gateway_request ''image-generation'') (\<lambda>_.
        abind (require_json rawBody) (\<lambda>body.
        let (width, height) = image_size deps body; n = number_or 1 (field ''n'' body) in
        abind (fetch deps (replicate_request cfg ''7762fd07cf82c948538e41f63f77d685e02b063e37e496e96eefd46c929f9bdc''
            [(''prompt'', JStr (string_or [] (field ''prompt'' body))), (''width'', JNum width), (''height'', JNum height),
             (''num_outputs'', JNum n)])) (\<lambda>r.
        abind (require_ok ''Replicate API error'' deps r) (\<lambda>_.
        abind (require_json (hs_text r)) (\<lambda>prediction.
        abind (bill deps (gt_id tenant) ''image-generation'' ''replicate''
            (Some (js_mul (predict_time 5 prediction) (js_lit (23 / 10000)))) (pd_defaultMargin deps) (Some (n, ''images''))
            (Some (JObj [(''width'', JNum width), (''height'', JNum height), (''predictTimeSeconds'', JNum (predict_time 5 prediction))]))) (\<lambda>_ s.
        (Inr (image_reply (gw_now s) prediction), s)))))))))"

definition video_reply :: "int \<Rightarrow> json \<Rightarrow> reply" where
  "video_reply now prediction = Json_Reply [(''created'', JNum (of_int (now div 1000))),
     (''data'', JArr [JObj [(''url'', JStr (string_or [] (field ''output'' prediction)))]])]"

definition videoGenerations :: "proxy_deps \<Rightarrow> gateway_tenant \<Rightarrow> body_text \<Rightarrow> reply gw_act" where
  "videoGenerations deps tenant rawBody = with_gates deps tenant (case pd_replicate deps of
     None \<Rightarrow> areturn (not_configured ''Video'')
   | Some cfg \<Rightarrow> answer_errors ''video-generation'' ''replicate''
       (abind (count_gateway_request ''video-generation'') (\<lambda>_.
        abind (require_json rawBody) (\<lambda>body.
        let duration = number_or 4 (field ''duration'' body) in
        abind (fetch deps (replicate_request cfg ''video-generation-model''
            [(''prompt'', JStr (string_or [] (field ''prompt'' body))), (''duration'', JNum duration)])) (\<lambda>r.
        abind (require_ok ''Replicate API error'' deps r) (\<lambda>_.
        abind (require_json (hs_text r)) (\<lambda>prediction.
        abind (bill deps (gt_id tenant) ''video-generation'' ''replicate''
            (Some (js_mul (predict_time 30 prediction) (js_lit (5 / 1000)))) (pd_defaultMargin deps) (Some (duration, ''seconds''))
            (Some (JObj [(''predictTimeSeconds'', JNum (predict_time 30 prediction))]))) (\<lambda>_ s.
        (Inr (video_reply (gw_now s) prediction), s)))))))))"

end
