(* ===== verification/Telephony.thy ===== *)
theory Telephony
  imports Proxy
begin

text \<open>
  The telephony endpoints of \<open>src/gateway/proxy.ts\<close>: calls, messages, their webhooks and phone numbers. The
  router over all endpoints is in \<open>GatewayRun\<close>, the monthly billing of the numbers in \<open>PhoneBilling\<close>.
\<close>

section \<open>Webhook bodies\<close>

text \<open>\<open>z.coerce.number()\<close>: \<open>Number\<close> of a JSON value, \<open>None\<close> when it is not a number.\<close>

fun coerce_number :: "(string \<Rightarrow> rat option) \<Rightarrow> json \<Rightarrow> rat option" where
  "coerce_number N JNull = Some 0"
| "coerce_number N (JBool b) = Some (if b then 1 else 0)"
| "coerce_number N (JNum x) = Some x"
| "coerce_number N (JStr s) = N s"
| "coerce_number N (JArr []) = Some 0"
| "coerce_number N (JArr [JBool _]) = None"
| "coerce_number N (JArr [j]) = coerce_number N j"
| "coerce_number N (JArr _) = None"
| "coerce_number N (JObj _) = None"

text \<open>An optional field: \<open>None\<close> when it is there and invalid.\<close>

definition opt_schema :: "(json \<Rightarrow> 'a option) \<Rightarrow> json option \<Rightarrow> 'a option option" where
  "opt_schema f x = (case x of None \<Rightarrow> Some None | Some j \<Rightarrow> map_option Some (f j))"

definition str_schema :: "json \<Rightarrow> string option" where
  "str_schema j = as_string (Some j)"

definition range_schema :: "(string \<Rightarrow> rat option) \<Rightarrow> rat \<Rightarrow> json \<Rightarrow> rat option" where
  "range_schema N upper j = Option.bind (coerce_number N j) (\<lambda>x. if 0 \<le> x \<and> x \<le> upper then Some x else None)"

definition MAX_CALL_DURATION_MINUTES :: rat where
  "MAX_CALL_DURATION_MINUTES = 240"

definition is_object :: "json \<Rightarrow> bool" where
  "is_object j = (case j of JObj _ \<Rightarrow> True | _ \<Rightarrow> False)"

text \<open>The parsed duration of a call, \<open>None\<close> for an invalid body.\<close>

definition phoneInboundBodySchema :: "(string \<Rightarrow> rat option) \<Rightarrow> json \<Rightarrow> rat option option" where
  "phoneInboundBodySchema N j = (if is_object j \<and> opt_schema str_schema (field ''call_sid'' j) \<noteq> None
       \<and> opt_schema str_schema (field ''status'' j) \<noteq> None
     then opt_schema (range_schema N MAX_CALL_DURATION_MINUTES) (field ''duration_minutes'' j) else None)"

definition phoneOutboundStatusBodySchema :: "(string \<Rightarrow> rat option) \<Rightarrow> json \<Rightarrow> rat option option" where
  "phoneOutboundStatusBodySchema N j = (if is_object j \<and> opt_schema str_schema (field ''CallSid'' j) \<noteq> None
       \<and> opt_schema str_schema (field ''CallStatus'' j) \<noteq> None
     then opt_schema (range_schema N (MAX_CALL_DURATION_MINUTES * 60)) (field ''CallDuration'' j) else None)"

text \<open>Number of media URLs, number of media and id of an incoming message; \<open>is_url\<close> is the check of \<open>url()\<close>.\<close>

record sms_body =
  sb_media_urls :: nat
  sb_num_media :: rat
  sb_message_sid :: "string option"

definition url_list :: "(string \<Rightarrow> bool) \<Rightarrow> json \<Rightarrow> nat option" where
  "url_list is_url j = (case j of
     JArr xs \<Rightarrow> if (\<forall>x \<in> set xs. case x of JStr u \<Rightarrow> is_url u | _ \<Rightarrow> False) then Some (length xs) else None
   | _ \<Rightarrow> None)"

definition count_schema :: "(string \<Rightarrow> rat option) \<Rightarrow> json \<Rightarrow> rat option" where
  "count_schema N j = Option.bind (coerce_number N j)
     (\<lambda>x. if 0 \<le> x \<and> number_is_safe_integer x then Some x else None)"

definition smsInboundBodySchema :: "(string \<Rightarrow> bool) \<Rightarrow> (string \<Rightarrow> rat option) \<Rightarrow> json \<Rightarrow> sms_body option" where
  "smsInboundBodySchema is_url N j =
     (if is_object j \<and> as_string (field ''from'' j) \<noteq> None \<and> as_string (field ''to'' j) \<noteq> None
         \<and> as_string (field ''body'' j) \<noteq> None
      then (case (opt_schema str_schema (field ''message_sid'' j), opt_schema (url_list is_url) (field ''media_url'' j),
              opt_schema (count_schema N) (field ''num_media'' j)) of
          (Some sid, Some urls, Some num) \<Rightarrow> Some \<lparr>sb_media_urls = (case urls of None \<Rightarrow> 0 | Some n \<Rightarrow> n),
            sb_num_media = (case num of None \<Rightarrow> 0 | Some n \<Rightarrow> n), sb_message_sid = sid\<rparr>
        | _ \<Rightarrow> None)
      else None)"

definition nullable :: "(json \<Rightarrow> 'a option) \<Rightarrow> json \<Rightarrow> 'a option option" where
  "nullable f j = (if j = JNull then Some None else map_option Some (f j))"

definition smsDeliveryStatusBodySchema :: "(string \<Rightarrow> rat option) \<Rightarrow> json \<Rightarrow> (string \<times> string) option" where
  "smsDeliveryStatusBodySchema N j =
     (if is_object j \<and> opt_schema (nullable (coerce_number N)) (field ''error_code'' j) \<noteq> None
         \<and> opt_schema (nullable str_schema) (field ''error_message'' j) \<noteq> None
      then (case (as_string (field ''message_sid'' j), as_string (field ''message_status'' j)) of
          (Some sid, Some status) \<Rightarrow> Some (sid, status) | _ \<Rightarrow> None)
      else None)"

text \<open>The body of the webhook middleware, else the body of the request.\<close>

definition webhook_body :: "json option \<Rightarrow> body_text \<Rightarrow> json gw_act" where
  "webhook_body hook raw = (case hook of
     Some j \<Rightarrow> areturn j
   | None \<Rightarrow> (case raw of Not_Json _ \<Rightarrow> throw_error ''Unexpected token'' | Json_Text j \<Rightarrow> areturn j))"

definition bad_request :: "string \<Rightarrow> string \<Rightarrow> reply" where
  "bad_request message code = Json_Error 400 message ''invalid_request_error'' code"

definition invalid_webhook :: reply where
  "invalid_webhook = bad_request ''Invalid webhook payload'' ''validation_error''"

section \<open>Twilio\<close>

definition twilio_url :: "twilio_cfg \<Rightarrow> string \<Rightarrow> string" where
  "twilio_url cfg path = (case tw_baseUrl cfg of None \<Rightarrow> ''https://api.twilio.com'' | Some u \<Rightarrow> u)
     @ ''/2010-04-01/Accounts/'' @ tw_accountSid cfg @ path"

definition basic_auth :: "proxy_deps \<Rightarrow> twilio_cfg \<Rightarrow> string \<times> string" where
  "basic_auth deps cfg = (''Authorization'', ''Basic '' @ pd_btoa deps (tw_accountSid cfg @ '':'' @ tw_authToken cfg))"

definition twilio_get :: "proxy_deps \<Rightarrow> twilio_cfg \<Rightarrow> string \<Rightarrow> http_request" where
  "twilio_get deps cfg path = \<lparr>hq_method = ''GET'', hq_url = twilio_url cfg path, hq_headers = [basic_auth deps cfg],
     hq_body = No_Body\<rparr>"

definition twilio_post :: "proxy_deps \<Rightarrow> twilio_cfg \<Rightarrow> string \<Rightarrow> (string \<times> string) list \<Rightarrow> http_request" where
  "twilio_post deps cfg path form = \<lparr>hq_method = ''POST'', hq_url = twilio_url cfg path,
     hq_headers = [basic_auth deps cfg, (''Content-Type'', ''application/x-www-form-urlencoded'')], hq_body = Form_Body form\<rparr>"

definition twilio_delete :: "proxy_deps \<Rightarrow> twilio_cfg \<Rightarrow> string \<Rightarrow> http_request" where
  "twilio_delete deps cfg path = \<lparr>hq_method = ''DELETE'', hq_url = twilio_url cfg path, hq_headers = [basic_auth deps cfg],
     hq_body = No_Body\<rparr>"

text \<open>A call of Twilio whose answer must be ok.\<close>

definition twilio_call :: "proxy_deps \<Rightarrow> string \<Rightarrow> http_request \<Rightarrow> http_response gw_act" where
  "twilio_call deps what q = abind (fetch deps q) (\<lambda>r. abind (require_ok what deps r) (\<lambda>_. areturn r))"

section \<open>Calls\<close>

definition COST_PER_MINUTE :: rat where
  "COST_PER_MINUTE = js_lit (13 / 1000)"

definition strip_slash :: "string \<Rightarrow> string" where
  "strip_slash u = (if u \<noteq> [] \<and> last u = CHR ''/'' then butlast u else u)"

definition webhook_base :: "proxy_deps \<Rightarrow> string" where
  "webhook_base deps = (case pd_webhookBaseUrl deps of None \<Rightarrow> [] | Some u \<Rightarrow> strip_slash u)"

definition outbound_form :: "proxy_deps \<Rightarrow> string \<Rightarrow> json \<Rightarrow> (string \<times> string) list" where
  "outbound_form deps tenantId body =
     (let base = webhook_base deps;
          url = (case as_string (field ''twiml'' body) of Some u \<Rightarrow> u
            | None \<Rightarrow> if base \<noteq> [] then base @ ''/phone/twiml/hangup'' else [])
      in [(''To'', string_or [] (field ''to'' body)), (''From'', string_or [] (field ''from'' body))]
         @ (if url \<noteq> [] then [(''Url'', url)] else [])
         @ (if base \<noteq> [] then [(''StatusCallback'', base @ ''/phone/outbound/status/'' @ tenantId),
              (''StatusCallbackMethod'', ''POST''), (''StatusCallbackEvent'', ''completed'')] else []))"

definition phoneOutbound :: "proxy_deps \<Rightarrow> gateway_tenant \<Rightarrow> body_text \<Rightarrow> reply gw_act" where
  "phoneOutbound deps tenant rawBody = with_gates deps tenant (case pd_twilio deps of
     None \<Rightarrow> areturn (not_configured ''Phone'')
   | Some cfg \<Rightarrow> (case rawBody of
       Not_Json _ \<Rightarrow> areturn (bad_request ''Invalid JSON body'' ''bad_request'')
     | Json_Text body \<Rightarrow> answer_errors ''phone-outbound'' ''twilio''
         (abind (count_gateway_request ''phone-outbound'') (\<lambda>_.
          abind (read_body body) (\<lambda>_.
          if string_or [] (field ''to'' body) = [] \<or> string_or [] (field ''from'' body) = []
          then areturn (bad_request ''Missing required fields: to, from'' ''missing_field'')
          else abind (twilio_call deps ''Twilio API error''
              (twilio_post deps cfg ''/Calls.json'' (outbound_form deps (gt_id tenant) body))) (\<lambda>r.
            abind (require_json (hs_text r)) (\<lambda>call.
            abind (awhen (webhook_base deps = []) (bill deps (gt_id tenant) ''phone-outbound'' ''twilio''
                (Some COST_PER_MINUTE) (pd_defaultMargin deps) (Some (1, ''minutes'')) None)) (\<lambda>_.
            areturn (Json_Reply (optional ''sid'' (field ''sid'' call) @ optional ''status'' (field ''status'' call)))))))))))"

definition metered_reply :: "rat \<Rightarrow> reply" where
  "metered_reply minutes = Json_Reply [(''status'', JStr ''metered''), (''duration_minutes'', JNum minutes)]"

definition phoneInbound :: "proxy_deps \<Rightarrow> gateway_tenant \<Rightarrow> json option \<Rightarrow> body_text \<Rightarrow> reply gw_act" where
  "phoneInbound deps tenant hook raw =
     (let provider = (if pd_twilio deps \<noteq> None then ''twilio'' else ''telnyx'') in
      answer_errors ''phone-inbound'' provider
        (abind (count_gateway_request ''phone-inbound'') (\<lambda>_.
         abind (webhook_body hook raw) (\<lambda>j. case phoneInboundBodySchema (pd_Number deps) j of
           None \<Rightarrow> areturn invalid_webhook
         | Some duration \<Rightarrow>
             let minutes = (case duration of None \<Rightarrow> 1 | Some d \<Rightarrow> d) in
             abind (bill deps (gt_id tenant) ''phone-inbound'' provider (Some (js_mul minutes COST_PER_MINUTE))
               (pd_defaultMargin deps) (Some (minutes, ''minutes'')) None) (\<lambda>_. areturn (metered_reply minutes))))))"

definition phoneOutboundStatus :: "proxy_deps \<Rightarrow> gateway_tenant \<Rightarrow> json option \<Rightarrow> body_text \<Rightarrow> reply gw_act" where
  "phoneOutboundStatus deps tenant hook raw = answer_errors ''phone-outbound'' ''twilio''
     (abind (count_gateway_request ''phone-outbound'') (\<lambda>_.
      abind (webhook_body hook raw) (\<lambda>j. case phoneOutboundStatusBodySchema (pd_Number deps) j of
        None \<Rightarrow> areturn invalid_webhook
      | Some duration \<Rightarrow>
          let minutes = of_int \<lceil>js_div (case duration of None \<Rightarrow> 0 | Some d \<Rightarrow> d) 60\<rceil> in
          if minutes = 0 then areturn (Json_Reply [(''status'', JStr ''no-charge'')])
          else abind (bill deps (gt_id tenant) ''phone-outbound'' ''twilio'' (Some (js_mul minutes COST_PER_MINUTE))
            (pd_defaultMargin deps) (Some (minutes, ''minutes'')) None) (\<lambda>_. areturn (metered_reply minutes)))))"

definition phoneTwimlHangup :: reply where
  "phoneTwimlHangup = Xml_Reply ''<Response><Hangup/></Response>''"

section \<open>Messages\<close>

definition SMS_WHOLESALE_COST :: rat where
  "SMS_WHOLESALE_COST = js_lit (79 / 10000)"

definition MMS_WHOLESALE_COST :: rat where
  "MMS_WHOLESALE_COST = js_lit (2 / 100)"

definition SMS_OUTBOUND_MARGIN :: rat where
  "SMS_OUTBOUND_MARGIN = js_lit (253 / 100)"

definition MMS_OUTBOUND_MARGIN :: rat where
  "MMS_OUTBOUND_MARGIN = js_lit (5 / 2)"

definition SMS_INBOUND_MARGIN :: rat where
  "SMS_INBOUND_MARGIN = js_lit (127 / 100)"

definition MMS_INBOUND_MARGIN :: rat where
  "MMS_INBOUND_MARGIN = js_lit (5 / 4)"

definition media_urls :: "json \<Rightarrow> json list" where
  "media_urls body = (case field ''media_url'' body of Some (JArr us) \<Rightarrow> us | _ \<Rightarrow> [])"

definition message_form :: "json \<Rightarrow> (string \<times> string) list" where
  "message_form body = [(''To'', string_or [] (field ''to'' body)), (''Body'', string_or [] (field ''body'' body)),
     (''From'', string_or [] (field ''from'' body))] @ map (\<lambda>u. (''MediaUrl'', string_or [] (Some u))) (media_urls body)"

definition smsOutbound :: "proxy_deps \<Rightarrow> gateway_tenant \<Rightarrow> body_text \<Rightarrow> reply gw_act" where
  "smsOutbound deps tenant rawBody = with_gates deps tenant (case pd_twilio deps of
     None \<Rightarrow> areturn (not_configured ''SMS'')
   | Some cfg \<Rightarrow> answer_errors ''sms-outbound'' ''twilio''
       (abind (count_gateway_request ''sms-outbound'') (\<lambda>_.
        abind (require_json rawBody) (\<lambda>body.
        if string_or [] (field ''to'' body) = [] \<or> string_or [] (field ''body'' body) = [] \<or> string_or [] (field ''from'' body) = []
        then areturn (bad_request ''Missing required fields: to, body, from'' ''missing_field'')
        else let mms = media_urls body \<noteq> []; capability = (if mms then ''mms-outbound'' else ''sms-outbound'') in
          abind (twilio_call deps ''Twilio API error'' (twilio_post deps cfg ''/Messages.json'' (message_form body))) (\<lambda>r.
          abind (require_json (hs_text r)) (\<lambda>msg.
          abind (bill deps (gt_id tenant) capability ''twilio'' (Some (if mms then MMS_WHOLESALE_COST else SMS_WHOLESALE_COST))
              (if mms then MMS_OUTBOUND_MARGIN else SMS_OUTBOUND_MARGIN) (Some (1, ''messages'')) None) (\<lambda>_.
          areturn (Json_Reply (optional ''sid'' (field ''sid'' msg)
            @ [(''status'', JStr (string_or ''queued'' (field ''status'' msg))), (''capability'', JStr capability)])))))))))"

definition smsInbound :: "(string \<Rightarrow> bool) \<Rightarrow> proxy_deps \<Rightarrow> gateway_tenant \<Rightarrow> json option \<Rightarrow> body_text \<Rightarrow> reply gw_act" where
  "smsInbound is_url deps tenant hook raw = answer_errors ''sms-inbound'' ''twilio''
     (abind (count_gateway_request ''sms-inbound'') (\<lambda>_.
      abind (webhook_body hook raw) (\<lambda>j. case smsInboundBodySchema is_url (pd_Number deps) j of
        None \<Rightarrow> areturn invalid_webhook
      | Some b \<Rightarrow>
          let mms = sb_media_urls b > 0 \<or> sb_num_media b > 0; capability = (if mms then ''mms-inbound'' else ''sms-inbound'') in
          abind (bill deps (gt_id tenant) capability ''twilio'' (Some (if mms then MMS_WHOLESALE_COST else SMS_WHOLESALE_COST))
              (if mms then MMS_INBOUND_MARGIN else SMS_INBOUND_MARGIN) (Some (1, ''messages'')) None) (\<lambda>_.
          areturn (Json_Reply [(''status'', JStr ''received''), (''capability'', JStr capability),
            (''message_sid'', model_json (sb_message_sid b))])))))"

definition smsDeliveryStatus :: "proxy_deps \<Rightarrow> json option \<Rightarrow> body_text \<Rightarrow> reply gw_act" where
  "smsDeliveryStatus deps hook raw = map_errors ''twilio''
     (abind (webhook_body hook raw) (\<lambda>j. areturn (case smsDeliveryStatusBodySchema (pd_Number deps) j of
        None \<Rightarrow> invalid_webhook
      | Some (sid, status) \<Rightarrow> Json_Reply [(''status'', JStr ''acknowledged''), (''message_sid'', JStr sid),
          (''message_status'', JStr status)])))"

section \<open>Phone numbers\<close>

definition PHONE_NUMBER_MONTHLY_COST :: rat where
  "PHONE_NUMBER_MONTHLY_COST = js_lit (115 / 100)"

definition PHONE_NUMBER_MARGIN :: rat where
  "PHONE_NUMBER_MARGIN = js_lit (13 / 5)"

definition TENANT_NUMBER_PREFIX :: string where
  "TENANT_NUMBER_PREFIX = ''wopr:tenant:''"

text \<open>\<open>DrizzlePhoneNumberRepository\<close>: the sid is the primary key, an insert on a taken one does nothing.\<close>

definition trackPhoneNumber :: "string \<Rightarrow> string \<Rightarrow> string \<Rightarrow> gateway \<Rightarrow> gateway" where
  "trackPhoneNumber tenantId sid number s =
     (if sid \<in> set (map pn_sid (gw_phones s)) then s
      else s\<lparr>gw_phones := gw_phones s @ [\<lparr>pn_sid = sid, pn_tenantId = tenantId, pn_phoneNumber = number,
        pn_provisionedAt = gw_now s, pn_lastBilledAt = None\<rparr>]\<rparr>)"

definition removePhoneNumber :: "string \<Rightarrow> gateway \<Rightarrow> gateway" where
  "removePhoneNumber sid s = s\<lparr>gw_phones := filter (\<lambda>p. pn_sid p \<noteq> sid) (gw_phones s)\<rparr>"

definition listActivePhoneNumbers :: "gateway \<Rightarrow> phone_row list" where
  "listActivePhoneNumbers s = gw_phones s"

definition phones_by_tenant :: "string \<Rightarrow> gateway \<Rightarrow> phone_row list" where
  "phones_by_tenant tenantId s = filter (\<lambda>p. pn_tenantId p = tenantId) (gw_phones s)"

definition phone_markBilled :: "string \<Rightarrow> gateway \<Rightarrow> gateway" where
  "phone_markBilled sid s =
     s\<lparr>gw_phones := map (\<lambda>p. if pn_sid p = sid then p\<lparr>pn_lastBilledAt := Some (gw_now s)\<rparr> else p) (gw_phones s)\<rparr>"

text \<open>The tracking is not awaited; a number without its columns is logged and dropped.\<close>

definition track_purchase :: "proxy_deps \<Rightarrow> string \<Rightarrow> json \<Rightarrow> unit gw_act" where
  "track_purchase deps tenantId purchased = amodify (\<lambda>s.
     if pd_phoneRepo deps
     then (case (as_string (field ''sid'' purchased), as_string (field ''phone_number'' purchased)) of
         (Some sid, Some number) \<Rightarrow> trackPhoneNumber tenantId sid number s
       | _ \<Rightarrow> s)
     else s)"

definition js_String :: "proxy_deps \<Rightarrow> json option \<Rightarrow> string" where
  "js_String deps x = (case x of None \<Rightarrow> ''true'' | Some JNull \<Rightarrow> ''true'' | Some (JStr s) \<Rightarrow> s
     | Some (JBool b) \<Rightarrow> if b then ''true'' else ''false'' | Some j \<Rightarrow> pd_stringify deps j)"

definition search_params :: "proxy_deps \<Rightarrow> json \<Rightarrow> (string \<times> string) list" where
  "search_params deps body =
     (if string_or [] (field ''area_code'' body) \<noteq> [] then [(''AreaCode'', string_or [] (field ''area_code'' body))] else [])
     @ [(''SmsEnabled'', ''true''), (''VoiceEnabled'', js_String deps (opt_field ''voice'' (field ''capabilities'' body))),
        (''MmsEnabled'', js_String deps (opt_field ''mms'' (field ''capabilities'' body))), (''PageSize'', ''1'')]"

definition number_json :: "json \<Rightarrow> (string \<times> json) list" where
  "number_json n = optional ''id'' (field ''sid'' n) @ optional ''phone_number'' (field ''phone_number'' n)
     @ optional ''friendly_name'' (field ''friendly_name'' n) @ optional ''capabilities'' (field ''capabilities'' n)"

definition no_numbers :: reply where
  "no_numbers = Json_Error 404 ''No phone numbers available for the requested criteria'' ''not_found_error'' ''no_numbers_available''"

definition phoneNumberProvision :: "proxy_deps \<Rightarrow> gateway_tenant \<Rightarrow> body_text \<Rightarrow> reply gw_act" where
  "phoneNumberProvision deps tenant rawBody = with_gates deps tenant (case pd_twilio deps of
     None \<Rightarrow> areturn (not_configured ''Phone'')
   | Some cfg \<Rightarrow> map_errors ''twilio''
       (abind (require_json rawBody) (\<lambda>body.
        abind (twilio_call deps ''Twilio search error'' (twilio_get deps cfg
            (''/AvailablePhoneNumbers/'' @ string_or ''US'' (field ''country'' body) @ ''/Local.json?''
             @ url_params deps (search_params deps body)))) (\<lambda>found.
        abind (require_json (hs_text found)) (\<lambda>searchBody. case field ''available_phone_numbers'' searchBody of
          Some (JArr (selected # _)) \<Rightarrow>
            abind (twilio_call deps ''Twilio purchase error'' (twilio_post deps cfg ''/IncomingPhoneNumbers.json''
                [(''PhoneNumber'', string_or ''undefined'' (field ''phone_number'' selected)),
                 (''FriendlyName'', TENANT_NUMBER_PREFIX @ gt_id tenant)])) (\<lambda>r.
            abind (require_json (hs_text r)) (\<lambda>purchased.
            abind (bill deps (gt_id tenant) ''phone-number-provision'' ''twilio'' (Some PHONE_NUMBER_MONTHLY_COST)
                PHONE_NUMBER_MARGIN (Some (1, ''numbers'')) None) (\<lambda>_.
            abind (track_purchase deps (gt_id tenant) purchased) (\<lambda>_.
            areturn (Json_Reply (number_json purchased))))))
        | _ \<Rightarrow> areturn no_numbers)))))"

definition phoneNumberList :: "proxy_deps \<Rightarrow> gateway_tenant \<Rightarrow> reply gw_act" where
  "phoneNumberList deps tenant = (case pd_twilio deps of
     None \<Rightarrow> areturn (not_configured ''Phone'')
   | Some cfg \<Rightarrow> map_errors ''twilio''
       (abind (twilio_call deps ''Twilio API error'' (twilio_get deps cfg (''/IncomingPhoneNumbers.json?''
            @ url_params deps [(''FriendlyName'', TENANT_NUMBER_PREFIX @ gt_id tenant)]))) (\<lambda>r.
        abind (require_json (hs_text r)) (\<lambda>twilioBody.
        areturn (Json_Reply [(''data'', JArr (map (\<lambda>n. JObj (number_json n))
          (case field ''incoming_phone_numbers'' twilioBody of Some (JArr ns) \<Rightarrow> ns | _ \<Rightarrow> [])))])))))"

definition number_not_found :: reply where
  "number_not_found = Json_Error 404 ''Phone number not found'' ''not_found_error'' ''number_not_found''"

definition phoneNumberRelease :: "proxy_deps \<Rightarrow> gateway_tenant \<Rightarrow> string \<Rightarrow> reply gw_act" where
  "phoneNumberRelease deps tenant numberId = (case pd_twilio deps of
     None \<Rightarrow> areturn (not_configured ''Phone'')
   | Some cfg \<Rightarrow> map_errors ''twilio''
       (if numberId = [] then areturn (bad_request ''Missing phone number ID'' ''missing_field'')
        else let path = ''/IncomingPhoneNumbers/'' @ numberId @ ''.json'' in
          abind (twilio_call deps ''Twilio API error'' (twilio_get deps cfg path)) (\<lambda>v.
          abind (require_json (hs_text v)) (\<lambda>info.
          if as_string (field ''friendly_name'' info) \<noteq> Some (TENANT_NUMBER_PREFIX @ gt_id tenant) then areturn number_not_found
          else abind (twilio_call deps ''Twilio API error'' (twilio_delete deps cfg path)) (\<lambda>_.
            abind (amodify (\<lambda>s. if pd_phoneRepo deps then removePhoneNumber numberId s else s)) (\<lambda>_.
            areturn (Json_Reply [(''status'', JStr ''released''), (''id'', JStr numberId)])))))))"

end
