(* ===== verification/GatewayRun.thy ===== *)
theory GatewayRun
  imports Telephony
begin

text \<open>
  The router over the endpoints of the gateway (\<open>src/gateway/routes.ts\<close>) and what it guarantees: a call
  charges the tenant what it meters, and a reply that is an error has charged nothing. The billing steps
  are an interface: the endpoints are proved against its contract, once.
\<close>

section \<open>The routes\<close>

datatype call =
    Chat body_text
  | Completion body_text
  | Embedding body_text
  | Transcription audio_request
  | Speech body_text
  | Image body_text
  | Video body_text
  | Phone_Outbound body_text
  | Phone_Inbound "json option" body_text
  | Phone_Outbound_Status "json option" body_text
  | Twiml_Hangup
  | Sms_Outbound body_text
  | Sms_Inbound "json option" body_text
  | Sms_Status "json option" body_text
  | Number_Provision body_text
  | Number_List
  | Number_Release string

fun serve :: "(string \<Rightarrow> bool) \<Rightarrow> proxy_deps \<Rightarrow> gateway_tenant \<Rightarrow> call \<Rightarrow> reply gw_act" where
  "serve is_url deps tenant (Chat b) = chatCompletions deps tenant b"
| "serve is_url deps tenant (Completion b) = textCompletions deps tenant b"
| "serve is_url deps tenant (Embedding b) = embeddings deps tenant b"
| "serve is_url deps tenant (Transcription q) = audioTranscriptions deps tenant q"
| "serve is_url deps tenant (Speech b) = audioSpeech deps tenant b"
| "serve is_url deps tenant (Image b) = imageGenerations deps tenant b"
| "serve is_url deps tenant (Video b) = videoGenerations deps tenant b"
| "serve is_url deps tenant (Phone_Outbound b) = phoneOutbound deps tenant b"
| "serve is_url deps tenant (Phone_Inbound h b) = phoneInbound deps tenant h b"
| "serve is_url deps tenant (Phone_Outbound_Status h b) = phoneOutboundStatus deps tenant h b"
| "serve is_url deps tenant Twiml_Hangup = areturn phoneTwimlHangup"
| "serve is_url deps tenant (Sms_Outbound b) = smsOutbound deps tenant b"
| "serve is_url deps tenant (Sms_Inbound h b) = smsInbound is_url deps tenant h b"
| "serve is_url deps tenant (Sms_Status h b) = smsDeliveryStatus deps h b"
| "serve is_url deps tenant (Number_Provision b) = phoneNumberProvision deps tenant b"
| "serve is_url deps tenant Number_List = phoneNumberList deps tenant"
| "serve is_url deps tenant (Number_Release i) = phoneNumberRelease deps tenant i"

section \<open>Amounts\<close>

lemma fl_relative:
  assumes "two_pow (- 1022) \<le> \<bar>x\<bar>"
  shows "\<bar>fl x - x\<bar> \<le> \<bar>x\<bar> / 2 ^ 53"
proof -
  have nz: "x \<noteq> 0" using assms two_pow_pos[of "- 1022"] by (metis abs_zero not_less)
  have "two_pow (- 1022) < two_pow (expo x + 1)" using assms expo_bounds(2)[OF nz] by linarith
  then have "ulp_expo x = expo x + (- 52)" by (simp add: two_pow_less_iff ulp_expo_def)
  then have "two_pow (ulp_expo x) = two_pow (expo x) / 2 ^ 52"
    using two_pow_add[of "expo x" "- 52"] two_pow_neg[of 52] by simp
  then have "two_pow (ulp_expo x) / 2 \<le> \<bar>x\<bar> / 2 ^ 53" using expo_bounds(1)[OF nz] by (simp add: field_simps)
  then show ?thesis using fl_error[of x] by linarith
qed

lemma two_pow_tiny: "two_pow (- 1022) \<le> 1 / 2 ^ 30"
  using two_pow_mono[of "- 1022" "- 30"] two_pow_neg[of 30] by simp

text \<open>Up to about a million dollars an amount survives \<open>toDollars\<close> and \<open>fromDollars\<close>.\<close>

lemma from_to_dollars:
  assumes "\<bar>toRaw c\<bar> \<le> 2 ^ 50"
  shows "fromDollars (toDollars c) = c"
proof (cases "toRaw c = 0")
  case True
  then show ?thesis by (cases c) (simp add: fromDollars_def toDollars_def js_div_def js_mul_def js_round_def floor_eq_iff)
next
  case False
  define n :: rat where "n = of_int (toRaw c)"
  define a where "a = fl (n / 1000000000)"
  have one: "1 \<le> \<bar>n\<bar>" and big: "\<bar>n\<bar> \<le> 2 ^ 50" using False assms by (simp_all add: n_def flip: of_int_abs)
  have "\<bar>n / 1000000000\<bar> = \<bar>n\<bar> / 1000000000" by (simp add: abs_divide)
  then have "\<bar>a - n / 1000000000\<bar> \<le> \<bar>n\<bar> / 1000000000 / 2 ^ 53"
    unfolding a_def using fl_relative[of "n / 1000000000"] two_pow_tiny one by (simp add: field_simps)
  then have "\<bar>a - n / 1000000000\<bar> * 1000000000 \<le> \<bar>n\<bar> / 1000000000 / 2 ^ 53 * 1000000000"
    by (rule mult_right_mono) simp
  moreover have "a * 1000000000 - n = (a - n / 1000000000) * 1000000000" by (simp add: left_diff_distrib)
  then have "\<bar>a * 1000000000 - n\<bar> = \<bar>a - n / 1000000000\<bar> * 1000000000" by (simp only: abs_mult)
  ultimately have "\<bar>a * 1000000000 - n\<bar> \<le> \<bar>n\<bar> / 2 ^ 53" by simp
  then have z: "\<bar>a * 1000000000 - n\<bar> \<le> 1 / 8" using big by simp
  then have "7 / 8 \<le> \<bar>a * 1000000000\<bar>" using one by linarith
  then have "two_pow (- 1022) \<le> \<bar>a * 1000000000\<bar>" using two_pow_tiny by simp
  then have "\<bar>fl (a * 1000000000) - a * 1000000000\<bar> \<le> \<bar>a * 1000000000\<bar> / 2 ^ 53" by (rule fl_relative)
  moreover have "\<bar>n\<bar> \<le> 1125899906842624" using big by simp
  then have "\<bar>a * 1000000000\<bar> \<le> 2251799813685248" using z by linarith
  ultimately have "\<bar>fl (a * 1000000000) - a * 1000000000\<bar> \<le> 1 / 4" by simp
  then have "\<bar>fl (a * 1000000000) - n\<bar> < 1 / 2" using z by linarith
  then have "\<lfloor>fl (a * 1000000000) + 1 / 2\<rfloor> = toRaw c" unfolding n_def by (intro floor_unique) linarith+
  then show ?thesis
    by (cases c) (simp add: fromDollars_def toDollars_def js_round_def js_mul_def js_div_def a_def n_def SCALE_def)
qed


section \<open>What a call does to ledger and meter\<close>

definition kept :: "gateway \<Rightarrow> gateway \<Rightarrow> bool" where
  "kept s s' \<longleftrightarrow> gw_db s' = gw_db s \<and> gw_emitter s' = gw_emitter s"

text \<open>The ledger after the charge of an event: a charge that is not positive and a debit that fails leave it.\<close>

definition charge_event :: "proxy_deps \<Rightarrow> event \<Rightarrow> db \<Rightarrow> db" where
  "charge_event deps e d =
     (if gd_ledger (gate_deps.truncate deps) \<and> 0 < toRaw (me_charge e)
      then (case debit (me_tenant e) (me_charge e) Adapter_Usage (usage_opts (me_capability e) (me_provider e)) d of
          Inl _ \<Rightarrow> d | Inr (_, d') \<Rightarrow> d')
      else d)"

text \<open>One event of the tenant is emitted, charged with a margin on its cost, and exactly it is debited.\<close>

definition billed :: "proxy_deps \<Rightarrow> string \<Rightarrow> gateway \<Rightarrow> gateway \<Rightarrow> bool" where
  "billed deps tenantId s s' \<longleftrightarrow> (\<exists>e margin. me_tenant e = tenantId \<and> withMargin (me_cost e) margin = Inr (me_charge e)
     \<and> gw_emitter s' = emit (pd_batchSize deps) e (gw_emitter s) \<and> gw_db s' = charge_event deps e (gw_db s))"

text \<open>Routed costs within the range that \<open>from_to_dollars\<close> covers.\<close>

definition routed_in_range :: "proxy_deps \<Rightarrow> bool" where
  "routed_in_range deps \<longleftrightarrow> (\<forall>route k t j r. pd_arbitrage deps = Some route \<longrightarrow> route k t j = Inr r
     \<longrightarrow> \<bar>toRaw (ar_cost r)\<bar> \<le> 2 ^ 50)"

text \<open>
  Actions: \<open>free\<close> leaves ledger and meter; \<open>bills B\<close> throws and leaves them, or ends in \<open>B\<close>; \<open>finishes\<close>
  is free and answers with a success; \<open>fair B\<close> leaves them, or ends in \<open>B\<close> with a success; \<open>settled B\<close> does
  one of the two whatever it answers.
\<close>

definition free :: "'a gw_act \<Rightarrow> bool" where
  "free m \<longleftrightarrow> (\<forall>s. kept s (snd (m s)))"

definition bills :: "(gateway \<Rightarrow> gateway \<Rightarrow> bool) \<Rightarrow> unit gw_act \<Rightarrow> bool" where
  "bills B m \<longleftrightarrow> (\<forall>s. (\<exists>e. fst (m s) = Inl e \<and> kept s (snd (m s))) \<or> (fst (m s) = Inr () \<and> B s (snd (m s))))"

definition finishes :: "reply gw_act \<Rightarrow> bool" where
  "finishes m \<longleftrightarrow> free m \<and> (\<forall>s. \<exists>r. fst (m s) = Inr r \<and> succeeded r)"

definition fair :: "(gateway \<Rightarrow> gateway \<Rightarrow> bool) \<Rightarrow> reply gw_act \<Rightarrow> bool" where
  "fair B m \<longleftrightarrow> (\<forall>s. kept s (snd (m s)) \<or> (B s (snd (m s)) \<and> (\<exists>r. fst (m s) = Inr r \<and> succeeded r)))"

definition settled :: "(gateway \<Rightarrow> gateway \<Rightarrow> bool) \<Rightarrow> reply gw_act \<Rightarrow> bool" where
  "settled B m \<longleftrightarrow> (\<forall>s. kept s (snd (m s)) \<or> B s (snd (m s)))"

text \<open>\<open>B\<close> looks at ledger and meter only.\<close>

definition observes :: "(gateway \<Rightarrow> gateway \<Rightarrow> bool) \<Rightarrow> bool" where
  "observes B \<longleftrightarrow> (\<forall>s s' u u'. kept s u \<longrightarrow> kept s' u' \<longrightarrow> B s s' \<longrightarrow> B u u')"

named_theorems free_intros "actions that leave ledger and meter alone"

lemma kept_refl [simp]: "kept s s"
  by (simp add: kept_def)

lemma kept_trans: "kept s t \<Longrightarrow> kept t u \<Longrightarrow> kept s u"
  by (simp add: kept_def)

lemma observesD: "observes B \<Longrightarrow> B s s' \<Longrightarrow> kept u s \<Longrightarrow> kept s' u' \<Longrightarrow> B u u'"
  unfolding observes_def kept_def by metis

lemma observes_billed [simp]: "observes (billed deps t)"
  by (auto simp: observes_def billed_def kept_def)

lemma free_base [free_intros]:
  "free (areturn a)" "free (athrow e)" "free (aquery q)" "free (throw_error m)"
  by (simp_all add: free_def areturn_def athrow_def aquery_def throw_error_def)

lemma freeD: "free m \<Longrightarrow> m s = (x, s') \<Longrightarrow> kept s s'"
  by (metis free_def snd_conv)

lemma free_after: "free m \<Longrightarrow> kept s t \<Longrightarrow> kept s (snd (m t))"
  using kept_trans by (auto simp: free_def)

lemma free_bind [free_intros]: "free m \<Longrightarrow> (\<And>a. free (f a)) \<Longrightarrow> free (abind m f)"
  unfolding free_def[of "abind m f"] abind_def by (auto split: prod.splits sum.splits intro: freeD free_after)

lemma free_catch [free_intros]: "free m \<Longrightarrow> (\<And>e. free (h e)) \<Longrightarrow> free (acatch m h)"
  unfolding free_def[of "acatch m h"] acatch_def by (auto split: prod.splits sum.splits intro: freeD free_after)

lemma free_if [free_intros]: "free m \<Longrightarrow> free n \<Longrightarrow> free (if b then m else n)"
  by simp

lemma free_option [free_intros]: "free m \<Longrightarrow> (\<And>y. free (f y)) \<Longrightarrow> free (case x of None \<Rightarrow> m | Some y \<Rightarrow> f y)"
  by (cases x) simp_all

lemma free_modify: "(\<And>s. kept s (f s)) \<Longrightarrow> free (amodify f)"
  by (simp add: free_def amodify_def)

lemma free_steps [free_intros]:
  "free (count_gateway_request n)" "free (count_gateway_error n)" "free (fetch deps q)" "free (read_body b)"
  "free (require_ok w deps r)" "free (require_json t)" "free (budgetCheck deps tenant)" "free (credit_gate deps tenant)"
  "free (twilio_call deps w q)" "free (webhook_body h raw)" "free (track_purchase deps owner j)"
  unfolding count_gateway_request_def count_gateway_error_def fetch_def read_body_def require_ok_def require_json_def
    budgetCheck_def credit_gate_def twilio_call_def webhook_body_def track_purchase_def
  by (auto intro!: free_intros free_modify simp: kept_def trackPhoneNumber_def Let_def
      split: option.split body_text.split)


section \<open>Rules for billed actions\<close>

named_theorems fair_intros "actions that leave ledger and meter alone or bill once and succeed"

lemma fair_free: "free m \<Longrightarrow> fair B m"
  by (simp add: fair_def free_def)

lemma fair_settled: "fair B m \<Longrightarrow> settled B m"
  by (auto simp: fair_def settled_def)

lemma fairI:
  "(\<And>s x s'. m s = (x, s') \<Longrightarrow> kept s s' \<or> (B s s' \<and> (\<exists>r. x = Inr r \<and> succeeded r))) \<Longrightarrow> fair B m"
  unfolding fair_def by (metis prod.collapse)

lemma fairD: "fair B m \<Longrightarrow> m s = (x, s') \<Longrightarrow> kept s s' \<or> (B s s' \<and> (\<exists>r. x = Inr r \<and> succeeded r))"
  unfolding fair_def by (metis fst_conv snd_conv)

lemma settledI: "(\<And>s x s'. m s = (x, s') \<Longrightarrow> kept s s' \<or> B s s') \<Longrightarrow> settled B m"
  unfolding settled_def by (metis prod.collapse)

lemma settledD: "settled B m \<Longrightarrow> m s = (x, s') \<Longrightarrow> kept s s' \<or> B s s'"
  unfolding settled_def by (metis snd_conv)

lemma billsD: "bills B m \<Longrightarrow> m s = (x, s') \<Longrightarrow> (\<exists>e. x = Inl e \<and> kept s s') \<or> (x = Inr () \<and> B s s')"
  unfolding bills_def by (metis fst_conv snd_conv)

lemma abind_cases:
  assumes "abind m f s = (x, s')"
  obtains e where "m s = (Inl e, s')" "x = Inl e" | a s1 where "m s = (Inr a, s1)" "f a s1 = (x, s')"
  using assms by (auto simp: abind_def split: prod.splits sum.splits)

lemma acatch_cases:
  assumes "acatch m h s = (x, s')"
  obtains a where "m s = (Inr a, s')" "x = Inr a" | e s1 where "m s = (Inl e, s1)" "h e s1 = (x, s')"
  using assms by (auto simp: acatch_def split: prod.splits sum.splits)

lemma fair_bind [fair_intros]:
  assumes "observes B" "free m" "\<And>a. fair B (f a)"
  shows "fair B (abind m f)"
proof (rule fairI, erule abind_cases)
  fix s x s' a s1 assume m: "m s = (Inr a, s1)" and f: "f a s1 = (x, s')"
  note k = freeD[OF assms(2) m]
  show "kept s s' \<or> (B s s' \<and> (\<exists>r. x = Inr r \<and> succeeded r))"
    using fairD[OF assms(3) f] kept_trans[OF k] observesD[OF assms(1) _ k kept_refl] by blast
qed (use freeD[OF assms(2)] in blast)

lemma fair_catch [fair_intros]:
  assumes "fair B m" "\<And>e. free (h e)"
  shows "fair B (acatch m h)"
proof (rule fairI, erule acatch_cases)
  fix s x s' e s1 assume m: "m s = (Inl e, s1)" and h: "h e s1 = (x, s')"
  show "kept s s' \<or> (B s s' \<and> (\<exists>r. x = Inr r \<and> succeeded r))"
    using fairD[OF assms(1) m] freeD[OF assms(2) h] kept_trans by blast
qed (use fairD[OF assms(1)] in blast)

lemma fair_return: "fair B (areturn r)" "fair B (athrow e)"
  by (simp_all add: fair_free free_intros)

lemma finishes_return [simp]: "succeeded r \<Longrightarrow> finishes (areturn r)"
  by (simp add: finishes_def free_intros) (simp add: areturn_def)

lemma finishes_answer [simp]: "(\<And>s. succeeded (f s)) \<Longrightarrow> finishes (\<lambda>s. (Inr (f s), s))"
  by (simp add: finishes_def free_def)

lemma finishes_bind [simp]: "(\<And>s. kept s (f s)) \<Longrightarrow> finishes (k ()) \<Longrightarrow> finishes (abind (amodify f) k)"
  by (auto simp: finishes_def abind_def amodify_def free_def intro: kept_trans)

lemma fair_if [fair_intros]: "(b \<Longrightarrow> fair B m) \<Longrightarrow> (\<not> b \<Longrightarrow> fair B n) \<Longrightarrow> fair B (if b then m else n)"
  by simp

lemma fair_option [fair_intros]:
  "(x = None \<Longrightarrow> fair B m) \<Longrightarrow> (\<And>y. x = Some y \<Longrightarrow> fair B (f y)) \<Longrightarrow> fair B (case x of None \<Rightarrow> m | Some y \<Rightarrow> f y)"
  by (cases x) simp_all

lemma fair_billed:
  assumes "observes B" "bills B m" "finishes (f ())"
  shows "fair B (abind m f)"
proof (rule fairI, erule abind_cases)
  fix s x s' a s1 assume m: "m s = (Inr a, s1)" and f: "f a s1 = (x, s')"
  have "kept s1 s'" "\<exists>r. x = Inr r \<and> succeeded r"
    using assms(3) f by (auto simp: finishes_def free_def) (metis fst_conv snd_conv)+
  then show "kept s s' \<or> (B s s' \<and> (\<exists>r. x = Inr r \<and> succeeded r))"
    using billsD[OF assms(2) m] observesD[OF assms(1) _ kept_refl] by blast
qed (use billsD[OF assms(2)] in blast)

lemma fair_when:
  assumes "observes B" "bills B m" "finishes (f ())"
  shows "fair B (abind (awhen b m) f)"
proof (cases b)
  case True
  then show ?thesis using fair_billed[where f = f, OF assms] by (simp add: awhen_def)
next
  case False
  have "abind (awhen False m) f = f ()" by (simp add: fun_eq_iff awhen_def abind_def areturn_def)
  then show ?thesis using False assms(3) by (simp add: finishes_def fair_free)
qed

text \<open>The bill of an answer that is ok, with the answer passed on.\<close>

lemma fair_passed:
  assumes "observes B" "bills B m"
  shows "fair B (abind (if res_ok r then m else areturn ()) (\<lambda>_. areturn (Text_Reply (hs_status r) t)))"
proof (cases "res_ok r")
  case True
  then have "succeeded (Text_Reply (hs_status r) t)" by (simp add: succeeded_def res_ok_def)
  then show ?thesis using True fair_billed[OF assms, of "\<lambda>_. areturn (Text_Reply (hs_status r) t)"]
    by (simp add: finishes_return)
qed (simp add: fair_free free_intros)

lemma fair_gates [fair_intros]:
  assumes "observes B" "fair B m"
  shows "fair B (with_gates deps tenant m)"
  unfolding with_gates_def by (intro fair_bind fair_option assms free_steps fair_return)

lemma fair_answer [fair_intros]: "fair B m \<Longrightarrow> fair B (answer_errors n p m)"
  unfolding answer_errors_def by (intro fair_intros free_intros)

lemma fair_map [fair_intros]: "fair B m \<Longrightarrow> fair B (map_errors p m)"
  unfolding map_errors_def by (intro fair_intros free_intros)

lemma settled_bill:
  assumes "observes B" "bills B m" "\<And>a. free (f a)"
  shows "settled B (abind m f)"
proof (rule settledI, erule abind_cases)
  fix s x s' a s1 assume m: "m s = (Inr a, s1)" and f: "f a s1 = (x, s')"
  show "kept s s' \<or> B s s'"
    using billsD[OF assms(2) m] observesD[OF assms(1) _ kept_refl freeD[OF assms(3) f]] by blast
qed (use billsD[OF assms(2)] in blast)

lemma settled_bind:
  assumes "observes B" "free m" "\<And>a. settled B (f a)"
  shows "settled B (abind m f)"
proof (rule settledI, erule abind_cases)
  fix s x s' a s1 assume m: "m s = (Inr a, s1)" and f: "f a s1 = (x, s')"
  note k = freeD[OF assms(2) m]
  show "kept s s' \<or> B s s'"
    using settledD[OF assms(3) f] kept_trans[OF k] observesD[OF assms(1) _ k kept_refl] by blast
qed (use freeD[OF assms(2)] in blast)

lemma settled_catch:
  assumes "observes B" "settled B m" "\<And>e. free (h e)"
  shows "settled B (acatch m h)"
proof (rule settledI, erule acatch_cases)
  fix s x s' e s1 assume m: "m s = (Inl e, s1)" and h: "h e s1 = (x, s')"
  note k = freeD[OF assms(3) h]
  show "kept s s' \<or> B s s'"
    using settledD[OF assms(2) m] kept_trans[OF _ k] observesD[OF assms(1) _ kept_refl k] by blast
qed (use settledD[OF assms(2)] in blast)

lemma settled_done: "settled B (areturn r)" "settled B (athrow e)"
  by (simp_all add: fair_settled fair_return)

lemma free_audio [free_intros]: "free (routed_audio deps j)"
  unfolding routed_audio_def Let_def by (intro free_intros)

section \<open>The endpoints against the contract of billing\<close>

locale billing_contract =
  fixes deps :: proxy_deps and tenant :: gateway_tenant and B :: "gateway \<Rightarrow> gateway \<Rightarrow> bool"
  assumes obs: "observes B"
    and charged: "bills B (abind (emitMeterEvent deps (gt_id tenant) capability provider (fromDollars c) margin usage tier metadata)
          (\<lambda>_. debit_credits deps (gt_id tenant) c margin capability provider))"
    and routed: "pd_arbitrage deps = Some route \<Longrightarrow> route k t j = Inr r \<Longrightarrow>
      bills B (bill_routed deps (gt_id tenant) capability provider (ar_cost r) usage metadata)"
begin

lemmas steps = free_steps[THEN fair_bind[OF obs]]

lemma bill: "bills B (bill deps (gt_id tenant) capability provider cost margin usage metadata)"
proof (cases cost)
  case None
  then show ?thesis by (simp add: bill_def bills_def throw_error_def athrow_def)
next
  case (Some c)
  then show ?thesis using charged by (simp add: bill_def)
qed

lemmas bill_then = fair_billed[OF obs bill] fair_when[OF obs bill]
lemmas passed = fair_passed[OF obs bill]
lemmas shell = fair_gates[OF obs] fair_answer fair_map fair_if fair_option fair_return

lemma stream: "fair B (proxySSEStream deps (gt_id tenant) capability provider model r)"
proof (cases "stream_cost deps capability model r")
  case None
  then show ?thesis by (simp add: proxySSEStream_def fair_free free_intros)
next
  case (Some c)
  then show ?thesis
    by (auto simp: proxySSEStream_def succeeded_def intro!: fair_catch fair_billed[OF obs charged] free_intros)
qed

lemma chat_direct: "fair B (chat_direct deps (gt_id tenant) body cfg)"
  unfolding chat_direct_def Let_def by (intro shell steps stream passed)

lemma chat_routed_fair:
  assumes "\<And>x. x = None \<Longrightarrow> fair B (f x)" "\<And>r. f (Some r) = areturn r"
  shows "fair B (abind (chat_routed deps (gt_id tenant) body) f)"
proof -
  have assoc: "abind (abind m g) f = abind m (\<lambda>a. abind (g a) f)" for m :: "'x gw_act" and g
    by (auto simp: fun_eq_iff abind_def split: prod.split sum.split)
  have unit: "abind (areturn x) f = f x" for x by (simp add: fun_eq_iff abind_def areturn_def)
  have same: "abind m areturn = m" for m :: "reply gw_act" by (auto simp: fun_eq_iff abind_def areturn_def split: prod.split sum.split)
  show ?thesis
    using assms
    by (auto simp: chat_routed_def Let_def unit assoc same succeeded_def routed_reply_def split: option.split sum.split arb_error.split
        intro!: steps shell fair_billed[OF obs routed])
qed

lemma chat: "fair B (chatCompletions deps tenant b)"
  unfolding chatCompletions_def Let_def by (auto intro!: shell steps chat_routed_fair chat_direct)

lemma passed_through:
  "fair B (textCompletions deps tenant b)"
  "fair B (embeddings deps tenant b)"
  "fair B (audioTranscriptions deps tenant q)"
  unfolding textCompletions_def embeddings_def audioTranscriptions_def Let_def by (auto intro!: shell steps passed)

lemma replicate_fair:
  "fair B (imageGenerations deps tenant b)"
  "fair B (videoGenerations deps tenant b)"
  unfolding imageGenerations_def videoGenerations_def Let_def
  by (auto intro!: shell steps bill_then simp: succeeded_def image_reply_def video_reply_def split: prod.split)

lemma phone:
  "fair B (phoneOutbound deps tenant b)"
  "fair B (phoneInbound deps tenant h b)"
  "fair B (phoneOutboundStatus deps tenant h b)"
  unfolding phoneOutbound_def phoneInbound_def phoneOutboundStatus_def Let_def
  by (auto intro!: shell steps bill_then simp: succeeded_def metered_reply_def split: body_text.split)

lemma sms:
  "fair B (smsOutbound deps tenant b)"
  "fair B (smsInbound is_url deps tenant h b)"
  "fair B (smsDeliveryStatus deps h b)"
  unfolding smsOutbound_def smsInbound_def smsDeliveryStatus_def Let_def
  by (auto intro!: shell steps bill_then simp: succeeded_def)

lemma numbers:
  "fair B (phoneNumberProvision deps tenant b)"
  "fair B (phoneNumberList deps tenant)"
  "fair B (phoneNumberRelease deps tenant i)"
  unfolding phoneNumberProvision_def phoneNumberList_def phoneNumberRelease_def track_purchase_def Let_def
  by (auto intro!: shell steps bill_then fair_bind[OF obs free_modify] finishes_bind
      simp: succeeded_def kept_def trackPhoneNumber_def removePhoneNumber_def split: option.split json.split list.split)

lemma fair_serve: "(\<forall>b. c \<noteq> Speech b) \<Longrightarrow> fair B (serve is_url deps tenant c)"
  using chat passed_through replicate_fair phone sms numbers fair_return(1) by (cases c) simp_all

lemma speech_routed_settled:
  "pd_arbitrage deps = Some route \<Longrightarrow> settled B (speech_routed deps (gt_id tenant) body route)"
  unfolding speech_routed_def answer_errors_def
  by (auto intro!: settled_catch[OF obs] settled_bind[OF obs free_steps(2)] settled_bind[OF obs free_steps(4)] settled_done
      settled_bill[OF obs routed] free_intros split: sum.split arb_error.split)

lemma speech_direct_settled: "settled B (speech_direct deps (gt_id tenant) body cfg)"
  unfolding speech_direct_def answer_errors_def Let_def
  by (intro settled_catch[OF obs] settled_bind[OF obs free_steps(5)] settled_bind[OF obs free_steps(3)] settled_bind[OF obs free_steps(4)]
      settled_bill[OF obs bill] free_intros)

lemma speech: "settled B (audioSpeech deps tenant b)"
  unfolding audioSpeech_def with_gates_def
  by (auto intro!: settled_bind[OF obs free_steps(1)] settled_bind[OF obs free_steps(7)] settled_bind[OF obs free_steps(8)] settled_done
      speech_routed_settled speech_direct_settled split: option.split body_text.split)

lemma settled_serve: "settled B (serve is_url deps tenant c)"
proof (cases "\<exists>b. c = Speech b")
  case True
  then show ?thesis using speech by auto
qed (auto intro!: fair_settled[OF fair_serve])

end

text \<open>The contract as the model provides it: billing by \<open>billed\<close>, for routed costs in range.\<close>

lemma debitCredits_charges:
  assumes "withMargin (fromDollars c) margin = Inr charge" "me_charge e = charge" "me_tenant e = t"
    and "me_capability e = capability" "me_provider e = provider"
  shows "gw_db (debitCredits (gate_deps.truncate deps) t c margin capability provider s) = charge_event deps e (gw_db s)"
  using assms by (auto simp: debitCredits_def charge_event_def isZero_def isNegative_def split: sum.splits)

lemma after_debit_emitter [simp]: "gw_emitter (after_debit deps t c s) = gw_emitter s"
  by (auto simp: after_debit_def Let_def split: sum.splits option.splits)

lemma debitCredits_emitter [simp]: "gw_emitter (debitCredits deps t c m capability provider s) = gw_emitter s"
  by (auto simp: debitCredits_def split: sum.splits)

lemma emit_then_debit:
  "bills (\<lambda>s s'. fromDollars c = cost \<longrightarrow> billed deps t s s')
     (abind (emitMeterEvent deps t capability provider cost margin usage tier metadata)
           (\<lambda>_. debit_credits deps t c margin capability provider))"
  unfolding bills_def
proof
  fix s
  let ?m = "abind (emitMeterEvent deps t capability provider cost margin usage tier metadata)
           (\<lambda>_. debit_credits deps t c margin capability provider)"
  show "(\<exists>e. fst (?m s) = Inl e \<and> kept s (snd (?m s)))
    \<or> (fst (?m s) = Inr () \<and> (fromDollars c = cost \<longrightarrow> billed deps t s (snd (?m s))))"
  proof (cases "withMargin cost margin")
    case (Inl e)
    then show ?thesis by (simp add: abind_def emitMeterEvent_def throw_error_def athrow_def)
  next
    case (Inr charge)
    let ?e = "gateway_event t cost charge capability provider usage tier (map_option (pd_stringify deps) metadata) s"
    have "billed deps t s (snd (?m s))" if "fromDollars c = cost"
      unfolding billed_def using Inr that
      by (intro exI[of _ ?e] exI[of _ margin])
        (simp add: abind_def emitMeterEvent_def debit_credits_def amodify_def gateway_event_def debitCredits_charges[where e = ?e])
    then show ?thesis using Inr by (simp add: abind_def emitMeterEvent_def debit_credits_def amodify_def)
  qed
qed

lemma bills_mono: "bills B m \<Longrightarrow> (\<And>s s'. B s s' \<Longrightarrow> C s s') \<Longrightarrow> bills C m"
  by (auto simp: bills_def)

interpretation metered: billing_contract deps tenant "\<lambda>s s'. routed_in_range deps \<longrightarrow> billed deps (gt_id tenant) s s'"
  for deps tenant
proof
  show "observes (\<lambda>s s'. routed_in_range deps \<longrightarrow> billed deps (gt_id tenant) s s')"
    using observes_billed[of deps "gt_id tenant"] unfolding observes_def by blast
next
  fix route k t j r capability provider usage metadata
  assume "pd_arbitrage deps = Some route" "route k t j = Inr r"
  then have r: "fromDollars (toDollars (ar_cost r)) = ar_cost r" if "routed_in_range deps"
    using that from_to_dollars unfolding routed_in_range_def by metis
  show "bills (\<lambda>s s'. routed_in_range deps \<longrightarrow> billed deps (gt_id tenant) s s')
      (bill_routed deps (gt_id tenant) capability provider (ar_cost r) usage metadata)"
    unfolding bill_routed_def by (rule bills_mono[OF emit_then_debit]) (use r in blast)
qed (rule bills_mono[OF emit_then_debit], simp)

text \<open>C25: A call of the gateway charges what it meters. Whatever the endpoint, the request, the answers of the
  providers and the state, a call leaves the ledger and the meter as they were, or emits exactly one event of
  its own tenant, whose charge is the margin on its cost, and debits exactly that charge from that tenant
  (or nothing, when there is no ledger, the charge is not positive or the debit fails). The routed costs are
  taken to be below about a million dollars a call.\<close>

theorem charge_matches_meter:
  assumes "routed_in_range deps"
  shows "let s' = snd (serve is_url deps tenant c s) in (gw_db s' = gw_db s \<and> gw_emitter s' = gw_emitter s)
    \<or> (\<exists>e margin. me_tenant e = gt_id tenant \<and> withMargin (me_cost e) margin = Inr (me_charge e)
         \<and> gw_emitter s' = emit (pd_batchSize deps) e (gw_emitter s) \<and> gw_db s' = charge_event deps e (gw_db s))"
  using metered.settled_serve[of deps tenant is_url c] assms unfolding kept_def billed_def settled_def Let_def by blast

text \<open>A message that arrives for a tenant: one event in the buffer.\<close>

definition plain_deps :: proxy_deps where
  "plain_deps = gate_deps.extend all_callbacks \<lparr>pd_openrouter = None, pd_deepgram = None, pd_elevenlabs = None, pd_replicate = None,
     pd_twilio = Some \<lparr>tw_accountSid = ''AC1'', tw_authToken = ''t'', tw_baseUrl = None\<rparr>, pd_defaultModel = None,
     pd_resolveDefaultModel = None, pd_defaultMargin = 13 / 10,
     pd_fetch = (\<lambda>_. Inl \<lparr>th_message = ''fetch failed'', th_status = None\<rparr>), pd_arbitrage = None, pd_rateLookup = None,
     pd_webhookBaseUrl = None, pd_phoneRepo = True, pd_uiUrl = ''https://ui'', pd_batchSize = 100, pd_stringify = (\<lambda>_. []),
     pd_encode = (\<lambda>s. s), pd_btoa = (\<lambda>s. s), pd_Number = (\<lambda>_. None), pd_budgetCache = (\<lambda>_. None), pd_dbOk = True\<rparr>"

definition incoming_sms :: call where
  "incoming_sms = Sms_Inbound (Some (JObj [(''from'', JStr ''+1''), (''to'', JStr ''+2''), (''body'', JStr ''hi'')])) (Not_Json [])"

lemma incoming_sms_metered:
  "map me_charge (em_buffer (gw_emitter (snd (serve (\<lambda>_. True) plain_deps tenant_a incoming_sms new_gateway)))) = [Credit 10033000]"
  by code_simp

theorem charge_matches_meter_witness:
  "\<exists>e margin. me_tenant e = gt_id tenant_a \<and> withMargin (me_cost e) margin = Inr (me_charge e)
     \<and> gw_emitter (snd (serve (\<lambda>_. True) plain_deps tenant_a incoming_sms new_gateway)) = emit 100 e (gw_emitter new_gateway)
     \<and> gw_db (snd (serve (\<lambda>_. True) plain_deps tenant_a incoming_sms new_gateway)) = charge_event plain_deps e (gw_db new_gateway)"
proof -
  have r: "routed_in_range plain_deps" "pd_batchSize plain_deps = 100"
    by (simp_all add: routed_in_range_def plain_deps_def gate_deps.extend_def)
  have "em_buffer (gw_emitter new_gateway) = []" by code_simp
  then show ?thesis
    using charge_matches_meter[OF r(1), of "\<lambda>_. True" tenant_a incoming_sms new_gateway] incoming_sms_metered r(2)
    by (auto simp: Let_def)
qed



text \<open>The exception: speech whose audio cannot be fetched has been charged, and the answer is an error.\<close>

definition speech_deps :: proxy_deps where
  "speech_deps = plain_deps\<lparr>pd_arbitrage := Some (\<lambda>_ _ _. Inr \<lparr>ar_result = JObj [(''audioUrl'', JStr ''https://cdn/a.mp3'')],
     ar_cost = Credit 1000000000, ar_provider = ''tts-1''\<rparr>), pd_budgetCache := (\<lambda>_. Some (0, 0))\<rparr>"

lemma speech_charged_on_error:
  "case serve (\<lambda>_. True) speech_deps (tenant_a\<lparr>gt_type := Some Platform_Service\<rparr>) (Speech (Json_Text (JObj [(''input'', JStr ''hi'')]))) new_gateway of
     (Inr r, s') \<Rightarrow> \<not> succeeded r \<and> length (em_buffer (gw_emitter s')) = 1 | _ \<Rightarrow> False"
  by code_simp

end
