(* ===== verification/PhoneBilling.thy ===== *)
theory PhoneBilling
  imports Telephony
begin

text \<open>
  The monthly charge of provisioned phone numbers (\<open>src/monetization/credits/phone-billing.ts\<close>) over the
  table of \<open>drizzle-phone-number-repository.ts\<close>, which the provisioning and release endpoints of theory
  Telephony fill. One clock reading is taken for a run; the texts of the timestamps are instants.
\<close>

section \<open>The run\<close>

definition pad2 :: "nat \<Rightarrow> string" where
  "pad2 n = (if n < 10 then ''0'' else []) @ decimal n"

text \<open>\<open>toISOString().slice(0, 7)\<close>, for the years 1970 to 9999.\<close>

definition iso_month :: "int \<Rightarrow> string" where
  "iso_month now = (case utc_date now of (y, m, d) \<Rightarrow> decimal y @ ''-'' @ pad2 (Suc m))"

definition phone_ref :: "string \<Rightarrow> string \<Rightarrow> string" where
  "phone_ref sid month = ''phone-billing:'' @ sid @ '':'' @ month"

definition phone_opts :: "string \<Rightarrow> int \<Rightarrow> debit_opts" where
  "phone_opts sid now = no_debit_opts\<lparr>d_description := Some ''Monthly phone number fee'',
     d_referenceId := Some (phone_ref sid (iso_month now)), d_allowNegative := True\<rparr>"

record phone_report =
  pr_processed :: nat
  pr_billed :: "(string \<times> string) list"
  pr_failed :: "(string \<times> ledger_error) list"

definition phone_due :: "int \<Rightarrow> phone_row \<Rightarrow> bool" where
  "phone_due now p \<longleftrightarrow>
     (case pn_lastBilledAt p of None \<Rightarrow> pn_provisionedAt p | Some t \<Rightarrow> t) \<le> now - 30 * 24 * 60 * 60 * 1000"

definition phone_event :: "phone_row \<Rightarrow> credit \<Rightarrow> credit \<Rightarrow> string \<Rightarrow> gateway \<Rightarrow> event" where
  "phone_event p cost charge metadata s = gateway_event (pn_tenantId p) cost charge ''phone-number-monthly'' ''twilio''
     (Some (1, ''numbers'')) (Some ''branded'') (Some metadata) s"

text \<open>The body of the loop: debit, meter event, mark, report; an error is reported and the loop goes on.\<close>

definition bill_phone :: "proxy_deps \<Rightarrow> gateway \<times> phone_report \<Rightarrow> phone_row \<Rightarrow> gateway \<times> phone_report" where
  "bill_phone deps = (\<lambda>(s, r) p.
     let r1 = r\<lparr>pr_processed := Suc (pr_processed r)\<rparr>; cost = fromDollars PHONE_NUMBER_MONTHLY_COST;
         fail = (\<lambda>e. (s, r1\<lparr>pr_failed := pr_failed r1 @ [(pn_tenantId p, e)]\<rparr>))
     in if \<not> phone_due (gw_now s) p then (s, r1)
        else case withMargin cost PHONE_NUMBER_MARGIN of
          Inl e \<Rightarrow> fail (Credit_Error e)
        | Inr charge \<Rightarrow> (case debit (pn_tenantId p) charge Addon (phone_opts (pn_sid p) (gw_now s)) (gw_db s) of
            Inl e \<Rightarrow> fail e
          | Inr (_, d) \<Rightarrow> (phone_markBilled (pn_sid p) (s\<lparr>gw_db := d,
                gw_emitter := emit (pd_batchSize deps) (phone_event p cost charge
                  (pd_stringify deps (JObj [(''sid'', JStr (pn_sid p))])) s) (gw_emitter s),
                gw_uuid := gw_uuid s + 1\<rparr>),
              r1\<lparr>pr_billed := pr_billed r1 @ [(pn_tenantId p, pn_sid p)]\<rparr>)))"

definition runMonthlyPhoneBilling :: "proxy_deps \<Rightarrow> gateway \<Rightarrow> gateway \<times> phone_report" where
  "runMonthlyPhoneBilling deps s =
     foldl (bill_phone deps) (s, \<lparr>pr_processed = 0, pr_billed = [], pr_failed = []\<rparr>) (listActivePhoneNumbers s)"

section \<open>One number\<close>

lemma phone_charge: "withMargin (fromDollars PHONE_NUMBER_MONTHLY_COST) PHONE_NUMBER_MARGIN = Inr (Credit 2990000000)"
  by code_simp

lemma debit_used_reference:
  assumes "debit t amt ty opts s = Inr (je, s')" "core_inv s" "d_referenceId opts = Some r"
  shows "\<not> hasReferenceId r s" "hasReferenceId r s'"
proof -
  let ?inp = "debit_input t amt ty opts"
  have "post ?inp s = Inr (je, s')" using assms(1) by (simp add: debit_def split: if_splits)
  then obtain rs s2 news where p: "posted ?inp s rs s2 news s'" using post_Inr[OF _ assms(2)] by metis
  show "\<not> hasReferenceId r s" using p assms(3) by (simp add: posted_def debit_input_def)
  have "journalEntries s' = journalEntries s @ [new_entry ?inp s]"
    using p by (simp add: posted_def only_locks_def same_frame_def with_entry_def)
  then show "hasReferenceId r s'" using assms(3) by (simp add: hasReferenceId_def new_entry_def debit_input_def)
qed

lemma markBilled_frame [simp]:
  "gw_db (phone_markBilled sid s) = gw_db s" "gw_now (phone_markBilled sid s) = gw_now s"
  "gw_emitter (phone_markBilled sid s) = gw_emitter s"
  by (simp_all add: phone_markBilled_def)

lemma bill_phone_cases:
  "\<not> phone_due (gw_now s) p \<Longrightarrow> bill_phone deps (s, r) p = (s, r\<lparr>pr_processed := Suc (pr_processed r)\<rparr>)"
  "phone_due (gw_now s) p \<Longrightarrow> debit (pn_tenantId p) (Credit 2990000000) Addon (phone_opts (pn_sid p) (gw_now s)) (gw_db s) = Inl e
    \<Longrightarrow> bill_phone deps (s, r) p = (s, r\<lparr>pr_processed := Suc (pr_processed r), pr_failed := pr_failed r @ [(pn_tenantId p, e)]\<rparr>)"
  "phone_due (gw_now s) p \<Longrightarrow> debit (pn_tenantId p) (Credit 2990000000) Addon (phone_opts (pn_sid p) (gw_now s)) (gw_db s) = Inr (je, d)
    \<Longrightarrow> gw_db (fst (bill_phone deps (s, r) p)) = d \<and> gw_now (fst (bill_phone deps (s, r) p)) = gw_now s
      \<and> pr_billed (snd (bill_phone deps (s, r) p)) = pr_billed r @ [(pn_tenantId p, pn_sid p)]"
  by (simp_all add: bill_phone_def Let_def phone_charge)

lemma phone_step:
  assumes "bill_phone deps (s, r) p = (s', r')"
  obtains "gw_db s' = gw_db s" "pr_billed r' = pr_billed r" "gw_now s' = gw_now s"
  | je where "debit (pn_tenantId p) (Credit 2990000000) Addon (phone_opts (pn_sid p) (gw_now s)) (gw_db s) = Inr (je, gw_db s')"
      "pr_billed r' = pr_billed r @ [(pn_tenantId p, pn_sid p)]" "gw_now s' = gw_now s"
proof (cases "phone_due (gw_now s) p")
  case due: True
  show ?thesis
  proof (cases "debit (pn_tenantId p) (Credit 2990000000) Addon (phone_opts (pn_sid p) (gw_now s)) (gw_db s)")
    case (Inl e)
    then show ?thesis using bill_phone_cases(2)[OF due Inl, of deps r] assms that(1) by auto
  next
    case (Inr x)
    then obtain je d where "x = (je, d)" by fastforce
    then show ?thesis using bill_phone_cases(3)[OF due, of je d deps r] Inr assms that(2) by simp
  qed
qed (use bill_phone_cases(1)[of s p deps r] assms that(1) in auto)

lemma phone_steps_inv:
  assumes "foldl (bill_phone deps) (s, r) ps = (s', r')" "ledger_reachable (gw_db s)"
    and "\<forall>(t, sid) \<in> set (pr_billed r). hasReferenceId (phone_ref sid (iso_month (gw_now s))) (gw_db s)"
    and "distinct (map snd (pr_billed r))"
  shows "ledger_reachable (gw_db s') \<and> gw_now s' = gw_now s \<and> ledger_step\<^sup>*\<^sup>* (gw_db s) (gw_db s')
    \<and> (\<exists>new. pr_billed r' = pr_billed r @ new \<and> (\<forall>x \<in> set new. \<not> hasReferenceId (phone_ref (snd x) (iso_month (gw_now s))) (gw_db s)))
    \<and> (\<forall>x \<in> set (pr_billed r'). hasReferenceId (phone_ref (snd x) (iso_month (gw_now s))) (gw_db s'))
    \<and> distinct (map snd (pr_billed r'))"
  using assms
proof (induction ps arbitrary: s r)
  case Nil
  then show ?case by auto
next
  case (Cons p ps)
  obtain s1 r1 where one: "bill_phone deps (s, r) p = (s1, r1)" by fastforce
  let ?ref = "\<lambda>sid. phone_ref sid (iso_month (gw_now s))"
  from one show ?case
  proof (cases rule: phone_step)
    case 1
    then show ?thesis using Cons.IH[of s1 r1] Cons.prems one by simp
  next
    case (2 je)
    have c: "core_inv (gw_db s)" using reachable_core[OF Cons.prems(2)] .
    have o: "d_referenceId (phone_opts (pn_sid p) (gw_now s)) = Some (?ref (pn_sid p))" by (simp add: phone_opts_def)
    note fresh = debit_used_reference[OF 2(1) c o]
    have step: "ledger_step (gw_db s) (gw_db s1)" using step_debit[OF 2(1)] .
    have reach: "ledger_reachable (gw_db s1)" using Cons.prems(2) step by (rule reach_step)
    have mono: "hasReferenceId x (gw_db s1)" if "hasReferenceId x (gw_db s)" for x
      using that steps_keep[OF r_into_rtranclp[of ledger_step, OF step] Cons.prems(2)] hasReferenceId_prefix by blast
    have "distinct (map snd (pr_billed r1))" using Cons.prems(3,4) fresh(1) 2(2) by auto
    moreover have "\<forall>(t, sid) \<in> set (pr_billed r1). hasReferenceId (phone_ref sid (iso_month (gw_now s1))) (gw_db s1)"
      using Cons.prems(3) fresh(2) 2(2,3) mono by auto
    moreover have "foldl (bill_phone deps) (s1, r1) ps = (s', r')" using Cons.prems(1) one by simp
    ultimately have ih: "ledger_reachable (gw_db s') \<and> gw_now s' = gw_now s \<and> ledger_step\<^sup>*\<^sup>* (gw_db s1) (gw_db s')
        \<and> (\<exists>new. pr_billed r' = pr_billed r1 @ new \<and> (\<forall>x \<in> set new. \<not> hasReferenceId (?ref (snd x)) (gw_db s1)))
        \<and> (\<forall>x \<in> set (pr_billed r'). hasReferenceId (?ref (snd x)) (gw_db s'))
        \<and> distinct (map snd (pr_billed r'))"
      using Cons.IH[of s1 r1] reach 2(3) by simp
    then obtain new where new: "pr_billed r' = pr_billed r1 @ new" "\<forall>x \<in> set new. \<not> hasReferenceId (?ref (snd x)) (gw_db s1)"
      by blast
    have "pr_billed r' = pr_billed r @ ((pn_tenantId p, pn_sid p) # new)" using new(1) 2(2) by simp
    moreover have "\<forall>x \<in> set ((pn_tenantId p, pn_sid p) # new). \<not> hasReferenceId (?ref (snd x)) (gw_db s)"
      using new(2) mono fresh(1) by auto
    ultimately show ?thesis using ih converse_rtranclp_into_rtranclp[of ledger_step, OF step] by blast
  qed
qed

lemmas phone_run_inv = phone_steps_inv[where r = "\<lparr>pr_processed = 0, pr_billed = [], pr_failed = []\<rparr>", simplified]


section \<open>Once a month, at the price of the month\<close>

text \<open>
  Numbers come and go, the ledger takes other entries, time passes, and the billing runs whenever it is
  called. The log lists number and month of every charge.
\<close>

inductive phone_history :: "proxy_deps \<Rightarrow> gateway \<Rightarrow> (string \<times> string) list \<Rightarrow> gateway \<Rightarrow> bool"
  for deps :: proxy_deps and s0 :: gateway where
  history_start: "phone_history deps s0 [] s0"
| history_clock: "phone_history deps s0 L s \<Longrightarrow> phone_history deps s0 L (s\<lparr>gw_now := t\<rparr>)"
| history_track: "phone_history deps s0 L s \<Longrightarrow> phone_history deps s0 L (trackPhoneNumber tenant sid number s)"
| history_remove: "phone_history deps s0 L s \<Longrightarrow> phone_history deps s0 L (removePhoneNumber sid s)"
| history_ledger: "phone_history deps s0 L s \<Longrightarrow> ledger_step (gw_db s) d \<Longrightarrow> phone_history deps s0 L (s\<lparr>gw_db := d\<rparr>)"
| history_bill: "phone_history deps s0 L s \<Longrightarrow> runMonthlyPhoneBilling deps s = (s', r)
    \<Longrightarrow> phone_history deps s0 (L @ map (\<lambda>x. (snd x, iso_month (gw_now s))) (pr_billed r)) s'"

lemma history_inv:
  assumes "phone_history deps s0 L s" "ledger_reachable (gw_db s0)"
  shows "ledger_reachable (gw_db s) \<and> (\<forall>x \<in> set L. hasReferenceId (phone_ref (fst x) (snd x)) (gw_db s)) \<and> distinct L"
  using assms
proof (induction rule: phone_history.induct)
  case (history_ledger L s d)
  note step = history_ledger.hyps(2)
  have "ledger_reachable (gw_db s)" using history_ledger by simp
  then show ?case
    using history_ledger step reach_step[OF _ step] steps_keep[OF r_into_rtranclp[of ledger_step, OF step]] hasReferenceId_prefix
    by auto
next
  case (history_bill L s s' r)
  let ?m = "iso_month (gw_now s)"
  have ih: "ledger_reachable (gw_db s)" "\<forall>x \<in> set L. hasReferenceId (phone_ref (fst x) (snd x)) (gw_db s)" "distinct L"
    using history_bill by auto
  have run: "foldl (bill_phone deps) (s, \<lparr>pr_processed = 0, pr_billed = [], pr_failed = []\<rparr>) (listActivePhoneNumbers s) = (s', r)"
    using history_bill(2) by (simp add: runMonthlyPhoneBilling_def)
  note inv = phone_run_inv[OF run ih(1)]
  have "distinct (map (\<lambda>x. (snd x, ?m)) (pr_billed r))"
    using inv by (auto simp: distinct_map inj_on_def)
  moreover have "set L \<inter> (\<lambda>x. (snd x, ?m)) ` set (pr_billed r) = {}" using inv ih(2) by force
  moreover have "\<forall>x \<in> set L. hasReferenceId (phone_ref (fst x) (snd x)) (gw_db s')"
    using ih inv steps_keep[of "gw_db s" "gw_db s'"] hasReferenceId_prefix by blast
  ultimately show ?case using inv ih(3) by auto
qed (simp_all add: trackPhoneNumber_def removePhoneNumber_def)


definition a_number :: phone_row where
  "a_number = \<lparr>pn_sid = ''PN1'', pn_tenantId = ''a'', pn_phoneNumber = ''+1'', pn_provisionedAt = 0, pn_lastBilledAt = None\<rparr>"

definition phone_gateway :: gateway where
  "phone_gateway = \<lparr>gw_db = funded, gw_emitter = boot None [] [], gw_summaries = [], gw_uuid = 0, gw_now = 2592000000, gw_requests = [],
     gw_errors = [], gw_deduction_failures = 0, gw_exhausted = [], gw_debited = [], gw_spend_checks = [], gw_phones = [a_number]\<rparr>"

definition phone_deps :: "proxy_deps" where
  "phone_deps = gate_deps.extend \<lparr>gd_ledger = True, gd_topUpUrl = [], gd_graceBufferCents = None, gd_onBalanceExhausted = False,
       gd_onDebitComplete = False, gd_onSpendAlertCrossed = False\<rparr>
     \<lparr>pd_openrouter = None, pd_deepgram = None, pd_elevenlabs = None, pd_replicate = None, pd_twilio = None, pd_defaultModel = None,
     pd_resolveDefaultModel = None, pd_defaultMargin = 13 / 10,
     pd_fetch = (\<lambda>_. Inl \<lparr>th_message = [], th_status = None\<rparr>), pd_arbitrage = None, pd_rateLookup = None,
     pd_webhookBaseUrl = None, pd_phoneRepo = True, pd_uiUrl = [], pd_batchSize = 100, pd_stringify = (\<lambda>_. []),
     pd_encode = (\<lambda>s. s), pd_btoa = (\<lambda>s. s), pd_Number = (\<lambda>_. None), pd_budgetCache = (\<lambda>_. None), pd_dbOk = True\<rparr>"


lemma phone_fold_charges:
  assumes "foldl (bill_phone deps) (s, r) ps = (s', r')" "core_inv (gw_db s)" "ledger_reachable (gw_db s)"
  shows "stored_balance (tenant_code t) (gw_db s') + 2990000000 * int (length (filter (\<lambda>x. fst x = t) (pr_billed r')))
    = stored_balance (tenant_code t) (gw_db s) + 2990000000 * int (length (filter (\<lambda>x. fst x = t) (pr_billed r)))"
  using assms
proof (induction ps arbitrary: s r)
  case (Cons p ps)
  obtain s1 r1 where one: "bill_phone deps (s, r) p = (s1, r1)" by fastforce
  from one show ?case
  proof (cases rule: phone_step)
    case 1
    then show ?thesis using Cons.IH[of s1 r1] Cons.prems one by simp
  next
    case (2 je)
    have reach: "ledger_reachable (gw_db s1)" using reach_step[OF Cons.prems(3) step_debit[OF 2(1)]] .
    have "tenant_code t \<noteq> DEBIT_TYPE_ACCOUNT Addon" using debit_account_code(3) .
    then have "stored_balance (tenant_code t) (gw_db s1)
        = stored_balance (tenant_code t) (gw_db s) - (if t = pn_tenantId p then 2990000000 else 0)"
      using debit_effect_eq[OF 2(1) Cons.prems(2), of "tenant_code t"] by (auto simp: debit_effect_def)
    then show ?thesis using Cons.IH[of s1 r1] Cons.prems one reach reachable_core[OF reach] 2(2) by auto
  qed
qed simp

text \<open>A run charges what it reports. Every tenant's balance falls by exactly 2.99 dollars (1.15 times the
  margin 2.6) for each of its numbers that the run reports as billed, and by nothing for the numbers it
  skipped or reports as failed.\<close>

theorem phone_run_charges:
  assumes "ledger_reachable (gw_db s)" "runMonthlyPhoneBilling deps s = (s', r)"
  shows "stored_balance (tenant_code t) (gw_db s')
    = stored_balance (tenant_code t) (gw_db s) - 2990000000 * int (length (filter (\<lambda>x. fst x = t) (pr_billed r)))"
  using phone_fold_charges[OF assms(2)[unfolded runMonthlyPhoneBilling_def] reachable_core[OF assms(1)] assms(1), of t] by simp

theorem phone_run_charges_witness:
  "stored_balance (tenant_code ''a'') (gw_db (fst (runMonthlyPhoneBilling phone_deps phone_gateway)))
     = stored_balance (tenant_code ''a'') funded - 2990000000"
proof -
  let ?r = "runMonthlyPhoneBilling phone_deps phone_gateway"
  have b: "length (filter (\<lambda>x. fst x = ''a'') (pr_billed (snd ?r))) = 1" by code_simp
  have "ledger_reachable (gw_db phone_gateway)" "gw_db phone_gateway = funded"
    using funded_reachable by (simp_all add: phone_gateway_def)
  then show ?thesis using phone_run_charges[of phone_gateway phone_deps "fst ?r" "snd ?r" "''a''"] b by simp
qed

end
