(* ===== verification/Orgs.thy ===== *)
theory Orgs
  imports Gates Payments
begin

text \<open>
  Organisations (\<open>src/tenancy/\<close>): the tenant table, the member and invite tables, the service
  above them, and the guards of the tRPC procedures (\<open>src/trpc/init.ts\<close>,
  \<open>src/trpc/auth-helpers.ts\<close>) that read the members. Rows come in the order of their insertion and
  each method of the service is one step. Random values (\<open>crypto.randomUUID\<close>, the token of an
  invite) are drawn from a supply in the state.
\<close>

section \<open>Tables\<close>

datatype org_role = Owner_Role | Admin_Role | Member_Role

text \<open>The roles an invite or a change of role can give: \<open>"admin" | "member"\<close>.\<close>

datatype granted_role = As_Admin | As_Member

fun role_of :: "granted_role \<Rightarrow> org_role" where
  "role_of As_Admin = Admin_Role"
| "role_of As_Member = Member_Role"

record org_tenant =
  ot_id :: string
  ot_name :: string
  ot_slug :: "string option"
  ot_type :: tenant_type
  ot_ownerId :: string
  ot_billingEmail :: "string option"
  ot_createdAt :: int

record org_member =
  om_id :: string
  om_orgId :: string
  om_userId :: string
  om_role :: org_role
  om_joinedAt :: int

record org_invite =
  oi_id :: string
  oi_orgId :: string
  oi_email :: string
  oi_role :: granted_role
  oi_invitedBy :: string
  oi_token :: string
  oi_expiresAt :: int
  oi_createdAt :: int
  oi_acceptedAt :: "int option"
  oi_revokedAt :: "int option"

record orgs =
  og_now :: int
  og_random :: "nat \<Rightarrow> string"
  og_drawn :: nat
  og_tenants :: "org_tenant list"
  og_members :: "org_member list"
  og_invites :: "org_invite list"

datatype trpc_code = Bad_Request | Conflict | Forbidden | Not_Found | Unauthorized | Internal_Server_Error

datatype org_error =
    Trpc trpc_code string
  | Org_Status nat string
  | Org_Thrown string

type_synonym 'a org_act = "(orgs, org_error, 'a) act"

definition draw :: "string org_act" where
  "draw s = (Inr (og_random s (og_drawn s)), s\<lparr>og_drawn := Suc (og_drawn s)\<rparr>)"

section \<open>Slugs\<close>

definition is_alnum :: "char \<Rightarrow> bool" where
  "is_alnum c \<longleftrightarrow> (let n = of_char c :: nat in 97 \<le> n \<and> n \<le> 122 \<or> 48 \<le> n \<and> n \<le> 57)"

definition slug_char :: "char \<Rightarrow> bool" where
  "slug_char c \<longleftrightarrow> is_alnum c \<or> c = CHR ''-''"

text \<open>\<open>replace(/X+/g, "-")\<close>: each run of characters in the class becomes one hyphen.\<close>

fun runs_to_hyphen :: "(char \<Rightarrow> bool) \<Rightarrow> string \<Rightarrow> string" where
  "runs_to_hyphen P [] = []"
| "runs_to_hyphen P [c] = [if P c then CHR ''-'' else c]"
| "runs_to_hyphen P (c # d # cs) =
     (if P c then (if P d then runs_to_hyphen P (d # cs) else CHR ''-'' # runs_to_hyphen P (d # cs))
      else c # runs_to_hyphen P (d # cs))"

text \<open>\<open>replace(/^-|-$/g, "")\<close>.\<close>

definition strip_hyphens :: "string \<Rightarrow> string" where
  "strip_hyphens s =
     (let t = (case s of [] \<Rightarrow> [] | c # cs \<Rightarrow> if c = CHR ''-'' then cs else s) in
      if t \<noteq> [] \<and> last t = CHR ''-'' then butlast t else t)"

definition slugify :: "string \<Rightarrow> string" where
  "slugify name = strip_hyphens (runs_to_hyphen ((=) CHR ''-'')
     (filter slug_char (runs_to_hyphen is_space (trim (toLowerCase name)))))"

definition valid_slug :: "string \<Rightarrow> bool" where
  "valid_slug s \<longleftrightarrow> 3 \<le> length s \<and> length s \<le> 48 \<and> is_alnum (hd s) \<and> is_alnum (last s) \<and> list_all slug_char s"

definition validateSlug :: "string \<Rightarrow> unit org_act" where
  "validateSlug s = (if valid_slug s then areturn () else athrow (Trpc Bad_Request
     ''Slug must be 3-48 characters, lowercase alphanumeric and hyphens, cannot start/end with a hyphen''))"

section \<open>Tenant repository\<close>

definition org_by_id :: "string \<Rightarrow> orgs \<Rightarrow> org_tenant option" where
  "org_by_id i s = find (\<lambda>t. ot_id t = i) (og_tenants s)"

definition getBySlug :: "string \<Rightarrow> orgs \<Rightarrow> org_tenant option" where
  "getBySlug slug s = find (\<lambda>t. ot_slug t = Some slug) (og_tenants s)"

definition listOrgsByOwner :: "string \<Rightarrow> orgs \<Rightarrow> org_tenant list" where
  "listOrgsByOwner u s = filter (\<lambda>t. ot_type t = Org) (filter (\<lambda>t. ot_ownerId t = u) (og_tenants s))"

text \<open>The unique keys of the table: the identifier, and the slug where it is not null.\<close>

definition tenant_clash :: "org_tenant \<Rightarrow> orgs \<Rightarrow> bool" where
  "tenant_clash t s \<longleftrightarrow> list_ex (\<lambda>r. ot_id r = ot_id t \<or> ot_slug t \<noteq> None \<and> ot_slug r = ot_slug t) (og_tenants s)"

definition insert_org :: "string \<Rightarrow> string \<Rightarrow> string option \<Rightarrow> org_tenant org_act" where
  "insert_org ownerId name slug = abind draw (\<lambda>i s.
     let final = (if truthy slug then the slug else slugify name);
         t = \<lparr>ot_id = i, ot_name = name, ot_slug = Some final, ot_type = Org, ot_ownerId = ownerId,
           ot_billingEmail = None, ot_createdAt = og_now s\<rparr> in
     if final = [] then (Inl (Org_Status 400 ''Org name produces an empty slug; use only letters, numbers, or hyphens''), s)
     else if tenant_clash t s then (Inl (Trpc Conflict ''Organization slug already taken''), s)
     else (Inr t, s\<lparr>og_tenants := og_tenants s @ [t]\<rparr>))"

definition ensurePersonalTenant :: "string \<Rightarrow> string \<Rightarrow> org_tenant org_act" where
  "ensurePersonalTenant userId displayName s =
     (let t = \<lparr>ot_id = userId, ot_name = displayName, ot_slug = None, ot_type = Personal, ot_ownerId = userId,
           ot_billingEmail = None, ot_createdAt = og_now s\<rparr>;
         s' = (if list_ex (\<lambda>r. ot_id r = userId) (og_tenants s) then s
               else s\<lparr>og_tenants := og_tenants s @ [t]\<rparr>) in
      case org_by_id userId s' of
        None \<Rightarrow> (Inl (Org_Thrown (''Personal tenant not found for user '' @ userId)), s')
      | Some r \<Rightarrow> (Inr r, s'))"

text \<open>A patch: a missing field is left alone; the billing address may also be set to null.\<close>

record org_patch =
  op_name :: "string option"
  op_slug :: "string option"
  op_billingEmail :: "string option option"

definition patch_org :: "org_patch \<Rightarrow> org_tenant \<Rightarrow> org_tenant" where
  "patch_org data t = t\<lparr>ot_name := (case op_name data of None \<Rightarrow> ot_name t | Some n \<Rightarrow> n),
     ot_slug := (case op_slug data of None \<Rightarrow> ot_slug t | Some x \<Rightarrow> Some x),
     ot_billingEmail := (case op_billingEmail data of None \<Rightarrow> ot_billingEmail t | Some e \<Rightarrow> e)\<rparr>"

text \<open>An update without a column is refused by the query builder, a taken slug by the table.\<close>

definition patch_tenant :: "string \<Rightarrow> org_patch \<Rightarrow> org_tenant org_act" where
  "patch_tenant orgId data s =
     (if op_name data = None \<and> op_slug data = None \<and> op_billingEmail data = None
      then (Inl (Org_Thrown ''No values to set''), s)
      else case org_by_id orgId s of
        None \<Rightarrow> (Inl (Org_Thrown (''Org not found: '' @ orgId)), s)
      | Some t \<Rightarrow>
          if op_slug data \<noteq> None \<and> list_ex (\<lambda>r. ot_id r \<noteq> orgId \<and> ot_slug r = op_slug data) (og_tenants s)
          then (Inl (Org_Thrown ''duplicate key''), s)
          else (Inr (patch_org data t),
            s\<lparr>og_tenants := map (\<lambda>r. if ot_id r = orgId then patch_org data r else r) (og_tenants s)\<rparr>))"

definition updateOwner :: "string \<Rightarrow> string \<Rightarrow> orgs \<Rightarrow> orgs" where
  "updateOwner orgId newOwnerId s =
     s\<lparr>og_tenants := map (\<lambda>r. if ot_id r = orgId then r\<lparr>ot_ownerId := newOwnerId\<rparr> else r) (og_tenants s)\<rparr>"

definition delete_tenant :: "string \<Rightarrow> orgs \<Rightarrow> orgs" where
  "delete_tenant orgId s = s\<lparr>og_tenants := filter (\<lambda>r. ot_id r \<noteq> orgId) (og_tenants s)\<rparr>"

section \<open>Member and invite repository\<close>

definition listMembers :: "string \<Rightarrow> orgs \<Rightarrow> org_member list" where
  "listMembers orgId s = filter (\<lambda>m. om_orgId m = orgId) (og_members s)"

text \<open>\<open>onConflictDoNothing\<close>: a row with a known identifier, or of a member of the organisation, is dropped.\<close>

definition addMember :: "org_member \<Rightarrow> orgs \<Rightarrow> orgs" where
  "addMember m s =
     (if list_ex (\<lambda>r. om_id r = om_id m \<or> om_orgId r = om_orgId m \<and> om_userId r = om_userId m) (og_members s)
      then s else s\<lparr>og_members := og_members s @ [m]\<rparr>)"

definition updateMemberRole :: "string \<Rightarrow> string \<Rightarrow> org_role \<Rightarrow> orgs \<Rightarrow> orgs" where
  "updateMemberRole orgId userId role s = s\<lparr>og_members :=
     map (\<lambda>m. if om_orgId m = orgId \<and> om_userId m = userId then m\<lparr>om_role := role\<rparr> else m) (og_members s)\<rparr>"

definition drop_member :: "string \<Rightarrow> string \<Rightarrow> orgs \<Rightarrow> orgs" where
  "drop_member orgId userId s = s\<lparr>og_members :=
     filter (\<lambda>m. \<not> (om_orgId m = orgId \<and> om_userId m = userId)) (og_members s)\<rparr>"

definition findMember :: "string \<Rightarrow> string \<Rightarrow> orgs \<Rightarrow> org_member option" where
  "findMember orgId userId s = find (\<lambda>m. om_orgId m = orgId \<and> om_userId m = userId) (og_members s)"

definition countAdminsAndOwners :: "string \<Rightarrow> orgs \<Rightarrow> nat" where
  "countAdminsAndOwners orgId s =
     length (filter (\<lambda>m. om_orgId m = orgId \<and> (om_role m = Admin_Role \<or> om_role m = Owner_Role)) (og_members s))"

definition listInvites :: "string \<Rightarrow> orgs \<Rightarrow> org_invite list" where
  "listInvites orgId s = filter (\<lambda>i. oi_orgId i = orgId \<and> og_now s < oi_expiresAt i) (og_invites s)"

text \<open>The unique keys of the table: the identifier and the token.\<close>

definition createInvite :: "org_invite \<Rightarrow> unit org_act" where
  "createInvite i s =
     (if list_ex (\<lambda>r. oi_id r = oi_id i \<or> oi_token r = oi_token i) (og_invites s)
      then (Inl (Org_Thrown ''duplicate key''), s) else (Inr (), s\<lparr>og_invites := og_invites s @ [i]\<rparr>))"

definition findInviteById :: "string \<Rightarrow> orgs \<Rightarrow> org_invite option" where
  "findInviteById i s = find (\<lambda>r. oi_id r = i) (og_invites s)"

definition findInviteByToken :: "string \<Rightarrow> orgs \<Rightarrow> org_invite option" where
  "findInviteByToken token s = find (\<lambda>r. oi_token r = token) (og_invites s)"

definition deleteInvite :: "string \<Rightarrow> orgs \<Rightarrow> orgs" where
  "deleteInvite i s = s\<lparr>og_invites := filter (\<lambda>r. oi_id r \<noteq> i) (og_invites s)\<rparr>"

definition deleteAllMembers :: "string \<Rightarrow> orgs \<Rightarrow> orgs" where
  "deleteAllMembers orgId s = s\<lparr>og_members := filter (\<lambda>m. om_orgId m \<noteq> orgId) (og_members s)\<rparr>"

definition deleteAllInvites :: "string \<Rightarrow> orgs \<Rightarrow> orgs" where
  "deleteAllInvites orgId s = s\<lparr>og_invites := filter (\<lambda>i. oi_orgId i \<noteq> orgId) (og_invites s)\<rparr>"

definition listOrgsByUser :: "string \<Rightarrow> orgs \<Rightarrow> (string \<times> org_role) list" where
  "listOrgsByUser userId s = map (\<lambda>m. (om_orgId m, om_role m)) (filter (\<lambda>m. om_userId m = userId) (og_members s))"

definition markInviteAccepted :: "string \<Rightarrow> orgs \<Rightarrow> orgs" where
  "markInviteAccepted i s = s\<lparr>og_invites :=
     map (\<lambda>r. if oi_id r = i then r\<lparr>oi_acceptedAt := Some (og_now s)\<rparr> else r) (og_invites s)\<rparr>"

section \<open>Views\<close>

record member_view =
  mv_id :: string
  mv_userId :: string
  mv_name :: string
  mv_email :: string
  mv_role :: org_role
  mv_joinedAt :: int

record invite_view =
  iv_id :: string
  iv_email :: string
  iv_role :: granted_role
  iv_invitedBy :: string
  iv_expiresAt :: int
  iv_createdAt :: int

record org_view =
  ov_tenant :: org_tenant
  ov_members :: "member_view list"
  ov_invites :: "invite_view list"

text \<open>
  The options: a hook that runs in the transaction of a deletion (its answer is the message it
  throws, if it throws), and a repository of user profiles whose lookups may be rejected.
\<close>

record org_options =
  oo_beforeDelete :: "(string \<Rightarrow> string option) option"
  oo_users :: "(string \<Rightarrow> string + (string \<times> string) option) option"

definition profile_map :: "org_options \<Rightarrow> org_member list \<Rightarrow> string \<Rightarrow> (string \<times> string) option" where
  "profile_map opts ms = (case oo_users opts of
       None \<Rightarrow> Map.empty
     | Some getUser \<Rightarrow> foldl (\<lambda>f m. case getUser (om_userId m) of
           Inr (Some p) \<Rightarrow> f(om_userId m \<mapsto> p) | _ \<Rightarrow> f) Map.empty ms)"

definition view_member :: "(string \<Rightarrow> (string \<times> string) option) \<Rightarrow> org_member \<Rightarrow> member_view" where
  "view_member profiles m = \<lparr>mv_id = om_id m, mv_userId = om_userId m,
     mv_name = (case profiles (om_userId m) of None \<Rightarrow> om_userId m | Some (n, _) \<Rightarrow> n),
     mv_email = (case profiles (om_userId m) of None \<Rightarrow> [] | Some (_, e) \<Rightarrow> e),
     mv_role = om_role m, mv_joinedAt = om_joinedAt m\<rparr>"

definition view_invite :: "org_invite \<Rightarrow> invite_view" where
  "view_invite i = \<lparr>iv_id = oi_id i, iv_email = oi_email i, iv_role = oi_role i, iv_invitedBy = oi_invitedBy i,
     iv_expiresAt = oi_expiresAt i, iv_createdAt = oi_createdAt i\<rparr>"

definition buildOrgWithMembers :: "org_options \<Rightarrow> org_tenant \<Rightarrow> orgs \<Rightarrow> org_view" where
  "buildOrgWithMembers opts t s =
     (let ms = listMembers (ot_id t) s in
      \<lparr>ov_tenant = t, ov_members = map (view_member (profile_map opts ms)) ms,
       ov_invites = map view_invite (listInvites (ot_id t) s)\<rparr>)"

section \<open>Service\<close>

definition requireOrg :: "string \<Rightarrow> org_tenant org_act" where
  "requireOrg orgId = aquery (\<lambda>s. case org_by_id orgId s of
     None \<Rightarrow> Inl (Trpc Not_Found ''Organization not found'') | Some t \<Rightarrow> Inr t)"

definition requireAdminOrOwner :: "string \<Rightarrow> string \<Rightarrow> unit org_act" where
  "requireAdminOrOwner orgId userId = aquery (\<lambda>s. case findMember orgId userId s of
     None \<Rightarrow> Inl (Trpc Forbidden ''Admin or owner role required'')
   | Some m \<Rightarrow> if om_role m \<noteq> Admin_Role \<and> om_role m \<noteq> Owner_Role
       then Inl (Trpc Forbidden ''Admin or owner role required'') else Inr ())"

definition requireOwner :: "string \<Rightarrow> string \<Rightarrow> unit org_act" where
  "requireOwner orgId userId = aquery (\<lambda>s. case findMember orgId userId s of
     None \<Rightarrow> Inl (Trpc Forbidden ''Owner role required'')
   | Some m \<Rightarrow> if om_role m \<noteq> Owner_Role then Inl (Trpc Forbidden ''Owner role required'') else Inr ())"

definition new_member :: "string \<Rightarrow> string \<Rightarrow> org_role \<Rightarrow> string \<Rightarrow> int \<Rightarrow> org_member" where
  "new_member orgId userId role i now =
     \<lparr>om_id = i, om_orgId = orgId, om_userId = userId, om_role = role, om_joinedAt = now\<rparr>"

definition add_member :: "string \<Rightarrow> string \<Rightarrow> org_role \<Rightarrow> unit org_act" where
  "add_member orgId userId role = abind draw (\<lambda>i.
     amodify (\<lambda>s. addMember (new_member orgId userId role i (og_now s)) s))"

definition getOrCreatePersonalOrg :: "org_options \<Rightarrow> string \<Rightarrow> string \<Rightarrow> org_view org_act" where
  "getOrCreatePersonalOrg opts userId displayName =
     abind (ensurePersonalTenant userId displayName) (\<lambda>t.
     abind (add_member (ot_id t) userId Owner_Role) (\<lambda>_.
     aquery (\<lambda>s. Inr (buildOrgWithMembers opts t s))))"

definition slug_check :: "string option \<Rightarrow> unit org_act" where
  "slug_check slug = (case slug of None \<Rightarrow> areturn () | Some x \<Rightarrow>
     abind (validateSlug x) (\<lambda>_.
     aquery (\<lambda>s. if getBySlug x s \<noteq> None then Inl (Trpc Conflict ''Slug already taken'') else Inr ())))"

text \<open>
  The two flags are the answers of the database: whether the insert of the owner's row throws, and
  whether the compensating delete that follows throws too (it is logged, nothing more).
\<close>

definition createOrg :: "bool \<Rightarrow> bool \<Rightarrow> string \<Rightarrow> string \<Rightarrow> string option \<Rightarrow> (string \<times> string \<times> string) org_act" where
  "createOrg insert_fails delete_fails userId name slug =
     (if trim name = [] then athrow (Trpc Bad_Request ''Org name cannot be blank or whitespace only'')
      else
        abind (slug_check slug) (\<lambda>_.
        abind (insert_org userId name slug) (\<lambda>t.
        abind (if insert_fails
               then abind (awhen (\<not> delete_fails) (amodify (delete_tenant (ot_id t)))) (\<lambda>_. athrow (Org_Thrown ''insert failed''))
               else add_member (ot_id t) userId Owner_Role) (\<lambda>_.
        areturn (ot_id t, ot_name t, case ot_slug t of None \<Rightarrow> [] | Some x \<Rightarrow> x)))))"

definition getOrg :: "org_options \<Rightarrow> string \<Rightarrow> org_view org_act" where
  "getOrg opts orgId = abind (requireOrg orgId) (\<lambda>t. aquery (\<lambda>s. Inr (buildOrgWithMembers opts t s)))"

definition updateOrg :: "string \<Rightarrow> string \<Rightarrow> org_patch \<Rightarrow> org_tenant org_act" where
  "updateOrg orgId actor data =
     abind (requireAdminOrOwner orgId actor) (\<lambda>_.
     abind (case op_slug data of None \<Rightarrow> areturn () | Some x \<Rightarrow>
       abind (validateSlug x) (\<lambda>_.
       aquery (\<lambda>s. case getBySlug x s of None \<Rightarrow> Inr ()
         | Some e \<Rightarrow> if ot_id e \<noteq> orgId then Inl (Trpc Conflict ''Slug already taken'') else Inr ()))) (\<lambda>_.
     patch_tenant orgId data))"

definition deleteOrg :: "org_options \<Rightarrow> string \<Rightarrow> string \<Rightarrow> unit org_act" where
  "deleteOrg opts orgId actor =
     abind (requireOrg orgId) (\<lambda>t.
     if ot_ownerId t \<noteq> actor then athrow (Trpc Forbidden ''Only the owner can delete the organization'')
     else atomically (\<lambda>s. case (case oo_beforeDelete opts of None \<Rightarrow> None | Some hook \<Rightarrow> hook orgId) of
         Some msg \<Rightarrow> Inl (Org_Thrown msg)
       | None \<Rightarrow> Inr ((), delete_tenant orgId (deleteAllMembers orgId (deleteAllInvites orgId s)))))"

definition inviteMember :: "string \<Rightarrow> string \<Rightarrow> string \<Rightarrow> granted_role \<Rightarrow> org_invite org_act" where
  "inviteMember orgId actor email role =
     abind (requireAdminOrOwner orgId actor) (\<lambda>_.
     abind draw (\<lambda>token.
     abind draw (\<lambda>i.
     abind (aquery (\<lambda>s. Inr (og_now s))) (\<lambda>now.
     let invite = \<lparr>oi_id = i, oi_orgId = orgId, oi_email = email, oi_role = role, oi_invitedBy = actor, oi_token = token,
           oi_expiresAt = now + 7 * 24 * 60 * 60 * 1000, oi_createdAt = now, oi_acceptedAt = None, oi_revokedAt = None\<rparr> in
     abind (createInvite invite) (\<lambda>_. areturn invite)))))"

definition revokeInvite :: "string \<Rightarrow> string \<Rightarrow> string \<Rightarrow> unit org_act" where
  "revokeInvite orgId actor inviteId =
     abind (requireAdminOrOwner orgId actor) (\<lambda>_.
     abind (aquery (\<lambda>s. case findInviteById inviteId s of
         None \<Rightarrow> Inl (Trpc Not_Found ''Invite not found'')
       | Some i \<Rightarrow> if oi_orgId i \<noteq> orgId then Inl (Trpc Not_Found ''Invite not found'') else Inr ())) (\<lambda>_.
     amodify (deleteInvite inviteId)))"

definition require_member :: "string \<Rightarrow> string \<Rightarrow> string \<Rightarrow> org_member org_act" where
  "require_member msg orgId userId = aquery (\<lambda>s. case findMember orgId userId s of
     None \<Rightarrow> Inl (Trpc Not_Found msg) | Some m \<Rightarrow> Inr m)"

definition changeRole :: "string \<Rightarrow> string \<Rightarrow> string \<Rightarrow> granted_role \<Rightarrow> unit org_act" where
  "changeRole orgId actor target role =
     abind (requireAdminOrOwner orgId actor) (\<lambda>_.
     abind (requireOrg orgId) (\<lambda>t.
     if ot_ownerId t = target
     then athrow (Trpc Bad_Request ''Cannot change the owner's role. Use transfer ownership instead.'')
     else abind (require_member ''Member not found'' orgId target) (\<lambda>_.
       amodify (updateMemberRole orgId target (role_of role)))))"

definition removeMember :: "string \<Rightarrow> string \<Rightarrow> string \<Rightarrow> unit org_act" where
  "removeMember orgId actor target =
     abind (requireAdminOrOwner orgId actor) (\<lambda>_.
     abind (requireOrg orgId) (\<lambda>t.
     if ot_ownerId t = target then athrow (Trpc Bad_Request ''Cannot remove the owner'')
     else abind (require_member ''Member not found'' orgId target) (\<lambda>m.
       abind (if om_role m = Admin_Role
              then aquery (\<lambda>s. if countAdminsAndOwners orgId s \<le> 1
                then Inl (Trpc Bad_Request ''Cannot remove the last admin'') else Inr ())
              else areturn ()) (\<lambda>_.
       amodify (drop_member orgId target)))))"

definition transferOwnership :: "string \<Rightarrow> string \<Rightarrow> string \<Rightarrow> unit org_act" where
  "transferOwnership orgId actor target =
     abind (requireOrg orgId) (\<lambda>t.
     if ot_ownerId t \<noteq> actor then athrow (Trpc Forbidden ''Only the owner can transfer ownership'')
     else abind (require_member ''Target member not found'' orgId target) (\<lambda>_.
       abind (amodify (updateMemberRole orgId target Owner_Role)) (\<lambda>_.
       abind (amodify (updateMemberRole orgId actor Admin_Role)) (\<lambda>_.
       amodify (updateOwner orgId target)))))"

text \<open>A time in a condition: null and zero are false.\<close>

definition time_set :: "int option \<Rightarrow> bool" where
  "time_set t \<longleftrightarrow> (case t of None \<Rightarrow> False | Some x \<Rightarrow> x \<noteq> 0)"

definition usable_invite :: "string \<Rightarrow> orgs \<Rightarrow> org_error + org_invite" where
  "usable_invite token s = (case findInviteByToken token s of
     None \<Rightarrow> Inl (Trpc Not_Found ''Invite not found'')
   | Some i \<Rightarrow>
       if time_set (oi_acceptedAt i) then Inl (Trpc Bad_Request ''Invite already accepted'')
       else if time_set (oi_revokedAt i) then Inl (Trpc Bad_Request ''Invite has been revoked'')
       else if oi_expiresAt i \<noteq> 0 \<and> oi_expiresAt i < og_now s then Inl (Trpc Bad_Request ''Invite has expired'')
       else Inr i)"

definition acceptInvite :: "string \<Rightarrow> string \<Rightarrow> (string \<times> org_role) org_act" where
  "acceptInvite token userId =
     abind (aquery (usable_invite token)) (\<lambda>i.
     abind (aquery (\<lambda>s. if findMember (oi_orgId i) userId s \<noteq> None
       then Inl (Trpc Conflict ''User is already a member of this organization'') else Inr ())) (\<lambda>_.
     abind (add_member (oi_orgId i) userId (role_of (oi_role i))) (\<lambda>_.
     abind (amodify (markInviteAccepted (oi_id i))) (\<lambda>_.
     areturn (oi_orgId i, role_of (oi_role i))))))"

definition listOrgsForUser :: "string \<Rightarrow> (string \<times> org_role) list org_act" where
  "listOrgsForUser userId = aquery (\<lambda>s. Inr (listOrgsByUser userId s))"

section \<open>Guards of the procedures\<close>

text \<open>
  The context of a tRPC request: the user of the session with its roles, and the tenant the client
  names in a header (its own identifier otherwise). A session that cannot be read is none.
\<close>

record trpc_context =
  tc_user :: "(string \<times> string list) option"
  tc_tenantId :: string

definition createTRPCContext :: "string + (string \<times> string option) option \<Rightarrow> string option \<Rightarrow> trpc_context" where
  "createTRPCContext session header = (case session of
     Inr (Some (uid, role)) \<Rightarrow> \<lparr>tc_user = Some (uid, if truthy role then [the role] else []),
       tc_tenantId = (if truthy header then the header else uid)\<rparr>
   | _ \<Rightarrow> \<lparr>tc_user = None, tc_tenantId = []\<rparr>)"

definition validateTenantAccess :: "string \<Rightarrow> string \<Rightarrow> orgs \<Rightarrow> bool" where
  "validateTenantAccess userId requested s \<longleftrightarrow>
     requested = [] \<or> requested = userId \<or> findMember requested userId s \<noteq> None"

definition BEARER_TOKEN_ID_PREFIX :: string where
  "BEARER_TOKEN_ID_PREFIX = ''token:''"

text \<open>The repository is injected at start-up: before that it is absent.\<close>

definition check_tenant :: "orgs option \<Rightarrow> string \<times> string list \<Rightarrow> string \<Rightarrow> org_error + unit" where
  "check_tenant repo user tenantId =
     (if prefix BEARER_TOKEN_ID_PREFIX (fst user) \<or> ''platform_admin'' \<in> set (snd user) then Inr ()
      else case repo of
        None \<Rightarrow> Inl (Trpc Internal_Server_Error ''Server misconfiguration: org member repository not wired'')
      | Some s \<Rightarrow> if validateTenantAccess (fst user) tenantId s then Inr ()
          else Inl (Trpc Forbidden ''Not authorized for this tenant''))"

definition require_user :: "trpc_context \<Rightarrow> org_error + (string \<times> string list)" where
  "require_user ctx = (case tc_user ctx of None \<Rightarrow> Inl (Trpc Unauthorized ''Authentication required'') | Some u \<Rightarrow> Inr u)"

definition isAuthed :: "orgs option \<Rightarrow> trpc_context \<Rightarrow> org_error + (string \<times> string list)" where
  "isAuthed repo ctx = rbind (require_user ctx) (\<lambda>u.
     if tc_tenantId ctx = [] then Inr u else rbind (check_tenant repo u (tc_tenantId ctx)) (\<lambda>_. Inr u))"

definition isAdmin :: "trpc_context \<Rightarrow> org_error + (string \<times> string list)" where
  "isAdmin ctx = rbind (require_user ctx) (\<lambda>u. if ''platform_admin'' \<in> set (snd u) then Inr u
     else Inl (Trpc Forbidden ''Platform admin role required''))"

definition isAuthedWithTenant :: "orgs option \<Rightarrow> trpc_context \<Rightarrow> org_error + (string \<times> string list)" where
  "isAuthedWithTenant repo ctx = rbind (require_user ctx) (\<lambda>u.
     if tc_tenantId ctx = [] then Inl (Trpc Bad_Request ''Tenant context required'')
     else rbind (check_tenant repo u (tc_tenantId ctx)) (\<lambda>_. Inr u))"

text \<open>The input of the procedure carries the organisation; the guard answers the caller's role in it.\<close>

definition isOrgMember :: "orgs option \<Rightarrow> trpc_context \<Rightarrow> string option \<Rightarrow> org_error + org_role" where
  "isOrgMember repo ctx orgId = rbind (require_user ctx) (\<lambda>u.
     case repo of
       None \<Rightarrow> Inl (Trpc Internal_Server_Error ''Server misconfiguration: org member repository not wired'')
     | Some s \<Rightarrow> if \<not> truthy orgId then Inl (Trpc Bad_Request ''orgId is required'')
         else case findMember (the orgId) (fst u) s of
             None \<Rightarrow> Inl (Trpc Forbidden ''Not a member of this organization'')
           | Some m \<Rightarrow> Inr (om_role m))"

definition isOrgAdmin :: "org_role \<Rightarrow> org_error + unit" where
  "isOrgAdmin role = (if role = Member_Role then Inl (Trpc Forbidden ''Admin or owner role required'') else Inr ())"

definition adminProcedure :: "orgs option \<Rightarrow> trpc_context \<Rightarrow> org_error + (string \<times> string list)" where
  "adminProcedure repo ctx = rbind (isAuthed repo ctx) (\<lambda>_. isAdmin ctx)"

definition orgMemberProcedure :: "orgs option \<Rightarrow> trpc_context \<Rightarrow> string option \<Rightarrow> org_error + org_role" where
  "orgMemberProcedure repo ctx orgId = rbind (isAuthed repo ctx) (\<lambda>_. isOrgMember repo ctx orgId)"

definition orgAdminProcedure :: "orgs option \<Rightarrow> trpc_context \<Rightarrow> string option \<Rightarrow> org_error + org_role" where
  "orgAdminProcedure repo ctx orgId = rbind (orgMemberProcedure repo ctx orgId) (\<lambda>role.
     rbind (isOrgAdmin role) (\<lambda>_. Inr role))"

definition assertOrgAdminOrOwner :: "string \<Rightarrow> string \<Rightarrow> unit org_act" where
  "assertOrgAdminOrOwner tenantId userId = aquery (\<lambda>s.
     if tenantId = userId then Inr ()
     else case findMember tenantId userId s of
         None \<Rightarrow> Inl (Trpc Forbidden ''Organization admin access required'')
       | Some m \<Rightarrow> if om_role m \<noteq> Owner_Role \<and> om_role m \<noteq> Admin_Role
           then Inl (Trpc Forbidden ''Organization admin access required'') else Inr ())"

section \<open>Runs\<close>

datatype org_op =
    Get_Personal string string
  | Create_Org bool bool string string "string option"
  | Update_Org string string org_patch
  | Delete_Org string string
  | Invite_Member string string string granted_role
  | Revoke_Invite string string string
  | Change_Role string string string granted_role
  | Remove_Member string string string
  | Transfer_Ownership string string string
  | Accept_Invite string string
  | Clock int

fun org_exec :: "org_options \<Rightarrow> org_op \<Rightarrow> orgs \<Rightarrow> orgs" where
  "org_exec opts (Get_Personal u name) s = snd (getOrCreatePersonalOrg opts u name s)"
| "org_exec opts (Create_Org f d u name slug) s = snd (createOrg f d u name slug s)"
| "org_exec opts (Update_Org orgId u data) s = snd (updateOrg orgId u data s)"
| "org_exec opts (Delete_Org orgId u) s = snd (deleteOrg opts orgId u s)"
| "org_exec opts (Invite_Member orgId u email role) s = snd (inviteMember orgId u email role s)"
| "org_exec opts (Revoke_Invite orgId u i) s = snd (revokeInvite orgId u i s)"
| "org_exec opts (Change_Role orgId u v role) s = snd (changeRole orgId u v role s)"
| "org_exec opts (Remove_Member orgId u v) s = snd (removeMember orgId u v s)"
| "org_exec opts (Transfer_Ownership orgId u v) s = snd (transferOwnership orgId u v s)"
| "org_exec opts (Accept_Invite token u) s = snd (acceptInvite token u s)"
| "org_exec opts (Clock t) s = s\<lparr>og_now := t\<rparr>"

fun actor_of :: "org_op \<Rightarrow> string option" where
  "actor_of (Get_Personal u _) = Some u"
| "actor_of (Create_Org _ _ u _ _) = Some u"
| "actor_of (Update_Org _ u _) = Some u"
| "actor_of (Delete_Org _ u) = Some u"
| "actor_of (Invite_Member _ u _ _) = Some u"
| "actor_of (Revoke_Invite _ u _) = Some u"
| "actor_of (Change_Role _ u _ _) = Some u"
| "actor_of (Remove_Member _ u _) = Some u"
| "actor_of (Transfer_Ownership _ u _) = Some u"
| "actor_of (Accept_Invite _ u) = Some u"
| "actor_of (Clock _) = None"

inductive org_run :: "org_options \<Rightarrow> orgs \<Rightarrow> org_op list \<Rightarrow> orgs \<Rightarrow> bool" for opts where
  Run_Nil: "org_run opts s [] s"
| Run_Step: "org_run opts (org_exec opts x s) xs s' \<Longrightarrow> org_run opts s (x # xs) s'"

definition orgs_start :: "int \<Rightarrow> (nat \<Rightarrow> string) \<Rightarrow> orgs" where
  "orgs_start now random = \<lparr>og_now = now, og_random = random, og_drawn = 0, og_tenants = [], og_members = [], og_invites = []\<rparr>"


section \<open>Effects\<close>

text \<open>What a step does to the tables, with the guards under which it does so.\<close>

definition is_manager :: "string \<Rightarrow> string \<Rightarrow> orgs \<Rightarrow> bool" where
  "is_manager orgId u s \<longleftrightarrow> (case findMember orgId u s of None \<Rightarrow> False | Some m \<Rightarrow> om_role m \<noteq> Member_Role)"

definition quiet :: "orgs \<Rightarrow> orgs \<Rightarrow> bool" where
  "quiet s s' \<longleftrightarrow> og_tenants s' = og_tenants s \<and> og_members s' = og_members s \<and> og_invites s' = og_invites s
     \<and> og_random s' = og_random s \<and> og_drawn s \<le> og_drawn s'"

abbreviation drawn1 :: "orgs \<Rightarrow> orgs" where
  "drawn1 s \<equiv> s\<lparr>og_drawn := Suc (og_drawn s)\<rparr>"

abbreviation drawn2 :: "orgs \<Rightarrow> orgs" where
  "drawn2 s \<equiv> s\<lparr>og_drawn := Suc (Suc (og_drawn s))\<rparr>"

abbreviation with_tenant :: "org_tenant \<Rightarrow> orgs \<Rightarrow> orgs" where
  "with_tenant t s \<equiv> s\<lparr>og_tenants := og_tenants s @ [t]\<rparr>"

text \<open>The row for a user whose identifier is the \<open>n\<close>-th value of the supply.\<close>

definition drawn_member :: "nat \<Rightarrow> string \<Rightarrow> string \<Rightarrow> org_role \<Rightarrow> orgs \<Rightarrow> org_member" where
  "drawn_member n orgId u role s = new_member orgId u role (og_random s n) (og_now s)"

inductive org_effect :: "org_op \<Rightarrow> orgs \<Rightarrow> orgs \<Rightarrow> bool" where
  Quiet: "quiet s s' \<Longrightarrow> org_effect x s s'"
| Personal: "s1 = (if list_ex (\<lambda>r. ot_id r = u) (og_tenants s) then s else with_tenant t s) \<Longrightarrow> ot_id t = u \<Longrightarrow>
    ot_type t = Personal \<Longrightarrow> ot_slug t = None \<Longrightarrow>
    org_effect (Get_Personal u name) s (addMember (drawn_member (og_drawn s) u u Owner_Role s) (drawn1 s1))"
| Created: "ot_id t = og_random s (og_drawn s) \<Longrightarrow> ot_type t = Org \<Longrightarrow> ot_ownerId t = u \<Longrightarrow> \<not> tenant_clash t s \<Longrightarrow>
    org_effect (Create_Org False d u name slug) s
      (addMember (drawn_member (Suc (og_drawn s)) (ot_id t) u Owner_Role s) (drawn2 (with_tenant t s)))"
| Orphaned: "ot_id t = og_random s (og_drawn s) \<Longrightarrow> \<not> tenant_clash t s \<Longrightarrow>
    org_effect (Create_Org True True u name slug) s (drawn1 (with_tenant t s))"
| Patched: "is_manager orgId u s \<Longrightarrow>
    op_slug data \<noteq> None \<longrightarrow> \<not> list_ex (\<lambda>r. ot_id r \<noteq> orgId \<and> ot_slug r = op_slug data) (og_tenants s) \<Longrightarrow>
    org_effect (Update_Org orgId u data) s
      (s\<lparr>og_tenants := map (\<lambda>r. if ot_id r = orgId then patch_org data r else r) (og_tenants s)\<rparr>)"
| Deleted: "org_by_id orgId s = Some t \<Longrightarrow> ot_ownerId t = u \<Longrightarrow>
    org_effect (Delete_Org orgId u) s (delete_tenant orgId (deleteAllMembers orgId (deleteAllInvites orgId s)))"
| Invited: "is_manager orgId u s \<Longrightarrow> oi_orgId i = orgId \<Longrightarrow>
    \<not> list_ex (\<lambda>r. oi_id r = oi_id i \<or> oi_token r = oi_token i) (og_invites s) \<Longrightarrow>
    org_effect (Invite_Member orgId u email role) s (s\<lparr>og_drawn := Suc (Suc (og_drawn s)), og_invites := og_invites s @ [i]\<rparr>)"
| Revoked: "is_manager orgId u s \<Longrightarrow> findInviteById i s = Some r \<Longrightarrow> oi_orgId r = orgId \<Longrightarrow>
    org_effect (Revoke_Invite orgId u i) s (deleteInvite i s)"
| Changed: "is_manager orgId u s \<Longrightarrow> org_by_id orgId s = Some t \<Longrightarrow> ot_ownerId t \<noteq> v \<Longrightarrow>
    org_effect (Change_Role orgId u v role) s (updateMemberRole orgId v (role_of role) s)"
| Removed: "is_manager orgId u s \<Longrightarrow> org_by_id orgId s = Some t \<Longrightarrow> ot_ownerId t \<noteq> v \<Longrightarrow>
    org_effect (Remove_Member orgId u v) s (drop_member orgId v s)"
| Transferred: "org_by_id orgId s = Some t \<Longrightarrow> ot_ownerId t = u \<Longrightarrow> findMember orgId v s = Some m \<Longrightarrow>
    org_effect (Transfer_Ownership orgId u v) s
      (updateOwner orgId v (updateMemberRole orgId u Admin_Role (updateMemberRole orgId v Owner_Role s)))"
| Accepted: "usable_invite token s = Inr i \<Longrightarrow> findMember (oi_orgId i) u s = None \<Longrightarrow>
    org_effect (Accept_Invite token u) s
      (markInviteAccepted (oi_id i) (addMember (drawn_member (og_drawn s) (oi_orgId i) u (role_of (oi_role i)) s) (drawn1 s)))"

lemma quiet_refl [simp]: "quiet s s"
  by (simp add: quiet_def)

lemma quiet_steps: "org_effect x s s" "org_effect x s (s\<lparr>og_drawn := Suc (og_drawn s)\<rparr>)"
    "org_effect x s (s\<lparr>og_drawn := Suc (Suc (og_drawn s))\<rparr>)" "org_effect (Clock t) s (s\<lparr>og_now := t\<rparr>)"
  by (auto intro!: Quiet simp: quiet_def)

lemma requireAdminOrOwner_simp:
  "requireAdminOrOwner orgId u s =
     ((if is_manager orgId u s then Inr () else Inl (Trpc Forbidden ''Admin or owner role required'')), s)"
  by (auto simp: requireAdminOrOwner_def is_manager_def aquery_def split: option.splits) (metis org_role.exhaust)+

lemma validateSlug_simp [simp]: "snd (validateSlug x s) = s"
  by (simp add: validateSlug_def areturn_def athrow_def)

lemma addMember_fields [simp]:
  "og_tenants (addMember m s) = og_tenants s" "og_invites (addMember m s) = og_invites s"
  "og_random (addMember m s) = og_random s" "og_drawn (addMember m s) = og_drawn s" "og_now (addMember m s) = og_now s"
  by (simp_all add: addMember_def)

lemma add_member_simp: "add_member orgId u role s = (Inr (), addMember (drawn_member (og_drawn s) orgId u role s) (drawn1 s))"
  by (simp add: add_member_def abind_def draw_def amodify_def drawn_member_def)

lemmas service_simps = abind_def aquery_def amodify_def areturn_def athrow_def awhen_def requireOrg_def require_member_def
  requireAdminOrOwner_simp add_member_simp

lemma effect_personal: "org_effect (Get_Personal u name) s (org_exec opts (Get_Personal u name) s)"
proof -
  define t where "t = \<lparr>ot_id = u, ot_name = name, ot_slug = None, ot_type = Personal, ot_ownerId = u,
    ot_billingEmail = None, ot_createdAt = og_now s\<rparr>"
  define s1 where "s1 = (if list_ex (\<lambda>r. ot_id r = u) (og_tenants s) then s else with_tenant t s)"
  have "\<exists>r \<in> set (og_tenants s1). ot_id r = u"
    by (cases "list_ex (\<lambda>r. ot_id r = u) (og_tenants s)") (simp_all add: s1_def t_def list_ex_iff)
  then have "org_by_id u s1 \<noteq> None" unfolding org_by_id_def find_None_iff by blast
  then obtain r where r: "org_by_id u s1 = Some r" by blast
  then have id: "ot_id r = u" by (auto simp: org_by_id_def find_Some_iff)
  have "ensurePersonalTenant u name s = (Inr r, s1)"
    unfolding ensurePersonalTenant_def Let_def t_def[symmetric] s1_def[symmetric] using r by simp
  then have "org_exec opts (Get_Personal u name) s = addMember (drawn_member (og_drawn s1) u u Owner_Role s1) (drawn1 s1)"
    using id by (simp add: getOrCreatePersonalOrg_def service_simps)
  also have "drawn_member (og_drawn s1) u u Owner_Role s1 = drawn_member (og_drawn s) u u Owner_Role s"
    by (simp add: s1_def drawn_member_def)
  finally show ?thesis using org_effect.Personal[OF s1_def] by (simp add: t_def)
qed

lemma effect_update: "org_effect (Update_Org orgId u data) s (org_exec opts (Update_Org orgId u data) s)"
  by (auto simp: updateOrg_def patch_tenant_def service_simps validateSlug_def
      split: option.splits sum.splits if_splits intro!: quiet_steps Patched)

lemma effect_delete: "org_effect (Delete_Org orgId u) s (org_exec opts (Delete_Org orgId u) s)"
  by (auto simp: deleteOrg_def service_simps atomically_def split: option.splits intro!: quiet_steps Deleted)

lemma effect_invite: "org_effect (Invite_Member orgId u email role) s (org_exec opts (Invite_Member orgId u email role) s)"
  by (auto simp: inviteMember_def service_simps draw_def createInvite_def Let_def intro!: quiet_steps Invited)

lemma effect_revoke: "org_effect (Revoke_Invite orgId u i) s (org_exec opts (Revoke_Invite orgId u i) s)"
  by (auto simp: revokeInvite_def service_simps split: option.splits intro!: quiet_steps Revoked)

lemma effect_change: "org_effect (Change_Role orgId u v role) s (org_exec opts (Change_Role orgId u v role) s)"
  by (auto simp: changeRole_def service_simps split: option.splits intro!: quiet_steps Changed)

lemma effect_remove: "org_effect (Remove_Member orgId u v) s (org_exec opts (Remove_Member orgId u v) s)"
  by (auto simp: removeMember_def service_simps split: option.splits intro!: quiet_steps Removed)

lemma effect_transfer: "org_effect (Transfer_Ownership orgId u v) s (org_exec opts (Transfer_Ownership orgId u v) s)"
  by (auto simp: transferOwnership_def service_simps split: option.splits intro!: quiet_steps Transferred)

lemma effect_accept: "org_effect (Accept_Invite token u) s (org_exec opts (Accept_Invite token u) s)"
  by (auto simp: acceptInvite_def service_simps split: sum.splits intro!: quiet_steps Accepted)

lemma slug_check_state: "snd (slug_check slug s) = s"
  by (simp add: slug_check_def validateSlug_def service_simps split: option.split)

lemma effect_create: "org_effect (Create_Org f d u name slug) s (org_exec opts (Create_Org f d u name slug) s)"
proof -
  let ?final = "if truthy slug then the slug else slugify name"
  define t where "t = \<lparr>ot_id = og_random s (og_drawn s), ot_name = name, ot_slug = Some ?final, ot_type = Org,
    ot_ownerId = u, ot_billingEmail = None, ot_createdAt = og_now s\<rparr>"
  have undo: "delete_tenant (ot_id t) (drawn1 (with_tenant t s)) = drawn1 s" if "\<not> tenant_clash t s"
    using that by (auto simp: delete_tenant_def tenant_clash_def list_ex_iff filter_id_conv)
  have insert: "insert_org u name slug s =
     (if ?final = [] then (Inl (Org_Status 400 ''Org name produces an empty slug; use only letters, numbers, or hyphens''), drawn1 s)
      else if tenant_clash t s then (Inl (Trpc Conflict ''Organization slug already taken''), drawn1 s)
      else (Inr t, drawn1 (with_tenant t s)))"
    by (simp add: insert_org_def abind_def draw_def Let_def t_def tenant_clash_def)
  let ?s' = "org_exec opts (Create_Org f d u name slug) s" and ?made = "drawn1 (with_tenant t s)"
  have id: "ot_id t = og_random s (og_drawn s)" "ot_type t = Org" "ot_ownerId t = u" by (simp_all add: t_def)
  have "?s' = s \<or> ?s' = drawn1 s \<or> (\<not> tenant_clash t s \<and> ?s' = (if f then if d then ?made else delete_tenant (ot_id t) ?made
      else addMember (drawn_member (Suc (og_drawn s)) (ot_id t) u Owner_Role s) (drawn2 (with_tenant t s))))"
  proof (cases "trim name = []")
    case True
    then show ?thesis by (simp add: createOrg_def athrow_def)
  next
    case False
    obtain r where r: "slug_check slug s = (r, s)" using slug_check_state by (metis prod.collapse)
    show ?thesis
    proof (cases r)
      case (Inl e)
      then show ?thesis using False r by (simp add: createOrg_def abind_def)
    next
      case Inr
      then show ?thesis using False r insert
        by (simp add: createOrg_def abind_def areturn_def athrow_def awhen_def amodify_def add_member_simp drawn_member_def)
    qed
  qed
  then consider "?s' = s" | "?s' = drawn1 s"
    | "\<not> f" "\<not> tenant_clash t s" "?s' = addMember (drawn_member (Suc (og_drawn s)) (ot_id t) u Owner_Role s) (drawn2 (with_tenant t s))"
    | "f" "d" "\<not> tenant_clash t s" "?s' = ?made"
    using undo by (auto split: if_splits)
  then show ?thesis
  proof cases
    case 3
    then show ?thesis using org_effect.Created[OF id 3(2)] by simp
  next
    case 4
    then show ?thesis using org_effect.Orphaned[OF id(1) 4(3)] by simp
  qed (simp_all add: quiet_steps)
qed

lemma exec_effect: "org_effect x s (org_exec opts x s)"
  by (cases x) (simp_all only: effect_personal effect_create effect_update effect_delete
      effect_invite effect_revoke effect_change effect_remove effect_transfer effect_accept
      quiet_steps org_exec.simps(11))

section \<open>Well-typed tables\<close>

text \<open>
  Keys are keys, members and invites belong to tenants of the table, and a team organisation has
  exactly one owner among its members: the user its row names. (A user has at most one row in an
  organisation, so the equivalence leaves one row with the owner's role.)
\<close>

definition owned :: "org_tenant \<Rightarrow> org_member list \<Rightarrow> bool" where
  "owned t ms \<longleftrightarrow> (\<exists>m \<in> set ms. om_orgId m = ot_id t \<and> om_userId m = ot_ownerId t)
     \<and> (\<forall>m \<in> set ms. om_orgId m = ot_id t \<longrightarrow> (om_role m = Owner_Role \<longleftrightarrow> om_userId m = ot_ownerId t))"

definition tenants_typed :: "org_tenant list \<Rightarrow> bool" where
  "tenants_typed ts \<longleftrightarrow> distinct (map ot_id ts)
     \<and> (\<forall>t \<in> set ts. \<forall>r \<in> set ts. ot_slug t \<noteq> None \<longrightarrow> ot_slug r = ot_slug t \<longrightarrow> ot_id r = ot_id t)"

definition members_typed :: "string set \<Rightarrow> org_member list \<Rightarrow> bool" where
  "members_typed ids ms \<longleftrightarrow> distinct (map om_id ms) \<and> distinct (map (\<lambda>m. (om_orgId m, om_userId m)) ms)
     \<and> om_orgId ` set ms \<subseteq> ids"

definition invites_typed :: "string set \<Rightarrow> org_invite list \<Rightarrow> bool" where
  "invites_typed ids is \<longleftrightarrow> distinct (map oi_id is) \<and> distinct (map oi_token is) \<and> oi_orgId ` set is \<subseteq> ids"

definition orgs_typed :: "orgs \<Rightarrow> bool" where
  "orgs_typed s \<longleftrightarrow> tenants_typed (og_tenants s)
     \<and> members_typed (ot_id ` set (og_tenants s)) (og_members s)
     \<and> invites_typed (ot_id ` set (og_tenants s)) (og_invites s)
     \<and> (\<forall>t \<in> set (og_tenants s). ot_type t = Org \<longrightarrow> owned t (og_members s))"

text \<open>The supply of random values: never the same value twice; rows are named from it.\<close>

definition supplied :: "orgs \<Rightarrow> bool" where
  "supplied s \<longleftrightarrow> inj (og_random s) \<and> om_id ` set (og_members s) \<subseteq> og_random s ` {..<og_drawn s}
     \<and> (\<forall>t \<in> set (og_tenants s). ot_type t = Org \<longrightarrow> ot_id t \<in> range (og_random s))"

text \<open>
  What a step may not do: name a user by a value of the supply, hand an organisation from its owner
  to its owner, or create one while the database refuses the owner's row and then its removal.
\<close>

fun regular :: "(nat \<Rightarrow> string) \<Rightarrow> org_op \<Rightarrow> bool" where
  "regular random (Get_Personal u _) \<longleftrightarrow> u \<notin> range random"
| "regular random (Create_Org f d _ _ _) \<longleftrightarrow> \<not> (f \<and> d)"
| "regular random (Transfer_Ownership _ u v) \<longleftrightarrow> u \<noteq> v"
| "regular random _ \<longleftrightarrow> True"

lemma keys_update: "(\<And>r. k (g r) = k r) \<Longrightarrow> map k (map (\<lambda>r. if P r then g r else r) xs) = map k xs"
  by simp

lemma image_update: "(\<And>r. k (g r) = k r) \<Longrightarrow> k ` set (map (\<lambda>r. if P r then g r else r) xs) = k ` set xs"
  by (simp only: list.set_map image_image) (intro image_cong refl, simp)

lemma fresh_supply:
  assumes "supplied s" "og_drawn s \<le> n"
  shows "og_random s n \<notin> om_id ` set (og_members s)"
proof -
  have "inj (og_random s)" using assms(1) by (simp add: supplied_def)
  then have "og_random s n \<notin> og_random s ` {..<og_drawn s}" using assms(2) by (simp add: inj_image_mem_iff)
  then show ?thesis using assms(1) unfolding supplied_def by blast
qed

lemma member_orgs: "orgs_typed s \<Longrightarrow> m \<in> set (og_members s) \<Longrightarrow> om_orgId m \<in> ot_id ` set (og_tenants s)"
  by (auto simp: orgs_typed_def members_typed_def)

lemma manager_org: "orgs_typed s \<Longrightarrow> is_manager orgId u s \<Longrightarrow> orgId \<in> ot_id ` set (og_tenants s)"
  by (auto simp: is_manager_def findMember_def find_Some_iff split: option.splits dest!: member_orgs intro: nth_mem)

text \<open>A new row for a user who has none.\<close>

lemma addMember_new:
  assumes "supplied s" "findMember orgId u s = None" "og_drawn s \<le> k + n"
  shows "og_members (addMember (new_member orgId u role (og_random s (k + n)) now) s) = og_members s @ [new_member orgId u role (og_random s (k + n)) now]"
  using assms fresh_supply[OF assms(1), of "k + n"]
  by (auto simp: addMember_def list_ex_iff new_member_def findMember_def find_None_iff image_iff)

lemma members_typed_snoc:
  "members_typed ids ms \<Longrightarrow> om_id m \<notin> om_id ` set ms \<Longrightarrow> om_orgId m \<in> ids \<Longrightarrow>
   (om_orgId m, om_userId m) \<notin> (\<lambda>m. (om_orgId m, om_userId m)) ` set ms \<Longrightarrow> members_typed ids (ms @ [m])"
  by (auto simp: members_typed_def)

lemma members_typed_filter: "members_typed ids ms \<Longrightarrow> members_typed ids (filter P ms)"
  by (auto simp: members_typed_def intro: distinct_map_filter)

lemma members_typed_mono: "members_typed ids ms \<Longrightarrow> ids \<subseteq> ids' \<Longrightarrow> members_typed ids' ms"
  by (auto simp: members_typed_def)

lemma members_typed_role: "members_typed ids ms \<Longrightarrow> members_typed ids (map (\<lambda>m. if P m then m\<lparr>om_role := r\<rparr> else m) ms)"
  unfolding members_typed_def
  by (subst (1 2) keys_update, simp, simp, subst image_update) simp_all

lemma invites_typed_mono: "invites_typed ids is \<Longrightarrow> ids \<subseteq> ids' \<Longrightarrow> invites_typed ids' is"
  by (auto simp: invites_typed_def)

lemma invites_typed_filter: "invites_typed ids is \<Longrightarrow> invites_typed ids (filter P is)"
  by (auto simp: invites_typed_def intro: distinct_map_filter)

lemma invites_typed_accept:
  "invites_typed ids is \<Longrightarrow> invites_typed ids (map (\<lambda>i. if P i then i\<lparr>oi_acceptedAt := t\<rparr> else i) is)"
  unfolding invites_typed_def
  by (subst (1 2) keys_update, simp, simp, subst image_update) simp_all

lemma tenants_typed_snoc:
  assumes "tenants_typed ts" "\<not> list_ex (\<lambda>r. ot_id r = ot_id t \<or> ot_slug t \<noteq> None \<and> ot_slug r = ot_slug t) ts"
  shows "tenants_typed (ts @ [t])"
proof -
  have id: "ot_id t \<notin> ot_id ` set ts" using assms(2) by (auto simp: list_ex_iff)
  have slug: "ot_slug r \<noteq> ot_slug t" if "r \<in> set ts" "ot_slug t \<noteq> None" for r
    using assms(2) that by (auto simp: list_ex_iff)
  show ?thesis
    unfolding tenants_typed_def
  proof (intro conjI ballI impI)
    show "distinct (map ot_id (ts @ [t]))" using assms(1) id by (auto simp: tenants_typed_def)
  next
    fix x r
    assume x: "x \<in> set (ts @ [t])" and r: "r \<in> set (ts @ [t])" and s: "ot_slug x \<noteq> None" "ot_slug r = ot_slug x"
    then consider "x = t" "r = t" | "x = t" "r \<in> set ts" | "r = t" "x \<in> set ts" | "x \<in> set ts" "r \<in> set ts" by auto
    then show "ot_id r = ot_id x"
    proof cases
      case 4
      then show ?thesis using assms(1) s unfolding tenants_typed_def by blast
    qed (use slug s in auto)
  qed
qed

lemma tenants_typed_filter: "tenants_typed ts \<Longrightarrow> tenants_typed (filter P ts)"
  by (auto simp: tenants_typed_def intro: distinct_map_filter)

lemma owned_snoc: "owned t ms \<Longrightarrow> om_orgId m \<noteq> ot_id t \<or> om_role m \<noteq> Owner_Role \<and> om_userId m \<noteq> ot_ownerId t \<Longrightarrow> owned t (ms @ [m])"
  by (auto simp: owned_def)

lemma findMember_None: "findMember orgId u s = None \<Longrightarrow> (orgId, u) \<notin> (\<lambda>m. (om_orgId m, om_userId m)) ` set (og_members s)"
  by (auto simp: findMember_def find_None_iff)

lemma role_of_not_owner [simp]: "role_of r \<noteq> Owner_Role"
  by (cases r) auto

lemma org_by_id_in: "org_by_id orgId s = Some t \<Longrightarrow> t \<in> set (og_tenants s) \<and> ot_id t = orgId"
  by (auto simp: org_by_id_def find_Some_iff)

lemma org_by_id_unique:
  assumes "tenants_typed (og_tenants s)" "org_by_id orgId s = Some t" "r \<in> set (og_tenants s)" "ot_id r = orgId"
  shows "r = t"
proof -
  have "inj_on ot_id (set (og_tenants s))" using assms(1) by (simp add: tenants_typed_def distinct_map)
  then show ?thesis using assms(3,4) org_by_id_in[OF assms(2)] by (auto dest: inj_onD)
qed

definition orgs_inv :: "orgs \<Rightarrow> bool" where
  "orgs_inv s \<longleftrightarrow> orgs_typed s \<and> supplied s"

lemma inv_quiet:
  assumes "orgs_inv s" "quiet s s'"
  shows "orgs_inv s'"
proof -
  have "og_random s ` {..<og_drawn s} \<subseteq> og_random s ` {..<og_drawn s'}"
    using assms(2) by (intro image_mono) (auto simp: quiet_def)
  moreover have "om_id ` set (og_members s) \<subseteq> og_random s ` {..<og_drawn s}"
    using assms(1) by (simp add: orgs_inv_def supplied_def)
  ultimately have "om_id ` set (og_members s) \<subseteq> og_random s ` {..<og_drawn s'}" by (rule subset_trans[rotated])
  then show ?thesis
    using assms unfolding orgs_inv_def orgs_typed_def supplied_def quiet_def by simp
qed

lemma inv_owned: "orgs_inv s \<Longrightarrow> t \<in> set (og_tenants s) \<Longrightarrow> ot_type t = Org \<Longrightarrow> owned t (og_members s)"
  by (simp add: orgs_inv_def orgs_typed_def)

lemma inv_tenants: "orgs_inv s \<Longrightarrow> tenants_typed (og_tenants s)"
  by (simp add: orgs_inv_def orgs_typed_def)

text \<open>A row for a member who is no owner, or of a tenant that is no organisation.\<close>

lemma inv_add_member:
  assumes inv: "orgs_inv s" and org: "om_orgId m \<in> ot_id ` set (og_tenants s)"
    and id: "om_id m = og_random s (og_drawn s)"
    and own: "\<And>t. t \<in> set (og_tenants s) \<Longrightarrow> ot_type t = Org \<Longrightarrow> om_orgId m = ot_id t \<Longrightarrow>
      om_role m \<noteq> Owner_Role \<and> om_userId m \<noteq> ot_ownerId t"
  shows "orgs_inv (addMember m (drawn1 s))"
proof (cases "list_ex (\<lambda>r. om_id r = om_id m \<or> om_orgId r = om_orgId m \<and> om_userId r = om_userId m) (og_members s)")
  case True
  then have "addMember m (drawn1 s) = drawn1 s" by (simp add: addMember_def)
  then show ?thesis using inv_quiet[OF inv, of "drawn1 s"] by (simp add: quiet_def)
next
  case False
  then have s': "addMember m (drawn1 s) = s\<lparr>og_drawn := Suc (og_drawn s), og_members := og_members s @ [m]\<rparr>" by (simp add: addMember_def)
  have key: "om_id m \<notin> om_id ` set (og_members s)"
    "(om_orgId m, om_userId m) \<notin> (\<lambda>m. (om_orgId m, om_userId m)) ` set (og_members s)"
    using False by (auto simp: list_ex_iff)
  have "members_typed (ot_id ` set (og_tenants s)) (og_members s @ [m])"
    using inv org key by (intro members_typed_snoc) (auto simp: orgs_inv_def orgs_typed_def)
  moreover have "owned t (og_members s @ [m])" if "t \<in> set (og_tenants s)" "ot_type t = Org" for t
    using inv_owned[OF inv that] own[OF that] by (intro owned_snoc) auto
  moreover have "supplied (s\<lparr>og_drawn := Suc (og_drawn s), og_members := og_members s @ [m]\<rparr>)"
    using inv id by (auto simp: orgs_inv_def supplied_def)
  ultimately show ?thesis using inv s' by (simp add: orgs_inv_def orgs_typed_def)
qed

lemma typed_personal:
  assumes inv: "orgs_inv s" and u: "u \<notin> range (og_random s)" and t: "ot_id t = u" "ot_type t = Personal" "ot_slug t = None"
    and s1: "s1 = (if list_ex (\<lambda>r. ot_id r = u) (og_tenants s) then s else with_tenant t s)"
  shows "orgs_inv (addMember (drawn_member (og_drawn s) u u Owner_Role s) (drawn1 s1))"
proof -
  have inv1: "orgs_inv s1"
  proof (cases "list_ex (\<lambda>r. ot_id r = u) (og_tenants s)")
    case False
    then have "tenants_typed (og_tenants s @ [t])" using inv t by (intro tenants_typed_snoc) (auto simp: orgs_inv_def orgs_typed_def)
    moreover have "members_typed (ot_id ` set (og_tenants s @ [t])) (og_members s)" "invites_typed (ot_id ` set (og_tenants s @ [t])) (og_invites s)"
      using inv by (auto simp: orgs_inv_def orgs_typed_def intro: members_typed_mono invites_typed_mono)
    ultimately show ?thesis using inv False t by (auto simp: s1 orgs_inv_def orgs_typed_def supplied_def)
  qed (use inv s1 in simp)
  have same: "og_drawn s1 = og_drawn s" "og_random s1 = og_random s" using s1 by simp_all
  have "u \<in> ot_id ` set (og_tenants s1)"
    using t(1) by (cases "list_ex (\<lambda>r. ot_id r = u) (og_tenants s)") (auto simp: s1 list_ex_iff intro: rev_image_eqI)
  moreover have "ot_id r \<noteq> u" if "r \<in> set (og_tenants s1)" "ot_type r = Org" for r
    using inv1 that u same(2) by (auto simp: orgs_inv_def supplied_def)
  ultimately show ?thesis
    using same by (intro inv_add_member inv1) (auto simp: drawn_member_def new_member_def)
qed

lemma typed_accept:
  assumes inv: "orgs_inv s" and i: "usable_invite token s = Inr i" and none: "findMember (oi_orgId i) u s = None"
  shows "orgs_inv (markInviteAccepted (oi_id i) (addMember (drawn_member (og_drawn s) (oi_orgId i) u (role_of (oi_role i)) s) (drawn1 s)))"
proof -
  have "i \<in> set (og_invites s)"
    using i by (auto simp: usable_invite_def findInviteByToken_def find_Some_iff split: option.splits if_splits)
  then have org: "oi_orgId i \<in> ot_id ` set (og_tenants s)" using inv by (auto simp: orgs_inv_def orgs_typed_def invites_typed_def)
  have "u \<noteq> ot_ownerId t" if "t \<in> set (og_tenants s)" "ot_type t = Org" "ot_id t = oi_orgId i" for t
    using inv_owned[OF inv that(1,2)] findMember_None[OF none] that(3) by (force simp: owned_def)
  then have "orgs_inv (addMember (drawn_member (og_drawn s) (oi_orgId i) u (role_of (oi_role i)) s) (drawn1 s))" (is "orgs_inv ?s")
    using org by (intro inv_add_member inv) (auto simp: drawn_member_def new_member_def)
  then show ?thesis
    using invites_typed_accept[of _ "og_invites ?s"]
    by (auto simp: markInviteAccepted_def orgs_inv_def orgs_typed_def supplied_def)
qed

lemma typed_create:
  assumes inv: "orgs_inv s" and t: "ot_id t = og_random s (og_drawn s)" "ot_type t = Org" "ot_ownerId t = u" "\<not> tenant_clash t s"
  shows "orgs_inv (addMember (drawn_member (Suc (og_drawn s)) (ot_id t) u Owner_Role s) (drawn2 (with_tenant t s)))"
proof -
  let ?m = "drawn_member (Suc (og_drawn s)) (ot_id t) u Owner_Role s"
  have m: "om_orgId ?m = ot_id t" "om_userId ?m = u" "om_role ?m = Owner_Role" "om_id ?m = og_random s (Suc (og_drawn s))"
    by (simp_all add: drawn_member_def new_member_def)
  have new: "ot_id t \<notin> ot_id ` set (og_tenants s)" using t(4) by (auto simp: tenant_clash_def list_ex_iff)
  then have none: "\<forall>m \<in> set (og_members s). om_orgId m \<noteq> ot_id t"
    using inv by (metis orgs_inv_def member_orgs)
  have fresh: "og_random s (Suc (og_drawn s)) \<notin> om_id ` set (og_members s)"
    using inv by (intro fresh_supply) (auto simp: orgs_inv_def)
  then have "addMember ?m (drawn2 (with_tenant t s)) = s\<lparr>og_drawn := Suc (Suc (og_drawn s)), og_tenants := og_tenants s @ [t],
      og_members := og_members s @ [?m]\<rparr>" (is "_ = ?s'")
    using none m by (auto simp: addMember_def list_ex_iff image_iff)
  moreover have "tenants_typed (og_tenants s @ [t])"
    using inv t(4) by (intro tenants_typed_snoc) (auto simp: orgs_inv_def orgs_typed_def tenant_clash_def)
  moreover have "members_typed (ot_id ` set (og_tenants s @ [t])) (og_members s @ [?m])"
    using inv none fresh m by (intro members_typed_snoc) (auto simp: orgs_inv_def orgs_typed_def intro: members_typed_mono)
  moreover have "invites_typed (ot_id ` set (og_tenants s @ [t])) (og_invites s)"
    using inv by (auto simp: orgs_inv_def orgs_typed_def intro: invites_typed_mono)
  moreover have "owned t (og_members s @ [?m])" using none m t(3) by (auto simp: owned_def)
  moreover have "owned r (og_members s @ [?m])" if "r \<in> set (og_tenants s)" "ot_type r = Org" for r
    using inv_owned[OF inv that] m new that by (intro owned_snoc) auto
  moreover have "supplied ?s'" using inv t m by (auto simp: orgs_inv_def supplied_def)
  ultimately show ?thesis by (auto simp: orgs_inv_def orgs_typed_def)
qed

lemma patch_id [simp]: "ot_id (patch_org data t) = ot_id t" "ot_type (patch_org data t) = ot_type t"
    "ot_ownerId (patch_org data t) = ot_ownerId t"
  by (simp_all add: patch_org_def)

lemma owned_patch [simp]: "owned (patch_org data t) ms = owned t ms"
  by (simp add: owned_def)

lemma patch_slug: "ot_slug (patch_org data t) = (if op_slug data = None then ot_slug t else op_slug data)"
  by (auto simp: patch_org_def split: option.splits)

lemma typed_patch:
  assumes inv: "orgs_inv s"
    and free: "op_slug data \<noteq> None \<longrightarrow> \<not> list_ex (\<lambda>r. ot_id r \<noteq> orgId \<and> ot_slug r = op_slug data) (og_tenants s)"
  shows "orgs_inv (s\<lparr>og_tenants := map (\<lambda>r. if ot_id r = orgId then patch_org data r else r) (og_tenants s)\<rparr>)"
proof -
  let ?p = "\<lambda>r. if ot_id r = orgId then patch_org data r else r"
  let ?ts = "map ?p (og_tenants s)"
  have ids: "map ot_id ?ts = map ot_id (og_tenants s)" by (rule keys_update) simp
  have set: "ot_id ` set ?ts = ot_id ` set (og_tenants s)" by (rule image_update) simp
  have uniq: "ot_id r = ot_id x" if "x \<in> set (og_tenants s)" "r \<in> set (og_tenants s)" "ot_slug x \<noteq> None" "ot_slug r = ot_slug x" for x r
    using inv that unfolding orgs_inv_def orgs_typed_def tenants_typed_def by blast
  have step: "ot_id (?p r) = ot_id (?p x)" if x: "x \<in> set (og_tenants s)" and r: "r \<in> set (og_tenants s)"
    and s: "ot_slug (?p x) \<noteq> None" "ot_slug (?p r) = ot_slug (?p x)" for x r
  proof (cases "ot_id x = orgId \<longleftrightarrow> ot_id r = orgId")
    case True
    then consider "ot_id x = orgId" "ot_id r = orgId" | "?p x = x" "?p r = r" by auto
    then show ?thesis
    proof cases
      case 2
      then show ?thesis using uniq[OF x r] s by simp
    qed simp
  next
    case different: False
    show ?thesis
    proof (cases "op_slug data = None")
      case True
      then have "ot_slug (?p y) = ot_slug y" for y by (simp add: patch_slug)
      then have "ot_id r = ot_id x" using uniq[OF x r] s by metis
      then show ?thesis using different by simp
    next
      case False
      then obtain slug where slug: "op_slug data = Some slug" by blast
      have other: "ot_slug y \<noteq> Some slug" if "y \<in> set (og_tenants s)" "ot_id y \<noteq> orgId" for y
        using free that slug by (auto simp: list_ex_iff)
      show ?thesis
      proof (cases "ot_id x = orgId")
        case True
        then show ?thesis using other[OF r] different slug s(2) by (simp add: patch_slug)
      next
        case False
        then show ?thesis using other[OF x] different slug s(2) by (simp add: patch_slug)
      qed
    qed
  qed
  have "\<forall>y \<in> set ?ts. \<forall>z \<in> set ?ts. ot_slug y \<noteq> None \<longrightarrow> ot_slug z = ot_slug y \<longrightarrow> ot_id z = ot_id y"
  proof (intro ballI impI)
    fix y z
    assume y: "y \<in> set ?ts" and z: "z \<in> set ?ts" and sl: "ot_slug y \<noteq> None" "ot_slug z = ot_slug y"
    obtain x where x: "x \<in> set (og_tenants s)" "y = ?p x" using y unfolding list.set_map by blast
    obtain r where r: "r \<in> set (og_tenants s)" "z = ?p r" using z unfolding list.set_map by blast
    show "ot_id z = ot_id y" using step[OF x(1) r(1)] sl unfolding x(2) r(2) by blast
  qed
  moreover have "distinct (map ot_id ?ts)" unfolding ids using inv_tenants[OF inv] by (simp only: tenants_typed_def)
  ultimately have "tenants_typed ?ts" unfolding tenants_typed_def by blast
  moreover have "\<forall>t \<in> set ?ts. ot_type t = Org \<longrightarrow> owned t (og_members s) \<and> ot_id t \<in> range (og_random s)"
    using inv by (auto simp: orgs_inv_def orgs_typed_def supplied_def)
  ultimately show ?thesis using inv set unfolding orgs_inv_def orgs_typed_def supplied_def by simp
qed

lemma typed_delete:
  assumes inv: "orgs_inv s"
  shows "orgs_inv (delete_tenant orgId (deleteAllMembers orgId (deleteAllInvites orgId s)))"
proof -
  let ?ts = "filter (\<lambda>r. ot_id r \<noteq> orgId) (og_tenants s)" and ?ms = "filter (\<lambda>m. om_orgId m \<noteq> orgId) (og_members s)"
    and ?is = "filter (\<lambda>i. oi_orgId i \<noteq> orgId) (og_invites s)"
  have "tenants_typed ?ts" using inv by (intro tenants_typed_filter) (simp add: orgs_inv_def orgs_typed_def)
  moreover have "members_typed (ot_id ` set ?ts) ?ms"
    using inv members_typed_filter[of _ "og_members s"] by (auto simp: orgs_inv_def orgs_typed_def members_typed_def)
  moreover have "invites_typed (ot_id ` set ?ts) ?is"
    using inv invites_typed_filter[of _ "og_invites s"] by (auto simp: orgs_inv_def orgs_typed_def invites_typed_def)
  moreover have "owned t ?ms" if t: "t \<in> set ?ts" "ot_type t = Org" for t
  proof -
    have "t \<in> set (og_tenants s)" "ot_id t \<noteq> orgId" using t(1) by auto
    then show ?thesis using inv_owned[OF inv _ t(2)] unfolding owned_def by fastforce
  qed
  ultimately show ?thesis
    using inv by (auto simp: delete_tenant_def deleteAllMembers_def deleteAllInvites_def orgs_inv_def orgs_typed_def supplied_def)
qed

lemma typed_invite:
  assumes inv: "orgs_inv s" and org: "is_manager (oi_orgId i) u s"
    and key: "\<not> list_ex (\<lambda>r. oi_id r = oi_id i \<or> oi_token r = oi_token i) (og_invites s)"
  shows "orgs_inv (s\<lparr>og_drawn := Suc (Suc (og_drawn s)), og_invites := og_invites s @ [i]\<rparr>)"
proof -
  have "oi_orgId i \<in> ot_id ` set (og_tenants s)" using inv org manager_org by (simp add: orgs_inv_def)
  then have "invites_typed (ot_id ` set (og_tenants s)) (og_invites s @ [i])"
    using inv key by (auto simp: orgs_inv_def orgs_typed_def invites_typed_def list_ex_iff)
  moreover have "orgs_inv (drawn2 s)" using inv by (rule inv_quiet) (simp add: quiet_def)
  ultimately show ?thesis by (auto simp: orgs_inv_def orgs_typed_def supplied_def)
qed

lemma typed_revoke: "orgs_inv s \<Longrightarrow> orgs_inv (deleteInvite i s)"
  using invites_typed_filter[of _ "og_invites s"]
  by (auto simp: deleteInvite_def orgs_inv_def orgs_typed_def supplied_def)

text \<open>Members: a change of role or a removal that does not touch the owner's row.\<close>

lemma typed_role:
  assumes inv: "orgs_inv s" and t: "org_by_id orgId s = Some t" "ot_ownerId t \<noteq> v" and r: "r \<noteq> Owner_Role"
  shows "orgs_inv (updateMemberRole orgId v r s)"
proof -
  let ?P = "\<lambda>m. om_orgId m = orgId \<and> om_userId m = v"
  let ?ms = "map (\<lambda>m. if ?P m then m\<lparr>om_role := r\<rparr> else m) (og_members s)"
  have "members_typed (ot_id ` set (og_tenants s)) ?ms"
    using inv by (intro members_typed_role) (simp add: orgs_inv_def orgs_typed_def)
  moreover have "owned x ?ms" if x: "x \<in> set (og_tenants s)" "ot_type x = Org" for x
  proof -
    have "ot_ownerId x \<noteq> v" if "ot_id x = orgId"
      using org_by_id_unique[OF inv_tenants[OF inv] t(1) x(1) that] t(2) by simp
    then show ?thesis using inv_owned[OF inv x] r unfolding owned_def by (auto simp: image_iff)
  qed
  moreover have "om_id ` set ?ms = om_id ` set (og_members s)" by (rule image_update) simp
  ultimately show ?thesis using inv unfolding orgs_inv_def orgs_typed_def supplied_def updateMemberRole_def by simp
qed

lemma typed_remove:
  assumes inv: "orgs_inv s" and t: "org_by_id orgId s = Some t" "ot_ownerId t \<noteq> v"
  shows "orgs_inv (drop_member orgId v s)"
proof -
  let ?ms = "filter (\<lambda>m. \<not> (om_orgId m = orgId \<and> om_userId m = v)) (og_members s)"
  have "members_typed (ot_id ` set (og_tenants s)) ?ms"
    using inv by (intro members_typed_filter) (simp add: orgs_inv_def orgs_typed_def)
  moreover have "owned x ?ms" if x: "x \<in> set (og_tenants s)" "ot_type x = Org" for x
  proof -
    have "ot_ownerId x \<noteq> v" if "ot_id x = orgId"
      using org_by_id_unique[OF inv_tenants[OF inv] t(1) x(1) that] t(2) by simp
    then show ?thesis using inv_owned[OF inv x] unfolding owned_def by auto
  qed
  ultimately show ?thesis using inv unfolding orgs_inv_def orgs_typed_def supplied_def drop_member_def by auto
qed

lemma orgs_invI:
  assumes "tenants_typed ts" "members_typed (ot_id ` set ts) ms" "invites_typed (ot_id ` set ts) (og_invites s)" "inj (og_random s)"
    and "\<And>t. t \<in> set ts \<Longrightarrow> ot_type t = Org \<Longrightarrow> owned t ms" "om_id ` set ms \<subseteq> og_random s ` {..<og_drawn s}"
    and "\<forall>t \<in> set ts. ot_type t = Org \<longrightarrow> ot_id t \<in> range (og_random s)"
  shows "orgs_inv (s\<lparr>og_members := ms, og_tenants := ts\<rparr>)"
  using assms unfolding orgs_inv_def orgs_typed_def supplied_def by simp

lemma owned_map:
  assumes "\<And>z. om_orgId (h z) = om_orgId z" "\<And>z. om_userId (h z) = om_userId z"
  shows "owned t (map h ms) \<longleftrightarrow> (\<exists>m \<in> set ms. om_orgId m = ot_id t \<and> om_userId m = ot_ownerId t)
    \<and> (\<forall>m \<in> set ms. om_orgId m = ot_id t \<longrightarrow> (om_role (h m) = Owner_Role \<longleftrightarrow> om_userId m = ot_ownerId t))"
  by (simp add: owned_def assms)

lemma tenants_typed_same:
  assumes ts: "tenants_typed ts" and g: "\<And>r. ot_id (g r) = ot_id r" "\<And>r. ot_slug (g r) = ot_slug r"
  shows "tenants_typed (map (\<lambda>r. if P r then g r else r) ts)"
  unfolding tenants_typed_def
proof (intro conjI ballI impI)
  show "distinct (map ot_id (map (\<lambda>r. if P r then g r else r) ts))"
    using ts g(1) by (subst keys_update) (simp_all add: tenants_typed_def)
next
  fix x r
  assume x: "x \<in> set (map (\<lambda>r. if P r then g r else r) ts)" and r: "r \<in> set (map (\<lambda>r. if P r then g r else r) ts)"
    and s: "ot_slug x \<noteq> None" "ot_slug r = ot_slug x"
  have "\<exists>y \<in> set ts. ot_id y = ot_id z \<and> ot_slug y = ot_slug z" if z: "z \<in> set (map (\<lambda>r. if P r then g r else r) ts)" for z
  proof -
    obtain y where y: "y \<in> set ts" "z = (if P y then g y else y)" using z by auto
    then have "ot_id y = ot_id z" "ot_slug y = ot_slug z" using g by simp_all
    then show ?thesis using y(1) by blast
  qed
  then obtain x0 r0 where "x0 \<in> set ts" "ot_id x0 = ot_id x" "ot_slug x0 = ot_slug x" "r0 \<in> set ts" "ot_id r0 = ot_id r" "ot_slug r0 = ot_slug r"
    using x r by meson
  then show "ot_id r = ot_id x" using ts s unfolding tenants_typed_def by metis
qed

lemma typed_transfer:
  assumes inv: "orgs_inv s" and t: "org_by_id orgId s = Some t" "ot_ownerId t = u" and v: "findMember orgId v s = Some m" "u \<noteq> v"
  shows "orgs_inv (updateOwner orgId v (updateMemberRole orgId u Admin_Role (updateMemberRole orgId v Owner_Role s)))"
proof -
  let ?f = "\<lambda>m. if om_orgId m = orgId \<and> om_userId m = v then m\<lparr>om_role := Owner_Role\<rparr> else m"
  let ?g = "\<lambda>m. if om_orgId m = orgId \<and> om_userId m = u then m\<lparr>om_role := Admin_Role\<rparr> else m"
  let ?o = "\<lambda>r. if ot_id r = orgId then r\<lparr>ot_ownerId := v\<rparr> else r"
  let ?ms = "map ?g (map ?f (og_members s))" and ?ts = "map ?o (og_tenants s)"
  define h :: "org_member \<Rightarrow> org_member" where "h z = ?g (?f z)" for z
  have h: "om_orgId (h z) = om_orgId z" "om_userId (h z) = om_userId z" for z by (simp_all add: h_def)
  have ms: "?ms = map h (og_members s)" by (simp add: h_def)
  have set: "ot_id ` set ?ts = ot_id ` set (og_tenants s)" by (rule image_update) simp
  have "tenants_typed ?ts" by (rule tenants_typed_same[OF inv_tenants[OF inv]]) simp_all
  moreover have "members_typed (ot_id ` set ?ts) ?ms" unfolding set
    using inv by (intro members_typed_role) (simp add: orgs_inv_def orgs_typed_def)
  moreover have "owned (?o x) ?ms" if x: "x \<in> set (og_tenants s)" "ot_type x = Org" for x
  proof (cases "ot_id x = orgId")
    case True
    then have "x = t" using org_by_id_unique[OF inv_tenants[OF inv] t(1) x(1)] by simp
    moreover have "m \<in> set (og_members s)" "om_orgId m = orgId" "om_userId m = v"
      using v(1) by (auto simp: findMember_def find_Some_iff)
    moreover have "om_role (h z) = Owner_Role \<longleftrightarrow> om_userId z = v" if "z \<in> set (og_members s)" "om_orgId z = orgId" for z
      using inv_owned[OF inv x] calculation(1) that t(2) v(2) True unfolding owned_def h_def by (cases "om_userId z = v") auto
    ultimately show ?thesis using True unfolding ms owned_map[OF h] by auto
  next
    case False
    then have "om_role (h z) = om_role z" if "om_orgId z = ot_id x" for z using that by (auto simp: h_def)
    then show ?thesis using False inv_owned[OF inv x] unfolding ms owned_map[OF h] by (auto simp: owned_def)
  qed
  moreover have "om_id ` set ?ms = om_id ` set (og_members s)"
    by (subst image_update, simp, rule image_update) simp
  moreover have "\<forall>t \<in> set ?ts. ot_type t = Org \<longrightarrow> ot_id t \<in> range (og_random s)"
    using inv by (auto simp: orgs_inv_def supplied_def)
  moreover have "om_id ` set (og_members s) \<subseteq> og_random s ` {..<og_drawn s}" "inj (og_random s)"
      "invites_typed (ot_id ` set (og_tenants s)) (og_invites s)"
    using inv by (simp_all add: orgs_inv_def supplied_def orgs_typed_def)
  ultimately have "tenants_typed ?ts" "members_typed (ot_id ` set ?ts) ?ms" "invites_typed (ot_id ` set ?ts) (og_invites s)"
      "om_id ` set ?ms \<subseteq> og_random s ` {..<og_drawn s}" "inj (og_random s)"
      "\<forall>t \<in> set ?ts. ot_type t = Org \<longrightarrow> ot_id t \<in> range (og_random s)"
      and owned: "\<And>x. x \<in> set (og_tenants s) \<Longrightarrow> ot_type x = Org \<Longrightarrow> owned (?o x) ?ms"
    unfolding set by blast+
  moreover have "owned y ?ms" if y: "y \<in> set ?ts" "ot_type y = Org" for y
  proof -
    obtain x where x: "x \<in> set (og_tenants s)" "y = ?o x" using y(1) unfolding list.set_map by blast
    then have "ot_type x = Org" using y(2) by (cases "ot_id x = orgId") simp_all
    then show ?thesis using owned x by (simp only:)
  qed
  ultimately have "orgs_inv (s\<lparr>og_members := ?ms, og_tenants := ?ts\<rparr>)" by (intro orgs_invI) blast+
  then show ?thesis by (simp add: updateMemberRole_def updateOwner_def)
qed

lemma effect_inv:
  assumes eff: "org_effect x s s'" and inv: "orgs_inv s" and reg: "regular (og_random s) x"
  shows "orgs_inv s'"
  using eff inv reg
proof (cases rule: org_effect.cases)
  case (Changed orgId u t v role)
  then show ?thesis using typed_role[OF inv] by simp
next
  case (Personal s1 u t name)
  then show ?thesis using typed_personal[OF inv _ Personal(4-6) Personal(3)] reg by simp
qed (auto intro: inv_quiet typed_personal typed_create typed_patch typed_delete typed_invite typed_revoke
    typed_remove typed_transfer typed_accept)

lemma effect_random: "org_effect x s s' \<Longrightarrow> og_random s' = og_random s"
  by (induction rule: org_effect.induct)
    (auto simp: quiet_def delete_tenant_def deleteAllMembers_def deleteAllInvites_def deleteInvite_def updateMemberRole_def
      drop_member_def updateOwner_def markInviteAccepted_def)

lemma run_inv: "org_run opts s xs s' \<Longrightarrow> orgs_inv s \<Longrightarrow> \<forall>x \<in> set xs. regular (og_random s) x \<Longrightarrow> orgs_inv s'"
proof (induction rule: org_run.induct)
  case (Run_Step x s xs s')
  have "orgs_inv (org_exec opts x s)" using effect_inv[OF exec_effect Run_Step.prems(1)] Run_Step.prems(2) by simp
  then show ?case using Run_Step.IH Run_Step.prems(2) effect_random[OF exec_effect] by simp
qed simp

lemma run_foldl: "org_run opts s xs (foldl (\<lambda>s x. org_exec opts x s) s xs)"
  by (induction xs arbitrary: s) (auto intro: org_run.intros)

lemma start_inv: "inj random \<Longrightarrow> orgs_inv (orgs_start now random)"
  by (simp add: orgs_start_def orgs_inv_def orgs_typed_def supplied_def tenants_typed_def members_typed_def invites_typed_def)

lemma filter_key: "distinct (map k xs) \<Longrightarrow> x \<in> set xs \<Longrightarrow> filter (\<lambda>y. k y = k x) xs = [x]"
  by (induction xs) (auto simp: image_iff filter_empty_conv)

lemma one_owner:
  assumes "members_typed ids ms" "owned t ms"
  shows "map om_userId (filter (\<lambda>m. om_orgId m = ot_id t \<and> om_role m = Owner_Role) ms) = [ot_ownerId t]"
proof -
  obtain m where m: "m \<in> set ms" "om_orgId m = ot_id t" "om_userId m = ot_ownerId t" using assms(2) by (auto simp: owned_def)
  have "filter (\<lambda>z. om_orgId z = ot_id t \<and> om_role z = Owner_Role) ms
      = filter (\<lambda>z. (om_orgId z, om_userId z) = (om_orgId m, om_userId m)) ms"
    using assms(2) m by (intro filter_cong refl) (auto simp: owned_def)
  also have "\<dots> = [m]" using assms(1) m(1) by (intro filter_key) (simp_all add: members_typed_def)
  finally show ?thesis using m(3) by simp
qed

section \<open>Properties\<close>

text \<open>C32: The tables stay well typed. From empty tables, through any calls of the service by any users in
  any order, identifiers, slugs, tokens and the pairs of organisation and user stay keys, every member and
  invite belongs to a tenant of the table, and every team organisation has exactly one member with the
  owner's role: the user its row names as owner. (Users are not named by values of the random supply, which
  repeats none; an owner does not hand an organisation to itself; and the database that refuses an owner's
  row does not also refuse the compensating deletion.)\<close>

theorem orgs_well_typed:
  assumes "inj random" "org_run opts (orgs_start now random) xs s" "\<forall>x \<in> set xs. regular random x"
  shows "orgs_typed s \<and> (\<forall>t \<in> set (og_tenants s). ot_type t = Org \<longrightarrow>
    map om_userId (filter (\<lambda>m. om_orgId m = ot_id t \<and> om_role m = Owner_Role) (og_members s)) = [ot_ownerId t])"
proof -
  have "orgs_inv s" using run_inv[OF assms(2) start_inv[OF assms(1)]] assms(3) by (simp add: orgs_start_def)
  then have typed: "orgs_typed s" by (simp add: orgs_inv_def)
  then show ?thesis using one_owner unfolding orgs_typed_def by blast
qed

text \<open>Two users: one creates an organisation, invites the other as an admin and hands it over.\<close>

definition demo_random :: "nat \<Rightarrow> string" where
  "demo_random n = CHR ''r'' # replicate n (CHR ''0'')"

definition demo_options :: org_options where
  "demo_options = \<lparr>oo_beforeDelete = None, oo_users = None\<rparr>"

definition demo_ops :: "org_op list" where
  "demo_ops = [Get_Personal ''ann'' ''Ann'', Create_Org False False ''ann'' ''Acme  Works!'' None,
     Invite_Member ''r0'' ''ann'' ''bob@x.io'' As_Admin, Accept_Invite ''r000'' ''bob'',
     Transfer_Ownership ''r0'' ''ann'' ''bob'', Change_Role ''r0'' ''bob'' ''ann'' As_Member]"

definition demo_orgs :: orgs where
  "demo_orgs = foldl (\<lambda>s x. org_exec demo_options x s) (orgs_start 1000 demo_random) demo_ops"

lemma demo_random_inj: "inj demo_random"
  by (rule injI) (simp add: demo_random_def)

lemma demo_regular: "\<forall>x \<in> set demo_ops. regular demo_random x"
  by (auto simp: demo_ops_def demo_random_def)

lemma demo_orgs_tables:
  "map (\<lambda>t. (ot_id t, ot_slug t, ot_ownerId t)) (og_tenants demo_orgs) = [(''ann'', None, ''ann''), (''r0'', Some ''acme-works'', ''bob'')]
   \<and> map (\<lambda>m. (om_orgId m, om_userId m, om_role m)) (og_members demo_orgs)
     = [(''ann'', ''ann'', Owner_Role), (''r0'', ''ann'', Member_Role), (''r0'', ''bob'', Owner_Role)]"
  by code_simp

theorem orgs_well_typed_witness:
  "orgs_typed demo_orgs \<and> (\<exists>t \<in> set (og_tenants demo_orgs). ot_type t = Org \<and> ot_ownerId t = ''bob''
     \<and> map om_userId (filter (\<lambda>m. om_orgId m = ot_id t \<and> om_role m = Owner_Role) (og_members demo_orgs)) = [''bob''])"
proof -
  have typed: "orgs_typed demo_orgs" and owner: "\<forall>t \<in> set (og_tenants demo_orgs). ot_type t = Org \<longrightarrow>
    map om_userId (filter (\<lambda>m. om_orgId m = ot_id t \<and> om_role m = Owner_Role) (og_members demo_orgs)) = [ot_ownerId t]"
    using orgs_well_typed[OF demo_random_inj run_foldl[of demo_options "orgs_start 1000 demo_random" demo_ops, folded demo_orgs_def] demo_regular]
    by simp_all
  have "list_ex (\<lambda>t. ot_type t = Org \<and> ot_ownerId t = ''bob'') (og_tenants demo_orgs)" by code_simp
  then obtain t where "t \<in> set (og_tenants demo_orgs)" "ot_type t = Org" "ot_ownerId t = ''bob''" by (auto simp: list_ex_iff)
  then show ?thesis using typed owner by (intro conjI bexI[of _ t]) auto
qed

text \<open>Why the transfer to oneself is excluded: it leaves the organisation without an owner's row.\<close>

lemma self_transfer_loses_owner:
  "let s = foldl (\<lambda>s x. org_exec demo_options x s) (orgs_start 1000 demo_random)
       [Create_Org False False ''ann'' ''Acme'' None, Transfer_Ownership ''r'' ''ann'' ''ann''] in
   map ot_ownerId (og_tenants s) = [''ann''] \<and> map om_role (og_members s) = [Admin_Role]"
  by code_simp

text \<open>Who may manage an organisation: its owner, its admins, and the user whose personal tenant it is.\<close>

definition may_manage :: "string \<Rightarrow> string \<Rightarrow> orgs \<Rightarrow> bool" where
  "may_manage u orgId s \<longleftrightarrow> u = orgId \<or> is_manager orgId u s
     \<or> (case org_by_id orgId s of None \<Rightarrow> False | Some t \<Rightarrow> ot_ownerId t = u)"

text \<open>The invites of an organisation, without the mark of their acceptance.\<close>

definition invites_of :: "string \<Rightarrow> orgs \<Rightarrow> org_invite list" where
  "invites_of orgId s = map (\<lambda>i. i\<lparr>oi_acceptedAt := None\<rparr>) (filter (\<lambda>i. oi_orgId i = orgId) (og_invites s))"

lemma find_map_other:
  "(\<And>x. P (if Q x then g x else x) = P x) \<Longrightarrow> (\<And>x. P x \<Longrightarrow> \<not> Q x) \<Longrightarrow> find P (map (\<lambda>x. if Q x then g x else x) xs) = find P xs"
  by (induction xs) auto

lemma find_filter_other: "(\<And>x. P x \<Longrightarrow> Q x) \<Longrightarrow> find P (filter Q xs) = find P xs"
  by (induction xs) auto

lemma find_snoc: "find P (xs @ [x]) = (case find P xs of None \<Rightarrow> if P x then Some x else None | Some y \<Rightarrow> Some y)"
  by (induction xs) auto

lemma findMember_add:
  "findMember orgId v (addMember m s) = findMember orgId v s
   \<or> findMember orgId v s = None \<and> om_orgId m = orgId \<and> om_userId m = v \<and> findMember orgId v (addMember m s) = Some m"
  by (auto simp: findMember_def addMember_def find_snoc split: option.split)

lemma findMember_fields [simp]: "findMember orgId v (s\<lparr>og_drawn := n\<rparr>) = findMember orgId v s"
    "findMember orgId v (s\<lparr>og_tenants := ts\<rparr>) = findMember orgId v s" "findMember orgId v (s\<lparr>og_invites := is\<rparr>) = findMember orgId v s"
  by (simp_all add: findMember_def)

lemma findMember_mark [simp]: "findMember orgId v (markInviteAccepted i s) = findMember orgId v s"
    "org_by_id orgId (markInviteAccepted i s) = org_by_id orgId s"
  by (simp_all add: markInviteAccepted_def org_by_id_def)

lemma org_by_id_add [simp]: "org_by_id orgId (addMember m s) = org_by_id orgId s" "org_by_id orgId (s\<lparr>og_drawn := n\<rparr>) = org_by_id orgId s"
  by (simp_all add: org_by_id_def)

lemma invites_of_same [simp]: "invites_of orgId (addMember m s) = invites_of orgId s" "invites_of orgId (s\<lparr>og_drawn := n\<rparr>) = invites_of orgId s"
    "invites_of orgId (s\<lparr>og_tenants := ts\<rparr>) = invites_of orgId s"
  by (simp_all add: invites_of_def)

lemma invites_of_mark [simp]: "invites_of orgId (markInviteAccepted i s) = invites_of orgId s"
proof -
  have "map (\<lambda>i. i\<lparr>oi_acceptedAt := None\<rparr>) (filter (\<lambda>i. oi_orgId i = orgId) (map (\<lambda>r. if P r then r\<lparr>oi_acceptedAt := t\<rparr> else r) is))
      = map (\<lambda>i. i\<lparr>oi_acceptedAt := None\<rparr>) (filter (\<lambda>i. oi_orgId i = orgId) is)" for P t and "is" :: "org_invite list"
    by (induction "is") auto
  then show ?thesis by (simp add: invites_of_def markInviteAccepted_def)
qed

lemma invites_of_delete:
  assumes typed: "orgs_typed s" and r: "findInviteById i s = Some r" and other: "oi_orgId r \<noteq> orgId"
  shows "invites_of orgId (deleteInvite i s) = invites_of orgId s"
proof -
  have r: "r \<in> set (og_invites s)" "oi_id r = i" using r by (auto simp: findInviteById_def find_Some_iff)
  have "inj_on oi_id (set (og_invites s))" using typed by (simp add: orgs_typed_def invites_typed_def distinct_map)
  then have "oi_id x \<noteq> i" if "x \<in> set (og_invites s)" "oi_orgId x = orgId" for x using r other that by (auto dest: inj_onD)
  then have "filter (\<lambda>x. oi_orgId x = orgId) (filter (\<lambda>x. oi_id x \<noteq> i) (og_invites s)) = filter (\<lambda>x. oi_orgId x = orgId) (og_invites s)"
    by (induction "og_invites s" rule: rev_induct) (auto simp: filter_filter intro!: filter_cong)
  then show ?thesis by (simp add: invites_of_def deleteInvite_def)
qed

text \<open>What a step of somebody else's leaves of an organisation.\<close>

definition untouched :: "string \<Rightarrow> orgs \<Rightarrow> orgs \<Rightarrow> bool" where
  "untouched orgId s s' \<longleftrightarrow> org_by_id orgId s' = org_by_id orgId s \<and> (\<forall>v. findMember orgId v s' = findMember orgId v s)
     \<and> invites_of orgId s' = invites_of orgId s"

lemma untouched_intros:
  "quiet s s' \<Longrightarrow> untouched k s s'"
  "k \<noteq> orgId \<Longrightarrow> untouched k s (updateMemberRole orgId v r s)"
  "k \<noteq> orgId \<Longrightarrow> untouched k s (drop_member orgId v s)"
  "k \<noteq> orgId \<Longrightarrow> untouched k s (updateOwner orgId v s)"
  "k \<noteq> orgId \<Longrightarrow> untouched k s (s\<lparr>og_tenants := map (\<lambda>r. if ot_id r = orgId then patch_org data r else r) (og_tenants s)\<rparr>)"
  "k \<noteq> orgId \<Longrightarrow> untouched k s (delete_tenant orgId (deleteAllMembers orgId (deleteAllInvites orgId s)))"
  "k \<noteq> oi_orgId i \<Longrightarrow> untouched k s (s\<lparr>og_drawn := n, og_invites := og_invites s @ [i]\<rparr>)"
  "org_by_id k s \<noteq> None \<Longrightarrow> untouched k s (with_tenant t s)"
  "untouched k s (s\<lparr>og_drawn := n\<rparr>)"
  "k \<noteq> om_orgId m \<Longrightarrow> untouched k s (addMember m s)"
  by (auto simp: untouched_def quiet_def org_by_id_def findMember_def invites_of_def updateMemberRole_def drop_member_def
      updateOwner_def delete_tenant_def deleteAllMembers_def deleteAllInvites_def addMember_def find_snoc filter_filter
      intro!: find_map_other find_filter_other arg_cong[where f = "map _"] filter_cong split: option.splits)

lemma untouched_trans: "untouched k s t \<Longrightarrow> untouched k t u \<Longrightarrow> untouched k s u"
  by (simp add: untouched_def)

lemma effect_untouched:
  assumes eff: "org_effect x s s'" and typed: "orgs_typed s" and actor: "actor_of x = Some u"
    and no: "\<not> may_manage u k s" and known: "org_by_id k s \<noteq> None"
  shows "untouched k s s' \<or> (\<exists>token i. x = Accept_Invite token u \<and> usable_invite token s = Inr i \<and> oi_orgId i = k \<and> findMember k u s = None)"
proof -
  have manages: "k \<noteq> orgId" if "is_manager orgId u s" for orgId
    using that no by (auto simp: may_manage_def)
  have owns: "k \<noteq> orgId" if "org_by_id orgId s = Some t" "ot_ownerId t = u" for orgId t
    using that no by (auto simp: may_manage_def)
  show ?thesis
    using eff
  proof (cases rule: org_effect.cases)
    case (Personal s1 v t name)
    then have "om_orgId (drawn_member (og_drawn s) v v Owner_Role s) \<noteq> k"
      using actor no by (auto simp: may_manage_def drawn_member_def new_member_def)
    moreover have "untouched k s s1" unfolding Personal(3) using known untouched_intros(8) by (simp add: untouched_def)
    ultimately show ?thesis unfolding Personal(2) by (metis untouched_trans untouched_intros(9,10))
  next
    case (Created t v d name slug)
    then have "om_orgId (drawn_member (Suc (og_drawn s)) (ot_id t) v Owner_Role s) \<noteq> k"
      using known by (auto simp: drawn_member_def new_member_def tenant_clash_def org_by_id_def list_ex_iff find_None_iff)
    then show ?thesis unfolding Created(2) using untouched_intros(8)[OF known] by (metis untouched_trans untouched_intros(9,10))
  next
    case (Orphaned t v name slug)
    then show ?thesis using untouched_intros(8)[OF known] by (metis untouched_trans untouched_intros(9))
  next
    case (Revoked orgId v i r)
    then have "oi_orgId r \<noteq> k" using manages actor by auto
    then have "invites_of k (deleteInvite i s) = invites_of k s" using invites_of_delete[OF typed Revoked(4)] by blast
    then have "untouched k s (deleteInvite i s)" by (simp add: untouched_def deleteInvite_def org_by_id_def)
    then show ?thesis using Revoked(2) by simp
  next
    case (Accepted token i v)
    show ?thesis
    proof (cases "oi_orgId i = k")
      case False
      then have "k \<noteq> om_orgId (drawn_member (og_drawn s) (oi_orgId i) v (role_of (oi_role i)) s)"
        by (simp add: drawn_member_def new_member_def)
      then have "untouched k s (addMember (drawn_member (og_drawn s) (oi_orgId i) v (role_of (oi_role i)) s) (drawn1 s))"
        by (metis untouched_trans untouched_intros(9,10))
      then show ?thesis unfolding Accepted(2) by (simp add: untouched_def)
    qed (use Accepted actor in auto)
  next
    case (Transferred orgId t v w m)
    then have "k \<noteq> orgId" using owns actor by auto
    then show ?thesis unfolding Transferred(2) by (meson untouched_trans untouched_intros(2,4))
  qed (use actor manages owns in \<open>auto intro: untouched_intros\<close>)
qed

lemma accept_untouched:
  assumes "org_by_id k s = Some t"
  shows "org_by_id k (org_exec opts (Accept_Invite token u) s) = Some t
    \<and> (\<forall>v. v \<noteq> u \<longrightarrow> findMember k v (org_exec opts (Accept_Invite token u) s) = findMember k v s)
    \<and> invites_of k (org_exec opts (Accept_Invite token u) s) = invites_of k s"
  using exec_effect[of "Accept_Invite token u" s opts]
proof (cases rule: org_effect.cases)
  case Quiet
  then show ?thesis using assms by (simp add: quiet_def org_by_id_def findMember_def invites_of_def del: org_exec.simps)
next
  case (Accepted i)
  let ?m = "drawn_member (og_drawn s) (oi_orgId i) u (role_of (oi_role i)) s"
  have "findMember k v (addMember ?m (drawn1 s)) = findMember k v s" if "v \<noteq> u" for v
    using findMember_add[of k v ?m "drawn1 s"] that by (auto simp: drawn_member_def new_member_def)
  then show ?thesis unfolding Accepted(1) using assms by simp
qed

text \<open>C33: Only its managers change an organisation. A call by a user who is neither owner nor admin of an
  organisation (nor the user whose personal tenant it is) leaves the organisation's row, the membership and
  role of every other user, and its invites but for the mark of their acceptance. The caller's own
  membership changes only when the call accepts an invite of the organisation that is not accepted,
  revoked or expired and the caller is no member yet, and then the role is the one of the invite.\<close>

theorem orgs_authorised:
  assumes "orgs_typed s" "actor_of x = Some u" "\<not> may_manage u k s" "org_by_id k s = Some t" "s' = org_exec opts x s"
  shows "org_by_id k s' = Some t \<and> (\<forall>v. v \<noteq> u \<longrightarrow> findMember k v s' = findMember k v s) \<and> invites_of k s' = invites_of k s
    \<and> (findMember k u s' = findMember k u s
       \<or> (\<exists>token i m. x = Accept_Invite token u \<and> usable_invite token s = Inr i \<and> oi_orgId i = k \<and> findMember k u s = None
            \<and> findMember k u s' = Some m \<and> om_role m = role_of (oi_role i)))"
proof -
  have eff: "org_effect x s s'" using exec_effect assms(5) by simp
  consider "untouched k s s'" | token i where "x = Accept_Invite token u" "usable_invite token s = Inr i" "oi_orgId i = k" "findMember k u s = None"
    using effect_untouched[OF eff assms(1-3)] assms(4) by auto
  then show ?thesis
  proof cases
    case 1
    then show ?thesis using assms(4) by (simp add: untouched_def)
  next
    case 2
    let ?m = "drawn_member (og_drawn s) k u (role_of (oi_role i)) s"
    have "s' = markInviteAccepted (oi_id i) (addMember ?m (drawn1 s))"
      using 2 assms(5) by (simp add: acceptInvite_def service_simps)
    then have "findMember k u s' = None \<or> findMember k u s' = Some ?m"
      using findMember_add[of k u ?m "drawn1 s"] 2(4) by auto
    then show ?thesis
      using accept_untouched[OF assms(4), of opts token u] 2 assms(5)
      by (auto simp: drawn_member_def new_member_def simp del: org_exec.simps)
  qed
qed

text \<open>A stranger with an invite of the organisation: the one way in.\<close>

definition demo_invited :: orgs where
  "demo_invited = foldl (\<lambda>s x. org_exec demo_options x s) (orgs_start 1000 demo_random) (take 3 demo_ops)"

theorem orgs_authorised_witness:
  "let s' = org_exec demo_options (Accept_Invite ''r000'' ''bob'') demo_invited in
   (\<forall>v. v \<noteq> ''bob'' \<longrightarrow> findMember ''r0'' v s' = findMember ''r0'' v demo_invited)
   \<and> (\<exists>m. findMember ''r0'' ''bob'' s' = Some m \<and> om_role m = Admin_Role)"
proof -
  have "\<forall>x \<in> set (take 3 demo_ops). regular demo_random x" using demo_regular by (auto dest: in_set_takeD)
  then have "orgs_inv demo_invited"
    using run_inv[OF run_foldl[of demo_options "orgs_start 1000 demo_random" "take 3 demo_ops"] start_inv[OF demo_random_inj]]
    by (simp add: demo_invited_def orgs_start_def)
  then have typed: "orgs_typed demo_invited" by (simp add: orgs_inv_def)
  have no: "\<not> may_manage ''bob'' ''r0'' demo_invited" and known: "org_by_id ''r0'' demo_invited \<noteq> None"
    and role: "map_option om_role (findMember ''r0'' ''bob'' (org_exec demo_options (Accept_Invite ''r000'' ''bob'') demo_invited)) = Some Admin_Role"
    by code_simp+
  obtain t where t: "org_by_id ''r0'' demo_invited = Some t" using known by blast
  show ?thesis
    using orgs_authorised[OF typed _ no t refl, of "Accept_Invite ''r000'' ''bob''" demo_options] role
    by (auto simp: Let_def simp del: org_exec.simps)
qed

end
