(* ===== verification/Routing.thy ===== *)
theory Routing
  imports Proxy "HOL-Library.Product_Lexorder"
begin

text \<open>
  Which provider serves a request, and at what price: the price tables
  (\<open>src/admin/rates/rate-store.ts\<close>), the health overrides
  (\<open>src/monetization/drizzle-provider-health-repository.ts\<close>), the provider registry and the router
  (\<open>src/monetization/arbitrage/\<close>), and the adapter socket that checks the budget, calls an adapter and
  emits the meter event (\<open>src/monetization/socket/socket.ts\<close>). Adapters are parameters that answer each
  call from the calls made before; texts sort by their codes; writes of the health table succeed.
\<close>

section \<open>Tables\<close>

record sell_rate =
  sr_id :: uuid
  sr_capability :: string
  sr_displayName :: string
  sr_unit :: string
  sr_priceUsd :: rat
  sr_model :: "string option"
  sr_isActive :: bool
  sr_sortOrder :: int
  sr_createdAt :: int
  sr_updatedAt :: int

record provider_cost =
  pc_id :: uuid
  pc_capability :: string
  pc_adapter :: string
  pc_model :: "string option"
  pc_unit :: string
  pc_costUsd :: rat
  pc_priority :: int
  pc_latencyClass :: string
  pc_isActive :: bool
  pc_createdAt :: int
  pc_updatedAt :: int

record health_row =
  hr_adapter :: string
  hr_healthy :: bool
  hr_markedAt :: int

datatype provider_tier = Gpu | Hosted

datatype latency = Fast | Normal | Slow

record provider_entry =
  pe_capability :: string
  pe_adapter :: string
  pe_tier :: provider_tier
  pe_providerCost :: rat
  pe_costUnit :: string
  pe_healthy :: bool
  pe_priority :: int
  pe_latencyClass :: latency
  pe_enabled :: bool

record margin_record =
  mg_tenantId :: string
  mg_capability :: string
  mg_adapter :: string
  mg_tier :: provider_tier
  mg_providerCost :: credit
  mg_sellPrice :: credit
  mg_margin :: credit
  mg_marginPct :: rat
  mg_timestamp :: int

text \<open>The state: tables, the registry's cache, the calls of adapters made so far, the margin records.\<close>

record routing = gateway +
  rt_sellRates :: "sell_rate list"
  rt_costs :: "provider_cost list"
  rt_health :: "health_row list"
  rt_cache :: "(string \<times> provider_entry list) list"
  rt_lastRefresh :: int
  rt_calls :: "string list"
  rt_margins :: "margin_record list"

type_synonym 'a rt_act = "(routing, thrown, 'a) act"

definition plain_error :: "string \<Rightarrow> thrown" where
  "plain_error msg = \<lparr>th_message = msg, th_status = None\<rparr>"

definition quote :: "string \<Rightarrow> string" where
  "quote s = CHR 0x27 # s @ [CHR 0x27]"

section \<open>Sell rates\<close>

record sell_input =
  si_capability :: string
  si_displayName :: string
  si_unit :: string
  si_priceUsd :: rat
  si_model :: "string option"
  si_isActive :: "bool option"
  si_sortOrder :: "int option"

record sell_patch =
  sx_capability :: "string option"
  sx_displayName :: "string option"
  sx_unit :: "string option"
  sx_priceUsd :: "rat option"
  sx_model :: "string option option"
  sx_isActive :: "bool option"
  sx_sortOrder :: "int option"

definition or_else :: "'a option \<Rightarrow> 'a \<Rightarrow> 'a" where
  "or_else x d = (case x of None \<Rightarrow> d | Some a \<Rightarrow> a)"

text \<open>The unique index of a table does not compare null models.\<close>

definition sell_clash :: "sell_rate \<Rightarrow> sell_rate list \<Rightarrow> bool" where
  "sell_clash r rs \<longleftrightarrow> sr_model r \<noteq> None \<and>
     list_ex (\<lambda>x. sr_id x \<noteq> sr_id r \<and> sr_capability x = sr_capability r \<and> sr_model x = sr_model r) rs"

definition createSellRate :: "sell_input \<Rightarrow> sell_rate rt_act" where
  "createSellRate input s =
     (if \<not> truthy (si_model input) \<and> list_ex (\<lambda>r. sr_capability r = si_capability input \<and> sr_model r = None) (rt_sellRates s)
      then (Inl (plain_error (''A sell rate with capability '' @ quote (si_capability input) @ '' and NULL model already exists'')), s)
      else let r = \<lparr>sr_id = gw_uuid s, sr_capability = si_capability input, sr_displayName = si_displayName input,
             sr_unit = si_unit input, sr_priceUsd = si_priceUsd input, sr_model = si_model input,
             sr_isActive = or_else (si_isActive input) True, sr_sortOrder = or_else (si_sortOrder input) 0,
             sr_createdAt = gw_now s, sr_updatedAt = gw_now s\<rparr>; s' = s\<lparr>gw_uuid := gw_uuid s + 1\<rparr> in
        if sell_clash r (rt_sellRates s) then (Inl (plain_error ''duplicate key''), s')
        else (Inr r, s'\<lparr>rt_sellRates := rt_sellRates s @ [r]\<rparr>))"

definition getSellRate :: "uuid \<Rightarrow> routing \<Rightarrow> sell_rate option" where
  "getSellRate i s = find (\<lambda>r. sr_id r = i) (rt_sellRates s)"

definition patch_sell :: "sell_patch \<Rightarrow> int \<Rightarrow> sell_rate \<Rightarrow> sell_rate" where
  "patch_sell p now r = r\<lparr>sr_capability := or_else (sx_capability p) (sr_capability r),
     sr_displayName := or_else (sx_displayName p) (sr_displayName r), sr_unit := or_else (sx_unit p) (sr_unit r),
     sr_priceUsd := or_else (sx_priceUsd p) (sr_priceUsd r), sr_model := or_else (sx_model p) (sr_model r),
     sr_isActive := or_else (sx_isActive p) (sr_isActive r), sr_sortOrder := or_else (sx_sortOrder p) (sr_sortOrder r),
     sr_updatedAt := now\<rparr>"

definition updateSellRate :: "uuid \<Rightarrow> sell_patch \<Rightarrow> sell_rate rt_act" where
  "updateSellRate i p s = (case getSellRate i s of
     None \<Rightarrow> (Inl (plain_error (''Sell rate with id '' @ quote (decimal i) @ '' not found'')), s)
   | Some r \<Rightarrow>
       let cap = or_else (sx_capability p) (sr_capability r); r' = patch_sell p (gw_now s) r in
       if (case sx_model p of None \<Rightarrow> False | Some m \<Rightarrow> \<not> truthy m)
          \<and> list_ex (\<lambda>x. sr_capability x = cap \<and> sr_model x = None \<and> sr_id x \<noteq> i) (rt_sellRates s)
       then (Inl (plain_error (''A sell rate with capability '' @ quote cap @ '' and NULL model already exists'')), s)
       else if sell_clash r' (rt_sellRates s) then (Inl (plain_error ''duplicate key''), s)
       else (Inr r', s\<lparr>rt_sellRates := map (\<lambda>x. if sr_id x = i then patch_sell p (gw_now s) x else x) (rt_sellRates s)\<rparr>))"

definition deleteSellRate :: "uuid \<Rightarrow> routing \<Rightarrow> bool \<times> routing" where
  "deleteSellRate i s = (list_ex (\<lambda>r. sr_id r = i) (rt_sellRates s),
     s\<lparr>rt_sellRates := filter (\<lambda>r. sr_id r \<noteq> i) (rt_sellRates s)\<rparr>)"

definition first_row :: "'a list \<Rightarrow> 'a option" where
  "first_row xs = (case xs of [] \<Rightarrow> None | x # _ \<Rightarrow> Some x)"

definition getSellRateByModel :: "string \<Rightarrow> string \<Rightarrow> string option \<Rightarrow> routing \<Rightarrow> sell_rate option" where
  "getSellRateByModel capability model u s = first_row (sort_key (\<lambda>r. (sr_sortOrder r, sr_createdAt r))
     (filter (\<lambda>r. sr_capability r = capability \<and> sr_model r = Some model \<and> sr_isActive r
        \<and> (case u of None \<Rightarrow> True | Some x \<Rightarrow> sr_unit r = x)) (rt_sellRates s)))"

text \<open>Filters and pages of a listing: a missing limit is 50, and none goes beyond 250.\<close>

record rate_filters =
  rf_capability :: "string option"
  rf_adapter :: "string option"
  rf_isActive :: "bool option"
  rf_limit :: "nat option"
  rf_offset :: "nat option"

definition MAX_LIMIT :: nat where
  "MAX_LIMIT = 250"

definition DEFAULT_LIMIT :: nat where
  "DEFAULT_LIMIT = 50"

definition page :: "rate_filters \<Rightarrow> 'a list \<Rightarrow> 'a list" where
  "page f rows = take (min (or_else (rf_limit f) DEFAULT_LIMIT) MAX_LIMIT) (drop (or_else (rf_offset f) 0) rows)"

definition wanted :: "'a option \<Rightarrow> 'a \<Rightarrow> bool" where
  "wanted w x \<longleftrightarrow> (case w of None \<Rightarrow> True | Some y \<Rightarrow> x = y)"

definition wanted_text :: "string option \<Rightarrow> string \<Rightarrow> bool" where
  "wanted_text w x \<longleftrightarrow> \<not> truthy w \<or> Some x = w"

definition sell_order :: "sell_rate \<Rightarrow> string \<times> int \<times> string" where
  "sell_order r = (sr_capability r, sr_sortOrder r, sr_displayName r)"

definition listSellRates :: "rate_filters \<Rightarrow> routing \<Rightarrow> sell_rate list \<times> nat" where
  "listSellRates f s =
     (let rows = filter (\<lambda>r. wanted_text (rf_capability f) (sr_capability r) \<and> wanted (rf_isActive f) (sr_isActive r)) (rt_sellRates s)
      in (page f (sort_key sell_order rows), length rows))"

definition listPublicRates :: "routing \<Rightarrow> sell_rate list" where
  "listPublicRates s = sort_key sell_order (filter sr_isActive (rt_sellRates s))"

section \<open>Provider costs\<close>

record cost_input =
  ci_capability :: string
  ci_adapter :: string
  ci_model :: "string option"
  ci_unit :: string
  ci_costUsd :: rat
  ci_priority :: "int option"
  ci_latencyClass :: "string option"
  ci_isActive :: "bool option"

record cost_patch =
  cx_capability :: "string option"
  cx_adapter :: "string option"
  cx_model :: "string option option"
  cx_unit :: "string option"
  cx_costUsd :: "rat option"
  cx_priority :: "int option"
  cx_latencyClass :: "string option"
  cx_isActive :: "bool option"

definition cost_clash :: "provider_cost \<Rightarrow> provider_cost list \<Rightarrow> bool" where
  "cost_clash r rs \<longleftrightarrow> pc_model r \<noteq> None \<and>
     list_ex (\<lambda>x. pc_id x \<noteq> pc_id r \<and> pc_capability x = pc_capability r \<and> pc_adapter x = pc_adapter r \<and> pc_model x = pc_model r) rs"

definition null_cost_exists :: "string \<Rightarrow> string \<Rightarrow> thrown" where
  "null_cost_exists capability adapter = plain_error (''A provider cost with capability '' @ quote capability @ '', adapter ''
     @ quote adapter @ '', and NULL model already exists'')"

definition createProviderCost :: "cost_input \<Rightarrow> provider_cost rt_act" where
  "createProviderCost input s =
     (if \<not> truthy (ci_model input)
         \<and> list_ex (\<lambda>r. pc_capability r = ci_capability input \<and> pc_adapter r = ci_adapter input \<and> pc_model r = None) (rt_costs s)
      then (Inl (null_cost_exists (ci_capability input) (ci_adapter input)), s)
      else let r = \<lparr>pc_id = gw_uuid s, pc_capability = ci_capability input, pc_adapter = ci_adapter input, pc_model = ci_model input,
             pc_unit = ci_unit input, pc_costUsd = ci_costUsd input, pc_priority = or_else (ci_priority input) 0,
             pc_latencyClass = or_else (ci_latencyClass input) ''standard'', pc_isActive = or_else (ci_isActive input) True,
             pc_createdAt = gw_now s, pc_updatedAt = gw_now s\<rparr>; s' = s\<lparr>gw_uuid := gw_uuid s + 1\<rparr> in
        if cost_clash r (rt_costs s) then (Inl (plain_error ''duplicate key''), s')
        else (Inr r, s'\<lparr>rt_costs := rt_costs s @ [r]\<rparr>))"

definition getProviderCost :: "uuid \<Rightarrow> routing \<Rightarrow> provider_cost option" where
  "getProviderCost i s = find (\<lambda>r. pc_id r = i) (rt_costs s)"

definition patch_cost :: "cost_patch \<Rightarrow> int \<Rightarrow> provider_cost \<Rightarrow> provider_cost" where
  "patch_cost p now r = r\<lparr>pc_capability := or_else (cx_capability p) (pc_capability r), pc_adapter := or_else (cx_adapter p) (pc_adapter r),
     pc_model := or_else (cx_model p) (pc_model r), pc_unit := or_else (cx_unit p) (pc_unit r),
     pc_costUsd := or_else (cx_costUsd p) (pc_costUsd r), pc_priority := or_else (cx_priority p) (pc_priority r),
     pc_latencyClass := or_else (cx_latencyClass p) (pc_latencyClass r), pc_isActive := or_else (cx_isActive p) (pc_isActive r),
     pc_updatedAt := now\<rparr>"

definition updateProviderCost :: "uuid \<Rightarrow> cost_patch \<Rightarrow> provider_cost rt_act" where
  "updateProviderCost i p s = (case getProviderCost i s of
     None \<Rightarrow> (Inl (plain_error (''Provider cost with id '' @ quote (decimal i) @ '' not found'')), s)
   | Some r \<Rightarrow>
       let cap = or_else (cx_capability p) (pc_capability r); ad = or_else (cx_adapter p) (pc_adapter r);
           r' = patch_cost p (gw_now s) r in
       if (case cx_model p of None \<Rightarrow> False | Some m \<Rightarrow> \<not> truthy m)
          \<and> list_ex (\<lambda>x. pc_capability x = cap \<and> pc_adapter x = ad \<and> pc_model x = None \<and> pc_id x \<noteq> i) (rt_costs s)
       then (Inl (null_cost_exists cap ad), s)
       else if cost_clash r' (rt_costs s) then (Inl (plain_error ''duplicate key''), s)
       else (Inr r', s\<lparr>rt_costs := map (\<lambda>x. if pc_id x = i then patch_cost p (gw_now s) x else x) (rt_costs s)\<rparr>))"

definition deleteProviderCost :: "uuid \<Rightarrow> routing \<Rightarrow> bool \<times> routing" where
  "deleteProviderCost i s = (list_ex (\<lambda>r. pc_id r = i) (rt_costs s), s\<lparr>rt_costs := filter (\<lambda>r. pc_id r \<noteq> i) (rt_costs s)\<rparr>)"

definition listProviderCosts :: "rate_filters \<Rightarrow> routing \<Rightarrow> provider_cost list \<times> nat" where
  "listProviderCosts f s =
     (let rows = filter (\<lambda>r. wanted_text (rf_capability f) (pc_capability r) \<and> wanted_text (rf_adapter f) (pc_adapter r)
            \<and> wanted (rf_isActive f) (pc_isActive r)) (rt_costs s)
      in (page f (sort_key (\<lambda>r. (pc_capability r, pc_priority r, pc_adapter r)) rows), length rows))"

text \<open>The report of margins: the best one takes the cheapest cost of the capability.\<close>

record margin_report =
  rp_capability :: string
  rp_sellRate :: sell_rate
  rp_providerCosts :: "provider_cost list"
  rp_bestMarginPct :: rat

definition report_row :: "routing \<Rightarrow> sell_rate \<Rightarrow> margin_report" where
  "report_row s sr =
     (let costs = sort_key (\<lambda>r. (pc_priority r, pc_costUsd r)) (filter (\<lambda>r. pc_capability r = sr_capability sr) (rt_costs s));
          minCost = (if costs = [] then 0 else foldr min (map pc_costUsd (tl costs)) (pc_costUsd (hd costs)));
          pct = (if 0 < sr_priceUsd sr then js_mul (js_div (js_sub (sr_priceUsd sr) minCost) (sr_priceUsd sr)) 100 else 0)
      in \<lparr>rp_capability = sr_capability sr, rp_sellRate = sr, rp_providerCosts = costs, rp_bestMarginPct = pct\<rparr>)"

definition getMarginReport :: "string option \<Rightarrow> routing \<Rightarrow> margin_report list" where
  "getMarginReport capability s = map (report_row s) (sort_key (\<lambda>r. (sr_capability r, sr_sortOrder r))
     (filter (\<lambda>r. wanted_text capability (sr_capability r)) (rt_sellRates s)))"

section \<open>Health of the providers\<close>

definition health_get :: "string \<Rightarrow> routing \<Rightarrow> health_row option" where
  "health_get adapter s = find (\<lambda>h. hr_adapter h = adapter) (rt_health s)"

definition health_getAll :: "routing \<Rightarrow> health_row list" where
  "health_getAll s = rt_health s"

definition markUnhealthy :: "string \<Rightarrow> routing \<Rightarrow> routing" where
  "markUnhealthy adapter s = s\<lparr>rt_health :=
     (if list_ex (\<lambda>h. hr_adapter h = adapter) (rt_health s)
      then map (\<lambda>h. if hr_adapter h = adapter then h\<lparr>hr_healthy := False, hr_markedAt := gw_now s\<rparr> else h) (rt_health s)
      else rt_health s @ [\<lparr>hr_adapter = adapter, hr_healthy = False, hr_markedAt = gw_now s\<rparr>])\<rparr>"

definition markHealthy :: "string \<Rightarrow> routing \<Rightarrow> routing" where
  "markHealthy adapter s = s\<lparr>rt_health := filter (\<lambda>h. hr_adapter h \<noteq> adapter) (rt_health s)\<rparr>"

definition health_purgeExpired :: "int \<Rightarrow> routing \<Rightarrow> nat \<times> routing" where
  "health_purgeExpired ttl s =
     (let old = (\<lambda>h. hr_markedAt h < gw_now s - ttl)
      in (length (filter old (rt_health s)), s\<lparr>rt_health := filter (\<lambda>h. \<not> old h) (rt_health s)\<rparr>))"

section \<open>Registry\<close>

record registry_config =
  rc_cacheTtlMs :: int
  rc_unhealthyTtlMs :: int

definition registry_config_of :: "int option \<Rightarrow> int option \<Rightarrow> registry_config" where
  "registry_config_of cache unhealthy = \<lparr>rc_cacheTtlMs = or_else cache 30000, rc_unhealthyTtlMs = or_else unhealthy 60000\<rparr>"

definition GPU_ADAPTER_NAMES :: "string list" where
  "GPU_ADAPTER_NAMES = [''chatterbox-tts'', ''self-hosted-llm'', ''self-hosted-whisper'', ''self-hosted-embeddings'', ''self-hosted-sdxl'']"

definition tier_of :: "string \<Rightarrow> provider_tier" where
  "tier_of adapter = (if adapter \<in> set GPU_ADAPTER_NAMES \<or> prefix ''self-hosted-'' adapter then Gpu else Hosted)"

definition latency_of :: "string \<Rightarrow> latency" where
  "latency_of c = (if c = ''fast'' then Fast else if c = ''batch'' then Slow else Normal)"

definition cost_entry :: "provider_cost \<Rightarrow> provider_entry" where
  "cost_entry r = \<lparr>pe_capability = pc_capability r, pe_adapter = pc_adapter r, pe_tier = tier_of (pc_adapter r),
     pe_providerCost = pc_costUsd r, pe_costUnit = pc_unit r, pe_healthy = True, pe_priority = pc_priority r,
     pe_latencyClass = latency_of (pc_latencyClass r), pe_enabled = pc_isActive r\<rparr>"

fun provider_rank :: "provider_tier \<Rightarrow> int" where
  "provider_rank Gpu = 0"
| "provider_rank Hosted = 1"

fun latency_rank :: "latency \<Rightarrow> int" where
  "latency_rank Fast = 0"
| "latency_rank Normal = 1"
| "latency_rank Slow = 2"

definition cost_key :: "provider_entry \<Rightarrow> rat \<times> int" where
  "cost_key e = (pe_providerCost e, pe_priority e)"

definition registry_order :: "provider_entry \<Rightarrow> int \<times> rat \<times> int" where
  "registry_order e = (provider_rank (pe_tier e), cost_key e)"

text \<open>Grouped by capability in the order of the listing, each group sorted (the sort is stable).\<close>

definition refresh :: "routing \<Rightarrow> routing" where
  "refresh s =
     (let rows = fst (listProviderCosts \<lparr>rf_capability = None, rf_adapter = None, rf_isActive = Some True,
            rf_limit = Some 250, rf_offset = None\<rparr> s)
      in s\<lparr>rt_cache := map (\<lambda>cap. (cap, sort_key registry_order (map cost_entry (filter (\<lambda>r. pc_capability r = cap) rows))))
             (js_set (map pc_capability rows)), rt_lastRefresh := gw_now s\<rparr>)"

text \<open>An override that is too old is removed, and the entry is healthy again.\<close>

definition override_expired :: "registry_config \<Rightarrow> int \<Rightarrow> health_row \<Rightarrow> bool" where
  "override_expired cfg now h \<longleftrightarrow> \<not> hr_healthy h \<and> now - hr_markedAt h > rc_unhealthyTtlMs cfg"

definition overlay :: "registry_config \<Rightarrow> routing \<Rightarrow> provider_entry \<Rightarrow> provider_entry" where
  "overlay cfg s e = (case health_get (pe_adapter e) s of
     None \<Rightarrow> e
   | Some h \<Rightarrow> if override_expired cfg (gw_now s) h then e else e\<lparr>pe_healthy := hr_healthy h\<rparr>)"

definition getProviders :: "registry_config \<Rightarrow> string \<Rightarrow> routing \<Rightarrow> provider_entry list \<times> routing" where
  "getProviders cfg capability s =
     (let s1 = (if gw_now s - rt_lastRefresh s > rc_cacheTtlMs cfg then refresh s else s);
          entries = or_else (map_of (rt_cache s1) capability) [];
          expired = filter (\<lambda>e. case health_get (pe_adapter e) s1 of None \<Rightarrow> False | Some h \<Rightarrow> override_expired cfg (gw_now s) h) entries
      in (map (overlay cfg s1) entries, foldl (\<lambda>s e. markHealthy (pe_adapter e) s) s1 expired))"

section \<open>Adapters\<close>

text \<open>
  An adapter: its name, the capabilities it announces and its methods, each a function of the calls
  made before and of the input. The error of a call carries the HTTP status the code looks at.
\<close>

record adapter_result =
  as_result :: json
  as_cost :: credit
  as_charge :: "credit option"

record adapter =
  ad_name :: string
  ad_capabilities :: "string list"
  ad_selfHosted :: bool
  ad_method :: "string \<Rightarrow> (string list \<Rightarrow> json \<Rightarrow> thrown + adapter_result) option"

definition CAPABILITY_METHOD :: "string \<Rightarrow> string option" where
  "CAPABILITY_METHOD = map_of [(''transcription'', ''transcribe''), (''image-generation'', ''generateImage''),
     (''text-generation'', ''generateText''), (''tts'', ''synthesizeSpeech''), (''embeddings'', ''embed'')]"

definition adapter_fn :: "adapter \<Rightarrow> string \<Rightarrow> (string list \<Rightarrow> json \<Rightarrow> thrown + adapter_result) option" where
  "adapter_fn a capability = (case CAPABILITY_METHOD capability of None \<Rightarrow> None | Some m \<Rightarrow> ad_method a m)"

text \<open>A map of adapters by name: \<open>set\<close> replaces in place, or appends.\<close>

type_synonym adapters = "(string \<times> adapter) list"

definition registerAdapter :: "adapter \<Rightarrow> adapters \<Rightarrow> adapters" where
  "registerAdapter a m = AList.update (ad_name a) a m"

text \<open>A call: the name of the adapter is logged, and the answer depends on the calls before.\<close>

definition call_adapter :: "string \<Rightarrow> (string list \<Rightarrow> json \<Rightarrow> thrown + adapter_result) \<Rightarrow> json \<Rightarrow> adapter_result rt_act" where
  "call_adapter name fn input s = (fn (rt_calls s) input, s\<lparr>rt_calls := rt_calls s @ [name]\<rparr>)"

section \<open>Router\<close>

datatype decision_reason = Gpu_Cheapest | Hosted_Cheapest

record decision =
  dc_provider :: provider_entry
  dc_candidates :: "provider_entry list"
  dc_reason :: decision_reason

record router =
  ro_registry :: registry_config
  ro_adapters :: adapters
  ro_onMarginRecord :: bool
  ro_preferLowLatency :: bool

definition no_provider :: "string \<Rightarrow> thrown" where
  "no_provider capability = \<lparr>th_message = ''No provider available for capability \"'' @ capability @ ''\"'', th_status = Some 503\<rparr>"

definition preference :: "bool \<Rightarrow> provider_entry \<Rightarrow> int \<times> rat \<times> int" where
  "preference low e = (if low then latency_rank (pe_latencyClass e) else 0, cost_key e)"

definition usable :: "provider_entry \<Rightarrow> bool" where
  "usable e \<longleftrightarrow> pe_enabled e \<and> pe_healthy e"

definition of_tier :: "provider_tier \<Rightarrow> provider_entry list \<Rightarrow> provider_entry list" where
  "of_tier t es = filter (\<lambda>e. pe_tier e = t) es"

definition selectProvider :: "router \<Rightarrow> string \<Rightarrow> decision rt_act" where
  "selectProvider r capability s =
     (let (found, s') = getProviders (ro_registry r) capability s; candidates = filter usable found in
      (case sort_key (preference (ro_preferLowLatency r)) (of_tier Gpu candidates) of
         p # _ \<Rightarrow> Inr \<lparr>dc_provider = p, dc_candidates = candidates, dc_reason = Gpu_Cheapest\<rparr>
       | [] \<Rightarrow> (case sort_key (preference (ro_preferLowLatency r)) (of_tier Hosted candidates) of
           p # _ \<Rightarrow> Inr \<lparr>dc_provider = p, dc_candidates = candidates, dc_reason = Hosted_Cheapest\<rparr>
         | [] \<Rightarrow> Inl (no_provider capability)), s'))"

definition remaining :: "provider_tier \<Rightarrow> decision \<Rightarrow> provider_entry list" where
  "remaining t d = sort_key cost_key
     (filter (\<lambda>e. pe_tier e = t \<and> pe_adapter e \<noteq> pe_adapter (dc_provider d)) (filter usable (dc_candidates d)))"

definition buildFailoverChain :: "decision \<Rightarrow> provider_entry list" where
  "buildFailoverChain d = dc_provider d # remaining Gpu d @ remaining Hosted d"

record route_request =
  rq_capability :: string
  rq_tenantId :: string
  rq_input :: json
  rq_sellPrice :: "credit option"

definition server_error :: "thrown \<Rightarrow> bool" where
  "server_error e \<longleftrightarrow> (case th_status e of None \<Rightarrow> False | Some n \<Rightarrow> 500 \<le> n \<and> n < 600)"

definition margin_pct :: "credit \<Rightarrow> credit \<Rightarrow> rat" where
  "margin_pct margin sell =
     (if 0 < toRaw sell then js_mul (js_div (of_int (toRaw margin)) (of_int (toRaw sell))) 100 else 0)"

text \<open>The margin of a served request; a difference out of range is thrown (and is no server error).\<close>

definition track_margin :: "router \<Rightarrow> route_request \<Rightarrow> provider_entry \<Rightarrow> credit \<Rightarrow> unit rt_act" where
  "track_margin r q e cost s = (case rq_sellPrice q of
     None \<Rightarrow> (Inr (), s)
   | Some sell \<Rightarrow>
       if \<not> ro_onMarginRecord r then (Inr (), s)
       else (case subtract sell cost of
           Inl _ \<Rightarrow> (Inl (plain_error ''Credit.subtract overflow''), s)
         | Inr margin \<Rightarrow> (Inr (), s\<lparr>rt_margins := rt_margins s @ [\<lparr>mg_tenantId = rq_tenantId q,
             mg_capability = rq_capability q, mg_adapter = pe_adapter e, mg_tier = pe_tier e, mg_providerCost = cost,
             mg_sellPrice = sell, mg_margin = margin, mg_marginPct = margin_pct margin sell, mg_timestamp = gw_now s\<rparr>]\<rparr>)))"

definition callable :: "router \<Rightarrow> string \<Rightarrow> provider_entry \<Rightarrow> (string list \<Rightarrow> json \<Rightarrow> thrown + adapter_result) option" where
  "callable r capability e = (case map_of (ro_adapters r) (pe_adapter e) of None \<Rightarrow> None | Some a \<Rightarrow> adapter_fn a capability)"

primrec try_chain :: "router \<Rightarrow> route_request \<Rightarrow> provider_entry list \<Rightarrow> (adapter_result \<times> string) rt_act" where
  "try_chain r q [] = athrow (no_provider (rq_capability q))"
| "try_chain r q (e # es) = (case callable r (rq_capability q) e of
     None \<Rightarrow> try_chain r q es
   | Some fn \<Rightarrow> acatch
       (abind (call_adapter (pe_adapter e) fn (rq_input q)) (\<lambda>a.
        abind (amodify (markHealthy (pe_adapter e))) (\<lambda>_.
        abind (track_margin r q e (as_cost a)) (\<lambda>_. areturn (a, pe_adapter e)))))
       (\<lambda>err. if server_error err then abind (amodify (markUnhealthy (pe_adapter e))) (\<lambda>_. try_chain r q es)
          else athrow err))"

definition route :: "router \<Rightarrow> route_request \<Rightarrow> (adapter_result \<times> string) rt_act" where
  "route r q = abind (selectProvider r (rq_capability q)) (\<lambda>d. try_chain r q (buildFailoverChain d))"

section \<open>Socket\<close>

record socket =
  so_batchSize :: nat
  so_budgetChecker :: bool
  so_budgetCache :: "string \<Rightarrow> (rat \<times> rat) option"
  so_dbOk :: bool
  so_defaultMargin :: rat
  so_adapters :: adapters
  so_router :: "router option"

text \<open>Registration reaches the router as well.\<close>

definition socket_register :: "adapter \<Rightarrow> socket \<Rightarrow> socket" where
  "socket_register a k = k\<lparr>so_adapters := registerAdapter a (so_adapters k),
     so_router := map_option (\<lambda>r. r\<lparr>ro_adapters := registerAdapter a (ro_adapters r)\<rparr>) (so_router k)\<rparr>"

datatype pricing_tier = Standard | Premium

record socket_request =
  sq_tenantId :: string
  sq_capability :: string
  sq_input :: json
  sq_adapter :: "string option"
  sq_margin :: "rat option"
  sq_sessionId :: "string option"
  sq_byok :: bool
  sq_spendLimits :: "spend_limits option"
  sq_pricingTier :: "pricing_tier option"

definition text_quote :: "string \<Rightarrow> string" where
  "text_quote s = ''\"'' @ s @ ''\"''"

definition budget_gate :: "socket \<Rightarrow> socket_request \<Rightarrow> unit rt_act" where
  "budget_gate k q = aquery (\<lambda>s. case sq_spendLimits q of
     None \<Rightarrow> Inr ()
   | Some limits \<Rightarrow>
       if \<not> so_budgetChecker k \<or> sq_byok q then Inr ()
       else (let b = fst (budget_check (sq_tenantId q) limits (so_budgetCache k (sq_tenantId q)) (so_dbOk k) (gw_now s)
                  (gw_summaries s) (em_db (gw_emitter s)))
         in if br_allowed b then Inr ()
            else Inl \<lparr>th_message = or_else (br_reason b) ''Budget exceeded'', th_status = Some (or_else (br_httpStatus b) 429)\<rparr>))"

text \<open>The answer of an adapter, its name and whether it is self-hosted.\<close>

definition executeWithAdapter :: "socket \<Rightarrow> string \<Rightarrow> string \<Rightarrow> json \<Rightarrow> (adapter_result \<times> string \<times> bool) rt_act" where
  "executeWithAdapter k name capability input = (case map_of (so_adapters k) name of
     None \<Rightarrow> athrow (plain_error (''Adapter '' @ text_quote name @ '' is not registered''))
   | Some a \<Rightarrow>
       if capability \<notin> set (ad_capabilities a)
       then athrow (plain_error (''Adapter '' @ text_quote name @ '' does not support capability '' @ text_quote capability))
       else (case adapter_fn a capability of
           None \<Rightarrow> athrow (plain_error (''Adapter '' @ text_quote (ad_name a) @ '' is registered for '' @ text_quote capability
             @ '' but does not implement '' @ text_quote (or_else (CAPABILITY_METHOD capability) ''undefined'')))
         | Some fn \<Rightarrow> abind (call_adapter (ad_name a) fn input) (\<lambda>r. areturn (r, ad_name a, ad_selfHosted a))))"

definition resolveAdapter :: "socket \<Rightarrow> socket_request \<Rightarrow> thrown + adapter" where
  "resolveAdapter k q =
     (let able = filter (\<lambda>a. sq_capability q \<in> set (ad_capabilities a)) (map snd (so_adapters k));
          best = (case sq_pricingTier q of None \<Rightarrow> None | Some t \<Rightarrow> find (\<lambda>a. (t = Standard) = ad_selfHosted a) able)
      in case best of Some a \<Rightarrow> Inr a | None \<Rightarrow> (case able of
           [] \<Rightarrow> Inl (plain_error (''No adapter registered for capability '' @ text_quote (sq_capability q)))
         | a # _ \<Rightarrow> Inr a))"

definition socket_call :: "socket \<Rightarrow> socket_request \<Rightarrow> (adapter_result \<times> string \<times> bool) rt_act" where
  "socket_call k q =
     (if truthy (sq_adapter q) then executeWithAdapter k (the (sq_adapter q)) (sq_capability q) (sq_input q)
      else case so_router k of
        Some r \<Rightarrow> abind (route r \<lparr>rq_capability = sq_capability q, rq_tenantId = sq_tenantId q, rq_input = sq_input q,
              rq_sellPrice = None\<rparr>) (\<lambda>(a, name). case map_of (so_adapters k) name of
            None \<Rightarrow> athrow (plain_error (''Router selected provider '' @ text_quote name @ '' but it is not registered in the socket. ''
              @ ''Always register adapters via socket.register() '' @ [CHR 0xE2, CHR 0x80, CHR 0x94] @ '' never directly on the router.''))
          | Some ad \<Rightarrow> areturn (a, name, ad_selfHosted ad))
      | None \<Rightarrow> abind (aquery (\<lambda>_. resolveAdapter k q)) (\<lambda>ad. executeWithAdapter k (ad_name ad) (sq_capability q) (sq_input q)))"

definition socket_event :: "socket_request \<Rightarrow> adapter_result \<Rightarrow> credit \<Rightarrow> string \<Rightarrow> bool \<Rightarrow> routing \<Rightarrow> event" where
  "socket_event q a charge name selfHosted s =
     \<lparr>me_id = decimal (gw_uuid s), me_tenant = sq_tenantId q, me_cost = (if sq_byok q then ZERO else as_cost a),
      me_charge = (if sq_byok q then ZERO else charge), me_capability = sq_capability q, me_provider = name,
      me_timestamp = gw_now s, me_sessionId = (if truthy (sq_sessionId q) then sq_sessionId q else None), me_duration = None,
      me_usage = None, me_tier = Some (if sq_byok q then ''byok'' else if selfHosted then ''wopr'' else ''branded''), me_metadata = None\<rparr>"

definition socket_charge :: "socket \<Rightarrow> socket_request \<Rightarrow> adapter_result \<Rightarrow> thrown + credit" where
  "socket_charge k q a = (case as_charge a of
     Some c \<Rightarrow> Inr c
   | None \<Rightarrow> (case withMargin (as_cost a) (or_else (sq_margin q) (so_defaultMargin k)) of
       Inl _ \<Rightarrow> Inl (plain_error ''Credit.multiply overflow'') | Inr c \<Rightarrow> Inr c))"

definition execute :: "socket \<Rightarrow> socket_request \<Rightarrow> json rt_act" where
  "execute k q =
     abind (budget_gate k q) (\<lambda>_.
     abind (socket_call k q) (\<lambda>(a, name, selfHosted).
     abind (aquery (\<lambda>_. socket_charge k q a)) (\<lambda>charge.
     abind (amodify (\<lambda>s. s\<lparr>gw_emitter := emit (so_batchSize k) (socket_event q a charge name selfHosted s) (gw_emitter s),
        gw_uuid := gw_uuid s + 1\<rparr>)) (\<lambda>_.
     areturn (as_result a)))))"

definition capabilities :: "socket \<Rightarrow> string list" where
  "capabilities k = js_set (concat (map (ad_capabilities \<circ> snd) (so_adapters k)))"


section \<open>The order of the chain\<close>

lemma sort_key_hd_least:
  assumes "sort_key k xs = x # ys"
  shows "x \<in> set xs \<and> (\<forall>y \<in> set xs. k x \<le> k y)"
proof -
  have "sorted (map k (sort_key k xs))" by (rule sorted_sort_key)
  then have "\<forall>y \<in> set (x # ys). k x \<le> k y" using assms by auto
  moreover have "set (x # ys) = set xs" using assms by (metis set_sort)
  ultimately show ?thesis by auto
qed

lemma sort_key_Nil_iff: "sort_key k xs = [] \<longleftrightarrow> xs = []"
  by (metis length_sort length_0_conv)

lemma tier_exhaust: "pe_tier e = Gpu \<or> pe_tier e = Hosted"
  by (cases "pe_tier e") auto

lemma provider_rank_inj [simp]: "provider_rank a = provider_rank b \<longleftrightarrow> a = b"
  by (cases a; cases b) auto

lemma provider_rank_nonneg [simp]: "0 \<le> provider_rank t"
  by (cases t) auto

lemma candidate_rests:
  assumes "e \<in> set (fst (getProviders cfg capability s))" "usable e"
  shows "\<exists>s1. rt_health s1 = rt_health s \<and> gw_now s1 = gw_now s
    \<and> (case health_get (pe_adapter e) s1 of None \<Rightarrow> True | Some h \<Rightarrow> hr_healthy h \<or> override_expired cfg (gw_now s) h)"
proof -
  define s1 where "s1 = (if gw_now s - rt_lastRefresh s > rc_cacheTtlMs cfg then refresh s else s)"
  have same: "rt_health s1 = rt_health s" "gw_now s1 = gw_now s" by (simp_all add: s1_def refresh_def Let_def)
  obtain e0 where "e = overlay cfg s1 e0" using assms(1) by (auto simp: getProviders_def Let_def s1_def)
  then have "case health_get (pe_adapter e) s1 of None \<Rightarrow> True | Some h \<Rightarrow> hr_healthy h \<or> override_expired cfg (gw_now s) h"
    using assms(2) same by (auto simp: overlay_def usable_def split: option.splits if_splits)
  then show ?thesis using same by blast
qed

lemma select_cases:
  assumes "selectProvider r capability s = (x, s')"
  obtains (selected) d where "x = Inr d" "dc_candidates d = filter usable (fst (getProviders (ro_registry r) capability s))"
      "dc_provider d \<in> set (dc_candidates d)"
      "\<forall>e \<in> set (dc_candidates d). provider_rank (pe_tier (dc_provider d)) \<le> provider_rank (pe_tier e)"
      "\<forall>e \<in> set (dc_candidates d). pe_tier e = pe_tier (dc_provider d) \<longrightarrow>
         preference (ro_preferLowLatency r) (dc_provider d) \<le> preference (ro_preferLowLatency r) e"
  | (none) "x = Inl (no_provider capability)" "filter usable (fst (getProviders (ro_registry r) capability s)) = []"
proof -
  let ?c = "filter usable (fst (getProviders (ro_registry r) capability s))" and ?k = "preference (ro_preferLowLatency r)"
  show ?thesis
  proof (cases "sort_key ?k (of_tier Gpu ?c)")
    case (Cons p ps)
    then have "p \<in> set (of_tier Gpu ?c)" "\<forall>e \<in> set (of_tier Gpu ?c). ?k p \<le> ?k e"
      using sort_key_hd_least[OF Cons] by simp_all
    then show ?thesis using assms Cons
      by (intro selected[of "\<lparr>dc_provider = p, dc_candidates = ?c, dc_reason = Gpu_Cheapest\<rparr>"])
        (auto simp: selectProvider_def of_tier_def Let_def split: prod.splits elim: provider_rank.elims)
  next
    case gpu: Nil
    then have "of_tier Gpu ?c = []" by (simp add: sort_key_Nil_iff)
    then have hosted: "pe_tier e = Hosted" if "e \<in> set ?c" for e
      using tier_exhaust[of e] that by (auto simp: of_tier_def filter_empty_conv)
    show ?thesis
    proof (cases "sort_key ?k (of_tier Hosted ?c)")
      case (Cons p ps)
      then have "p \<in> set (of_tier Hosted ?c)" "\<forall>e \<in> set (of_tier Hosted ?c). ?k p \<le> ?k e"
        using sort_key_hd_least[OF Cons] by simp_all
      then show ?thesis using assms gpu Cons hosted
        by (intro selected[of "\<lparr>dc_provider = p, dc_candidates = ?c, dc_reason = Hosted_Cheapest\<rparr>"])
          (auto simp: selectProvider_def of_tier_def Let_def split: prod.splits)
    next
      case Nil
      then have "of_tier Hosted ?c = []" by (simp add: sort_key_Nil_iff)
      then have "?c = []" using hosted by (auto simp: of_tier_def filter_empty_conv)
      then show ?thesis using assms gpu Nil by (intro none) (auto simp: selectProvider_def Let_def split: prod.splits)
    qed
  qed
qed

text \<open>Without the preference for latency, the chain is in the order of tier, cost and priority.\<close>

lemma registry_order_le:
  "registry_order a \<le> registry_order b \<longleftrightarrow> provider_rank (pe_tier a) < provider_rank (pe_tier b)
     \<or> provider_rank (pe_tier a) = provider_rank (pe_tier b) \<and> cost_key a \<le> cost_key b"
  by (auto simp: registry_order_def less_eq_prod_def)

lemma remaining_sorted: "sorted_wrt (\<lambda>a b. registry_order a \<le> registry_order b) (remaining t d)"
proof -
  have "\<forall>e \<in> set (remaining t d). pe_tier e = t" by (auto simp: remaining_def)
  moreover have "sorted (map cost_key (remaining t d))" unfolding remaining_def by (rule sorted_sort_key)
  then have "sorted_wrt (\<lambda>a b. cost_key a \<le> cost_key b) (remaining t d)" by (simp add: sorted_map)
  ultimately show ?thesis by (auto simp: registry_order_le elim!: sorted_wrt_mono_rel[rotated])
qed

lemma chain_sorted:
  assumes "selectProvider r capability s = (Inr d, s')" "\<not> ro_preferLowLatency r"
  shows "sorted (map registry_order (buildFailoverChain d))"
  using assms(1)
proof (cases rule: select_cases)
  case (selected d')
  then have d: "d' = d" by simp
  have least: "registry_order (dc_provider d) \<le> registry_order e" if "e \<in> set (dc_candidates d)" for e
  proof -
    have "provider_rank (pe_tier (dc_provider d)) \<le> provider_rank (pe_tier e)" using selected(4) that unfolding d by blast
    moreover have "cost_key (dc_provider d) \<le> cost_key e" if "pe_tier e = pe_tier (dc_provider d)"
      using selected(5) \<open>e \<in> set (dc_candidates d)\<close> that assms(2) unfolding d by (simp add: preference_def)
    ultimately show ?thesis unfolding registry_order_le by (cases "pe_tier e = pe_tier (dc_provider d)") (auto simp: order_le_less)
  qed
  have cross: "registry_order a \<le> registry_order b" if "a \<in> set (remaining Gpu d)" "b \<in> set (remaining Hosted d)" for a b
    using that by (auto simp: registry_order_le remaining_def)
  have in_c: "e \<in> set (dc_candidates d)" if "e \<in> set (remaining t d)" for e t using that by (auto simp: remaining_def)
  show ?thesis
    using remaining_sorted[of Gpu d] remaining_sorted[of Hosted d] least cross in_c
    by (auto simp: sorted_map buildFailoverChain_def sorted_wrt_append)
qed simp

lemma chain_adapters:
  assumes "selectProvider r capability s = (Inr d, s')"
  shows "pe_adapter ` set (buildFailoverChain d) = pe_adapter ` set (dc_candidates d)"
    and "set (buildFailoverChain d) \<subseteq> set (dc_candidates d)"
    and "dc_candidates d = filter usable (fst (getProviders (ro_registry r) capability s))"
proof -
  show c: "dc_candidates d = filter usable (fst (getProviders (ro_registry r) capability s))"
    using assms by (cases rule: select_cases) auto
  have p: "dc_provider d \<in> set (dc_candidates d)" using assms by (cases rule: select_cases) auto
  show "set (buildFailoverChain d) \<subseteq> set (dc_candidates d)" using p by (auto simp: buildFailoverChain_def remaining_def)
  have "e \<in> set (remaining Gpu d) \<union> set (remaining Hosted d)" if "e \<in> set (dc_candidates d)" "pe_adapter e \<noteq> pe_adapter (dc_provider d)" for e
    using that c tier_exhaust[of e] by (auto simp: remaining_def)
  then show "pe_adapter ` set (buildFailoverChain d) = pe_adapter ` set (dc_candidates d)"
    using p by (fastforce simp: buildFailoverChain_def remaining_def image_iff)
qed

section \<open>Running the chain\<close>

text \<open>The adapters called for a list of entries, when each call fails with a server error.\<close>

definition tried :: "router \<Rightarrow> route_request \<Rightarrow> provider_entry list \<Rightarrow> string list" where
  "tried r q es = map pe_adapter (filter (\<lambda>e. callable r (rq_capability q) e \<noteq> None) es)"

fun all_failed :: "router \<Rightarrow> route_request \<Rightarrow> string list \<Rightarrow> provider_entry list \<Rightarrow> bool" where
  "all_failed r q calls [] \<longleftrightarrow> True"
| "all_failed r q calls (e # es) \<longleftrightarrow> (case callable r (rq_capability q) e of
     None \<Rightarrow> all_failed r q calls es
   | Some fn \<Rightarrow> (case fn calls (rq_input q) of Inl err \<Rightarrow> server_error err | Inr _ \<Rightarrow> False)
       \<and> all_failed r q (calls @ [pe_adapter e]) es)"

text \<open>A live override: the provider was marked unhealthy at the time \<open>t\<close>.\<close>

definition marked :: "string \<Rightarrow> int \<Rightarrow> routing \<Rightarrow> bool" where
  "marked a t s \<longleftrightarrow> (\<exists>h \<in> set (rt_health s). hr_adapter h = a \<and> \<not> hr_healthy h \<and> hr_markedAt h = t)"

lemma mark_fields [simp]:
  "rt_calls (markHealthy a s) = rt_calls s" "rt_calls (markUnhealthy a s) = rt_calls s"
  "gw_now (markHealthy a s) = gw_now s" "gw_now (markUnhealthy a s) = gw_now s"
  "gw_emitter (markHealthy a s) = gw_emitter s" "gw_emitter (markUnhealthy a s) = gw_emitter s"
  "gw_db (markHealthy a s) = gw_db s" "gw_db (markUnhealthy a s) = gw_db s"
  by (simp_all add: markHealthy_def markUnhealthy_def)

lemma marked_unhealthy: "marked a (gw_now s) (markUnhealthy a s)"
proof (cases "list_ex (\<lambda>h. hr_adapter h = a) (rt_health s)")
  case True
  then obtain h where "h \<in> set (rt_health s)" "hr_adapter h = a" by (auto simp: list_ex_iff)
  then have "h\<lparr>hr_healthy := False, hr_markedAt := gw_now s\<rparr> \<in> set (rt_health (markUnhealthy a s))"
    using True by (auto simp: markUnhealthy_def intro!: image_eqI[of _ _ h])
  then show ?thesis using \<open>hr_adapter h = a\<close> unfolding marked_def
    by (intro bexI[of _ "h\<lparr>hr_healthy := False, hr_markedAt := gw_now s\<rparr>"]) simp_all
qed (simp add: marked_def markUnhealthy_def)

lemma marked_keeps:
  "marked a (gw_now s) s \<Longrightarrow> marked a (gw_now s) (markUnhealthy b s)"
  "marked a t s \<Longrightarrow> a \<noteq> b \<Longrightarrow> marked a t (markHealthy b s)"
  "marked a t (s\<lparr>rt_calls := cs\<rparr>) = marked a t s" "marked a t (s\<lparr>rt_margins := ms\<rparr>) = marked a t s"
  by (force simp: marked_def markUnhealthy_def markHealthy_def)+

lemma plain_not_server [simp]: "\<not> server_error (plain_error m)"
  by (simp add: server_error_def plain_error_def)

lemma track_margin_cases:
  obtains ms where "track_margin r q e c s = (Inr (), s\<lparr>rt_margins := ms\<rparr>)"
  | m where "track_margin r q e c s = (Inl (plain_error m), s)"
proof (cases "rq_sellPrice q = None \<or> \<not> ro_onMarginRecord r")
  case True
  then have "track_margin r q e c s = (Inr (), s\<lparr>rt_margins := rt_margins s\<rparr>)"
    by (auto simp: track_margin_def split: option.split)
  then show ?thesis by (rule that(1))
next
  case False
  then obtain sell where "rq_sellPrice q = Some sell" and "ro_onMarginRecord r" by auto
  show ?thesis
  proof (cases "subtract sell c")
    case Inl
    then have "track_margin r q e c s = (Inl (plain_error ''Credit.subtract overflow''), s)"
      using \<open>rq_sellPrice q = Some sell\<close> \<open>ro_onMarginRecord r\<close> by (simp add: track_margin_def)
    then show ?thesis by (rule that(2))
  next
    case (Inr margin)
    have "\<exists>ms. track_margin r q e c s = (Inr (), s\<lparr>rt_margins := ms\<rparr>)"
      using \<open>rq_sellPrice q = Some sell\<close> \<open>ro_onMarginRecord r\<close> Inr by (auto simp: track_margin_def)
    then show ?thesis using that(1) by blast
  qed
qed

lemma try_step_None: "callable r (rq_capability q) e = None \<Longrightarrow> try_chain r q (e # es) s = try_chain r q es s"
  by simp

lemma try_step_failed:
  assumes "callable r (rq_capability q) e = Some fn" "fn (rt_calls s) (rq_input q) = Inl err" "server_error err"
  shows "try_chain r q (e # es) s = try_chain r q es (markUnhealthy (pe_adapter e) (s\<lparr>rt_calls := rt_calls s @ [pe_adapter e]\<rparr>))"
  using assms by (simp add: acatch_def abind_def call_adapter_def amodify_def)

lemma try_step_error:
  assumes "callable r (rq_capability q) e = Some fn" "fn (rt_calls s) (rq_input q) = Inl err" "\<not> server_error err"
  shows "try_chain r q (e # es) s = (Inl err, s\<lparr>rt_calls := rt_calls s @ [pe_adapter e]\<rparr>)"
  using assms by (simp add: acatch_def abind_def call_adapter_def athrow_def)

lemma try_step_answer:
  assumes "callable r (rq_capability q) e = Some fn" "fn (rt_calls s) (rq_input q) = Inr a"
  obtains ms where "try_chain r q (e # es) s = (Inr (a, pe_adapter e),
      (markHealthy (pe_adapter e) (s\<lparr>rt_calls := rt_calls s @ [pe_adapter e]\<rparr>))\<lparr>rt_margins := ms\<rparr>)"
  | m where "try_chain r q (e # es) s = (Inl (plain_error m), markHealthy (pe_adapter e) (s\<lparr>rt_calls := rt_calls s @ [pe_adapter e]\<rparr>))"
proof -
  let ?s = "markHealthy (pe_adapter e) (s\<lparr>rt_calls := rt_calls s @ [pe_adapter e]\<rparr>)"
  show ?thesis
  proof (cases rule: track_margin_cases[of r q e "as_cost a" ?s])
    case (1 ms)
    then show ?thesis using assms by (intro that(1)[of ms]) (simp add: acatch_def abind_def call_adapter_def amodify_def areturn_def)
  next
    case (2 m)
    then show ?thesis using assms
      by (intro that(2)[of m]) (simp add: acatch_def abind_def call_adapter_def amodify_def areturn_def athrow_def)
  qed
qed

declare try_chain.simps(2) [simp del]

text \<open>What the chain did before it answered.\<close>

lemma try_chain_answer:
  assumes "try_chain r q es s = (Inr (a, p), s')"
  shows "\<exists>pre e post fn. es = pre @ e # post \<and> pe_adapter e = p \<and> callable r (rq_capability q) e = Some fn
    \<and> all_failed r q (rt_calls s) pre \<and> fn (rt_calls s @ tried r q pre) (rq_input q) = Inr a
    \<and> rt_calls s' = rt_calls s @ tried r q pre @ [p]
    \<and> (\<forall>f. f \<noteq> p \<longrightarrow> f \<in> set (tried r q pre) \<or> marked f (gw_now s) s \<longrightarrow> marked f (gw_now s) s')"
  using assms
proof (induction es arbitrary: s)
  case Nil
  then show ?case by (simp add: athrow_def)
next
  case (Cons e es)
  show ?case
  proof (cases "callable r (rq_capability q) e")
    case None
    then have "try_chain r q es s = (Inr (a, p), s')" using Cons.prems by (simp add: try_step_None)
    then obtain pre e' post fn where h: "es = pre @ e' # post" "pe_adapter e' = p" "callable r (rq_capability q) e' = Some fn"
        "all_failed r q (rt_calls s) pre" "fn (rt_calls s @ tried r q pre) (rq_input q) = Inr a"
        "rt_calls s' = rt_calls s @ tried r q pre @ [p]"
        "\<forall>f. f \<noteq> p \<longrightarrow> f \<in> set (tried r q pre) \<or> marked f (gw_now s) s \<longrightarrow> marked f (gw_now s) s'"
      using Cons.IH[of s] by blast
    have t: "tried r q (e # pre) = tried r q pre" "all_failed r q (rt_calls s) (e # pre) = all_failed r q (rt_calls s) pre"
      using None by (simp_all add: tried_def)
    show ?thesis using h by (intro exI[of _ "e # pre"] exI[of _ e'] exI[of _ post] exI[of _ fn]) (simp only: t append_Cons simp_thms)
  next
    case (Some f)
    let ?s1 = "s\<lparr>rt_calls := rt_calls s @ [pe_adapter e]\<rparr>"
    show ?thesis
    proof (cases "f (rt_calls s) (rq_input q)")
      case (Inr b)
      show ?thesis
      proof (cases rule: try_step_answer[OF Some Inr, of es])
        case (1 ms)
        then have "b = a" "p = pe_adapter e" "s' = (markHealthy (pe_adapter e) ?s1)\<lparr>rt_margins := ms\<rparr>"
          using Cons.prems by auto
        then show ?thesis using Some Inr
          by (intro exI[of _ "[]"] exI[of _ e] exI[of _ es] exI[of _ f]) (auto simp: tried_def marked_keeps)
      next
        case (2 m)
        then show ?thesis using Cons.prems by simp
      qed
    next
      case (Inl err)
      have srv: "server_error err"
      proof (rule ccontr)
        assume "\<not> server_error err"
        then show False using try_step_error[OF Some Inl, of es] Cons.prems by simp
      qed
      let ?s2 = "markUnhealthy (pe_adapter e) ?s1"
      have "try_chain r q es ?s2 = (Inr (a, p), s')" using try_step_failed[OF Some Inl srv, of es] Cons.prems by simp
      then obtain pre e' post fn where h: "es = pre @ e' # post" "pe_adapter e' = p" "callable r (rq_capability q) e' = Some fn"
          "all_failed r q (rt_calls ?s2) pre" "fn (rt_calls ?s2 @ tried r q pre) (rq_input q) = Inr a"
          "rt_calls s' = rt_calls ?s2 @ tried r q pre @ [p]"
          "\<forall>f. f \<noteq> p \<longrightarrow> f \<in> set (tried r q pre) \<or> marked f (gw_now ?s2) ?s2 \<longrightarrow> marked f (gw_now ?s2) s'"
        using Cons.IH[of ?s2] by blast
      have t: "tried r q (e # pre) = pe_adapter e # tried r q pre" using Some by (simp add: tried_def)
      have m: "marked (pe_adapter e) (gw_now s) ?s2" using marked_unhealthy[of "pe_adapter e" ?s1] by simp
      have k: "marked g (gw_now s) s \<Longrightarrow> marked g (gw_now s) ?s2" for g using marked_keeps(1)[of g ?s1 "pe_adapter e"] by (simp add: marked_keeps(3))
      show ?thesis
        using h Some Inl srv t m k by (intro exI[of _ "e # pre"] exI[of _ e'] exI[of _ post] exI[of _ fn]) auto
    qed
  qed
qed

lemma try_chain_error:
  assumes "try_chain r q es s = (Inl err, s')" "server_error err"
  shows "err = no_provider (rq_capability q) \<and> all_failed r q (rt_calls s) es \<and> rt_calls s' = rt_calls s @ tried r q es"
  using assms(1)
proof (induction es arbitrary: s)
  case Nil
  then show ?case by (simp add: athrow_def tried_def)
next
  case (Cons e es)
  show ?case
  proof (cases "callable r (rq_capability q) e")
    case None
    then show ?thesis using Cons by (auto simp: tried_def try_step_None)
  next
    case (Some f)
    show ?thesis
    proof (cases "f (rt_calls s) (rq_input q)")
      case (Inr b)
      then show ?thesis using Cons.prems assms(2) by (cases rule: try_step_answer[OF Some Inr, of es]) auto
    next
      case (Inl e1)
      then have srv: "server_error e1" using try_step_error[OF Some Inl, of es] Cons.prems assms(2) by auto
      then show ?thesis using Cons.IH[of "markUnhealthy (pe_adapter e) (s\<lparr>rt_calls := rt_calls s @ [pe_adapter e]\<rparr>)"] Cons.prems
          try_step_failed[OF Some Inl srv, of es] Some Inl by (auto simp: tried_def)
    qed
  qed
qed

text \<open>The state in which the chain starts: the cache may be new, expired overrides are gone.\<close>

lemma markHealthy_loop [simp]:
  "rt_calls (foldl (\<lambda>s e. markHealthy (pe_adapter e) s) s es) = rt_calls s"
  "gw_now (foldl (\<lambda>s e. markHealthy (pe_adapter e) s) s es) = gw_now s"
  "gw_emitter (foldl (\<lambda>s e. markHealthy (pe_adapter e) s) s es) = gw_emitter s"
  "gw_db (foldl (\<lambda>s e. markHealthy (pe_adapter e) s) s es) = gw_db s"
  by (induction es arbitrary: s) auto

lemma refresh_fields [simp]:
  "rt_calls (refresh s) = rt_calls s" "gw_now (refresh s) = gw_now s" "gw_emitter (refresh s) = gw_emitter s" "gw_db (refresh s) = gw_db s"
  by (simp_all add: refresh_def Let_def)

lemma select_state: "snd (selectProvider r c s) = snd (getProviders (ro_registry r) c s)"
  by (simp add: selectProvider_def Let_def split: prod.splits)

lemma select_fields:
  "rt_calls (snd (selectProvider r c s)) = rt_calls s" "gw_now (snd (selectProvider r c s)) = gw_now s"
  "gw_emitter (snd (selectProvider r c s)) = gw_emitter s" "gw_db (snd (selectProvider r c s)) = gw_db s"
  by (simp_all add: select_state getProviders_def Let_def)

text \<open>A provider that is resting: its first override row is unhealthy and not older than the time to live.\<close>

definition resting :: "registry_config \<Rightarrow> string \<Rightarrow> routing \<Rightarrow> bool" where
  "resting cfg a s \<longleftrightarrow> (case health_get a s of None \<Rightarrow> False
     | Some h \<Rightarrow> \<not> hr_healthy h \<and> gw_now s - hr_markedAt h \<le> rc_unhealthyTtlMs cfg)"

lemma chain_not_resting:
  assumes "selectProvider r c s = (Inr d, s')" "e \<in> set (buildFailoverChain d)"
  shows "usable e \<and> \<not> resting (ro_registry r) (pe_adapter e) s"
proof -
  have e: "e \<in> set (fst (getProviders (ro_registry r) c s))" "usable e"
    using chain_adapters(2,3)[OF assms(1)] assms(2) by auto
  obtain s1 where "rt_health s1 = rt_health s" "gw_now s1 = gw_now s"
      "case health_get (pe_adapter e) s1 of None \<Rightarrow> True | Some h \<Rightarrow> hr_healthy h \<or> override_expired (ro_registry r) (gw_now s) h"
    using candidate_rests[OF e] by blast
  then show ?thesis using e(2) by (auto simp: resting_def health_get_def override_expired_def split: option.splits)
qed

section \<open>Properties\<close>


text \<open>Two providers of speech: the cheaper one of our own hardware is down.\<close>

definition speech_cost :: "nat \<Rightarrow> string \<Rightarrow> rat \<Rightarrow> provider_cost" where
  "speech_cost i name c = \<lparr>pc_id = i, pc_capability = ''tts'', pc_adapter = name, pc_model = None, pc_unit = ''1K characters'',
     pc_costUsd = c, pc_priority = 0, pc_latencyClass = ''standard'', pc_isActive = True, pc_createdAt = 0, pc_updatedAt = 0\<rparr>"

definition speaker :: "string \<Rightarrow> thrown + adapter_result \<Rightarrow> adapter" where
  "speaker name x = \<lparr>ad_name = name, ad_capabilities = [''tts''], ad_selfHosted = (tier_of name = Gpu),
     ad_method = (\<lambda>m. if m = ''synthesizeSpeech'' then Some (\<lambda>_ _. x) else None)\<rparr>"

definition demo_router :: router where
  "demo_router = \<lparr>ro_registry = registry_config_of None None,
     ro_adapters = [(''elevenlabs'', speaker ''elevenlabs'' (Inr \<lparr>as_result = JStr ''url'', as_cost = Credit 15000000, as_charge = None\<rparr>)),
       (''chatterbox-tts'', speaker ''chatterbox-tts'' (Inl \<lparr>th_message = ''down'', th_status = Some 503\<rparr>))],
     ro_onMarginRecord = False, ro_preferLowLatency = False\<rparr>"

definition demo_routing :: routing where
  "demo_routing = gateway.extend (new_gateway\<lparr>gw_db := empty_db, gw_now := 100000\<rparr>) \<lparr>rt_sellRates = [],
     rt_costs = [speech_cost 1 ''elevenlabs'' (15 / 1000), speech_cost 2 ''chatterbox-tts'' (2 / 1000)], rt_health = [],
     rt_cache = [], rt_lastRefresh = 0, rt_calls = [], rt_margins = []\<rparr>"

definition demo_route :: route_request where
  "demo_route = \<lparr>rq_capability = ''tts'', rq_tenantId = ''t1'', rq_input = JNull, rq_sellPrice = None\<rparr>"


text \<open>The socket leaves the meter and the ledger alone until it has its answer.\<close>

definition unmetered :: "routing \<Rightarrow> routing \<Rightarrow> bool" where
  "unmetered s s' \<longleftrightarrow> gw_emitter s' = gw_emitter s \<and> gw_db s' = gw_db s"

lemma try_chain_unmetered: "unmetered s (snd (try_chain r q es s))"
proof (induction es arbitrary: s)
  case Nil
  then show ?case by (simp add: athrow_def unmetered_def)
next
  case (Cons e es)
  show ?case
  proof (cases "callable r (rq_capability q) e")
    case None
    then show ?thesis using Cons by (simp add: try_step_None)
  next
    case (Some fn)
    show ?thesis
    proof (cases "fn (rt_calls s) (rq_input q)")
      case (Inr a)
      then show ?thesis by (cases rule: try_step_answer[OF Some Inr, of es]) (simp_all add: unmetered_def)
    next
      case (Inl err)
      show ?thesis
      proof (cases "server_error err")
        case True
        then show ?thesis using try_step_failed[OF Some Inl True, of es] Cons[of "markUnhealthy (pe_adapter e) (s\<lparr>rt_calls := rt_calls s @ [pe_adapter e]\<rparr>)"]
          by (simp add: unmetered_def)
      next
        case False
        then show ?thesis using try_step_error[OF Some Inl False, of es] by (simp add: unmetered_def)
      qed
    qed
  qed
qed

lemma route_unmetered: "unmetered s (snd (route r q s))"
proof -
  obtain x s1 where sel: "selectProvider r (rq_capability q) s = (x, s1)" by fastforce
  then have "unmetered s s1" using select_fields[of r "rq_capability q" s] by (simp add: unmetered_def)
  then show ?thesis using sel try_chain_unmetered[of s1 r q]
    by (cases x) (auto simp: route_def abind_def unmetered_def)
qed

lemma execute_with_answer:
  assumes "executeWithAdapter k name capability input s = (x, s')"
  shows "unmetered s s' \<and> (\<forall>a n h. x = Inr (a, n, h) \<longrightarrow> rt_calls s' = rt_calls s @ [n])"
  using assms by (auto simp: executeWithAdapter_def athrow_def abind_def call_adapter_def areturn_def unmetered_def
      split: option.splits if_splits sum.splits)

lemma route_last_call: "route r q s = (Inr (a, p), s') \<Longrightarrow> \<exists>cs. rt_calls s' = rt_calls s @ cs @ [p]"
  by (auto simp: route_def abind_def split: sum.splits prod.splits dest!: try_chain_answer
      dest: arg_cong[of "selectProvider r (rq_capability q) s" _ snd] simp: select_fields[of r "rq_capability q" s, symmetric])

lemma socket_call_answer:
  assumes "socket_call k q s = (x, s')"
  shows "unmetered s s' \<and> (\<forall>a n h. x = Inr (a, n, h) \<longrightarrow> (\<exists>cs. rt_calls s' = rt_calls s @ cs @ [n]))"
proof (cases "truthy (sq_adapter q)")
  case True
  then show ?thesis using assms execute_with_answer by (fastforce simp: socket_call_def)
next
  case False
  show ?thesis
  proof (cases "so_router k")
    case None
    show ?thesis
    proof (cases "resolveAdapter k q")
      case (Inl e)
      then show ?thesis using assms False None by (auto simp: socket_call_def abind_def aquery_def unmetered_def)
    next
      case (Inr ad)
      then have "executeWithAdapter k (ad_name ad) (sq_capability q) (sq_input q) s = (x, s')"
        using assms False None by (simp add: socket_call_def abind_def aquery_def)
      then show ?thesis using execute_with_answer by fastforce
    qed
  next
    case (Some r)
    let ?q = "\<lparr>rq_capability = sq_capability q, rq_tenantId = sq_tenantId q, rq_input = sq_input q, rq_sellPrice = None\<rparr>"
    obtain y s1 where run: "route r ?q s = (y, s1)" by fastforce
    then have u: "unmetered s s1" using route_unmetered[of s r ?q] by simp
    show ?thesis
    proof (cases y)
      case (Inl e)
      then show ?thesis using assms False Some run u by (auto simp: socket_call_def abind_def)
    next
      case (Inr b)
      obtain a n where b: "b = (a, n)" by fastforce
      then show ?thesis using assms False Some run u Inr route_last_call[of r ?q s a n s1]
        by (auto simp: socket_call_def abind_def athrow_def areturn_def split: option.splits)
    qed
  qed
qed


text \<open>The same two providers behind a socket.\<close>

definition demo_socket :: socket where
  "demo_socket = \<lparr>so_batchSize = 100, so_budgetChecker = False, so_budgetCache = (\<lambda>_. None), so_dbOk = True,
     so_defaultMargin = 13 / 10, so_adapters = ro_adapters demo_router, so_router = Some demo_router\<rparr>"

definition demo_speech :: socket_request where
  "demo_speech = \<lparr>sq_tenantId = ''t1'', sq_capability = ''tts'', sq_input = JNull, sq_adapter = None, sq_margin = None,
     sq_sessionId = None, sq_byok = False, sq_spendLimits = None, sq_pricingTier = None\<rparr>"


end
