(* ===== verification/Access.thy ===== *)
theory Access
  imports Proxy
begin

text \<open>
  Who may call the platform: bearer tokens with scopes and tenants (\<open>src/auth/index.ts\<close>), sessions and API keys
  (\<open>middleware.ts\<close>, \<open>api-key-repository.ts\<close>), user roles (\<open>src/admin/role-store.ts\<close>,
  \<open>src/auth/user-role-repository.ts\<close>) and the service keys of the gateway
  (\<open>src/gateway/service-key-repository.ts\<close>, \<open>service-key-auth.ts\<close>). A middleware maps the context of a
  request to a refusal or to the context its handler sees. The session library and the hash are parameters; a JavaScript
  \<open>Map\<close> is an association list in the order of insertion, and so is the environment.
\<close>

section \<open>Contexts\<close>

record auth_user =
  au_id :: string
  au_roles :: "string list"

datatype auth_method = Session_Auth | Api_Key_Auth

record auth_context =
  ac_user :: "auth_user option"
  ac_authMethod :: "auth_method option"
  ac_tokenTenantId :: "string option"
  ac_isOperatorToken :: bool

record refusal =
  rf_status :: nat
  rf_error :: string
  rf_details :: "(string \<times> string) list"

definition refuse :: "nat \<Rightarrow> string \<Rightarrow> refusal" where
  "refuse status msg = \<lparr>rf_status = status, rf_error = msg, rf_details = []\<rparr>"

definition fresh_context :: auth_context where
  "fresh_context = \<lparr>ac_user = None, ac_authMethod = None, ac_tokenTenantId = None, ac_isOperatorToken = False\<rparr>"

section \<open>Bearer tokens\<close>

definition extractBearerToken :: "string option \<Rightarrow> string option" where
  "extractBearerToken header =
     (if \<not> truthy header then None
      else let trimmed = trim (the header) in
        if \<not> startsWith (toLowerCase trimmed) ''bearer '' then None
        else let token = trim (drop 7 trimmed) in if token = [] then None else Some token)"

text \<open>Every entry is compared; of several equal keys the last one would count.\<close>

definition timingSafeMapLookup :: "(string \<times> 'v) list \<Rightarrow> string \<Rightarrow> 'v option" where
  "timingSafeMapLookup m candidate =
     foldl (\<lambda>found (key, value). if length candidate = length key \<and> candidate = key then Some value else found) None m"

definition requireRole :: "string \<Rightarrow> auth_context \<Rightarrow> refusal + auth_context" where
  "requireRole role c = (case ac_user c of
     None \<Rightarrow> Inl (refuse 401 ''Authentication required'')
   | Some u \<Rightarrow> if role \<notin> set (au_roles u)
       then Inl \<lparr>rf_status = 403, rf_error = ''Insufficient permissions'', rf_details = [(''required'', role)]\<rparr>
       else Inr c)"

datatype token_scope = Read_Scope | Write_Scope | Admin_Scope

fun SCOPE_LEVEL :: "token_scope \<Rightarrow> nat" where
  "SCOPE_LEVEL Read_Scope = 0"
| "SCOPE_LEVEL Write_Scope = 1"
| "SCOPE_LEVEL Admin_Scope = 2"

fun scope_text :: "token_scope \<Rightarrow> string" where
  "scope_text Read_Scope = ''read''"
| "scope_text Write_Scope = ''write''"
| "scope_text Admin_Scope = ''admin''"

text \<open>Membership in the set, and the cast that follows it.\<close>

definition VALID_SCOPES :: "string \<Rightarrow> token_scope option" where
  "VALID_SCOPES s = find (\<lambda>sc. scope_text sc = s) [Read_Scope, Write_Scope, Admin_Scope]"

fun join_on :: "char \<Rightarrow> string list \<Rightarrow> string" where
  "join_on c [] = []"
| "join_on c [x] = x"
| "join_on c (x # y # zs) = x @ c # join_on c (y # zs)"

definition parseTokenScope :: "string \<Rightarrow> token_scope option" where
  "parseTokenScope token =
     (if \<not> startsWith token ''wopr_'' then None
      else let parts = split_on CHR ''_'' token in
        if length parts < 3 then None
        else case VALID_SCOPES (parts ! 1) of
            None \<Rightarrow> None
          | Some scope \<Rightarrow> if join_on CHR ''_'' (drop 2 parts) = [] then None else Some scope)"

definition scopeSatisfies :: "token_scope \<Rightarrow> token_scope \<Rightarrow> bool" where
  "scopeSatisfies tokenScope requiredScope \<longleftrightarrow> SCOPE_LEVEL tokenScope \<ge> SCOPE_LEVEL requiredScope"

record token_metadata =
  tm_scope :: token_scope
  tm_tenantId :: "string option"

definition scopedVars :: "(string \<times> token_scope) list" where
  "scopedVars = [(''FLEET_API_TOKEN_READ'', Read_Scope), (''FLEET_API_TOKEN_WRITE'', Write_Scope), (''FLEET_API_TOKEN_ADMIN'', Admin_Scope)]"

text \<open>\<open>env[x]?.trim()\<close>.\<close>

definition env_value :: "(string \<times> string) list \<Rightarrow> string \<Rightarrow> string option" where
  "env_value env name = map_option trim (map_of env name)"

definition buildTokenMap :: "(string \<times> string) list \<Rightarrow> (string \<times> token_scope) list" where
  "buildTokenMap env =
     (let tokens = foldl (\<lambda>m (envVar, scope). if truthy (env_value env envVar) then AList.update (the (env_value env envVar)) scope m else m)
            [] scopedVars;
          legacyToken = env_value env ''FLEET_API_TOKEN''
      in if truthy legacyToken \<and> map_of tokens (the legacyToken) = None
         then AList.update (the legacyToken) (case parseTokenScope (the legacyToken) of None \<Rightarrow> Admin_Scope | Some s \<Rightarrow> s) tokens
         else tokens)"

text \<open>A variable \<open>FLEET_TOKEN_<TENANT>=<scope>:<token>\<close>: its token, scope and tenant, unless it is malformed.\<close>

definition FLEET_TOKEN :: string where
  "FLEET_TOKEN = ''FLEET_TOKEN_''"

definition tenant_token :: "string \<times> string \<Rightarrow> (string \<times> token_scope \<times> string) option" where
  "tenant_token = (\<lambda>(key, value).
     if startsWith key FLEET_TOKEN \<and> value \<noteq> [] then
       (let tenantId = drop (length FLEET_TOKEN) key; trimmed = trim value;
            scopeStr = takeWhile (\<lambda>c. c \<noteq> CHR '':'') trimmed; token = drop (Suc (length scopeStr)) trimmed
        in if tenantId = [] \<or> CHR '':'' \<notin> set trimmed then None
           else case VALID_SCOPES scopeStr of
               None \<Rightarrow> None
             | Some scope \<Rightarrow> if token = [] then None else Some (token, scope, tenantId))
     else None)"

definition buildTokenMetadataMap :: "(string \<times> string) list \<Rightarrow> (string \<times> token_metadata) list" where
  "buildTokenMetadataMap env =
     foldl (\<lambda>m (token, scope). if map_of m token = None then AList.update token \<lparr>tm_scope = scope, tm_tenantId = None\<rparr> m else m)
       (foldl (\<lambda>m e. case tenant_token e of None \<Rightarrow> m
            | Some (token, scope, tenantId) \<Rightarrow> AList.update token \<lparr>tm_scope = scope, tm_tenantId = Some tenantId\<rparr> m) [] env)
       (buildTokenMap env)"

definition token_user :: "token_scope \<Rightarrow> auth_user" where
  "token_user scope = \<lparr>au_id = ''token:'' @ scope_text scope, au_roles = [scope_text scope]\<rparr>"

definition insufficient_scope :: "token_scope \<Rightarrow> token_scope \<Rightarrow> refusal" where
  "insufficient_scope required provided = \<lparr>rf_status = 403, rf_error = ''Insufficient scope'',
     rf_details = [(''required'', scope_text required), (''provided'', scope_text provided)]\<rparr>"

definition scopedBearerAuth :: "(string \<times> token_scope) list \<Rightarrow> token_scope \<Rightarrow> string option \<Rightarrow> auth_context \<Rightarrow> refusal + auth_context" where
  "scopedBearerAuth tokenMap requiredScope authHeader c = (case extractBearerToken authHeader of
     None \<Rightarrow> Inl (refuse 401 ''Authentication required'')
   | Some token \<Rightarrow> (case timingSafeMapLookup tokenMap token of
       None \<Rightarrow> Inl (refuse 401 ''Invalid or expired token'')
     | Some scope \<Rightarrow>
         if \<not> scopeSatisfies scope requiredScope then Inl (insufficient_scope requiredScope scope)
         else Inr (c\<lparr>ac_user := Some (token_user scope), ac_authMethod := Some Api_Key_Auth\<rparr>)))"

definition scopedBearerAuthWithTenant ::
  "(string \<times> token_metadata) list \<Rightarrow> token_scope \<Rightarrow> string option \<Rightarrow> auth_context \<Rightarrow> refusal + auth_context" where
  "scopedBearerAuthWithTenant metadataMap requiredScope authHeader c = (case extractBearerToken authHeader of
     None \<Rightarrow> Inl (refuse 401 ''Authentication required'')
   | Some token \<Rightarrow> (case timingSafeMapLookup metadataMap token of
       None \<Rightarrow> Inl (refuse 401 ''Invalid or expired token'')
     | Some metadata \<Rightarrow>
         if \<not> scopeSatisfies (tm_scope metadata) requiredScope then Inl (insufficient_scope requiredScope (tm_scope metadata))
         else let c' = c\<lparr>ac_user := Some (token_user (tm_scope metadata)), ac_authMethod := Some Api_Key_Auth\<rparr> in
           if truthy (tm_tenantId metadata) then Inr (c'\<lparr>ac_tokenTenantId := tm_tenantId metadata\<rparr>)
           else Inr (c'\<lparr>ac_isOperatorToken := True\<rparr>)))"

section \<open>Sessions\<close>

text \<open>What the session library answers: a failure, nobody, or a user with an optional role.\<close>

type_synonym session = "unit + (string \<times> string option) option"

definition resolveSessionUser :: "session \<Rightarrow> auth_context \<Rightarrow> auth_context" where
  "resolveSessionUser session c =
     (if ac_user c \<noteq> None then c
      else case session of
          Inr (Some (i, role)) \<Rightarrow> c\<lparr>ac_user := Some \<lparr>au_id = i, au_roles = (if truthy role then [the role] else [])\<rparr>,
            ac_authMethod := Some Session_Auth\<rparr>
        | _ \<Rightarrow> c)"

definition requireSessionOrToken :: "(string \<times> token_scope) list \<Rightarrow> token_scope \<Rightarrow> string option \<Rightarrow> auth_context \<Rightarrow> refusal + auth_context" where
  "requireSessionOrToken tokenMap requiredScope authHeader c =
     (if ac_user c \<noteq> None then Inr c else scopedBearerAuth tokenMap requiredScope authHeader c)"

definition session_user :: "string \<times> string option \<Rightarrow> auth_user" where
  "session_user = (\<lambda>(i, role). \<lparr>au_id = i, au_roles = (if role = Some ''admin'' then [''admin'', ''user''] else [''user''])\<rparr>)"

definition sessionAuth :: "session \<Rightarrow> auth_context \<Rightarrow> refusal + auth_context" where
  "sessionAuth session c = (case session of
     Inl _ \<Rightarrow> Inl (refuse 503 ''Service unavailable'')
   | Inr None \<Rightarrow> Inl (refuse 401 ''Authentication required'')
   | Inr (Some u) \<Rightarrow> Inr (c\<lparr>ac_user := Some (session_user u), ac_authMethod := Some Session_Auth\<rparr>))"

section \<open>Tenant ownership\<close>

definition requireTenantOwnership :: "auth_context \<Rightarrow> refusal + auth_context" where
  "requireTenantOwnership c =
     (if ac_isOperatorToken c then Inr c
      else if \<not> truthy (ac_tokenTenantId c) then Inl (refuse 403 ''Token lacks tenant scope'')
      else Inr c)"

definition validateTenantOwnership :: "auth_context \<Rightarrow> 'r option \<Rightarrow> string option \<Rightarrow> refusal option" where
  "validateTenantOwnership c resource resourceTenantId =
     (if resource = None then Some (refuse 404 ''Resource not found'')
      else if ac_isOperatorToken c then None
      else if \<not> truthy (ac_tokenTenantId c) then Some (refuse 403 ''Token lacks tenant scope'')
      else if resourceTenantId \<noteq> ac_tokenTenantId c then Some (refuse 404 ''Resource not found'')
      else None)"

section \<open>API keys\<close>

text \<open>The column of roles is what \<open>JSON.parse\<close> makes of it: an array of texts, or malformed.\<close>

record api_key =
  ak_id :: string
  ak_keyHash :: string
  ak_userId :: string
  ak_roles :: "string list option"
  ak_expiresAt :: "int option"
  ak_revokedAt :: "int option"

definition findByHash :: "int \<Rightarrow> string \<Rightarrow> api_key list \<Rightarrow> auth_user option" where
  "findByHash now keyHash keys = (case find (\<lambda>k. ak_keyHash k = keyHash \<and> ak_revokedAt k = None
       \<and> (case ak_expiresAt k of None \<Rightarrow> True | Some t \<Rightarrow> t > now)) keys of
     None \<Rightarrow> None
   | Some k \<Rightarrow> map_option (\<lambda>roles. \<lparr>au_id = ak_userId k, au_roles = roles\<rparr>) (ak_roles k))"

text \<open>The table of keys is absent when no repository is given; the read may fail.\<close>

definition dualAuth :: "(string \<Rightarrow> string) \<Rightarrow> session \<Rightarrow> (unit + api_key list) option \<Rightarrow> int \<Rightarrow> string option
    \<Rightarrow> auth_context \<Rightarrow> refusal + auth_context" where
  "dualAuth sha256 session apiKeyRepo now authHeader c = (case session of
     Inl _ \<Rightarrow> Inl (refuse 503 ''Service unavailable'')
   | Inr (Some u) \<Rightarrow> Inr (c\<lparr>ac_user := Some (session_user u), ac_authMethod := Some Session_Auth\<rparr>)
   | Inr None \<Rightarrow> (case (extractBearerToken authHeader, apiKeyRepo) of
       (Some token, Some (Inr keys)) \<Rightarrow> (case findByHash now (sha256 token) keys of
           Some u \<Rightarrow> Inr (c\<lparr>ac_user := Some u, ac_authMethod := Some Api_Key_Auth\<rparr>)
         | None \<Rightarrow> Inl (refuse 401 ''Authentication required''))
     | (Some token, Some (Inl _)) \<Rightarrow> Inl (refuse 503 ''Service unavailable'')
     | _ \<Rightarrow> Inl (refuse 401 ''Authentication required'')))"

section \<open>Roles\<close>

record role_row =
  rr_userId :: string
  rr_tenantId :: string
  rr_role :: string
  rr_grantedBy :: "string option"
  rr_grantedAt :: int

definition isValidRole :: "string \<Rightarrow> bool" where
  "isValidRole role \<longleftrightarrow> role \<in> {''platform_admin'', ''tenant_admin'', ''user''}"

definition PLATFORM_TENANT :: string where
  "PLATFORM_TENANT = ''*''"

definition role_key :: "string \<Rightarrow> string \<Rightarrow> role_row \<Rightarrow> bool" where
  "role_key u t r \<longleftrightarrow> rr_userId r = u \<and> rr_tenantId r = t"

definition getRole :: "string \<Rightarrow> string \<Rightarrow> role_row list \<Rightarrow> string option" where
  "getRole u t rs = map_option rr_role (find (role_key u t) rs)"

text \<open>Insert, or overwrite the row of the primary key (user, tenant).\<close>

definition grantRole :: "int \<Rightarrow> string \<Rightarrow> string \<Rightarrow> string \<Rightarrow> string option \<Rightarrow> role_row list \<Rightarrow> role_row list" where
  "grantRole now u t role grantedBy rs =
     (let new = \<lparr>rr_userId = u, rr_tenantId = t, rr_role = role, rr_grantedBy = grantedBy, rr_grantedAt = now\<rparr> in
      if list_ex (role_key u t) rs then map (\<lambda>r. if role_key u t r then new else r) rs else rs @ [new])"

definition setRole :: "int \<Rightarrow> string \<Rightarrow> string \<Rightarrow> string \<Rightarrow> string option \<Rightarrow> role_row list \<Rightarrow> string + role_row list" where
  "setRole now u t role grantedBy rs =
     (if \<not> isValidRole role then Inl (''Invalid role: '' @ role) else Inr (grantRole now u t role grantedBy rs))"

definition removeRole :: "string \<Rightarrow> string \<Rightarrow> role_row list \<Rightarrow> bool \<times> role_row list" where
  "removeRole u t rs = (list_ex (role_key u t) rs, filter (\<lambda>r. \<not> role_key u t r) rs)"

definition role_listByTenant :: "string \<Rightarrow> role_row list \<Rightarrow> role_row list" where
  "role_listByTenant t rs = sort_key (\<lambda>r. - rr_grantedAt r) (filter (\<lambda>r. rr_tenantId r = t) rs)"

definition platform_admin :: "role_row \<Rightarrow> bool" where
  "platform_admin r \<longleftrightarrow> rr_tenantId r = PLATFORM_TENANT \<and> rr_role r = ''platform_admin''"

definition listPlatformAdmins :: "role_row list \<Rightarrow> role_row list" where
  "listPlatformAdmins rs = sort_key (\<lambda>r. - rr_grantedAt r) (filter platform_admin rs)"

definition isPlatformAdmin :: "string \<Rightarrow> role_row list \<Rightarrow> bool" where
  "isPlatformAdmin u rs = list_ex (\<lambda>r. rr_userId r = u \<and> platform_admin r) rs"

definition countPlatformAdmins :: "role_row list \<Rightarrow> nat" where
  "countPlatformAdmins rs = length (filter platform_admin rs)"

definition getTenantIdByUserId :: "string \<Rightarrow> role_row list \<Rightarrow> string option" where
  "getTenantIdByUserId u rs = (case find (\<lambda>r. rr_userId r = u) rs of
     None \<Rightarrow> None | Some r \<Rightarrow> if rr_tenantId r = PLATFORM_TENANT then None else Some (rr_tenantId r))"

definition listRolesByUser :: "string \<Rightarrow> role_row list \<Rightarrow> (string \<times> string) list" where
  "listRolesByUser u rs = map (\<lambda>r. (rr_tenantId r, rr_role r)) (filter (\<lambda>r. rr_userId r = u) rs)"

definition listUsersByRole :: "string \<Rightarrow> string \<Rightarrow> role_row list \<Rightarrow> (string \<times> string) list" where
  "listUsersByRole role t rs = map (\<lambda>r. (rr_userId r, rr_role r)) (filter (\<lambda>r. rr_role r = role \<and> rr_tenantId r = t) rs)"

section \<open>Service keys of the gateway\<close>

record service_key =
  sk_id :: string
  sk_keyHash :: string
  sk_tenantId :: string
  sk_instanceId :: string
  sk_createdAt :: int
  sk_revokedAt :: "int option"

text \<open>The raw key and the row id are random; \<open>None\<close> when a unique index refuses the row.\<close>

definition generate :: "(string \<Rightarrow> string) \<Rightarrow> string \<Rightarrow> string \<Rightarrow> int \<Rightarrow> string \<Rightarrow> string \<Rightarrow> service_key list \<Rightarrow> service_key list option" where
  "generate hashKey raw i now tenantId instanceId keys =
     (if list_ex (\<lambda>k. sk_id k = i \<or> sk_keyHash k = hashKey raw) keys then None
      else Some (keys @ [\<lparr>sk_id = i, sk_keyHash = hashKey raw, sk_tenantId = tenantId, sk_instanceId = instanceId,
             sk_createdAt = now, sk_revokedAt = None\<rparr>]))"

definition resolve_key :: "(string \<Rightarrow> string) \<Rightarrow> string \<Rightarrow> service_key list \<Rightarrow> gateway_tenant option" where
  "resolve_key hashKey rawKey keys = map_option (\<lambda>k. \<lparr>gt_id = sk_tenantId k, gt_type = None,
       gt_spendLimits = \<lparr>sl_maxSpendPerHour = None, sl_maxSpendPerMonth = None, sl_label = None\<rparr>,
       gt_instanceId = Some (sk_instanceId k), gt_spendingCaps = None, gt_inferenceMode = None\<rparr>)
     (find (\<lambda>k. sk_keyHash k = hashKey rawKey \<and> sk_revokedAt k = None) keys)"

definition revoke_where :: "(service_key \<Rightarrow> bool) \<Rightarrow> int \<Rightarrow> service_key list \<Rightarrow> service_key list" where
  "revoke_where P now keys = map (\<lambda>k. if P k \<and> sk_revokedAt k = None then k\<lparr>sk_revokedAt := Some now\<rparr> else k) keys"

definition revokeByInstance :: "string \<Rightarrow> int \<Rightarrow> service_key list \<Rightarrow> service_key list" where
  "revokeByInstance instanceId = revoke_where (\<lambda>k. sk_instanceId k = instanceId)"

definition revokeByTenant :: "string \<Rightarrow> int \<Rightarrow> service_key list \<Rightarrow> service_key list" where
  "revokeByTenant tenantId = revoke_where (\<lambda>k. sk_tenantId k = tenantId)"

text \<open>The middleware of the gateway: refused with a code, or the tenant and the tenant to attribute to.\<close>

definition auth_error :: "string \<Rightarrow> string \<Rightarrow> refusal" where
  "auth_error msg code = \<lparr>rf_status = 401, rf_error = msg, rf_details = [(''type'', ''authentication_error''), (''code'', code)]\<rparr>"

definition serviceKeyAuth :: "(string \<Rightarrow> gateway_tenant option) \<Rightarrow> string option \<Rightarrow> string option
    \<Rightarrow> refusal + gateway_tenant \<times> string option" where
  "serviceKeyAuth resolveServiceKey authHeader attributeTo =
     (if \<not> truthy authHeader then Inl (auth_error ''Missing Authorization header'' ''missing_api_key'')
      else let trimmed = trim (the authHeader) in
        if \<not> startsWith (toLowerCase trimmed) ''bearer ''
        then Inl (auth_error ''Invalid Authorization header format. Expected: Bearer <service_key>'' ''invalid_auth_format'')
        else let serviceKey = trim (drop 7 trimmed) in
          if serviceKey = [] then Inl (auth_error ''Empty service key'' ''missing_api_key'')
          else case resolveServiceKey serviceKey of
              None \<Rightarrow> Inl (auth_error ''Invalid or expired service key'' ''invalid_api_key'')
            | Some tenant \<Rightarrow> Inr (tenant, attributeTo))"

section \<open>Which token is whose\<close>

lemma lookup_rev:
  "foldl (\<lambda>found (key, value). if length candidate = length key \<and> candidate = key then Some value else found) z m
     = (case map_of (rev m) candidate of None \<Rightarrow> z | Some v \<Rightarrow> Some v)"
  by (induction m rule: rev_induct) auto

lemma map_of_rev: "distinct (map fst m) \<Longrightarrow> map_of (rev m) k = map_of m k"
  by (induction m) (auto simp: map_add_def split: option.splits dest: map_of_SomeD intro: rev_image_eqI)

lemma lookup_map_of: "distinct (map fst m) \<Longrightarrow> timingSafeMapLookup m candidate = map_of m candidate"
  by (simp add: timingSafeMapLookup_def lookup_rev map_of_rev split: option.splits)

lemma VALID_SCOPES_iff: "VALID_SCOPES s = Some sc \<longleftrightarrow> s = scope_text sc"
  by (cases sc) (auto simp: VALID_SCOPES_def)

lemma startsWith_append: "startsWith s p \<longleftrightarrow> (\<exists>r. s = p @ r)"
  unfolding startsWith_def by (metis append_eq_conv_conj append_take_drop_id)

lemma scope_text_plain: "CHR '':'' \<notin> set (scope_text sc)"
  by (cases sc) auto

lemma trim_Nil [simp]: "trim [] = []"
  by (simp add: trim_def)

lemma split_first:
  assumes "c \<in> set xs"
  shows "xs = takeWhile (\<lambda>x. x \<noteq> c) xs @ c # drop (Suc (length (takeWhile (\<lambda>x. x \<noteq> c) xs))) xs"
  using assms by (induction xs) auto

lemma takeWhile_first: "c \<notin> set ys \<Longrightarrow> takeWhile (\<lambda>x. x \<noteq> c) (ys @ c # zs) = ys"
  by (induction ys) auto

definition tenant_bound :: "(string \<times> string) list \<Rightarrow> string \<Rightarrow> token_scope \<Rightarrow> string \<Rightarrow> bool" where
  "tenant_bound env token scope t \<longleftrightarrow> t \<noteq> []
     \<and> (\<exists>value. (FLEET_TOKEN @ t, value) \<in> set env \<and> trim value = scope_text scope @ '':'' @ token)"

lemma tenant_token_iff:
  "tenant_token (key, value) = Some (token, scope, t)
     \<longleftrightarrow> key = FLEET_TOKEN @ t \<and> t \<noteq> [] \<and> token \<noteq> [] \<and> trim value = scope_text scope @ '':'' @ token" (is "?l = ?r")
proof
  let ?s = "takeWhile (\<lambda>c. c \<noteq> CHR '':'') (trim value)"
  assume ?l
  then have k: "startsWith key FLEET_TOKEN" "CHR '':'' \<in> set (trim value)" "t = drop (length FLEET_TOKEN) key" "t \<noteq> []"
      "VALID_SCOPES ?s = Some scope" "token = drop (Suc (length ?s)) (trim value)" "token \<noteq> []"
    by (auto simp: tenant_token_def Let_def split: if_splits option.splits)
  then have "trim value = ?s @ CHR '':'' # token" using split_first[OF k(2)] by simp
  moreover have "key = FLEET_TOKEN @ t" using k(1,3) by (auto simp: startsWith_append)
  ultimately show ?r using k(4,5,7) unfolding VALID_SCOPES_iff by simp
next
  assume r: ?r
  then have s: "takeWhile (\<lambda>c. c \<noteq> CHR '':'') (trim value) = scope_text scope"
    using takeWhile_first[OF scope_text_plain] by simp
  have "value \<noteq> []" using r by auto
  then show ?l using r s VALID_SCOPES_iff[of "scope_text scope" scope]
    by (simp add: tenant_token_def Let_def startsWith_append)
qed

lemma tenant_bound_iff: "token \<noteq> [] \<Longrightarrow> tenant_bound env token scope t \<longleftrightarrow> (\<exists>e \<in> set env. tenant_token e = Some (token, scope, t))"
  by (auto simp: tenant_bound_def Bex_def tenant_token_iff)

text \<open>The loop over the variables of tenants: the entry of a token is that of its last variable.\<close>

abbreviation tenant_tokens :: "(string \<times> string) list \<Rightarrow> (string \<times> token_metadata) list" where
  "tenant_tokens env \<equiv> foldl (\<lambda>m e. case tenant_token e of None \<Rightarrow> m
     | Some (token, scope, tenantId) \<Rightarrow> AList.update token \<lparr>tm_scope = scope, tm_tenantId = Some tenantId\<rparr> m) [] env"

lemma tenant_tokens_Some:
  "map_of (tenant_tokens env) token = Some md
     \<Longrightarrow> \<exists>t. tm_tenantId md = Some t \<and> (\<exists>e \<in> set env. tenant_token e = Some (token, tm_scope md, t))"
proof (induction env rule: rev_induct)
  case Nil
  then show ?case by simp
next
  case (snoc e env)
  show ?case
  proof (cases "tenant_token e")
    case None
    then show ?thesis using snoc by auto
  next
    case (Some x)
    obtain tok sc t where x: "x = (tok, sc, t)" by (cases x) auto
    show ?thesis
    proof (cases "tok = token")
      case True
      then show ?thesis using snoc.prems Some x by (auto simp: AList.update_conv')
    next
      case False
      then have "map_of (tenant_tokens env) token = Some md" using snoc.prems Some x by (auto simp: AList.update_conv')
      then show ?thesis using snoc.IH by auto
    qed
  qed
qed

lemma tenant_tokens_None:
  "map_of (tenant_tokens env) token = None \<longleftrightarrow> (\<forall>e \<in> set env. \<forall>sc t. tenant_token e \<noteq> Some (token, sc, t))"
  by (induction env rule: rev_induct) (auto simp: AList.update_conv' split: option.splits)

lemma tenant_tokens_distinct: "distinct (map fst (tenant_tokens env))"
  by (induction env rule: rev_induct) (auto simp: AList.distinct_update split: option.splits)

text \<open>The operator's tokens are added where no tenant has the token.\<close>

abbreviation with_operators :: "(string \<times> token_metadata) list \<Rightarrow> (string \<times> token_scope) list \<Rightarrow> (string \<times> token_metadata) list" where
  "with_operators m ops \<equiv> foldl (\<lambda>m (token, scope). if map_of m token = None
     then AList.update token \<lparr>tm_scope = scope, tm_tenantId = None\<rparr> m else m) m ops"

lemma with_operators_map:
  "map_of (with_operators m ops) token = (case map_of m token of Some md \<Rightarrow> Some md
     | None \<Rightarrow> map_option (\<lambda>s. \<lparr>tm_scope = s, tm_tenantId = None\<rparr>) (map_of ops token))"
proof (induction ops arbitrary: m)
  case Nil
  then show ?case by (simp split: option.splits)
next
  case (Cons p ops)
  obtain tok sc where p: "p = (tok, sc)" by fastforce
  show ?case using Cons[of m] Cons[of "AList.update tok \<lparr>tm_scope = sc, tm_tenantId = None\<rparr> m"]
    by (auto simp: p AList.update_conv' split: option.splits)
qed

lemma with_operators_distinct: "distinct (map fst m) \<Longrightarrow> distinct (map fst (with_operators m ops))"
  by (induction ops rule: rev_induct) (auto simp: AList.distinct_update)

definition operator_bound :: "(string \<times> string) list \<Rightarrow> string \<Rightarrow> token_scope \<Rightarrow> bool" where
  "operator_bound env token scope \<longleftrightarrow> (\<exists>var. (var, scope) \<in> set scopedVars \<and> env_value env var = Some token)
     \<or> (env_value env ''FLEET_API_TOKEN'' = Some token
        \<and> scope = (case parseTokenScope token of None \<Rightarrow> Admin_Scope | Some s \<Rightarrow> s))"

lemma scoped_fold_Some:
  "map_of (foldl (\<lambda>m (envVar, scope). if truthy (env_value env envVar) then AList.update (the (env_value env envVar)) scope m else m) [] vars)
     token = Some scope \<Longrightarrow> \<exists>var. (var, scope) \<in> set vars \<and> env_value env var = Some token"
  by (induction vars rule: rev_induct)
    (auto simp: AList.update_conv' truthy_def split: if_splits option.splits prod.splits)

lemma buildTokenMap_Some: "map_of (buildTokenMap env) token = Some scope \<Longrightarrow> operator_bound env token scope"
  unfolding buildTokenMap_def Let_def
  using scoped_fold_Some[of env scopedVars token scope]
  by (auto simp: operator_bound_def AList.update_conv' truthy_def split: if_splits option.splits)

lemma metadata_Some:
  assumes "timingSafeMapLookup (buildTokenMetadataMap env) token = Some md" "token \<noteq> []"
  shows "(\<exists>t. tm_tenantId md = Some t \<and> tenant_bound env token (tm_scope md) t)
    \<or> tm_tenantId md = None \<and> operator_bound env token (tm_scope md) \<and> (\<forall>s t. \<not> tenant_bound env token s t)"
proof -
  have "map_of (with_operators (tenant_tokens env) (buildTokenMap env)) token = Some md"
    using assms(1) lookup_map_of[OF with_operators_distinct[OF tenant_tokens_distinct]] by (simp add: buildTokenMetadataMap_def)
  then consider "map_of (tenant_tokens env) token = Some md"
    | "map_of (tenant_tokens env) token = None" "tm_tenantId md = None" "map_of (buildTokenMap env) token = Some (tm_scope md)"
    unfolding with_operators_map by (auto split: option.splits)
  then show ?thesis
  proof cases
    case 1
    then show ?thesis using tenant_tokens_Some[OF 1] tenant_bound_iff[OF assms(2)] by auto
  next
    case 2
    then show ?thesis using buildTokenMap_Some[OF 2(3)] tenant_bound_iff[OF assms(2)] unfolding tenant_tokens_None by auto
  qed
qed

lemma extracted_nonempty: "extractBearerToken h = Some token \<Longrightarrow> token \<noteq> []"
  by (auto simp: extractBearerToken_def Let_def split: if_splits)

section \<open>Service keys over time\<close>

datatype key_op = Issued string string string | Revoked_Instance string | Revoked_Tenant string

inductive key_run :: "(string \<Rightarrow> string) \<Rightarrow> key_op list \<Rightarrow> service_key list \<Rightarrow> bool" for hashKey where
  start: "key_run hashKey [] []"
| issue: "key_run hashKey ops keys \<Longrightarrow> generate hashKey raw i now t inst keys = Some keys'
    \<Longrightarrow> key_run hashKey (ops @ [Issued raw t inst]) keys'"
| by_instance: "key_run hashKey ops keys \<Longrightarrow> key_run hashKey (ops @ [Revoked_Instance inst]) (revokeByInstance inst now keys)"
| by_tenant: "key_run hashKey ops keys \<Longrightarrow> key_run hashKey (ops @ [Revoked_Tenant t]) (revokeByTenant t now keys)"

text \<open>A key that was issued and neither whose instance nor whose tenant was revoked since.\<close>

definition live_key :: "key_op list \<Rightarrow> string \<Rightarrow> string \<Rightarrow> string \<Rightarrow> bool" where
  "live_key ops raw t inst \<longleftrightarrow> (\<exists>pre post. ops = pre @ Issued raw t inst # post
     \<and> Revoked_Instance inst \<notin> set post \<and> Revoked_Tenant t \<notin> set post)"

lemma live_key_Nil [simp]: "\<not> live_key [] raw t inst"
  by (simp add: live_key_def)

lemma live_key_snoc:
  "live_key (ops @ [oper]) raw t inst \<longleftrightarrow> oper = Issued raw t inst
     \<or> live_key ops raw t inst \<and> oper \<noteq> Revoked_Instance inst \<and> oper \<noteq> Revoked_Tenant t" (is "?l \<longleftrightarrow> ?r")
proof
  assume ?l
  then obtain pre post where p: "ops @ [oper] = pre @ Issued raw t inst # post"
      "Revoked_Instance inst \<notin> set post" "Revoked_Tenant t \<notin> set post" by (auto simp: live_key_def)
  show ?r
  proof (cases post rule: rev_cases)
    case Nil
    then show ?thesis using p(1) by simp
  next
    case (snoc ys y)
    then show ?thesis using p unfolding live_key_def by auto
  qed
next
  assume ?r
  then show ?l
  proof
    assume "oper = Issued raw t inst"
    then show ?l unfolding live_key_def by (intro exI[of _ ops] exI[of _ "[]"]) simp
  next
    assume r: "live_key ops raw t inst \<and> oper \<noteq> Revoked_Instance inst \<and> oper \<noteq> Revoked_Tenant t"
    then obtain pre post where "ops = pre @ Issued raw t inst # post" "Revoked_Instance inst \<notin> set post" "Revoked_Tenant t \<notin> set post"
      by (auto simp: live_key_def)
    then show ?l using r unfolding live_key_def by (intro exI[of _ pre] exI[of _ "post @ [oper]"]) auto
  qed
qed

text \<open>The rows not revoked are exactly those of the live keys, and no two rows share a hash.\<close>

definition live_rows :: "service_key list \<Rightarrow> (string \<times> string \<times> string) set" where
  "live_rows keys = (\<lambda>k. (sk_keyHash k, sk_tenantId k, sk_instanceId k)) ` {k \<in> set keys. sk_revokedAt k = None}"

lemma live_rows_revoke:
  "live_rows (revoke_where P now keys)
     = (\<lambda>k. (sk_keyHash k, sk_tenantId k, sk_instanceId k)) ` {k \<in> set keys. sk_revokedAt k = None \<and> \<not> P k}"
  by (auto simp: live_rows_def revoke_where_def image_iff split: if_splits)

lemma hashes_revoke [simp]: "map sk_keyHash (revoke_where P now keys) = map sk_keyHash keys"
  by (simp add: revoke_where_def)

lemma key_run_inv:
  assumes "key_run hashKey ops keys"
  shows "live_rows keys = {(hashKey raw, t, inst) | raw t inst. live_key ops raw t inst} \<and> distinct (map sk_keyHash keys)"
  using assms
proof (induction rule: key_run.induct)
  case start
  then show ?case by (simp add: live_rows_def)
next
  case (issue ops keys raw i now t inst keys')
  then have k: "keys' = keys @ [\<lparr>sk_id = i, sk_keyHash = hashKey raw, sk_tenantId = t, sk_instanceId = inst,
        sk_createdAt = now, sk_revokedAt = None\<rparr>]" "hashKey raw \<notin> set (map sk_keyHash keys)"
    by (auto simp: generate_def list_ex_iff split: if_splits)
  have "{k \<in> set keys'. sk_revokedAt k = None} = insert \<lparr>sk_id = i, sk_keyHash = hashKey raw, sk_tenantId = t, sk_instanceId = inst,
      sk_createdAt = now, sk_revokedAt = None\<rparr> {k \<in> set keys. sk_revokedAt k = None}" unfolding k(1) by auto
  then have "live_rows keys' = insert (hashKey raw, t, inst) (live_rows keys)" by (simp add: live_rows_def)
  also have "\<dots> = {(hashKey raw', t', inst') | raw' t' inst'. live_key (ops @ [Issued raw t inst]) raw' t' inst'}"
    using issue.IH by (auto simp: live_key_snoc)
  finally show ?case using issue.IH k by simp
next
  case (by_instance ops keys inst now)
  have "live_rows (revokeByInstance inst now keys) = {x \<in> live_rows keys. snd (snd x) \<noteq> inst}"
    unfolding revokeByInstance_def live_rows_revoke by (auto simp: live_rows_def)
  then show ?case using by_instance.IH by (auto simp: live_key_snoc revokeByInstance_def)
next
  case (by_tenant ops keys t now)
  have "live_rows (revokeByTenant t now keys) = {x \<in> live_rows keys. fst (snd x) \<noteq> t}"
    unfolding revokeByTenant_def live_rows_revoke by (auto simp: live_rows_def)
  then show ?case using by_tenant.IH by (auto simp: live_key_snoc revokeByTenant_def)
qed

definition key_tenant :: "string \<Rightarrow> string \<Rightarrow> gateway_tenant" where
  "key_tenant t inst = \<lparr>gt_id = t, gt_type = None,
     gt_spendLimits = \<lparr>sl_maxSpendPerHour = None, sl_maxSpendPerMonth = None, sl_label = None\<rparr>,
     gt_instanceId = Some inst, gt_spendingCaps = None, gt_inferenceMode = None\<rparr>"

lemma resolve_live:
  assumes "distinct (map sk_keyHash keys)"
  shows "resolve_key hashKey raw keys = Some g
    \<longleftrightarrow> (\<exists>t inst. (hashKey raw, t, inst) \<in> live_rows keys \<and> g = key_tenant t inst)" (is "?l \<longleftrightarrow> ?r")
proof
  let ?p = "\<lambda>k. sk_keyHash k = hashKey raw \<and> sk_revokedAt k = None"
  assume ?l
  then obtain k where "find ?p keys = Some k" "g = key_tenant (sk_tenantId k) (sk_instanceId k)"
    by (auto simp: resolve_key_def key_tenant_def)
  then show ?r by (auto simp: live_rows_def image_iff find_Some_iff in_set_conv_nth) metis
next
  let ?p = "\<lambda>k. sk_keyHash k = hashKey raw \<and> sk_revokedAt k = None"
  assume ?r
  then obtain k where k: "k \<in> set keys" "?p k" "g = key_tenant (sk_tenantId k) (sk_instanceId k)"
    by (auto simp: live_rows_def)
  then obtain k' where f: "find ?p keys = Some k'" by (cases "find ?p keys") (auto simp: find_None_iff)
  then have "k' \<in> set keys" "?p k'" by (auto simp: find_Some_iff)
  then have "k' = k" using k assms by (metis distinct_map inj_onD)
  then show ?l using f k(3) by (simp add: resolve_key_def key_tenant_def)
qed

lemma serviceKeyAuth_Inr:
  "serviceKeyAuth resolve header attr = Inr x
     \<longleftrightarrow> (\<exists>raw g. extractBearerToken header = Some raw \<and> resolve raw = Some g \<and> x = (g, attr))"
  by (auto simp: serviceKeyAuth_def extractBearerToken_def Let_def split: if_splits option.splits)

definition issued_keys :: "key_op list \<Rightarrow> string set" where
  "issued_keys ops = {raw. \<exists>t inst. Issued raw t inst \<in> set ops}"

lemma live_issued:
  assumes "live_key ops raw t inst"
  shows "raw \<in> issued_keys ops"
proof -
  have "Issued raw t inst \<in> set ops" using assms by (auto simp: live_key_def)
  then show ?thesis unfolding issued_keys_def by blast
qed

section \<open>Properties\<close>

text \<open>C36: Tenant tokens are confined to their tenant. A request that passes the tenant-aware bearer check carries a token of
  the environment whose configured scope reaches the required one, and acts with the role of exactly that scope. If any variable
  FLEET_TOKEN_<TENANT> configures the token, the request is bound to the tenant of such a variable: of existing resources the
  ownership check lets it reach those of that tenant and no others. Only a token that no such variable configures, and that is
  one of the operator's tokens, reaches every tenant's resources.\<close>

theorem tenant_tokens_confined:
  fixes r :: 'r
  assumes "scopedBearerAuthWithTenant (buildTokenMetadataMap env) required header fresh_context = Inr c"
  shows "\<exists>token scope. extractBearerToken header = Some token \<and> scopeSatisfies scope required
    \<and> (\<forall>s. requireRole (scope_text s) c = Inr c \<longleftrightarrow> s = scope)
    \<and> ((\<exists>t. tenant_bound env token scope t \<and> (\<forall>rt. validateTenantOwnership c (Some r) rt = None \<longleftrightarrow> rt = Some t))
       \<or> (\<forall>s t. \<not> tenant_bound env token s t) \<and> operator_bound env token scope
         \<and> (\<forall>rt. validateTenantOwnership c (Some r) rt = None))"
proof -
  obtain token md where t: "extractBearerToken header = Some token"
      "timingSafeMapLookup (buildTokenMetadataMap env) token = Some md" "scopeSatisfies (tm_scope md) required"
      "c = (let c' = fresh_context\<lparr>ac_user := Some (token_user (tm_scope md)), ac_authMethod := Some Api_Key_Auth\<rparr> in
         if truthy (tm_tenantId md) then c'\<lparr>ac_tokenTenantId := tm_tenantId md\<rparr> else c'\<lparr>ac_isOperatorToken := True\<rparr>)"
    using assms by (auto simp: scopedBearerAuthWithTenant_def Let_def split: option.splits if_splits)
  have user: "ac_user c = Some (token_user (tm_scope md))" unfolding t(4) by (simp add: Let_def)
  have role: "requireRole (scope_text s) c = Inr c \<longleftrightarrow> s = tm_scope md" for s
    by (cases s; cases "tm_scope md") (simp_all add: requireRole_def user token_user_def)
  have own: "tm_tenantId md = Some u \<Longrightarrow> u \<noteq> [] \<Longrightarrow> validateTenantOwnership c (Some r) rt = None \<longleftrightarrow> rt = Some u" for u rt
    by (simp add: t(4) Let_def truthy_def validateTenantOwnership_def fresh_context_def)
  have every: "tm_tenantId md = None \<Longrightarrow> validateTenantOwnership c (Some r) rt = None" for rt
    by (simp add: t(4) Let_def truthy_def validateTenantOwnership_def fresh_context_def)
  have bound: "tenant_bound env token (tm_scope md) u \<Longrightarrow> u \<noteq> []" for u by (simp add: tenant_bound_def)
  have "(\<exists>u. tenant_bound env token (tm_scope md) u \<and> (\<forall>rt. validateTenantOwnership c (Some r) rt = None \<longleftrightarrow> rt = Some u))
      \<or> (\<forall>s u. \<not> tenant_bound env token s u) \<and> operator_bound env token (tm_scope md)
        \<and> (\<forall>rt. validateTenantOwnership c (Some r) rt = None)"
    using own every bound metadata_Some[OF t(2) extracted_nonempty[OF t(1)]] by metis
  then show ?thesis using t(1,3) role by blast
qed

definition demo_env :: "(string \<times> string) list" where
  "demo_env = [(''FLEET_TOKEN_acme'', ''write:k1''), (''FLEET_API_TOKEN'', ''k1'')]"

theorem tenant_tokens_confined_witness:
  "\<exists>c. scopedBearerAuthWithTenant (buildTokenMetadataMap demo_env) Read_Scope (Some ''Bearer k1'') fresh_context = Inr c
     \<and> validateTenantOwnership c (Some ()) (Some ''acme'') = None \<and> validateTenantOwnership c (Some ()) (Some ''other'') \<noteq> None"
proof -
  let ?c = "\<lparr>ac_user = Some (token_user Write_Scope), ac_authMethod = Some Api_Key_Auth, ac_tokenTenantId = Some ''acme'', ac_isOperatorToken = False\<rparr>"
  have c: "scopedBearerAuthWithTenant (buildTokenMetadataMap demo_env) Read_Scope (Some ''Bearer k1'') fresh_context = Inr ?c"
      "validateTenantOwnership ?c (Some ()) (Some ''other'') \<noteq> None" by code_simp+
  have "extractBearerToken (Some ''Bearer k1'') = Some ''k1''" by code_simp
  moreover have "tenant_token e \<in> {None, Some (''k1'', Write_Scope, ''acme'')}" if "e \<in> set demo_env" for e
  proof -
    have "list_all (\<lambda>e. tenant_token e \<in> {None, Some (''k1'', Write_Scope, ''acme'')}) demo_env" by code_simp
    then show ?thesis using that by (simp add: list_all_iff)
  qed
  then have "tenant_bound demo_env ''k1'' s t \<Longrightarrow> t = ''acme''" for s t using tenant_bound_iff[of "''k1''" demo_env s t] by force
  ultimately have "validateTenantOwnership ?c (Some ()) (Some ''acme'') = None"
    using tenant_tokens_confined[OF c(1), of "()"] c(2) by fastforce
  then show ?thesis using c by blast
qed

text \<open>C37: A service key speaks for the tenant it was issued for, until it is revoked. Over any history of keys issued and
  revoked by instance or by tenant, the gateway admits a request exactly when it carries a bearer key that was issued and
  whose instance and tenant were not revoked since, and then it acts for the tenant and the instance of that key, without spend limits of
  its own. The hash is assumed not to collide on the keys in play.\<close>

theorem service_keys_exact:
  assumes "key_run hashKey ops keys" "inj_on hashKey (issued_keys ops \<union> set_option (extractBearerToken header))"
  shows "serviceKeyAuth (\<lambda>k. resolve_key hashKey k keys) header attr = Inr x
    \<longleftrightarrow> (\<exists>raw t inst. extractBearerToken header = Some raw \<and> live_key ops raw t inst \<and> x = (key_tenant t inst, attr))"
proof -
  note inv = key_run_inv[OF assms(1)]
  have "resolve_key hashKey raw keys = Some g \<longleftrightarrow> (\<exists>t inst. live_key ops raw t inst \<and> g = key_tenant t inst)"
    if "extractBearerToken header = Some raw" for raw g
  proof -
    have "(hashKey raw, t, inst) \<in> live_rows keys \<longleftrightarrow> live_key ops raw t inst" for t inst
      using inv that assms(2) live_issued by (auto dest: inj_onD)
    then show ?thesis using resolve_live[of keys hashKey raw g] inv by simp
  qed
  then show ?thesis unfolding serviceKeyAuth_Inr by blast
qed

theorem service_keys_exact_witness:
  "\<exists>keys. key_run id [Issued ''k1'' ''t1'' ''i1'', Issued ''k2'' ''t1'' ''i2'', Revoked_Instance ''i1''] keys
     \<and> serviceKeyAuth (\<lambda>k. resolve_key id k keys) (Some ''Bearer k2'') None = Inr (key_tenant ''t1'' ''i2'', None)
     \<and> (\<forall>x. serviceKeyAuth (\<lambda>k. resolve_key id k keys) (Some ''Bearer k1'') None \<noteq> Inr x)"
proof -
  let ?k = "\<lambda>i raw inst. \<lparr>sk_id = i, sk_keyHash = raw, sk_tenantId = ''t1'', sk_instanceId = inst, sk_createdAt = 0, sk_revokedAt = None\<rparr>"
  have "key_run id ([] @ [Issued ''k1'' ''t1'' ''i1'']) [?k ''a'' ''k1'' ''i1'']"
    by (rule key_run.issue[OF key_run.start, where i = "''a''" and now = 0]) (simp add: generate_def)
  then have "key_run id (([] @ [Issued ''k1'' ''t1'' ''i1'']) @ [Issued ''k2'' ''t1'' ''i2'']) [?k ''a'' ''k1'' ''i1'', ?k ''b'' ''k2'' ''i2'']"
    by (rule key_run.issue[where i = "''b''" and now = 0]) (simp add: generate_def)
  then obtain keys where run: "key_run id ((([] @ [Issued ''k1'' ''t1'' ''i1'']) @ [Issued ''k2'' ''t1'' ''i2'']) @ [Revoked_Instance ''i1'']) keys"
    using key_run.by_instance by blast
  have "extractBearerToken (Some ''Bearer k2'') = Some ''k2''" "extractBearerToken (Some ''Bearer k1'') = Some ''k1''" by code_simp+
  moreover have "live_key ((([] @ [Issued ''k1'' ''t1'' ''i1'']) @ [Issued ''k2'' ''t1'' ''i2'']) @ [Revoked_Instance ''i1'']) raw t inst
      \<longleftrightarrow> raw = ''k2'' \<and> t = ''t1'' \<and> inst = ''i2''" for raw t inst
    unfolding live_key_snoc by auto
  ultimately have "serviceKeyAuth (\<lambda>k. resolve_key id k keys) (Some ''Bearer k2'') None = Inr (key_tenant ''t1'' ''i2'', None)"
      "serviceKeyAuth (\<lambda>k. resolve_key id k keys) (Some ''Bearer k1'') None \<noteq> Inr x" for x
    using service_keys_exact[OF run, of "Some ''Bearer k2''" None "(key_tenant ''t1'' ''i2'', None)"]
      service_keys_exact[OF run, of "Some ''Bearer k1''" None x] by simp_all
  then show ?thesis using run by auto
qed

end
