(* ===== verification/Mailing.thy ===== *)
theory Mailing
  imports Proxy
begin

text \<open>
  Mail to tenants (\<open>src/email/\<close>): the service that turns events into notifications (\<open>notification-service.ts\<close>), the
  queue with its retries (\<open>notification-queue-store.ts\<close>), the preferences and the templates
  (\<open>notification-preferences-store.ts\<close>, \<open>drizzle-notification-template-repository.ts\<close>,
  \<open>handlebars-renderer.ts\<close>) and the worker that sends (\<open>notification-worker.ts\<close>). The transport answers each mail from
  the mails before it; Handlebars and the texts of the templates in code are parameters. The worker does not await
  its marks; they are taken to succeed at once.
\<close>

section \<open>Tables\<close>

datatype mail_status = Mail_Pending | Mail_Sent | Mail_Failed

record queued =
  qn_id :: nat
  qn_tenantId :: string
  qn_template :: string
  qn_recipientEmail :: string
  qn_data :: body_text
  qn_status :: mail_status
  qn_attempts :: nat
  qn_retryAfter :: "int option"
  qn_sentAt :: "int option"
  qn_createdAt :: int

record notification_prefs =
  np_billing_low_balance :: bool
  np_billing_receipts :: bool
  np_billing_auto_topup :: bool
  np_agent_channel_disconnect :: bool
  np_agent_status_changes :: bool
  np_account_role_changes :: bool
  np_account_team_invites :: bool
  np_fleet_updates :: bool

record template_row =
  tr_id :: nat
  tr_name :: string
  tr_description :: "string option"
  tr_subject :: string
  tr_htmlBody :: string
  tr_textBody :: string
  tr_active :: bool
  tr_createdAt :: int
  tr_updatedAt :: int

record mail_message =
  ml_to :: string
  ml_subject :: string
  ml_html :: string
  ml_text :: string
  ml_userId :: string
  ml_templateName :: string

text \<open>Every mail handed to the transport is kept, with its notification and whether it was accepted.\<close>

record mailroom =
  nq_rows :: "queued list"
  nq_prefs :: "(string \<times> notification_prefs) list"
  nq_templates :: "template_row list"
  nq_sends :: "(nat \<times> mail_message \<times> bool) list"
  nq_now :: int
  nq_uuid :: nat

section \<open>Queue\<close>

definition text_field :: "string \<Rightarrow> json \<Rightarrow> string option" where
  "text_field f data = (case field f data of Some (JStr s) \<Rightarrow> Some s | _ \<Rightarrow> None)"

definition enqueue :: "string \<Rightarrow> string \<Rightarrow> json \<Rightarrow> mailroom \<Rightarrow> nat \<times> mailroom" where
  "enqueue tenantId template data s =
     (nq_uuid s, s\<lparr>nq_uuid := nq_uuid s + 1,
        nq_rows := nq_rows s @ [\<lparr>qn_id = nq_uuid s, qn_tenantId = tenantId, qn_template = template,
          qn_recipientEmail = (case text_field ''email'' data of None \<Rightarrow> [] | Some e \<Rightarrow> e), qn_data = Json_Text data,
          qn_status = Mail_Pending, qn_attempts = 0, qn_retryAfter = None, qn_sentAt = None, qn_createdAt = nq_now s\<rparr>]\<rparr>)"

definition mail_due :: "int \<Rightarrow> queued \<Rightarrow> bool" where
  "mail_due now r \<longleftrightarrow> qn_status r = Mail_Pending \<and> (case qn_retryAfter r of None \<Rightarrow> True | Some t \<Rightarrow> t \<le> now)"

definition fetchPending :: "nat \<Rightarrow> mailroom \<Rightarrow> queued list" where
  "fetchPending limit s = take limit (filter (mail_due (nq_now s)) (nq_rows s))"

definition update_queued :: "nat \<Rightarrow> (queued \<Rightarrow> queued) \<Rightarrow> mailroom \<Rightarrow> mailroom" where
  "update_queued i f s = s\<lparr>nq_rows := map (\<lambda>r. if qn_id r = i then f r else r) (nq_rows s)\<rparr>"

definition mail_markSent :: "nat \<Rightarrow> mailroom \<Rightarrow> mailroom" where
  "mail_markSent i s = update_queued i (\<lambda>r. r\<lparr>qn_status := Mail_Sent, qn_sentAt := Some (nq_now s)\<rparr>) s"

definition maxAttempts :: nat where
  "maxAttempts = 5"

definition backoffMs :: "nat \<Rightarrow> int" where
  "backoffMs attempts = min (60000 * 2 ^ attempts) 3600000"

definition mail_markFailed :: "nat \<Rightarrow> nat \<Rightarrow> mailroom \<Rightarrow> mailroom" where
  "mail_markFailed i attempts s = update_queued i (\<lambda>r. r\<lparr>
     qn_status := (if attempts \<ge> maxAttempts then Mail_Failed else Mail_Pending), qn_attempts := attempts,
     qn_retryAfter := (if attempts \<ge> maxAttempts then None else Some (nq_now s + backoffMs attempts))\<rparr>) s"

definition listForTenant :: "string \<Rightarrow> nat option \<Rightarrow> nat option \<Rightarrow> mail_status option \<Rightarrow> mailroom \<Rightarrow> queued list \<times> nat" where
  "listForTenant tenantId limit offset status s =
     (let rows = filter (\<lambda>r. qn_tenantId r = tenantId \<and> (case status of None \<Rightarrow> True | Some x \<Rightarrow> qn_status r = x)) (nq_rows s)
      in (take (case limit of None \<Rightarrow> 50 | Some n \<Rightarrow> n) (drop (case offset of None \<Rightarrow> 0 | Some n \<Rightarrow> n)
            (sort_key (\<lambda>r. - qn_createdAt r) rows)), length rows))"

section \<open>Preferences\<close>

definition DEFAULTS :: notification_prefs where
  "DEFAULTS = \<lparr>np_billing_low_balance = True, np_billing_receipts = True, np_billing_auto_topup = True,
     np_agent_channel_disconnect = True, np_agent_status_changes = False, np_account_role_changes = True,
     np_account_team_invites = True, np_fleet_updates = True\<rparr>"

definition prefs_get :: "string \<Rightarrow> mailroom \<Rightarrow> notification_prefs" where
  "prefs_get tenantId s = (case map_of (nq_prefs s) tenantId of None \<Rightarrow> DEFAULTS | Some p \<Rightarrow> p)"

text \<open>A partial update: \<open>None\<close> is an absent field.\<close>

record prefs_patch =
  px_billing_low_balance :: "bool option"
  px_billing_receipts :: "bool option"
  px_billing_auto_topup :: "bool option"
  px_agent_channel_disconnect :: "bool option"
  px_agent_status_changes :: "bool option"
  px_account_role_changes :: "bool option"
  px_account_team_invites :: "bool option"
  px_fleet_updates :: "bool option"

definition given_or :: "'a option \<Rightarrow> 'a \<Rightarrow> 'a" where
  "given_or x old = (case x of None \<Rightarrow> old | Some v \<Rightarrow> v)"

definition patch_prefs :: "prefs_patch \<Rightarrow> notification_prefs \<Rightarrow> notification_prefs" where
  "patch_prefs x p = \<lparr>np_billing_low_balance = given_or (px_billing_low_balance x) (np_billing_low_balance p),
     np_billing_receipts = given_or (px_billing_receipts x) (np_billing_receipts p),
     np_billing_auto_topup = given_or (px_billing_auto_topup x) (np_billing_auto_topup p),
     np_agent_channel_disconnect = given_or (px_agent_channel_disconnect x) (np_agent_channel_disconnect p),
     np_agent_status_changes = given_or (px_agent_status_changes x) (np_agent_status_changes p),
     np_account_role_changes = given_or (px_account_role_changes x) (np_account_role_changes p),
     np_account_team_invites = given_or (px_account_team_invites x) (np_account_team_invites p),
     np_fleet_updates = given_or (px_fleet_updates x) (np_fleet_updates p)\<rparr>"

definition prefs_update :: "string \<Rightarrow> prefs_patch \<Rightarrow> mailroom \<Rightarrow> mailroom" where
  "prefs_update tenantId x s = s\<lparr>nq_prefs := AList.update tenantId (patch_prefs x (prefs_get tenantId s)) (nq_prefs s)\<rparr>"

section \<open>Templates\<close>

definition getByName :: "string \<Rightarrow> mailroom \<Rightarrow> template_row option" where
  "getByName name s = find (\<lambda>t. tr_name t = name) (nq_templates s)"

record template_input =
  ti_name :: string
  ti_description :: "string option"
  ti_subject :: string
  ti_htmlBody :: string
  ti_textBody :: string
  ti_active :: bool

text \<open>Seconds since the epoch.\<close>

definition now_seconds :: "mailroom \<Rightarrow> int" where
  "now_seconds s = nq_now s div 1000"

definition new_template :: "template_input \<Rightarrow> mailroom \<Rightarrow> template_row" where
  "new_template t s = \<lparr>tr_id = nq_uuid s, tr_name = ti_name t, tr_description = ti_description t, tr_subject = ti_subject t,
     tr_htmlBody = ti_htmlBody t, tr_textBody = ti_textBody t, tr_active = ti_active t,
     tr_createdAt = now_seconds s, tr_updatedAt = now_seconds s\<rparr>"

definition upsert_template :: "template_input \<Rightarrow> mailroom \<Rightarrow> mailroom" where
  "upsert_template t s = s\<lparr>nq_uuid := nq_uuid s + 1, nq_templates :=
     (if getByName (ti_name t) s = None then nq_templates s @ [new_template t s]
      else map (\<lambda>r. if tr_name r = ti_name t
        then r\<lparr>tr_description := ti_description t, tr_subject := ti_subject t, tr_htmlBody := ti_htmlBody t,
               tr_textBody := ti_textBody t, tr_active := ti_active t, tr_updatedAt := now_seconds s\<rparr>
        else r) (nq_templates s))\<rparr>"

text \<open>One insert that skips the names present; the number of rows inserted.\<close>

definition seed_templates :: "template_input list \<Rightarrow> mailroom \<Rightarrow> nat \<times> mailroom" where
  "seed_templates ts s = foldl (\<lambda>(n, s) t. let s' = s\<lparr>nq_uuid := nq_uuid s + 1\<rparr> in
     if getByName (ti_name t) s = None
     then (n + 1, s'\<lparr>nq_templates := nq_templates s @ [new_template (t\<lparr>ti_active := True\<rparr>) s]\<rparr>) else (n, s')) (0, s) ts"

definition reseedAll :: "template_input list \<Rightarrow> mailroom \<Rightarrow> nat \<times> mailroom" where
  "reseedAll ts s = foldl (\<lambda>(n, s) t. (n + 1, upsert_template (t\<lparr>ti_active := True\<rparr>) s)) (0, s) ts"

section \<open>Worker\<close>

type_synonym rendered = "string \<times> string \<times> string"

record worker =
  we_transport :: "mail_message list \<Rightarrow> mail_message \<Rightarrow> bool"
  we_batchSize :: "nat option"
  we_handlebars :: "(string \<Rightarrow> json \<Rightarrow> string option) option"
  we_code :: "string \<Rightarrow> json \<Rightarrow> rendered option"
  we_year :: "int \<Rightarrow> rat"

text \<open>\<open>{ currentYear, ...data }\<close>.\<close>

definition render_context :: "worker \<Rightarrow> json \<Rightarrow> mailroom \<Rightarrow> json" where
  "render_context env data s = JObj (foldl (\<lambda>m (k, v). set_field k v m) [(''currentYear'', JNum (we_year env (nq_now s)))]
     (case data of JObj kvs \<Rightarrow> kvs | _ \<Rightarrow> []))"

text \<open>The outer \<open>None\<close> is an exception; the inner one \<open>null\<close>: no such template, or an inactive one.\<close>

definition handlebars_render :: "worker \<Rightarrow> (string \<Rightarrow> json \<Rightarrow> string option) \<Rightarrow> string \<Rightarrow> json \<Rightarrow> mailroom \<Rightarrow> rendered option option" where
  "handlebars_render env compile name data s = (case getByName name s of
     None \<Rightarrow> Some None
   | Some t \<Rightarrow> if \<not> tr_active t then Some None
       else let ctx = render_context env data s in
         (case (compile (tr_subject t) ctx, compile (tr_htmlBody t) ctx, compile (tr_textBody t) ctx) of
            (Some subject, Some html, Some txt) \<Rightarrow> Some (Some (subject, html, txt))
          | _ \<Rightarrow> None))"

text \<open>The templates in code; any other name is thrown at.\<close>

definition NOTIFICATION_TEMPLATES :: "string list" where
  "NOTIFICATION_TEMPLATES = [''credits-depleted'', ''grace-period-start'', ''grace-period-warning'', ''auto-suspended'',
     ''auto-topup-success'', ''auto-topup-failed'', ''crypto-payment-confirmed'', ''admin-suspended'', ''admin-reactivated'',
     ''credits-granted'', ''role-changed'', ''team-invite'', ''agent-created'', ''channel-connected'', ''channel-disconnected'',
     ''agent-suspended'', ''affiliate-credit-match'', ''spend-alert'', ''custom'', ''dividend-weekly-digest'',
     ''account-deletion-requested'', ''account-deletion-cancelled'', ''account-deletion-completed'', ''fleet-update-available'',
     ''fleet-update-complete'', ''low-balance'', ''credit-purchase-receipt'', ''welcome'', ''password-reset'']"

definition renderNotificationTemplate :: "worker \<Rightarrow> string \<Rightarrow> json \<Rightarrow> rendered option" where
  "renderNotificationTemplate env name data = (if name \<in> set NOTIFICATION_TEMPLATES then we_code env name data else None)"

definition render_mail :: "worker \<Rightarrow> string \<Rightarrow> json \<Rightarrow> mailroom \<Rightarrow> rendered option" where
  "render_mail env name data s = (case we_handlebars env of
     None \<Rightarrow> renderNotificationTemplate env name data
   | Some compile \<Rightarrow> (case handlebars_render env compile name data s of
       None \<Rightarrow> None
     | Some None \<Rightarrow> renderNotificationTemplate env name data
     | Some (Some r) \<Rightarrow> Some r))"

definition CRITICAL_TEMPLATES :: "string list" where
  "CRITICAL_TEMPLATES = [''grace-period-start'', ''grace-period-warning'', ''auto-suspended'', ''admin-suspended'',
     ''admin-reactivated'', ''password-reset'', ''welcome'', ''account-deletion-requested'', ''account-deletion-cancelled'',
     ''account-deletion-completed'']"

definition PREF_MAP :: "string \<Rightarrow> string option" where
  "PREF_MAP = map_of [(''low-balance'', ''billing_low_balance''), (''credits-depleted'', ''billing_low_balance''),
     (''auto-topup-success'', ''billing_auto_topup''), (''auto-topup-failed'', ''billing_auto_topup''),
     (''credit-purchase-receipt'', ''billing_receipts''), (''crypto-payment-confirmed'', ''billing_receipts''),
     (''channel-disconnected'', ''agent_channel_disconnect''), (''agent-created'', ''agent_status_changes''),
     (''channel-connected'', ''agent_status_changes''), (''agent-suspended'', ''agent_status_changes''),
     (''credits-granted'', ''billing_receipts''), (''dividend-weekly-digest'', ''billing_receipts''),
     (''role-changed'', ''account_role_changes''), (''team-invite'', ''account_team_invites''),
     (''fleet-update-available'', ''fleet_updates''), (''fleet-update-complete'', ''fleet_updates'')]"

text \<open>Reading a property of an object; \<open>None\<close> is \<open>undefined\<close>.\<close>

definition isEnabledByPreferences :: "string \<Rightarrow> (string \<Rightarrow> bool option) \<Rightarrow> bool" where
  "isEnabledByPreferences template prefs = (case PREF_MAP template of None \<Rightarrow> True | Some k \<Rightarrow> prefs k \<noteq> Some False)"

definition prefs_fields :: "notification_prefs \<Rightarrow> string \<Rightarrow> bool option" where
  "prefs_fields p = map_of [(''billing_low_balance'', np_billing_low_balance p), (''billing_receipts'', np_billing_receipts p),
     (''billing_auto_topup'', np_billing_auto_topup p), (''agent_channel_disconnect'', np_agent_channel_disconnect p),
     (''agent_status_changes'', np_agent_status_changes p), (''account_role_changes'', np_account_role_changes p),
     (''account_team_invites'', np_account_team_invites p), (''fleet_updates'', np_fleet_updates p)]"

text \<open>The worker does not await \<open>preferences.get\<close>, so what it reads the flags of is a promise, which has none of them.\<close>

definition promise_fields :: "string \<Rightarrow> bool option" where
  "promise_fields = (\<lambda>_. None)"

definition worker_mail :: "queued \<Rightarrow> string \<Rightarrow> rendered \<Rightarrow> mail_message" where
  "worker_mail r addr = (\<lambda>(subject, html, txt). \<lparr>ml_to = addr, ml_subject = subject, ml_html = html, ml_text = txt,
     ml_userId = qn_tenantId r, ml_templateName = qn_template r\<rparr>)"

definition send_mail :: "worker \<Rightarrow> queued \<Rightarrow> mail_message \<Rightarrow> mailroom \<Rightarrow> mailroom" where
  "send_mail env r m s =
     (let ok = we_transport env (map (fst \<circ> snd) (nq_sends s)) m; s' = s\<lparr>nq_sends := nq_sends s @ [(qn_id r, m, ok)]\<rparr>
      in if ok then mail_markSent (qn_id r) s' else mail_markFailed (qn_id r) (qn_attempts r + 1) s')"

definition process_notif :: "worker \<Rightarrow> mailroom \<Rightarrow> queued \<Rightarrow> mailroom" where
  "process_notif env s r =
     (let failed = mail_markFailed (qn_id r) (qn_attempts r + 1) s in
      case qn_data r of
        Not_Json _ \<Rightarrow> failed
      | Json_Text data \<Rightarrow>
          if \<not> truthy (text_field ''email'' data) then failed
          else if qn_template r \<notin> set CRITICAL_TEMPLATES \<and> \<not> isEnabledByPreferences (qn_template r) promise_fields
          then mail_markSent (qn_id r) s
          else case render_mail env (qn_template r) data s of
              None \<Rightarrow> failed
            | Some txt \<Rightarrow> send_mail env r (worker_mail r (the (text_field ''email'' data)) txt) s)"

definition processBatch :: "worker \<Rightarrow> mailroom \<Rightarrow> nat \<times> mailroom" where
  "processBatch env s =
     (let pending = fetchPending (case we_batchSize env of None \<Rightarrow> 10 | Some n \<Rightarrow> n) s
      in (length pending, foldl (process_notif env) s pending))"

section \<open>Service\<close>

record notification_service =
  ns_appBaseUrl :: string
  ns_brandName :: string

definition service_enqueue :: "notification_service \<Rightarrow> string \<Rightarrow> string \<Rightarrow> (string \<times> json) list \<Rightarrow> mailroom \<Rightarrow> mailroom" where
  "service_enqueue svc tenantId template data s =
     snd (enqueue tenantId template (JObj (set_field ''brandName'' (JStr (ns_brandName svc)) data)) s)"

definition creditsUrl :: "notification_service \<Rightarrow> string" where
  "creditsUrl svc = ns_appBaseUrl svc @ ''/billing/credits''"

definition notifyLowBalance :: "notification_service \<Rightarrow> string \<Rightarrow> string \<Rightarrow> string \<Rightarrow> rat \<Rightarrow> mailroom \<Rightarrow> mailroom" where
  "notifyLowBalance svc tenantId email balanceDollars estimatedDays = service_enqueue svc tenantId ''low-balance''
     [(''email'', JStr email), (''balanceDollars'', JStr balanceDollars), (''estimatedDaysRemaining'', JNum estimatedDays),
      (''creditsUrl'', JStr (creditsUrl svc))]"

definition notifyCreditsDepeleted :: "notification_service \<Rightarrow> string \<Rightarrow> string \<Rightarrow> mailroom \<Rightarrow> mailroom" where
  "notifyCreditsDepeleted svc tenantId email = service_enqueue svc tenantId ''credits-depleted''
     [(''email'', JStr email), (''creditsUrl'', JStr (creditsUrl svc))]"

definition notifyGracePeriodStart :: "notification_service \<Rightarrow> string \<Rightarrow> string \<Rightarrow> string \<Rightarrow> rat \<Rightarrow> mailroom \<Rightarrow> mailroom" where
  "notifyGracePeriodStart svc tenantId email balanceDollars graceDays = service_enqueue svc tenantId ''grace-period-start''
     [(''email'', JStr email), (''balanceDollars'', JStr balanceDollars), (''graceDays'', JNum graceDays),
      (''creditsUrl'', JStr (creditsUrl svc))]"

definition notifyGracePeriodWarning :: "notification_service \<Rightarrow> string \<Rightarrow> string \<Rightarrow> mailroom \<Rightarrow> mailroom" where
  "notifyGracePeriodWarning svc tenantId email = service_enqueue svc tenantId ''grace-period-warning''
     [(''email'', JStr email), (''creditsUrl'', JStr (creditsUrl svc))]"

definition notifyAutoSuspended :: "notification_service \<Rightarrow> string \<Rightarrow> string \<Rightarrow> string \<Rightarrow> mailroom \<Rightarrow> mailroom" where
  "notifyAutoSuspended svc tenantId email reason = service_enqueue svc tenantId ''auto-suspended''
     [(''email'', JStr email), (''reason'', JStr reason), (''creditsUrl'', JStr (creditsUrl svc))]"

definition notifyAutoTopUpSuccess :: "notification_service \<Rightarrow> string \<Rightarrow> string \<Rightarrow> string \<Rightarrow> string \<Rightarrow> mailroom \<Rightarrow> mailroom" where
  "notifyAutoTopUpSuccess svc tenantId email amountDollars newBalanceDollars = service_enqueue svc tenantId ''auto-topup-success''
     [(''email'', JStr email), (''amountDollars'', JStr amountDollars), (''newBalanceDollars'', JStr newBalanceDollars),
      (''creditsUrl'', JStr (creditsUrl svc))]"

definition notifyAutoTopUpFailed :: "notification_service \<Rightarrow> string \<Rightarrow> string \<Rightarrow> mailroom \<Rightarrow> mailroom" where
  "notifyAutoTopUpFailed svc tenantId email = service_enqueue svc tenantId ''auto-topup-failed''
     [(''email'', JStr email), (''creditsUrl'', JStr (creditsUrl svc))]"

definition notifyAffiliateCreditMatch :: "notification_service \<Rightarrow> string \<Rightarrow> string \<Rightarrow> string \<Rightarrow> mailroom \<Rightarrow> mailroom" where
  "notifyAffiliateCreditMatch svc tenantId email amountDollars = service_enqueue svc tenantId ''affiliate-credit-match''
     [(''email'', JStr email), (''amountDollars'', JStr amountDollars), (''creditsUrl'', JStr (creditsUrl svc))]"

definition notifyDisputeCreated :: "notification_service \<Rightarrow> string \<Rightarrow> string \<Rightarrow> string \<Rightarrow> string \<Rightarrow> string \<Rightarrow> mailroom \<Rightarrow> mailroom" where
  "notifyDisputeCreated svc tenantId email disputeId amountDollars reason = service_enqueue svc tenantId ''dispute-created''
     [(''email'', JStr email), (''disputeId'', JStr disputeId), (''amountDollars'', JStr amountDollars),
      (''reason'', JStr reason), (''creditsUrl'', JStr (creditsUrl svc))]"

definition notifyDisputeWon :: "notification_service \<Rightarrow> string \<Rightarrow> string \<Rightarrow> string \<Rightarrow> string \<Rightarrow> mailroom \<Rightarrow> mailroom" where
  "notifyDisputeWon svc tenantId email disputeId amountDollars = service_enqueue svc tenantId ''dispute-won''
     [(''email'', JStr email), (''disputeId'', JStr disputeId), (''amountDollars'', JStr amountDollars),
      (''creditsUrl'', JStr (creditsUrl svc))]"

definition notifyDisputeLost :: "notification_service \<Rightarrow> string \<Rightarrow> string \<Rightarrow> string \<Rightarrow> string \<Rightarrow> mailroom \<Rightarrow> mailroom" where
  "notifyDisputeLost svc tenantId email disputeId amountDollars = service_enqueue svc tenantId ''dispute-lost''
     [(''email'', JStr email), (''disputeId'', JStr disputeId), (''amountDollars'', JStr amountDollars),
      (''creditsUrl'', JStr (creditsUrl svc))]"

definition notifySpendThresholdAlert :: "notification_service \<Rightarrow> string \<Rightarrow> string \<Rightarrow> string \<Rightarrow> string \<Rightarrow> mailroom \<Rightarrow> mailroom" where
  "notifySpendThresholdAlert svc tenantId email currentSpendDollars alertAtDollars = service_enqueue svc tenantId ''spend-alert''
     [(''email'', JStr email), (''currentSpendDollars'', JStr currentSpendDollars), (''alertAtDollars'', JStr alertAtDollars),
      (''creditsUrl'', JStr (creditsUrl svc))]"

definition notifyCreditPurchaseReceipt :: "notification_service \<Rightarrow> string \<Rightarrow> string \<Rightarrow> string \<Rightarrow> string \<Rightarrow> mailroom \<Rightarrow> mailroom" where
  "notifyCreditPurchaseReceipt svc tenantId email amountDollars newBalanceDollars = service_enqueue svc tenantId ''credit-purchase-receipt''
     [(''email'', JStr email), (''amountDollars'', JStr amountDollars), (''newBalanceDollars'', JStr newBalanceDollars),
      (''creditsUrl'', JStr (creditsUrl svc))]"

definition notifyDividendWeeklyDigest :: "notification_service \<Rightarrow> string \<Rightarrow> string \<Rightarrow> string \<Rightarrow> rat \<Rightarrow> string \<Rightarrow> rat \<Rightarrow> rat \<Rightarrow> rat \<Rightarrow> string \<Rightarrow> string \<Rightarrow> string \<Rightarrow> mailroom \<Rightarrow> mailroom" where
  "notifyDividendWeeklyDigest svc tenantId email weeklyTotalDollars weeklyTotalCents lifetimeTotalDollars distributionCount poolAvgCents activeUsersAvg nextDividendDate weekStartDate weekEndDate = service_enqueue svc tenantId ''dividend-weekly-digest''
     [(''email'', JStr email), (''weeklyTotalDollars'', JStr weeklyTotalDollars), (''weeklyTotalCents'', JNum weeklyTotalCents),
      (''lifetimeTotalDollars'', JStr lifetimeTotalDollars), (''distributionCount'', JNum distributionCount), (''poolAvgCents'', JNum poolAvgCents),
      (''activeUsersAvg'', JNum activeUsersAvg), (''nextDividendDate'', JStr nextDividendDate), (''weekStartDate'', JStr weekStartDate),
      (''weekEndDate'', JStr weekEndDate), (''unsubscribeUrl'', JStr (ns_appBaseUrl svc @ ''/settings/notifications'')), (''creditsUrl'', JStr (creditsUrl svc))]"

definition notifyCryptoPaymentConfirmed :: "notification_service \<Rightarrow> string \<Rightarrow> string \<Rightarrow> string \<Rightarrow> string \<Rightarrow> mailroom \<Rightarrow> mailroom" where
  "notifyCryptoPaymentConfirmed svc tenantId email amountDollars newBalanceDollars = service_enqueue svc tenantId ''crypto-payment-confirmed''
     [(''email'', JStr email), (''amountDollars'', JStr amountDollars), (''newBalanceDollars'', JStr newBalanceDollars)]"

definition notifyAdminSuspended :: "notification_service \<Rightarrow> string \<Rightarrow> string \<Rightarrow> string \<Rightarrow> mailroom \<Rightarrow> mailroom" where
  "notifyAdminSuspended svc tenantId email reason = service_enqueue svc tenantId ''admin-suspended''
     [(''email'', JStr email), (''reason'', JStr reason)]"

definition notifyAdminReactivated :: "notification_service \<Rightarrow> string \<Rightarrow> string \<Rightarrow> mailroom \<Rightarrow> mailroom" where
  "notifyAdminReactivated svc tenantId email = service_enqueue svc tenantId ''admin-reactivated''
     [(''email'', JStr email)]"

definition notifyCreditsGranted :: "notification_service \<Rightarrow> string \<Rightarrow> string \<Rightarrow> string \<Rightarrow> string \<Rightarrow> mailroom \<Rightarrow> mailroom" where
  "notifyCreditsGranted svc tenantId email amountDollars reason = service_enqueue svc tenantId ''credits-granted''
     [(''email'', JStr email), (''amountDollars'', JStr amountDollars), (''reason'', JStr reason)]"

definition notifyRoleChanged :: "notification_service \<Rightarrow> string \<Rightarrow> string \<Rightarrow> string \<Rightarrow> mailroom \<Rightarrow> mailroom" where
  "notifyRoleChanged svc tenantId email newRole = service_enqueue svc tenantId ''role-changed''
     [(''email'', JStr email), (''newRole'', JStr newRole)]"

definition notifyTeamInvite :: "notification_service \<Rightarrow> string \<Rightarrow> string \<Rightarrow> string \<Rightarrow> string \<Rightarrow> mailroom \<Rightarrow> mailroom" where
  "notifyTeamInvite svc tenantId email tenantName inviteUrl = service_enqueue svc tenantId ''team-invite''
     [(''email'', JStr email), (''tenantName'', JStr tenantName), (''inviteUrl'', JStr inviteUrl)]"

definition notifyAgentCreated :: "notification_service \<Rightarrow> string \<Rightarrow> string \<Rightarrow> string \<Rightarrow> mailroom \<Rightarrow> mailroom" where
  "notifyAgentCreated svc tenantId email agentName = service_enqueue svc tenantId ''agent-created''
     [(''email'', JStr email), (''agentName'', JStr agentName)]"

definition notifyChannelConnected :: "notification_service \<Rightarrow> string \<Rightarrow> string \<Rightarrow> string \<Rightarrow> string \<Rightarrow> mailroom \<Rightarrow> mailroom" where
  "notifyChannelConnected svc tenantId email channelName agentName = service_enqueue svc tenantId ''channel-connected''
     [(''email'', JStr email), (''channelName'', JStr channelName), (''agentName'', JStr agentName)]"

definition notifyChannelDisconnected :: "notification_service \<Rightarrow> string \<Rightarrow> string \<Rightarrow> string \<Rightarrow> string \<Rightarrow> string \<Rightarrow> mailroom \<Rightarrow> mailroom" where
  "notifyChannelDisconnected svc tenantId email channelName agentName reason = service_enqueue svc tenantId ''channel-disconnected''
     [(''email'', JStr email), (''channelName'', JStr channelName), (''agentName'', JStr agentName),
      (''reason'', JStr reason)]"

definition notifyAgentSuspended :: "notification_service \<Rightarrow> string \<Rightarrow> string \<Rightarrow> string \<Rightarrow> string \<Rightarrow> mailroom \<Rightarrow> mailroom" where
  "notifyAgentSuspended svc tenantId email agentName reason = service_enqueue svc tenantId ''agent-suspended''
     [(''email'', JStr email), (''agentName'', JStr agentName), (''reason'', JStr reason)]"

definition notifyAccountDeletionRequested :: "notification_service \<Rightarrow> string \<Rightarrow> string \<Rightarrow> string \<Rightarrow> mailroom \<Rightarrow> mailroom" where
  "notifyAccountDeletionRequested svc tenantId email deleteAfterDate = service_enqueue svc tenantId ''account-deletion-requested''
     [(''email'', JStr email), (''deleteAfterDate'', JStr deleteAfterDate), (''cancelUrl'', JStr (ns_appBaseUrl svc @ ''/settings/account''))]"

definition notifyAccountDeletionCancelled :: "notification_service \<Rightarrow> string \<Rightarrow> string \<Rightarrow> mailroom \<Rightarrow> mailroom" where
  "notifyAccountDeletionCancelled svc tenantId email = service_enqueue svc tenantId ''account-deletion-cancelled''
     [(''email'', JStr email)]"

definition notifyAccountDeletionCompleted :: "notification_service \<Rightarrow> string \<Rightarrow> string \<Rightarrow> mailroom \<Rightarrow> mailroom" where
  "notifyAccountDeletionCompleted svc tenantId email = service_enqueue svc tenantId ''account-deletion-completed''
     [(''email'', JStr email)]"

definition notifyFleetUpdateAvailable :: "notification_service \<Rightarrow> string \<Rightarrow> string \<Rightarrow> string \<Rightarrow> string \<Rightarrow> string \<Rightarrow> mailroom \<Rightarrow> mailroom" where
  "notifyFleetUpdateAvailable svc tenantId email version changelogDate changelogSummary = service_enqueue svc tenantId ''fleet-update-available''
     [(''email'', JStr email), (''version'', JStr version), (''changelogDate'', JStr changelogDate),
      (''changelogSummary'', JStr changelogSummary), (''fleetUrl'', JStr (ns_appBaseUrl svc @ ''/fleet''))]"

definition notifyFleetUpdateComplete :: "notification_service \<Rightarrow> string \<Rightarrow> string \<Rightarrow> string \<Rightarrow> rat \<Rightarrow> rat \<Rightarrow> mailroom \<Rightarrow> mailroom" where
  "notifyFleetUpdateComplete svc tenantId email version good bad = service_enqueue svc tenantId ''fleet-update-complete''
     [(''email'', JStr email), (''version'', JStr version), (''succeeded'', JNum good),
      (''failed'', JNum bad), (''total'', JNum (js_add good bad)), (''fleetUrl'', JStr (ns_appBaseUrl svc @ ''/fleet''))]"

definition sendCustomEmail :: "notification_service \<Rightarrow> string \<Rightarrow> string \<Rightarrow> string \<Rightarrow> string \<Rightarrow> mailroom \<Rightarrow> mailroom" where
  "sendCustomEmail svc tenantId email subject bodyText = service_enqueue svc tenantId ''custom''
     [(''email'', JStr email), (''subject'', JStr subject), (''bodyText'', JStr bodyText)]"

section \<open>Fleet events\<close>

text \<open>
  The listener collects the results of a rollout per tenant (\<open>src/fleet/fleet-notification-listener.ts\<close>) and mails a
  summary when no event has come for a while. A timer is the instant it fires.
\<close>

datatype fleet_event = Bot_Event string string "string option" | Node_Event string

record pending_rollout =
  pr_version :: string
  pr_succeeded :: rat
  pr_failed :: rat
  pr_timer :: int

type_synonym listener = "(string \<times> pending_rollout) list"

definition on_fleet_event :: "int \<Rightarrow> int \<Rightarrow> fleet_event \<Rightarrow> listener \<Rightarrow> listener" where
  "on_fleet_event debounceMs now e pend = (case e of
     Node_Event _ \<Rightarrow> pend
   | Bot_Event kind tenantId version \<Rightarrow>
       if kind \<noteq> ''bot.updated'' \<and> kind \<noteq> ''bot.update_failed'' then pend
       else let p = (case map_of pend tenantId of
               None \<Rightarrow> \<lparr>pr_version = given_or version ''latest'', pr_succeeded = 0, pr_failed = 0, pr_timer = now + debounceMs\<rparr>
             | Some p \<Rightarrow> (if truthy version then p\<lparr>pr_version := the version\<rparr> else p)\<lparr>pr_timer := now + debounceMs\<rparr>)
         in AList.update tenantId (if kind = ''bot.updated'' then p\<lparr>pr_succeeded := js_add (pr_succeeded p) 1\<rparr>
              else p\<lparr>pr_failed := js_add (pr_failed p) 1\<rparr>) pend)"

text \<open>The owner's address and the preferences are looked up; a failing look-up is logged only.\<close>

definition flush_rollout :: "notification_service \<Rightarrow> (string \<Rightarrow> unit + string option) \<Rightarrow> bool \<Rightarrow> string
    \<Rightarrow> listener \<times> mailroom \<Rightarrow> listener \<times> mailroom" where
  "flush_rollout svc resolveEmail prefsOk tenantId = (\<lambda>(pend, s). case map_of pend tenantId of
     None \<Rightarrow> (pend, s)
   | Some p \<Rightarrow> (AList.delete tenantId pend,
       if \<not> prefsOk \<or> \<not> np_fleet_updates (prefs_get tenantId s) then s
       else case resolveEmail tenantId of
           Inl _ \<Rightarrow> s
         | Inr email \<Rightarrow> if \<not> truthy email then s
             else notifyFleetUpdateComplete svc tenantId (the email) (pr_version p) (pr_succeeded p) (pr_failed p) s))"

text \<open>The end: every rollout still pending is flushed.\<close>

definition stop_listener :: "notification_service \<Rightarrow> (string \<Rightarrow> unit + string option) \<Rightarrow> bool \<Rightarrow> listener \<times> mailroom \<Rightarrow> listener \<times> mailroom" where
  "stop_listener svc resolveEmail prefsOk = (\<lambda>(pend, s).
     ([], snd (foldl (\<lambda>x t. flush_rollout svc resolveEmail prefsOk t x) (pend, s) (map fst pend))))"

section \<open>Runs of the queue\<close>

text \<open>Notifications are enqueued and batches processed in any order; the clock does not go back, and the other tables may
  change at any time.\<close>

inductive mail_run :: "worker \<Rightarrow> mailroom \<Rightarrow> bool" for env where
  start: "nq_rows s = [] \<Longrightarrow> nq_sends s = [] \<Longrightarrow> mail_run env s"
| enqueued: "mail_run env s \<Longrightarrow> mail_run env (snd (enqueue tenantId template data s))"
| batch: "mail_run env s \<Longrightarrow> mail_run env (snd (processBatch env s))"
| others: "mail_run env s \<Longrightarrow> nq_rows s' = nq_rows s \<Longrightarrow> nq_sends s' = nq_sends s \<Longrightarrow> nq_uuid s \<le> nq_uuid s'
    \<Longrightarrow> nq_now s \<le> nq_now s' \<Longrightarrow> mail_run env s'"

definition sends_of :: "nat \<Rightarrow> mailroom \<Rightarrow> (nat \<times> mail_message \<times> bool) list" where
  "sends_of i s = filter (\<lambda>x. fst x = i) (nq_sends s)"

definition accepted :: "nat \<Rightarrow> mailroom \<Rightarrow> nat" where
  "accepted i s = length (filter (\<lambda>x. snd (snd x)) (sends_of i s))"

definition row_settled :: "mailroom \<Rightarrow> queued \<Rightarrow> bool" where
  "row_settled s r \<longleftrightarrow> accepted (qn_id r) s = (if qn_status r = Mail_Sent then 1 else 0)
     \<and> length (sends_of (qn_id r) s) \<le> qn_attempts r + accepted (qn_id r) s
     \<and> (if qn_status r = Mail_Failed then qn_attempts r = maxAttempts else qn_attempts r < maxAttempts)
     \<and> (\<forall>x \<in> set (sends_of (qn_id r) s). ml_userId (fst (snd x)) = qn_tenantId r \<and> ml_templateName (fst (snd x)) = qn_template r)
     \<and> (\<forall>t. qn_retryAfter r = Some t \<longrightarrow> t \<le> nq_now s + 3600000)"

definition mail_inv :: "mailroom \<Rightarrow> bool" where
  "mail_inv s \<longleftrightarrow> distinct (map qn_id (nq_rows s)) \<and> (\<forall>r \<in> set (nq_rows s). qn_id r < nq_uuid s \<and> row_settled s r)
     \<and> (\<forall>x \<in> set (nq_sends s). fst x \<in> qn_id ` set (nq_rows s))"

lemma promise_enables [simp]: "isEnabledByPreferences t promise_fields"
  by (simp add: isEnabledByPreferences_def promise_fields_def split: option.splits)

text \<open>What one notification does: it fails before the transport, or is refused by it, or is accepted.\<close>

datatype mail_outcome = Unsent | Refused mail_message | Accepted mail_message

definition outcome_of :: "worker \<Rightarrow> mailroom \<Rightarrow> queued \<Rightarrow> mail_outcome" where
  "outcome_of env s r = (case qn_data r of
     Not_Json _ \<Rightarrow> Unsent
   | Json_Text data \<Rightarrow>
       if \<not> truthy (text_field ''email'' data) then Unsent
       else case render_mail env (qn_template r) data s of
           None \<Rightarrow> Unsent
         | Some txt \<Rightarrow> let m = worker_mail r (the (text_field ''email'' data)) txt in
             if we_transport env (map (fst \<circ> snd) (nq_sends s)) m then Accepted m else Refused m)"

fun logged :: "nat \<Rightarrow> mail_outcome \<Rightarrow> (nat \<times> mail_message \<times> bool) list" where
  "logged i Unsent = []"
| "logged i (Refused m) = [(i, m, False)]"
| "logged i (Accepted m) = [(i, m, True)]"

fun took :: "mail_outcome \<Rightarrow> bool" where
  "took (Accepted m) = True"
| "took _ = False"

definition marked_row :: "int \<Rightarrow> bool \<Rightarrow> queued \<Rightarrow> queued" where
  "marked_row now ok r = (if ok then r\<lparr>qn_status := Mail_Sent, qn_sentAt := Some now\<rparr>
     else r\<lparr>qn_status := (if Suc (qn_attempts r) \<ge> maxAttempts then Mail_Failed else Mail_Pending), qn_attempts := Suc (qn_attempts r),
            qn_retryAfter := (if Suc (qn_attempts r) \<ge> maxAttempts then None else Some (now + backoffMs (Suc (qn_attempts r))))\<rparr>)"

lemma process_row_effect:
  assumes "r \<in> set (nq_rows s)" "distinct (map qn_id (nq_rows s))"
  shows "process_notif env s r = s\<lparr>nq_sends := nq_sends s @ logged (qn_id r) (outcome_of env s r),
    nq_rows := map (\<lambda>x. if qn_id x = qn_id r then marked_row (nq_now s) (took (outcome_of env s r)) x else x) (nq_rows s)\<rparr>"
proof -
  have same: "x = r" if "x \<in> set (nq_rows s)" "qn_id x = qn_id r" for x
    using that assms by (auto simp: distinct_map dest: inj_onD)
  have sent: "mail_markSent (qn_id r) s' = s'\<lparr>nq_rows := map (\<lambda>x. if qn_id x = qn_id r then marked_row (nq_now s) True x else x) (nq_rows s)\<rparr>"
    if "nq_rows s' = nq_rows s" "nq_now s' = nq_now s" for s' using that
    by (simp add: mail_markSent_def update_queued_def marked_row_def)
  have failed: "mail_markFailed (qn_id r) (qn_attempts r + 1) s'
      = s'\<lparr>nq_rows := map (\<lambda>x. if qn_id x = qn_id r then marked_row (nq_now s) False x else x) (nq_rows s)\<rparr>"
    if "nq_rows s' = nq_rows s" "nq_now s' = nq_now s" for s'
    unfolding mail_markFailed_def update_queued_def that
    by (rule arg_cong[where f = "\<lambda>z. s'\<lparr>nq_rows := z\<rparr>"], rule map_cong[OF refl]) (auto dest: same simp: marked_row_def)
  show ?thesis
  proof (cases "qn_data r")
    case (Not_Json x)
    then show ?thesis using failed[of s] by (simp add: process_notif_def outcome_of_def)
  next
    case (Json_Text data)
    then show ?thesis
      using failed[of s] sent[of "s\<lparr>nq_sends := x\<rparr>" for x] failed[of "s\<lparr>nq_sends := x\<rparr>" for x]
      by (auto simp: process_notif_def outcome_of_def send_mail_def Let_def split: option.splits)
  qed
qed

lemma backoff_bound: "backoffMs n \<le> 3600000"
  by (simp add: backoffMs_def)

lemma process_ids [simp]:
  assumes "r \<in> set (nq_rows s)" "distinct (map qn_id (nq_rows s))"
  shows "map qn_id (nq_rows (process_notif env s r)) = map qn_id (nq_rows s)" "nq_now (process_notif env s r) = nq_now s"
    "nq_uuid (process_notif env s r) = nq_uuid s" "nq_templates (process_notif env s r) = nq_templates s"
  unfolding process_row_effect[OF assms] by (simp_all add: marked_row_def)

lemma outcome_mail:
  "logged i (outcome_of env s r) = [(j, m, ok)] \<Longrightarrow> j = i \<and> ml_userId m = qn_tenantId r \<and> ml_templateName m = qn_template r"
  by (auto simp: outcome_of_def worker_mail_def Let_def split: body_text.splits option.splits if_splits)

lemma logged_cases:
  obtains "logged i x = []" "\<not> took x" | m where "logged i x = [(i, m, took x)]"
  by (cases x) auto

lemma process_settled:
  assumes inv: "mail_inv s" and r: "r \<in> set (nq_rows s)" "qn_status r = Mail_Pending"
  shows "mail_inv (process_notif env s r)"
proof -
  let ?x = "outcome_of env s r" and ?s = "process_notif env s r"
  have d: "distinct (map qn_id (nq_rows s))" using inv by (simp add: mail_inv_def)
  note eff = process_row_effect[OF r(1) d, of env]
  have uniq: "y = r" if "y \<in> set (nq_rows s)" "qn_id y = qn_id r" for y
    using that r(1) d by (auto simp: distinct_map dest: inj_onD)
  have sends: "sends_of i ?s = sends_of i s @ (if i = qn_id r then logged (qn_id r) ?x else [])" for i
    unfolding eff by (rule logged_cases[of "qn_id r" ?x]) (auto simp: sends_of_def)
  have acc: "accepted i ?s = accepted i s + (if i = qn_id r \<and> took ?x then 1 else 0)" for i
    unfolding accepted_def sends by (rule logged_cases[of "qn_id r" ?x]) auto
  have len: "length (logged (qn_id r) ?x) \<le> 1" by (rule logged_cases[of "qn_id r" ?x]) auto
  have old: "row_settled s r" using inv r(1) by (simp add: mail_inv_def)
  have mails: "\<forall>x \<in> set (logged (qn_id r) ?x). ml_userId (fst (snd x)) = qn_tenantId r \<and> ml_templateName (fst (snd x)) = qn_template r"
    by (rule logged_cases[of "qn_id r" ?x]) (use outcome_mail[of "qn_id r" env s r] in auto)
  have new: "row_settled ?s (marked_row (nq_now s) (took ?x) r)"
  proof (cases "took ?x")
    case True
    have "qn_id (marked_row (nq_now s) (took ?x) r) = qn_id r" by (simp add: marked_row_def)
    then show ?thesis
      using old r(2) True len mails unfolding row_settled_def acc sends
      by (auto simp: marked_row_def process_ids[OF r(1) d])
  next
    case False
    have "qn_id (marked_row (nq_now s) (took ?x) r) = qn_id r" by (simp add: marked_row_def)
    then show ?thesis
      using old r(2) False len mails backoff_bound[of "Suc (qn_attempts r)"] unfolding row_settled_def acc sends
      by (auto simp: marked_row_def process_ids[OF r(1) d] maxAttempts_def)
  qed
  have other: "row_settled ?s y" if "y \<in> set (nq_rows s)" "qn_id y \<noteq> qn_id r" for y
    using inv that unfolding mail_inv_def row_settled_def acc sends process_ids(2)[OF r(1) d] by auto
  have ids: "map qn_id (nq_rows ?s) = map qn_id (nq_rows s)" by (rule process_ids(1)[OF r(1) d])
  have rows: "set (nq_rows ?s) = (\<lambda>x. if qn_id x = qn_id r then marked_row (nq_now s) (took ?x) x else x) ` set (nq_rows s)"
    unfolding eff by simp
  have "row_settled ?s y \<and> qn_id y < nq_uuid ?s" if y: "y \<in> set (nq_rows ?s)" for y
  proof -
    obtain z where z: "z \<in> set (nq_rows s)" "y = (if qn_id z = qn_id r then marked_row (nq_now s) (took ?x) z else z)"
      using y unfolding rows by blast
    have "qn_id y = qn_id z" using z(2) by (simp add: marked_row_def)
    then show ?thesis using z new other uniq inv unfolding process_ids(3)[OF r(1) d] by (auto simp: mail_inv_def)
  qed
  moreover have "fst x \<in> qn_id ` set (nq_rows ?s)" if x: "x \<in> set (nq_sends ?s)" for x
  proof -
    have "x \<in> set (nq_sends s) \<or> fst x = qn_id r" using x unfolding eff
      by (rule_tac logged_cases[of "qn_id r" ?x]) auto
    then have "fst x \<in> qn_id ` set (nq_rows s)" using inv r(1) by (auto simp: mail_inv_def)
    then show ?thesis using ids by (metis list.set_map)
  qed
  ultimately show ?thesis using d ids unfolding mail_inv_def by simp
qed

text \<open>The loop over a batch: every row of it is still as it was fetched when its turn comes.\<close>

lemma process_others:
  assumes "r \<in> set (nq_rows s)" "distinct (map qn_id (nq_rows s))" "y \<in> set (nq_rows s)" "qn_id y \<noteq> qn_id r"
  shows "y \<in> set (nq_rows (process_notif env s r))"
  unfolding process_row_effect[OF assms(1,2)] using assms(3,4) by (auto simp: image_iff)

lemma batch_induct:
  assumes "mail_inv s" "set rs \<subseteq> set (nq_rows s)" "distinct (map qn_id rs)" "\<forall>r \<in> set rs. qn_status r = Mail_Pending"
    and "P s" "\<And>s r. mail_inv s \<Longrightarrow> r \<in> set (nq_rows s) \<Longrightarrow> r \<in> set rs \<Longrightarrow> qn_status r = Mail_Pending \<Longrightarrow> P s \<Longrightarrow> P (process_notif env s r)"
  shows "mail_inv (foldl (process_notif env) s rs) \<and> P (foldl (process_notif env) s rs)"
  using assms
proof (induction rs arbitrary: s)
  case Nil
  then show ?case by simp
next
  case (Cons r rs)
  have d: "distinct (map qn_id (nq_rows s))" and r: "r \<in> set (nq_rows s)" using Cons.prems by (auto simp: mail_inv_def)
  have "mail_inv (process_notif env s r)" using process_settled Cons.prems r by simp
  moreover have "set rs \<subseteq> set (nq_rows (process_notif env s r))"
  proof
    fix y assume "y \<in> set rs"
    then have "y \<in> set (nq_rows s)" "qn_id y \<noteq> qn_id r" using Cons.prems(2,3) by (auto simp: image_iff)
    then show "y \<in> set (nq_rows (process_notif env s r))" by (rule process_others[OF r d])
  qed
  moreover have "P (process_notif env s r)" using Cons.prems(1,4,5,6) r by simp
  moreover have "distinct (map qn_id rs)" "\<forall>r \<in> set rs. qn_status r = Mail_Pending" using Cons.prems(3,4) by simp_all
  moreover have "P (process_notif env s' x)"
    if "mail_inv s'" "x \<in> set (nq_rows s')" "x \<in> set rs" "qn_status x = Mail_Pending" "P s'" for s' x
    using Cons.prems(6) that by simp
  ultimately show ?case using Cons.IH[of "process_notif env s r"] by simp
qed

lemma fetched:
  "set (fetchPending n s) \<subseteq> set (nq_rows s)" "r \<in> set (fetchPending n s) \<Longrightarrow> qn_status r = Mail_Pending"
  "distinct (map qn_id (nq_rows s)) \<Longrightarrow> distinct (map qn_id (fetchPending n s))"
  by (auto simp: fetchPending_def mail_due_def take_map[symmetric] distinct_map_filter dest: in_set_takeD)

definition batch_size :: "worker \<Rightarrow> nat" where
  "batch_size env = (case we_batchSize env of None \<Rightarrow> 10 | Some n \<Rightarrow> n)"

lemma processBatch_fold: "snd (processBatch env s) = foldl (process_notif env) s (fetchPending (batch_size env) s)"
  by (simp add: processBatch_def batch_size_def Let_def)

lemma batch_inv:
  assumes "mail_inv s" "P s" "\<And>s r. mail_inv s \<Longrightarrow> r \<in> set (nq_rows s) \<Longrightarrow> qn_status r = Mail_Pending \<Longrightarrow> P s \<Longrightarrow> P (process_notif env s r)"
  shows "mail_inv (snd (processBatch env s)) \<and> P (snd (processBatch env s))"
  unfolding processBatch_fold
  by (rule batch_induct) (use assms fetched in \<open>auto simp: mail_inv_def\<close>)

lemma row_settled_mono:
  assumes "row_settled s r" "nq_sends s' = nq_sends s" "nq_now s \<le> nq_now s'"
  shows "row_settled s' r"
  using assms by (force simp: row_settled_def accepted_def sends_of_def)

lemma enqueue_inv:
  assumes "mail_inv s"
  shows "mail_inv (snd (enqueue t tmpl data s))"
proof -
  let ?s = "snd (enqueue t tmpl data s)"
  have "nq_uuid s \<notin> fst ` set (nq_sends s)" using assms by (fastforce simp: mail_inv_def)
  then have none: "filter (\<lambda>x. fst x = nq_uuid s) (nq_sends s) = []" by (force simp: filter_empty_conv image_iff)
  obtain n where n: "nq_rows ?s = nq_rows s @ [n]" "qn_id n = nq_uuid s" "row_settled ?s n"
    using none by (simp add: enqueue_def row_settled_def accepted_def sends_of_def maxAttempts_def)
  have old: "row_settled ?s r \<and> qn_id r < nq_uuid s" if "r \<in> set (nq_rows s)" for r
    using assms that row_settled_mono[of s r ?s] by (simp add: mail_inv_def enqueue_def)
  have rest: "nq_uuid ?s = Suc (nq_uuid s)" "nq_sends ?s = nq_sends s" by (simp_all add: enqueue_def)
  have "distinct (map qn_id (nq_rows s))" "\<forall>x \<in> set (nq_sends s). fst x \<in> qn_id ` set (nq_rows s)"
    using assms by (simp_all add: mail_inv_def)
  then show ?thesis unfolding mail_inv_def n(1) rest using n(2,3) old by (force simp: less_Suc_eq)
qed

lemma mail_run_inv: "mail_run env s \<Longrightarrow> mail_inv s"
proof (induction rule: mail_run.induct)
  case (start s)
  then show ?case by (simp add: mail_inv_def)
next
  case (enqueued s tenantId template data)
  then show ?case by (simp add: enqueue_inv)
next
  case (batch s)
  then show ?case using batch_inv[of s "\<lambda>_. True"] by simp
next
  case (others s s')
  then have "\<forall>r \<in> set (nq_rows s). row_settled s' r" using row_settled_mono by (auto simp: mail_inv_def)
  then show ?case using others by (fastforce simp: mail_inv_def)
qed

section \<open>Progress\<close>

definition tries_left :: "queued \<Rightarrow> nat" where
  "tries_left r = (if qn_status r = Mail_Pending then maxAttempts - qn_attempts r else 0)"

definition mail_work :: "mailroom \<Rightarrow> nat" where
  "mail_work s = sum_list (map tries_left (nq_rows s))"

lemma sum_list_smaller:
  fixes f g :: "'a \<Rightarrow> nat"
  assumes "\<And>x. x \<in> set xs \<Longrightarrow> f x \<le> g x" "y \<in> set xs" "f y < g y"
  shows "sum_list (map f xs) < sum_list (map g xs)"
  using assms
proof (induction xs)
  case Nil
  then show ?case by simp
next
  case (Cons x xs)
  have le: "f x \<le> g x" "sum_list (map f xs) \<le> sum_list (map g xs)" using Cons.prems(1) by (auto intro: sum_list_mono)
  show ?case
  proof (cases "x = y")
    case True
    then show ?thesis using Cons.prems(3) le by simp
  next
    case False
    then have "sum_list (map f xs) < sum_list (map g xs)" using Cons by simp
    then show ?thesis using le by simp
  qed
qed

lemma marked_less:
  assumes "qn_status r = Mail_Pending" "qn_attempts r < maxAttempts"
  shows "tries_left (marked_row now ok r) < tries_left r"
  using assms by (cases ok) (auto simp: tries_left_def marked_row_def)

lemma process_work:
  assumes inv: "mail_inv s" and r: "r \<in> set (nq_rows s)" "qn_status r = Mail_Pending"
  shows "mail_work (process_notif env s r) < mail_work s"
proof -
  have d: "distinct (map qn_id (nq_rows s))" using inv by (simp add: mail_inv_def)
  have left: "qn_attempts r < maxAttempts" using inv r by (auto simp: mail_inv_def row_settled_def)
  have uniq: "y = r" if "y \<in> set (nq_rows s)" "qn_id y = qn_id r" for y
    using that r(1) d by (auto simp: distinct_map dest: inj_onD)
  let ?f = "\<lambda>x. if qn_id x = qn_id r then marked_row (nq_now s) (took (outcome_of env s r)) x else x"
  have "sum_list (map (\<lambda>x. tries_left (?f x)) (nq_rows s)) < sum_list (map tries_left (nq_rows s))"
    by (rule sum_list_smaller[OF _ r(1)]) (use uniq marked_less[OF r(2) left] in \<open>auto intro: less_imp_le\<close>)
  then show ?thesis unfolding mail_work_def process_row_effect[OF r(1) d] by (simp add: comp_def)
qed

lemma batch_work_le:
  assumes "mail_inv s" "set rs \<subseteq> set (nq_rows s)" "distinct (map qn_id rs)" "\<forall>r \<in> set rs. qn_status r = Mail_Pending"
  shows "mail_work (foldl (process_notif env) s rs) \<le> mail_work s"
proof -
  have "mail_work (process_notif env s' r) \<le> mail_work s"
    if "mail_inv s'" "r \<in> set (nq_rows s')" "qn_status r = Mail_Pending" "mail_work s' \<le> mail_work s" for s' r
    using process_work[OF that(1-3), of env] that(4) by linarith
  then show ?thesis using batch_induct[OF assms, where P = "\<lambda>s'. mail_work s' \<le> mail_work s"] by simp
qed

lemma batch_work:
  assumes "mail_inv s" "fetchPending (batch_size env) s \<noteq> []"
  shows "mail_work (snd (processBatch env s)) < mail_work s"
proof -
  obtain r rs where f: "fetchPending (batch_size env) s = r # rs" using assms(2) by (cases "fetchPending (batch_size env) s") auto
  have d: "distinct (map qn_id (nq_rows s))" using assms(1) by (simp add: mail_inv_def)
  have sub: "set (r # rs) \<subseteq> set (nq_rows s)" unfolding f[symmetric] by (rule fetched(1))
  have dis: "distinct (map qn_id (r # rs))" unfolding f[symmetric] by (rule fetched(3)[OF d])
  have pend: "qn_status x = Mail_Pending" if "x \<in> set (r # rs)" for x using that unfolding f[symmetric] by (rule fetched(2))
  have r: "r \<in> set (nq_rows s)" "qn_status r = Mail_Pending" using sub pend by simp_all
  have "y \<in> set (nq_rows (process_notif env s r))" if "y \<in> set rs" for y
    by (rule process_others[OF r(1) d]) (use that sub dis in \<open>auto simp: image_iff\<close>)
  then have "mail_work (foldl (process_notif env) (process_notif env s r) rs) \<le> mail_work (process_notif env s r)"
    using batch_work_le[OF process_settled[OF assms(1) r], of rs env env] dis pend by auto
  then show ?thesis using process_work[OF assms(1) r, of env] unfolding processBatch_fold f by simp
qed

lemma due_later:
  assumes "mail_inv s" "nq_now s + 3600000 \<le> t" "r \<in> set (nq_rows s)" "qn_status r = Mail_Pending"
  shows "mail_due t r"
  using assms by (force simp: mail_due_def mail_inv_def row_settled_def split: option.splits)

text \<open>Batches at given instants.\<close>

definition batch_at :: "worker \<Rightarrow> mailroom \<Rightarrow> int \<Rightarrow> mailroom" where
  "batch_at env s t = snd (processBatch env (s\<lparr>nq_now := t\<rparr>))"

lemma process_now: "nq_now (process_notif env s r) = nq_now s"
  by (auto simp: process_notif_def mail_markFailed_def mail_markSent_def update_queued_def send_mail_def Let_def
      split: body_text.splits option.splits)

lemma batch_now [simp]: "nq_now (batch_at env s t) = t"
proof -
  have "nq_now (foldl (process_notif env) s' rs) = nq_now s'" for s' rs
    by (induction rs arbitrary: s') (simp_all add: process_now)
  then show ?thesis by (simp add: batch_at_def processBatch_fold)
qed

lemma process_templates: "nq_templates (process_notif env s r) = nq_templates s"
  by (auto simp: process_notif_def mail_markFailed_def mail_markSent_def update_queued_def send_mail_def Let_def
      split: body_text.splits option.splits)

lemma process_sends: "set (nq_sends s) \<subseteq> set (nq_sends (process_notif env s r))"
  by (auto simp: process_notif_def mail_markFailed_def mail_markSent_def update_queued_def send_mail_def Let_def
      split: body_text.splits option.splits)

lemma sends_grow: "set (nq_sends s) \<subseteq> set (nq_sends (foldl (process_notif env) s rs))"
  by (induction rs arbitrary: s) (use process_sends in fastforce)+

lemma render_same:
  assumes "nq_templates s' = nq_templates s" "nq_now s' = nq_now s"
  shows "render_mail env name data s' = render_mail env name data s"
proof -
  have ctx: "render_context env data s' = render_context env data s" by (simp add: render_context_def assms)
  have "handlebars_render env c name data s' = handlebars_render env c name data s" for c
    unfolding handlebars_render_def getByName_def assms ctx by (rule refl)
  then show ?thesis unfolding render_mail_def by presburger
qed

fun spaced :: "int \<Rightarrow> int list \<Rightarrow> bool" where
  "spaced now [] = True"
| "spaced now (t # ts) \<longleftrightarrow> now + 3600000 \<le> t \<and> spaced t ts"

lemma batch_at_inv:
  assumes "mail_inv s" "nq_now s \<le> t"
  shows "mail_inv (batch_at env s t)"
proof -
  have "\<forall>r \<in> set (nq_rows s). row_settled (s\<lparr>nq_now := t\<rparr>) r" using assms row_settled_mono[of s _ "s\<lparr>nq_now := t\<rparr>"]
    by (auto simp: mail_inv_def)
  then have "mail_inv (s\<lparr>nq_now := t\<rparr>)" using assms(1) by (simp add: mail_inv_def)
  then show ?thesis unfolding batch_at_def using batch_inv[of "s\<lparr>nq_now := t\<rparr>" "\<lambda>_. True"] by simp
qed

lemma batches_finish:
  assumes "mail_inv s" "spaced (nq_now s) ts" "0 < batch_size env"
  shows "mail_inv (foldl (batch_at env) s ts) \<and> (mail_work (foldl (batch_at env) s ts) = 0 \<or> mail_work (foldl (batch_at env) s ts) + length ts \<le> mail_work s)"
  using assms
proof (induction ts arbitrary: s)
  case Nil
  then show ?case by simp
next
  case (Cons t ts)
  have t: "nq_now s + 3600000 \<le> t" using Cons.prems(2) by simp
  let ?s = "s\<lparr>nq_now := t\<rparr>"
  have inv: "mail_inv ?s" using Cons.prems(1) t row_settled_mono[of s _ ?s] by (auto simp: mail_inv_def)
  have inv': "mail_inv (batch_at env s t)" using batch_at_inv[OF Cons.prems(1)] t by simp
  have IH: "mail_inv (foldl (batch_at env) (batch_at env s t) ts)
      \<and> (mail_work (foldl (batch_at env) (batch_at env s t) ts) = 0
         \<or> mail_work (foldl (batch_at env) (batch_at env s t) ts) + length ts \<le> mail_work (batch_at env s t))"
    using Cons.IH[OF inv'] Cons.prems by simp
  have "mail_work (batch_at env s t) < mail_work s \<or> mail_work (batch_at env s t) = 0 \<and> mail_work s = 0"
  proof (cases "fetchPending (batch_size env) ?s = []")
    case True
    then have none: "filter (mail_due t) (nq_rows s) = []" using Cons.prems(3) by (simp add: fetchPending_def)
    have "tries_left r = 0" if "r \<in> set (nq_rows s)" for r
      using none that due_later[OF Cons.prems(1) t that] by (auto simp: filter_empty_conv tries_left_def)
    then have "mail_work s = 0" by (simp add: mail_work_def)
    moreover have "batch_at env s t = ?s" using True by (simp add: batch_at_def processBatch_fold)
    ultimately show ?thesis by (simp add: mail_work_def)
  next
    case False
    then show ?thesis using batch_work[OF inv False] by (simp add: batch_at_def mail_work_def)
  qed
  then show ?case using IH by auto
qed

lemma work_bound: "mail_work s \<le> maxAttempts * length (nq_rows s)"
proof -
  have "sum_list (map tries_left xs) \<le> maxAttempts * length xs" for xs by (induction xs) (auto simp: tries_left_def)
  then show ?thesis by (simp add: mail_work_def)
qed

lemma work_zero:
  assumes "mail_inv s" "mail_work s = 0" "r \<in> set (nq_rows s)"
  shows "qn_status r \<noteq> Mail_Pending"
proof
  assume "qn_status r = Mail_Pending"
  then have "0 < tries_left r" using assms(1,3) by (auto simp: mail_inv_def row_settled_def tries_left_def)
  then show False using assms(2,3) by (auto simp: mail_work_def sum_list_eq_0_iff)
qed

section \<open>Properties\<close>


text \<open>C39: Every notification is settled. Take any queue a run has led to and batches an hour apart from each other and from now:
  after five batches for each row, whatever the transport answers, no notification is pending; each was sent or has failed five times.\<close>

theorem mail_settles:
  assumes "mail_run env s" "spaced (nq_now s) ts" "0 < batch_size env" "5 * length (nq_rows s) \<le> length ts"
  shows "\<forall>r \<in> set (nq_rows (foldl (batch_at env) s ts)). qn_status r = Mail_Sent \<or> qn_status r = Mail_Failed \<and> qn_attempts r = 5"
proof -
  let ?t = "foldl (batch_at env) s ts"
  have fin: "mail_inv ?t" "mail_work ?t = 0 \<or> mail_work ?t + length ts \<le> mail_work s"
    using batches_finish[OF mail_run_inv[OF assms(1)] assms(2,3)] by auto
  have "mail_work s \<le> length ts" using work_bound[of s] assms(4) by (simp add: maxAttempts_def)
  then have "mail_work ?t = 0" using fin(2) by linarith
  then have "qn_status r \<noteq> Mail_Pending" if "r \<in> set (nq_rows ?t)" for r using work_zero[OF fin(1)] that by blast
  moreover have "qn_status r = Mail_Failed \<Longrightarrow> qn_attempts r = 5" if "r \<in> set (nq_rows ?t)" for r
    using fin(1) that by (auto simp: mail_inv_def row_settled_def maxAttempts_def)
  ultimately show ?thesis using mail_status.exhaust by metis
qed

text \<open>A worker whose provider refuses the first mail.\<close>

definition demo_worker :: worker where
  "demo_worker = \<lparr>we_transport = (\<lambda>before _. before \<noteq> []), we_batchSize = None, we_handlebars = None,
     we_code = (\<lambda>name _. Some (name, [], [])), we_year = (\<lambda>_. 2025)\<rparr>"

definition new_mailroom :: mailroom where
  "new_mailroom = \<lparr>nq_rows = [], nq_prefs = [], nq_templates = [], nq_sends = [], nq_now = 0, nq_uuid = 1\<rparr>"

definition demo_service :: notification_service where
  "demo_service = \<lparr>ns_appBaseUrl = ''https://app'', ns_brandName = ''WOPR''\<rparr>"

definition demo_mailroom :: mailroom where
  "demo_mailroom = notifyAgentSuspended demo_service ''t1'' ''a@b.c'' ''bot'' ''idle'' new_mailroom"

lemma demo_mailroom_run: "mail_run demo_worker demo_mailroom"
  unfolding demo_mailroom_def notifyAgentSuspended_def service_enqueue_def
  by (intro mail_run.enqueued mail_run.start) (simp_all add: new_mailroom_def)


theorem mail_settles_witness:
  "\<exists>r. nq_rows (foldl (batch_at demo_worker) demo_mailroom (map (\<lambda>k. int k * 3600000) [1..<6])) = [r]
     \<and> qn_attempts r = 1 \<and> qn_status r \<noteq> Mail_Pending"
proof -
  let ?ts = "map (\<lambda>k. int k * 3600000) [1..<6]"
  let ?s = "foldl (batch_at demo_worker) demo_mailroom ?ts"
  have "map qn_attempts (nq_rows ?s) = [1]" by code_simp
  then obtain r where r: "nq_rows ?s = [r]" "qn_attempts r = 1" by (cases "nq_rows ?s") auto
  have "spaced (nq_now demo_mailroom) ?ts" "0 < batch_size demo_worker" "5 * length (nq_rows demo_mailroom) \<le> length ?ts" by code_simp+
  then have "\<forall>r \<in> set (nq_rows ?s). qn_status r = Mail_Sent \<or> qn_status r = Mail_Failed \<and> qn_attempts r = 5"
    by (rule mail_settles[OF demo_mailroom_run])
  then have "qn_status r = Mail_Sent \<or> qn_status r = Mail_Failed \<and> qn_attempts r = 5" unfolding r(1) by (rule bspec) (rule list.set_intros)
  then have "qn_status r \<noteq> Mail_Pending" by (elim disjE conjE) simp_all
  then show ?thesis using r by blast
qed

text \<open>C40: Opting out has no effect. The worker reads the flags of the promise its look-up returns, not of the preferences: a due
  notification that the tenant's stored preferences switch off is handed to the transport all the same, to its address and with its
  text, and is not marked sent unread.\<close>

theorem opt_out_ignored:
  assumes "mail_run env s" "r \<in> set (fetchPending (batch_size env) s)" "qn_data r = Json_Text data"
    and "text_field ''email'' data = Some addr" "addr \<noteq> []" "render_mail env (qn_template r) data s = Some txt"
    and "\<not> isEnabledByPreferences (qn_template r) (prefs_fields (prefs_get (qn_tenantId r) s))"
  shows "\<exists>ok. (qn_id r, worker_mail r addr txt, ok) \<in> set (nq_sends (snd (processBatch env s)))"
proof -
  obtain pre post where f: "fetchPending (batch_size env) s = pre @ r # post" using assms(2) by (meson split_list)
  let ?s = "foldl (process_notif env) s pre"
  have same: "nq_templates (foldl (process_notif env) s' rs) = nq_templates s' \<and> nq_now (foldl (process_notif env) s' rs) = nq_now s'" for s' rs
    by (induction rs arbitrary: s') (simp_all add: process_now process_templates)
  have render: "render_mail env (qn_template r) data ?s = Some txt"
    using assms(6) same[of s pre] render_same by metis
  have "\<exists>ok. (qn_id r, worker_mail r addr txt, ok) \<in> set (nq_sends (process_notif env ?s r))"
    using assms(3,4,5) render by (auto simp: process_notif_def send_mail_def truthy_def Let_def mail_markSent_def mail_markFailed_def update_queued_def)
  then show ?thesis using sends_grow[of "process_notif env ?s r" env post] unfolding processBatch_fold f by fastforce
qed

theorem opt_out_ignored_witness:
  "\<exists>r :: queued. \<not> isEnabledByPreferences (qn_template r) (prefs_fields (prefs_get (qn_tenantId r) demo_mailroom))
     \<and> (\<exists>m ok. (qn_id r, m, ok) \<in> set (nq_sends (snd (processBatch demo_worker demo_mailroom))))"
proof -
  let ?r = "hd (nq_rows demo_mailroom)"
  let ?d = "[(''email'', JStr ''a@b.c''), (''agentName'', JStr ''bot''), (''reason'', JStr ''idle''), (''brandName'', JStr ''WOPR'')]"
  have h: "?r \<in> set (fetchPending (batch_size demo_worker) demo_mailroom)" "qn_data ?r = Json_Text (JObj ?d)"
      "text_field ''email'' (JObj ?d) = Some ''a@b.c''" "render_mail demo_worker (qn_template ?r) (JObj ?d) demo_mailroom = Some (''agent-suspended'', [], [])"
    by code_simp+
  have off: "\<not> isEnabledByPreferences (qn_template ?r) (prefs_fields (prefs_get (qn_tenantId ?r) demo_mailroom))" by code_simp
  obtain ok where "(qn_id ?r, worker_mail ?r ''a@b.c'' (''agent-suspended'', [], []), ok)
      \<in> set (nq_sends (snd (processBatch demo_worker demo_mailroom)))"
    using opt_out_ignored[OF demo_mailroom_run h(1,2,3) _ h(4) off] by auto
  then show ?thesis using off by blast
qed

text \<open>The templates of disputes exist neither in code nor in the defaults: their mails are never handed over.\<close>

lemma dispute_mails_unsendable:
  assumes "name \<in> {''dispute-created'', ''dispute-won'', ''dispute-lost''}" "getByName name s = None"
  shows "render_mail env name data s = None"
  using assms by (auto simp: render_mail_def handlebars_render_def renderNotificationTemplate_def NOTIFICATION_TEMPLATES_def
      split: option.splits)

end
